(* ===== verification/Prelude.thy ===== *)
theory Prelude
  imports
    "HOL-Library.State_Monad"
    "HOL-Library.Monad_Syntax"
    "HOL-Library.Word"
    "HOL-Library.Sublist"
begin

text \<open>
  The shared base of the development: the lemma collections, generic facts on
  lists, and a weakest-precondition calculus for the library's state monad.

  Stateful code of the parser is written in the do notation of
  \<^theory_text>\<open>HOL-Library.State_Monad\<close>.  \<open>wp m Q s\<close> says that running \<open>m\<close> from
  \<open>s\<close> ends with a result and a state related by \<open>Q\<close>; the collection
  \<open>wp_simps\<close> computes it over the program text.  Loops of the source become
  \<open>iterM\<close>, a fuelled loop that keeps the source's shape (one step of the
  body either asks for another round or delivers the result of the loop).
\<close>

named_theorems wp_simps \<open>equations that compute wp over monadic programs\<close>
named_theorems wp_rules \<open>introduction rules that step over a specified operation\<close>

section \<open>Lists\<close>

lemma drop_eq_Cons_iff:
  "drop n xs = y # ys \<longleftrightarrow> n < length xs \<and> xs ! n = y \<and> drop (Suc n) xs = ys"
  by (metis Cons_nth_drop_Suc drop_all leI list.inject list.distinct(1))

lemma suffix_tl [intro, simp]: "suffix (tl xs) xs"
  by (cases xs) (auto simp: suffix_def)

lemma suffix_length: "suffix xs ys \<Longrightarrow> length xs \<le> length ys"
  by (auto simp: suffix_def)

definition substr :: "nat \<Rightarrow> nat \<Rightarrow> 'a list \<Rightarrow> 'a list" where
  \<comment> \<open>the elements of \<open>xs\<close> at the indices from \<open>i\<close> to \<open>j - 1\<close>\<close>
  "substr i j xs = take (j - i) (drop i xs)"

lemma length_substr: "j \<le> length xs \<Longrightarrow> length (substr i j xs) = j - i"
  by (simp add: substr_def)

lemma nth_substr: "k < j - i \<Longrightarrow> j \<le> length xs \<Longrightarrow> substr i j xs ! k = xs ! (i + k)"
  by (simp add: substr_def)

lemma substr_empty [simp]: "substr i i xs = []"
  by (simp add: substr_def)

lemma substr_Cons:
  "i < j \<Longrightarrow> i < length xs \<Longrightarrow> substr i j xs = xs ! i # substr (Suc i) j xs"
  by (cases j) (simp_all add: substr_def Cons_nth_drop_Suc [symmetric] Suc_diff_le)

lemma substr_append:
  assumes "i \<le> j" "j \<le> k"
  shows "substr i j xs @ substr j k xs = substr i k xs"
proof -
  have "take (k - i) (drop i xs) = take (j - i) (drop i xs) @ take (k - j) (drop (j - i) (drop i xs))"
    using take_add [of "j - i" "k - j" "drop i xs"] assms by simp
  then show ?thesis using assms by (simp add: substr_def)
qed

lemma set_substr: "x \<in> set (substr i j xs) \<Longrightarrow> \<exists>k. i \<le> k \<and> k < j \<and> k < length xs \<and> x = xs ! k"
  by (auto simp: substr_def in_set_conv_nth) (metis add_less_cancel_left le_add1 less_diff_conv add.commute)

definition the_default :: "'a \<Rightarrow> 'a option \<Rightarrow> 'a" where
  "the_default d x = (case x of None \<Rightarrow> d | Some y \<Rightarrow> y)"

lemma the_default_simps [simp]: "the_default d None = d" "the_default d (Some y) = y"
  by (simp_all add: the_default_def)

section \<open>The state monad\<close>

definition wp :: "('s, 'a) state \<Rightarrow> ('a \<Rightarrow> 's \<Rightarrow> bool) \<Rightarrow> 's \<Rightarrow> bool" where
  "wp m Q s = (case run_state m s of (r, s') \<Rightarrow> Q r s')"

lemma wp_return [wp_simps]: "wp (State_Monad.return x) Q s = Q x s"
  by (simp add: wp_def)

lemma wp_bind [wp_simps]: "wp (State_Monad.bind m f) Q s = wp m (\<lambda>r. wp (f r) Q) s"
  by (simp add: wp_def split: prod.split)

lemma wp_get [wp_simps]: "wp State_Monad.get Q s = Q s s"
  by (simp add: wp_def)

lemma wp_set [wp_simps]: "wp (State_Monad.set t) Q s = Q () t"
  by (simp add: wp_def)

lemma wp_update [wp_simps]: "wp (State_Monad.update f) Q s = Q () (f s)"
  by (simp add: State_Monad.update_def wp_simps)

lemma wp_if [wp_simps]: "wp (if b then m else m') Q s = (if b then wp m Q s else wp m' Q s)"
  by simp

lemma wp_case_option [wp_simps]:
  "wp (case x of None \<Rightarrow> m | Some y \<Rightarrow> f y) Q s = (case x of None \<Rightarrow> wp m Q s | Some y \<Rightarrow> wp (f y) Q s)"
  by (simp split: option.split)

lemma wp_case_sum [wp_simps]:
  "wp (case x of Inl a \<Rightarrow> f a | Inr b \<Rightarrow> g b) Q s = (case x of Inl a \<Rightarrow> wp (f a) Q s | Inr b \<Rightarrow> wp (g b) Q s)"
  by (simp split: sum.split)

lemma wp_conseq: "wp m P s \<Longrightarrow> (\<And>r t. P r t \<Longrightarrow> Q r t) \<Longrightarrow> wp m Q s"
  by (auto simp: wp_def split: prod.splits)

lemma wp_run: "wp m Q s \<Longrightarrow> run_state m s = (r, t) \<Longrightarrow> Q r t"
  by (simp add: wp_def)

lemma wp_conj: "wp m (\<lambda>r t. P r t \<and> Q r t) s \<longleftrightarrow> wp m P s \<and> wp m Q s"
  by (simp add: wp_def split: prod.split)

definition gets :: "('s \<Rightarrow> 'a) \<Rightarrow> ('s, 'a) state" where
  "gets f = State (\<lambda>s. (f s, s))"

lemma run_gets [simp]: "run_state (gets f) s = (f s, s)"
  by (simp add: gets_def)

lemma wp_gets [wp_simps]: "wp (gets f) Q s = Q (f s) s"
  by (simp add: wp_def)

text \<open>
  \<open>iterM stuck n body a\<close> runs \<open>body a\<close>; a result \<open>Inl a'\<close> starts the next round
  with \<open>a'\<close>, a result \<open>Inr b\<close> leaves the loop with \<open>b\<close>.  After \<open>n\<close> rounds
  \<open>stuck\<close> is run instead.
\<close>

primrec iterM ::
  "('s, 'b) state \<Rightarrow> nat \<Rightarrow> ('a \<Rightarrow> ('s, 'a + 'b) state) \<Rightarrow> 'a \<Rightarrow> ('s, 'b) state" where
  "iterM stuck 0 body a = stuck"
| "iterM stuck (Suc n) body a =
     do { r \<leftarrow> body a;
          (case r of Inl a' \<Rightarrow> iterM stuck n body a' | Inr b \<Rightarrow> State_Monad.return b) }"

text \<open>
  The rule for such a loop: an invariant \<open>I\<close> on the accumulator and the state, and a
  measure that every round that asks for another one decreases.  With at least that
  much fuel the loop is never stuck.
\<close>

lemma wp_iterM:
  assumes body: "\<And>a s. I a s \<Longrightarrow>
      wp (body a) (\<lambda>r t. case r of Inl a' \<Rightarrow> I a' t \<and> \<mu> a' t < \<mu> a s | Inr b \<Rightarrow> Q b t) s"
    and start: "I a s" and fuel: "\<mu> a s < n"
  shows "wp (iterM stuck n body a) Q s"
  using start fuel
proof (induction n arbitrary: a s)
  case 0
  then show ?case by simp
next
  case (Suc n)
  show ?case
    unfolding iterM.simps wp_bind
  proof (rule wp_conseq [OF body [OF Suc.prems(1)]])
    fix r t
    assume "case r of Inl a' \<Rightarrow> I a' t \<and> \<mu> a' t < \<mu> a s | Inr b \<Rightarrow> Q b t"
    then show "wp (case r of Inl a' \<Rightarrow> iterM stuck n body a' | Inr b \<Rightarrow> State_Monad.return b) Q t"
      using Suc.IH Suc.prems(2) by (auto simp: wp_return split: sum.splits)
  qed
qed

end
