(* ===== verification/SourceText.thy ===== *)
theory SourceText
  imports Prelude
begin

text \<open>
  Source locations and the text provider, from
  \<^verbatim>\<open>include/comma/basic/Location.h\<close>,
  \<^verbatim>\<open>include/comma/basic/TextProvider.h\<close> and \<^verbatim>\<open>lib/basic/TextProvider.cpp\<close>.

  A pointer into the buffer is its index.  The memory buffer is terminated by a NUL
  character, so the byte at index \<open>length text\<close> may be read; a read beyond it is the
  error \<open>OutOfBounds\<close>.  An \<^verbatim>\<open>assert\<close> of the source that fails is the error
  \<open>AssertionFailed\<close>.  The line vector is filled lazily by the queries, so each query
  returns the provider it leaves behind.
\<close>

section \<open>Locations\<close>

text \<open>The two bit fields of the class keep 12 and 20 bits of what they are given.\<close>

record location =
  loc_stamp :: "12 word"
  loc_offset :: "20 word"

definition Location0 :: location where
  "Location0 = \<lparr>loc_stamp = 0, loc_offset = 0\<rparr>"

definition mkLocation :: "nat \<Rightarrow> nat \<Rightarrow> location" where
  "mkLocation stamp offset = \<lparr>loc_stamp = of_nat stamp, loc_offset = of_nat offset\<rparr>"

definition loc_isInvalid :: "location \<Rightarrow> bool" where
  "loc_isInvalid l \<longleftrightarrow> loc_offset l = 0"

definition loc_isValid :: "location \<Rightarrow> bool" where
  "loc_isValid l \<longleftrightarrow> \<not> loc_isInvalid l"

definition loc_getOffset :: "location \<Rightarrow> nat" where
  "loc_getOffset l = unat (loc_offset l)"

definition loc_getStamp :: "location \<Rightarrow> nat" where
  "loc_getStamp l = unat (loc_stamp l)"

text \<open>A \<^verbatim>\<open>SourceLocation\<close> keeps the provider it describes, here by its stamp.\<close>

record source_location =
  sl_line :: nat
  sl_column :: nat
  sl_provider :: "nat option"

definition sl_isValid :: "source_location \<Rightarrow> bool" where
  "sl_isValid l \<longleftrightarrow> sl_provider l \<noteq> None"

lemma loc_getOffset_mkLocation: "loc_getOffset (mkLocation st off) = off mod 1048576"
  by (simp add: loc_getOffset_def mkLocation_def unat_of_nat)

lemma loc_getStamp_mkLocation: "loc_getStamp (mkLocation st off) = st mod 4096"
  by (simp add: loc_getStamp_def mkLocation_def unat_of_nat)

lemma loc_isInvalid_mkLocation: "loc_isInvalid (mkLocation st off) \<longleftrightarrow> 1048576 dvd off"
proof -
  have "(of_nat off = (0 :: 20 word)) \<longleftrightarrow> unat (of_nat off :: 20 word) = 0"
    by (metis unat_0 word_unat_eq_iff)
  also have "\<dots> \<longleftrightarrow> 1048576 dvd off"
    by (simp add: unat_of_nat mod_eq_0_iff_dvd)
  finally show ?thesis by (simp add: loc_isInvalid_def mkLocation_def)
qed

section \<open>The provider\<close>

datatype text_error = AssertionFailed | OutOfBounds

record text_provider =
  tp_identity :: string
  tp_stamp :: nat
  tp_text :: string
  tp_lines :: "nat list"
  tp_maxLineIndex :: nat

abbreviation NUL :: char where "NUL \<equiv> CHR 0x00"
abbreviation CR :: char where "CR \<equiv> CHR 0x0D"
abbreviation LF :: char where "LF \<equiv> CHR 0x0A"
abbreviation FF :: char where "FF \<equiv> CHR 0x0C"

text \<open>The byte at an index of the terminated buffer.\<close>

definition fetch :: "string \<Rightarrow> nat \<Rightarrow> char" where
  "fetch buf i = (if i < length buf then buf ! i else NUL)"

definition initializeLinevec :: "text_provider \<Rightarrow> text_provider" where
  "initializeLinevec tp = tp\<lparr>tp_lines := tp_lines tp @ [0], tp_maxLineIndex := 0\<rparr>"

definition mkTextProvider :: "nat \<Rightarrow> string \<Rightarrow> text_provider" where
  "mkTextProvider ID str = initializeLinevec
     \<lparr>tp_identity = [], tp_stamp = ID, tp_text = str, tp_lines = [], tp_maxLineIndex = 0\<rparr>"

definition getLocation :: "text_provider \<Rightarrow> nat \<Rightarrow> location" where
  "getLocation tp ti = mkLocation (tp_stamp tp) ti"

text \<open>
  One round of the loops over the buffer: the cursor after the current character and
  whether it ended a line.  A CR takes a following LF with it.
\<close>

definition stepLine :: "string \<Rightarrow> nat \<Rightarrow> nat \<times> bool" where
  "stepLine buf cursor =
     (let c = fetch buf cursor in
      if c = CR then (if fetch buf (cursor + 1) = LF then (cursor + 2, True) else (cursor + 1, True))
      else if c = LF \<or> c = FF then (cursor + 1, True)
      else (cursor + 1, False))"

lemma stepLine_gt: "cursor < fst (stepLine buf cursor)"
  by (simp add: stepLine_def Let_def)

text \<open>
  The first loop of \<^verbatim>\<open>extendLinevec\<close>: it stops when the cursor is exactly the index.
  \<open>None\<close> is a read past the terminator.
\<close>

function scanLinesTo :: "string \<Rightarrow> nat \<Rightarrow> nat \<Rightarrow> nat list \<Rightarrow> (nat \<times> nat list) option" where
  "scanLinesTo buf index cursor lines =
     (if cursor = index then Some (cursor, lines)
      else if length buf < cursor then None
      else let (cursor', eol) = stepLine buf cursor in
           scanLinesTo buf index cursor' (if eol then lines @ [cursor'] else lines))"
  by pat_completeness auto
termination
  by (relation "measure (\<lambda>(buf, index, cursor, lines). Suc (length buf) - cursor)")
     (auto, metis diff_less_mono2 fst_conv stepLine_gt not_less less_Suc_eq_le)

declare scanLinesTo.simps [simp del]

text \<open>The second loop: the end of the line the index is on, or the end of the buffer.\<close>

function scanLineEnd :: "string \<Rightarrow> nat \<Rightarrow> nat" where
  "scanLineEnd buf cursor =
     (if length buf \<le> cursor then cursor
      else let (cursor', eol) = stepLine buf cursor in
           if eol then cursor' else scanLineEnd buf cursor')"
  by pat_completeness auto
termination
  by (relation "measure (\<lambda>(buf, cursor). length buf - cursor)")
     (auto, metis diff_less_mono2 fst_conv stepLine_gt not_less)

declare scanLineEnd.simps [simp del]

definition extendLinevec :: "text_provider \<Rightarrow> nat \<Rightarrow> text_error + (nat \<times> text_provider)" where
  "extendLinevec tp index =
     (if \<not> index < length (tp_text tp) then Inl AssertionFailed
      else if index < tp_maxLineIndex tp then Inr (0, tp)
      else case scanLinesTo (tp_text tp) index (last (tp_lines tp)) (tp_lines tp) of
             None \<Rightarrow> Inl OutOfBounds
           | Some (cursor, lines) \<Rightarrow>
               let line = length lines;
                   cursor' = scanLineEnd (tp_text tp) cursor
               in Inr (line, tp\<lparr>tp_lines := lines @ [cursor'], tp_maxLineIndex := cursor'\<rparr>))"

definition finishLinevec :: "text_provider \<Rightarrow> text_error + text_provider" where
  "finishLinevec tp = map_sum id snd (extendLinevec tp (length (tp_text tp) - 1))"

text \<open>
  The binary search of \<^verbatim>\<open>getLine\<close>, on the signed indices of the source.  \<open>None\<close> is
  the assertion at the end of the function.
\<close>

function searchLine :: "nat list \<Rightarrow> nat \<Rightarrow> int \<Rightarrow> int \<Rightarrow> nat option" where
  "searchLine lines loc start end =
     (if start \<le> end then
        let mid = (start + end) div 2; max = int (length lines) in
        if lines ! nat mid \<le> loc then
          (if mid + 1 < max then
             (if lines ! nat (mid + 1) \<le> loc then searchLine lines loc (mid + 1) end
              else Some (nat (mid + 1)))
           else Some (nat mid))
        else searchLine lines loc start (mid - 1)
      else None)"
  by pat_completeness auto
termination
  by (relation "measure (\<lambda>(lines, loc, start, end). nat (end - start + 1))") auto

declare searchLine.simps [simp del]

definition getLine :: "text_provider \<Rightarrow> location \<Rightarrow> text_error + (nat \<times> text_provider)" where
  "getLine tp loc =
     (if loc_getStamp loc \<noteq> tp_stamp tp then Inl AssertionFailed
      else if tp_maxLineIndex tp \<le> loc_getOffset loc then extendLinevec tp (loc_getOffset loc)
      else case searchLine (tp_lines tp) (loc_getOffset loc) 0 (int (length (tp_lines tp)) - 1) of
             None \<Rightarrow> Inl AssertionFailed
           | Some line \<Rightarrow> Inr (line, tp))"

definition getColumn :: "text_provider \<Rightarrow> location \<Rightarrow> text_error + (nat \<times> text_provider)" where
  "getColumn tp loc =
     (case getLine tp loc of
        Inl e \<Rightarrow> Inl e
      | Inr (line, tp') \<Rightarrow> Inr (loc_getOffset loc - tp_lines tp' ! (line - 1), tp'))"

definition getLineOf :: "text_provider \<Rightarrow> location \<Rightarrow> text_error + ((nat \<times> nat) \<times> text_provider)" where
  "getLineOf tp loc =
     (case getLine tp loc of
        Inl e \<Rightarrow> Inl e
      | Inr (line, tp') \<Rightarrow> Inr ((tp_lines tp' ! (line - 1), tp_lines tp' ! (line - 1 + 1)), tp'))"

definition getSourceLocation ::
  "text_provider \<Rightarrow> location \<Rightarrow> text_error + (source_location \<times> text_provider)" where
  "getSourceLocation tp loc =
     (case getLine tp loc of
        Inl e \<Rightarrow> Inl e
      | Inr (line, tp') \<Rightarrow>
          (case getColumn tp' loc of
             Inl e \<Rightarrow> Inl e
           | Inr (column, tp'') \<Rightarrow>
               Inr (\<lparr>sl_line = line, sl_column = column, sl_provider = Some (tp_stamp tp)\<rparr>, tp'')))"

text \<open>The text of the line of a source location, its line break included.\<close>

definition extractLine :: "text_provider \<Rightarrow> source_location \<Rightarrow> text_error + string" where
  "extractLine tp sloc =
     (if sl_provider sloc \<noteq> Some (tp_stamp tp) then Inl AssertionFailed
      else Inr (substr (tp_lines tp ! (sl_line sloc - 1)) (tp_lines tp ! sl_line sloc) (tp_text tp)))"

text \<open>The text between two locations, both ends included.\<close>

definition extractRange :: "text_provider \<Rightarrow> location \<Rightarrow> location \<Rightarrow> text_error + string" where
  "extractRange tp start end =
     (let x = loc_getOffset start; y = loc_getOffset end in
      if \<not> x \<le> y then Inl AssertionFailed
      else if \<not> y < length (tp_text tp) then Inl AssertionFailed
      else Inr (substr x (x + (y - x + 1)) (tp_text tp)))"

text \<open>The text between two iterators, the second one excluded.\<close>

definition extractIter :: "text_provider \<Rightarrow> nat \<Rightarrow> nat \<Rightarrow> string" where
  "extractIter tp s e = substr s (s + (e - s)) (tp_text tp)"


section \<open>The line vector\<close>

text \<open>
  The specification: an index starts a line when the character before it ends one, and
  the lines up to an index start at 0 and at the line ends up to it.
\<close>

definition is_line_end :: "string \<Rightarrow> nat \<Rightarrow> bool" where
  "is_line_end buf j \<longleftrightarrow> 0 < j \<and> j \<le> length buf \<and>
     (buf ! (j - 1) = LF \<or> buf ! (j - 1) = FF \<or> (buf ! (j - 1) = CR \<and> fetch buf j \<noteq> LF))"

definition lineStarts :: "string \<Rightarrow> nat \<Rightarrow> nat list" where
  "lineStarts buf i = 0 # filter (is_line_end buf) [1..<Suc i]"

definition lineNumber :: "string \<Rightarrow> nat \<Rightarrow> nat" where
  "lineNumber buf i = length (lineStarts buf i)"

text \<open>An index that is not the LF of a CR LF pair.\<close>

definition boundary :: "string \<Rightarrow> nat \<Rightarrow> bool" where
  "boundary buf i \<longleftrightarrow> \<not> (0 < i \<and> i < length buf \<and> buf ! (i - 1) = CR \<and> buf ! i = LF)"

definition linevec_ok :: "text_provider \<Rightarrow> bool" where
  "linevec_ok tp \<longleftrightarrow>
     (let buf = tp_text tp; m = tp_maxLineIndex tp in
      m \<le> length buf \<and> boundary buf m \<and> (m = 0 \<or> is_line_end buf m \<or> m = length buf) \<and>
      tp_lines tp = lineStarts buf m @ (if m \<noteq> 0 \<and> \<not> is_line_end buf m then [m] else []))"

lemma linevec_ok_mkTextProvider: "linevec_ok (mkTextProvider ID str)"
  by (simp add: linevec_ok_def mkTextProvider_def initializeLinevec_def boundary_def lineStarts_def)

lemma upt_split: "i \<le> j \<Longrightarrow> j \<le> k \<Longrightarrow> [i..<k] = [i..<j] @ [j..<k]"
  using upt_add_eq_append [of i j "k - j"] by simp

lemma lineStarts_append:
  "i \<le> j \<Longrightarrow> lineStarts buf j = lineStarts buf i @ filter (is_line_end buf) [Suc i..<Suc j]"
  using upt_split [of 1 "Suc i" "Suc j"] by (simp add: lineStarts_def)

lemma last_lines:
  assumes "linevec_ok tp"
  shows "last (tp_lines tp) = tp_maxLineIndex tp" and "tp_lines tp \<noteq> []"
  using assms
  by (cases "tp_maxLineIndex tp"; force simp: linevec_ok_def Let_def lineStarts_def)+

lemma stepLine_cases:
  assumes "cursor < length buf"
  shows "stepLine buf cursor =
    (if is_line_end buf (cursor + 1) then (cursor + 1, True)
     else if buf ! cursor = CR then (cursor + 2, True) else (cursor + 1, False))"
  using assms by (auto simp: stepLine_def Let_def is_line_end_def fetch_def)

lemma CRLF_line_end:
  assumes "cursor < length buf" "\<not> is_line_end buf (cursor + 1)" "buf ! cursor = CR"
  shows "cursor + 1 < length buf" "buf ! (cursor + 1) = LF" "is_line_end buf (cursor + 2)"
proof -
  have "fetch buf (cursor + 1) = LF" using assms by (auto simp: is_line_end_def)
  then show "cursor + 1 < length buf" "buf ! (cursor + 1) = LF"
    by (auto simp: fetch_def split: if_splits)
  then show "is_line_end buf (cursor + 2)" by (auto simp: is_line_end_def)
qed

lemma boundary_Suc:
  "is_line_end buf i \<Longrightarrow> boundary buf i"
  "i < length buf \<Longrightarrow> buf ! i \<noteq> CR \<Longrightarrow> boundary buf (Suc i)"
  by (auto simp: is_line_end_def boundary_def fetch_def)

lemma filter_upt_Cons:
  "i < j \<Longrightarrow> filter P [i..<j] = (if P i then i # filter P [Suc i..<j] else filter P [Suc i..<j])"
  by (subst upt_conv_Cons) simp_all

lemma scanLinesTo_spec:
  "cursor \<le> index \<Longrightarrow> index \<le> length buf \<Longrightarrow> boundary buf cursor \<Longrightarrow> boundary buf index \<Longrightarrow>
   scanLinesTo buf index cursor lines =
     Some (index, lines @ filter (is_line_end buf) [Suc cursor..<Suc index])"
proof (induction buf index cursor lines rule: scanLinesTo.induct)
  case (1 buf index cursor lines)
  show ?case
  proof (cases "cursor = index")
    case True
    then show ?thesis by (subst scanLinesTo.simps) simp
  next
    case False
    with "1.prems" have lt: "cursor < index" "cursor < length buf" by auto
    note unf = scanLinesTo.simps [of buf index cursor lines]
    have IH: "scanLinesTo buf index c l =
        Some (index, l @ filter (is_line_end buf) [Suc c..<Suc index])"
      if "stepLine buf cursor = (c, e)" "l = (if e then lines @ [c] else lines)"
        "c \<le> index" "boundary buf c" for c e l
      using "1.IH" [OF False _ that(1) [symmetric] refl] that "1.prems" lt by simp
    consider (eol) "is_line_end buf (cursor + 1)"
      | (crlf) "\<not> is_line_end buf (cursor + 1)" "buf ! cursor = CR"
      | (other) "\<not> is_line_end buf (cursor + 1)" "buf ! cursor \<noteq> CR" by blast
    then show ?thesis
    proof cases
      case eol
      then have "stepLine buf cursor = (cursor + 1, True)" by (simp add: stepLine_cases lt)
      with IH [OF this refl] lt eol False boundary_Suc(1) [OF eol] show ?thesis
        by (simp add: unf filter_upt_Cons [of "Suc cursor"] del: upt_Suc)
    next
      case crlf
      note C = CRLF_line_end [OF lt(2) crlf]
      have "index \<noteq> cursor + 1"
        using "1.prems"(4) crlf C by (auto simp: boundary_def)
      with lt have "cursor + 2 \<le> index" by simp
      moreover have "stepLine buf cursor = (cursor + 2, True)" using crlf by (simp add: stepLine_cases lt)
      ultimately show ?thesis
        using IH [of "cursor + 2" True] crlf C lt False boundary_Suc(1) [OF C(3)]
        by (simp add: unf filter_upt_Cons [of "Suc cursor"] filter_upt_Cons [of "Suc (Suc cursor)"]
            del: upt_Suc)
    next
      case other
      then have "stepLine buf cursor = (cursor + 1, False)" by (simp add: stepLine_cases lt)
      with IH [OF this refl] other lt False boundary_Suc(2) [OF lt(2) other(2)] show ?thesis
        by (simp add: unf filter_upt_Cons [of "Suc cursor"] del: upt_Suc)
    qed
  qed
qed

lemma scanLineEnd_spec:
  "cursor < length buf \<Longrightarrow> boundary buf cursor \<Longrightarrow> e = scanLineEnd buf cursor \<Longrightarrow>
   cursor < e \<and> e \<le> length buf \<and> filter (is_line_end buf) [Suc cursor..<e] = [] \<and>
   (is_line_end buf e \<or> e = length buf) \<and> boundary buf e"
proof (induction buf cursor rule: scanLineEnd.induct)
  case (1 buf cursor)
  note lt = "1.prems"(1)
  note unf = scanLineEnd.simps [of buf cursor] stepLine_cases [OF lt]
  consider (eol) "is_line_end buf (cursor + 1)"
    | (crlf) "\<not> is_line_end buf (cursor + 1)" "buf ! cursor = CR"
    | (other) "\<not> is_line_end buf (cursor + 1)" "buf ! cursor \<noteq> CR" by blast
  then show ?case
  proof cases
    case eol
    with "1.prems" boundary_Suc(1) [OF eol] show ?thesis by (simp add: unf)
  next
    case crlf
    note C = CRLF_line_end [OF lt crlf]
    then show ?thesis using "1.prems" crlf boundary_Suc(1) [OF C(3)] by (simp add: unf)
  next
    case other
    have e: "e = scanLineEnd buf (cursor + 1)" using "1.prems" other by (simp add: unf)
    show ?thesis
    proof (cases "cursor + 1 < length buf")
      case True
      note IH = "1.IH" [OF _ surjective_pairing [symmetric], unfolded stepLine_cases [OF lt]]
      from IH True e other lt boundary_Suc(2) [OF lt other(2)]
      have "cursor + 1 < e \<and> e \<le> length buf \<and> filter (is_line_end buf) [Suc (cursor + 1)..<e] = [] \<and>
        (is_line_end buf e \<or> e = length buf) \<and> boundary buf e" by simp
      with other show ?thesis by (simp add: filter_upt_Cons [of "Suc cursor"])
    next
      case False
      with lt have "e = cursor + 1" "cursor + 1 = length buf" using e by (auto simp: scanLineEnd.simps)
      then show ?thesis by (auto simp: boundary_def)
    qed
  qed
qed

lemma extendLinevec_spec:
  assumes ok: "linevec_ok tp" and idx: "index < length (tp_text tp)" "tp_maxLineIndex tp \<le> index"
    and b: "boundary (tp_text tp) index"
  shows "\<exists>tp'. extendLinevec tp index = Inr (lineNumber (tp_text tp) index, tp') \<and> linevec_ok tp' \<and>
    index < tp_maxLineIndex tp' \<and> tp_text tp' = tp_text tp \<and> tp_stamp tp' = tp_stamp tp"
proof -
  let ?buf = "tp_text tp" and ?m = "tp_maxLineIndex tp"
  define e where "e = scanLineEnd ?buf index"
  have lines: "tp_lines tp = lineStarts ?buf ?m"
    using ok idx by (auto simp: linevec_ok_def Let_def)
  have "scanLinesTo ?buf index ?m (lineStarts ?buf ?m) = Some (index, lineStarts ?buf index)"
    using ok idx b by (subst scanLinesTo_spec)
      (auto simp: linevec_ok_def Let_def lineStarts_append [of ?m index])
  then have ext: "extendLinevec tp index = Inr (lineNumber ?buf index,
      tp\<lparr>tp_lines := lineStarts ?buf index @ [e], tp_maxLineIndex := e\<rparr>)"
    using idx last_lines [OF ok]
    by (simp add: extendLinevec_def lines [symmetric] lineNumber_def Let_def e_def)
  have E: "index < e" "e \<le> length ?buf" "filter (is_line_end ?buf) [Suc index..<e] = []"
     "is_line_end ?buf e \<or> e = length ?buf" "boundary ?buf e"
    using scanLineEnd_spec [OF idx(1) b e_def] by auto
  have "lineStarts ?buf e = lineStarts ?buf index @ (if is_line_end ?buf e then [e] else [])"
    using E(1,3) by (simp add: lineStarts_append [of index e])
  with E have "linevec_ok (tp\<lparr>tp_lines := lineStarts ?buf index @ [e], tp_maxLineIndex := e\<rparr>)"
    by (auto simp: linevec_ok_def Let_def)
  with ext E(1) show ?thesis by auto
qed

lemma sorted_lineStarts: "sorted_wrt (<) (lineStarts buf m)"
  by (auto simp: lineStarts_def simp del: upt_Suc intro!: sorted_wrt_filter)

lemma sorted_lines:
  assumes "linevec_ok tp"
  shows "sorted_wrt (<) (tp_lines tp)"
proof -
  have "\<forall>x \<in> set (lineStarts buf m). m \<noteq> 0 \<longrightarrow> \<not> is_line_end buf m \<longrightarrow> x < m" for buf m
    by (auto simp: lineStarts_def le_less)
  then show ?thesis
    using assms by (auto simp: linevec_ok_def Let_def sorted_wrt_append sorted_lineStarts)
qed

text \<open>The binary search: where the vector brackets the offset, it finds the bracket.\<close>

lemma searchLine_spec:
  "sorted_wrt (<) lines \<Longrightarrow> 0 \<le> start \<Longrightarrow> end < int (length lines) \<Longrightarrow> start \<le> end \<Longrightarrow>
   lines ! nat start \<le> loc \<Longrightarrow> loc < last lines \<Longrightarrow>
   (end + 1 < int (length lines) \<longrightarrow> loc < lines ! nat (end + 1)) \<Longrightarrow>
   \<exists>k. searchLine lines loc start end = Some k \<and> 0 < k \<and> k < length lines \<and>
     lines ! (k - 1) \<le> loc \<and> loc < lines ! k"
proof (induction lines loc start "end" rule: searchLine.induct)
  case (1 lines loc start "end")
  define mid where "mid = (start + end) div 2"
  have mid: "start \<le> mid" "mid \<le> end" using "1.prems" by (auto simp: mid_def)
  have lst: "last lines = lines ! (length lines - 1)" using "1.prems" by (subst last_conv_nth) auto
  show ?case
  proof (cases "lines ! nat mid \<le> loc")
    case up: True
    then have "nat mid \<noteq> length lines - 1" using lst "1.prems" by auto
    then have more: "mid + 1 < int (length lines)" using mid "1.prems" by auto
    show ?thesis
    proof (cases "lines ! nat (mid + 1) \<le> loc")
      case True
      then have "mid \<noteq> end" using "1.prems"(7) more by auto
      with mid have "mid + 1 \<le> end" by simp
      then show ?thesis
        using "1.IH"(1) [OF _ mid_def refl] "1.prems" up more True mid
        by (subst searchLine.simps) (simp add: Let_def mid_def [symmetric])
    next
      case False
      then show ?thesis
        using up more mid "1.prems"
        by (subst searchLine.simps) (auto simp: Let_def mid_def [symmetric] nat_add_distrib)
    qed
  next
    case False
    then have "start \<noteq> mid" using "1.prems" by auto
    with mid have "start \<le> mid - 1" by auto
    then show ?thesis
      using "1.IH"(2) [OF _ mid_def refl] "1.prems" False mid
      by (subst searchLine.simps) (simp add: Let_def mid_def [symmetric])
  qed
qed

lemma bracket_count:
  assumes "sorted_wrt (<) (xs :: nat list)" "0 < k" "k < length xs" "xs ! (k - 1) \<le> v" "v < xs ! k"
  shows "filter (\<lambda>x. x \<le> v) xs = take k xs"
proof -
  have "\<forall>x \<in> set (take k xs). x \<le> v"
  proof
    fix x assume "x \<in> set (take k xs)"
    then obtain i where i: "i < k" "x = xs ! i" by (auto simp: in_set_conv_nth)
    then show "x \<le> v"
      using assms sorted_wrt_nth_less [OF assms(1), of i "k - 1"] by (cases "i = k - 1") force+
  qed
  moreover have "\<forall>x \<in> set (drop k xs). \<not> x \<le> v"
  proof
    fix x assume "x \<in> set (drop k xs)"
    then obtain i where "k + i < length xs" "x = xs ! (k + i)"
      using assms(3) by (auto simp: in_set_conv_nth less_diff_conv add.commute)
    then show "\<not> x \<le> v"
      using assms sorted_wrt_nth_less [OF assms(1), of k "k + i"] by (cases "i = 0") auto
  qed
  ultimately have "filter (\<lambda>x. x \<le> v) (take k xs @ drop k xs) = take k xs"
    by (subst filter_append) (simp add: filter_id_conv filter_empty_conv)
  then show ?thesis by simp
qed

lemma filter_lines:
  assumes "linevec_ok tp" "v < tp_maxLineIndex tp"
  shows "filter (\<lambda>x. x \<le> v) (tp_lines tp) = lineStarts (tp_text tp) v"
proof -
  let ?buf = "tp_text tp" and ?m = "tp_maxLineIndex tp"
  have "filter (\<lambda>x. x \<le> v) (lineStarts ?buf ?m) =
      filter (\<lambda>x. x \<le> v) (lineStarts ?buf v) @
      filter (\<lambda>x. x \<le> v) (filter (is_line_end ?buf) [Suc v..<Suc ?m])"
    using assms(2) by (subst lineStarts_append [of v ?m]) auto
  also have "filter (\<lambda>x. x \<le> v) (lineStarts ?buf v) = lineStarts ?buf v"
    by (simp add: filter_id_conv lineStarts_def del: upt_Suc filter_filter)
  also have "filter (\<lambda>x. x \<le> v) (filter (is_line_end ?buf) [Suc v..<Suc ?m]) = []"
    by (auto simp: filter_empty_conv)
  finally have "filter (\<lambda>x. x \<le> v) (lineStarts ?buf ?m) = lineStarts ?buf v" by simp
  then show ?thesis using assms by (auto simp: linevec_ok_def Let_def)
qed

text \<open>What a query returns, and that it keeps the invariant of the lazily filled vector.\<close>

lemma getLine_spec:
  assumes ok: "linevec_ok tp" and st: "loc_getStamp loc = tp_stamp tp"
    and off: "loc_getOffset loc < length (tp_text tp)" "boundary (tp_text tp) (loc_getOffset loc)"
  shows "\<exists>tp'. getLine tp loc = Inr (lineNumber (tp_text tp) (loc_getOffset loc), tp') \<and>
    linevec_ok tp' \<and> loc_getOffset loc < tp_maxLineIndex tp' \<and>
    tp_text tp' = tp_text tp \<and> tp_stamp tp' = tp_stamp tp"
proof (cases "tp_maxLineIndex tp \<le> loc_getOffset loc")
  case True
  then show ?thesis using extendLinevec_spec [OF ok off(1) True off(2)] st by (auto simp: getLine_def)
next
  case False
  let ?v = "loc_getOffset loc" and ?L = "tp_lines tp"
  have ne: "?L \<noteq> []" and lst: "?v < last ?L" using last_lines [OF ok] False by auto
  have hd: "?L ! 0 = 0" using ok by (auto simp: linevec_ok_def Let_def lineStarts_def nth_append)
  obtain k where k: "searchLine ?L ?v 0 (int (length ?L) - 1) = Some k"
     "0 < k" "k < length ?L" "?L ! (k - 1) \<le> ?v" "?v < ?L ! k"
    using searchLine_spec [OF sorted_lines [OF ok], of 0 "int (length ?L) - 1" ?v] ne lst hd
    by (auto simp: Suc_le_eq)
  have "filter (\<lambda>x. x \<le> ?v) ?L = take k ?L" by (rule bracket_count [OF sorted_lines [OF ok] k(2-5)])
  with k(3) have "length (lineStarts (tp_text tp) ?v) = k"
    using filter_lines [OF ok, of ?v] False by (metis length_take min.absorb4 not_le)
  with k(1) st ok False show ?thesis by (simp add: getLine_def lineNumber_def)
qed

lemma lineStart_le: "x \<in> set (lineStarts buf i) \<Longrightarrow> x \<le> i"
  by (auto simp: lineStarts_def)

lemma lines_prefix:
  assumes "linevec_ok tp" "v < tp_maxLineIndex tp"
  shows "\<exists>rest. tp_lines tp = lineStarts (tp_text tp) v @ rest \<and> rest \<noteq> [] \<and> v < hd rest"
proof -
  let ?k = "lineNumber (tp_text tp) v"
  have flt: "filter (\<lambda>x. x \<le> v) (tp_lines tp) = lineStarts (tp_text tp) v"
    by (rule filter_lines [OF assms])
  have tw: "filter (\<lambda>x. x \<le> v) xs = takeWhile (\<lambda>x. x \<le> v) xs" if "sorted_wrt (<) xs" for xs :: "nat list"
  proof (rule takeWhile_eq_filter [symmetric])
    fix x assume "x \<in> set (dropWhile (\<lambda>x. x \<le> v) xs)"
    moreover from that have "sorted_wrt (<) (dropWhile (\<lambda>x. x \<le> v) xs)"
      by (simp add: sorted_wrt_dropWhile)
    ultimately show "\<not> x \<le> v"
      by (cases "dropWhile (\<lambda>x. x \<le> v) xs") (auto simp: dropWhile_eq_Cons_conv)
  qed
  have eq: "tp_lines tp = lineStarts (tp_text tp) v @ dropWhile (\<lambda>x. x \<le> v) (tp_lines tp)"
    using tw [OF sorted_lines [OF assms(1)]] flt by (metis takeWhile_dropWhile_id)
  have "last (tp_lines tp) \<in> set (tp_lines tp)" "\<not> last (tp_lines tp) \<le> v"
    using last_lines [OF assms(1)] assms(2) last_in_set [of "tp_lines tp"] by simp_all
  then have ne: "dropWhile (\<lambda>x. x \<le> v) (tp_lines tp) \<noteq> []" by (auto simp: dropWhile_eq_Nil_conv)
  then have "v < hd (dropWhile (\<lambda>x. x \<le> v) (tp_lines tp))"
    using hd_dropWhile [OF ne] by simp
  with eq ne show ?thesis by blast
qed

lemma lines_at:
  assumes "linevec_ok tp" "v < tp_maxLineIndex tp"
  shows "tp_lines tp ! (lineNumber (tp_text tp) v - 1) = last (lineStarts (tp_text tp) v)"
    and "lineNumber (tp_text tp) v < length (tp_lines tp)"
    and "v < tp_lines tp ! lineNumber (tp_text tp) v"
proof -
  obtain rest where r: "tp_lines tp = lineStarts (tp_text tp) v @ rest" "rest \<noteq> []" "v < hd rest"
    using lines_prefix [OF assms] by blast
  have ne: "lineStarts (tp_text tp) v \<noteq> []" by (simp add: lineStarts_def)
  then show "tp_lines tp ! (lineNumber (tp_text tp) v - 1) = last (lineStarts (tp_text tp) v)"
    by (simp add: r(1) lineNumber_def nth_append last_conv_nth)
  show "lineNumber (tp_text tp) v < length (tp_lines tp)" using r(1,2) by (simp add: lineNumber_def)
  show "v < tp_lines tp ! lineNumber (tp_text tp) v"
    using r by (simp add: lineNumber_def nth_append hd_conv_nth)
qed


lemma sorted_wrt_le_last: "sorted_wrt (<) (xs :: nat list) \<Longrightarrow> i < length xs \<Longrightarrow> xs ! i \<le> last xs"
  using sorted_wrt_nth_less [of "(<)" xs i "length xs - 1"]
  by (cases "xs = []"; cases "i = length xs - 1") (auto simp: last_conv_nth less_imp_le)

lemma last_lineStarts_greatest: "is_line_end buf j \<Longrightarrow> j \<le> i \<Longrightarrow> j \<le> last (lineStarts buf i)"
proof -
  assume j: "is_line_end buf j" "j \<le> i"
  then have "j \<in> set (lineStarts buf i)"
    by (auto simp: lineStarts_def less_Suc_eq_le is_line_end_def simp del: upt_Suc)
  then show ?thesis
    using sorted_wrt_le_last [OF sorted_lineStarts] by (metis in_set_conv_nth)
qed

lemma scanLinesTo_past: "index < cursor \<Longrightarrow> scanLinesTo buf index cursor lines = None"
proof (induction buf index cursor lines rule: scanLinesTo.induct)
  case (1 buf index cursor lines)
  then show ?case
    using stepLine_gt [of cursor buf]
    by (subst scanLinesTo.simps) (auto simp: split: prod.split)
qed

lemma scanLinesTo_overshoot:
  "cursor < index \<Longrightarrow> index < length buf \<Longrightarrow> boundary buf cursor \<Longrightarrow>
   buf ! (index - 1) = CR \<Longrightarrow> buf ! index = LF \<Longrightarrow> scanLinesTo buf index cursor lines = None"
proof (induction buf index cursor lines rule: scanLinesTo.induct)
  case (1 buf index cursor lines)
  then have lt: "cursor < length buf" and ne: "cursor \<noteq> index" by auto
  obtain c e where st: "stepLine buf cursor = (c, e)" by fastforce
  have "index < c \<or> c < index \<and> boundary buf c"
  proof (cases "is_line_end buf (cursor + 1) \<or> buf ! cursor \<noteq> CR")
    case True
    then have "c = cursor + 1" using st by (auto simp: stepLine_cases [OF lt] split: if_splits)
    moreover have "boundary buf (cursor + 1)"
      using True boundary_Suc(2) [OF lt] boundary_Suc(1) by auto
    moreover have "cursor + 1 \<noteq> index"
      using calculation(2) "1.prems" by (auto simp: boundary_def)
    ultimately show ?thesis using "1.prems" by auto
  next
    case False
    note C = CRLF_line_end [OF lt, of] False
    then have "c = cursor + 2" using st by (auto simp: stepLine_cases [OF lt] split: if_splits)
    moreover have "is_line_end buf (cursor + 2)" using CRLF_line_end [OF lt] False by blast
    moreover have "cursor + 2 \<noteq> index"
      using CRLF_line_end(2) [OF lt] False "1.prems"(4) by auto
    ultimately show ?thesis using "1.prems"(1) boundary_Suc(1) by fastforce
  qed
  then show ?case
    using "1.IH" [OF ne _ st [symmetric] refl] "1.prems" lt st scanLinesTo_past
    by (subst scanLinesTo.simps) auto
qed

lemma getSourceLocation_maxLine:
  assumes "linevec_ok tp" "loc_getStamp loc = tp_stamp tp"
    "loc_getOffset loc < length (tp_text tp)" "boundary (tp_text tp) (loc_getOffset loc)"
  shows "\<exists>tp'. getSourceLocation tp loc =
      Inr (\<lparr>sl_line = lineNumber (tp_text tp) (loc_getOffset loc),
            sl_column = loc_getOffset loc - last (lineStarts (tp_text tp) (loc_getOffset loc)),
            sl_provider = Some (tp_stamp tp)\<rparr>, tp') \<and>
    linevec_ok tp' \<and> tp_text tp' = tp_text tp \<and> tp_stamp tp' = tp_stamp tp \<and>
    loc_getOffset loc < tp_maxLineIndex tp'"
proof -
  let ?v = "loc_getOffset loc"
  obtain tp1 where 1: "getLine tp loc = Inr (lineNumber (tp_text tp) ?v, tp1)" "linevec_ok tp1"
      "?v < tp_maxLineIndex tp1" "tp_text tp1 = tp_text tp" "tp_stamp tp1 = tp_stamp tp"
    using getLine_spec [OF assms] by blast
  obtain tp2 where 2: "getLine tp1 loc = Inr (lineNumber (tp_text tp) ?v, tp2)" "linevec_ok tp2"
      "?v < tp_maxLineIndex tp2" "tp_text tp2 = tp_text tp" "tp_stamp tp2 = tp_stamp tp"
    using getLine_spec [OF 1(2)] assms 1(4,5) by auto
  have "getColumn tp1 loc = Inr (?v - last (lineStarts (tp_text tp) ?v), tp2)"
    using 2(1) lines_at(1) [OF 2(2,3)] 2(4) by (simp add: getColumn_def)
  with 1(1) 2 show ?thesis by (simp add: getSourceLocation_def)
qed

section \<open>Properties\<close>



text \<open>
  The line extracted for a diagnostic contains the offending character at exactly
  the reported column, and no line ends before that column.
\<close>

theorem extractLine_correct:
  assumes "linevec_ok tp" "loc_getStamp loc = tp_stamp tp"
    "loc_getOffset loc < length (tp_text tp)" "boundary (tp_text tp) (loc_getOffset loc)"
  shows "\<exists>sloc tp' line. getSourceLocation tp loc = Inr (sloc, tp') \<and>
    extractLine tp' sloc = Inr line \<and> sl_column sloc < length line \<and>
    line ! sl_column sloc = tp_text tp ! loc_getOffset loc \<and>
    (\<forall>j. loc_getOffset loc - sl_column sloc < j \<and> j \<le> loc_getOffset loc \<longrightarrow> \<not> is_line_end (tp_text tp) j)"
proof -
  let ?v = "loc_getOffset loc" and ?b = "tp_text tp"
  let ?s = "last (lineStarts ?b ?v)"
  obtain tp' where tp': "getSourceLocation tp loc = Inr (\<lparr>sl_line = lineNumber ?b ?v,
      sl_column = ?v - ?s, sl_provider = Some (tp_stamp tp)\<rparr>, tp')"
      "linevec_ok tp'" "tp_text tp' = ?b" "tp_stamp tp' = tp_stamp tp" "?v < tp_maxLineIndex tp'"
    using getSourceLocation_maxLine [OF assms] by blast
  define e where "e = tp_lines tp' ! lineNumber ?b ?v"
  note L = lines_at [OF tp'(2,5), unfolded tp'(3), folded e_def]
  have e: "e \<le> length ?b"
  proof -
    have "e \<le> last (tp_lines tp')"
      unfolding e_def by (rule sorted_wrt_le_last [OF sorted_lines [OF tp'(2)] L(2)])
    also have "\<dots> \<le> length ?b"
      using last_lines [OF tp'(2)] tp'(2,3) by (simp add: linevec_ok_def Let_def)
    finally show ?thesis .
  qed
  have s: "?s \<le> ?v" by (rule lineStart_le [of _ ?b]) (rule last_in_set, simp add: lineStarts_def)
  have "extractLine tp' \<lparr>sl_line = lineNumber ?b ?v, sl_column = ?v - ?s,
      sl_provider = Some (tp_stamp tp)\<rparr> = Inr (substr ?s e ?b)"
    using L tp'(3,4) by (simp add: extractLine_def e_def)
  moreover have "?v - ?s < length (substr ?s e ?b)" "substr ?s e ?b ! (?v - ?s) = ?b ! ?v"
    using s e L(3) by (simp_all add: length_substr nth_substr)
  moreover have "\<not> is_line_end ?b j" if "?v - (?v - ?s) < j" "j \<le> ?v" for j
    using that s last_lineStarts_greatest [of ?b j ?v] by auto
  ultimately show ?thesis using tp'(1) by auto
qed

theorem extractLine_witness:
  "\<exists>sloc tp' line. getSourceLocation (mkTextProvider 7 ''ab\<newline>cd'') (mkLocation 7 4) = Inr (sloc, tp') \<and>
    extractLine tp' sloc = Inr line \<and> sl_column sloc < length line \<and>
    line ! sl_column sloc = CHR ''d''"
proof -
  let ?tp = "mkTextProvider 7 ''ab\<newline>cd''" and ?l = "mkLocation 7 4"
  have o: "loc_getOffset ?l = 4" "loc_getStamp ?l = 7"
    by (simp_all add: loc_getOffset_mkLocation loc_getStamp_mkLocation)
  have t: "tp_text ?tp = ''ab\<newline>cd''" "tp_stamp ?tp = 7"
    by (simp_all add: mkTextProvider_def initializeLinevec_def)
  show ?thesis
    using extractLine_correct [of ?tp ?l] linevec_ok_mkTextProvider [of 7 "''ab\<newline>cd''"]
    by (simp add: o t boundary_def) blast
qed

text \<open>
  The line of the LF of a CR LF pair that the line vector does not cover yet cannot
  be computed: the cursor steps over the index and runs past the buffer.
\<close>

theorem getLine_inside_CRLF:
  assumes ok: "linevec_ok tp" and st: "loc_getStamp loc = tp_stamp tp"
    and off: "loc_getOffset loc < length (tp_text tp)" "\<not> boundary (tp_text tp) (loc_getOffset loc)"
    and new: "tp_maxLineIndex tp < loc_getOffset loc"
  shows "getLine tp loc = Inl OutOfBounds"
proof -
  let ?b = "tp_text tp" and ?m = "tp_maxLineIndex tp" and ?v = "loc_getOffset loc"
  have cr: "0 < ?v" "?b ! (?v - 1) = CR" "?b ! ?v = LF" using off(2) by (auto simp: boundary_def)
  have "boundary ?b (?v - 1)" using cr by (auto simp: boundary_def)
  with ok new off(1) have "scanLinesTo ?b ?v ?m l = None" for l
    by (intro scanLinesTo_overshoot) (auto simp: linevec_ok_def Let_def cr cr(2) [simplified])
  with last_lines [OF ok] st off new show ?thesis by (simp add: getLine_def extendLinevec_def)
qed

theorem getLine_inside_CRLF_witness:
  "getLine (mkTextProvider 1 (''a'' @ [CR, LF])) (mkLocation 1 2) = Inl OutOfBounds"
proof -
  let ?tp = "mkTextProvider 1 (''a'' @ [CR, LF])" and ?l = "mkLocation 1 2"
  have o: "loc_getOffset ?l = 2" "loc_getStamp ?l = 1"
    by (simp_all add: loc_getOffset_mkLocation loc_getStamp_mkLocation)
  have t: "tp_text ?tp = ''a'' @ [CR, LF]" "tp_stamp ?tp = 1" "tp_maxLineIndex ?tp = 0"
    by (simp_all add: mkTextProvider_def initializeLinevec_def)
  show ?thesis
    by (rule getLine_inside_CRLF)
      (simp_all only: o t linevec_ok_mkTextProvider, simp_all add: boundary_def)
qed

end
