(* ===== verification/Tokens.thy ===== *)
theory Tokens
  imports SourceText
begin

text \<open>
  The token codes and the tokens: \<^verbatim>\<open>include/comma/parser/Tokens.def\<close>, the
  declarations of \<^verbatim>\<open>Lexer::Code\<close> and \<^verbatim>\<open>Lexer::Token\<close> in
  \<^verbatim>\<open>include/comma/parser/Lexer.h\<close>, and the functions of
  \<^verbatim>\<open>lib/parser/Lexer.cpp\<close> that map codes to strings and names to codes.

  The macros \<^verbatim>\<open>RESERVED\<close> and \<^verbatim>\<open>GLYPH\<close> of the table are the constructors
  \<open>RESERVED\<close> and \<open>GLYPH\<close>; the enumerators keep their names as abbreviations.
\<close>

section \<open>Codes\<close>

datatype (plugins only: code) reserved =
    R_ABSTRACT | R_ACCESS | R_ALL | R_AND | R_ARRAY | R_BEGIN
  | R_BODY | R_DECLARE | R_DIGITS | R_ELSE | R_ELSIF | R_END
  | R_EXCEPTION | R_EXIT | R_FOR | R_FUNCTION | R_GENERIC | R_IF
  | R_IN | R_IS | R_LIMITED | R_LOOP | R_MOD | R_NEW
  | R_NOT | R_NULL | R_OF | R_OR | R_OUT | R_OTHERS
  | R_PACKAGE | R_RAISE | R_PRAGMA | R_PRIVATE | R_PROCEDURE | R_RANGE
  | R_RECORD | R_REM | R_RENAMES | R_RETURN | R_REVERSE | R_SUBTYPE
  | R_THEN | R_TYPE | R_USE | R_WHEN | R_WHILE | R_WITH
  | R_XOR

datatype (plugins only: code) glyph =
    G_COMMA | G_COLON | G_DOT | G_SEMI | G_PERCENT | G_AMPER
  | G_STAR | G_PLUS | G_MINUS | G_LESS | G_EQUAL | G_GREAT
  | G_QUOTE | G_FSLASH | G_BAR | G_LPAREN | G_RPAREN | G_DDOT
  | G_RDARROW | G_LEQ | G_DIAMOND | G_GEQ | G_NEQUAL | G_POW
  | G_ASSIGN | G_EOT | G_ERROR

datatype (plugins only: code) code =
    UNUSED_ID
  | RESERVED reserved
  | GLYPH glyph
  | TKN_ATTRIBUTE | TKN_IDENTIFIER | TKN_INTEGER | TKN_REAL | TKN_STRING | TKN_CHARACTER

abbreviation "TKN_ABSTRACT \<equiv> RESERVED R_ABSTRACT"
abbreviation "TKN_ACCESS \<equiv> RESERVED R_ACCESS"
abbreviation "TKN_ALL \<equiv> RESERVED R_ALL"
abbreviation "TKN_AND \<equiv> RESERVED R_AND"
abbreviation "TKN_ARRAY \<equiv> RESERVED R_ARRAY"
abbreviation "TKN_BEGIN \<equiv> RESERVED R_BEGIN"
abbreviation "TKN_BODY \<equiv> RESERVED R_BODY"
abbreviation "TKN_DECLARE \<equiv> RESERVED R_DECLARE"
abbreviation "TKN_DIGITS \<equiv> RESERVED R_DIGITS"
abbreviation "TKN_ELSE \<equiv> RESERVED R_ELSE"
abbreviation "TKN_ELSIF \<equiv> RESERVED R_ELSIF"
abbreviation "TKN_END \<equiv> RESERVED R_END"
abbreviation "TKN_EXCEPTION \<equiv> RESERVED R_EXCEPTION"
abbreviation "TKN_EXIT \<equiv> RESERVED R_EXIT"
abbreviation "TKN_FOR \<equiv> RESERVED R_FOR"
abbreviation "TKN_FUNCTION \<equiv> RESERVED R_FUNCTION"
abbreviation "TKN_GENERIC \<equiv> RESERVED R_GENERIC"
abbreviation "TKN_IF \<equiv> RESERVED R_IF"
abbreviation "TKN_IN \<equiv> RESERVED R_IN"
abbreviation "TKN_IS \<equiv> RESERVED R_IS"
abbreviation "TKN_LIMITED \<equiv> RESERVED R_LIMITED"
abbreviation "TKN_LOOP \<equiv> RESERVED R_LOOP"
abbreviation "TKN_MOD \<equiv> RESERVED R_MOD"
abbreviation "TKN_NEW \<equiv> RESERVED R_NEW"
abbreviation "TKN_NOT \<equiv> RESERVED R_NOT"
abbreviation "TKN_NULL \<equiv> RESERVED R_NULL"
abbreviation "TKN_OF \<equiv> RESERVED R_OF"
abbreviation "TKN_OR \<equiv> RESERVED R_OR"
abbreviation "TKN_OUT \<equiv> RESERVED R_OUT"
abbreviation "TKN_OTHERS \<equiv> RESERVED R_OTHERS"
abbreviation "TKN_PACKAGE \<equiv> RESERVED R_PACKAGE"
abbreviation "TKN_RAISE \<equiv> RESERVED R_RAISE"
abbreviation "TKN_PRAGMA \<equiv> RESERVED R_PRAGMA"
abbreviation "TKN_PRIVATE \<equiv> RESERVED R_PRIVATE"
abbreviation "TKN_PROCEDURE \<equiv> RESERVED R_PROCEDURE"
abbreviation "TKN_RANGE \<equiv> RESERVED R_RANGE"
abbreviation "TKN_RECORD \<equiv> RESERVED R_RECORD"
abbreviation "TKN_REM \<equiv> RESERVED R_REM"
abbreviation "TKN_RENAMES \<equiv> RESERVED R_RENAMES"
abbreviation "TKN_RETURN \<equiv> RESERVED R_RETURN"
abbreviation "TKN_REVERSE \<equiv> RESERVED R_REVERSE"
abbreviation "TKN_SUBTYPE \<equiv> RESERVED R_SUBTYPE"
abbreviation "TKN_THEN \<equiv> RESERVED R_THEN"
abbreviation "TKN_TYPE \<equiv> RESERVED R_TYPE"
abbreviation "TKN_USE \<equiv> RESERVED R_USE"
abbreviation "TKN_WHEN \<equiv> RESERVED R_WHEN"
abbreviation "TKN_WHILE \<equiv> RESERVED R_WHILE"
abbreviation "TKN_WITH \<equiv> RESERVED R_WITH"
abbreviation "TKN_XOR \<equiv> RESERVED R_XOR"
abbreviation "TKN_COMMA \<equiv> GLYPH G_COMMA"
abbreviation "TKN_COLON \<equiv> GLYPH G_COLON"
abbreviation "TKN_DOT \<equiv> GLYPH G_DOT"
abbreviation "TKN_SEMI \<equiv> GLYPH G_SEMI"
abbreviation "TKN_PERCENT \<equiv> GLYPH G_PERCENT"
abbreviation "TKN_AMPER \<equiv> GLYPH G_AMPER"
abbreviation "TKN_STAR \<equiv> GLYPH G_STAR"
abbreviation "TKN_PLUS \<equiv> GLYPH G_PLUS"
abbreviation "TKN_MINUS \<equiv> GLYPH G_MINUS"
abbreviation "TKN_LESS \<equiv> GLYPH G_LESS"
abbreviation "TKN_EQUAL \<equiv> GLYPH G_EQUAL"
abbreviation "TKN_GREAT \<equiv> GLYPH G_GREAT"
abbreviation "TKN_QUOTE \<equiv> GLYPH G_QUOTE"
abbreviation "TKN_FSLASH \<equiv> GLYPH G_FSLASH"
abbreviation "TKN_BAR \<equiv> GLYPH G_BAR"
abbreviation "TKN_LPAREN \<equiv> GLYPH G_LPAREN"
abbreviation "TKN_RPAREN \<equiv> GLYPH G_RPAREN"
abbreviation "TKN_DDOT \<equiv> GLYPH G_DDOT"
abbreviation "TKN_RDARROW \<equiv> GLYPH G_RDARROW"
abbreviation "TKN_LEQ \<equiv> GLYPH G_LEQ"
abbreviation "TKN_DIAMOND \<equiv> GLYPH G_DIAMOND"
abbreviation "TKN_GEQ \<equiv> GLYPH G_GEQ"
abbreviation "TKN_NEQUAL \<equiv> GLYPH G_NEQUAL"
abbreviation "TKN_POW \<equiv> GLYPH G_POW"
abbreviation "TKN_ASSIGN \<equiv> GLYPH G_ASSIGN"
abbreviation "TKN_EOT \<equiv> GLYPH G_EOT"
abbreviation "TKN_ERROR \<equiv> GLYPH G_ERROR"

section \<open>Tokens\<close>

record token =
  tk_code :: code
  tk_loc :: location
  tk_rep :: string

definition defaultToken :: token where
  "defaultToken = \<lparr>tk_code = UNUSED_ID, tk_loc = Location0, tk_rep = []\<rparr>"

section \<open>Strings of codes\<close>

fun reservedString :: "reserved \<Rightarrow> string" where
  "reservedString R_ABSTRACT = ''abstract''"
| "reservedString R_ACCESS = ''access''"
| "reservedString R_ALL = ''all''"
| "reservedString R_AND = ''and''"
| "reservedString R_ARRAY = ''array''"
| "reservedString R_BEGIN = ''begin''"
| "reservedString R_BODY = ''body''"
| "reservedString R_DECLARE = ''declare''"
| "reservedString R_DIGITS = ''digits''"
| "reservedString R_ELSE = ''else''"
| "reservedString R_ELSIF = ''elsif''"
| "reservedString R_END = ''end''"
| "reservedString R_EXCEPTION = ''exception''"
| "reservedString R_EXIT = ''exit''"
| "reservedString R_FOR = ''for''"
| "reservedString R_FUNCTION = ''function''"
| "reservedString R_GENERIC = ''generic''"
| "reservedString R_IF = ''if''"
| "reservedString R_IN = ''in''"
| "reservedString R_IS = ''is''"
| "reservedString R_LIMITED = ''limited''"
| "reservedString R_LOOP = ''loop''"
| "reservedString R_MOD = ''mod''"
| "reservedString R_NEW = ''new''"
| "reservedString R_NOT = ''not''"
| "reservedString R_NULL = ''null''"
| "reservedString R_OF = ''of''"
| "reservedString R_OR = ''or''"
| "reservedString R_OUT = ''out''"
| "reservedString R_OTHERS = ''others''"
| "reservedString R_PACKAGE = ''package''"
| "reservedString R_RAISE = ''raise''"
| "reservedString R_PRAGMA = ''pragma''"
| "reservedString R_PRIVATE = ''private''"
| "reservedString R_PROCEDURE = ''procedure''"
| "reservedString R_RANGE = ''range''"
| "reservedString R_RECORD = ''record''"
| "reservedString R_REM = ''rem''"
| "reservedString R_RENAMES = ''renames''"
| "reservedString R_RETURN = ''return''"
| "reservedString R_REVERSE = ''reverse''"
| "reservedString R_SUBTYPE = ''subtype''"
| "reservedString R_THEN = ''then''"
| "reservedString R_TYPE = ''type''"
| "reservedString R_USE = ''use''"
| "reservedString R_WHEN = ''when''"
| "reservedString R_WHILE = ''while''"
| "reservedString R_WITH = ''with''"
| "reservedString R_XOR = ''xor''"

fun glyphString :: "glyph \<Rightarrow> string" where
  "glyphString G_COMMA = '',''"
| "glyphString G_COLON = '':''"
| "glyphString G_DOT = ''.''"
| "glyphString G_SEMI = '';''"
| "glyphString G_PERCENT = ''%''"
| "glyphString G_AMPER = ''&''"
| "glyphString G_STAR = ''*''"
| "glyphString G_PLUS = ''+''"
| "glyphString G_MINUS = ''-''"
| "glyphString G_LESS = ''<''"
| "glyphString G_EQUAL = ''=''"
| "glyphString G_GREAT = ''>''"
| "glyphString G_QUOTE = [CHR 0x27]"
| "glyphString G_FSLASH = ''/''"
| "glyphString G_BAR = ''|''"
| "glyphString G_LPAREN = ''(''"
| "glyphString G_RPAREN = '')''"
| "glyphString G_DDOT = ''..''"
| "glyphString G_RDARROW = ''=>''"
| "glyphString G_LEQ = ''<=''"
| "glyphString G_DIAMOND = ''<>''"
| "glyphString G_GEQ = ''>=''"
| "glyphString G_NEQUAL = ''/=''"
| "glyphString G_POW = ''**''"
| "glyphString G_ASSIGN = '':=''"
| "glyphString G_EOT = ''<EOT>''"
| "glyphString G_ERROR = ''<ERROR>''"

text \<open>\<^verbatim>\<open>tokenString(Code)\<close>: \<open>None\<close> is the null pointer of the default case.\<close>

fun tokenStringOfCode :: "code \<Rightarrow> string option" where
  "tokenStringOfCode (RESERVED r) = Some (reservedString r)"
| "tokenStringOfCode (GLYPH g) = Some (glyphString g)"
| "tokenStringOfCode _ = None"

text \<open>\<^verbatim>\<open>tokenString(Token)\<close>.\<close>

definition tokenString :: "token \<Rightarrow> string option" where
  "tokenString tkn =
     (case tk_code tkn of
        TKN_ATTRIBUTE \<Rightarrow> Some (tk_rep tkn)
      | TKN_IDENTIFIER \<Rightarrow> Some (tk_rep tkn)
      | TKN_INTEGER \<Rightarrow> Some (tk_rep tkn)
      | TKN_REAL \<Rightarrow> Some (tk_rep tkn)
      | TKN_STRING \<Rightarrow> Some (tk_rep tkn)
      | TKN_CHARACTER \<Rightarrow> Some (tk_rep tkn)
      | code \<Rightarrow> tokenStringOfCode code)"

definition isFunctionGlyph :: "token \<Rightarrow> bool" where
  "isFunctionGlyph tkn \<longleftrightarrow> tk_code tkn \<in>
     {TKN_EQUAL, TKN_NEQUAL, TKN_LESS, TKN_LEQ, TKN_GREAT, TKN_GEQ, TKN_MINUS, TKN_STAR,
      TKN_PLUS, TKN_FSLASH, TKN_POW, TKN_MOD, TKN_REM, TKN_AND, TKN_NOT, TKN_XOR, TKN_OR}"

section \<open>The code of a name\<close>

text \<open>
  The switch on the length of the name, with the comparisons of each case in order.
\<close>

definition getTokenCode :: "string \<Rightarrow> code" where
  "getTokenCode str =
    (if length str = 1 then
        (if str = ''%'' then TKN_PERCENT else
         UNUSED_ID)
     else if length str = 2 then
        (if str = ''is'' then TKN_IS else
         if str = ''if'' then TKN_IF else
         if str = ''in'' then TKN_IN else
         if str = ''of'' then TKN_OF else
         if str = ''or'' then TKN_OR else
         UNUSED_ID)
     else if length str = 3 then
        (if str = ''end'' then TKN_END else
         if str = ''out'' then TKN_OUT else
         if str = ''and'' then TKN_AND else
         if str = ''mod'' then TKN_MOD else
         if str = ''rem'' then TKN_REM else
         if str = ''for'' then TKN_FOR else
         if str = ''not'' then TKN_NOT else
         if str = ''xor'' then TKN_XOR else
         if str = ''new'' then TKN_NEW else
         if str = ''all'' then TKN_ALL else
         if str = ''use'' then TKN_USE else
         UNUSED_ID)
     else if length str = 4 then
        (if str = ''else'' then TKN_ELSE else
         if str = ''loop'' then TKN_LOOP else
         if str = ''then'' then TKN_THEN else
         if str = ''with'' then TKN_WITH else
         if str = ''type'' then TKN_TYPE else
         if str = ''when'' then TKN_WHEN else
         if str = ''null'' then TKN_NULL else
         if str = ''exit'' then TKN_EXIT else
         if str = ''body'' then TKN_BODY else
         UNUSED_ID)
     else if length str = 5 then
        (if str = ''begin'' then TKN_BEGIN else
         if str = ''elsif'' then TKN_ELSIF else
         if str = ''while'' then TKN_WHILE else
         if str = ''range'' then TKN_RANGE else
         if str = ''array'' then TKN_ARRAY else
         if str = ''raise'' then TKN_RAISE else
         UNUSED_ID)
     else if length str = 6 then
        (if str = ''return'' then TKN_RETURN else
         if str = ''pragma'' then TKN_PRAGMA else
         if str = ''others'' then TKN_OTHERS else
         if str = ''record'' then TKN_RECORD else
         if str = ''access'' then TKN_ACCESS else
         if str = ''digits'' then TKN_DIGITS else
         UNUSED_ID)
     else if length str = 7 then
        (if str = ''declare'' then TKN_DECLARE else
         if str = ''generic'' then TKN_GENERIC else
         if str = ''package'' then TKN_PACKAGE else
         if str = ''subtype'' then TKN_SUBTYPE else
         if str = ''reverse'' then TKN_REVERSE else
         if str = ''renames'' then TKN_RENAMES else
         if str = ''private'' then TKN_PRIVATE else
         if str = ''limited'' then TKN_LIMITED else
         UNUSED_ID)
     else if length str = 8 then
        (if str = ''function'' then TKN_FUNCTION else
         if str = ''abstract'' then TKN_ABSTRACT else
         UNUSED_ID)
     else if length str = 9 then
        (if str = ''procedure'' then TKN_PROCEDURE else
         if str = ''exception'' then TKN_EXCEPTION else
         UNUSED_ID)
     else UNUSED_ID)"


section \<open>Properties\<close>

text \<open>
  The switch of the lexer and the table of \<^verbatim>\<open>Tokens.def\<close> agree: every
  reserved word of the table is recognised with its own code, and a name gets a reserved
  code only when it is that word.
\<close>

theorem getTokenCode_reserved:
  "getTokenCode s = RESERVED r \<longleftrightarrow> s = reservedString r"
proof
  show "s = reservedString r \<Longrightarrow> getTokenCode s = RESERVED r"
    by (cases r) (simp_all add: getTokenCode_def)
  show "getTokenCode s = RESERVED r \<Longrightarrow> s = reservedString r"
    by (simp add: getTokenCode_def split: if_splits)
qed

end
