(* ===== verification/Tables.thy ===== *)
theory Tables
  imports Prelude
begin

text \<open>
  The small tables of \<^verbatim>\<open>lib/basic\<close>: attributes, pragmas and primitive operators,
  the identifier pool they are registered in, and the parameter modes.

  The enumerations are ordered in the source and tested by comparing with delimiting
  enumerators, so they are instances of \<open>linorder\<close> by their position.  The pool
  interns strings: an \<^verbatim>\<open>IdentifierInfo\<close> is identified with its string, and the pool
  maps the strings seen so far to the attribute ID stored for them.
\<close>

section \<open>Attributes\<close>

datatype attributeID = UNKNOWN_ATTRIBUTE | Attr_First | Attr_Length | Attr_Pos | Attr_Val
  | Attr_Last | Attr_Range

fun attribIndex :: "attributeID \<Rightarrow> nat" where
  "attribIndex UNKNOWN_ATTRIBUTE = 0"
| "attribIndex Attr_First = 1"
| "attribIndex Attr_Length = 2"
| "attribIndex Attr_Pos = 3"
| "attribIndex Attr_Val = 4"
| "attribIndex Attr_Last = 5"
| "attribIndex Attr_Range = 6"

lemma attribIndex_inject [simp]: "attribIndex a = attribIndex b \<longleftrightarrow> a = b"
  by (cases a; cases b) simp_all

instantiation attributeID :: linorder
begin

definition less_eq_attributeID :: "attributeID \<Rightarrow> attributeID \<Rightarrow> bool" where
  "a \<le> b \<longleftrightarrow> attribIndex a \<le> attribIndex b"

definition less_attributeID :: "attributeID \<Rightarrow> attributeID \<Rightarrow> bool" where
  "a < b \<longleftrightarrow> attribIndex a < attribIndex b"

instance
  by standard (auto simp: less_eq_attributeID_def less_attributeID_def)

end

abbreviation "FIRST_ATTRIB \<equiv> Attr_First"
abbreviation "LAST_ATTRIB \<equiv> Attr_Range"
abbreviation "FIRST_EXPR_ATTRIB \<equiv> Attr_First"
abbreviation "LAST_EXPR_ATTRIB \<equiv> Attr_Last"

definition isExprAttribute :: "attributeID \<Rightarrow> bool" where
  "isExprAttribute ID \<longleftrightarrow> FIRST_EXPR_ATTRIB \<le> ID \<and> ID \<le> LAST_EXPR_ATTRIB"

definition attributeNames :: "string list" where
  "attributeNames = [''first'', ''length'', ''pos'', ''val'', ''last'', ''range'']"

text \<open>The array access \<^verbatim>\<open>attributeNames[ID - FIRST_ATTRIB]\<close>; \<open>None\<close> is out of bounds.\<close>

definition getAttributeString :: "attributeID \<Rightarrow> string option" where
  "getAttributeString ID =
     (if FIRST_ATTRIB \<le> ID \<and> attribIndex ID - attribIndex FIRST_ATTRIB < length attributeNames
      then Some (attributeNames ! (attribIndex ID - attribIndex FIRST_ATTRIB)) else None)"

text \<open>The attributes a cursor from \<open>FIRST_ATTRIB\<close> to \<open>LAST_ATTRIB\<close> visits.\<close>

definition attributeIDs :: "attributeID list" where
  "attributeIDs = [Attr_First, Attr_Length, Attr_Pos, Attr_Val, Attr_Last, Attr_Range]"

definition getAttributeID :: "string \<Rightarrow> attributeID" where
  "getAttributeID name =
     (case find (\<lambda>ID. getAttributeString ID = Some name) attributeIDs of
        None \<Rightarrow> UNKNOWN_ATTRIBUTE | Some ID \<Rightarrow> ID)"

section \<open>The identifier pool\<close>

type_synonym pool = "string \<rightharpoonup> attributeID"

text \<open>\<^verbatim>\<open>GetOrCreateValue\<close>: a new identifier starts with the unknown attribute.\<close>

definition getIdentifierInfo :: "pool \<Rightarrow> string \<Rightarrow> attributeID \<times> pool" where
  "getIdentifierInfo pool name =
     (case pool name of
        Some a \<Rightarrow> (a, pool)
      | None \<Rightarrow> (UNKNOWN_ATTRIBUTE, pool(name \<mapsto> UNKNOWN_ATTRIBUTE)))"

definition setAttributeID :: "pool \<Rightarrow> string \<Rightarrow> attributeID \<Rightarrow> pool" where
  "setAttributeID pool name ID = (snd (getIdentifierInfo pool name))(name \<mapsto> ID)"

definition markAttributeIdentifiers :: "pool \<Rightarrow> pool" where
  "markAttributeIdentifiers pool =
     fold (\<lambda>ID p. case getAttributeString ID of None \<Rightarrow> p | Some name \<Rightarrow> setAttributeID p name ID)
       attributeIDs pool"

section \<open>Pragmas\<close>

datatype pragmaID = UNKNOWN_PRAGMA | Pragma_Assert | Pragma_Import

definition pragmaNames :: "(pragmaID \<times> string) list" where
  "pragmaNames = [(Pragma_Assert, ''assert''), (Pragma_Import, ''import'')]"

definition getPragmaString :: "pragmaID \<Rightarrow> string option" where
  "getPragmaString ID = map_of pragmaNames ID"

definition getPragmaID :: "string \<Rightarrow> pragmaID" where
  "getPragmaID name =
     (case find (\<lambda>(ID, s). s = name) pragmaNames of None \<Rightarrow> UNKNOWN_PRAGMA | Some (ID, s) \<Rightarrow> ID)"

section \<open>Parameter modes\<close>

datatype parameterMode = MODE_DEFAULT | MODE_IN | MODE_OUT | MODE_IN_OUT

section \<open>Primitive operators\<close>

datatype primitiveID = NotPrimitive
  | ADD_op | SUB_op | MUL_op | DIV_op | MOD_op | REM_op | POW_op
  | EQ_op | NE_op | LT_op | GT_op | LE_op | GE_op | LOR_op | LAND_op | LXOR_op
  | LNOT_op | POS_op | NEG_op | ENUM_op

fun primIndex :: "primitiveID \<Rightarrow> nat" where
  "primIndex NotPrimitive = 0"
| "primIndex ADD_op = 1" | "primIndex SUB_op = 2" | "primIndex MUL_op = 3"
| "primIndex DIV_op = 4" | "primIndex MOD_op = 5" | "primIndex REM_op = 6"
| "primIndex POW_op = 7" | "primIndex EQ_op = 8" | "primIndex NE_op = 9"
| "primIndex LT_op = 10" | "primIndex GT_op = 11" | "primIndex LE_op = 12"
| "primIndex GE_op = 13" | "primIndex LOR_op = 14" | "primIndex LAND_op = 15"
| "primIndex LXOR_op = 16" | "primIndex LNOT_op = 17" | "primIndex POS_op = 18"
| "primIndex NEG_op = 19" | "primIndex ENUM_op = 20"

lemma primIndex_inject [simp]: "primIndex a = primIndex b \<longleftrightarrow> a = b"
  by (cases a; cases b) simp_all

instantiation primitiveID :: linorder
begin

definition less_eq_primitiveID :: "primitiveID \<Rightarrow> primitiveID \<Rightarrow> bool" where
  "a \<le> b \<longleftrightarrow> primIndex a \<le> primIndex b"

definition less_primitiveID :: "primitiveID \<Rightarrow> primitiveID \<Rightarrow> bool" where
  "a < b \<longleftrightarrow> primIndex a < primIndex b"

instance
  by standard (auto simp: less_eq_primitiveID_def less_primitiveID_def)

end

definition denotesOperatorID :: "primitiveID \<Rightarrow> bool" where
  "denotesOperatorID ID \<longleftrightarrow> ADD_op \<le> ID \<and> ID \<le> ENUM_op"

definition denotesPredicateOpID :: "primitiveID \<Rightarrow> bool" where
  "denotesPredicateOpID ID \<longleftrightarrow> EQ_op \<le> ID \<and> ID \<le> LNOT_op"

definition denotesUnaryOpID :: "primitiveID \<Rightarrow> bool" where
  "denotesUnaryOpID ID \<longleftrightarrow> LNOT_op \<le> ID \<and> ID \<le> NEG_op"

definition denotesBinaryOpID :: "primitiveID \<Rightarrow> bool" where
  "denotesBinaryOpID ID \<longleftrightarrow> ADD_op \<le> ID \<and> ID \<le> LXOR_op"

text \<open>\<open>None\<close> is the assertion of the default case.\<close>

fun getOpName :: "primitiveID \<Rightarrow> string option" where
  "getOpName EQ_op = Some ''=''"
| "getOpName NE_op = Some ''/=''"
| "getOpName LT_op = Some ''<''"
| "getOpName GT_op = Some ''>''"
| "getOpName LE_op = Some ''<=''"
| "getOpName GE_op = Some ''>=''"
| "getOpName ADD_op = Some ''+''"
| "getOpName SUB_op = Some ''-''"
| "getOpName MUL_op = Some ''*''"
| "getOpName DIV_op = Some ''/''"
| "getOpName MOD_op = Some ''mod''"
| "getOpName REM_op = Some ''rem''"
| "getOpName POW_op = Some ''**''"
| "getOpName POS_op = Some ''+''"
| "getOpName NEG_op = Some ''-''"
| "getOpName LOR_op = Some ''or''"
| "getOpName LAND_op = Some ''and''"
| "getOpName LNOT_op = Some ''not''"
| "getOpName LXOR_op = Some ''xor''"
| "getOpName _ = None"

definition denotesBinaryOp :: "string \<Rightarrow> bool" where
  "denotesBinaryOp name =
     (if length name = 1 then name ! 0 \<in> {CHR ''='', CHR ''+'', CHR ''*'', CHR ''-'', CHR ''>'', CHR ''<'', CHR ''/''}
      else if length name = 2 then
        (if name ! 0 \<in> {CHR ''/'', CHR ''<'', CHR ''>''} then name ! 1 = CHR ''=''
         else if name ! 0 = CHR ''*'' then name ! 1 = CHR ''*''
         else if name ! 0 = CHR ''o'' then name ! 1 = CHR ''r''
         else False)
      else if length name = 3 then
        name = ''and'' \<or> name = ''not'' \<or> name = ''xor'' \<or> name = ''mod'' \<or> name = ''rem''
      else False)"

definition denotesUnaryOp :: "string \<Rightarrow> bool" where
  "denotesUnaryOp name =
     (if length name = 1 then name ! 0 \<in> {CHR ''+'', CHR ''-''} else name = ''not'')"

definition denotesOperator :: "string \<Rightarrow> bool" where
  "denotesOperator name \<longleftrightarrow> denotesBinaryOp name \<or> denotesUnaryOp name"

section \<open>Properties\<close>

lemma getAttributeString_simps [simp]:
  "getAttributeString UNKNOWN_ATTRIBUTE = None"
  "getAttributeString Attr_First = Some ''first''"
  "getAttributeString Attr_Length = Some ''length''"
  "getAttributeString Attr_Pos = Some ''pos''"
  "getAttributeString Attr_Val = Some ''val''"
  "getAttributeString Attr_Last = Some ''last''"
  "getAttributeString Attr_Range = Some ''range''"
  by (simp_all add: getAttributeString_def less_eq_attributeID_def attributeNames_def)

lemma getAttributeID_eq:
  "getAttributeID s = a \<longleftrightarrow>
     (if a = UNKNOWN_ATTRIBUTE then s \<notin> set attributeNames else getAttributeString a = Some s)"
  by (cases a) (auto simp: getAttributeID_def attributeIDs_def attributeNames_def)

lemma setAttributeID_eq [simp]: "setAttributeID pool name ID = pool(name \<mapsto> ID)"
  by (simp add: setAttributeID_def getIdentifierInfo_def split: option.split)

text \<open>
  After the parser has registered the attributes, the attribute ID found in the
  pool for any name, seen before or not, is the one the table gives; no name the pool
  held before loses an entry.
\<close>

theorem markAttributeIdentifiers_lookup:
  assumes "\<And>n a. pool n = Some a \<Longrightarrow> a = getAttributeID n \<or> a = UNKNOWN_ATTRIBUTE"
  shows "fst (getIdentifierInfo (markAttributeIdentifiers pool) name) = getAttributeID name \<and>
    dom pool \<subseteq> dom (markAttributeIdentifiers pool)"
proof -
  have "markAttributeIdentifiers pool = pool(''first'' \<mapsto> Attr_First, ''length'' \<mapsto> Attr_Length,
      ''pos'' \<mapsto> Attr_Pos, ''val'' \<mapsto> Attr_Val, ''last'' \<mapsto> Attr_Last, ''range'' \<mapsto> Attr_Range)"
    by (simp add: markAttributeIdentifiers_def attributeIDs_def)
  moreover have "getAttributeID name =
      (if name = ''first'' then Attr_First else if name = ''length'' then Attr_Length
       else if name = ''pos'' then Attr_Pos else if name = ''val'' then Attr_Val
       else if name = ''last'' then Attr_Last else if name = ''range'' then Attr_Range
       else UNKNOWN_ATTRIBUTE)"
    by (simp add: getAttributeID_eq attributeNames_def)
  ultimately show ?thesis
    using assms [of name] by (auto simp: getIdentifierInfo_def split: option.splits)
qed

theorem markAttributeIdentifiers_witness:
  "fst (getIdentifierInfo (markAttributeIdentifiers [''x'' \<mapsto> UNKNOWN_ATTRIBUTE]) ''range'') = Attr_Range"
proof -
  have "fst (getIdentifierInfo (markAttributeIdentifiers [''x'' \<mapsto> UNKNOWN_ATTRIBUTE]) ''range'') =
      getAttributeID ''range''"
    by (rule markAttributeIdentifiers_lookup [THEN conjunct1]) (simp split: if_splits)
  then show ?thesis by (simp add: getAttributeID_eq)
qed

definition binaryOpSet :: "string set" where
  "binaryOpSet =
     {''='', ''+'', ''*'', ''-'', ''>'', ''<'', ''/'', ''/='', ''<='', ''>='', ''**'', ''or'', ''and'', ''xor'',
          ''mod'', ''rem''}"

lemma binaryOpNames:
  "(\<exists>op. denotesBinaryOpID op \<and> getOpName op = Some s) \<longleftrightarrow>
     s \<in> binaryOpSet" (is "?L \<longleftrightarrow> s \<in> ?N")
proof
  show "?L \<Longrightarrow> s \<in> ?N"
  proof (elim exE conjE)
    fix op assume "denotesBinaryOpID op" "getOpName op = Some s"
    then show ?thesis
      by (cases op) (auto simp: denotesBinaryOpID_def less_eq_primitiveID_def binaryOpSet_def)
  qed
  have "\<forall>n \<in> ?N. \<exists>op \<in> {ADD_op, SUB_op, MUL_op, DIV_op, MOD_op, REM_op, POW_op, EQ_op, NE_op,
      LT_op, GT_op, LE_op, GE_op, LOR_op, LAND_op, LXOR_op}. getOpName op = Some n"
    by (simp add: binaryOpSet_def)
  moreover have "\<forall>op \<in> {ADD_op, SUB_op, MUL_op, DIV_op, MOD_op, REM_op, POW_op, EQ_op, NE_op,
      LT_op, GT_op, LE_op, GE_op, LOR_op, LAND_op, LXOR_op}. denotesBinaryOpID op"
    by (simp add: denotesBinaryOpID_def less_eq_primitiveID_def)
  ultimately show "s \<in> ?N \<Longrightarrow> ?L" by meson
qed

lemma unaryOpNames:
  "(\<exists>op. denotesUnaryOpID op \<and> getOpName op = Some s) \<longleftrightarrow> s \<in> {''not'', ''+'', ''-''}"
  (is "?L \<longleftrightarrow> s \<in> ?N")
proof
  show "?L \<Longrightarrow> s \<in> ?N"
  proof (elim exE conjE)
    fix op assume "denotesUnaryOpID op" "getOpName op = Some s"
    then show ?thesis by (cases op) (auto simp: denotesUnaryOpID_def less_eq_primitiveID_def)
  qed
  have "\<forall>n \<in> ?N. \<exists>op \<in> {LNOT_op, POS_op, NEG_op}. getOpName op = Some n" by simp
  moreover have "\<forall>op \<in> {LNOT_op, POS_op, NEG_op}. denotesUnaryOpID op"
    by (simp add: denotesUnaryOpID_def less_eq_primitiveID_def)
  ultimately show "s \<in> ?N \<Longrightarrow> ?L" by meson
qed

lemma denotesBinaryOp_names: "denotesBinaryOp s \<longleftrightarrow> s \<in> binaryOpSet \<or> s = ''not''"
proof -
  consider "s = []" | a where "s = [a]" | a b where "s = [a, b]" | a b c where "s = [a, b, c]"
    | a b c d t where "s = a # b # c # d # t"
    by (metis list.exhaust)
  then show ?thesis
    by cases (simp_all add: denotesBinaryOp_def binaryOpSet_def, argo)
qed

lemma denotesUnaryOp_names: "denotesUnaryOp s \<longleftrightarrow> s \<in> {''not'', ''+'', ''-''}"
proof -
  consider "s = []" | a where "s = [a]" | a b t where "s = a # b # t"
    by (metis list.exhaust)
  then show ?thesis by cases (simp_all add: denotesUnaryOp_def)
qed

text \<open>
  The string predicates on operator names and the range tests on operator IDs agree
  on every string, with one exception: the name of the unary operator \<^verbatim>\<open>not\<close> also
  passes as the name of a binary operator.
\<close>

theorem denotesOp_names:
  "(denotesBinaryOp s \<longleftrightarrow> (\<exists>op. denotesBinaryOpID op \<and> getOpName op = Some s) \<or> s = ''not'') \<and>
   (denotesUnaryOp s \<longleftrightarrow> (\<exists>op. denotesUnaryOpID op \<and> getOpName op = Some s)) \<and>
   \<not> (\<exists>op. denotesBinaryOpID op \<and> getOpName op = Some ''not'')"
proof -
  have "''not'' \<notin> binaryOpSet" by (simp add: binaryOpSet_def)
  then show ?thesis
    unfolding binaryOpNames unaryOpNames denotesBinaryOp_names denotesUnaryOp_names by auto
qed

end
