(* ===== verification/Diagnostics.thy ===== *)
theory Diagnostics
  imports SourceText Tables
begin

text \<open>
  Diagnostics: the kinds of \<^verbatim>\<open>include/comma/basic/Diagnostic.def\<close> that the lexer and
  the parser post, with their format strings, and the stream of
  \<^verbatim>\<open>lib/basic/Diagnostic.cpp\<close> that formats them.

  A format holds directives, a percent sign and one more character; each argument streamed
  in fills the next directive, and the message is delivered when the format is exhausted.
  The output stream is the list of the lines written; the source line a caret diagnostic
  shows is looked up through a function argument, the provider's \<open>extractLine\<close>.
\<close>

section \<open>Kinds\<close>

datatype (plugins only: code) diag_kind =
    ILLEGAL_ESCAPE | UNTERMINATED_STRING | NEWLINE_IN_STRING_LIT
  | LEADING_ZERO_IN_INTEGER_LIT | MALFORMED_NUMERIC_LITERAL | NEGATIVE_EXPONENT_IN_INTEGER_LITERAL
  | INVALID_CHARACTER | CONSECUTIVE_UNDERSCORE | UNTERMINATED_CHARACTER_LITERAL
  | EMPTY_CHARACTER_LITERAL | INVALID_ATTRIBUTE | UNEXPECTED_TOKEN
  | UNEXPECTED_TOKEN_WANTED | PREMATURE_EOS | EXPECTED_END_TAG
  | UNEXPECTED_END_TAG | EMPTY_PARAMS | POSITIONAL_FOLLOWING_SELECTED_PARAMETER
  | MISSING_RETURN_AFTER_FUNCTION | RETURN_AFTER_PROCEDURE | OUT_IN_PARAMETER_MODE
  | EMPTY_ENUMERATION | NON_STATIC_EXPRESSION | EXPECTED_POSITIVE_EXPRESSION
  | EMPTY_ARRAY_TYPE_INDICES | DIAG_UNKNOWN_ATTRIBUTE | DIAG_UNKNOWN_PRAGMA
  | INVALID_PRAGMA_CONTEXT | INVALID_ATTRIBUTE_CONTEXT | OTHERS_HANDLER_NOT_UNIQUE
  | OTHERS_HANDLER_NOT_FINAL | POSITIONAL_FOLLOWING_KEYED_COMPONENT | OTHERS_COMPONENT_NOT_FINAL
  | MIXED_LOGICAL_OPERATORS

datatype diag_type = DIAG_ERROR | DIAG_WARNING | DIAG_NOTE

fun getFormat :: "diag_kind \<Rightarrow> string" where
  "getFormat ILLEGAL_ESCAPE = ''Illegal escape sequence '' @ [CHR 0x60] @ [CHR 0x5C] @ ''%0'' @ [CHR 0x27] @ ''.''"
| "getFormat UNTERMINATED_STRING = ''String literal not terminated.''"
| "getFormat NEWLINE_IN_STRING_LIT = ''Illegal newline within string literal.''"
| "getFormat LEADING_ZERO_IN_INTEGER_LIT = ''Malformed numeric literal (leading zero).''"
| "getFormat MALFORMED_NUMERIC_LITERAL = ''Malformed numeric literal.''"
| "getFormat NEGATIVE_EXPONENT_IN_INTEGER_LITERAL = ''Negative exponent in integer literal.''"
| "getFormat INVALID_CHARACTER = ''Invalid character '' @ [CHR 0x60] @ ''%0'' @ [CHR 0x27] @ ''.''"
| "getFormat CONSECUTIVE_UNDERSCORE = ''Consecutive underscore in identifier.''"
| "getFormat UNTERMINATED_CHARACTER_LITERAL = ''Character literal not terminated.''"
| "getFormat EMPTY_CHARACTER_LITERAL = ''Empty character literal.''"
| "getFormat INVALID_ATTRIBUTE = ''Invalid attribute.''"
| "getFormat UNEXPECTED_TOKEN = ''Unexpected token '' @ [CHR 0x60] @ ''%0'' @ [CHR 0x27] @ ''.''"
| "getFormat UNEXPECTED_TOKEN_WANTED = ''Unexpected token '' @ [CHR 0x60] @ ''%0'' @ [CHR 0x27] @ '', wanted '' @ [CHR 0x60] @ ''%1'' @ [CHR 0x27] @ ''.''"
| "getFormat PREMATURE_EOS = ''Premature end of stream.''"
| "getFormat EXPECTED_END_TAG = ''Expected end tag '' @ [CHR 0x60] @ ''%s'' @ [CHR 0x27] @ ''.''"
| "getFormat UNEXPECTED_END_TAG = ''Unexpected end tag '' @ [CHR 0x60] @ ''%s'' @ [CHR 0x27] @ ''.''"
| "getFormat EMPTY_PARAMS = ''Empty parameter lists are not permitted.''"
| "getFormat POSITIONAL_FOLLOWING_SELECTED_PARAMETER = ''Positional arguments may not follow keyword selections.''"
| "getFormat MISSING_RETURN_AFTER_FUNCTION = ''Missing '' @ [CHR 0x60] @ ''return'' @ [CHR 0x27] @ '' after function declaration.''"
| "getFormat RETURN_AFTER_PROCEDURE = ''Procedures cannot have return types.''"
| "getFormat OUT_IN_PARAMETER_MODE = ''Use '' @ [CHR 0x60] @ ''in out'' @ [CHR 0x27] @ '' instead of '' @ [CHR 0x60] @ ''out in'' @ [CHR 0x27] @ '' in parameter mode specifications.''"
| "getFormat EMPTY_ENUMERATION = ''Empty enumerations are not permitted.''"
| "getFormat NON_STATIC_EXPRESSION = ''Static expression required.''"
| "getFormat EXPECTED_POSITIVE_EXPRESSION = ''Strictly positive expression required.''"
| "getFormat EMPTY_ARRAY_TYPE_INDICES = ''Empty array index profiles are not permitted.''"
| "getFormat DIAG_UNKNOWN_ATTRIBUTE = ''Unknown attribute '' @ [CHR 0x60] @ ''%0'' @ [CHR 0x27] @ ''.''"
| "getFormat DIAG_UNKNOWN_PRAGMA = ''Unknown pragma '' @ [CHR 0x60] @ ''%0'' @ [CHR 0x27] @ ''.''"
| "getFormat INVALID_PRAGMA_CONTEXT = ''Pragma '' @ [CHR 0x60] @ ''%0'' @ [CHR 0x27] @ '' cannot be used in this context.''"
| "getFormat INVALID_ATTRIBUTE_CONTEXT = ''Invalid context for attribute '' @ [CHR 0x60] @ ''%0'' @ [CHR 0x27] @ ''.''"
| "getFormat OTHERS_HANDLER_NOT_UNIQUE = ''An others choice for a handler must be unique.''"
| "getFormat OTHERS_HANDLER_NOT_FINAL = ''A handler covered by an '' @ [CHR 0x60] @ ''others'' @ [CHR 0x27] @ '' choice must be the last handler.''"
| "getFormat POSITIONAL_FOLLOWING_KEYED_COMPONENT = ''Positional components may not follow keyed components.''"
| "getFormat OTHERS_COMPONENT_NOT_FINAL = ''An '' @ [CHR 0x60] @ ''others'' @ [CHR 0x27] @ '' component must be the last component of an aggregate.''"
| "getFormat MIXED_LOGICAL_OPERATORS = ''Mixed logical operator in expression.''"

text \<open>Every kind the lexer and the parser post is an error in the table.\<close>

definition getType :: "diag_kind \<Rightarrow> diag_type" where
  "getType kind = DIAG_ERROR"

section \<open>The stream\<close>

record dstream =
  ds_stream :: "string list"
  ds_position :: nat
  ds_message :: string
  ds_sourceLoc :: source_location
  ds_format :: string
  ds_type :: diag_type

definition noSourceLocation :: source_location where
  "noSourceLocation = \<lparr>sl_line = 0, sl_column = 0, sl_provider = None\<rparr>"

definition mkStream :: dstream where
  "mkStream = \<lparr>ds_stream = [], ds_position = 0, ds_message = [],
     ds_sourceLoc = noSourceLocation, ds_format = [], ds_type = DIAG_ERROR\<rparr>"

text \<open>Decimal output of an unsigned number.\<close>

fun showNat :: "nat \<Rightarrow> string" where
  "showNat n = (if n < 10 then [char_of (48 + n)] else showNat (n div 10) @ [char_of (48 + n mod 10)])"

declare showNat.simps [simp del]

definition diagTypeString :: "diag_type \<Rightarrow> string" where
  "diagTypeString ty = (case ty of DIAG_ERROR \<Rightarrow> ''error'' | DIAG_WARNING \<Rightarrow> ''warning'' | DIAG_NOTE \<Rightarrow> ''note'')"

text \<open>The identity of the provider of a location, then its line and column.\<close>

definition sourceLocString :: "(nat \<Rightarrow> string) \<Rightarrow> source_location \<Rightarrow> string" where
  "sourceLocString identity sloc =
     (let id = (case sl_provider sloc of None \<Rightarrow> [] | Some p \<Rightarrow> identity p) in
      (if id \<noteq> [] then id @ '':'' else []) @ showNat (sl_line sloc) @ '':'' @ showNat (sl_column sloc))"

text \<open>
  The loop over the format, from a position: what is appended to the message and, when a
  directive was reached, the position after it.  A percent sign that ends the format is
  the assertion \<open>Malformed diagnostic format string\<close>.
\<close>

fun scanFormat :: "string \<Rightarrow> nat \<Rightarrow> (string \<times> nat option) option" where
  "scanFormat [] pos = Some ([], None)"
| "scanFormat (c # cs) pos =
     (if c = CHR ''%'' then
        (case cs of
           [] \<Rightarrow> None
         | d # ds \<Rightarrow>
             if d = CHR ''%'' then
               map_option (\<lambda>(out, r). (d # out, r)) (scanFormat ds (pos + 2))
             else Some ([], Some (pos + 2)))
      else map_option (\<lambda>(out, r). (c # out, r)) (scanFormat cs (pos + 1)))"

definition caretLines :: "(source_location \<Rightarrow> string) \<Rightarrow> dstream \<Rightarrow> string list" where
  "caretLines extract ds =
     (if ds_type ds \<noteq> DIAG_NOTE \<and> sl_isValid (ds_sourceLoc ds) then
        [''  '' @ takeWhile (\<lambda>c. c \<noteq> LF) (extract (ds_sourceLoc ds)),
         ''  '' @ replicate (sl_column (ds_sourceLoc ds)) CHR ''.'' @ ''^'']
      else [])"

definition emitFormatComponent :: "(source_location \<Rightarrow> string) \<Rightarrow> dstream \<Rightarrow> text_error + dstream" where
  "emitFormatComponent extract ds =
     (case scanFormat (drop (ds_position ds) (ds_format ds)) (ds_position ds) of
        None \<Rightarrow> Inl AssertionFailed
      | Some (out, Some pos) \<Rightarrow> Inr (ds\<lparr>ds_message := ds_message ds @ out, ds_position := pos\<rparr>)
      | Some (out, None) \<Rightarrow>
          Inr (ds\<lparr>ds_stream := ds_stream ds @ (ds_message ds @ out) # caretLines extract ds,
                 ds_position := 0, ds_message := []\<rparr>))"

definition initializeStream ::
  "(nat \<Rightarrow> string) \<Rightarrow> (source_location \<Rightarrow> string) \<Rightarrow> dstream \<Rightarrow> source_location \<Rightarrow> string \<Rightarrow> diag_type
     \<Rightarrow> text_error + dstream" where
  "initializeStream identity extract ds sloc format ty =
     (if ds_position ds \<noteq> 0 then Inl AssertionFailed
      else emitFormatComponent extract
        (ds\<lparr>ds_sourceLoc := sloc, ds_format := format, ds_type := ty,
            ds_message := (if sl_isValid sloc then sourceLocString identity sloc @ '': '' else []) @
              diagTypeString ty @ '': ''\<rparr>))"

text \<open>The stream operators append the text of their argument and go on with the format.\<close>

definition streamArg :: "(source_location \<Rightarrow> string) \<Rightarrow> dstream \<Rightarrow> string \<Rightarrow> text_error + dstream" where
  "streamArg extract ds arg = emitFormatComponent extract (ds\<lparr>ds_message := ds_message ds @ arg\<rparr>)"

fun modeString :: "parameterMode \<Rightarrow> string" where
  "modeString MODE_DEFAULT = ''in''"
| "modeString MODE_IN = ''in''"
| "modeString MODE_OUT = ''out''"
| "modeString MODE_IN_OUT = ''in out''"

fun streamArgs :: "(source_location \<Rightarrow> string) \<Rightarrow> dstream \<Rightarrow> string list \<Rightarrow> text_error + dstream" where
  "streamArgs extract ds [] = Inr ds"
| "streamArgs extract ds (a # argv) =
     (case streamArg extract ds a of Inl e \<Rightarrow> Inl e | Inr ds' \<Rightarrow> streamArgs extract ds' argv)"

section \<open>The reporter\<close>

record reporter =
  rp_stream :: dstream
  rp_errorCount :: nat
  rp_warningCount :: nat
  rp_noteCount :: nat

definition mkReporter :: reporter where
  "mkReporter = \<lparr>rp_stream = mkStream, rp_errorCount = 0, rp_warningCount = 0, rp_noteCount = 0\<rparr>"

definition numReports :: "reporter \<Rightarrow> nat" where
  "numReports d = rp_errorCount d + rp_warningCount d + rp_noteCount d"

definition reportDiag ::
  "(nat \<Rightarrow> string) \<Rightarrow> (source_location \<Rightarrow> string) \<Rightarrow> reporter \<Rightarrow> source_location \<Rightarrow> diag_kind
     \<Rightarrow> text_error + reporter" where
  "reportDiag identity extract d sloc kind =
     (let d' = (case getType kind of
            DIAG_ERROR \<Rightarrow> d\<lparr>rp_errorCount := rp_errorCount d + 1\<rparr>
          | DIAG_WARNING \<Rightarrow> d\<lparr>rp_warningCount := rp_warningCount d + 1\<rparr>
          | DIAG_NOTE \<Rightarrow> d\<lparr>rp_noteCount := rp_noteCount d + 1\<rparr>)
      in map_sum id (\<lambda>ds. d'\<lparr>rp_stream := ds\<rparr>)
           (initializeStream identity extract (rp_stream d') sloc (getFormat kind) (getType kind)))"


section \<open>Properties\<close>

text \<open>
  The specification of a format: the number of its directives, and the text it stands for
  once the directives are filled.  A format is well formed when every percent sign has a
  character after it.
\<close>

fun wfFormat :: "string \<Rightarrow> bool" where
  "wfFormat [] = True"
| "wfFormat (c # cs) = (if c = CHR ''%'' then cs \<noteq> [] \<and> wfFormat (tl cs) else wfFormat cs)"

fun directives :: "string \<Rightarrow> nat" where
  "directives [] = 0"
| "directives (c # cs) =
     (if c = CHR ''%'' then (if hd cs = CHR ''%'' then 0 else 1) + directives (tl cs)
      else directives cs)"

fun splice :: "string \<Rightarrow> string list \<Rightarrow> string" where
  "splice [] argv = []"
| "splice (c # cs) argv =
     (if c = CHR ''%'' then
        (if hd cs = CHR ''%'' then CHR ''%'' # splice (tl cs) argv
         else hd argv @ splice (tl cs) (tl argv))
      else c # splice cs argv)"

definition diagArity :: "diag_kind \<Rightarrow> nat" where
  "diagArity kind = directives (getFormat kind)"

lemma scanFormat_stop:
  "wfFormat fs \<Longrightarrow> directives fs = 0 \<Longrightarrow> scanFormat fs p = Some (splice fs argv, None)"
proof (induction fs p rule: scanFormat.induct)
  case (2 c cs pos)
  show ?case
  proof (cases "c = CHR ''%''")
    case pct: True
    with "2.prems"(1) obtain d ds where cs: "cs = d # ds" by (cases cs) auto
    have d: "d = CHR ''%''" using "2.prems"(2) pct cs by (cases "d = CHR ''%''") auto
    show ?thesis using "2.IH"(1) [OF pct cs d] "2.prems" pct cs d by simp
  next
    case False
    then show ?thesis using "2.IH"(2) [OF False] "2.prems" by simp
  qed
qed simp

lemma scanFormat_directive:
  "wfFormat fs \<Longrightarrow> directives fs = Suc n \<Longrightarrow>
   \<exists>out k. scanFormat fs p = Some (out, Some (p + k)) \<and> 0 < k \<and> wfFormat (drop k fs) \<and>
     directives (drop k fs) = n \<and> (\<forall>a argv. splice fs (a # argv) = out @ a @ splice (drop k fs) argv)"
proof (induction fs p rule: scanFormat.induct)
  case (1 pos)
  then show ?case by simp
next
  case (2 c cs pos)
  show ?case
  proof (cases "c = CHR ''%''")
    case pct: True
    with "2.prems"(1) obtain d ds where cs: "cs = d # ds" by (cases cs) auto
    show ?thesis
    proof (cases "d = CHR ''%''")
      case True
      then obtain out k where "scanFormat ds (pos + 2) = Some (out, Some (pos + 2 + k))" "0 < k"
         "wfFormat (drop k ds)" "directives (drop k ds) = n"
         "\<forall>a argv. splice ds (a # argv) = out @ a @ splice (drop k ds) argv"
        using "2.IH"(1) [OF pct cs True] "2.prems" pct cs by auto
      then show ?thesis using pct cs True
        by (intro exI [of _ "d # out"] exI [of _ "k + 2"]) (simp add: add.commute add.left_commute)
    next
      case False
      then show ?thesis using pct cs "2.prems"
        by (intro exI [of _ "[]"] exI [of _ 2]) simp
    qed
  next
    case False
    then obtain out k where "scanFormat cs (pos + 1) = Some (out, Some (pos + 1 + k))" "0 < k"
       "wfFormat (drop k cs)" "directives (drop k cs) = n"
       "\<forall>a argv. splice cs (a # argv) = out @ a @ splice (drop k cs) argv"
      using "2.IH"(2) [OF False] "2.prems" by auto
    then show ?thesis using False
      by (intro exI [of _ "c # out"] exI [of _ "k + 1"]) simp
  qed
qed

lemma wfFormat_getFormat: "wfFormat (getFormat kind)"
  by (cases kind) simp_all

text \<open>From a position in the format, the arguments still missing complete the message.\<close>

lemma emit_streamArgs:
  "wfFormat (drop (ds_position ds) (ds_format ds)) \<Longrightarrow>
   directives (drop (ds_position ds) (ds_format ds)) = length argv \<Longrightarrow>
   (case emitFormatComponent extract ds of Inl e \<Rightarrow> Inl e | Inr ds' \<Rightarrow> streamArgs extract ds' argv) =
     Inr (ds\<lparr>ds_stream := ds_stream ds @
           (ds_message ds @ splice (drop (ds_position ds) (ds_format ds)) argv) # caretLines extract ds,
         ds_position := 0, ds_message := []\<rparr>)"
proof (induction argv arbitrary: ds)
  case Nil
  then show ?case using scanFormat_stop [OF Nil(1), of _ "[]"]
    by (simp add: emitFormatComponent_def)
next
  case (Cons a argv)
  obtain out k where k:
    "scanFormat (drop (ds_position ds) (ds_format ds)) (ds_position ds) = Some (out, Some (ds_position ds + k))"
    "wfFormat (drop (ds_position ds + k) (ds_format ds))"
    "directives (drop (ds_position ds + k) (ds_format ds)) = length argv"
    "splice (drop (ds_position ds) (ds_format ds)) (a # argv) =
       out @ a @ splice (drop (ds_position ds + k) (ds_format ds)) argv"
    using scanFormat_directive [OF Cons.prems(1), of "length argv" "ds_position ds"] Cons.prems(2)
    by (auto simp: add.commute)
  define ds' where "ds' = ds\<lparr>ds_position := ds_position ds + k, ds_message := ds_message ds @ out @ a\<rparr>"
  have emit: "emitFormatComponent extract ds =
      Inr (ds\<lparr>ds_message := ds_message ds @ out, ds_position := ds_position ds + k\<rparr>)"
    using k(1) by (simp add: emitFormatComponent_def)
  have "streamArg extract (ds\<lparr>ds_message := ds_message ds @ out, ds_position := ds_position ds + k\<rparr>) a =
      emitFormatComponent extract ds'"
    by (simp add: streamArg_def ds'_def)
  with emit Cons.IH [of ds'] k(2-4) show ?case
    by (simp add: ds'_def caretLines_def)
qed



end
