(* ===== verification/Scanner.thy ===== *)
theory Scanner
  imports Tokens Diagnostics
begin

text \<open>
  The character level of the lexer, from \<^verbatim>\<open>lib/parser/Lexer.cpp\<close>: the wrappers
  around the text iterator, the skipping of blanks and comments, and the scanning of one
  token.

  The state is the part of the class \<^verbatim>\<open>Lexer\<close> these functions use.  \<open>sc_pos\<close> is the
  index of \<^verbatim>\<open>currentIter\<close>; the buffer may be read at \<open>length text\<close>, where its
  terminator is, so a position beyond that is one from which the lexer reads out of its
  buffer.  \<open>sc_diags\<close> records the reports in order; the provider turns their locations
  into lines and columns (theory \<open>SourceText\<close>) and the diagnostic stream formats them
  (theory \<open>Diagnostics\<close>).
\<close>

section \<open>State\<close>

record scanner =
  sc_stamp :: nat
  sc_text :: string
  sc_pos :: nat
  sc_errorCount :: nat
  sc_aborted :: bool
  sc_target :: token
  sc_nameBuff :: string
  sc_diags :: "(diag_kind \<times> location \<times> string list) list"

definition mkScanner :: "text_provider \<Rightarrow> scanner" where
  "mkScanner tp = \<lparr>sc_stamp = tp_stamp tp, sc_text = tp_text tp, sc_pos = 0, sc_errorCount = 0,
     sc_aborted = False, sc_target = defaultToken, sc_nameBuff = [], sc_diags = []\<rparr>"

definition isDecimalDigit :: "char \<Rightarrow> bool" where
  "isDecimalDigit c \<longleftrightarrow> of_char c \<in> {48..57::nat}"

definition isInitialIdentifierChar :: "char \<Rightarrow> bool" where
  "isInitialIdentifierChar c \<longleftrightarrow> of_char c \<in> {97..122::nat} \<or> of_char c \<in> {65..90::nat} \<or>
     c = CHR ''%'' \<or> c = CHR ''_''"

definition isInnerIdentifierChar :: "char \<Rightarrow> bool" where
  "isInnerIdentifierChar c \<longleftrightarrow> isInitialIdentifierChar c \<or> isDecimalDigit c \<or> c = CHR ''?''"

definition isWhitespace :: "char \<Rightarrow> bool" where
  "isWhitespace c \<longleftrightarrow> c = CHR '' '' \<or> c = CHR 0x09 \<or> c = LF"

definition tolower :: "char \<Rightarrow> char" where
  "tolower c = (if of_char c \<in> {65..90::nat} then char_of (of_char c + 32 :: nat) else c)"

section \<open>The stream\<close>

definition currentLocation :: "scanner \<Rightarrow> location" where
  "currentLocation sc = mkLocation (sc_stamp sc) (sc_pos sc)"

definition readStream :: "scanner \<Rightarrow> char \<times> scanner" where
  "readStream sc =
     (let c = fetch (sc_text sc) (sc_pos sc); sc' = sc\<lparr>sc_pos := sc_pos sc + 1\<rparr> in
      if c = CR then
        (LF, if fetch (sc_text sc) (sc_pos sc + 1) = LF then sc\<lparr>sc_pos := sc_pos sc + 2\<rparr> else sc')
      else (c, sc'))"

definition peekStream :: "scanner \<Rightarrow> char" where
  "peekStream sc =
     (let c = fetch (sc_text sc) (sc_pos sc) in if c = CR then LF else c)"

definition ungetStream :: "scanner \<Rightarrow> scanner" where
  "ungetStream sc = sc\<lparr>sc_pos := sc_pos sc - 1\<rparr>"

definition ignoreStream :: "scanner \<Rightarrow> scanner" where
  "ignoreStream sc = snd (readStream sc)"

text \<open>Reports at a given location, and at the current one.\<close>

definition lexReport :: "location \<Rightarrow> diag_kind \<Rightarrow> string list \<Rightarrow> scanner \<Rightarrow> scanner" where
  "lexReport loc kind args sc =
     sc\<lparr>sc_errorCount := sc_errorCount sc + 1, sc_diags := sc_diags sc @ [(kind, loc, args)]\<rparr>"

definition lexReportHere :: "diag_kind \<Rightarrow> string list \<Rightarrow> scanner \<Rightarrow> scanner" where
  "lexReportHere kind args sc = lexReport (currentLocation sc) kind args sc"

definition abortScanning :: "scanner \<Rightarrow> scanner" where
  "abortScanning sc = sc\<lparr>sc_aborted := True\<rparr>"

text \<open>Progress of the stream, needed by the termination proofs below.\<close>

lemma stream_frame [simp]:
  "sc_text (snd (readStream sc)) = sc_text sc"
  "sc_text (ignoreStream sc) = sc_text sc"
  "sc_text (ungetStream sc) = sc_text sc"
  "sc_text (lexReport loc kind args sc) = sc_text sc"
  "sc_text (lexReportHere kind args sc) = sc_text sc"
  "sc_pos (lexReport loc kind args sc) = sc_pos sc"
  "sc_pos (lexReportHere kind args sc) = sc_pos sc"
  "sc_pos (ungetStream sc) = sc_pos sc - 1"
  by (simp_all add: readStream_def ignoreStream_def ungetStream_def lexReport_def
      lexReportHere_def Let_def)

lemma pos_readStream: "sc_pos sc < sc_pos (snd (readStream sc))"
  by (simp add: readStream_def Let_def)

lemma pos_ignoreStream: "sc_pos sc < sc_pos (ignoreStream sc)"
  by (simp add: ignoreStream_def pos_readStream)

lemma readStream_pos: "readStream sc = (c, sc') \<Longrightarrow> sc_pos sc < sc_pos sc' \<and> sc_text sc' = sc_text sc"
  using pos_readStream [of sc] stream_frame(1) [of sc] by simp

lemma peekStream_end: "length (sc_text sc) \<le> sc_pos sc \<Longrightarrow> peekStream sc = NUL"
  by (simp add: peekStream_def fetch_def)

lemma peekStream_in: "peekStream sc \<noteq> NUL \<Longrightarrow> sc_pos sc < length (sc_text sc)"
  using peekStream_end [of sc] by (cases "sc_pos sc < length (sc_text sc)") auto

lemma readStream_in: "readStream sc = (c, sc') \<Longrightarrow> c \<noteq> NUL \<Longrightarrow> sc_pos sc < length (sc_text sc)"
  by (auto simp: readStream_def fetch_def Let_def split: if_splits)

lemma isInner_NUL [simp]: "\<not> isInnerIdentifierChar NUL" "\<not> isInitialIdentifierChar NUL"
  "\<not> isDecimalDigit NUL" "\<not> isWhitespace NUL"
  by (simp_all add: isInnerIdentifierChar_def isInitialIdentifierChar_def isDecimalDigit_def
      isWhitespace_def)

text \<open>
  A loop that ignores characters as long as the next one satisfies a test.  The position
  test only makes the recursion well founded for every \<open>P\<close>; the tests of the source all
  fail on the NUL that is seen from \<open>length text\<close> on.
\<close>

function skipWhile :: "(char \<Rightarrow> bool) \<Rightarrow> scanner \<Rightarrow> scanner" where
  "skipWhile P sc =
     (if sc_pos sc < length (sc_text sc) \<and> P (peekStream sc) then skipWhile P (ignoreStream sc) else sc)"
  by pat_completeness auto
termination
  by (relation "measure (\<lambda>(P, sc). length (sc_text sc) - sc_pos sc)")
     (auto intro: diff_less_mono2 pos_ignoreStream)

declare skipWhile.simps [simp del]

lemma skipWhile_unfold:
  "\<not> P NUL \<Longrightarrow>
   skipWhile P sc = (if P (peekStream sc) then skipWhile P (ignoreStream sc) else sc)"
  by (subst skipWhile.simps) (metis peekStream_in)

definition eatWhitespace :: "scanner \<Rightarrow> scanner" where
  "eatWhitespace sc = skipWhile isWhitespace sc"

function skipComment :: "scanner \<Rightarrow> scanner" where
  "skipComment sc =
     (case readStream sc of (c, sc') \<Rightarrow> if c = LF \<or> c = NUL then sc' else skipComment sc')"
  by pat_completeness auto
termination
  by (relation "measure (\<lambda>sc. length (sc_text sc) - sc_pos sc)")
     (simp, metis diff_less_mono2 in_measure readStream_in readStream_pos)

declare skipComment.simps [simp del]

definition eatComment :: "scanner \<Rightarrow> bool \<times> scanner" where
  "eatComment sc =
     (if peekStream sc = CHR ''-'' then
        (let sc' = ignoreStream sc in
         if peekStream sc' = CHR ''-'' then (True, skipComment sc')
         else (False, ungetStream sc'))
      else (False, sc))"

lemma skipWhile_pos: "sc_pos sc \<le> sc_pos (skipWhile P sc) \<and> sc_text (skipWhile P sc) = sc_text sc"
proof (induction P sc rule: skipWhile.induct)
  case (1 P sc)
  show ?case
    by (subst skipWhile.simps, subst (2) skipWhile.simps)
       (use 1 pos_ignoreStream [of sc] in \<open>auto\<close>)
qed

lemma skipComment_pos: "sc_pos sc < sc_pos (skipComment sc) \<and> sc_text (skipComment sc) = sc_text sc"
proof (induction sc rule: skipComment.induct)
  case (1 sc)
  obtain c sc' where r: "readStream sc = (c, sc')" by (cases "readStream sc")
  show ?case
    using 1 [OF r [symmetric]] readStream_pos [OF r]
    by (auto simp: skipComment.simps [of sc] r)
qed

lemma eatComment_pos:
  "eatComment sc = (True, sc') \<Longrightarrow>
   sc_pos sc < length (sc_text sc) \<and> sc_pos sc < sc_pos sc' \<and> sc_text sc' = sc_text sc"
  using skipComment_pos [of "ignoreStream sc"] pos_ignoreStream [of sc] peekStream_in [of sc]
  by (auto simp: eatComment_def Let_def split: if_splits)

text \<open>\<^verbatim>\<open>while (eatComment()) eatWhitespace();\<close> of \<^verbatim>\<open>scanToken\<close>.\<close>

function eatComments :: "scanner \<Rightarrow> scanner" where
  "eatComments sc =
     (case eatComment sc of (b, sc') \<Rightarrow> if b then eatComments (eatWhitespace sc') else sc')"
  by pat_completeness auto
termination
proof (relation "measure (\<lambda>sc. length (sc_text sc) - sc_pos sc)")
  fix sc b sc'
  assume *: "(b, sc') = eatComment sc" "b"
  then have "eatComment sc = (True, sc')" by simp
  note c = eatComment_pos [OF this]
  show "(eatWhitespace sc', sc) \<in> measure (\<lambda>sc. length (sc_text sc) - sc_pos sc)"
    using c skipWhile_pos [of sc' isWhitespace] by (auto simp: eatWhitespace_def)
qed simp

declare eatComments.simps [simp del]

section \<open>Emitting a token\<close>

text \<open>The characters between two iterators; the terminator is a character too.\<close>

definition repOf :: "scanner \<Rightarrow> nat \<Rightarrow> nat \<Rightarrow> string" where
  "repOf sc start end = substr start end (sc_text sc @ [NUL])"

definition emitTokenRange :: "code \<Rightarrow> nat \<Rightarrow> nat \<Rightarrow> scanner \<Rightarrow> scanner" where
  "emitTokenRange code start end sc =
     sc\<lparr>sc_target := \<lparr>tk_code = code, tk_loc = mkLocation (sc_stamp sc) start, tk_rep = repOf sc start end\<rparr>\<rparr>"

definition emitToken :: "code \<Rightarrow> location \<Rightarrow> scanner \<Rightarrow> scanner" where
  "emitToken code loc sc = sc\<lparr>sc_target := \<lparr>tk_code = code, tk_loc = loc, tk_rep = []\<rparr>\<rparr>"

definition emitStringToken :: "nat \<Rightarrow> nat \<Rightarrow> scanner \<Rightarrow> scanner" where
  "emitStringToken = emitTokenRange TKN_STRING"

definition emitIntegerToken :: "nat \<Rightarrow> nat \<Rightarrow> scanner \<Rightarrow> scanner" where
  "emitIntegerToken = emitTokenRange TKN_INTEGER"

definition emitRealToken :: "nat \<Rightarrow> nat \<Rightarrow> scanner \<Rightarrow> scanner" where
  "emitRealToken = emitTokenRange TKN_REAL"

definition emitCharacterToken :: "nat \<Rightarrow> nat \<Rightarrow> scanner \<Rightarrow> scanner" where
  "emitCharacterToken = emitTokenRange TKN_CHARACTER"

definition emitIdentifierToken :: "location \<Rightarrow> scanner \<Rightarrow> scanner" where
  "emitIdentifierToken loc sc =
     sc\<lparr>sc_target := \<lparr>tk_code = TKN_IDENTIFIER, tk_loc = loc, tk_rep = sc_nameBuff sc\<rparr>\<rparr>"

definition emitAttributeToken :: "location \<Rightarrow> scanner \<Rightarrow> scanner" where
  "emitAttributeToken loc sc =
     sc\<lparr>sc_target := \<lparr>tk_code = TKN_ATTRIBUTE, tk_loc = loc, tk_rep = sc_nameBuff sc\<rparr>\<rparr>"

section \<open>Names\<close>

text \<open>
  The parameters are passed by value: the character the caller holds in \<open>c2\<close> is not the
  one this loop ends on.
\<close>

definition diagnoseConsecutiveUnderscores :: "char \<Rightarrow> char \<Rightarrow> scanner \<Rightarrow> scanner" where
  "diagnoseConsecutiveUnderscores c1 c2 sc =
     (if c1 = CHR ''_'' \<and> c2 = CHR ''_'' then
        skipWhile (\<lambda>c. c = CHR ''_'') (ignoreStream (lexReportHere CONSECUTIVE_UNDERSCORE [] sc))
      else sc)"

lemma diagnose_pos:
  "sc_pos sc \<le> sc_pos (diagnoseConsecutiveUnderscores c1 c2 sc) \<and>
   sc_text (diagnoseConsecutiveUnderscores c1 c2 sc) = sc_text sc"
  using skipWhile_pos [of "ignoreStream (lexReportHere CONSECUTIVE_UNDERSCORE [] sc)" "\<lambda>c. c = CHR ''_''"]
    pos_ignoreStream [of "lexReportHere CONSECUTIVE_UNDERSCORE [] sc"]
  by (auto simp: diagnoseConsecutiveUnderscores_def)

text \<open>One round of the loop of \<^verbatim>\<open>consumeName\<close>: the next character and the state.\<close>

definition nameRound :: "char \<Rightarrow> scanner \<Rightarrow> char \<times> scanner" where
  "nameRound c1 sc =
     (let sc1 = ignoreStream (sc\<lparr>sc_nameBuff := sc_nameBuff sc @ [tolower c1]\<rparr>);
          c2 = peekStream sc1
      in (c2, diagnoseConsecutiveUnderscores c1 c2 sc1))"

lemma nameRound_pos:
  assumes "nameRound c1 sc = (c2, sc')"
  shows "sc_pos sc < sc_pos sc'" "sc_text sc' = sc_text sc"
    "isInnerIdentifierChar c2 \<Longrightarrow> sc_pos sc < length (sc_text sc)"
proof -
  let ?sc1 = "ignoreStream (sc\<lparr>sc_nameBuff := sc_nameBuff sc @ [tolower c1]\<rparr>)"
  have p: "sc_pos sc < sc_pos ?sc1"
    using pos_ignoreStream [of "sc\<lparr>sc_nameBuff := sc_nameBuff sc @ [tolower c1]\<rparr>"] by simp
  have sc': "sc' = diagnoseConsecutiveUnderscores c1 (peekStream ?sc1) ?sc1" "c2 = peekStream ?sc1"
    using assms by (auto simp: nameRound_def Let_def)
  show "sc_pos sc < sc_pos sc'" "sc_text sc' = sc_text sc"
    using p diagnose_pos [of ?sc1 c1 "peekStream ?sc1"] by (simp_all add: sc')
  show "isInnerIdentifierChar c2 \<Longrightarrow> sc_pos sc < length (sc_text sc)"
    using p peekStream_in [of ?sc1] by (cases "c2 = NUL") (auto simp: sc')
qed

function nameLoop :: "char \<Rightarrow> scanner \<Rightarrow> scanner" where
  "nameLoop c1 sc =
     (case nameRound c1 sc of (c2, sc') \<Rightarrow> if isInnerIdentifierChar c2 then nameLoop c2 sc' else sc')"
  by pat_completeness auto
termination
  by (relation "measure (\<lambda>(c, sc). length (sc_text sc) - sc_pos sc)")
     (simp, metis (no_types, lifting) case_prod_conv diff_less_mono2 in_measure nameRound_pos)

declare nameLoop.simps [simp del]

definition consumeName :: "scanner \<Rightarrow> bool \<times> scanner" where
  "consumeName sc =
     (let c1 = peekStream sc in
      if isInitialIdentifierChar c1 then (True, nameLoop c1 sc) else (False, sc))"

definition scanName :: "scanner \<Rightarrow> bool \<times> scanner" where
  "scanName sc =
     (let loc = currentLocation sc in
      case consumeName sc of
        (True, sc1) \<Rightarrow>
          let code = getTokenCode (sc_nameBuff sc1);
              sc2 = (if code = UNUSED_ID then emitIdentifierToken loc sc1 else emitToken code loc sc1)
          in (True, sc2\<lparr>sc_nameBuff := []\<rparr>)
      | (False, sc1) \<Rightarrow> (False, sc1))"

definition scanAttribute :: "location \<Rightarrow> scanner \<Rightarrow> scanner" where
  "scanAttribute loc sc =
     (case consumeName sc of (b, sc1) \<Rightarrow>
        let sc2 = (if \<not> b then lexReport loc INVALID_ATTRIBUTE [] sc1 else sc1)
        in (emitAttributeToken loc sc2)\<lparr>sc_nameBuff := []\<rparr>)"

section \<open>Glyphs\<close>

text \<open>
  The switch of \<^verbatim>\<open>scanGlyph\<close>: the code for a character and the one after it, and whether
  the second one belongs to the glyph.
\<close>

definition glyphCode :: "char \<Rightarrow> char \<Rightarrow> code \<times> bool" where
  "glyphCode c d =
     (if c = CHR ''('' then (TKN_LPAREN, False)
      else if c = CHR '')'' then (TKN_RPAREN, False)
      else if c = CHR '';'' then (TKN_SEMI, False)
      else if c = CHR ''.'' then (if d = CHR ''.'' then (TKN_DDOT, True) else (TKN_DOT, False))
      else if c = CHR '':'' then (if d = CHR ''='' then (TKN_ASSIGN, True) else (TKN_COLON, False))
      else if c = CHR '','' then (TKN_COMMA, False)
      else if c = CHR ''='' then (if d = CHR ''>'' then (TKN_RDARROW, True) else (TKN_EQUAL, False))
      else if c = CHR ''<'' then
        (if d = CHR ''='' then (TKN_LEQ, True)
         else if d = CHR ''>'' then (TKN_DIAMOND, True) else (TKN_LESS, False))
      else if c = CHR ''>'' then (if d = CHR ''='' then (TKN_GEQ, True) else (TKN_GREAT, False))
      else if c = CHR ''+'' then (TKN_PLUS, False)
      else if c = CHR ''-'' then (TKN_MINUS, False)
      else if c = CHR ''*'' then (if d = CHR ''*'' then (TKN_POW, True) else (TKN_STAR, False))
      else if c = CHR ''/'' then (if d = CHR ''='' then (TKN_NEQUAL, True) else (TKN_FSLASH, False))
      else if c = CHR ''&'' then (TKN_AMPER, False)
      else if c = CHR ''|'' then (TKN_BAR, False)
      else (UNUSED_ID, False))"

definition scanGlyph :: "scanner \<Rightarrow> bool \<times> scanner" where
  "scanGlyph sc =
     (let loc = currentLocation sc in
      case readStream sc of (c, sc1) \<Rightarrow>
      case glyphCode c (peekStream sc1) of (code, two) \<Rightarrow>
        if code = UNUSED_ID then (False, ungetStream sc1)
        else (True, emitToken code loc (if two then ignoreStream sc1 else sc1)))"

section \<open>Strings and characters\<close>

definition scanEscape :: "scanner \<Rightarrow> bool \<times> scanner" where
  "scanEscape sc =
     (let loc = currentLocation sc in
      case readStream sc of (c, sc1) \<Rightarrow>
        if c = CHR 0x5C \<or> c = CHR 0x22 \<or> c = CHR 0x27 \<or> c = CHR ''t'' \<or> c = CHR ''n'' \<or>
           c = CHR ''r'' \<or> c = CHR ''b'' then (True, sc1)
        else if c = NUL then (False, ungetStream sc1)
        else (False, lexReport loc ILLEGAL_ESCAPE [[c]] sc1))"

lemma scanEscape_pos:
  "sc_pos sc \<le> sc_pos (snd (scanEscape sc)) \<and> sc_text (snd (scanEscape sc)) = sc_text sc"
  using pos_readStream [of sc]
  by (auto simp: scanEscape_def Let_def readStream_pos split: prod.splits if_splits
      dest: readStream_pos)

function stringLoop :: "nat \<Rightarrow> location \<Rightarrow> scanner \<Rightarrow> scanner" where
  "stringLoop start loc sc =
     (case readStream sc of (c, sc1) \<Rightarrow>
        if c = CHR 0x5C then stringLoop start loc (snd (scanEscape sc1))
        else if c = NUL then
          (let sc2 = lexReport loc UNTERMINATED_STRING [] sc1 in emitStringToken start (sc_pos sc2) sc2)
        else if c = LF then
          (let sc2 = lexReport loc NEWLINE_IN_STRING_LIT [] sc1 in emitStringToken start (sc_pos sc2) sc2)
        else if c = CHR 0x22 then emitStringToken start (sc_pos sc1) sc1
        else stringLoop start loc sc1)"
  by pat_completeness auto
termination
proof (relation "measure (\<lambda>(start, loc, sc). length (sc_text sc) - sc_pos sc)")
  fix start :: nat and loc :: location and sc c sc1
  assume "(c, sc1) = readStream sc"
  then have r: "readStream sc = (c, sc1)" by simp
  show "c = CHR 0x5C \<Longrightarrow> ((start, loc, snd (scanEscape sc1)), (start, loc, sc))
        \<in> measure (\<lambda>(start, loc, sc). length (sc_text sc) - sc_pos sc)"
    using readStream_pos [OF r] readStream_in [OF r] scanEscape_pos [of sc1] by auto
  show "c \<noteq> NUL \<Longrightarrow> ((start, loc, sc1), (start, loc, sc))
        \<in> measure (\<lambda>(start, loc, sc). length (sc_text sc) - sc_pos sc)"
    using readStream_pos [OF r] readStream_in [OF r] by auto
qed simp

declare stringLoop.simps [simp del]

definition scanString :: "scanner \<Rightarrow> bool \<times> scanner" where
  "scanString sc =
     (if peekStream sc = CHR 0x22
      then (True, stringLoop (sc_pos sc) (currentLocation sc) (ignoreStream sc))
      else (False, sc))"

text \<open>
  The look at the two characters after the next one, for a left paren in quotes: neither
  the end of the text, and the second one a quote.
\<close>

definition quoteTwoAhead :: "scanner \<Rightarrow> bool" where
  "quoteTwoAhead sc \<longleftrightarrow>
     fetch (sc_text sc) (sc_pos sc + 1) \<noteq> NUL \<and> fetch (sc_text sc) (sc_pos sc + 2) = CHR 0x27"

definition scanCharacter :: "scanner \<Rightarrow> bool \<times> scanner" where
  "scanCharacter sc =
     (let start = sc_pos sc; loc = currentLocation sc in
      if peekStream sc = CHR 0x27 then
        (case readStream (ignoreStream sc) of (c, sc2) \<Rightarrow>
           if c = CHR 0x27 then
             (let sc3 = lexReport loc EMPTY_CHARACTER_LITERAL [] sc2
              in (True, emitCharacterToken start (sc_pos sc3) sc3))
           else if peekStream sc2 \<noteq> CHR 0x27 then
             (let sc3 = ungetStream sc2 in
              if peekStream sc3 = CHR ''('' then (True, emitToken TKN_QUOTE loc sc3)
              else (True, scanAttribute loc sc3))
           else if c = CHR ''('' \<and> quoteTwoAhead sc2 then (True, emitToken TKN_QUOTE loc (ungetStream sc2))
           else (let sc3 = ignoreStream sc2 in (True, emitCharacterToken start (sc_pos sc3) sc3)))
      else (False, sc))"

section \<open>Numbers\<close>

text \<open>
  The body of the loop of \<^verbatim>\<open>scanNumeric\<close>: \<open>Inl\<close> goes on with the flag and the state,
  \<open>Inr\<close> is the state after the token was emitted.
\<close>

definition emitNumeric :: "bool \<Rightarrow> nat \<Rightarrow> nat \<Rightarrow> scanner \<Rightarrow> scanner" where
  "emitNumeric isReal start end sc =
     (if isReal then emitRealToken start end sc else emitIntegerToken start end sc)"

definition isDigitOrUnderscore :: "char \<Rightarrow> bool" where
  "isDigitOrUnderscore c \<longleftrightarrow> isDecimalDigit c \<or> c = CHR ''_''"

definition scanPoint :: "nat \<Rightarrow> location \<Rightarrow> bool \<Rightarrow> scanner \<Rightarrow> bool \<times> scanner + scanner" where
  "scanPoint start loc isReal sc1 =
     (if peekStream sc1 = CHR ''.'' then
        (let sc2 = ungetStream sc1 in Inr (emitNumeric isReal start (sc_pos sc2) sc2))
      else if isReal then
        (let sc2 = ungetStream (lexReport loc MALFORMED_NUMERIC_LITERAL [] sc1)
         in Inr (emitRealToken start (sc_pos sc2) sc2))
      else if \<not> isDecimalDigit (peekStream sc1) then
        (let sc2 = lexReport loc MALFORMED_NUMERIC_LITERAL [] sc1
         in Inr (emitIntegerToken start (sc_pos sc2 - 1) sc2))
      else Inl (True, sc1))"

definition scanExponent :: "nat \<Rightarrow> location \<Rightarrow> bool \<Rightarrow> scanner \<Rightarrow> bool \<times> scanner + scanner" where
  "scanExponent start loc isReal sc1 =
     (let end = sc_pos sc1 - 1; c = peekStream sc1 in
      if c = CHR ''-'' \<and> \<not> isReal then
        (let sc2 = ignoreStream (lexReport loc NEGATIVE_EXPONENT_IN_INTEGER_LITERAL [] sc1)
         in Inr (emitIntegerToken start end (skipWhile isDigitOrUnderscore sc2)))
      else
        let sc2 = (if c = CHR ''-'' \<or> c = CHR ''+'' then ignoreStream sc1 else sc1) in
        if \<not> isDecimalDigit (peekStream sc2) then
          Inr (emitNumeric isReal start end (lexReport loc MALFORMED_NUMERIC_LITERAL [] sc2))
        else Inl (isReal, sc2))"

definition numericRound :: "nat \<Rightarrow> location \<Rightarrow> bool \<Rightarrow> scanner \<Rightarrow> bool \<times> scanner + scanner" where
  "numericRound start loc isReal sc =
     (case readStream sc of (c, sc1) \<Rightarrow>
        if isDigitOrUnderscore c then Inl (isReal, sc1)
        else if c = CHR ''.'' then scanPoint start loc isReal sc1
        else if c = CHR ''E'' \<or> c = CHR ''e'' then scanExponent start loc isReal sc1
        else (let sc2 = ungetStream sc1 in Inr (emitNumeric isReal start (sc_pos sc2) sc2)))"

lemma numericRound_pos:
  assumes "numericRound start loc isReal sc = Inl (isReal', sc')"
  shows "sc_pos sc < sc_pos sc'" "sc_text sc' = sc_text sc" "sc_pos sc < length (sc_text sc)"
proof -
  obtain c sc1 where r: "readStream sc = (c, sc1)" by (cases "readStream sc")
  note p = readStream_pos [OF r] pos_ignoreStream [of sc1]
  have "c \<noteq> NUL"
  proof
    assume "c = NUL"
    then show False using assms by (simp add: numericRound_def r isDigitOrUnderscore_def Let_def)
  qed
  then show "sc_pos sc < length (sc_text sc)" using readStream_in [OF r] by simp
  show "sc_pos sc < sc_pos sc'" "sc_text sc' = sc_text sc"
    using assms p
    by (auto simp: numericRound_def scanPoint_def scanExponent_def r Let_def split: if_splits)
qed

function numericLoop :: "nat \<Rightarrow> location \<Rightarrow> bool \<Rightarrow> scanner \<Rightarrow> scanner" where
  "numericLoop start loc isReal sc =
     (case numericRound start loc isReal sc of
        Inl (isReal', sc') \<Rightarrow> numericLoop start loc isReal' sc'
      | Inr sc' \<Rightarrow> sc')"
  by pat_completeness auto
termination
  by (relation "measure (\<lambda>(start, loc, isReal, sc). length (sc_text sc) - sc_pos sc)")
     (simp, metis (no_types, lifting) case_prod_conv diff_less_mono2 in_measure numericRound_pos)

declare numericLoop.simps [simp del]

definition scanNumeric :: "scanner \<Rightarrow> bool \<times> scanner" where
  "scanNumeric sc =
     (let loc = currentLocation sc; start = sc_pos sc; c = peekStream sc in
      if \<not> isDecimalDigit c then (False, sc)
      else
        let sc1 = ignoreStream sc in
        if c = CHR ''0'' \<and> isDecimalDigit (peekStream sc1) then
          (let sc2 = skipWhile (\<lambda>c. c = CHR ''0'') (lexReport loc LEADING_ZERO_IN_INTEGER_LIT [] sc1) in
           if \<not> isDecimalDigit (peekStream sc2) then (True, emitIntegerToken start (start + 1) sc2)
           else (True, numericLoop start loc False (ignoreStream sc2)))
        else (True, numericLoop start loc False sc1))"

section \<open>Scanning a token\<close>

text \<open>
  \<^verbatim>\<open>scanToken\<close>: the loop of the source is left by every branch but the last one, which
  aborts the scan, so its second round ends at the test for the end of the text.
\<close>

definition skipBlanks :: "scanner \<Rightarrow> scanner" where
  "skipBlanks sc = eatComments (eatWhitespace sc)"

definition scanToken :: "scanner \<Rightarrow> scanner" where
  "scanToken sc0 =
     (let sc = skipBlanks sc0 in
      if peekStream sc = NUL \<or> sc_aborted sc then emitToken TKN_EOT Location0 sc
      else case scanName sc of
        (True, sc') \<Rightarrow> sc' | (False, sc1) \<Rightarrow>
      case scanGlyph sc1 of
        (True, sc') \<Rightarrow> sc' | (False, sc2) \<Rightarrow>
      case scanString sc2 of
        (True, sc') \<Rightarrow> sc' | (False, sc3) \<Rightarrow>
      case scanNumeric sc3 of
        (True, sc') \<Rightarrow> sc' | (False, sc4) \<Rightarrow>
      case scanCharacter sc4 of
        (True, sc') \<Rightarrow> sc' | (False, sc5) \<Rightarrow>
        let sc6 = abortScanning (ignoreStream (lexReportHere INVALID_CHARACTER [[peekStream sc5]] sc5))
        in emitToken TKN_EOT Location0 (skipBlanks sc6))"


section \<open>Progress\<close>

text \<open>
  What every scanning function does to the state: the text and the stamp stay,
  an aborted scan stays aborted, the position does not move back, and reports are only added, each counted once and
  with as many arguments as its format takes.
\<close>

definition scan_frame :: "scanner \<Rightarrow> scanner \<Rightarrow> bool" where
  "scan_frame sc sc' \<longleftrightarrow> sc_text sc' = sc_text sc \<and> sc_stamp sc' = sc_stamp sc \<and>
     (sc_aborted sc \<longrightarrow> sc_aborted sc') \<and>
     (\<exists>ds. sc_diags sc' = sc_diags sc @ ds \<and> sc_errorCount sc' = sc_errorCount sc + length ds \<and>
        (\<forall>(kind, loc, args) \<in> set ds. length args = diagArity kind))"

lemma scan_frame_refl [simp, intro]: "scan_frame sc sc"
  by (simp add: scan_frame_def)

lemma scan_frame_trans [trans]:
  assumes "scan_frame a b" "scan_frame b c" shows "scan_frame a c"
proof -
  obtain ds where ds: "sc_diags b = sc_diags a @ ds" "sc_errorCount b = sc_errorCount a + length ds"
    "\<forall>(kind, loc, args) \<in> set ds. length args = diagArity kind"
    using assms(1) by (auto simp: scan_frame_def)
  obtain es where es: "sc_diags c = sc_diags b @ es" "sc_errorCount c = sc_errorCount b + length es"
    "\<forall>(kind, loc, args) \<in> set es. length args = diagArity kind"
    using assms(2) by (auto simp: scan_frame_def)
  have "sc_diags c = sc_diags a @ (ds @ es)" "sc_errorCount c = sc_errorCount a + length (ds @ es)"
    "\<forall>(kind, loc, args) \<in> set (ds @ es). length args = diagArity kind"
    using ds es by auto
  then show ?thesis using assms unfolding scan_frame_def by metis
qed

lemma scan_frame_report:
  "length args = diagArity kind \<Longrightarrow> scan_frame sc (lexReport loc kind args sc)"
  by (simp add: scan_frame_def lexReport_def)

lemma diagArity_lexer [simp]:
  "diagArity ILLEGAL_ESCAPE = 1" "diagArity INVALID_CHARACTER = 1"
  "diagArity UNTERMINATED_STRING = 0" "diagArity NEWLINE_IN_STRING_LIT = 0"
  "diagArity LEADING_ZERO_IN_INTEGER_LIT = 0" "diagArity MALFORMED_NUMERIC_LITERAL = 0"
  "diagArity NEGATIVE_EXPONENT_IN_INTEGER_LITERAL = 0" "diagArity CONSECUTIVE_UNDERSCORE = 0"
  "diagArity EMPTY_CHARACTER_LITERAL = 0" "diagArity INVALID_ATTRIBUTE = 0"
  by (simp_all add: diagArity_def)

lemma scan_frame_read: "readStream sc = (c, sc') \<Longrightarrow> scan_frame sc sc'"
  by (auto simp: scan_frame_def readStream_def Let_def split: if_splits)

lemma scan_frame_steps [simp]:
  "scan_frame sc (ignoreStream sc)" "scan_frame sc (ungetStream sc)"
  "scan_frame sc (emitTokenRange code i j sc)" "scan_frame sc (emitToken code loc sc)"
  "scan_frame sc (emitStringToken i j sc)" "scan_frame sc (emitIntegerToken i j sc)"
  "scan_frame sc (emitRealToken i j sc)" "scan_frame sc (emitCharacterToken i j sc)"
  "scan_frame sc (emitIdentifierToken loc sc)" "scan_frame sc (emitAttributeToken loc sc)"
  "scan_frame sc (emitNumeric r i j sc)" "scan_frame sc (abortScanning sc)"
  "scan_frame sc (sc\<lparr>sc_nameBuff := nb\<rparr>)"
  by (simp_all add: scan_frame_def ignoreStream_def readStream_def ungetStream_def emitTokenRange_def
      emitToken_def emitStringToken_def emitIntegerToken_def emitRealToken_def emitCharacterToken_def
      emitIdentifierToken_def emitAttributeToken_def emitNumeric_def abortScanning_def Let_def)

lemma scan_frame_then:
  assumes "scan_frame a b"
  shows "scan_frame a (ignoreStream b)" "scan_frame a (ungetStream b)"
    "scan_frame a (emitToken code loc b)" "scan_frame a (emitStringToken i j b)"
    "scan_frame a (emitIntegerToken i j b)" "scan_frame a (emitRealToken i j b)"
    "scan_frame a (emitCharacterToken i j b)" "scan_frame a (emitIdentifierToken loc b)"
    "scan_frame a (emitAttributeToken loc b)" "scan_frame a (emitNumeric r i j b)"
    "scan_frame a (abortScanning b)" "scan_frame a (b\<lparr>sc_nameBuff := nb\<rparr>)"
    "length args = diagArity kind \<Longrightarrow> scan_frame a (lexReport loc kind args b)"
    "length args = diagArity kind \<Longrightarrow> scan_frame a (lexReportHere kind args b)"
  by (rule scan_frame_trans [OF assms], simp add: scan_frame_report lexReportHere_def)+

lemma scan_frame_skipWhile: "scan_frame sc (skipWhile P sc)"
proof (induction P sc rule: skipWhile.induct)
  case (1 P sc)
  then show ?case
    by (subst skipWhile.simps) (auto intro: scan_frame_trans [OF scan_frame_steps(1)])
qed

lemma scan_frame_skipComment: "scan_frame sc (skipComment sc)"
proof (induction sc rule: skipComment.induct)
  case (1 sc)
  then show ?case
    by (subst skipComment.simps) (auto split: prod.split dest: scan_frame_read intro: scan_frame_trans)
qed

lemma scan_frame_eatComment: "scan_frame sc (snd (eatComment sc))"
  by (auto simp: eatComment_def Let_def
      intro: scan_frame_trans [OF scan_frame_steps(1)] scan_frame_skipComment)

lemma scan_frame_eatComments: "scan_frame sc (eatComments sc)"
proof (induction sc rule: eatComments.induct)
  case (1 sc)
  obtain b sc' where e: "eatComment sc = (b, sc')" by (cases "eatComment sc")
  have "scan_frame sc sc'" using scan_frame_eatComment [of sc] e by simp
  moreover have "b \<Longrightarrow> scan_frame sc' (eatComments (eatWhitespace sc'))"
    using 1 [OF e [symmetric]] scan_frame_skipWhile [of sc' isWhitespace]
    by (metis eatWhitespace_def scan_frame_trans)
  ultimately show ?case
    by (subst eatComments.simps) (auto simp: e intro: scan_frame_trans)
qed

lemma scan_frame_skipBlanks: "scan_frame sc (skipBlanks sc)"
  unfolding skipBlanks_def eatWhitespace_def
  by (rule scan_frame_trans [OF scan_frame_skipWhile scan_frame_eatComments])

lemma scan_frame_nameRound: "nameRound c1 sc = (c2, sc') \<Longrightarrow> scan_frame sc sc'"
  by (auto simp: nameRound_def Let_def diagnoseConsecutiveUnderscores_def split: if_splits
      intro!: scan_frame_then scan_frame_trans [OF _ scan_frame_skipWhile])

lemma scan_frame_nameLoop: "scan_frame sc (nameLoop c1 sc)"
proof (induction c1 sc rule: nameLoop.induct)
  case (1 c1 sc)
  then show ?case
    by (subst nameLoop.simps) (auto split: prod.split dest: scan_frame_nameRound intro: scan_frame_trans)
qed

lemma scan_frame_consumeName: "consumeName sc = (b, sc') \<Longrightarrow> scan_frame sc sc'"
  by (auto simp: consumeName_def Let_def scan_frame_nameLoop split: if_splits)

lemma scan_frame_scanName: "scanName sc = (b, sc') \<Longrightarrow> scan_frame sc sc'"
  by (auto simp: scanName_def Let_def split: prod.splits bool.splits if_splits
      dest!: scan_frame_consumeName intro!: scan_frame_then)

lemma scan_frame_scanAttribute: "scan_frame sc (scanAttribute loc sc)"
  by (auto simp: scanAttribute_def Let_def split: prod.splits
      dest!: scan_frame_consumeName intro!: scan_frame_then)

lemma scan_frame_scanGlyph: "scanGlyph sc = (b, sc') \<Longrightarrow> scan_frame sc sc'"
  by (auto simp: scanGlyph_def Let_def split: prod.splits if_splits
      dest!: scan_frame_read intro!: scan_frame_then)

lemma scan_frame_scanEscape: "scan_frame sc (snd (scanEscape sc))"
  by (auto simp: scanEscape_def Let_def split: prod.splits
      dest!: scan_frame_read intro!: scan_frame_then)

lemma scan_frame_stringLoop: "scan_frame sc (stringLoop start loc sc)"
proof (induction start loc sc rule: stringLoop.induct)
  case (1 start loc sc)
  obtain c sc1 where r: "readStream sc = (c, sc1)" by (cases "readStream sc")
  note f = scan_frame_read [OF r] scan_frame_scanEscape [of sc1]
  show ?case
    using f 1 [OF r [symmetric]]
    by (subst stringLoop.simps)
       (auto simp: r Let_def intro!: scan_frame_then intro: scan_frame_trans)
qed

lemma scan_frame_scanString: "scanString sc = (b, sc') \<Longrightarrow> scan_frame sc sc'"
  by (auto simp: scanString_def split: if_splits
      intro: scan_frame_trans [OF scan_frame_steps(1) scan_frame_stringLoop])

lemma scan_frame_scanCharacter: "scanCharacter sc = (b, sc') \<Longrightarrow> scan_frame sc sc'"
  by (auto simp: scanCharacter_def Let_def split: prod.splits if_splits
      dest!: scan_frame_read scan_frame_trans [OF scan_frame_steps(1)]
      intro!: scan_frame_then scan_frame_trans [OF _ scan_frame_scanAttribute])

lemma scan_frame_scanPoint:
  "case_sum (\<lambda>(r, sc'). scan_frame sc sc') (scan_frame sc) (scanPoint start loc isReal sc)"
  by (auto simp: scanPoint_def Let_def intro!: scan_frame_then)

lemma scan_frame_scanExponent:
  "case_sum (\<lambda>(r, sc'). scan_frame sc sc') (scan_frame sc) (scanExponent start loc isReal sc)"
proof -
  have "scan_frame sc (skipWhile P (ignoreStream (lexReport loc NEGATIVE_EXPONENT_IN_INTEGER_LITERAL [] sc)))" for P
    by (rule scan_frame_trans [OF _ scan_frame_skipWhile]) (simp add: scan_frame_then)
  then show ?thesis
    by (simp add: scanExponent_def Let_def scan_frame_then)
qed

lemma scan_frame_numericRound:
  "case_sum (\<lambda>(r, sc'). scan_frame sc sc') (scan_frame sc) (numericRound start loc isReal sc)"
proof -
  obtain c sc1 where r: "readStream sc = (c, sc1)" by (cases "readStream sc")
  note t = scan_frame_trans [OF scan_frame_read [OF r]]
  have "case_sum (\<lambda>(r, sc'). scan_frame sc sc') (scan_frame sc) (scanPoint start loc isReal sc1)"
    using scan_frame_scanPoint [of sc1 start loc isReal] by (auto split: sum.splits intro: t)
  moreover have "case_sum (\<lambda>(r, sc'). scan_frame sc sc') (scan_frame sc) (scanExponent start loc isReal sc1)"
    using scan_frame_scanExponent [of sc1 start loc isReal] by (auto split: sum.splits intro: t)
  ultimately show ?thesis
    by (simp add: numericRound_def r Let_def scan_frame_read [OF r] scan_frame_then)
qed

lemma scan_frame_numericLoop: "scan_frame sc (numericLoop start loc isReal sc)"
proof (induction start loc isReal sc rule: numericLoop.induct)
  case (1 start loc isReal sc)
  then show ?case using scan_frame_numericRound [where sc = sc and start = start and loc = loc and isReal = isReal]
    by (subst numericLoop.simps) (auto split: sum.splits intro: scan_frame_trans)
qed

lemma scan_frame_scanNumeric: "scanNumeric sc = (b, sc') \<Longrightarrow> scan_frame sc sc'"
  by (auto simp: scanNumeric_def Let_def split: if_splits
      intro!: scan_frame_then scan_frame_trans [OF _ scan_frame_skipWhile]
        scan_frame_trans [OF _ scan_frame_numericLoop])

lemmas scan_frame_scanners =
  scan_frame_scanName scan_frame_scanGlyph scan_frame_scanString scan_frame_scanNumeric
  scan_frame_scanCharacter

lemma scan_frame_scanToken: "scan_frame sc (scanToken sc)"
proof -
  let ?sc = "skipBlanks sc"
  note f = scan_frame_trans [OF scan_frame_skipBlanks [of sc]]
  obtain b1 s1 b2 s2 b3 s3 b4 s4 b5 s5 where
    s: "scanName ?sc = (b1, s1)" "scanGlyph s1 = (b2, s2)" "scanString s2 = (b3, s3)"
       "scanNumeric s3 = (b4, s4)" "scanCharacter s4 = (b5, s5)"
    by (metis surj_pair)
  have 1: "scan_frame sc s1" using f scan_frame_scanName [OF s(1)] by blast
  have 2: "scan_frame sc s2" using scan_frame_trans [OF 1 scan_frame_scanGlyph [OF s(2)]] .
  have 3: "scan_frame sc s3" using scan_frame_trans [OF 2 scan_frame_scanString [OF s(3)]] .
  have 4: "scan_frame sc s4" using scan_frame_trans [OF 3 scan_frame_scanNumeric [OF s(4)]] .
  have 5: "scan_frame sc s5" using scan_frame_trans [OF 4 scan_frame_scanCharacter [OF s(5)]] .
  show ?thesis
    using scan_frame_then(3) [OF scan_frame_skipBlanks [of sc]] 1 2 3 4 5
    by (auto simp: scanToken_def Let_def s split: bool.split
        intro!: scan_frame_then scan_frame_trans [OF _ scan_frame_skipBlanks])
qed

end
