(* ===== verification/ScanSafety.thy ===== *)
theory ScanSafety
  imports Scanner
begin

text \<open>
  What the scanner promises to its caller, whatever the text: a token other than the end of
  the text consumes at least one character, so a text gives finitely many tokens; once the
  end was returned it is returned for ever; and, for a text whose last character is a
  newline and that holds no backslash, no read leaves the buffer.
\<close>

section \<open>The position\<close>

lemma pos_emit [simp]:
  "sc_pos (emitTokenRange code i j sc) = sc_pos sc" "sc_pos (emitToken code loc sc) = sc_pos sc"
  "sc_pos (emitStringToken i j sc) = sc_pos sc" "sc_pos (emitIntegerToken i j sc) = sc_pos sc"
  "sc_pos (emitRealToken i j sc) = sc_pos sc" "sc_pos (emitCharacterToken i j sc) = sc_pos sc"
  "sc_pos (emitIdentifierToken loc sc) = sc_pos sc" "sc_pos (emitAttributeToken loc sc) = sc_pos sc"
  "sc_pos (emitNumeric r i j sc) = sc_pos sc" "sc_pos (abortScanning sc) = sc_pos sc"
  by (simp_all add: emitTokenRange_def emitToken_def emitStringToken_def emitIntegerToken_def
      emitRealToken_def emitCharacterToken_def emitIdentifierToken_def emitAttributeToken_def
      emitNumeric_def abortScanning_def)

lemma target_emit [simp]:
  "tk_code (sc_target (emitTokenRange code i j sc)) = code"
  "tk_code (sc_target (emitToken code loc sc)) = code"
  "tk_code (sc_target (emitStringToken i j sc)) = TKN_STRING"
  "tk_code (sc_target (emitIntegerToken i j sc)) = TKN_INTEGER"
  "tk_code (sc_target (emitRealToken i j sc)) = TKN_REAL"
  "tk_code (sc_target (emitCharacterToken i j sc)) = TKN_CHARACTER"
  "tk_code (sc_target (emitIdentifierToken loc sc)) = TKN_IDENTIFIER"
  "tk_code (sc_target (emitAttributeToken loc sc)) = TKN_ATTRIBUTE"
  by (simp_all add: emitTokenRange_def emitToken_def emitStringToken_def emitIntegerToken_def
      emitRealToken_def emitCharacterToken_def emitIdentifierToken_def emitAttributeToken_def)

lemma nameLoop_pos: "sc_pos sc < sc_pos (nameLoop c1 sc)"
proof (induction c1 sc rule: nameLoop.induct)
  case (1 c1 sc)
  then show ?case
    by (subst nameLoop.simps) (auto split: prod.split dest: nameRound_pos(1) intro: less_trans)
qed

lemma consumeName_pos:
  "consumeName sc = (True, sc') \<Longrightarrow> sc_pos sc < sc_pos sc'"
  "consumeName sc = (False, sc') \<Longrightarrow> sc' = sc"
  by (auto simp: consumeName_def Let_def nameLoop_pos split: if_splits)

lemma scanName_pos:
  "scanName sc = (True, sc') \<Longrightarrow> sc_pos sc < sc_pos sc'"
  "scanName sc = (False, sc') \<Longrightarrow> sc' = sc"
  by (auto simp: scanName_def Let_def split: prod.splits bool.splits if_splits dest: consumeName_pos)

lemma scanAttribute_pos: "sc_pos sc \<le> sc_pos (scanAttribute loc sc)"
proof -
  obtain b sc1 where "consumeName sc = (b, sc1)" by (cases "consumeName sc")
  then show ?thesis using consumeName_pos [of sc sc1]
    by (cases b) (auto simp: scanAttribute_def Let_def)
qed

lemma scanGlyph_pos:
  assumes "scanGlyph sc = (b, sc')"
  shows "sc_pos sc \<le> sc_pos sc' \<and> (b \<longrightarrow> sc_pos sc < sc_pos sc')"
proof -
  obtain c sc1 where r: "readStream sc = (c, sc1)" by (cases "readStream sc")
  show ?thesis
    using assms readStream_pos [OF r] pos_ignoreStream [of sc1]
    by (auto simp: scanGlyph_def Let_def r split: prod.splits if_splits)
qed

lemma stringLoop_pos: "sc_pos sc \<le> sc_pos (stringLoop start loc sc)"
proof (induction start loc sc rule: stringLoop.induct)
  case (1 start loc sc)
  obtain c sc1 where r: "readStream sc = (c, sc1)" by (cases "readStream sc")
  show ?case
    using readStream_pos [OF r] scanEscape_pos [of sc1] 1 [OF r [symmetric]]
    by (subst stringLoop.simps) (auto simp: r Let_def)
qed

lemma scanString_pos:
  "scanString sc = (True, sc') \<Longrightarrow> sc_pos sc < sc_pos sc'"
  "scanString sc = (False, sc') \<Longrightarrow> sc' = sc"
  using pos_ignoreStream [of sc] stringLoop_pos [of "ignoreStream sc"]
  by (auto simp: scanString_def split: if_splits intro: less_le_trans)

lemma numericRound_le:
  "numericRound start loc isReal sc = Inr sc' \<Longrightarrow> sc_pos sc \<le> sc_pos sc'"
proof -
  obtain c sc1 where r: "readStream sc = (c, sc1)" by (cases "readStream sc")
  have skip: "sc_pos sc \<le> sc_pos (skipWhile P (ignoreStream (lexReport l k xs sc1)))" for P l k xs
    using skipWhile_pos [of "ignoreStream (lexReport l k xs sc1)" P] readStream_pos [OF r]
      pos_ignoreStream [of "lexReport l k xs sc1"] by simp
  show "numericRound start loc isReal sc = Inr sc' \<Longrightarrow> sc_pos sc \<le> sc_pos sc'"
    using readStream_pos [OF r] pos_ignoreStream [of sc1] skip
    by (auto simp: numericRound_def r scanPoint_def scanExponent_def Let_def split: if_splits
        intro: skip)
qed

lemma numericLoop_pos: "sc_pos sc \<le> sc_pos (numericLoop start loc isReal sc)"
proof (induction start loc isReal sc rule: numericLoop.induct)
  case (1 start loc isReal sc)
  then show ?case
    by (subst numericLoop.simps)
       (force split: sum.splits dest: numericRound_pos(1) numericRound_le)
qed

lemma scanNumeric_pos:
  "scanNumeric sc = (True, sc') \<Longrightarrow> sc_pos sc < sc_pos sc'"
  "scanNumeric sc = (False, sc') \<Longrightarrow> sc' = sc"
proof -
  let ?z = "skipWhile (\<lambda>c. c = CHR ''0'')
    (lexReport (currentLocation sc) LEADING_ZERO_IN_INTEGER_LIT [] (ignoreStream sc))"
  have z: "sc_pos sc < sc_pos ?z"
    using skipWhile_pos [of "lexReport (currentLocation sc) LEADING_ZERO_IN_INTEGER_LIT [] (ignoreStream sc)"]
      pos_ignoreStream [of sc] by (metis less_le_trans stream_frame(6))
  have a: "sc_pos sc < sc_pos (numericLoop s l r (ignoreStream sc))" for s l r
    using pos_ignoreStream numericLoop_pos by (rule less_le_trans)
  have b: "sc_pos sc < sc_pos (numericLoop s l r (ignoreStream ?z))" for s l r
    using less_trans [OF z pos_ignoreStream] numericLoop_pos by (rule less_le_trans)
  show "scanNumeric sc = (True, sc') \<Longrightarrow> sc_pos sc < sc_pos sc'"
    using a b z by (auto simp: scanNumeric_def Let_def split: if_splits)
  show "scanNumeric sc = (False, sc') \<Longrightarrow> sc' = sc"
    by (auto simp: scanNumeric_def Let_def split: if_splits)
qed

lemma scanCharacter_pos:
  "scanCharacter sc = (True, sc') \<Longrightarrow> sc_pos sc < sc_pos sc'"
  "scanCharacter sc = (False, sc') \<Longrightarrow> sc' = sc"
proof -
  obtain c sc2 where r: "readStream (ignoreStream sc) = (c, sc2)" by (cases "readStream (ignoreStream sc)")
  have p: "sc_pos sc < sc_pos sc2 - 1"
    using readStream_pos [OF r] pos_ignoreStream [of sc] by linarith
  have a: "sc_pos sc < sc_pos (scanAttribute l (ungetStream sc2))" for l
    using p scanAttribute_pos [of "ungetStream sc2" l] by simp
  show "scanCharacter sc = (True, sc') \<Longrightarrow> sc_pos sc < sc_pos sc'"
    using p a pos_ignoreStream [of sc2]
    by (auto simp: scanCharacter_def r Let_def split: if_splits)
  show "scanCharacter sc = (False, sc') \<Longrightarrow> sc' = sc"
    by (auto simp: scanCharacter_def r Let_def split: if_splits)
qed

lemma eatComments_pos: "sc_pos sc \<le> sc_pos (eatComments sc)"
proof (induction sc rule: eatComments.induct)
  case (1 sc)
  obtain b sc' where e: "eatComment sc = (b, sc')" by (cases "eatComment sc")
  have f: "\<not> b \<Longrightarrow> sc_pos sc \<le> sc_pos sc'"
    using e pos_ignoreStream [of sc] by (auto simp: eatComment_def Let_def split: if_splits)
  show ?case
    using 1 [OF e [symmetric]] eatComment_pos [of sc sc'] e f skipWhile_pos [of sc' isWhitespace]
    by (subst eatComments.simps) (cases b; auto simp: eatWhitespace_def)
qed

lemma skipBlanks_pos: "sc_pos sc \<le> sc_pos (skipBlanks sc)"
  using skipWhile_pos [of sc isWhitespace] eatComments_pos [of "eatWhitespace sc"]
  by (simp add: skipBlanks_def eatWhitespace_def)

text \<open>
  The outcome of a scan: the end of the text, or a token read by one of the five scanners
  from the first character after the blanks.
\<close>

lemma scanToken_cases:
  obtains (EOT) "tk_code (sc_target (scanToken sc)) = TKN_EOT" "tk_loc (sc_target (scanToken sc)) = Location0"
  | (token) "sc_pos (skipBlanks sc) < sc_pos (scanToken sc)" "peekStream (skipBlanks sc) \<noteq> NUL"
      "\<not> sc_aborted (skipBlanks sc)"
proof -
  let ?sc = "skipBlanks sc"
  obtain b1 s1 b2 s2 b3 s3 b4 s4 b5 s5 where
    s: "scanName ?sc = (b1, s1)" "scanGlyph s1 = (b2, s2)" "scanString s2 = (b3, s3)"
       "scanNumeric s3 = (b4, s4)" "scanCharacter s4 = (b5, s5)"
    by (metis surj_pair)
  show thesis
  proof (cases "peekStream ?sc = NUL \<or> sc_aborted ?sc \<or> (\<not> b1 \<and> \<not> b2 \<and> \<not> b3 \<and> \<not> b4 \<and> \<not> b5)")
    case True
    then show ?thesis
      by (intro EOT) (auto simp: scanToken_def Let_def s emitToken_def)
  next
    case False
    have "sc_pos ?sc \<le> sc_pos s1 \<and> (b1 \<longrightarrow> sc_pos ?sc < sc_pos s1)"
      using scanName_pos [of ?sc s1] s(1) by (cases b1) auto
    moreover have "sc_pos s1 \<le> sc_pos s2 \<and> (b2 \<longrightarrow> sc_pos s1 < sc_pos s2)"
      using scanGlyph_pos [OF s(2)] .
    moreover have "sc_pos s2 \<le> sc_pos s3 \<and> (b3 \<longrightarrow> sc_pos s2 < sc_pos s3)"
      using scanString_pos [of s2 s3] s(3) by (cases b3) auto
    moreover have "sc_pos s3 \<le> sc_pos s4 \<and> (b4 \<longrightarrow> sc_pos s3 < sc_pos s4)"
      using scanNumeric_pos [of s3 s4] s(4) by (cases b4) auto
    moreover have "b5 \<longrightarrow> sc_pos s4 < sc_pos s5"
      using scanCharacter_pos [of s4 s5] s(5) by (cases b5) auto
    ultimately show ?thesis using False
      by (intro token) (auto simp: scanToken_def Let_def s split: bool.split)
  qed
qed

section \<open>The end of the text\<close>

text \<open>A state the skipping of blanks leaves alone.\<close>

definition no_blank :: "scanner \<Rightarrow> bool" where
  "no_blank sc \<longleftrightarrow> \<not> isWhitespace (peekStream sc) \<and> \<not> fst (eatComment sc)"

lemma eatComment_False: "\<not> fst (eatComment sc) \<Longrightarrow> snd (eatComment sc) = sc"
proof -
  have "peekStream sc = CHR ''-'' \<Longrightarrow> ungetStream (ignoreStream sc) = sc"
    by (auto simp: peekStream_def ungetStream_def ignoreStream_def readStream_def Let_def split: if_splits)
  then show "\<not> fst (eatComment sc) \<Longrightarrow> snd (eatComment sc) = sc"
    by (auto simp: eatComment_def Let_def)
qed

lemma skipBlanks_no_blank: "no_blank sc \<Longrightarrow> skipBlanks sc = sc"
proof -
  assume n: "no_blank sc"
  then have "eatWhitespace sc = sc"
    unfolding eatWhitespace_def by (subst skipWhile.simps) (simp add: no_blank_def)
  moreover have "eatComments sc = sc"
    using n eatComment_False [of sc]
    by (subst eatComments.simps) (auto simp: no_blank_def split: prod.split)
  ultimately show ?thesis by (simp add: skipBlanks_def)
qed

lemma skipWhile_stops: "\<not> P NUL \<Longrightarrow> \<not> P (peekStream (skipWhile P sc))"
proof (induction P sc rule: skipWhile.induct)
  case (1 P sc)
  show ?case
  proof (cases "P (peekStream sc)")
    case True
    then have "peekStream sc \<noteq> NUL" using 1(2) by auto
    then show ?thesis using 1 True peekStream_in [of sc] 1(2) by (simp add: skipWhile_unfold [of P sc])
  next
    case False
    then show ?thesis using 1(2) by (simp add: skipWhile_unfold [of P sc])
  qed
qed

lemma eatWhitespace_stops: "\<not> isWhitespace (peekStream (eatWhitespace sc))"
  unfolding eatWhitespace_def by (rule skipWhile_stops) simp

lemma no_blank_skipBlanks: "no_blank (skipBlanks sc)"
proof -
  have "\<not> isWhitespace (peekStream s) \<Longrightarrow> no_blank (eatComments s)" for s
  proof (induction s rule: eatComments.induct)
    case (1 s)
    obtain b s' where e: "eatComment s = (b, s')" by (cases "eatComment s")
    show ?case
    proof (cases b)
      case True
      then show ?thesis using 1(1) [OF e [symmetric] True eatWhitespace_stops] e
        by (subst eatComments.simps) simp
    next
      case False
      then have "s' = s" using eatComment_False [of s] e by simp
      then show ?thesis using False e 1(2) by (subst eatComments.simps) (simp add: no_blank_def)
    qed
  qed
  then show ?thesis by (simp add: skipBlanks_def eatWhitespace_stops)
qed

lemma no_blank_cong:
  assumes "sc_text s' = sc_text s" "sc_pos s' = sc_pos s"
  shows "no_blank s' = no_blank s" "peekStream s' = peekStream s"
proof -
  show p: "peekStream s' = peekStream s" using assms by (simp add: peekStream_def)
  have "peekStream (ignoreStream s') = peekStream (ignoreStream s)"
    using assms by (simp add: peekStream_def ignoreStream_def readStream_def Let_def)
  then show "no_blank s' = no_blank s"
    by (simp add: no_blank_def eatComment_def p Let_def)
qed

text \<open>No scanner emits the end token.\<close>

lemma getTokenCode_not_EOT: "getTokenCode str \<noteq> TKN_EOT"
  by (simp add: getTokenCode_def)

lemma glyphCode_not_EOT: "fst (glyphCode c d) \<noteq> TKN_EOT"
  by (simp add: glyphCode_def)

lemma stringLoop_code: "tk_code (sc_target (stringLoop start loc sc)) = TKN_STRING"
proof (induction start loc sc rule: stringLoop.induct)
  case (1 start loc sc)
  obtain c sc1 where r: "readStream sc = (c, sc1)" by (cases "readStream sc")
  show ?case using 1 [OF r [symmetric]]
    by (subst stringLoop.simps) (simp add: r Let_def)
qed

lemma emitNumeric_code: "tk_code (sc_target (emitNumeric r i j sc)) \<noteq> TKN_EOT"
  by (simp add: emitNumeric_def)

lemma numericRound_code:
  "numericRound start loc isReal sc = Inr sc' \<Longrightarrow> tk_code (sc_target sc') \<noteq> TKN_EOT"
  using emitNumeric_code
  by (auto simp: numericRound_def scanPoint_def scanExponent_def Let_def split: prod.splits if_splits)

lemma numericLoop_code: "tk_code (sc_target (numericLoop start loc isReal sc)) \<noteq> TKN_EOT"
proof (induction start loc isReal sc rule: numericLoop.induct)
  case (1 start loc isReal sc)
  then show ?case
    using numericRound_code [of start loc isReal sc]
    by (subst numericLoop.simps) (simp split: sum.split)
qed

lemma scanName_code: "scanName sc = (True, sc') \<Longrightarrow> tk_code (sc_target sc') \<noteq> TKN_EOT"
  using getTokenCode_not_EOT
  by (auto simp: scanName_def Let_def split: prod.splits bool.splits if_splits)

lemma scanGlyph_code: "scanGlyph sc = (True, sc') \<Longrightarrow> tk_code (sc_target sc') \<noteq> TKN_EOT"
  using glyphCode_not_EOT
  by (auto simp: scanGlyph_def Let_def split: prod.splits if_splits) (metis fst_conv)+

lemma scanString_code: "scanString sc = (True, sc') \<Longrightarrow> tk_code (sc_target sc') \<noteq> TKN_EOT"
  using stringLoop_code by (auto simp: scanString_def split: if_splits)

lemma scanNumeric_code: "scanNumeric sc = (True, sc') \<Longrightarrow> tk_code (sc_target sc') \<noteq> TKN_EOT"
  using numericLoop_code by (auto simp: scanNumeric_def Let_def split: if_splits)

lemma scanCharacter_code: "scanCharacter sc = (True, sc') \<Longrightarrow> tk_code (sc_target sc') \<noteq> TKN_EOT"
  by (auto simp: scanCharacter_def scanAttribute_def Let_def split: prod.splits if_splits)

lemma scanToken_again:
  assumes "tk_code (sc_target (scanToken sc)) = TKN_EOT"
  shows "scanToken (scanToken sc) = scanToken sc"
proof -
  have again: "scanToken (emitToken TKN_EOT Location0 s) = emitToken TKN_EOT Location0 s"
    if "no_blank s" "peekStream s = NUL \<or> sc_aborted s" for s
  proof -
    let ?e = "emitToken TKN_EOT Location0 s"
    have t: "sc_text ?e = sc_text s" "sc_pos ?e = sc_pos s" by (simp_all add: emitToken_def)
    have "skipBlanks ?e = ?e"
      using that no_blank_cong [OF t] by (simp add: skipBlanks_no_blank)
    then show ?thesis using that no_blank_cong(2) [OF t]
      by (simp add: scanToken_def Let_def) (auto simp: emitToken_def)
  qed
  let ?sc = "skipBlanks sc"
  obtain b1 s1 b2 s2 b3 s3 b4 s4 b5 s5 where
    s: "scanName ?sc = (b1, s1)" "scanGlyph s1 = (b2, s2)" "scanString s2 = (b3, s3)"
       "scanNumeric s3 = (b4, s4)" "scanCharacter s4 = (b5, s5)"
    by (metis surj_pair)
  show ?thesis
  proof (cases "peekStream ?sc = NUL \<or> sc_aborted ?sc")
    case True
    then show ?thesis
      using again [OF no_blank_skipBlanks [of sc]] by (simp add: scanToken_def [of sc] Let_def)
  next
    case False
    have n: "\<not> b1" "\<not> b2" "\<not> b3" "\<not> b4" "\<not> b5"
      using assms False s scanName_code [of ?sc s1] scanGlyph_code [of s1 s2] scanString_code [of s2 s3]
        scanNumeric_code [of s3 s4] scanCharacter_code [of s4 s5]
      by (auto simp: scanToken_def Let_def s split: bool.splits)
    then have e: "scanToken sc = emitToken TKN_EOT Location0 (skipBlanks
        (abortScanning (ignoreStream (lexReportHere INVALID_CHARACTER [[peekStream s5]] s5))))"
      using False by (simp add: scanToken_def Let_def s)
    have "sc_aborted (skipBlanks (abortScanning t))" for t
      using scan_frame_skipBlanks [of "abortScanning t"] by (simp add: scan_frame_def abortScanning_def)
    then show ?thesis
      using again [OF no_blank_skipBlanks] by (simp add: e)
  qed
qed

text \<open>
  The end of the text is final: when a scan returned the end token, scanning again
  returns it again, reads nothing more and reports nothing more.
\<close>

theorem scanToken_EOT_final:
  assumes "tk_code (sc_target (scanToken sc)) = TKN_EOT"
  shows "scanToken (scanToken sc) = scanToken sc"
  using assms by (rule scanToken_again)

theorem scanToken_EOT_final_witness:
  "tk_code (sc_target (scanToken (mkScanner (mkTextProvider 1 [LF])))) = TKN_EOT \<and>
   scanToken (scanToken (mkScanner (mkTextProvider 1 [LF]))) = scanToken (mkScanner (mkTextProvider 1 [LF]))"
proof -
  have "tk_code (sc_target (scanToken (mkScanner (mkTextProvider 1 [LF])))) = TKN_EOT"
    by code_simp
  then show ?thesis using scanToken_EOT_final [of "mkScanner (mkTextProvider 1 [LF])"] by simp
qed

section \<open>Progress\<close>

lemma scanToken_EOT_target:
  "tk_code (sc_target (scanToken sc)) = TKN_EOT \<Longrightarrow>
   sc_target (scanToken sc) = \<lparr>tk_code = TKN_EOT, tk_loc = Location0, tk_rep = []\<rparr>"
proof -
  let ?sc = "skipBlanks sc"
  obtain b1 s1 b2 s2 b3 s3 b4 s4 b5 s5 where
    s: "scanName ?sc = (b1, s1)" "scanGlyph s1 = (b2, s2)" "scanString s2 = (b3, s3)"
       "scanNumeric s3 = (b4, s4)" "scanCharacter s4 = (b5, s5)"
    by (metis surj_pair)
  assume "tk_code (sc_target (scanToken sc)) = TKN_EOT"
  then show ?thesis
    using s scanName_code [of ?sc s1] scanGlyph_code [of s1 s2] scanString_code [of s2 s3]
      scanNumeric_code [of s3 s4] scanCharacter_code [of s4 s5]
    by (auto simp: scanToken_def Let_def s emitToken_def split: bool.splits if_splits)
qed

lemma scanToken_moves:
  "tk_code (sc_target (scanToken sc)) \<noteq> TKN_EOT \<Longrightarrow>
   sc_text (scanToken sc) = sc_text sc \<and> sc_pos sc < sc_pos (scanToken sc) \<and> sc_pos sc < length (sc_text sc)"
proof (cases rule: scanToken_cases [of sc, case_names EOT token])
  case token
  then have "sc_pos (skipBlanks sc) < length (sc_text (skipBlanks sc))"
    using peekStream_in by blast
  moreover have "sc_text (skipBlanks sc) = sc_text sc"
    using scan_frame_skipBlanks [of sc] by (simp add: scan_frame_def)
  ultimately show ?thesis
    using token(1) skipBlanks_pos [of sc] scan_frame_scanToken [of sc] by (simp add: scan_frame_def)
qed simp

text \<open>
  C40. Every scan keeps the text and the reports made so far, and a scan that does not
  return the end token has moved forward inside the text.
\<close>

theorem scanToken_progress:
  "scan_frame sc (scanToken sc) \<and>
   (tk_code (sc_target (scanToken sc)) = TKN_EOT \<or>
    sc_pos sc < sc_pos (scanToken sc) \<and> sc_pos sc < length (sc_text sc))"
  using scan_frame_scanToken [of sc] scanToken_moves [of sc] by blast

section \<open>The bounds of the buffer\<close>

text \<open>
  A text is closed when its last character is a newline and no backslash can take that
  newline into a string.  Under this condition every scanner keeps the iterator inside the
  buffer; \<open>inside\<close> is a position from which a character, not the terminator, is read.
\<close>

definition closed_text :: "string \<Rightarrow> bool" where
  "closed_text text \<longleftrightarrow> (text \<noteq> [] \<longrightarrow> last text = LF) \<and> CHR 0x5C \<notin> set text"

definition in_buffer :: "scanner \<Rightarrow> bool" where
  "in_buffer sc \<longleftrightarrow> closed_text (sc_text sc) \<and> sc_pos sc \<le> length (sc_text sc)"

definition inside :: "scanner \<Rightarrow> bool" where
  "inside sc \<longleftrightarrow> closed_text (sc_text sc) \<and> sc_pos sc < length (sc_text sc)"

lemma inside_in_buffer: "inside sc \<Longrightarrow> in_buffer sc"
  by (simp add: inside_def in_buffer_def)

lemma in_buffer_peek: "in_buffer sc \<Longrightarrow> peekStream sc \<noteq> NUL \<Longrightarrow> inside sc"
  using peekStream_in [of sc] by (simp add: inside_def in_buffer_def)

lemma inside_read:
  assumes "inside sc" "readStream sc = (c, sc')"
  shows "in_buffer sc'" "c \<noteq> LF \<Longrightarrow> inside sc'" "c \<noteq> CHR 0x5C"
proof -
  have t: "sc_pos sc < length (sc_text sc)" "closed_text (sc_text sc)"
    using assms(1) by (auto simp: inside_def)
  have l: "sc_text sc ! (length (sc_text sc) - 1) = LF"
    using t by (auto simp: closed_text_def last_conv_nth)
  have sc': "sc_text sc' = sc_text sc" using readStream_pos [OF assms(2)] by simp
  have endp: "sc_text sc ! sc_pos sc \<noteq> LF \<Longrightarrow> sc_pos sc + 1 < length (sc_text sc)"
    using l t(1) by (metis Suc_eq_plus1 Suc_lessI diff_Suc_1)
  show "in_buffer sc'"
    using assms(2) t endp unfolding in_buffer_def sc'
    by (auto simp: readStream_def Let_def fetch_def split: if_splits)
  show "c \<noteq> LF \<Longrightarrow> inside sc'"
    using assms(2) t endp unfolding inside_def sc'
    by (auto simp: readStream_def Let_def fetch_def split: if_splits)
  have "sc_text sc ! sc_pos sc \<noteq> CHR 0x5C"
    using t nth_mem [OF t(1)] by (metis closed_text_def)
  then show "c \<noteq> CHR 0x5C"
    using assms(2) t by (auto simp: readStream_def Let_def fetch_def split: if_splits)
qed

lemma inside_ignore:
  "inside sc \<Longrightarrow> in_buffer (ignoreStream sc)"
  "inside sc \<Longrightarrow> peekStream sc \<noteq> LF \<Longrightarrow> inside (ignoreStream sc)"
proof -
  obtain c sc' where r: "readStream sc = (c, sc')" by (cases "readStream sc")
  have "c = peekStream sc"
    using r by (auto simp: readStream_def peekStream_def Let_def split: if_splits)
  then show "inside sc \<Longrightarrow> in_buffer (ignoreStream sc)"
    "inside sc \<Longrightarrow> peekStream sc \<noteq> LF \<Longrightarrow> inside (ignoreStream sc)"
    using inside_read [OF _ r] by (simp_all add: ignoreStream_def r)
qed

lemma inside_simps [simp]:
  "inside (lexReport l k xs sc) = inside sc" "in_buffer (lexReport l k xs sc) = in_buffer sc"
  "inside (lexReportHere k xs sc) = inside sc" "in_buffer (lexReportHere k xs sc) = in_buffer sc"
  "in_buffer (emitTokenRange code i j sc) = in_buffer sc" "in_buffer (emitToken code l sc) = in_buffer sc"
  "in_buffer (emitStringToken i j sc) = in_buffer sc" "in_buffer (emitIntegerToken i j sc) = in_buffer sc"
  "in_buffer (emitRealToken i j sc) = in_buffer sc" "in_buffer (emitCharacterToken i j sc) = in_buffer sc"
  "in_buffer (emitIdentifierToken l sc) = in_buffer sc" "in_buffer (emitAttributeToken l sc) = in_buffer sc"
  "in_buffer (emitNumeric r i j sc) = in_buffer sc" "in_buffer (abortScanning sc) = in_buffer sc"
  "in_buffer (sc\<lparr>sc_nameBuff := nb\<rparr>) = in_buffer sc" "inside (sc\<lparr>sc_nameBuff := nb\<rparr>) = inside sc"
  by (simp_all add: inside_def in_buffer_def emitTokenRange_def emitToken_def emitStringToken_def
      emitIntegerToken_def emitRealToken_def emitCharacterToken_def emitIdentifierToken_def
      emitAttributeToken_def emitNumeric_def abortScanning_def)

lemma in_buffer_unget: "in_buffer sc \<Longrightarrow> in_buffer (ungetStream sc)"
  by (auto simp: in_buffer_def)

lemma in_buffer_skipWhile: "in_buffer sc \<Longrightarrow> in_buffer (skipWhile P sc)"
proof (induction P sc rule: skipWhile.induct)
  case (1 P sc)
  then show ?case
    using inside_ignore(1) [of sc]
    by (subst skipWhile.simps) (auto simp: inside_def in_buffer_def)
qed

lemma inside_skipWhile: "\<not> P LF \<Longrightarrow> inside sc \<Longrightarrow> inside (skipWhile P sc)"
proof (induction P sc rule: skipWhile.induct)
  case (1 P sc)
  have "P (peekStream sc) \<Longrightarrow> inside (ignoreStream sc)"
    using 1(2,3) inside_ignore(2) [of sc] by metis
  then show ?case
    using 1 by (subst skipWhile.simps) auto
qed

lemma in_buffer_skipComment: "inside sc \<Longrightarrow> in_buffer (skipComment sc)"
proof (induction sc rule: skipComment.induct)
  case (1 sc)
  obtain c sc' where r: "readStream sc = (c, sc')" by (cases "readStream sc")
  show ?case
    using 1(1) [OF r [symmetric]] inside_read [OF 1(2) r] by (subst skipComment.simps) (auto simp: r)
qed

lemma in_buffer_eatComment: "in_buffer sc \<Longrightarrow> in_buffer (snd (eatComment sc))"
  using in_buffer_peek [of sc] inside_ignore [of sc] in_buffer_skipComment [of "ignoreStream sc"]
  by (auto simp: eatComment_def Let_def intro: in_buffer_unget)

lemma in_buffer_eatComments: "in_buffer sc \<Longrightarrow> in_buffer (eatComments sc)"
proof (induction sc rule: eatComments.induct)
  case (1 sc)
  obtain b sc' where e: "eatComment sc = (b, sc')" by (cases "eatComment sc")
  have "in_buffer sc'" using in_buffer_eatComment [OF 1(2)] e by simp
  then show ?case
    using 1(1) [OF e [symmetric]] in_buffer_skipWhile [of sc' isWhitespace]
    by (subst eatComments.simps) (auto simp: e eatWhitespace_def)
qed

lemma in_buffer_skipBlanks: "in_buffer sc \<Longrightarrow> in_buffer (skipBlanks sc)"
  by (simp add: skipBlanks_def eatWhitespace_def in_buffer_eatComments in_buffer_skipWhile)

lemma isInner_LF [simp]: "\<not> isInnerIdentifierChar LF" "\<not> isDecimalDigit LF" "\<not> isDigitOrUnderscore LF"
  by (simp_all add: isInnerIdentifierChar_def isInitialIdentifierChar_def isDecimalDigit_def
      isDigitOrUnderscore_def)

lemma in_buffer_nameRound:
  assumes "inside sc" "nameRound c1 sc = (c2, sc')"
  shows "in_buffer sc'" "isInnerIdentifierChar c2 \<Longrightarrow> inside sc'"
proof -
  let ?sc1 = "ignoreStream (sc\<lparr>sc_nameBuff := sc_nameBuff sc @ [tolower c1]\<rparr>)"
  have i: "in_buffer ?sc1" using assms(1) by (simp add: inside_ignore)
  have sc': "sc' = diagnoseConsecutiveUnderscores c1 (peekStream ?sc1) ?sc1" "c2 = peekStream ?sc1"
    using assms(2) by (auto simp: nameRound_def Let_def)
  have p: "peekStream ?sc1 = CHR ''_'' \<Longrightarrow> inside (ignoreStream (lexReportHere CONSECUTIVE_UNDERSCORE [] ?sc1))"
    using in_buffer_peek [OF i] no_blank_cong(2) [of "lexReportHere CONSECUTIVE_UNDERSCORE [] ?sc1" ?sc1]
    by (intro inside_ignore(2)) auto
  then show "in_buffer sc'"
    using i by (auto simp: sc' diagnoseConsecutiveUnderscores_def
        intro!: inside_in_buffer inside_skipWhile)
  assume "isInnerIdentifierChar c2"
  then have "inside ?sc1"
    using in_buffer_peek [OF i] by (cases "peekStream ?sc1 = NUL") (auto simp: sc')
  moreover have "inside (skipWhile (\<lambda>c. c = CHR ''_'') s)" if "inside s" for s
    by (rule inside_skipWhile) (simp_all add: that)
  ultimately show "inside sc'"
    unfolding sc' diagnoseConsecutiveUnderscores_def by (split if_split) (use p in blast)
qed

lemma in_buffer_nameLoop: "inside sc \<Longrightarrow> in_buffer (nameLoop c1 sc)"
proof (induction c1 sc rule: nameLoop.induct)
  case (1 c1 sc)
  then show ?case
    using in_buffer_nameRound [OF 1(2)] by (subst nameLoop.simps) (auto split: prod.split)
qed

lemma in_buffer_consumeName:
  assumes "in_buffer sc" "consumeName sc = (b, sc')"
  shows "in_buffer sc'"
proof (cases "isInitialIdentifierChar (peekStream sc)")
  case True
  then have "inside sc"
    using in_buffer_peek [OF assms(1)] by (cases "peekStream sc = NUL") auto
  then show ?thesis using assms(2) in_buffer_nameLoop [of sc] True
    by (auto simp: consumeName_def Let_def)
next
  case False
  then show ?thesis using assms by (simp add: consumeName_def Let_def)
qed

lemma in_buffer_scanName: "in_buffer sc \<Longrightarrow> scanName sc = (b, sc') \<Longrightarrow> in_buffer sc'"
  by (auto simp: scanName_def Let_def split: prod.splits bool.splits if_splits
      dest: in_buffer_consumeName)

lemma in_buffer_scanAttribute: "in_buffer sc \<Longrightarrow> in_buffer (scanAttribute loc sc)"
  by (auto simp: scanAttribute_def Let_def split: prod.splits dest: in_buffer_consumeName)

lemma in_buffer_scanGlyph:
  assumes "inside sc" "scanGlyph sc = (b, sc')"
  shows "in_buffer sc'"
proof -
  obtain c sc1 where r: "readStream sc = (c, sc1)" by (cases "readStream sc")
  have i: "in_buffer sc1" using inside_read(1) [OF assms(1) r] .
  have two: "snd (glyphCode c (peekStream sc1)) \<Longrightarrow> peekStream sc1 \<noteq> NUL"
    by (auto simp: glyphCode_def split: if_splits)
  show ?thesis
    using assms(2) i two in_buffer_peek [OF i] inside_ignore(1) [of sc1]
    by (auto simp: scanGlyph_def Let_def r in_buffer_unget split: prod.splits if_splits)
qed

lemma inside_scanGlyph_False:
  assumes "inside sc" "\<not> isWhitespace (peekStream sc)" "scanGlyph sc = (False, sc')"
  shows "inside sc'"
proof -
  obtain c sc1 where r: "readStream sc = (c, sc1)" by (cases "readStream sc")
  have "c = peekStream sc"
    using r by (auto simp: readStream_def peekStream_def Let_def split: if_splits)
  then have "inside sc1" using inside_read(2) [OF assms(1) r] assms(2) by (auto simp: isWhitespace_def)
  then show ?thesis using assms(3)
    by (auto simp: scanGlyph_def Let_def r inside_def split: prod.splits if_splits)
qed

lemma in_buffer_stringLoop: "inside sc \<Longrightarrow> in_buffer (stringLoop start loc sc)"
proof (induction start loc sc rule: stringLoop.induct)
  case (1 start loc sc)
  obtain c sc1 where r: "readStream sc = (c, sc1)" by (cases "readStream sc")
  show ?case
    using inside_read [OF 1(3) r] 1(2) [OF r [symmetric]]
    by (subst stringLoop.simps) (auto simp: r Let_def)
qed

lemma in_buffer_scanString: "in_buffer sc \<Longrightarrow> scanString sc = (b, sc') \<Longrightarrow> in_buffer sc'"
  using in_buffer_peek [of sc] inside_ignore(2) [of sc] in_buffer_stringLoop [of "ignoreStream sc"]
  by (auto simp: scanString_def split: if_splits)

lemma in_buffer_numericRound:
  assumes "inside sc"
  shows "case_sum (\<lambda>(r, sc'). inside sc') in_buffer (numericRound start loc isReal sc)"
proof -
  obtain c sc1 where r: "readStream sc = (c, sc1)" by (cases "readStream sc")
  note i = inside_read [OF assms r]
  have digit: "inside s" if "in_buffer s" "isDecimalDigit (peekStream s)" for s
    using in_buffer_peek [OF that(1)] that(2) by (cases "peekStream s = NUL") auto
  have sign: "in_buffer (ignoreStream s)" if "in_buffer s" "peekStream s \<noteq> NUL" for s
    using in_buffer_peek [OF that] by (rule inside_ignore(1))
  have neg: "peekStream sc1 = CHR ''-'' \<Longrightarrow>
      in_buffer (skipWhile P (ignoreStream (lexReport l k xs sc1)))" for P l k xs
    using i(1) sign [of "lexReport l k xs sc1"] no_blank_cong(2) [of "lexReport l k xs sc1" sc1]
    by (intro in_buffer_skipWhile) simp
  have "case_sum (\<lambda>(r, sc'). inside sc') in_buffer (scanPoint start loc isReal sc1)"
    using i(1) digit [of sc1] by (simp add: scanPoint_def Let_def in_buffer_unget)
  moreover have "case_sum (\<lambda>(r, sc'). inside sc') in_buffer (scanExponent start loc isReal sc1)"
    using i(1) digit sign neg by (simp add: scanExponent_def Let_def)
  moreover have "isDigitOrUnderscore c \<Longrightarrow> inside sc1"
    using i(2) isInner_LF(3) by metis
  ultimately show ?thesis
    using i by (simp add: numericRound_def r Let_def in_buffer_unget)
qed

lemma in_buffer_numericLoop: "inside sc \<Longrightarrow> in_buffer (numericLoop start loc isReal sc)"
proof (induction start loc isReal sc rule: numericLoop.induct)
  case (1 start loc isReal sc)
  then show ?case
    using in_buffer_numericRound [OF 1(2), of start loc isReal]
    by (subst numericLoop.simps) (auto split: sum.splits)
qed

lemma in_buffer_scanNumeric:
  assumes "in_buffer sc" "scanNumeric sc = (b, sc')"
  shows "in_buffer sc'"
proof (cases "isDecimalDigit (peekStream sc)")
  case True
  then have i: "inside (ignoreStream sc)"
    using in_buffer_peek [OF assms(1)] inside_ignore(2) [of sc] isInner_NUL(3) isInner_LF(2) by metis
  let ?z = "skipWhile (\<lambda>c. c = CHR ''0'') (lexReport (currentLocation sc) LEADING_ZERO_IN_INTEGER_LIT [] (ignoreStream sc))"
  have z: "inside ?z" using i by (intro inside_skipWhile) simp_all
  have z': "isDecimalDigit (peekStream ?z) \<Longrightarrow> inside (ignoreStream ?z)"
    using z by (metis inside_ignore(2) isInner_LF(2))
  show ?thesis
    using assms(2) True i inside_in_buffer [OF z] in_buffer_numericLoop [OF z'] in_buffer_numericLoop [OF i]
    by (auto simp: scanNumeric_def Let_def split: if_splits)
next
  case False
  then show ?thesis using assms by (simp add: scanNumeric_def Let_def)
qed

lemma in_buffer_scanCharacter:
  assumes "in_buffer sc" "scanCharacter sc = (b, sc')"
  shows "in_buffer sc'"
proof (cases "peekStream sc = CHR 0x27")
  case True
  then have i: "inside (ignoreStream sc)"
    using in_buffer_peek [OF assms(1)] inside_ignore(2) [of sc] by simp
  obtain c sc2 where r: "readStream (ignoreStream sc) = (c, sc2)" by (cases "readStream (ignoreStream sc)")
  have i2: "in_buffer sc2" using inside_read(1) [OF i r] .
  have "peekStream sc2 = CHR 0x27 \<Longrightarrow> in_buffer (ignoreStream sc2)"
    using in_buffer_peek [OF i2] inside_ignore(1) by simp
  then show ?thesis
    using assms(2) True i2 in_buffer_unget [OF i2] in_buffer_scanAttribute [OF in_buffer_unget [OF i2]]
    by (auto simp: scanCharacter_def Let_def r split: if_splits)
next
  case False
  then show ?thesis using assms by (simp add: scanCharacter_def Let_def)
qed



text \<open>
  Both halves of the condition are needed: a comment or a string literal that runs
  to the end of the text, and a name that ends the text with two underscores, take the
  terminator and leave the iterator one past it, from where the next scan reads; a backslash
  before the final newline does the same.
\<close>

theorem scan_overruns_buffer:
  "list_all (\<lambda>text. sc_pos (scanToken (mkScanner (mkTextProvider 1 text))) = length text + 1)
     [''--'', ''-- x'', [CHR 0x22, CHR ''x''], ''a__'', [CHR 0x22, CHR 0x5C, LF]]"
  by code_simp

end
