(* ===== verification/TokenBuffer.thy ===== *)
theory TokenBuffer
  imports ScanSafety
begin

text \<open>
  The token buffer of the lexer, from \<^verbatim>\<open>lib/parser/Lexer.cpp\<close>: \<^verbatim>\<open>scan\<close>, \<^verbatim>\<open>peek\<close>
  and the excursions, by which the parser looks ahead and comes back.

  The state is the scanner with the vector of tokens read ahead, the index of the next
  token in it, and the stack of saved indices.  The interface the parser relies on is the
  locale \<open>token_source\<close>: what is left to scan is one list of tokens, and the saved positions
  are earlier values of that list.  The lexer is shown to be such a source.
\<close>

section \<open>State and operations\<close>

record lexer =
  lx_scanner :: scanner
  lx_tokens :: "token list"
  lx_positionStack :: "nat list"
  lx_index :: nat

definition mkLexer :: "text_provider \<Rightarrow> lexer" where
  "mkLexer tp = \<lparr>lx_scanner = mkScanner tp, lx_tokens = [], lx_positionStack = [], lx_index = 0\<rparr>"

definition eotToken :: token where
  "eotToken = \<lparr>tk_code = TKN_EOT, tk_loc = Location0, tk_rep = []\<rparr>"

text \<open>The head of the list is the top of the stack.\<close>

definition lexer_beginExcursion :: "lexer \<Rightarrow> lexer" where
  "lexer_beginExcursion lx = lx\<lparr>lx_positionStack := lx_index lx # lx_positionStack lx\<rparr>"

text \<open>\<open>None\<close> stands for taking the last element of an empty vector.\<close>

definition lexer_endExcursion :: "lexer \<Rightarrow> lexer option" where
  "lexer_endExcursion lx =
     (case lx_positionStack lx of
        [] \<Rightarrow> None
      | p # ps \<Rightarrow> Some (lx\<lparr>lx_index := p, lx_positionStack := ps\<rparr>))"

text \<open>Here \<open>None\<close> is also the failure of the assertion \<open>index/position mismatch\<close>.\<close>

definition lexer_forgetExcursion :: "lexer \<Rightarrow> lexer option" where
  "lexer_forgetExcursion lx =
     (case lx_positionStack lx of
        [] \<Rightarrow> None
      | p # ps \<Rightarrow>
          if ps = [] then (if p = 0 then Some (lx\<lparr>lx_positionStack := [], lx_tokens := []\<rparr>) else None)
          else Some (lx\<lparr>lx_positionStack := ps\<rparr>))"

text \<open>The loop of \<^verbatim>\<open>peek\<close>: scan so many tokens, and keep those that are not the end.\<close>

primrec fillTokens :: "nat \<Rightarrow> lexer \<Rightarrow> lexer" where
  "fillTokens 0 lx = lx"
| "fillTokens (Suc n) lx =
     (let sc = scanToken (lx_scanner lx); tkn = sc_target sc in
      fillTokens n
        (if tk_code tkn \<noteq> TKN_EOT then lx\<lparr>lx_scanner := sc, lx_tokens := lx_tokens lx @ [tkn]\<rparr>
         else lx\<lparr>lx_scanner := sc\<rparr>))"

definition lexer_peek :: "nat \<Rightarrow> lexer \<Rightarrow> token \<times> lexer" where
  "lexer_peek n lx =
     (let numTokens = length (lx_tokens lx) in
      if lx_index lx + n < numTokens then (lx_tokens lx ! (lx_index lx + n), lx)
      else let lx' = fillTokens (lx_index lx + n - numTokens + 1) lx
           in (sc_target (lx_scanner lx'), lx'))"

definition lexer_scan :: "lexer \<Rightarrow> token \<times> lexer" where
  "lexer_scan lx =
     (if lx_index lx < length (lx_tokens lx) then
        (lx_tokens lx ! lx_index lx, lx\<lparr>lx_index := lx_index lx + 1\<rparr>)
      else
        let lx1 = (if lx_tokens lx \<noteq> [] \<and> lx_positionStack lx = [] then lx\<lparr>lx_tokens := [], lx_index := 0\<rparr>
                   else lx);
            sc = scanToken (lx_scanner lx1);
            tkn = sc_target sc;
            lx2 = lx1\<lparr>lx_scanner := sc\<rparr>
        in (tkn,
            if lx_positionStack lx2 \<noteq> [] \<and> tk_code tkn \<noteq> TKN_EOT
            then lx2\<lparr>lx_index := lx_index lx2 + 1, lx_tokens := lx_tokens lx2 @ [tkn]\<rparr>
            else lx2))"

section \<open>The interface\<close>

text \<open>The first token of a list of tokens, which ends with end tokens for ever.\<close>

fun nextToken :: "token list \<Rightarrow> token" where
  "nextToken [] = eotToken"
| "nextToken (t # ts) = t"

lemma nextToken_drop: "nextToken (drop n ts) = (if n < length ts then ts ! n else eotToken)"
proof (cases "drop n ts")
  case (Cons t us)
  then have "n < length ts \<and> ts ! n = t" by (simp add: drop_eq_Cons_iff)
  then show ?thesis by (simp add: Cons)
qed simp

text \<open>So many scans in a row, for any scan function.\<close>

primrec scanMany :: "('l \<Rightarrow> token \<times> 'l) \<Rightarrow> nat \<Rightarrow> 'l \<Rightarrow> 'l" where
  "scanMany sf 0 l = l"
| "scanMany sf (Suc n) l = scanMany sf n (snd (sf l))"

locale token_source =
  fixes scan :: "'l \<Rightarrow> token \<times> 'l"
    and peek :: "nat \<Rightarrow> 'l \<Rightarrow> token \<times> 'l"
    and begin_ex :: "'l \<Rightarrow> 'l"
    and end_ex :: "'l \<Rightarrow> 'l option"
    and stream :: "'l \<Rightarrow> token list"
    and marks :: "'l \<Rightarrow> token list list"
    and inv :: "'l \<Rightarrow> bool"
  assumes stream_no_EOT: "inv l \<Longrightarrow> tkn \<in> set (stream l) \<Longrightarrow> tk_code tkn \<noteq> TKN_EOT"
    and scan_inv: "inv l \<Longrightarrow> inv (snd (scan l))"
    and scan_token: "inv l \<Longrightarrow> fst (scan l) = nextToken (stream l)"
    and scan_stream: "inv l \<Longrightarrow> stream (snd (scan l)) = tl (stream l)"
    and scan_marks: "inv l \<Longrightarrow> marks (snd (scan l)) = marks l"
    and peek_inv: "inv l \<Longrightarrow> inv (snd (peek n l))"
    and peek_token: "inv l \<Longrightarrow> fst (peek n l) = nextToken (drop n (stream l))"
    and peek_stream: "inv l \<Longrightarrow> stream (snd (peek n l)) = stream l"
    and peek_marks: "inv l \<Longrightarrow> marks (snd (peek n l)) = marks l"
    and begin_inv: "inv l \<Longrightarrow> inv (begin_ex l)"
    and begin_stream: "inv l \<Longrightarrow> stream (begin_ex l) = stream l"
    and begin_marks: "inv l \<Longrightarrow> marks (begin_ex l) = stream l # marks l"
    and end_defined: "inv l \<Longrightarrow> end_ex l = None \<longleftrightarrow> marks l = []"
    and end_inv: "inv l \<Longrightarrow> end_ex l = Some l' \<Longrightarrow> inv l'"
    and end_stream: "inv l \<Longrightarrow> end_ex l = Some l' \<Longrightarrow> marks l = stream l' # marks l'"

context token_source
begin

lemma nextToken_EOT:
  assumes "inv l"
  shows "tk_code (nextToken (stream l)) = TKN_EOT \<longleftrightarrow> stream l = []"
  using stream_no_EOT [OF assms] by (cases "stream l") (auto simp: eotToken_def)

lemma scanMany_effect:
  "inv l \<Longrightarrow> inv (scanMany scan n l) \<and> stream (scanMany scan n l) = drop n (stream l) \<and>
     marks (scanMany scan n l) = marks l"
proof (induction n arbitrary: l)
  case 0
  then show ?case by simp
next
  case (Suc n)
  then show ?case
    using Suc.IH [OF scan_inv [OF Suc.prems]]
    by (simp add: scan_stream scan_marks drop_Suc)
qed

text \<open>An excursion of any number of scans ends where it began.\<close>

lemma excursion:
  assumes "inv l"
  obtains l' where "end_ex (scanMany scan n (begin_ex l)) = Some l'"
    "inv l'" "stream l' = stream l" "marks l' = marks l"
proof -
  let ?l = "scanMany scan n (begin_ex l)"
  have e: "inv ?l" "marks ?l = stream l # marks l"
    using scanMany_effect [OF begin_inv [OF assms], of n] begin_marks [OF assms] by simp_all
  then obtain l' where l': "end_ex ?l = Some l'" using end_defined [OF e(1)] by auto
  show thesis using that [OF l' end_inv [OF e(1) l']] end_stream [OF e(1) l'] e(2) by simp
qed

end

section \<open>The tokens of a text\<close>

text \<open>
  All the tokens from a state of the scanner, up to the end of the text.  The recursion
  ends because every token moves the scanner forward inside the text.
\<close>

function lexAll :: "scanner \<Rightarrow> token list" where
  "lexAll sc =
     (let sc' = scanToken sc in
      if tk_code (sc_target sc') = TKN_EOT then [] else sc_target sc' # lexAll sc')"
  by pat_completeness auto
termination
proof (relation "measure (\<lambda>sc. length (sc_text sc) - sc_pos sc)")
  fix sc sc'
  assume sc': "sc' = scanToken sc" and "tk_code (sc_target sc') \<noteq> TKN_EOT"
  then show "(sc', sc) \<in> measure (\<lambda>sc. length (sc_text sc) - sc_pos sc)"
    using scanToken_moves [of sc] by (auto intro: diff_less_mono2)
qed simp

declare lexAll.simps [simp del]

lemma lexAll_scanToken:
  "tk_code (sc_target (scanToken sc)) \<noteq> TKN_EOT \<Longrightarrow>
     lexAll sc = sc_target (scanToken sc) # lexAll (scanToken sc)"
  "tk_code (sc_target (scanToken sc)) = TKN_EOT \<Longrightarrow> lexAll sc = []"
  "tk_code (sc_target (scanToken sc)) = TKN_EOT \<Longrightarrow> lexAll (scanToken sc) = []"
  using scanToken_again [of sc] by (simp_all add: lexAll.simps [of sc] lexAll.simps [of "scanToken sc"] Let_def)

lemma scanToken_eotToken:
  "tk_code (sc_target (scanToken sc)) = TKN_EOT \<Longrightarrow> sc_target (scanToken sc) = eotToken"
  using scanToken_EOT_target [of sc] by (simp add: eotToken_def)

lemma lexAll_no_EOT: "tkn \<in> set (lexAll sc) \<Longrightarrow> tk_code tkn \<noteq> TKN_EOT"
proof (induction sc rule: lexAll.induct)
  case (1 sc)
  then show ?case
    by (cases "tk_code (sc_target (scanToken sc)) = TKN_EOT") (auto simp: lexAll_scanToken)
qed

lemma nextToken_lexAll: "nextToken (lexAll sc) = sc_target (scanToken sc)"
  by (cases "tk_code (sc_target (scanToken sc)) = TKN_EOT")
     (simp_all add: lexAll_scanToken scanToken_eotToken)

lemma tl_lexAll: "tl (lexAll sc) = lexAll (scanToken sc)"
  by (cases "tk_code (sc_target (scanToken sc)) = TKN_EOT") (simp_all add: lexAll_scanToken)

section \<open>The lexer as a token source\<close>

definition lexer_stream :: "lexer \<Rightarrow> token list" where
  "lexer_stream lx = drop (lx_index lx) (lx_tokens lx) @ lexAll (lx_scanner lx)"

definition lexer_marks :: "lexer \<Rightarrow> token list list" where
  "lexer_marks lx = map (\<lambda>p. drop p (lx_tokens lx) @ lexAll (lx_scanner lx)) (lx_positionStack lx)"

text \<open>The saved indices are in the vector, none beyond the current one, and no token in it is the end.\<close>

definition lexer_ok :: "lexer \<Rightarrow> bool" where
  "lexer_ok lx \<longleftrightarrow> lx_index lx \<le> length (lx_tokens lx) \<and>
     sorted_wrt (\<ge>) (lx_index lx # lx_positionStack lx) \<and>
     (\<forall>tkn \<in> set (lx_tokens lx). tk_code tkn \<noteq> TKN_EOT)"

lemma lexer_ok_mkLexer: "lexer_ok (mkLexer tp)"
  by (simp add: lexer_ok_def mkLexer_def)

lemma lexer_stream_mkLexer: "lexer_stream (mkLexer tp) = lexAll (mkScanner tp)"
  by (simp add: lexer_stream_def mkLexer_def)

lemma fillTokens_effect:
  "lexer_ok lx \<Longrightarrow> lexer_ok (fillTokens n lx) \<and>
     lx_index (fillTokens n lx) = lx_index lx \<and>
     lx_positionStack (fillTokens n lx) = lx_positionStack lx \<and>
     lexer_stream (fillTokens n lx) = lexer_stream lx \<and>
     lexer_marks (fillTokens n lx) = lexer_marks lx \<and>
     (n \<noteq> 0 \<longrightarrow> sc_target (lx_scanner (fillTokens n lx)) = nextToken (drop (n - 1) (lexAll (lx_scanner lx))))"
proof (induction n arbitrary: lx)
  case 0
  then show ?case by simp
next
  case (Suc n)
  define sc where "sc = scanToken (lx_scanner lx)"
  define lx' where "lx' = (if tk_code (sc_target sc) \<noteq> TKN_EOT
      then lx\<lparr>lx_scanner := sc, lx_tokens := lx_tokens lx @ [sc_target sc]\<rparr> else lx\<lparr>lx_scanner := sc\<rparr>)"
  have f: "fillTokens (Suc n) lx = fillTokens n lx'" by (simp add: lx'_def sc_def Let_def)
  have ok: "lexer_ok lx'" using Suc.prems by (auto simp: lexer_ok_def lx'_def)
  have same: "lx_index lx' = lx_index lx" "lx_positionStack lx' = lx_positionStack lx"
    by (simp_all add: lx'_def)
  have app: "drop p (lx_tokens lx') @ lexAll (lx_scanner lx') = drop p (lx_tokens lx) @ lexAll (lx_scanner lx)"
    if "p \<le> length (lx_tokens lx)" for p
    using that by (simp add: lx'_def sc_def lexAll_scanToken)
  have str: "lexer_stream lx' = lexer_stream lx" "lexer_marks lx' = lexer_marks lx"
    using Suc.prems app by (auto simp: lexer_stream_def lexer_marks_def same lexer_ok_def)
  have rest: "lexAll (lx_scanner lx') = tl (lexAll (lx_scanner lx))"
    by (simp add: lx'_def sc_def tl_lexAll)
  have "n = 0 \<Longrightarrow> sc_target (lx_scanner lx') = nextToken (lexAll (lx_scanner lx))"
    by (simp add: lx'_def sc_def nextToken_lexAll)
  then have "sc_target (lx_scanner (fillTokens n lx')) = nextToken (drop n (lexAll (lx_scanner lx)))"
    using Suc.IH [OF ok] by (cases n) (simp_all add: rest drop_Suc)
  then show ?case using Suc.IH [OF ok] unfolding f same str by simp
qed

lemma lexer_peek_effect:
  assumes "lexer_ok lx"
  shows "lexer_ok (snd (lexer_peek n lx))" "fst (lexer_peek n lx) = nextToken (drop n (lexer_stream lx))"
    "lexer_stream (snd (lexer_peek n lx)) = lexer_stream lx"
    "lexer_marks (snd (lexer_peek n lx)) = lexer_marks lx"
proof -
  let ?k = "lx_index lx + n - length (lx_tokens lx) + 1"
  note f = fillTokens_effect [OF assms, of ?k]
  have "\<not> lx_index lx + n < length (lx_tokens lx) \<Longrightarrow>
      drop n (lexer_stream lx) = drop (?k - 1) (lexAll (lx_scanner lx))"
    using assms by (simp add: lexer_stream_def lexer_ok_def add.commute)
  moreover have "lx_index lx + n < length (lx_tokens lx) \<Longrightarrow>
      nextToken (drop n (lexer_stream lx)) = lx_tokens lx ! (lx_index lx + n)"
    by (simp add: nextToken_drop lexer_stream_def nth_append add.commute del: drop_append drop_drop)
  ultimately show "fst (lexer_peek n lx) = nextToken (drop n (lexer_stream lx))"
    using f by (simp add: lexer_peek_def Let_def)
  show "lexer_ok (snd (lexer_peek n lx))" "lexer_stream (snd (lexer_peek n lx)) = lexer_stream lx"
    "lexer_marks (snd (lexer_peek n lx)) = lexer_marks lx"
    using f assms by (simp_all add: lexer_peek_def Let_def)
qed

lemma lexer_scan_effect:
  assumes ok: "lexer_ok lx"
  shows "lexer_ok (snd (lexer_scan lx)) \<and> fst (lexer_scan lx) = nextToken (lexer_stream lx) \<and>
    lexer_stream (snd (lexer_scan lx)) = tl (lexer_stream lx) \<and>
    lexer_marks (snd (lexer_scan lx)) = lexer_marks lx"
proof (cases "lx_index lx < length (lx_tokens lx)")
  case True
  then obtain t ts where "drop (lx_index lx) (lx_tokens lx) = t # ts" "t = lx_tokens lx ! lx_index lx"
      "ts = drop (Suc (lx_index lx)) (lx_tokens lx)"
    by (metis Cons_nth_drop_Suc)
  then show ?thesis using ok True
    by (auto simp: lexer_scan_def lexer_ok_def lexer_stream_def lexer_marks_def)
next
  case False
  then have i: "lx_index lx = length (lx_tokens lx)" using ok by (simp add: lexer_ok_def)
  then have s: "lexer_stream lx = lexAll (lx_scanner lx)" by (simp add: lexer_stream_def)
  have m: "p \<in> set (lx_positionStack lx) \<Longrightarrow> p \<le> length (lx_tokens lx)" for p
    using ok i by (simp add: lexer_ok_def)
  define lx1 where "lx1 = (if lx_tokens lx \<noteq> [] \<and> lx_positionStack lx = []
      then lx\<lparr>lx_tokens := [], lx_index := 0\<rparr> else lx)"
  define sc where "sc = scanToken (lx_scanner lx)"
  define lx2 where "lx2 = lx1\<lparr>lx_scanner := sc\<rparr>"
  define lx3 where "lx3 = (if lx_positionStack lx2 \<noteq> [] \<and> tk_code (sc_target sc) \<noteq> TKN_EOT
      then lx2\<lparr>lx_index := lx_index lx2 + 1, lx_tokens := lx_tokens lx2 @ [sc_target sc]\<rparr> else lx2)"
  have scan: "lexer_scan lx = (sc_target sc, lx3)"
    using False by (auto simp: lexer_scan_def Let_def lx1_def sc_def lx2_def lx3_def)
  have "lexer_ok lx3"
    using ok i by (auto simp: lx3_def lx2_def lx1_def lexer_ok_def)
  moreover have "lexer_stream lx3 = lexAll sc"
    using i by (auto simp: lx3_def lx2_def lx1_def lexer_stream_def)
  moreover have "lexer_marks lx3 = lexer_marks lx"
  proof (cases "lx_positionStack lx = []")
    case True
    then show ?thesis by (simp add: lexer_marks_def lx3_def lx2_def lx1_def)
  next
    case False
    then show ?thesis using m
      by (auto simp: lexer_marks_def lx3_def lx2_def lx1_def sc_def lexAll_scanToken)
  qed
  ultimately show ?thesis
    by (simp add: scan s sc_def nextToken_lexAll tl_lexAll)
qed

interpretation lx: token_source lexer_scan lexer_peek lexer_beginExcursion lexer_endExcursion
  lexer_stream lexer_marks lexer_ok
proof
  fix l :: lexer and n l' tkn
  assume ok: "lexer_ok l"
  show "tkn \<in> set (lexer_stream l) \<Longrightarrow> tk_code tkn \<noteq> TKN_EOT"
    using ok lexAll_no_EOT by (auto simp: lexer_stream_def lexer_ok_def dest: in_set_dropD)
  show "lexer_ok (snd (lexer_scan l))" "fst (lexer_scan l) = nextToken (lexer_stream l)"
    "lexer_stream (snd (lexer_scan l)) = tl (lexer_stream l)"
    "lexer_marks (snd (lexer_scan l)) = lexer_marks l"
    using lexer_scan_effect [OF ok] by simp_all
  show "lexer_ok (snd (lexer_peek n l))" "fst (lexer_peek n l) = nextToken (drop n (lexer_stream l))"
    "lexer_stream (snd (lexer_peek n l)) = lexer_stream l"
    "lexer_marks (snd (lexer_peek n l)) = lexer_marks l"
    using lexer_peek_effect [OF ok] by simp_all
  show "lexer_ok (lexer_beginExcursion l)" "lexer_stream (lexer_beginExcursion l) = lexer_stream l"
    "lexer_marks (lexer_beginExcursion l) = lexer_stream l # lexer_marks l"
    using ok by (auto simp: lexer_beginExcursion_def lexer_ok_def lexer_stream_def lexer_marks_def)
  show "(lexer_endExcursion l = None) = (lexer_marks l = [])"
    by (simp add: lexer_endExcursion_def lexer_marks_def split: list.split)
  show "lexer_endExcursion l = Some l' \<Longrightarrow> lexer_ok l'"
    using ok by (auto simp: lexer_endExcursion_def lexer_ok_def split: list.splits)
  show "lexer_endExcursion l = Some l' \<Longrightarrow> lexer_marks l = lexer_stream l' # lexer_marks l'"
    by (auto simp: lexer_endExcursion_def lexer_marks_def lexer_stream_def split: list.splits)
qed

section \<open>Properties\<close>

text \<open>
  C37. Looking ahead is invisible: whatever was read before, an excursion of any number
  of scans ends, and afterwards the lexer delivers exactly the tokens it would have
  delivered, with the same excursions still open.
\<close>

theorem excursion_restores:
  assumes "lexer_ok lx"
  shows "\<exists>lx'. lexer_endExcursion (scanMany lexer_scan n (lexer_beginExcursion lx)) = Some lx' \<and>
    lexer_ok lx' \<and> lexer_stream lx' = lexer_stream lx \<and> lexer_marks lx' = lexer_marks lx"
  using lx.excursion [OF assms] by blast

text \<open>
  C38. Peeking \<open>n\<close> tokens ahead shows the token that the \<open>n+1\<close>st scan returns, and
  changes nothing of what is scanned later.
\<close>

theorem peek_is_later_scan:
  assumes "lexer_ok lx"
  shows "fst (lexer_peek n lx) = fst (lexer_scan (scanMany lexer_scan n lx)) \<and>
    lexer_stream (snd (lexer_peek n lx)) = lexer_stream lx"
  using lx.scanMany_effect [OF assms, of n] lx.scan_token lx.peek_token [OF assms]
    lx.peek_stream [OF assms] by simp

text \<open>
  Forgetting an excursion drops the buffer but not the index into it: after one
  token was scanned in a forgotten excursion, the first token of the next excursion is
  returned by no scan after that excursion has ended.
\<close>

theorem forgetExcursion_stale_index:
  "(let lx0 = lexer_beginExcursion (mkLexer (mkTextProvider 1 (''a b c'' @ [LF])));
        lx1 = the (lexer_forgetExcursion (snd (lexer_scan lx0)));
        (t, lx2) = lexer_scan (lexer_beginExcursion lx1);
        lx3 = the (lexer_endExcursion lx2)
    in tk_rep t = ''b'' \<and> tk_rep (fst (lexer_scan lx3)) = ''c'')"
  by code_simp

theorem excursion_restores_witness:
  "\<exists>lx'. lexer_endExcursion (scanMany lexer_scan 2 (lexer_beginExcursion
      (mkLexer (mkTextProvider 1 ''a b c'')))) = Some lx' \<and>
    lexer_ok lx' \<and> lexer_stream lx' = lexer_stream (mkLexer (mkTextProvider 1 ''a b c'')) \<and>
    lexer_marks lx' = lexer_marks (mkLexer (mkTextProvider 1 ''a b c''))"
  by (rule excursion_restores [OF lexer_ok_mkLexer])

theorem peek_is_later_scan_witness:
  "fst (lexer_peek 1 (mkLexer (mkTextProvider 1 ''a b c''))) =
     fst (lexer_scan (scanMany lexer_scan 1 (mkLexer (mkTextProvider 1 ''a b c'')))) \<and>
   lexer_stream (snd (lexer_peek 1 (mkLexer (mkTextProvider 1 ''a b c'')))) =
     lexer_stream (mkLexer (mkTextProvider 1 ''a b c''))"
  by (rule peek_is_later_scan [OF lexer_ok_mkLexer])

end
