(* ===== verification/Client.thy ===== *)
theory Client
  imports TokenBuffer
begin

text \<open>
  The interface between the parser and its client, from
  \<^verbatim>\<open>include/comma/parser/ParseClient.h\<close>, the state of the parser, and the monad its code
  is written in.

  The client is an abstract class; the parser knows its results only.  A callback is a
  value of the type \<open>call\<close>, the parser's history is the list of the calls made (the newest
  first), and the client answers a call as a function of the history that ends with it: any
  deterministic implementation of the class is such a function.  Payloads of nodes are of a
  type \<open>'p\<close> the parser never looks into.  The reference counts of nodes and the calls
  of \<^verbatim>\<open>deleteNode\<close> they give rise to are not modelled; a node is its validity and its payload.

  Integer literals are handed over as \<^verbatim>\<open>llvm::APInt\<close>, a class of LLVM, here a type \<open>'v\<close>
  with its operations as a parameter.
\<close>

section \<open>Nodes and callbacks\<close>

record 'p node =
  nd_invalid :: bool
  nd_payload :: "'p option"

definition getInvalidNode :: "'p node" where
  "getInvalidNode = \<lparr>nd_invalid = True, nd_payload = None\<rparr>"

definition getNullNode :: "'p node" where
  "getNullNode = \<lparr>nd_invalid = False, nd_payload = None\<rparr>"

definition isInvalid :: "'p node \<Rightarrow> bool" where
  "isInvalid n \<longleftrightarrow> nd_invalid n"

definition isValid :: "'p node \<Rightarrow> bool" where
  "isValid n \<longleftrightarrow> \<not> isInvalid n"

definition isNull :: "'p node \<Rightarrow> bool" where
  "isNull n \<longleftrightarrow> nd_payload n = None"

lemma node_simps [simp]:
  "isInvalid getInvalidNode" "\<not> isValid getInvalidNode" "\<not> isInvalid getNullNode" "isValid getNullNode"
  by (simp_all add: isInvalid_def isValid_def getInvalidNode_def getNullNode_def)

lemma isInvalid_iff: "isInvalid n \<longleftrightarrow> \<not> isValid n"
  by (simp add: isValid_def)

text \<open>
  The callbacks by the part of the language they belong to.  Overloaded methods have one
  constructor each.
\<close>

datatype (plugins only: code) 'p name_call =
    AcceptDirectName string location bool
  | AcceptCharacterLiteral string location
  | AcceptSelectedComponent "'p node" string location bool
  | AcceptParameterAssociation "string option" location "'p node"
  | AcceptApplication "'p node" "'p node list"
  | AcceptAttribute "'p node" string location
  | FinishName "'p node"
  | AcceptDereference "'p node" location

datatype (plugins only: code) ('p, 'v) expr_call =
    AcceptIntegerLiteral 'v location
  | AcceptStringLiteral string location
  | AcceptNullExpr location
  | AcceptAllocatorExpr "'p node" location
  | AcceptQualifiedExpr "'p node" "'p node"
  | AcceptSubtypeIndication "'p node"
  | AcceptSubtypeIndicationRange "'p node" "'p node" "'p node"
  | AcceptSubtypeIndicationArgs "'p node" "'p node list"
  | AcceptDSTRange "'p node" "'p node"
  | AcceptDSTConstrained "'p node" "'p node" "'p node"
  | AcceptDSTName "'p node" bool

datatype (plugins only: code) 'p aggregate_call =
    BeginAggregate location
  | AcceptPositionalAggregateComponent "'p node"
  | AcceptAggregateKeyRange "'p node" "'p node"
  | AcceptAggregateKeyNode "'p node"
  | AcceptAggregateKeyName string location
  | AcceptKeyedAggregateComponent "'p node list" "'p node" location
  | AcceptAggregateOthers location "'p node"
  | EndAggregate

datatype (plugins only: code) 'p stmt_call =
    AcceptStmt "'p node" "'p node"
  | AcceptNullStmt location
  | AcceptProcedureCall "'p node"
  | AcceptEmptyReturnStmt location
  | AcceptReturnStmt location "'p node"
  | AcceptAssignmentStmt "'p node" "'p node"
  | AcceptIfStmt location "'p node" "'p node list"
  | AcceptElseStmt location "'p node" "'p node list"
  | AcceptElsifStmt location "'p node" "'p node" "'p node list"
  | AcceptExitStmt location "string option" location "'p node"
  | AcceptRaiseStmt location "'p node" "'p node"
  | AcceptPragmaStmt string location "'p node list"

datatype (plugins only: code) 'p block_call =
    BeginBlockStmt location "string option"
  | EndBlockStmt "'p node"
  | BeginWhileStmt location "'p node" "string option" location
  | EndWhileStmt "'p node"
  | BeginLoopStmt location "string option" location
  | EndLoopStmt "'p node"
  | BeginForStmt location string location "'p node" bool "string option" location
  | EndForStmt "'p node"
  | BeginHandlerStmt location "'p node list"
  | EndHandlerStmt "'p node" "'p node"

datatype (plugins only: code) 'p type_call =
    BeginEnumeration string location
  | AcceptEnumerationIdentifier string location
  | AcceptEnumerationCharacter "string option" location
  | EndEnumeration
  | BeginRecord string location
  | AcceptRecordComponent string location "'p node"
  | EndRecord
  | AcceptIntegerTypeDecl string location "'p node" "'p node"
  | AcceptModularTypeDecl string location "'p node"
  | AcceptRangedSubtypeDecl string location "'p node" "'p node" "'p node"
  | AcceptSubtypeDecl string location "'p node"
  | AcceptIncompleteTypeDecl string location
  | AcceptAccessTypeDecl string location "'p node"
  | AcceptArrayDecl string location "'p node list" "'p node"
  | AcceptPrivateTypeDecl string location nat

datatype (plugins only: code) 'p unit_call =
    AcceptWithClause location "string list"
  | BeginPackageSpec string location
  | BeginPackagePrivatePart location
  | EndPackageSpec
  | BeginPackageBody string location
  | EndPackageBody
  | BeginFunctionDeclaration string location
  | BeginProcedureDeclaration string location
  | AcceptFunctionReturnType "'p node"
  | AcceptSubroutineParameter string location "'p node" parameterMode
  | EndSubroutineDeclaration bool
  | BeginSubroutineDefinition "'p node"
  | EndSubroutineBody "'p node"
  | EndSubroutineDefinition
  | AcceptObjectDeclaration location string "'p node" "'p node"
  | AcceptRenamedObjectDeclaration location string "'p node" "'p node"
  | AcceptUseDeclaration "'p node"
  | AcceptPragmaImport location string location string location "'p node"

datatype (plugins only: code) ('p, 'v) call =
    NameCall "'p name_call"
  | ExprCall "('p, 'v) expr_call"
  | AggregateCall "'p aggregate_call"
  | StmtCall "'p stmt_call"
  | BlockCall "'p block_call"
  | TypeCall "'p type_call"
  | UnitCall "'p unit_call"

text \<open>The tags of \<^verbatim>\<open>acceptPrivateTypeDecl\<close>, a bit mask.\<close>

definition LimitedTypeTag :: nat where
  "LimitedTypeTag = 4"

section \<open>The state of the parser\<close>

record end_tag =
  et_location :: location
  et_tag :: string

text \<open>
  Reasons for which the code does not go on: the fuel of the model, an \<^verbatim>\<open>assert\<close> of the
  function of that name, a loop over a number that never ends, and the undefined behaviour
  of taking the top of an empty stack.  The first one is kept; what a run does after it has
  no counterpart in the program.
\<close>

datatype halt = OutOfFuel | AssertFailed string | Diverges | EmptyEndTagStack | EmptyExcursionStack

record ('p, 'v) pstate =
  ps_token :: token
  ps_lexer :: lexer
  ps_saved :: "token list"
  ps_pool :: pool
  ps_diags :: "(diag_kind \<times> location option \<times> string list) list"
  ps_calls :: "('p, 'v) call list"
  ps_endtags :: "end_tag list"
  ps_halt :: "halt option"

type_synonym ('p, 'v, 'a) pm = "(('p, 'v) pstate, 'a) state"

text \<open>
  The operations of \<^verbatim>\<open>llvm::APInt\<close> that the parser uses: the bits needed for a decimal
  string, a number from a decimal string at a width, a small constant at a width, the width,
  zero extension, multiplication, decrement, comparison with a constant, the number of active
  bits, and extension or truncation to a width.
\<close>

record 'v apint_ops =
  ap_getBitsNeeded :: "string \<Rightarrow> nat"
  ap_fromString :: "nat \<Rightarrow> string \<Rightarrow> 'v"
  ap_fromNat :: "nat \<Rightarrow> nat \<Rightarrow> 'v"
  ap_getBitWidth :: "'v \<Rightarrow> nat"
  ap_zext :: "nat \<Rightarrow> 'v \<Rightarrow> 'v"
  ap_mul :: "'v \<Rightarrow> 'v \<Rightarrow> 'v"
  ap_dec :: "'v \<Rightarrow> 'v"
  ap_eqNat :: "'v \<Rightarrow> nat \<Rightarrow> bool"
  ap_getActiveBits :: "'v \<Rightarrow> nat"
  ap_zextOrTrunc :: "nat \<Rightarrow> 'v \<Rightarrow> 'v"

text \<open>What the parser is run with: its client, the operations on integers, and the fuel of its loops.\<close>

record ('p, 'v) env =
  en_node :: "('p, 'v) call list \<Rightarrow> 'p node"
  en_bool :: "('p, 'v) call list \<Rightarrow> bool"
  en_apint :: "'v apint_ops"
  en_fuel :: nat

section \<open>The monad\<close>

abbreviation (input) ret :: "'a \<Rightarrow> ('p, 'v, 'a) pm" where
  "ret \<equiv> State_Monad.return"

definition halt :: "halt \<Rightarrow> ('p, 'v, unit) pm" where
  "halt h = State_Monad.update (\<lambda>s. if ps_halt s = None then s\<lparr>ps_halt := Some h\<rparr> else s)"

text \<open>An \<^verbatim>\<open>assert\<close> of the function of that name.\<close>

definition assertM :: "string \<Rightarrow> bool \<Rightarrow> ('p, 'v, unit) pm" where
  "assertM name b = (if b then ret () else halt (AssertFailed name))"

definition whenM :: "bool \<Rightarrow> ('p, 'v, unit) pm \<Rightarrow> ('p, 'v, unit) pm" where
  "whenM b m = (if b then m else ret ())"

text \<open>The operators \<^verbatim>\<open>&&\<close> and \<^verbatim>\<open>||\<close>, whose right operand is run only when needed.\<close>

definition andM :: "('p, 'v, bool) pm \<Rightarrow> ('p, 'v, bool) pm \<Rightarrow> ('p, 'v, bool) pm" where
  "andM a b = do { x \<leftarrow> a; if x then b else ret False }"

definition orM :: "('p, 'v, bool) pm \<Rightarrow> ('p, 'v, bool) pm \<Rightarrow> ('p, 'v, bool) pm" where
  "orM a b = do { x \<leftarrow> a; if x then ret True else b }"

definition notM :: "('p, 'v, bool) pm \<Rightarrow> ('p, 'v, bool) pm" where
  "notM a = do { x \<leftarrow> a; ret (\<not> x) }"

text \<open>A loop with the fuel of the environment; the value is the result when it runs out.\<close>

definition loopM ::
  "('p, 'v) env \<Rightarrow> 'b \<Rightarrow> ('a \<Rightarrow> ('p, 'v, 'a + 'b) pm) \<Rightarrow> 'a \<Rightarrow> ('p, 'v, 'b) pm" where
  "loopM E b body a = iterM (do { halt OutOfFuel; ret b }) (en_fuel E) body a"

text \<open>A callback: it is recorded, and the client answers.\<close>

definition record_call :: "('p, 'v) call \<Rightarrow> ('p, 'v, unit) pm" where
  "record_call c = State_Monad.update (\<lambda>s. s\<lparr>ps_calls := c # ps_calls s\<rparr>)"

definition client :: "('p, 'v) env \<Rightarrow> ('p, 'v) call \<Rightarrow> ('p, 'v, 'p node) pm" where
  "client E c = do { record_call c; gets (\<lambda>s. en_node E (ps_calls s)) }"

definition clientBool :: "('p, 'v) env \<Rightarrow> ('p, 'v) call \<Rightarrow> ('p, 'v, bool) pm" where
  "clientBool E c = do { record_call c; gets (\<lambda>s. en_bool E (ps_calls s)) }"

definition clientUnit :: "('p, 'v) call \<Rightarrow> ('p, 'v, unit) pm" where
  "clientUnit c = record_call c"

end
