(* ===== verification/ParserBase.thy ===== *)
theory ParserBase
  imports Client
begin

text \<open>
  The base of the parsers, from \<^verbatim>\<open>include/comma/parser/ParserBase.h\<close> and
  \<^verbatim>\<open>lib/parser/ParserBase.cpp\<close>: the current token, the tests on it, the seeking of
  tokens, the reports and the excursions.
\<close>

section \<open>Tokens\<close>

definition currentToken :: "('p, 'v, token) pm" where
  "currentToken = gets ps_token"

definition nextToken1 :: "('p, 'v, unit) pm" where
  "nextToken1 = State_Monad.update (\<lambda>s.
     case lexer_scan (ps_lexer s) of (tkn, lx) \<Rightarrow> s\<lparr>ps_token := tkn, ps_lexer := lx\<rparr>)"

definition peekToken :: "('p, 'v, token) pm" where
  "peekToken = do {
     tkn \<leftarrow> gets (\<lambda>s. fst (lexer_peek 0 (ps_lexer s)));
     State_Monad.update (\<lambda>s. s\<lparr>ps_lexer := snd (lexer_peek 0 (ps_lexer s))\<rparr>);
     ret tkn }"

definition setCurrentToken :: "token \<Rightarrow> ('p, 'v, unit) pm" where
  "setCurrentToken tkn = State_Monad.update (\<lambda>s. s\<lparr>ps_token := tkn\<rparr>)"

definition curLocation :: "('p, 'v, location) pm" where
  "curLocation = gets (\<lambda>s. tk_loc (ps_token s))"

definition ignoreToken :: "('p, 'v, location) pm" where
  "ignoreToken = do { loc \<leftarrow> curLocation; nextToken1; ret loc }"

definition currentTokenCode :: "('p, 'v, code) pm" where
  "currentTokenCode = gets (\<lambda>s. tk_code (ps_token s))"

definition peekTokenCode :: "('p, 'v, code) pm" where
  "peekTokenCode = do { tkn \<leftarrow> peekToken; ret (tk_code tkn) }"

definition currentTokenIs :: "code \<Rightarrow> ('p, 'v, bool) pm" where
  "currentTokenIs code = gets (\<lambda>s. tk_code (ps_token s) = code)"

definition nextTokenIs :: "code \<Rightarrow> ('p, 'v, bool) pm" where
  "nextTokenIs code = do { tkn \<leftarrow> peekToken; ret (tk_code tkn = code) }"

definition expectToken :: "code \<Rightarrow> ('p, 'v, bool) pm" where
  "expectToken code = do {
     b \<leftarrow> nextTokenIs code;
     if b then do { _ \<leftarrow> ignoreToken; ret True } else ret False }"

definition reduceToken :: "code \<Rightarrow> ('p, 'v, bool) pm" where
  "reduceToken code = do {
     b \<leftarrow> currentTokenIs code;
     if b then do { _ \<leftarrow> ignoreToken; ret True } else ret False }"

section \<open>Reports\<close>

text \<open>The text a string reference prints as; a null reference is empty.\<close>

definition tokenText :: "token \<Rightarrow> string" where
  "tokenText tkn = (case tokenString tkn of None \<Rightarrow> [] | Some s \<Rightarrow> s)"

definition codeText :: "code \<Rightarrow> string" where
  "codeText code = (case tokenStringOfCode code of None \<Rightarrow> [] | Some s \<Rightarrow> s)"

definition currentTokenString :: "('p, 'v, string) pm" where
  "currentTokenString = gets (\<lambda>s. tokenText (ps_token s))"

definition reportAt :: "location \<Rightarrow> diag_kind \<Rightarrow> string list \<Rightarrow> ('p, 'v, unit) pm" where
  "reportAt loc kind args = State_Monad.update (\<lambda>s. s\<lparr>ps_diags := ps_diags s @ [(kind, Some loc, args)]\<rparr>)"

definition report :: "diag_kind \<Rightarrow> string list \<Rightarrow> ('p, 'v, unit) pm" where
  "report kind args = do {
     loc \<leftarrow> curLocation;
     if loc_isValid loc then reportAt loc kind args
     else State_Monad.update (\<lambda>s. s\<lparr>ps_diags := ps_diags s @ [(kind, None, args)]\<rparr>) }"

definition requireToken :: "code \<Rightarrow> ('p, 'v, bool) pm" where
  "requireToken code = do {
     status \<leftarrow> reduceToken code;
     whenM (\<not> status) (do {
       str \<leftarrow> currentTokenString;
       report UNEXPECTED_TOKEN_WANTED [str, codeText code] });
     ret status }"

section \<open>Seeking\<close>

definition seekToken :: "('p, 'v) env \<Rightarrow> code \<Rightarrow> ('p, 'v, bool) pm" where
  "seekToken E code = loopM E False (\<lambda>_. do {
     eot \<leftarrow> currentTokenIs TKN_EOT;
     if eot then ret (Inr False)
     else do {
       b \<leftarrow> currentTokenIs code;
       if b then ret (Inr True) else do { _ \<leftarrow> ignoreToken; ret (Inl ()) } } }) ()"

definition seekAndConsumeToken :: "('p, 'v) env \<Rightarrow> code \<Rightarrow> ('p, 'v, bool) pm" where
  "seekAndConsumeToken E code = do {
     status \<leftarrow> seekToken E code;
     whenM status (do { _ \<leftarrow> ignoreToken; ret () });
     ret status }"

text \<open>The codes that are not given default to \<open>UNUSED_ID\<close>; there are six of them.\<close>

definition seekTokens :: "('p, 'v) env \<Rightarrow> code list \<Rightarrow> ('p, 'v, bool) pm" where
  "seekTokens E codes = loopM E False (\<lambda>_. do {
     eot \<leftarrow> currentTokenIs TKN_EOT;
     if eot then ret (Inr False)
     else do {
       c \<leftarrow> currentTokenCode;
       if c \<in> set (take 6 (codes @ replicate 6 UNUSED_ID)) then ret (Inr True)
       else do { _ \<leftarrow> ignoreToken; ret (Inl ()) } } }) ()"

definition seekAndConsumeTokens :: "('p, 'v) env \<Rightarrow> code list \<Rightarrow> ('p, 'v, bool) pm" where
  "seekAndConsumeTokens E codes = do {
     status \<leftarrow> seekTokens E codes;
     whenM status (do { _ \<leftarrow> ignoreToken; ret () });
     ret status }"

section \<open>Excursions\<close>

definition beginExcursion :: "('p, 'v, unit) pm" where
  "beginExcursion = State_Monad.update (\<lambda>s.
     s\<lparr>ps_saved := ps_token s # ps_saved s, ps_lexer := lexer_beginExcursion (ps_lexer s)\<rparr>)"

definition endExcursion :: "('p, 'v, unit) pm" where
  "endExcursion = do {
     s \<leftarrow> State_Monad.get;
     (case (ps_saved s, lexer_endExcursion (ps_lexer s)) of
        (tkn # saved, Some lx) \<Rightarrow>
          State_Monad.set (s\<lparr>ps_token := tkn, ps_saved := saved, ps_lexer := lx\<rparr>)
      | _ \<Rightarrow> halt EmptyExcursionStack) }"

text \<open>The vector of saved tokens is not popped here.\<close>

definition forgetExcursion :: "('p, 'v, unit) pm" where
  "forgetExcursion = do {
     s \<leftarrow> State_Monad.get;
     (case lexer_forgetExcursion (ps_lexer s) of
        Some lx \<Rightarrow> State_Monad.set (s\<lparr>ps_lexer := lx\<rparr>)
      | None \<Rightarrow> halt EmptyExcursionStack) }"

section \<open>Identifiers\<close>

text \<open>The entry of a token in the pool, created when it is new, and known by its name.\<close>

definition internIdentifier :: "string \<Rightarrow> ('p, 'v, string) pm" where
  "internIdentifier name = do {
     State_Monad.update (\<lambda>s. s\<lparr>ps_pool := snd (getIdentifierInfo (ps_pool s) name)\<rparr>);
     ret name }"

definition tokenIdentifier :: "token \<Rightarrow> ('p, 'v, string) pm" where
  "tokenIdentifier tkn = internIdentifier (tk_rep tkn)"

definition identifierAttribute :: "string \<Rightarrow> ('p, 'v, attributeID) pm" where
  "identifierAttribute name = gets (\<lambda>s. fst (getIdentifierInfo (ps_pool s) name))"

definition parseIdentifier :: "('p, 'v, string option) pm" where
  "parseIdentifier = do {
     c \<leftarrow> currentTokenCode;
     if c = TKN_IDENTIFIER then do {
       tkn \<leftarrow> currentToken;
       info \<leftarrow> tokenIdentifier tkn;
       _ \<leftarrow> ignoreToken;
       ret (Some info) }
     else if c = TKN_EOT then do { report PREMATURE_EOS []; ret None }
     else do {
       str \<leftarrow> currentTokenString;
       report UNEXPECTED_TOKEN [str];
       ret None } }"

definition parseFunctionIdentifier :: "('p, 'v, string option) pm" where
  "parseFunctionIdentifier = do {
     tkn \<leftarrow> currentToken;
     if isFunctionGlyph tkn then do {
       info \<leftarrow> internIdentifier (codeText (tk_code tkn));
       _ \<leftarrow> ignoreToken;
       ret (Some info) }
     else parseIdentifier }"

section \<open>The start\<close>

text \<open>The constructor: the first token is loaded.\<close>

definition mkParser :: "text_provider \<Rightarrow> pool \<Rightarrow> ('p, 'v) pstate" where
  "mkParser tp pool =
     (case lexer_scan (mkLexer tp) of (tkn, lx) \<Rightarrow>
        \<lparr>ps_token = tkn, ps_lexer = lx, ps_saved = [], ps_pool = markAttributeIdentifiers pool,
         ps_diags = [], ps_calls = [], ps_endtags = [], ps_halt = None\<rparr>)"

end
