(* ===== verification/Lookahead.thy ===== *)
theory Lookahead
  imports ParserBase
begin

text \<open>
  The parts of the parser that only move over the tokens, from
  \<^verbatim>\<open>lib/parser/Parser.cpp\<close> and \<^verbatim>\<open>lib/parser/ParseName.cpp\<close>: recovery
  (\<open>seek...\<close>), the tests that look ahead (\<open>...Follows\<close>), the identifiers, and the end
  tags.

  A loop of the source is \<open>loopM\<close> over its body: \<open>Inl\<close> goes on with the next round (the end
  of the body, or \<^verbatim>\<open>continue\<close>), \<open>Inr\<close> leaves it (\<^verbatim>\<open>break\<close> or \<^verbatim>\<open>return\<close>).
\<close>

section \<open>Recovery\<close>

definition seekCloseParen :: "('p, 'v) env \<Rightarrow> ('p, 'v, bool) pm" where
  "seekCloseParen E = loopM E False (\<lambda>depth. do {
     _ \<leftarrow> seekTokens E [TKN_LPAREN, TKN_RPAREN];
     c \<leftarrow> currentTokenCode;
     if c = TKN_LPAREN then do { _ \<leftarrow> ignoreToken; ret (Inl (depth + 1)) }
     else if c = TKN_RPAREN then
       (if depth - 1 = 0 then do { _ \<leftarrow> ignoreToken; ret (Inr True) }
        else do { _ \<leftarrow> ignoreToken; ret (Inl (depth - 1)) })
     else if c = TKN_EOT then ret (Inr False)
     else do { _ \<leftarrow> ignoreToken; ret (Inl depth) } }) (1::nat)"

definition seekSemi :: "('p, 'v) env \<Rightarrow> ('p, 'v, bool) pm" where
  "seekSemi E = loopM E False (\<lambda>_. do {
     more \<leftarrow> seekTokens E [TKN_LPAREN, TKN_SEMI];
     if \<not> more then ret (Inr False)
     else do {
       semi \<leftarrow> currentTokenIs TKN_SEMI;
       if semi then ret (Inr True)
       else do { _ \<leftarrow> ignoreToken; _ \<leftarrow> seekCloseParen E; ret (Inl ()) } } }) ()"

text \<open>The identifier after the current token, if that token is one.\<close>

definition peekIdentifier :: "('p, 'v, string option) pm" where
  "peekIdentifier = do {
     b \<leftarrow> nextTokenIs TKN_IDENTIFIER;
     if b then do { tkn \<leftarrow> peekToken; info \<leftarrow> tokenIdentifier tkn; ret (Some info) }
     else ret None }"

definition seekEndTag :: "('p, 'v) env \<Rightarrow> string option \<Rightarrow> ('p, 'v, bool) pm" where
  "seekEndTag E tag = loopM E False (\<lambda>_. do {
     more \<leftarrow> seekToken E TKN_END;
     if \<not> more then ret (Inr False)
     else do {
       info \<leftarrow> peekIdentifier;
       if info = tag then ret (Inr True)
       else do { _ \<leftarrow> ignoreToken; ret (Inl ()) } } }) ()"

definition seekAndConsumeEndTag :: "('p, 'v) env \<Rightarrow> string option \<Rightarrow> ('p, 'v, bool) pm" where
  "seekAndConsumeEndTag E tag = do {
     b \<leftarrow> seekEndTag E tag;
     if b then do { _ \<leftarrow> ignoreToken; _ \<leftarrow> ignoreToken; ret True } else ret False }"

definition seekEndIf :: "('p, 'v) env \<Rightarrow> ('p, 'v, bool) pm" where
  "seekEndIf E = loopM E False (\<lambda>depth. do {
     more \<leftarrow> seekTokens E [TKN_IF, TKN_END];
     if \<not> more then ret (Inr False)
     else do {
       c \<leftarrow> currentTokenCode;
       if c = TKN_IF then do { _ \<leftarrow> ignoreToken; ret (Inl (depth + 1)) }
       else if c = TKN_END then do {
         _ \<leftarrow> ignoreToken;
         b \<leftarrow> reduceToken TKN_IF;
         if b then (if depth - 1 = 0 then ret (Inr True) else ret (Inl (depth - 1)))
         else ret (Inl depth) }
       else ret (Inr False) } }) (1::nat)"

text \<open>\<open>--depth\<close> is evaluated only after \<open>end loop\<close>, so \<open>continue\<close> keeps or decrements it.\<close>

definition seekEndLoop :: "('p, 'v) env \<Rightarrow> string option \<Rightarrow> ('p, 'v, bool) pm" where
  "seekEndLoop E tag = loopM E False (\<lambda>depth. do {
     more \<leftarrow> seekTokens E [TKN_FOR, TKN_WHILE, TKN_LOOP, TKN_END];
     if \<not> more then ret (Inr False)
     else do {
       c \<leftarrow> currentTokenCode;
       if c = TKN_WHILE \<or> c = TKN_FOR then do {
         _ \<leftarrow> seekToken E TKN_LOOP; _ \<leftarrow> ignoreToken; ret (Inl (depth + 1)) }
       else if c = TKN_LOOP then do { _ \<leftarrow> ignoreToken; ret (Inl (depth + 1)) }
       else if c = TKN_END then do {
         _ \<leftarrow> ignoreToken;
         b \<leftarrow> reduceToken TKN_LOOP;
         if \<not> b then ret (Inl depth)
         else if depth - 1 \<noteq> 0 then ret (Inl (depth - 1))
         else if tag \<noteq> None then ret (Inr True)
         else do {
           info \<leftarrow> peekIdentifier;
           if info = tag then do { _ \<leftarrow> ignoreToken; ret (Inr True) }
           else ret (Inr False) } }
       else ret (Inr False) } }) (1::nat)"

definition seekNameEnd :: "('p, 'v) env \<Rightarrow> ('p, 'v, unit) pm" where
  "seekNameEnd E = loopM E () (\<lambda>_. do {
     c \<leftarrow> currentTokenCode;
     if c \<in> {TKN_IDENTIFIER, TKN_DOT, TKN_CHARACTER, TKN_ALL} then do { _ \<leftarrow> ignoreToken; ret (Inl ()) }
     else if c = TKN_LPAREN then do { _ \<leftarrow> ignoreToken; _ \<leftarrow> seekCloseParen E; ret (Inl ()) }
     else ret (Inr ()) }) ()"

section \<open>Looking ahead\<close>

definition unitExprFollows :: "('p, 'v, bool) pm" where
  "unitExprFollows = andM (currentTokenIs TKN_LPAREN) (nextTokenIs TKN_RPAREN)"

definition assignmentFollows :: "('p, 'v) env \<Rightarrow> ('p, 'v, bool) pm" where
  "assignmentFollows E = do {
     beginExcursion;
     seekNameEnd E;
     status \<leftarrow> currentTokenIs TKN_ASSIGN;
     endExcursion;
     ret status }"

definition keywordSelectionFollows :: "('p, 'v, bool) pm" where
  "keywordSelectionFollows = andM (currentTokenIs TKN_IDENTIFIER) (nextTokenIs TKN_RDARROW)"

definition selectedComponentFollows :: "('p, 'v) env \<Rightarrow> ('p, 'v, bool) pm" where
  "selectedComponentFollows E = do {
     b \<leftarrow> currentTokenIs TKN_IDENTIFIER;
     if \<not> b then ret False
     else do {
       c \<leftarrow> peekTokenCode;
       if c = TKN_DOT then ret True
       else if c = TKN_LPAREN then do {
         beginExcursion;
         _ \<leftarrow> ignoreToken;
         loopM E () (\<lambda>_. do {
           _ \<leftarrow> ignoreToken;
           _ \<leftarrow> seekCloseParen E;
           more \<leftarrow> currentTokenIs TKN_LPAREN;
           ret (if more then Inl () else Inr ()) }) ();
         status \<leftarrow> currentTokenIs TKN_DOT;
         endExcursion;
         ret status }
       else ret False } }"

text \<open>The label \<open>SEEK\<close> is the head of the loop.\<close>

definition aggregateFollows :: "('p, 'v) env \<Rightarrow> ('p, 'v, bool) pm" where
  "aggregateFollows E = do {
     lparen \<leftarrow> currentTokenIs TKN_LPAREN;
     assertM ''aggregateFollows'' lparen;
     beginExcursion;
     _ \<leftarrow> ignoreToken;
     result \<leftarrow> loopM E False (\<lambda>_. do {
       more \<leftarrow> seekTokens E [TKN_LPAREN, TKN_COMMA, TKN_OTHERS, TKN_RDARROW, TKN_RPAREN];
       if \<not> more then ret (Inr False)
       else do {
         c \<leftarrow> currentTokenCode;
         if c \<in> {TKN_COMMA, TKN_RDARROW, TKN_OTHERS} then ret (Inr True)
         else if c = TKN_LPAREN then do {
           _ \<leftarrow> ignoreToken;
           closed \<leftarrow> seekCloseParen E;
           ret (if closed then Inl () else Inr False) }
         else ret (Inr False) } }) ();
     endExcursion;
     ret result }"

definition taggedStmtFollows :: "('p, 'v, bool) pm" where
  "taggedStmtFollows = andM (currentTokenIs TKN_IDENTIFIER) (nextTokenIs TKN_COLON)"

definition qualificationFollows :: "('p, 'v, bool) pm" where
  "qualificationFollows = andM (currentTokenIs TKN_QUOTE) (nextTokenIs TKN_LPAREN)"

definition consumeNameTail :: "('p, 'v) env \<Rightarrow> ('p, 'v, unit) pm" where
  "consumeNameTail E = loopM E () (\<lambda>_. do {
     lparen \<leftarrow> reduceToken TKN_LPAREN;
     if lparen then do { consume \<leftarrow> seekCloseParen E; ret (if consume then Inl () else Inr ()) }
     else do {
       dot \<leftarrow> reduceToken TKN_DOT;
       if dot then do {
         c \<leftarrow> currentTokenCode;
         if c \<in> {TKN_IDENTIFIER, TKN_CHARACTER, TKN_ALL} then do { _ \<leftarrow> ignoreToken; ret (Inl ()) }
         else ret (Inr ()) }
       else do {
         attr \<leftarrow> currentTokenIs TKN_ATTRIBUTE;
         if attr then do { _ \<leftarrow> ignoreToken; ret (Inl ()) } else ret (Inr ()) } } }) ()"

definition consumeName :: "('p, 'v) env \<Rightarrow> ('p, 'v, bool) pm" where
  "consumeName E = do {
     c \<leftarrow> currentTokenCode;
     if c \<in> {TKN_CHARACTER, TKN_IDENTIFIER} then do {
       _ \<leftarrow> ignoreToken;
       consumeNameTail E;
       ret True }
     else ret False }"

section \<open>Identifiers and end tags\<close>

definition parseCharacter :: "('p, 'v, string option) pm" where
  "parseCharacter = do {
     b \<leftarrow> currentTokenIs TKN_CHARACTER;
     if b then do {
       tkn \<leftarrow> currentToken;
       info \<leftarrow> tokenIdentifier tkn;
       _ \<leftarrow> ignoreToken;
       ret (Some info) }
     else do {
       str \<leftarrow> currentTokenString;
       report UNEXPECTED_TOKEN [str];
       ret None } }"

definition parseIdentifierOrCharacter :: "('p, 'v, string option) pm" where
  "parseIdentifierOrCharacter = do {
     b \<leftarrow> currentTokenIs TKN_IDENTIFIER;
     if b then parseIdentifier else parseCharacter }"

definition parseAnyIdentifier :: "('p, 'v, string option) pm" where
  "parseAnyIdentifier = do {
     b \<leftarrow> currentTokenIs TKN_CHARACTER;
     if b then parseCharacter else parseFunctionIdentifier }"

text \<open>The part \<open>parseEndTag\<close> and \<open>parseLoopEndTag\<close> share: the tag itself.\<close>

definition checkEndTag :: "string option \<Rightarrow> ('p, 'v, unit) pm" where
  "checkEndTag expectedTag =
     (case expectedTag of
        Some expected \<Rightarrow> do {
          semi \<leftarrow> currentTokenIs TKN_SEMI;
          if semi then report EXPECTED_END_TAG [expected]
          else do {
            tagLoc \<leftarrow> curLocation;
            tag \<leftarrow> parseFunctionIdentifier;
            whenM (tag \<noteq> None \<and> tag \<noteq> expectedTag) (reportAt tagLoc EXPECTED_END_TAG [expected]) } }
      | None \<Rightarrow> do {
          b \<leftarrow> currentTokenIs TKN_IDENTIFIER;
          whenM b (do {
            tagLoc \<leftarrow> curLocation;
            tag \<leftarrow> parseIdentifier;
            reportAt tagLoc UNEXPECTED_END_TAG [the_default [] tag] }) })"

definition parseEndTag :: "string option \<Rightarrow> ('p, 'v, bool) pm" where
  "parseEndTag expectedTag = do {
     b \<leftarrow> requireToken TKN_END;
     if b then do { checkEndTag expectedTag; ret True } else ret False }"

definition parseLoopEndTag :: "string option \<Rightarrow> ('p, 'v, bool) pm" where
  "parseLoopEndTag expectedTag = do {
     b \<leftarrow> andM (requireToken TKN_END) (requireToken TKN_LOOP);
     if \<not> b then ret False
     else do { checkEndTag expectedTag; ret True } }"

end
