(* ===== verification/ParseName.thy ===== *)
theory ParseName
  imports Lookahead
begin

text \<open>
  Names and subtype indications, from \<^verbatim>\<open>lib/parser/ParseName.cpp\<close> and
  \<^verbatim>\<open>lib/parser/ParseSubtype.cpp\<close>, and the discrete subtype definitions of
  \<^verbatim>\<open>lib/parser/Parser.cpp\<close>.

  Names hold expressions and expressions hold names.  The functions of this theory take the
  parser of expressions as the parameter \<open>pe\<close>; the theory \<open>ParseExpr\<close> ties the knot.
\<close>

datatype name_option = No_Option | Statement_Name | Accept_Range_Attribute | Elide_Application

section \<open>Names\<close>

definition parseDirectName :: "('p, 'v) env \<Rightarrow> name_option \<Rightarrow> ('p, 'v, 'p node) pm" where
  "parseDirectName E opt = do {
     loc \<leftarrow> curLocation;
     c \<leftarrow> currentTokenCode;
     if c = TKN_IDENTIFIER then do {
       name \<leftarrow> parseIdentifier;
       (case name of
          Some nm \<Rightarrow> client E (NameCall (AcceptDirectName nm loc (opt = Statement_Name)))
        | None \<Rightarrow> ret getInvalidNode) }
     else if c = TKN_CHARACTER then do {
       name \<leftarrow> parseCharacter;
       (case name of
          Some nm \<Rightarrow> client E (NameCall (AcceptCharacterLiteral nm loc))
        | None \<Rightarrow> ret getInvalidNode) }
     else do {
       str \<leftarrow> currentTokenString;
       report UNEXPECTED_TOKEN [str];
       seekNameEnd E;
       ret getInvalidNode } }"

definition parseSelectedComponent ::
  "('p, 'v) env \<Rightarrow> 'p node \<Rightarrow> name_option \<Rightarrow> ('p, 'v, 'p node) pm" where
  "parseSelectedComponent E pfx opt = do {
     loc \<leftarrow> curLocation;
     deref \<leftarrow> reduceToken TKN_ALL;
     if deref then client E (NameCall (AcceptDereference pfx loc))
     else do {
       name \<leftarrow> parseAnyIdentifier;
       (case name of
          Some nm \<Rightarrow> client E (NameCall (AcceptSelectedComponent pfx nm loc (opt = Statement_Name)))
        | None \<Rightarrow> do { seekNameEnd E; ret getInvalidNode }) } }"

definition parseParameterAssociation ::
  "('p, 'v) env \<Rightarrow> ('p, 'v, 'p node) pm \<Rightarrow> ('p, 'v, 'p node) pm" where
  "parseParameterAssociation E pe = do {
     b \<leftarrow> keywordSelectionFollows;
     assertM ''parseParameterAssociation'' b;
     loc \<leftarrow> curLocation;
     key \<leftarrow> parseIdentifier;
     _ \<leftarrow> ignoreToken;
     rhs \<leftarrow> pe;
     if isValid rhs then client E (NameCall (AcceptParameterAssociation key loc rhs))
     else ret getInvalidNode }"

text \<open>One round of the argument loop; the accumulator is the arguments and \<open>seenSelector\<close>.\<close>

definition argumentRound ::
  "('p, 'v) env \<Rightarrow> ('p, 'v, 'p node) pm \<Rightarrow> 'p node list \<times> bool
     \<Rightarrow> ('p, 'v, ('p node list \<times> bool) + 'p node list option) pm" where
  "argumentRound E pe = (\<lambda>(arguments, seenSelector). do {
     key \<leftarrow> keywordSelectionFollows;
     if \<not> key \<and> seenSelector then do {
       report POSITIONAL_FOLLOWING_SELECTED_PARAMETER [];
       _ \<leftarrow> seekCloseParen E;
       ret (Inr None) }
     else do {
       arg \<leftarrow> (if key then parseParameterAssociation E pe else pe);
       if isValid arg then do {
         comma \<leftarrow> reduceToken TKN_COMMA;
         ret (if comma then Inl (arguments @ [arg], seenSelector \<or> key) else Inr (Some (arguments @ [arg]))) }
       else do { _ \<leftarrow> seekCloseParen E; ret (Inr None) } } })"

definition parseApplication ::
  "('p, 'v) env \<Rightarrow> ('p, 'v, 'p node) pm \<Rightarrow> 'p node \<Rightarrow> ('p, 'v, 'p node) pm" where
  "parseApplication E pe pfx = do {
     lparen \<leftarrow> currentTokenIs TKN_LPAREN;
     assertM ''parseApplication'' lparen;
     unit \<leftarrow> unitExprFollows;
     if unit then do {
       loc \<leftarrow> ignoreToken;
       _ \<leftarrow> ignoreToken;
       result \<leftarrow> client E (NameCall (FinishName pfx));
       whenM (isValid result) (reportAt loc EMPTY_PARAMS []);
       ret result }
     else do {
       _ \<leftarrow> ignoreToken;
       args \<leftarrow> loopM E None (argumentRound E pe) ([], False);
       (case args of
          None \<Rightarrow> ret getInvalidNode
        | Some arguments \<Rightarrow> do {
            closed \<leftarrow> requireToken TKN_RPAREN;
            if \<not> closed then do { _ \<leftarrow> seekCloseParen E; ret getInvalidNode }
            else client E (NameCall (AcceptApplication pfx arguments)) }) } }"

definition parseAttribute ::
  "('p, 'v) env \<Rightarrow> 'p node \<Rightarrow> name_option \<Rightarrow> ('p, 'v, 'p node) pm" where
  "parseAttribute E pfx opt = do {
     attr \<leftarrow> currentTokenIs TKN_ATTRIBUTE;
     assertM ''parseAttribute'' attr;
     loc \<leftarrow> curLocation;
     tkn \<leftarrow> currentToken;
     name \<leftarrow> tokenIdentifier tkn;
     _ \<leftarrow> ignoreToken;
     ID \<leftarrow> identifierAttribute name;
     if ID = UNKNOWN_ATTRIBUTE then do {
       reportAt loc DIAG_UNKNOWN_ATTRIBUTE [name];
       ret getInvalidNode }
     else if ID = Attr_Range \<and> opt \<noteq> Accept_Range_Attribute then do {
       reportAt loc INVALID_ATTRIBUTE_CONTEXT [name];
       ret getInvalidNode }
     else client E (NameCall (AcceptAttribute pfx name loc)) }"

text \<open>
  One round of the loop of \<open>parseName\<close>: \<open>Inl\<close> is the prefix for the next round, \<open>Inr\<close> the
  prefix the loop is left with and whether the function returns it at once.
\<close>

definition nameSuffix ::
  "('p, 'v) env \<Rightarrow> ('p, 'v, 'p node) pm \<Rightarrow> name_option \<Rightarrow> 'p node
     \<Rightarrow> ('p, 'v, 'p node + 'p node \<times> bool) pm" where
  "nameSuffix E pe opt pfx = do {
     let again = (\<lambda>p. ret (if isInvalid p then Inr (p, False) else Inl p));
     lparen \<leftarrow> currentTokenIs TKN_LPAREN;
     if lparen then
       (if opt = Elide_Application then do {
          beginExcursion;
          _ \<leftarrow> ignoreToken;
          selectorFollows \<leftarrow> andM (seekCloseParen E) (currentTokenIs TKN_DOT);
          endExcursion;
          if selectorFollows then do { p \<leftarrow> parseApplication E pe pfx; again p }
          else ret (Inr (pfx, True)) }
        else do { p \<leftarrow> parseApplication E pe pfx; again p })
     else do {
       dot \<leftarrow> reduceToken TKN_DOT;
       if dot then do {
         p \<leftarrow> client E (NameCall (FinishName pfx));
         p' \<leftarrow> (if isValid p then parseSelectedComponent E p opt else ret p);
         again p' }
       else do {
         attr \<leftarrow> currentTokenIs TKN_ATTRIBUTE;
         if attr then do {
           p \<leftarrow> client E (NameCall (FinishName pfx));
           p' \<leftarrow> (if isValid p then parseAttribute E p opt else ret p);
           again p' }
         else ret (Inr (pfx, False)) } } }"

definition parseName ::
  "('p, 'v) env \<Rightarrow> ('p, 'v, 'p node) pm \<Rightarrow> name_option \<Rightarrow> ('p, 'v, 'p node) pm" where
  "parseName E pe opt = do {
     pfx \<leftarrow> parseDirectName E opt;
     if isInvalid pfx then ret pfx
     else do {
       r \<leftarrow> loopM E (getInvalidNode, True) (nameSuffix E pe opt) pfx;
       (case r of (p, returns) \<Rightarrow>
          if returns then ret p
          else if isInvalid p then do { seekNameEnd E; ret p }
          else client E (NameCall (FinishName p))) } }"

section \<open>Subtype indications\<close>

text \<open>The two nodes \<open>parseRange\<close> assigns, and its result.\<close>

definition parseRange ::
  "('p, 'v, 'p node) pm \<Rightarrow> ('p, 'v, 'p node \<times> 'p node \<times> bool) pm" where
  "parseRange pe = do {
     lower \<leftarrow> pe;
     bad \<leftarrow> (if isInvalid lower then ret True else notM (requireToken TKN_DDOT));
     if bad then ret (lower, getNullNode, False)
     else do {
       upper \<leftarrow> pe;
       ret (lower, upper, isValid upper) } }"

definition parseSubtypeIndicationRange ::
  "('p, 'v) env \<Rightarrow> ('p, 'v, 'p node) pm \<Rightarrow> 'p node \<Rightarrow> ('p, 'v, 'p node) pm" where
  "parseSubtypeIndicationRange E pe subtypeMark = do {
     b \<leftarrow> currentTokenIs TKN_RANGE;
     assertM ''parseSubtypeIndicationRange'' b;
     _ \<leftarrow> ignoreToken;
     r \<leftarrow> parseRange pe;
     (case r of (lower, upper, ok) \<Rightarrow>
        if \<not> ok then ret getInvalidNode
        else client E (ExprCall (AcceptSubtypeIndicationRange subtypeMark lower upper))) }"

definition parseSubtypeIndicationArgument ::
  "('p, 'v) env \<Rightarrow> ('p, 'v, 'p node) pm \<Rightarrow> ('p, 'v, 'p node) pm" where
  "parseSubtypeIndicationArgument E pe = do {
     key \<leftarrow> keywordSelectionFollows;
     if key then parseParameterAssociation E pe
     else do {
       expr \<leftarrow> pe;
       if \<not> isValid expr then ret getInvalidNode
       else do {
         ddot \<leftarrow> reduceToken TKN_DDOT;
         if ddot then do {
           upper \<leftarrow> pe;
           if isInvalid upper then ret getInvalidNode
           else client E (ExprCall (AcceptDSTRange expr upper)) }
         else do {
           range \<leftarrow> reduceToken TKN_RANGE;
           if range then do {
             r \<leftarrow> parseRange pe;
             (case r of (lower, upper, ok) \<Rightarrow>
                if ok then client E (ExprCall (AcceptDSTConstrained expr lower upper))
                else ret getInvalidNode) }
           else ret expr } } } }"

definition parseSubtypeIndicationArguments ::
  "('p, 'v) env \<Rightarrow> ('p, 'v, 'p node) pm \<Rightarrow> 'p node \<Rightarrow> ('p, 'v, 'p node) pm" where
  "parseSubtypeIndicationArguments E pe subtypeMark = do {
     b \<leftarrow> currentTokenIs TKN_LPAREN;
     assertM ''parseSubtypeIndicationArguments'' b;
     _ \<leftarrow> ignoreToken;
     r \<leftarrow> loopM E None (\<lambda>params. do {
       param \<leftarrow> parseSubtypeIndicationArgument E pe;
       if isInvalid param then do { _ \<leftarrow> seekCloseParen E; ret (Inr None) }
       else do {
         comma \<leftarrow> reduceToken TKN_COMMA;
         ret (if comma then Inl (params @ [param]) else Inr (Some (params @ [param]))) } }) [];
     (case r of
        None \<Rightarrow> ret getInvalidNode
      | Some params \<Rightarrow> do {
          closed \<leftarrow> requireToken TKN_RPAREN;
          whenM (\<not> closed) (do { _ \<leftarrow> seekCloseParen E; ret () });
          client E (ExprCall (AcceptSubtypeIndicationArgs subtypeMark params)) }) }"

definition parseSubtypeIndication ::
  "('p, 'v) env \<Rightarrow> ('p, 'v, 'p node) pm \<Rightarrow> ('p, 'v, 'p node) pm" where
  "parseSubtypeIndication E pe = do {
     subtypeMark \<leftarrow> parseName E pe Elide_Application;
     if isInvalid subtypeMark then ret getInvalidNode
     else do {
       c \<leftarrow> currentTokenCode;
       if c = TKN_RANGE then parseSubtypeIndicationRange E pe subtypeMark
       else if c = TKN_LPAREN then parseSubtypeIndicationArguments E pe subtypeMark
       else client E (ExprCall (AcceptSubtypeIndication subtypeMark)) } }"

section \<open>Discrete subtype definitions\<close>

definition rangeFollows :: "('p, 'v) env \<Rightarrow> ('p, 'v, bool) pm" where
  "rangeFollows E = do {
     beginExcursion;
     named \<leftarrow> consumeName E;
     c \<leftarrow> currentTokenCode;
     endExcursion;
     ret (\<not> (named \<and> c \<in> {TKN_RANGE, TKN_LOOP, TKN_COMMA, TKN_RPAREN})) }"

definition parseDSTDefinition ::
  "('p, 'v) env \<Rightarrow> ('p, 'v, 'p node) pm \<Rightarrow> bool \<Rightarrow> ('p, 'v, 'p node) pm" where
  "parseDSTDefinition E pe acceptDiamond = do {
     isRange \<leftarrow> rangeFollows E;
     if isRange then do {
       r \<leftarrow> parseRange pe;
       (case r of (lower, upper, ok) \<Rightarrow>
          if \<not> ok then ret getInvalidNode
          else client E (ExprCall (AcceptDSTRange lower upper))) }
     else do {
       name \<leftarrow> parseName E pe Accept_Range_Attribute;
       if isInvalid name then ret getInvalidNode
       else do {
         range \<leftarrow> reduceToken TKN_RANGE;
         if range then do {
           diamond \<leftarrow> currentTokenIs TKN_DIAMOND;
           if diamond then do {
             loc \<leftarrow> ignoreToken;
             if acceptDiamond then client E (ExprCall (AcceptDSTName name True))
             else do {
               reportAt loc UNEXPECTED_TOKEN [codeText TKN_DIAMOND];
               ret getInvalidNode } }
           else do {
             r \<leftarrow> parseRange pe;
             (case r of (lower, upper, ok) \<Rightarrow>
                if \<not> ok then ret getInvalidNode
                else client E (ExprCall (AcceptDSTConstrained name lower upper))) } }
         else client E (ExprCall (AcceptDSTName name False)) } } }"

end
