(* ===== verification/Literal.thy ===== *)
theory Literal
  imports Client "HOL-Library.While_Combinator"
begin

text \<open>
  Integer literals, from \<^verbatim>\<open>decimalLiteralToAPInt\<close> in \<^verbatim>\<open>lib/parser/Parser.cpp\<close>.  The
  arithmetic is done by \<^verbatim>\<open>llvm::APInt\<close>, whose operations are a parameter; what the
  conversion relies on is stated as \<open>apint_laws\<close>, the documented behaviour of numbers of
  a fixed width.
\<close>

section \<open>The conversion\<close>

definition isExponentMark :: "char \<Rightarrow> bool" where
  "isExponentMark c \<longleftrightarrow> c = CHR ''e'' \<or> c = CHR ''E''"

definition dropUnderscores :: "string \<Rightarrow> string" where
  "dropUnderscores str = filter (\<lambda>c. c \<noteq> CHR ''_'') str"

definition literalDigits :: "string \<Rightarrow> string" where
  "literalDigits str = dropUnderscores (takeWhile (\<lambda>c. \<not> isExponentMark c) str)"

text \<open>\<open>None\<close> when no exponent mark ended the first loop.\<close>

definition literalExponent :: "string \<Rightarrow> string option" where
  "literalExponent str =
     (case dropWhile (\<lambda>c. \<not> isExponentMark c) str of
        [] \<Rightarrow> None
      | _ # rest \<Rightarrow> Some (dropUnderscores rest))"

definition powerStep :: "'v apint_ops \<Rightarrow> 'v \<times> 'v \<times> 'v \<Rightarrow> 'v \<times> 'v \<times> 'v" where
  "powerStep ops = (\<lambda>(ex, accu, base).
     let ex' = ap_dec ops ex;
         accu' = ap_zext ops (2 * ap_getBitWidth ops accu) accu;
         base' = ap_zext ops (2 * ap_getBitWidth ops base) base
     in (ex', ap_mul ops accu' base', base'))"

text \<open>\<open>None\<close> is a loop that does not end.\<close>

definition powerOfTen :: "'v apint_ops \<Rightarrow> 'v \<Rightarrow> 'v option" where
  "powerOfTen ops ex =
     map_option (\<lambda>(e, accu, base). accu)
       (while_option (\<lambda>(e, accu, base). \<not> ap_eqNat ops e 1) (powerStep ops)
          (ex, ap_fromNat ops 4 10, ap_fromNat ops 4 10))"

definition scaleByPower :: "'v apint_ops \<Rightarrow> 'v \<Rightarrow> 'v \<Rightarrow> 'v" where
  "scaleByPower ops value0 accu0 =
     (let accu1 = (if ap_getBitWidth ops accu0 < ap_getBitWidth ops value0
                   then ap_zext ops (ap_getBitWidth ops value0) accu0 else accu0);
          value1 = (if \<not> ap_getBitWidth ops accu0 < ap_getBitWidth ops value0 \<and>
                       ap_getBitWidth ops value0 < ap_getBitWidth ops accu0
                   then ap_zext ops (ap_getBitWidth ops accu0) value0 else value0);
          accu2 = ap_zext ops (2 * ap_getBitWidth ops accu1) accu1;
          value2 = ap_zext ops (2 * ap_getBitWidth ops value1) value1
      in ap_mul ops value2 accu2)"

definition minimalWidth :: "'v apint_ops \<Rightarrow> 'v \<Rightarrow> 'v" where
  "minimalWidth ops value =
     ap_zextOrTrunc ops (if ap_eqNat ops value 0 then 1 else ap_getActiveBits ops value) value"

definition decimalLiteralToAPInt :: "'v apint_ops \<Rightarrow> string \<Rightarrow> halt + 'v" where
  "decimalLiteralToAPInt ops str =
     (let digits = literalDigits str in
      if digits = [] then Inl (AssertFailed ''decimalLiteralToAPInt'')
      else if literalExponent str = Some [] then Inl (AssertFailed ''decimalLiteralToAPInt'')
      else
        let value = ap_fromString ops (ap_getBitsNeeded ops digits) digits in
        case literalExponent str of
          None \<Rightarrow> Inr (minimalWidth ops value)
        | Some exponent \<Rightarrow>
            let ex = ap_fromString ops (ap_getBitsNeeded ops exponent) exponent in
            if ap_eqNat ops ex 0 then Inr (minimalWidth ops value)
            else case powerOfTen ops ex of
                   None \<Rightarrow> Inl Diverges
                 | Some accu \<Rightarrow> Inr (minimalWidth ops (scaleByPower ops value accu)))"

section \<open>Numbers of a fixed width\<close>

text \<open>The number a string of decimal digits stands for.\<close>

definition digitValue :: "char \<Rightarrow> nat" where
  "digitValue c = of_char c - 48"

definition isDigits :: "string \<Rightarrow> bool" where
  "isDigits str \<longleftrightarrow> str \<noteq> [] \<and> list_all isDecimalDigit str"

definition decimalValue :: "string \<Rightarrow> nat" where
  "decimalValue str = foldl (\<lambda>n c. 10 * n + digitValue c) 0 str"

text \<open>The number of bits of a number: the least width it fits in.\<close>

fun bitLength :: "nat \<Rightarrow> nat" where
  "bitLength n = (if n = 0 then 0 else Suc (bitLength (n div 2)))"

declare bitLength.simps [simp del]

text \<open>
  What is assumed of \<^verbatim>\<open>llvm::APInt\<close>, for \<open>num\<close> the unsigned value of a number: a number
  fits in its width; a string of digits needs at least the bits of its value and is read at
  any width that is enough; extension to a larger width keeps the value; multiplication of
  two numbers of one width, and decrement, are modulo two to the width.
\<close>

definition apint_laws :: "'v apint_ops \<Rightarrow> ('v \<Rightarrow> nat) \<Rightarrow> bool" where
  "apint_laws ops num \<longleftrightarrow>
     (\<forall>v. num v < 2 ^ ap_getBitWidth ops v) \<and>
     (\<forall>s. isDigits s \<longrightarrow> 0 < ap_getBitsNeeded ops s \<and> decimalValue s < 2 ^ ap_getBitsNeeded ops s) \<and>
     (\<forall>s w. isDigits s \<longrightarrow> decimalValue s < 2 ^ w \<longrightarrow>
        num (ap_fromString ops w s) = decimalValue s \<and> ap_getBitWidth ops (ap_fromString ops w s) = w) \<and>
     (\<forall>w n. n < 2 ^ w \<longrightarrow> num (ap_fromNat ops w n) = n \<and> ap_getBitWidth ops (ap_fromNat ops w n) = w) \<and>
     (\<forall>w v. ap_getBitWidth ops v \<le> w \<longrightarrow>
        num (ap_zext ops w v) = num v \<and> ap_getBitWidth ops (ap_zext ops w v) = w) \<and>
     (\<forall>u v. ap_getBitWidth ops u = ap_getBitWidth ops v \<longrightarrow>
        num (ap_mul ops u v) = num u * num v mod 2 ^ ap_getBitWidth ops u \<and>
        ap_getBitWidth ops (ap_mul ops u v) = ap_getBitWidth ops u) \<and>
     (\<forall>v. num v \<noteq> 0 \<longrightarrow> num (ap_dec ops v) = num v - 1) \<and>
     (\<forall>v n. ap_eqNat ops v n \<longleftrightarrow> num v = n) \<and>
     (\<forall>v. ap_getActiveBits ops v = bitLength (num v)) \<and>
     (\<forall>w v. num v < 2 ^ w \<longrightarrow>
        num (ap_zextOrTrunc ops w v) = num v \<and> ap_getBitWidth ops (ap_zextOrTrunc ops w v) = w)"

lemma bitLength_bound: "n < 2 ^ bitLength n"
proof (induction n rule: bitLength.induct)
  case (1 n)
  show ?case
  proof (cases "n = 0")
    case False
    then have "n div 2 < 2 ^ bitLength (n div 2)" using 1 by simp
    then show ?thesis using False by (subst bitLength.simps) simp
  qed (simp add: bitLength.simps)
qed

lemma bitLength_least: "n < 2 ^ w \<Longrightarrow> bitLength n \<le> w"
proof (induction n arbitrary: w rule: bitLength.induct)
  case (1 n)
  show ?case
  proof (cases "n = 0")
    case False
    then obtain w' where w: "w = Suc w'" using 1(2) by (cases w) auto
    then have "n div 2 < 2 ^ w'" using 1(2) by auto
    then show ?thesis using 1(1) [OF False, of w'] False w by (subst bitLength.simps) simp
  qed (simp add: bitLength.simps)
qed

lemma apint_lawsD:
  assumes "apint_laws ops num"
  shows "num v < 2 ^ ap_getBitWidth ops v"
    "isDigits s \<Longrightarrow> decimalValue s < 2 ^ ap_getBitsNeeded ops s"
    "isDigits s \<Longrightarrow> decimalValue s < 2 ^ w \<Longrightarrow> num (ap_fromString ops w s) = decimalValue s"
    "n < 2 ^ w \<Longrightarrow> num (ap_fromNat ops w n) = n"
    "n < 2 ^ w \<Longrightarrow> ap_getBitWidth ops (ap_fromNat ops w n) = w"
    "ap_getBitWidth ops v \<le> w \<Longrightarrow> num (ap_zext ops w v) = num v"
    "ap_getBitWidth ops v \<le> w \<Longrightarrow> ap_getBitWidth ops (ap_zext ops w v) = w"
    "ap_getBitWidth ops u = ap_getBitWidth ops v \<Longrightarrow>
       num (ap_mul ops u v) = num u * num v mod 2 ^ ap_getBitWidth ops u"
    "ap_getBitWidth ops u = ap_getBitWidth ops v \<Longrightarrow>
       ap_getBitWidth ops (ap_mul ops u v) = ap_getBitWidth ops u"
    "num v \<noteq> 0 \<Longrightarrow> num (ap_dec ops v) = num v - 1"
    "ap_eqNat ops v n \<longleftrightarrow> num v = n"
    "ap_getActiveBits ops v = bitLength (num v)"
    "num v < 2 ^ w \<Longrightarrow> num (ap_zextOrTrunc ops w v) = num v"
    "num v < 2 ^ w \<Longrightarrow> ap_getBitWidth ops (ap_zextOrTrunc ops w v) = w"
  using assms unfolding apint_laws_def by blast+

text \<open>Doubling the width of both factors keeps the product.\<close>

lemma num_mul_double:
  assumes laws: "apint_laws ops num"
    and w: "ap_getBitWidth ops u = w" "ap_getBitWidth ops v = w"
  shows "num (ap_mul ops (ap_zext ops (2 * w) u) (ap_zext ops (2 * w) v)) = num u * num v"
    "ap_getBitWidth ops (ap_mul ops (ap_zext ops (2 * w) u) (ap_zext ops (2 * w) v)) = 2 * w"
proof -
  note d = apint_lawsD [OF laws]
  have "num u * num v < 2 ^ w * 2 ^ w"
    using d(1) [of u] d(1) [of v] w by (intro mult_strict_mono) auto
  then have "num u * num v < 2 ^ (2 * w)" by (simp add: mult_2 power_add)
  then show "num (ap_mul ops (ap_zext ops (2 * w) u) (ap_zext ops (2 * w) v)) = num u * num v"
    by (simp add: d(6-8) w)
  show "ap_getBitWidth ops (ap_mul ops (ap_zext ops (2 * w) u) (ap_zext ops (2 * w) v)) = 2 * w"
    by (simp add: d(7,9) w)
qed

lemma powerOfTen_value:
  assumes laws: "apint_laws ops num" and ex: "num ex \<noteq> 0"
  shows "\<exists>accu. powerOfTen ops ex = Some accu \<and> num accu = 10 ^ num ex"
proof -
  note d = apint_lawsD [OF laws]
  define P where "P = (\<lambda>(e, accu, base). 0 < num e \<and> num e \<le> num ex \<and>
    num accu = 10 ^ (num ex - num e + 1) \<and> num base = 10 \<and>
    ap_getBitWidth ops accu = ap_getBitWidth ops base)"
  let ?b = "\<lambda>(e, accu, base). \<not> ap_eqNat ops e 1"
  have step: "P (powerStep ops st) \<and> (\<lambda>(e, accu, base). num e) (powerStep ops st) < (\<lambda>(e, accu, base). num e) st"
    if st: "P st" "?b st" for st
  proof -
    obtain e accu base where s: "st = (e, accu, base)" by (cases st)
    have e: "1 < num e" using st by (auto simp: s P_def d(11))
    have w: "ap_getBitWidth ops accu = ap_getBitWidth ops base" using st(1) by (simp add: s P_def)
    note m = num_mul_double [OF laws w refl]
    have ten: "(10::nat) ^ (num ex - num e + 1) * 10 = 10 ^ (num ex - (num e - 1) + 1)"
      using e st(1) by (simp add: s P_def Suc_diff_le)
    have dec: "num (ap_dec ops e) = num e - 1" using e by (simp add: d(10))
    have "num accu = 10 ^ (num ex - num e + 1)" "num base = 10" "num e \<le> num ex"
      using st(1) by (simp_all add: s P_def)
    moreover have "num (ap_zext ops (2 * ap_getBitWidth ops base) base) = num base"
      "ap_getBitWidth ops (ap_zext ops (2 * ap_getBitWidth ops base) base) = 2 * ap_getBitWidth ops base"
      by (simp_all add: d(6,7))
    ultimately show ?thesis using e m ten dec w
      by (simp add: s P_def powerStep_def Let_def)
  qed
  have start: "P (ex, ap_fromNat ops 4 10, ap_fromNat ops 4 10)"
    using ex by (simp add: P_def d(4,5))
  let ?st = "(ex, ap_fromNat ops 4 10, ap_fromNat ops 4 10)"
  have "\<exists>st. while_option ?b (powerStep ops) ?st = Some st"
    by (rule measure_while_option_Some [where P = P and f = "\<lambda>(e, accu, base). num e"])
       (rule step, assumption, assumption, rule start)
  then obtain st where st: "while_option ?b (powerStep ops) ?st = Some st" ..
  have P: "P st" by (rule while_option_rule [where P = P and b = ?b, OF _ st start]) (rule step [THEN conjunct1])
  note stop = while_option_stop [OF st]
  obtain e accu base where "st = (e, accu, base)" by (cases st)
  moreover have "(10::nat) * 10 ^ (num ex - 1) = 10 ^ num ex"
    using ex by (simp add: power_eq_if)
  ultimately show ?thesis using ex st P stop by (simp add: powerOfTen_def P_def d(11))
qed

lemma scaleByPower_value:
  assumes laws: "apint_laws ops num"
  shows "num (scaleByPower ops value accu) = num value * num accu"
proof -
  note d = apint_lawsD [OF laws]
  let ?w = "max (ap_getBitWidth ops value) (ap_getBitWidth ops accu)"
  define value1 where "value1 = (if \<not> ap_getBitWidth ops accu < ap_getBitWidth ops value \<and>
    ap_getBitWidth ops value < ap_getBitWidth ops accu then ap_zext ops (ap_getBitWidth ops accu) value else value)"
  define accu1 where "accu1 = (if ap_getBitWidth ops accu < ap_getBitWidth ops value
    then ap_zext ops (ap_getBitWidth ops value) accu else accu)"
  have w: "ap_getBitWidth ops value1 = ?w" "ap_getBitWidth ops accu1 = ?w"
    "num value1 = num value" "num accu1 = num accu"
    by (auto simp: value1_def accu1_def d(6,7))
  show ?thesis
    using num_mul_double(1) [OF laws w(1,2)] w
    by (simp add: scaleByPower_def Let_def value1_def [symmetric] accu1_def [symmetric])
qed

lemma minimalWidth_value:
  assumes laws: "apint_laws ops num"
  shows "num (minimalWidth ops v) = num v"
    "ap_getBitWidth ops (minimalWidth ops v) = max 1 (bitLength (num v))"
proof -
  note d = apint_lawsD [OF laws]
  have b: "num v \<noteq> 0 \<Longrightarrow> 1 \<le> bitLength (num v)" by (subst bitLength.simps) simp
  show "num (minimalWidth ops v) = num v"
    "ap_getBitWidth ops (minimalWidth ops v) = max 1 (bitLength (num v))"
    using bitLength_bound [of "num v"] b
    by (auto simp: minimalWidth_def d(11-14) bitLength.simps [of 0])
qed

section \<open>Properties\<close>


text \<open>An implementation that keeps the laws: a width with a number below two to the width.\<close>

definition fits :: "nat \<times> nat \<Rightarrow> nat \<times> nat" where
  "fits v = (fst v, snd v mod 2 ^ fst v)"

definition pairOps :: "(nat \<times> nat) apint_ops" where
  "pairOps = \<lparr>ap_getBitsNeeded = (\<lambda>s. max 1 (bitLength (decimalValue s))),
     ap_fromString = (\<lambda>w s. (w, decimalValue s)),
     ap_fromNat = (\<lambda>w n. (w, n)),
     ap_getBitWidth = fst,
     ap_zext = (\<lambda>w v. (w, snd (fits v))),
     ap_mul = (\<lambda>u v. (fst u, snd (fits u) * snd (fits v))),
     ap_dec = (\<lambda>v. (fst v, snd (fits v) - 1)),
     ap_eqNat = (\<lambda>v n. snd (fits v) = n),
     ap_getActiveBits = (\<lambda>v. bitLength (snd (fits v))),
     ap_zextOrTrunc = (\<lambda>w v. (w, snd (fits v)))\<rparr>"

lemma pairOps_laws: "apint_laws pairOps (\<lambda>v. snd (fits v))"
proof -
  have b: "decimalValue s < 2 ^ max 1 (bitLength (decimalValue s))" for s
    by (rule less_le_trans [OF bitLength_bound]) (simp add: power_increasing)
  have le: "snd v mod 2 ^ fst v < 2 ^ w" if "fst v \<le> w" for v :: "nat \<times> nat" and w
    using that by (metis less_le_trans mod_less_divisor one_le_numeral power_increasing zero_less_numeral zero_less_power)
  have dec: "(b mod 2 ^ a - 1) mod 2 ^ a = b mod 2 ^ a - (1::nat)" for a b
    by (rule mod_less) (simp add: less_imp_diff_less)
  show ?thesis
    unfolding apint_laws_def pairOps_def fits_def
    using b le dec by (auto simp: mod_less_divisor simp del: One_nat_def)
qed


end
