(* ===== verification/ParseExpr.thy ===== *)
theory ParseExpr
  imports ParseName Literal
begin

text \<open>
  Expressions, from \<^verbatim>\<open>lib/parser/ParseExpr.cpp\<close>.

  The functions are written over the parser of expressions \<open>pe\<close> they call at nested places
  (in parentheses, arguments and allocators); \<open>parseExprN\<close> runs so many levels of nesting
  and \<open>parseExpr\<close> is the one with the fuel of the environment.
\<close>

section \<open>Primary expressions\<close>

definition parseIntegerLiteral :: "('p, 'v) env \<Rightarrow> ('p, 'v, 'p node) pm" where
  "parseIntegerLiteral E = do {
     b \<leftarrow> currentTokenIs TKN_INTEGER;
     assertM ''parseIntegerLiteral'' b;
     tkn \<leftarrow> currentToken;
     loc \<leftarrow> ignoreToken;
     (case decimalLiteralToAPInt (en_apint E) (tk_rep tkn) of
        Inl h \<Rightarrow> do { halt h; ret getInvalidNode }
      | Inr val \<Rightarrow> client E (ExprCall (AcceptIntegerLiteral val loc))) }"

definition parseStringLiteral :: "('p, 'v) env \<Rightarrow> ('p, 'v, 'p node) pm" where
  "parseStringLiteral E = do {
     b \<leftarrow> currentTokenIs TKN_STRING;
     assertM ''parseStringLiteral'' b;
     tkn \<leftarrow> currentToken;
     loc \<leftarrow> ignoreToken;
     client E (ExprCall (AcceptStringLiteral (tk_rep tkn) loc)) }"

definition parseOthersExpr :: "('p, 'v) env \<Rightarrow> ('p, 'v, 'p node) pm \<Rightarrow> ('p, 'v, 'p node) pm" where
  "parseOthersExpr E pe = do {
     b \<leftarrow> currentTokenIs TKN_OTHERS;
     assertM ''parseOthersExpr'' b;
     loc \<leftarrow> ignoreToken;
     arrow \<leftarrow> requireToken TKN_RDARROW;
     if \<not> arrow then ret getInvalidNode
     else do {
       diamond \<leftarrow> reduceToken TKN_DIAMOND;
       result \<leftarrow> (if \<not> diamond then pe else ret getNullNode);
       rparen \<leftarrow> currentTokenIs TKN_RPAREN;
       if \<not> rparen then do {
         reportAt loc OTHERS_COMPONENT_NOT_FINAL [];
         ret getInvalidNode }
       else ret result } }"

text \<open>
  One round over the keys of a component: \<open>Inl\<close> is \<^verbatim>\<open>continue\<close> or the end of the body
  (the loop then asks for a bar), \<open>Inr\<close> is a \<^verbatim>\<open>return\<close> of that value.
\<close>

definition componentKey ::
  "('p, 'v) env \<Rightarrow> ('p, 'v, 'p node) pm \<Rightarrow> bool \<Rightarrow> 'p node list
     \<Rightarrow> ('p, 'v, 'p node list + bool) pm" where
  "componentKey E pe seenKeyedComponent keys = do {
     loc \<leftarrow> curLocation;
     named \<leftarrow> andM (currentTokenIs TKN_IDENTIFIER) (orM (nextTokenIs TKN_RDARROW) (nextTokenIs TKN_BAR));
     if named then do {
       name \<leftarrow> parseIdentifier;
       key \<leftarrow> client E (AggregateCall (AcceptAggregateKeyName (the_default [] name) loc));
       ret (Inl (if isValid key then keys @ [key] else keys)) }
     else do {
       lower \<leftarrow> pe;
       if isInvalid lower then do {
         _ \<leftarrow> seekTokens E [TKN_BAR, TKN_COMMA, TKN_RPAREN];
         ret (Inl keys) }
       else do {
         c \<leftarrow> currentTokenCode;
         if c = TKN_COMMA \<or> c = TKN_RPAREN then
           (if seenKeyedComponent then do {
              reportAt loc POSITIONAL_FOLLOWING_KEYED_COMPONENT [];
              _ \<leftarrow> seekCloseParen E;
              ret (Inr False) }
            else do {
              clientUnit (AggregateCall (AcceptPositionalAggregateComponent lower));
              ret (Inr True) })
         else do {
           ddot \<leftarrow> reduceToken TKN_DDOT;
           if ddot then do {
             upper \<leftarrow> pe;
             if isInvalid upper then do {
               _ \<leftarrow> seekTokens E [TKN_BAR, TKN_COMMA, TKN_RPAREN];
               ret (Inl keys) }
             else do {
               key \<leftarrow> client E (AggregateCall (AcceptAggregateKeyRange lower upper));
               ret (Inl (if isValid key then keys @ [key] else keys)) } }
           else do {
             key \<leftarrow> client E (AggregateCall (AcceptAggregateKeyNode lower));
             ret (Inl (if isValid key then keys @ [key] else keys)) } } } } }"

text \<open>The result, and the value the reference parameter \<open>seenKeyedComponent\<close> has after the call.\<close>

definition parseAggregateComponent ::
  "('p, 'v) env \<Rightarrow> ('p, 'v, 'p node) pm \<Rightarrow> bool \<Rightarrow> ('p, 'v, bool \<times> bool) pm" where
  "parseAggregateComponent E pe seenKeyedComponent = do {
     r \<leftarrow> loopM E (Inr False) (\<lambda>keys. do {
       k \<leftarrow> componentKey E pe seenKeyedComponent keys;
       (case k of
          Inr b \<Rightarrow> ret (Inr (Inr b))
        | Inl keys' \<Rightarrow> do {
            bar \<leftarrow> reduceToken TKN_BAR;
            ret (if bar then Inl keys' else Inr (Inl keys')) }) }) [];
     (case r of
        Inr b \<Rightarrow> ret (b, seenKeyedComponent)
      | Inl keys \<Rightarrow> do {
          arrow \<leftarrow> requireToken TKN_RDARROW;
          whenM arrow (do {
            loc \<leftarrow> curLocation;
            diamond \<leftarrow> reduceToken TKN_DIAMOND;
            expr \<leftarrow> (if \<not> diamond then pe else ret getNullNode);
            whenM (isValid expr)
              (clientUnit (AggregateCall (AcceptKeyedAggregateComponent keys expr loc))) });
          ret (True, True) }) }"

definition parseAggregate :: "('p, 'v) env \<Rightarrow> ('p, 'v, 'p node) pm \<Rightarrow> ('p, 'v, 'p node) pm" where
  "parseAggregate E pe = do {
     b \<leftarrow> currentTokenIs TKN_LPAREN;
     assertM ''parseAggregate'' b;
     loc0 \<leftarrow> ignoreToken;
     clientUnit (AggregateCall (BeginAggregate loc0));
     loopM E getInvalidNode (\<lambda>seenKeyedComponent. do {
       others \<leftarrow> currentTokenIs TKN_OTHERS;
       if others then do {
         loc \<leftarrow> curLocation;
         expr \<leftarrow> parseOthersExpr E pe;
         (if isValid expr then do {
            clientUnit (AggregateCall (AcceptAggregateOthers loc expr));
            _ \<leftarrow> requireToken TKN_RPAREN;
            ret () }
          else do { _ \<leftarrow> seekCloseParen E; ret () });
         result \<leftarrow> client E (AggregateCall EndAggregate);
         ret (Inr result) }
       else do {
         r \<leftarrow> parseAggregateComponent E pe seenKeyedComponent;
         (case r of (ok, seen) \<Rightarrow>
            if \<not> ok then ret (Inr getInvalidNode)
            else do {
              comma \<leftarrow> reduceToken TKN_COMMA;
              if comma then ret (Inl seen)
              else do {
                _ \<leftarrow> requireToken TKN_RPAREN;
                result \<leftarrow> client E (AggregateCall EndAggregate);
                ret (Inr result) } }) } }) False }"

definition parseParenExpr :: "('p, 'v) env \<Rightarrow> ('p, 'v, 'p node) pm \<Rightarrow> ('p, 'v, 'p node) pm" where
  "parseParenExpr E pe = do {
     b \<leftarrow> currentTokenIs TKN_LPAREN;
     assertM ''parseParenExpr'' b;
     aggregate \<leftarrow> aggregateFollows E;
     if aggregate then parseAggregate E pe
     else do {
       _ \<leftarrow> ignoreToken;
       result \<leftarrow> pe;
       closed \<leftarrow> reduceToken TKN_RPAREN;
       whenM (\<not> closed) (do {
         str \<leftarrow> currentTokenString;
         report UNEXPECTED_TOKEN_WANTED [str, '')''] });
       ret result } }"

definition parseQualifiedExpr ::
  "('p, 'v) env \<Rightarrow> ('p, 'v, 'p node) pm \<Rightarrow> 'p node \<Rightarrow> ('p, 'v, 'p node) pm" where
  "parseQualifiedExpr E pe qualifier = do {
     b \<leftarrow> qualificationFollows;
     assertM ''parseQualifiedExpr'' b;
     _ \<leftarrow> ignoreToken;
     operand \<leftarrow> parseParenExpr E pe;
     if isValid operand then client E (ExprCall (AcceptQualifiedExpr qualifier operand))
     else ret getInvalidNode }"

text \<open>The recovery after a qualifier that is not valid: past the quote and the parentheses.\<close>

definition skipQualified :: "('p, 'v) env \<Rightarrow> ('p, 'v, unit) pm" where
  "skipQualified E = do {
     _ \<leftarrow> ignoreToken;
     _ \<leftarrow> ignoreToken;
     _ \<leftarrow> seekCloseParen E;
     ret () }"

definition parseAllocatorExpr :: "('p, 'v) env \<Rightarrow> ('p, 'v, 'p node) pm \<Rightarrow> ('p, 'v, 'p node) pm" where
  "parseAllocatorExpr E pe = do {
     b \<leftarrow> currentTokenIs TKN_NEW;
     assertM ''parseAllocatorExpr'' b;
     loc \<leftarrow> ignoreToken;
     beginExcursion;
     haveQualifier \<leftarrow> andM (consumeName E) qualificationFollows;
     endExcursion;
     if haveQualifier then do {
       qualifier \<leftarrow> parseName E pe No_Option;
       if isInvalid qualifier then do {
         q \<leftarrow> qualificationFollows;
         whenM q (skipQualified E);
         ret getInvalidNode }
       else do {
         operand \<leftarrow> parseQualifiedExpr E pe qualifier;
         if isInvalid operand then ret getInvalidNode
         else client E (ExprCall (AcceptAllocatorExpr operand loc)) } }
     else do {
       operand \<leftarrow> parseSubtypeIndication E pe;
       if isInvalid operand then ret getInvalidNode
       else client E (ExprCall (AcceptAllocatorExpr operand loc)) } }"

definition parsePrimaryExpr :: "('p, 'v) env \<Rightarrow> ('p, 'v, 'p node) pm \<Rightarrow> ('p, 'v, 'p node) pm" where
  "parsePrimaryExpr E pe = do {
     c \<leftarrow> currentTokenCode;
     if c = TKN_LPAREN then parseParenExpr E pe
     else if c = TKN_INTEGER then parseIntegerLiteral E
     else if c = TKN_STRING then parseStringLiteral E
     else if c = TKN_NULL then do { loc \<leftarrow> ignoreToken; client E (ExprCall (AcceptNullExpr loc)) }
     else if c = TKN_NEW then parseAllocatorExpr E pe
     else do {
       name \<leftarrow> parseName E pe No_Option;
       q \<leftarrow> qualificationFollows;
       if q then
         (if isInvalid name then do { skipQualified E; ret getInvalidNode }
          else parseQualifiedExpr E pe name)
       else ret name } }"

section \<open>Operators\<close>

text \<open>
  The sequence that ends every operator: the operator's name is resolved, and applied to
  the operands, when the last operand is valid.
\<close>

definition applyOperator ::
  "('p, 'v) env \<Rightarrow> string option \<Rightarrow> location \<Rightarrow> 'p node list \<Rightarrow> ('p, 'v, 'p node) pm" where
  "applyOperator E opInfo loc args =
     (if isValid (last args) then do {
        pfx \<leftarrow> client E (NameCall (AcceptDirectName (the_default [] opInfo) loc False));
        if isValid pfx then client E (NameCall (AcceptApplication pfx args))
        else ret getInvalidNode }
      else ret getInvalidNode)"

primrec parseExponentialOperator ::
  "nat \<Rightarrow> ('p, 'v) env \<Rightarrow> ('p, 'v, 'p node) pm \<Rightarrow> ('p, 'v, 'p node) pm" where
  "parseExponentialOperator 0 E pe = do { halt OutOfFuel; ret getInvalidNode }"
| "parseExponentialOperator (Suc n) E pe = do {
     b \<leftarrow> currentTokenIs TKN_NOT;
     if b then do {
       loc \<leftarrow> curLocation;
       opInfo \<leftarrow> parseFunctionIdentifier;
       operand \<leftarrow> parsePrimaryExpr E pe;
       applyOperator E opInfo loc [operand] }
     else do {
       lhs \<leftarrow> parsePrimaryExpr E pe;
       if isInvalid lhs then ret getInvalidNode
       else do {
         pow \<leftarrow> currentTokenIs TKN_POW;
         if \<not> pow then ret lhs
         else do {
           loc \<leftarrow> curLocation;
           opInfo \<leftarrow> parseFunctionIdentifier;
           rhs \<leftarrow> parseExponentialOperator n E pe;
           applyOperator E opInfo loc [lhs, rhs] } } } }"

text \<open>
  The loop shared by the binary operators of one precedence: \<open>codes\<close> are its operators,
  \<open>operand\<close> the parser of the next level.
\<close>

definition binaryLoop ::
  "('p, 'v) env \<Rightarrow> code set \<Rightarrow> ('p, 'v, 'p node) pm \<Rightarrow> 'p node \<Rightarrow> ('p, 'v, 'p node) pm" where
  "binaryLoop E codes operand lhs0 = loopM E getInvalidNode (\<lambda>lhs.
     if \<not> isValid lhs then ret (Inr lhs)
     else do {
       c \<leftarrow> currentTokenCode;
       if c \<notin> codes then ret (Inr lhs)
       else do {
         loc \<leftarrow> curLocation;
         opInfo \<leftarrow> parseFunctionIdentifier;
         rhs \<leftarrow> operand;
         if isValid rhs then do {
           pfx \<leftarrow> client E (NameCall (AcceptDirectName (the_default [] opInfo) loc False));
           if isValid pfx then do {
             lhs' \<leftarrow> client E (NameCall (AcceptApplication pfx [lhs, rhs]));
             ret (Inl lhs') }
           else ret (Inr getInvalidNode) }
         else ret (Inr getInvalidNode) } }) lhs0"

definition parseMultiplicativeOperator ::
  "('p, 'v) env \<Rightarrow> ('p, 'v, 'p node) pm \<Rightarrow> ('p, 'v, 'p node) pm" where
  "parseMultiplicativeOperator E pe = do {
     lhs \<leftarrow> parseExponentialOperator (en_fuel E) E pe;
     binaryLoop E {TKN_STAR, TKN_FSLASH, TKN_MOD, TKN_REM} (parseExponentialOperator (en_fuel E) E pe) lhs }"

definition parseBinaryAdditiveOperator ::
  "('p, 'v) env \<Rightarrow> ('p, 'v, 'p node) pm \<Rightarrow> 'p node \<Rightarrow> ('p, 'v, 'p node) pm" where
  "parseBinaryAdditiveOperator E pe lhs =
     binaryLoop E {TKN_PLUS, TKN_MINUS} (parseMultiplicativeOperator E pe) lhs"

definition parseAdditiveOperator ::
  "('p, 'v) env \<Rightarrow> ('p, 'v, 'p node) pm \<Rightarrow> ('p, 'v, 'p node) pm" where
  "parseAdditiveOperator E pe = do {
     c \<leftarrow> currentTokenCode;
     if c = TKN_PLUS \<or> c = TKN_MINUS then do {
       loc \<leftarrow> curLocation;
       opInfo \<leftarrow> parseFunctionIdentifier;
       lhs \<leftarrow> parseMultiplicativeOperator E pe;
       if \<not> isValid lhs then ret getInvalidNode
       else do {
         pfx \<leftarrow> client E (NameCall (AcceptDirectName (the_default [] opInfo) loc False));
         lhs' \<leftarrow> (if isValid pfx then client E (NameCall (AcceptApplication pfx [lhs])) else ret lhs);
         parseBinaryAdditiveOperator E pe lhs' } }
     else do {
       lhs \<leftarrow> parseMultiplicativeOperator E pe;
       parseBinaryAdditiveOperator E pe lhs } }"

definition parseRelationalOperator ::
  "('p, 'v) env \<Rightarrow> ('p, 'v, 'p node) pm \<Rightarrow> ('p, 'v, 'p node) pm" where
  "parseRelationalOperator E pe = do {
     lhs \<leftarrow> parseAdditiveOperator E pe;
     binaryLoop E {TKN_EQUAL, TKN_NEQUAL, TKN_LESS, TKN_GREAT, TKN_LEQ, TKN_GEQ}
       (parseAdditiveOperator E pe) lhs }"

definition isLogicalCode :: "code \<Rightarrow> bool" where
  "isLogicalCode c \<longleftrightarrow> c = TKN_AND \<or> c = TKN_OR \<or> c = TKN_XOR"

text \<open>The recursion of the source is a loop over the left operand.\<close>

definition parseLogicalOperator ::
  "('p, 'v) env \<Rightarrow> ('p, 'v, 'p node) pm \<Rightarrow> code \<Rightarrow> 'p node \<Rightarrow> ('p, 'v, 'p node) pm" where
  "parseLogicalOperator E pe expectedKind lhs0 = loopM E getInvalidNode (\<lambda>lhs. do {
     c \<leftarrow> currentTokenCode;
     if c = expectedKind then do {
       loc \<leftarrow> curLocation;
       opInfo \<leftarrow> parseFunctionIdentifier;
       rhs \<leftarrow> parseRelationalOperator E pe;
       if isValid rhs then do {
         pfx \<leftarrow> client E (NameCall (AcceptDirectName (the_default [] opInfo) loc False));
         if isValid pfx then do {
           res \<leftarrow> client E (NameCall (AcceptApplication pfx [lhs, rhs]));
           ret (if isValid res then Inl res else Inr getInvalidNode) }
         else ret (Inr getInvalidNode) }
       else ret (Inr getInvalidNode) }
     else if isLogicalCode c then do {
       report MIXED_LOGICAL_OPERATORS [];
       ret (Inr getInvalidNode) }
     else ret (Inr lhs) }) lhs0"

definition parseOperatorExpr :: "('p, 'v) env \<Rightarrow> ('p, 'v, 'p node) pm \<Rightarrow> ('p, 'v, 'p node) pm" where
  "parseOperatorExpr E pe = do {
     lhs \<leftarrow> parseRelationalOperator E pe;
     if isInvalid lhs then ret getInvalidNode
     else do {
       currentKind \<leftarrow> currentTokenCode;
       if isLogicalCode currentKind then parseLogicalOperator E pe currentKind lhs
       else ret lhs } }"

primrec parseExprN :: "nat \<Rightarrow> ('p, 'v) env \<Rightarrow> ('p, 'v, 'p node) pm" where
  "parseExprN 0 E = do { halt OutOfFuel; ret getInvalidNode }"
| "parseExprN (Suc n) E = parseOperatorExpr E (parseExprN n E)"

definition parseExpr :: "('p, 'v) env \<Rightarrow> ('p, 'v, 'p node) pm" where
  "parseExpr E = parseExprN (en_fuel E) E"

end
