(* ===== verification/ParseDecl.thy ===== *)
theory ParseDecl
  imports ParseExpr
begin

text \<open>
  Declarations, from \<^verbatim>\<open>lib/parser/Parser.cpp\<close>: types and subtypes, objects, use clauses,
  the profiles of subroutines, and pragmas in a declarative part.
\<close>

section \<open>Types\<close>

definition parseEnumerationList :: "('p, 'v) env \<Rightarrow> ('p, 'v, unit) pm" where
  "parseEnumerationList E = do {
     b \<leftarrow> currentTokenIs TKN_LPAREN;
     assertM ''parseEnumerationList'' b;
     loc0 \<leftarrow> curLocation;
     _ \<leftarrow> ignoreToken;
     empty \<leftarrow> reduceToken TKN_RPAREN;
     if empty then reportAt loc0 EMPTY_ENUMERATION []
     else do {
       ok \<leftarrow> loopM E False (\<lambda>_. do {
         loc \<leftarrow> curLocation;
         chr \<leftarrow> currentTokenIs TKN_CHARACTER;
         if chr then do {
           name \<leftarrow> parseCharacter;
           clientUnit (TypeCall (AcceptEnumerationCharacter name loc));
           comma \<leftarrow> reduceToken TKN_COMMA;
           ret (if comma then Inl () else Inr True) }
         else do {
           name \<leftarrow> parseIdentifier;
           (case name of
              None \<Rightarrow> do { _ \<leftarrow> seekCloseParen E; ret (Inr False) }
            | Some nm \<Rightarrow> do {
                clientUnit (TypeCall (AcceptEnumerationIdentifier nm loc));
                comma \<leftarrow> reduceToken TKN_COMMA;
                ret (if comma then Inl () else Inr True) }) } }) ();
       whenM ok (do { _ \<leftarrow> requireToken TKN_RPAREN; ret () }) } }"

definition parseIntegerRange :: "('p, 'v) env \<Rightarrow> string \<Rightarrow> location \<Rightarrow> ('p, 'v, bool) pm" where
  "parseIntegerRange E name loc = do {
     b \<leftarrow> currentTokenIs TKN_RANGE;
     assertM ''parseIntegerRange'' b;
     _ \<leftarrow> ignoreToken;
     low \<leftarrow> parseExpr E;
     bad \<leftarrow> (if isInvalid low then ret True else notM (requireToken TKN_DDOT));
     if bad then do { _ \<leftarrow> seekSemi E; ret False }
     else do {
       high \<leftarrow> parseExpr E;
       if isInvalid high then do { _ \<leftarrow> seekSemi E; ret False }
       else do {
         clientUnit (TypeCall (AcceptIntegerTypeDecl name loc low high));
         ret True } } }"

definition parseModularInteger :: "('p, 'v) env \<Rightarrow> string \<Rightarrow> location \<Rightarrow> ('p, 'v, bool) pm" where
  "parseModularInteger E name loc = do {
     b \<leftarrow> currentTokenIs TKN_MOD;
     assertM ''parseModularInteger'' b;
     _ \<leftarrow> ignoreToken;
     modulus \<leftarrow> parseExpr E;
     if isInvalid modulus then do { _ \<leftarrow> seekSemi E; ret False }
     else do {
       clientUnit (TypeCall (AcceptModularTypeDecl name loc modulus));
       ret True } }"

text \<open>The indices are the vector the caller passed in, empty before the call.\<close>

definition parseArrayIndexProfile :: "('p, 'v) env \<Rightarrow> ('p, 'v, 'p node list) pm" where
  "parseArrayIndexProfile E = do {
     b \<leftarrow> currentTokenIs TKN_LPAREN;
     assertM ''parseArrayIndexProfile'' b;
     _ \<leftarrow> ignoreToken;
     empty \<leftarrow> reduceToken TKN_RPAREN;
     if empty then do { report EMPTY_ARRAY_TYPE_INDICES []; ret [] }
     else do {
       indices \<leftarrow> loopM E [] (\<lambda>indices. do {
         index \<leftarrow> parseDSTDefinition E (parseExpr E) True;
         whenM (\<not> isValid index) (do { _ \<leftarrow> seekTokens E [TKN_COMMA, TKN_RPAREN]; ret () });
         comma \<leftarrow> reduceToken TKN_COMMA;
         let indices' = (if isValid index then indices @ [index] else indices);
         ret (if comma then Inl indices' else Inr indices') }) [];
       closed \<leftarrow> requireToken TKN_RPAREN;
       whenM (\<not> closed) (do { _ \<leftarrow> seekCloseParen E; ret () });
       ret indices } }"

definition parseArrayTypeDecl :: "('p, 'v) env \<Rightarrow> string \<Rightarrow> location \<Rightarrow> ('p, 'v, bool) pm" where
  "parseArrayTypeDecl E name loc = do {
     b \<leftarrow> currentTokenIs TKN_ARRAY;
     assertM ''parseArrayTypeDecl'' b;
     _ \<leftarrow> ignoreToken;
     lparen \<leftarrow> currentTokenIs TKN_LPAREN;
     if \<not> lparen then ret False
     else do {
       indices \<leftarrow> parseArrayIndexProfile E;
       bad \<leftarrow> (if indices = [] then ret True else notM (requireToken TKN_OF));
       if bad then do { _ \<leftarrow> seekSemi E; ret False }
       else do {
         component \<leftarrow> parseName E (parseExpr E) No_Option;
         if isInvalid component then do { _ \<leftarrow> seekSemi E; ret False }
         else do {
           clientUnit (TypeCall (AcceptArrayDecl name loc indices component));
           ret True } } } }"

text \<open>The body of the component loop of a record, before its test.\<close>

definition parseRecordComponent :: "('p, 'v) env \<Rightarrow> ('p, 'v, unit) pm" where
  "parseRecordComponent E = do {
     null \<leftarrow> reduceToken TKN_NULL;
     if null then do { _ \<leftarrow> requireToken TKN_SEMI; ret () }
     else do {
       loc \<leftarrow> curLocation;
       componentName \<leftarrow> parseIdentifier;
       bad \<leftarrow> (if componentName = None then ret True else notM (requireToken TKN_COLON));
       (if bad then do { _ \<leftarrow> seekSemi E; ret () }
        else do {
          type \<leftarrow> parseName E (parseExpr E) No_Option;
          if isValid type
          then clientUnit (TypeCall (AcceptRecordComponent (the_default [] componentName) loc type))
          else do { _ \<leftarrow> seekSemi E; ret () } });
       _ \<leftarrow> requireToken TKN_SEMI;
       ret () } }"

definition parseRecordTypeDecl :: "('p, 'v) env \<Rightarrow> string \<Rightarrow> location \<Rightarrow> ('p, 'v, bool) pm" where
  "parseRecordTypeDecl E name loc = do {
     c \<leftarrow> currentTokenCode;
     assertM ''parseRecordTypeDecl'' (c = TKN_RECORD \<or> c = TKN_NULL);
     clientUnit (TypeCall (BeginRecord name loc));
     nullRecord \<leftarrow> andM (currentTokenIs TKN_NULL) (nextTokenIs TKN_RECORD);
     if nullRecord then do {
       _ \<leftarrow> ignoreToken;
       _ \<leftarrow> ignoreToken;
       clientUnit (TypeCall EndRecord);
       ret True }
     else do {
       _ \<leftarrow> ignoreToken;
       loopM E () (\<lambda>_. do {
         parseRecordComponent E;
         c \<leftarrow> currentTokenCode;
         ret (if c \<noteq> TKN_END \<and> c \<noteq> TKN_EOT then Inl () else Inr ()) }) ();
       clientUnit (TypeCall EndRecord);
       andM (requireToken TKN_END) (requireToken TKN_RECORD) } }"

definition parseAccessTypeDecl :: "('p, 'v) env \<Rightarrow> string \<Rightarrow> location \<Rightarrow> ('p, 'v, bool) pm" where
  "parseAccessTypeDecl E name loc = do {
     b \<leftarrow> currentTokenIs TKN_ACCESS;
     assertM ''parseAccessTypeDecl'' b;
     _ \<leftarrow> ignoreToken;
     subtypeNode \<leftarrow> parseName E (parseExpr E) No_Option;
     if isInvalid subtypeNode then ret False
     else do {
       clientUnit (TypeCall (AcceptAccessTypeDecl name loc subtypeNode));
       ret True } }"

definition parsePrivateTypeDecl :: "('p, 'v) env \<Rightarrow> string \<Rightarrow> location \<Rightarrow> ('p, 'v, bool) pm" where
  "parsePrivateTypeDecl E name loc = do {
     limited \<leftarrow> reduceToken TKN_LIMITED;
     let typeTag = (if limited then LimitedTypeTag else 0);
     private \<leftarrow> requireToken TKN_PRIVATE;
     if \<not> private then do { _ \<leftarrow> seekSemi E; ret False }
     else do {
       clientUnit (TypeCall (AcceptPrivateTypeDecl name loc typeTag));
       ret True } }"

definition parseTypeDefinition :: "('p, 'v) env \<Rightarrow> string \<Rightarrow> location \<Rightarrow> ('p, 'v, bool) pm" where
  "parseTypeDefinition E name loc = do {
     c \<leftarrow> currentTokenCode;
     if c = TKN_LPAREN then do {
       clientUnit (TypeCall (BeginEnumeration name loc));
       parseEnumerationList E;
       clientUnit (TypeCall EndEnumeration);
       ret True }
     else if c = TKN_RANGE then parseIntegerRange E name loc
     else if c = TKN_MOD then parseModularInteger E name loc
     else if c = TKN_ARRAY then parseArrayTypeDecl E name loc
     else if c = TKN_RECORD \<or> c = TKN_NULL then parseRecordTypeDecl E name loc
     else if c = TKN_ACCESS then parseAccessTypeDecl E name loc
     else if c = TKN_LIMITED \<or> c = TKN_PRIVATE then parsePrivateTypeDecl E name loc
     else do {
       str \<leftarrow> currentTokenString;
       report UNEXPECTED_TOKEN [str];
       _ \<leftarrow> seekSemi E;
       ret False } }"

definition parseType :: "('p, 'v) env \<Rightarrow> ('p, 'v, bool) pm" where
  "parseType E = do {
     b \<leftarrow> currentTokenIs TKN_TYPE;
     assertM ''parseType'' b;
     _ \<leftarrow> ignoreToken;
     loc \<leftarrow> curLocation;
     name \<leftarrow> parseIdentifier;
     (case name of
        None \<Rightarrow> ret False
      | Some nm \<Rightarrow> do {
          semi \<leftarrow> currentTokenIs TKN_SEMI;
          if semi then do {
            clientUnit (TypeCall (AcceptIncompleteTypeDecl nm loc));
            ret True }
          else do {
            isTkn \<leftarrow> requireToken TKN_IS;
            if \<not> isTkn then ret False else parseTypeDefinition E nm loc } }) }"

definition parseSubtypeRange :: "('p, 'v) env \<Rightarrow> string \<Rightarrow> location \<Rightarrow> 'p node \<Rightarrow> ('p, 'v, bool) pm" where
  "parseSubtypeRange E name loc subtype = do {
     range \<leftarrow> requireToken TKN_RANGE;
     if range then do {
       low \<leftarrow> parseExpr E;
       bad \<leftarrow> (if isInvalid low then ret True else notM (requireToken TKN_DDOT));
       if bad then do { _ \<leftarrow> seekSemi E; ret False }
       else do {
         high \<leftarrow> parseExpr E;
         if isInvalid high then do { _ \<leftarrow> seekSemi E; ret False }
         else do {
           clientUnit (TypeCall (AcceptRangedSubtypeDecl name loc subtype low high));
           ret True } } }
     else do { _ \<leftarrow> seekSemi E; ret False } }"

definition parseSubtype :: "('p, 'v) env \<Rightarrow> ('p, 'v, bool) pm" where
  "parseSubtype E = do {
     b \<leftarrow> currentTokenIs TKN_SUBTYPE;
     assertM ''parseSubtype'' b;
     _ \<leftarrow> ignoreToken;
     loc \<leftarrow> curLocation;
     name \<leftarrow> parseIdentifier;
     bad \<leftarrow> (if name = None then ret True else notM (requireToken TKN_IS));
     if bad then do { _ \<leftarrow> seekSemi E; ret False }
     else do {
       subtype \<leftarrow> parseName E (parseExpr E) No_Option;
       if isInvalid subtype then do { _ \<leftarrow> seekSemi E; ret False }
       else do {
         semi \<leftarrow> currentTokenIs TKN_SEMI;
         if semi then do {
           clientUnit (TypeCall (AcceptSubtypeDecl (the_default [] name) loc subtype));
           ret True }
         else parseSubtypeRange E (the_default [] name) loc subtype } } }"

section \<open>Objects and use clauses\<close>

text \<open>The declaration after its subtype, and whether it was accepted.\<close>

definition parseObjectTail :: "('p, 'v) env \<Rightarrow> location \<Rightarrow> string \<Rightarrow> 'p node \<Rightarrow> ('p, 'v, bool) pm" where
  "parseObjectTail E loc idn subtype = do {
     renames \<leftarrow> reduceToken TKN_RENAMES;
     if renames then do {
       target \<leftarrow> parseName E (parseExpr E) No_Option;
       if isValid target then do {
         _ \<leftarrow> clientBool E (UnitCall (AcceptRenamedObjectDeclaration loc idn subtype target));
         ret True }
       else ret False }
     else do {
       assign \<leftarrow> reduceToken TKN_ASSIGN;
       init \<leftarrow> (if assign then parseExpr E else ret getNullNode);
       if isValid init then do {
         _ \<leftarrow> clientBool E (UnitCall (AcceptObjectDeclaration loc idn subtype init));
         ret True }
       else ret False } }"

definition parseObjectDeclaration :: "('p, 'v) env \<Rightarrow> ('p, 'v, bool) pm" where
  "parseObjectDeclaration E = do {
     b \<leftarrow> currentTokenIs TKN_IDENTIFIER;
     assertM ''parseObjectDeclaration'' b;
     loc \<leftarrow> curLocation;
     idn \<leftarrow> parseIdentifier;
     ok \<leftarrow> (if idn \<noteq> None then requireToken TKN_COLON else ret False);
     if \<not> ok then do { _ \<leftarrow> seekAndConsumeToken E TKN_SEMI; ret False }
     else do {
       subtype \<leftarrow> parseSubtypeIndication E (parseExpr E);
       accepted \<leftarrow> (if isValid subtype then parseObjectTail E loc (the_default [] idn) subtype else ret False);
       if accepted then ret True
       else do { _ \<leftarrow> seekToken E TKN_SEMI; ret False } } }"

definition parseUseDeclaration :: "('p, 'v) env \<Rightarrow> ('p, 'v, bool) pm" where
  "parseUseDeclaration E = do {
     b \<leftarrow> currentTokenIs TKN_USE;
     assertM ''parseUseDeclaration'' b;
     _ \<leftarrow> ignoreToken;
     usedType \<leftarrow> parseName E (parseExpr E) No_Option;
     if isValid usedType then do {
       _ \<leftarrow> clientBool E (UnitCall (AcceptUseDeclaration usedType));
       ret True }
     else ret False }"

section \<open>Subroutine declarations\<close>

definition parseParameterMode :: "('p, 'v, parameterMode) pm" where
  "parseParameterMode = do {
     inTkn \<leftarrow> reduceToken TKN_IN;
     if inTkn then do {
       outTkn \<leftarrow> reduceToken TKN_OUT;
       ret (if outTkn then MODE_IN_OUT else MODE_IN) }
     else do {
       outTkn \<leftarrow> reduceToken TKN_OUT;
       if outTkn then do {
         inFollows \<leftarrow> currentTokenIs TKN_IN;
         if inFollows then do {
           report OUT_IN_PARAMETER_MODE [];
           _ \<leftarrow> ignoreToken;
           ret MODE_IN_OUT }
         else ret MODE_OUT }
       else ret MODE_DEFAULT } }"

definition parseSubroutineParameter :: "('p, 'v) env \<Rightarrow> ('p, 'v, bool) pm" where
  "parseSubroutineParameter E = do {
     loc \<leftarrow> curLocation;
     formal \<leftarrow> parseIdentifier;
     (case formal of
        None \<Rightarrow> ret False
      | Some name \<Rightarrow> do {
          colon \<leftarrow> requireToken TKN_COLON;
          if \<not> colon then ret False
          else do {
            mode \<leftarrow> parseParameterMode;
            type \<leftarrow> parseName E (parseExpr E) No_Option;
            if isInvalid type then ret False
            else do {
              clientUnit (UnitCall (AcceptSubroutineParameter name loc type mode));
              ret True } } }) }"

definition parseSubroutineParameters :: "('p, 'v) env \<Rightarrow> ('p, 'v, unit) pm" where
  "parseSubroutineParameters E = do {
     b \<leftarrow> currentTokenIs TKN_LPAREN;
     assertM ''parseSubroutineParameters'' b;
     empty \<leftarrow> unitExprFollows;
     if empty then do {
       report EMPTY_PARAMS [];
       _ \<leftarrow> ignoreToken;
       _ \<leftarrow> ignoreToken;
       ret () }
     else do {
       _ \<leftarrow> ignoreToken;
       loopM E () (\<lambda>_. do {
         ok \<leftarrow> parseSubroutineParameter E;
         whenM (\<not> ok) (do { _ \<leftarrow> seekTokens E [TKN_SEMI, TKN_RPAREN]; ret () });
         c \<leftarrow> currentTokenCode;
         if c = TKN_COMMA then do {
           report UNEXPECTED_TOKEN_WANTED ['','', '';''];
           _ \<leftarrow> ignoreToken;
           ret (Inl ()) }
         else if c = TKN_SEMI then do { _ \<leftarrow> ignoreToken; ret (Inl ()) }
         else if c = TKN_RPAREN then do { _ \<leftarrow> ignoreToken; ret (Inr ()) }
         else do {
           str \<leftarrow> currentTokenString;
           report UNEXPECTED_TOKEN [str];
           closed \<leftarrow> seekCloseParen E;
           whenM closed (do { _ \<leftarrow> ignoreToken; ret () });
           ret (Inr ()) } }) () } }"

definition pushEndTag :: "location \<Rightarrow> string \<Rightarrow> ('p, 'v, unit) pm" where
  "pushEndTag loc name = State_Monad.update (\<lambda>s.
     s\<lparr>ps_endtags := \<lparr>et_location = loc, et_tag = name\<rparr> # ps_endtags s\<rparr>)"

text \<open>\<open>top\<close> and \<open>pop\<close>; on an empty stack they are undefined.\<close>

definition popEndTag :: "('p, 'v, string) pm" where
  "popEndTag = do {
     s \<leftarrow> State_Monad.get;
     (case ps_endtags s of
        [] \<Rightarrow> do { halt EmptyEndTagStack; ret [] }
      | t # ts \<Rightarrow> do { State_Monad.set (s\<lparr>ps_endtags := ts\<rparr>); ret (et_tag t) }) }"

definition parseReturnType :: "('p, 'v) env \<Rightarrow> ('p, 'v, 'p node) pm" where
  "parseReturnType E = do {
     returns \<leftarrow> reduceToken TKN_RETURN;
     if returns then do {
       returnNode \<leftarrow> parseName E (parseExpr E) No_Option;
       if isInvalid returnNode then do {
         _ \<leftarrow> seekTokens E [TKN_SEMI, TKN_IS];
         ret getNullNode }
       else ret returnNode }
     else do {
       report MISSING_RETURN_AFTER_FUNCTION [];
       ret getNullNode } }"

definition parseFunctionDeclaration :: "('p, 'v) env \<Rightarrow> ('p, 'v, 'p node) pm" where
  "parseFunctionDeclaration E = do {
     b \<leftarrow> currentTokenIs TKN_FUNCTION;
     assertM ''parseFunctionDeclaration'' b;
     _ \<leftarrow> ignoreToken;
     loc \<leftarrow> curLocation;
     name \<leftarrow> parseFunctionIdentifier;
     (case name of
        None \<Rightarrow> ret getInvalidNode
      | Some nm \<Rightarrow> do {
          clientUnit (UnitCall (BeginFunctionDeclaration nm loc));
          lparen \<leftarrow> currentTokenIs TKN_LPAREN;
          whenM lparen (parseSubroutineParameters E);
          returnNode \<leftarrow> parseReturnType E;
          clientUnit (UnitCall (AcceptFunctionReturnType returnNode));
          c \<leftarrow> currentTokenCode;
          let bodyFollows = (c = TKN_IS \<or> c = TKN_BEGIN);
          whenM bodyFollows (pushEndTag loc nm);
          client E (UnitCall (EndSubroutineDeclaration bodyFollows)) }) }"

definition parseProcedureDeclaration :: "('p, 'v) env \<Rightarrow> ('p, 'v, 'p node) pm" where
  "parseProcedureDeclaration E = do {
     b \<leftarrow> currentTokenIs TKN_PROCEDURE;
     assertM ''parseProcedureDeclaration'' b;
     _ \<leftarrow> ignoreToken;
     loc \<leftarrow> curLocation;
     name \<leftarrow> parseIdentifier;
     (case name of
        None \<Rightarrow> ret getInvalidNode
      | Some nm \<Rightarrow> do {
          clientUnit (UnitCall (BeginProcedureDeclaration nm loc));
          lparen \<leftarrow> currentTokenIs TKN_LPAREN;
          whenM lparen (parseSubroutineParameters E);
          returns \<leftarrow> currentTokenIs TKN_RETURN;
          whenM returns (do {
            report RETURN_AFTER_PROCEDURE [];
            _ \<leftarrow> seekTokens E [TKN_SEMI, TKN_IS];
            ret () });
          bodyFollows \<leftarrow> currentTokenIs TKN_IS;
          whenM bodyFollows (pushEndTag loc nm);
          client E (UnitCall (EndSubroutineDeclaration bodyFollows)) }) }"

section \<open>Declarations\<close>

definition parseDeclaration :: "('p, 'v) env \<Rightarrow> ('p, 'v, bool) pm" where
  "parseDeclaration E = do {
     c \<leftarrow> currentTokenCode;
     if c = TKN_IDENTIFIER then parseObjectDeclaration E
     else if c = TKN_FUNCTION then do { n \<leftarrow> parseFunctionDeclaration E; ret (isValid n) }
     else if c = TKN_PROCEDURE then do { n \<leftarrow> parseProcedureDeclaration E; ret (isValid n) }
     else if c = TKN_USE then parseUseDeclaration E
     else if c = TKN_TYPE then parseType E
     else if c = TKN_SUBTYPE then parseSubtype E
     else do {
       str \<leftarrow> currentTokenString;
       report UNEXPECTED_TOKEN [str];
       _ \<leftarrow> seekToken E TKN_SEMI;
       ret False } }"

section \<open>Pragmas\<close>

definition parsePragmaImport :: "('p, 'v) env \<Rightarrow> location \<Rightarrow> ('p, 'v, unit) pm" where
  "parsePragmaImport E pragmaLoc = do {
     lparen \<leftarrow> requireToken TKN_LPAREN;
     if \<not> lparen then ret ()
     else do {
       conventionLoc \<leftarrow> curLocation;
       conventionName \<leftarrow> parseIdentifier;
       bad \<leftarrow> (if conventionName = None then ret True else notM (requireToken TKN_COMMA));
       if bad then do { _ \<leftarrow> seekCloseParen E; ret () }
       else do {
         entityLoc \<leftarrow> curLocation;
         entityName \<leftarrow> parseFunctionIdentifier;
         bad \<leftarrow> (if entityName = None then ret True else notM (requireToken TKN_COMMA));
         if bad then do { _ \<leftarrow> seekCloseParen E; ret () }
         else do {
           externalName \<leftarrow> parseExpr E;
           bad \<leftarrow> (if isInvalid externalName then ret True else notM (requireToken TKN_RPAREN));
           if bad then do { _ \<leftarrow> seekCloseParen E; ret () }
           else clientUnit (UnitCall (AcceptPragmaImport pragmaLoc
                  (the_default [] conventionName) conventionLoc
                  (the_default [] entityName) entityLoc externalName)) } } } }"

definition parseDeclarationPragma :: "('p, 'v) env \<Rightarrow> ('p, 'v, unit) pm" where
  "parseDeclarationPragma E = do {
     b \<leftarrow> currentTokenIs TKN_PRAGMA;
     assertM ''parseDeclarationPragma'' b;
     _ \<leftarrow> ignoreToken;
     loc \<leftarrow> curLocation;
     name \<leftarrow> parseIdentifier;
     (case name of
        None \<Rightarrow> ret ()
      | Some nm \<Rightarrow>
          let ID = getPragmaID nm in
          if ID = UNKNOWN_PRAGMA then reportAt loc DIAG_UNKNOWN_PRAGMA [nm]
          else if ID = Pragma_Import then parsePragmaImport E loc
          else reportAt loc INVALID_PRAGMA_CONTEXT [nm]) }"

end
