(* ===== verification/ParseStmt.thy ===== *)
theory ParseStmt
  imports ParseDecl
begin

text \<open>
  Statements, from \<^verbatim>\<open>lib/parser/ParseStmt.cpp\<close>.

  Compound statements hold statements; the functions take the parser of statements \<open>pst\<close>
  as a parameter, \<open>parseStatementN\<close> runs so many levels of nesting, and \<open>parseStatement\<close> is
  the one with the fuel of the environment.
\<close>

section \<open>Simple statements\<close>

definition parseProcedureCallStatement :: "('p, 'v) env \<Rightarrow> ('p, 'v, 'p node) pm" where
  "parseProcedureCallStatement E = do {
     name \<leftarrow> parseName E (parseExpr E) Statement_Name;
     if isValid name then client E (StmtCall (AcceptProcedureCall name))
     else ret getInvalidNode }"

definition parseReturnStmt :: "('p, 'v) env \<Rightarrow> ('p, 'v, 'p node) pm" where
  "parseReturnStmt E = do {
     b \<leftarrow> currentTokenIs TKN_RETURN;
     assertM ''parseReturnStmt'' b;
     loc \<leftarrow> ignoreToken;
     semi \<leftarrow> currentTokenIs TKN_SEMI;
     if semi then client E (StmtCall (AcceptEmptyReturnStmt loc))
     else do {
       expr \<leftarrow> parseExpr E;
       if isValid expr then client E (StmtCall (AcceptReturnStmt loc expr))
       else do { _ \<leftarrow> seekSemi E; ret getInvalidNode } } }"

definition parseAssignmentStmt :: "('p, 'v) env \<Rightarrow> ('p, 'v, 'p node) pm" where
  "parseAssignmentStmt E = do {
     b \<leftarrow> assignmentFollows E;
     assertM ''parseAssignmentStmt'' b;
     target \<leftarrow> parseName E (parseExpr E) No_Option;
     if isInvalid target then do { _ \<leftarrow> seekSemi E; ret getInvalidNode }
     else do {
       _ \<leftarrow> ignoreToken;
       val \<leftarrow> parseExpr E;
       if isValid val then client E (StmtCall (AcceptAssignmentStmt target val))
       else do { _ \<leftarrow> seekSemi E; ret getInvalidNode } } }"

definition parseExitStmt :: "('p, 'v) env \<Rightarrow> ('p, 'v, 'p node) pm" where
  "parseExitStmt E = do {
     b \<leftarrow> currentTokenIs TKN_EXIT;
     assertM ''parseExitStmt'' b;
     exitLoc \<leftarrow> ignoreToken;
     named \<leftarrow> currentTokenIs TKN_IDENTIFIER;
     nameLoc \<leftarrow> (if named then curLocation else ret Location0);
     name \<leftarrow> (if named then parseIdentifier else ret None);
     guarded \<leftarrow> reduceToken TKN_WHEN;
     condition \<leftarrow> (if guarded then parseExpr E else ret getNullNode);
     if isInvalid condition then do { _ \<leftarrow> seekSemi E; ret getInvalidNode }
     else client E (StmtCall (AcceptExitStmt exitLoc name nameLoc condition)) }"

definition parsePragmaAssert :: "('p, 'v) env \<Rightarrow> string \<Rightarrow> location \<Rightarrow> ('p, 'v, 'p node) pm" where
  "parsePragmaAssert E name loc = do {
     lparen \<leftarrow> requireToken TKN_LPAREN;
     if lparen then do {
       condition \<leftarrow> parseExpr E;
       if isInvalid condition then do { _ \<leftarrow> seekToken E TKN_RPAREN; ret getInvalidNode }
       else do {
         comma \<leftarrow> reduceToken TKN_COMMA;
         message \<leftarrow> (if comma then parseExpr E else ret getNullNode);
         if isInvalid message then do { _ \<leftarrow> seekToken E TKN_RPAREN; ret getInvalidNode }
         else do {
           closed \<leftarrow> requireToken TKN_RPAREN;
           if \<not> closed then do { _ \<leftarrow> seekToken E TKN_RPAREN; ret getInvalidNode }
           else client E (StmtCall (AcceptPragmaStmt name loc
                  (if comma then [condition, message] else [condition]))) } } }
     else do { _ \<leftarrow> seekSemi E; ret getInvalidNode } }"

definition parsePragmaStmt :: "('p, 'v) env \<Rightarrow> ('p, 'v, 'p node) pm" where
  "parsePragmaStmt E = do {
     b \<leftarrow> currentTokenIs TKN_PRAGMA;
     assertM ''parsePragmaStmt'' b;
     _ \<leftarrow> ignoreToken;
     loc \<leftarrow> curLocation;
     name \<leftarrow> parseIdentifier;
     (case name of
        None \<Rightarrow> do { _ \<leftarrow> seekSemi E; ret getInvalidNode }
      | Some nm \<Rightarrow>
          let ID = getPragmaID nm in
          if ID = UNKNOWN_PRAGMA then do {
            reportAt loc DIAG_UNKNOWN_PRAGMA [nm];
            _ \<leftarrow> seekSemi E;
            ret getInvalidNode }
          else if ID = Pragma_Assert then parsePragmaAssert E nm loc
          else do {
            _ \<leftarrow> seekSemi E;
            reportAt loc INVALID_PRAGMA_CONTEXT [nm];
            ret getInvalidNode }) }"

definition parseRaiseStmt :: "('p, 'v) env \<Rightarrow> ('p, 'v, 'p node) pm" where
  "parseRaiseStmt E = do {
     b \<leftarrow> currentTokenIs TKN_RAISE;
     assertM ''parseRaiseStmt'' b;
     raiseLoc \<leftarrow> ignoreToken;
     exn \<leftarrow> parseName E (parseExpr E) No_Option;
     if isInvalid exn then do { _ \<leftarrow> seekSemi E; ret getInvalidNode }
     else do {
       withTkn \<leftarrow> reduceToken TKN_WITH;
       message \<leftarrow> (if withTkn then parseExpr E else ret getNullNode);
       if isInvalid message then do { _ \<leftarrow> seekSemi E; ret getInvalidNode }
       else client E (StmtCall (AcceptRaiseStmt raiseLoc exn message)) } }"

section \<open>Sequences of statements\<close>

text \<open>
  The two loops over statements of the source.  \<open>stmtSeq\<close> is the one that collects the valid
  statements, \<open>stmtsInto\<close> the one that hands each of them to the client with its context;
  both end at one of the given codes or at the end of the text, and run at least once.
\<close>

definition stmtSeq ::
  "('p, 'v) env \<Rightarrow> ('p, 'v, 'p node) pm \<Rightarrow> code set \<Rightarrow> ('p, 'v, 'p node list) pm" where
  "stmtSeq E pst stops = loopM E [] (\<lambda>stmts. do {
     stmt \<leftarrow> pst;
     let stmts' = (if isValid stmt then stmts @ [stmt] else stmts);
     c \<leftarrow> currentTokenCode;
     ret (if c \<notin> stops \<and> c \<noteq> TKN_EOT then Inl stmts' else Inr stmts') }) []"

definition acceptStmtInto :: "('p, 'v) env \<Rightarrow> 'p node \<Rightarrow> 'p node \<Rightarrow> ('p, 'v, unit) pm" where
  "acceptStmtInto E context stmt =
     whenM (isValid stmt) (do { _ \<leftarrow> clientBool E (StmtCall (AcceptStmt context stmt)); ret () })"

definition stmtsInto ::
  "('p, 'v) env \<Rightarrow> ('p, 'v, 'p node) pm \<Rightarrow> code set \<Rightarrow> 'p node \<Rightarrow> ('p, 'v, unit) pm" where
  "stmtsInto E pst stops context = loopM E () (\<lambda>_. do {
     stmt \<leftarrow> pst;
     acceptStmtInto E context stmt;
     c \<leftarrow> currentTokenCode;
     ret (if c \<notin> stops \<and> c \<noteq> TKN_EOT then Inl () else Inr ()) }) ()"

text \<open>The \<^verbatim>\<open>while\<close> form, which tests first.\<close>

definition stmtsWhile ::
  "('p, 'v) env \<Rightarrow> ('p, 'v, 'p node) pm \<Rightarrow> code set \<Rightarrow> 'p node \<Rightarrow> ('p, 'v, unit) pm" where
  "stmtsWhile E pst stops context = loopM E () (\<lambda>_. do {
     c \<leftarrow> currentTokenCode;
     if c \<notin> stops \<and> c \<noteq> TKN_EOT then do {
       stmt \<leftarrow> pst;
       acceptStmtInto E context stmt;
       ret (Inl ()) }
     else ret (Inr ()) }) ()"

section \<open>Conditionals\<close>

text \<open>The condition of an \<^verbatim>\<open>if\<close> or \<^verbatim>\<open>elsif\<close> with the \<^verbatim>\<open>then\<close> after it: \<open>None\<close> when it failed.\<close>

definition parseCondition :: "('p, 'v) env \<Rightarrow> ('p, 'v, 'p node option) pm" where
  "parseCondition E = do {
     condition \<leftarrow> parseExpr E;
     bad \<leftarrow> (if isInvalid condition then ret True else notM (requireToken TKN_THEN));
     if bad then do { _ \<leftarrow> seekEndIf E; ret None }
     else ret (Some condition) }"

text \<open>The loop over the \<^verbatim>\<open>elsif\<close> parts: \<open>None\<close> is the return of an invalid node.\<close>

definition parseElsifs ::
  "('p, 'v) env \<Rightarrow> ('p, 'v, 'p node) pm \<Rightarrow> 'p node \<Rightarrow> ('p, 'v, 'p node option) pm" where
  "parseElsifs E pst = loopM E None (\<lambda>result. do {
     elsif \<leftarrow> currentTokenIs TKN_ELSIF;
     if \<not> elsif then ret (Inr (Some result))
     else do {
       loc \<leftarrow> ignoreToken;
       condition \<leftarrow> parseCondition E;
       (case condition of
          None \<Rightarrow> ret (Inr None)
        | Some cond \<Rightarrow> do {
            stmts \<leftarrow> stmtSeq E pst {TKN_END, TKN_ELSE, TKN_ELSIF};
            result' \<leftarrow> client E (StmtCall (AcceptElsifStmt loc result cond stmts));
            if isInvalid result' then do { _ \<leftarrow> seekEndIf E; ret (Inr None) }
            else ret (Inl result') }) } })"

definition parseElse ::
  "('p, 'v) env \<Rightarrow> ('p, 'v, 'p node) pm \<Rightarrow> 'p node \<Rightarrow> ('p, 'v, 'p node) pm" where
  "parseElse E pst result = do {
     elseTkn \<leftarrow> currentTokenIs TKN_ELSE;
     if elseTkn then do {
       loc \<leftarrow> ignoreToken;
       stmts \<leftarrow> stmtSeq E pst {TKN_END};
       client E (StmtCall (AcceptElseStmt loc result stmts)) }
     else ret result }"

definition parseIfStmt :: "('p, 'v) env \<Rightarrow> ('p, 'v, 'p node) pm \<Rightarrow> ('p, 'v, 'p node) pm" where
  "parseIfStmt E pst = do {
     b \<leftarrow> currentTokenIs TKN_IF;
     assertM ''parseIfStmt'' b;
     loc \<leftarrow> ignoreToken;
     condition \<leftarrow> parseCondition E;
     (case condition of
        None \<Rightarrow> ret getInvalidNode
      | Some cond \<Rightarrow> do {
          stmts \<leftarrow> stmtSeq E pst {TKN_END, TKN_ELSE, TKN_ELSIF};
          result \<leftarrow> client E (StmtCall (AcceptIfStmt loc cond stmts));
          if isInvalid result then do { _ \<leftarrow> seekEndIf E; ret getInvalidNode }
          else do {
            r \<leftarrow> parseElsifs E pst result;
            (case r of
               None \<Rightarrow> ret getInvalidNode
             | Some result' \<Rightarrow> do {
                 result'' \<leftarrow> parseElse E pst result';
                 ended \<leftarrow> andM (requireToken TKN_END) (requireToken TKN_IF);
                 ret (if ended then result'' else getInvalidNode) }) } }) }"

section \<open>Blocks and handlers\<close>

text \<open>
  The choices of a handler: \<open>None\<close> is a return after an error; otherwise the choices and
  the location of an \<^verbatim>\<open>others\<close>.
\<close>

definition parseChoices ::
  "('p, 'v) env \<Rightarrow> ('p, 'v, ('p node list \<times> location option) option) pm" where
  "parseChoices E = loopM E None (\<lambda>choices. do {
     choiceLoc \<leftarrow> curLocation;
     others \<leftarrow> reduceToken TKN_OTHERS;
     if others then
       (if choices \<noteq> [] then do {
          reportAt choiceLoc OTHERS_HANDLER_NOT_UNIQUE [];
          _ \<leftarrow> seekToken E TKN_END;
          ret (Inr None) }
        else ret (Inr (Some (choices, Some choiceLoc))))
     else do {
       exn \<leftarrow> parseName E (parseExpr E) No_Option;
       if isValid exn then do {
         bar \<leftarrow> reduceToken TKN_BAR;
         ret (if bar then Inl (choices @ [exn]) else Inr (Some (choices @ [exn], None))) }
       else do { _ \<leftarrow> seekToken E TKN_END; ret (Inr None) } } }) []"

text \<open>One handler; the accumulator is the location of the \<^verbatim>\<open>others\<close> choice seen before.\<close>

definition parseHandler ::
  "('p, 'v) env \<Rightarrow> ('p, 'v, 'p node) pm \<Rightarrow> 'p node \<Rightarrow> location option
     \<Rightarrow> ('p, 'v, location option + unit) pm" where
  "parseHandler E pst context seenOthers = do {
     loc \<leftarrow> curLocation;
     whenTkn \<leftarrow> requireToken TKN_WHEN;
     if \<not> whenTkn then do { _ \<leftarrow> seekToken E TKN_END; ret (Inr ()) }
     else (case seenOthers of
       Some othersLoc \<Rightarrow> do {
         reportAt othersLoc OTHERS_HANDLER_NOT_FINAL [];
         _ \<leftarrow> seekToken E TKN_END;
         ret (Inr ()) }
     | None \<Rightarrow> do {
         r \<leftarrow> parseChoices E;
         (case r of
            None \<Rightarrow> ret (Inr ())
          | Some (choices, others) \<Rightarrow> do {
              arrow \<leftarrow> requireToken TKN_RDARROW;
              if \<not> arrow then do { _ \<leftarrow> seekToken E TKN_END; ret (Inr ()) }
              else do {
                handler \<leftarrow> client E (BlockCall (BeginHandlerStmt loc choices));
                if isInvalid handler then do { _ \<leftarrow> seekToken E TKN_END; ret (Inr ()) }
                else do {
                  stmtsInto E pst {TKN_WHEN, TKN_END} handler;
                  clientUnit (BlockCall (EndHandlerStmt context handler));
                  more \<leftarrow> currentTokenIs TKN_WHEN;
                  ret (if more then Inl others else Inr ()) } } }) }) }"

definition parseExceptionStmt ::
  "('p, 'v) env \<Rightarrow> ('p, 'v, 'p node) pm \<Rightarrow> 'p node \<Rightarrow> ('p, 'v, unit) pm" where
  "parseExceptionStmt E pst context = do {
     b \<leftarrow> currentTokenIs TKN_EXCEPTION;
     assertM ''parseExceptionStmt'' b;
     _ \<leftarrow> ignoreToken;
     loopM E () (parseHandler E pst context) None }"

definition blockDeclarations :: "('p, 'v) env \<Rightarrow> ('p, 'v, unit) pm" where
  "blockDeclarations E = loopM E () (\<lambda>_. do {
     c \<leftarrow> currentTokenCode;
     if c \<noteq> TKN_BEGIN \<and> c \<noteq> TKN_EOT then do {
       _ \<leftarrow> parseDeclaration E;
       _ \<leftarrow> requireToken TKN_SEMI;
       ret (Inl ()) }
     else ret (Inr ()) }) ()"

definition parseBlockStmt ::
  "('p, 'v) env \<Rightarrow> ('p, 'v, 'p node) pm \<Rightarrow> string option \<Rightarrow> location \<Rightarrow> ('p, 'v, 'p node) pm" where
  "parseBlockStmt E pst tag loc0 = do {
     loc \<leftarrow> (if tag = None then curLocation else ret loc0);
     block \<leftarrow> client E (BlockCall (BeginBlockStmt loc tag));
     declare \<leftarrow> reduceToken TKN_DECLARE;
     whenM declare (blockDeclarations E);
     beginTkn \<leftarrow> requireToken TKN_BEGIN;
     if \<not> beginTkn then do {
       clientUnit (BlockCall (EndBlockStmt block));
       _ \<leftarrow> seekAndConsumeEndTag E tag;
       ret getInvalidNode }
     else do {
       stmtsWhile E pst {TKN_END, TKN_EXCEPTION} block;
       clientUnit (BlockCall (EndBlockStmt block));
       exn \<leftarrow> currentTokenIs TKN_EXCEPTION;
       whenM exn (parseExceptionStmt E pst block);
       ended \<leftarrow> parseEndTag tag;
       whenM (\<not> ended) (do { _ \<leftarrow> seekAndConsumeEndTag E tag; ret () });
       ret block } }"

section \<open>Loops\<close>

text \<open>What the three loop statements share: the body and the end of the loop.\<close>

definition loopBody ::
  "('p, 'v) env \<Rightarrow> ('p, 'v, 'p node) pm \<Rightarrow> string option \<Rightarrow> 'p node \<Rightarrow> ('p, 'v, unit) pm" where
  "loopBody E pst tag node = do {
     stmtsInto E pst {TKN_END} node;
     ended \<leftarrow> parseLoopEndTag tag;
     whenM (\<not> ended) (do { _ \<leftarrow> seekEndLoop E tag; ret () }) }"

definition parseWhileStmt ::
  "('p, 'v) env \<Rightarrow> ('p, 'v, 'p node) pm \<Rightarrow> string option \<Rightarrow> location \<Rightarrow> ('p, 'v, 'p node) pm" where
  "parseWhileStmt E pst tag tagLoc = do {
     b \<leftarrow> currentTokenIs TKN_WHILE;
     assertM ''parseWhileStmt'' b;
     loc \<leftarrow> ignoreToken;
     condition \<leftarrow> parseExpr E;
     bad \<leftarrow> (if isInvalid condition then ret True else notM (requireToken TKN_LOOP));
     if bad then do { _ \<leftarrow> seekEndLoop E None; ret getInvalidNode }
     else do {
       whileNode \<leftarrow> client E (BlockCall (BeginWhileStmt loc condition tag loc));
       loopBody E pst tag whileNode;
       client E (BlockCall (EndWhileStmt whileNode)) } }"

definition parseLoopStmt ::
  "('p, 'v) env \<Rightarrow> ('p, 'v, 'p node) pm \<Rightarrow> string option \<Rightarrow> location \<Rightarrow> ('p, 'v, 'p node) pm" where
  "parseLoopStmt E pst tag tagLoc = do {
     b \<leftarrow> currentTokenIs TKN_LOOP;
     assertM ''parseLoopStmt'' b;
     loc \<leftarrow> ignoreToken;
     loopNode \<leftarrow> client E (BlockCall (BeginLoopStmt loc tag tagLoc));
     loopBody E pst tag loopNode;
     client E (BlockCall (EndLoopStmt loopNode)) }"

definition parseForStmt ::
  "('p, 'v) env \<Rightarrow> ('p, 'v, 'p node) pm \<Rightarrow> string option \<Rightarrow> location \<Rightarrow> ('p, 'v, 'p node) pm" where
  "parseForStmt E pst tag tagLoc = do {
     b \<leftarrow> currentTokenIs TKN_FOR;
     assertM ''parseForStmt'' b;
     forLoc \<leftarrow> ignoreToken;
     iterLoc \<leftarrow> curLocation;
     iterName \<leftarrow> parseIdentifier;
     bad \<leftarrow> (if iterName = None then ret True else notM (requireToken TKN_IN));
     if bad then do { _ \<leftarrow> seekEndLoop E None; ret getInvalidNode }
     else do {
       isReversed \<leftarrow> reduceToken TKN_REVERSE;
       DST \<leftarrow> parseDSTDefinition E (parseExpr E) False;
       bad \<leftarrow> (if isInvalid DST then ret True else notM (requireToken TKN_LOOP));
       if bad then do { _ \<leftarrow> seekEndLoop E None; ret getInvalidNode }
       else do {
         forNode \<leftarrow> client E (BlockCall
           (BeginForStmt forLoc (the_default [] iterName) iterLoc DST isReversed tag tagLoc));
         loopBody E pst tag forNode;
         client E (BlockCall (EndForStmt forNode)) } } }"

section \<open>Statements\<close>

definition parseTaggedStmt :: "('p, 'v) env \<Rightarrow> ('p, 'v, 'p node) pm \<Rightarrow> ('p, 'v, 'p node) pm" where
  "parseTaggedStmt E pst = do {
     b \<leftarrow> taggedStmtFollows;
     assertM ''parseTaggedStmt'' b;
     tagLoc \<leftarrow> curLocation;
     tag \<leftarrow> parseIdentifier;
     _ \<leftarrow> ignoreToken;
     c \<leftarrow> currentTokenCode;
     if c = TKN_DECLARE \<or> c = TKN_BEGIN then parseBlockStmt E pst tag tagLoc
     else if c = TKN_FOR then parseForStmt E pst tag tagLoc
     else if c = TKN_WHILE then parseWhileStmt E pst tag tagLoc
     else if c = TKN_LOOP then parseLoopStmt E pst tag tagLoc
     else do {
       str \<leftarrow> currentTokenString;
       report UNEXPECTED_TOKEN [str];
       _ \<leftarrow> seekSemi E;
       ret getInvalidNode } }"

definition parseStatementBody :: "('p, 'v) env \<Rightarrow> ('p, 'v, 'p node) pm \<Rightarrow> ('p, 'v, 'p node) pm" where
  "parseStatementBody E pst = do {
     c \<leftarrow> currentTokenCode;
     node \<leftarrow>
       (if c = TKN_IF then parseIfStmt E pst
        else if c = TKN_WHILE then parseWhileStmt E pst None Location0
        else if c = TKN_FOR then parseForStmt E pst None Location0
        else if c = TKN_LOOP then parseLoopStmt E pst None Location0
        else if c = TKN_RETURN then parseReturnStmt E
        else if c = TKN_DECLARE \<or> c = TKN_BEGIN then parseBlockStmt E pst None Location0
        else if c = TKN_EXIT then parseExitStmt E
        else if c = TKN_RAISE then parseRaiseStmt E
        else if c = TKN_PRAGMA then parsePragmaStmt E
        else if c = TKN_NULL then do { loc \<leftarrow> ignoreToken; client E (StmtCall (AcceptNullStmt loc)) }
        else do {
          assignment \<leftarrow> assignmentFollows E;
          if assignment then parseAssignmentStmt E
          else do {
            tagged \<leftarrow> taggedStmtFollows;
            if tagged then parseTaggedStmt E pst else parseProcedureCallStatement E } });
     semi \<leftarrow> requireToken TKN_SEMI;
     whenM (\<not> semi) (do { _ \<leftarrow> seekAndConsumeToken E TKN_SEMI; ret () });
     ret node }"

primrec parseStatementN :: "nat \<Rightarrow> ('p, 'v) env \<Rightarrow> ('p, 'v, 'p node) pm" where
  "parseStatementN 0 E = do { halt OutOfFuel; ret getInvalidNode }"
| "parseStatementN (Suc n) E = parseStatementBody E (parseStatementN n E)"

definition parseStatement :: "('p, 'v) env \<Rightarrow> ('p, 'v, 'p node) pm" where
  "parseStatement E = parseStatementN (en_fuel E) E"

end
