(* ===== verification/ParseUnit.thy ===== *)
theory ParseUnit
  imports ParseStmt
begin

text \<open>
  Subroutine bodies, packages and compilation units, from \<^verbatim>\<open>lib/parser/Parser.cpp\<close>, and
  the parser of dependencies of \<^verbatim>\<open>lib/parser/DepParser.cpp\<close>.
\<close>

section \<open>Subroutine bodies\<close>

text \<open>
  The declarations before \<^verbatim>\<open>begin\<close>.  The result is whether \<^verbatim>\<open>end\<close> was met instead,
  the \<^verbatim>\<open>goto\<close> to the end tag.
\<close>

definition bodyDeclarations :: "('p, 'v) env \<Rightarrow> 'p node \<Rightarrow> ('p, 'v, bool) pm" where
  "bodyDeclarations E context = loopM E True (\<lambda>_. do {
     c \<leftarrow> currentTokenCode;
     if c \<noteq> TKN_BEGIN \<and> c \<noteq> TKN_EOT then
       (if c = TKN_END then do {
          str \<leftarrow> currentTokenString;
          report UNEXPECTED_TOKEN_WANTED [str, codeText TKN_BEGIN];
          clientUnit (UnitCall (EndSubroutineBody context));
          ret (Inr True) }
        else do {
          _ \<leftarrow> parseDeclaration E;
          _ \<leftarrow> requireToken TKN_SEMI;
          ret (Inl ()) })
     else ret (Inr False) }) ()"

definition parseSubroutineBody :: "('p, 'v) env \<Rightarrow> 'p node \<Rightarrow> ('p, 'v, unit) pm" where
  "parseSubroutineBody E declarationNode = do {
     context \<leftarrow> client E (UnitCall (BeginSubroutineDefinition declarationNode));
     noBody \<leftarrow> bodyDeclarations E context;
     whenM (\<not> noBody) (do {
       _ \<leftarrow> requireToken TKN_BEGIN;
       stmtsWhile E (parseStatement E) {TKN_END, TKN_EXCEPTION} context;
       clientUnit (UnitCall (EndSubroutineBody context));
       exn \<leftarrow> currentTokenIs TKN_EXCEPTION;
       whenM exn (parseExceptionStmt E (parseStatement E) context) });
     tag \<leftarrow> popEndTag;
     _ \<leftarrow> parseEndTag (Some tag);
     clientUnit (UnitCall EndSubroutineDefinition) }"

text \<open>The recovery after a declaration that is not valid.\<close>

definition skipInvalidDeclaration :: "('p, 'v) env \<Rightarrow> ('p, 'v, unit) pm" where
  "skipInvalidDeclaration E = do {
     _ \<leftarrow> seekTokens E [TKN_SEMI, TKN_IS];
     isTkn \<leftarrow> currentTokenIs TKN_IS;
     whenM isTkn (do {
       tag \<leftarrow> popEndTag;
       _ \<leftarrow> seekAndConsumeEndTag E (Some tag);
       ret () }) }"

definition parseFunctionDeclOrDefinition :: "('p, 'v) env \<Rightarrow> ('p, 'v, unit) pm" where
  "parseFunctionDeclOrDefinition E = do {
     decl \<leftarrow> parseFunctionDeclaration E;
     if isInvalid decl then skipInvalidDeclaration E
     else do {
       isTkn \<leftarrow> reduceToken TKN_IS;
       if isTkn then parseSubroutineBody E decl
       else do {
         semi \<leftarrow> currentTokenIs TKN_SEMI;
         whenM (\<not> semi) (do {
           str \<leftarrow> currentTokenString;
           report UNEXPECTED_TOKEN_WANTED [str, codeText TKN_IS] }) } } }"

definition parseProcedureDeclOrDefinition :: "('p, 'v) env \<Rightarrow> ('p, 'v, unit) pm" where
  "parseProcedureDeclOrDefinition E = do {
     decl \<leftarrow> parseProcedureDeclaration E;
     if isInvalid decl then skipInvalidDeclaration E
     else do {
       isTkn \<leftarrow> reduceToken TKN_IS;
       whenM isTkn (parseSubroutineBody E decl) } }"

section \<open>Packages\<close>

definition parsePackageBody :: "('p, 'v) env \<Rightarrow> ('p, 'v, unit) pm" where
  "parsePackageBody E = loopM E () (\<lambda>_. do {
     c \<leftarrow> currentTokenCode;
     if c \<in> {TKN_FUNCTION, TKN_PROCEDURE, TKN_USE, TKN_TYPE, TKN_SUBTYPE, TKN_PRAGMA} then do {
       (if c = TKN_FUNCTION then parseFunctionDeclOrDefinition E
        else if c = TKN_PROCEDURE then parseProcedureDeclOrDefinition E
        else if c = TKN_USE then do { _ \<leftarrow> parseUseDeclaration E; ret () }
        else if c = TKN_TYPE then do { _ \<leftarrow> parseType E; ret () }
        else if c = TKN_SUBTYPE then do { _ \<leftarrow> parseSubtype E; ret () }
        else parseDeclarationPragma E);
       _ \<leftarrow> requireToken TKN_SEMI;
       ret (Inl ()) }
     else ret (Inr ()) }) ()"

definition parseBasicDeclarativeItemSequence :: "('p, 'v) env \<Rightarrow> ('p, 'v, unit) pm" where
  "parseBasicDeclarativeItemSequence E = loopM E () (\<lambda>_. do {
     c \<leftarrow> currentTokenCode;
     if c \<in> {TKN_FUNCTION, TKN_PROCEDURE, TKN_TYPE, TKN_SUBTYPE} then do {
       status \<leftarrow>
         (if c = TKN_FUNCTION then do { n \<leftarrow> parseFunctionDeclaration E; ret (isValid n) }
          else if c = TKN_PROCEDURE then do { n \<leftarrow> parseProcedureDeclaration E; ret (isValid n) }
          else if c = TKN_TYPE then parseType E
          else parseSubtype E);
       whenM (\<not> status) (do {
         _ \<leftarrow> seekTokens E [TKN_FUNCTION, TKN_PROCEDURE, TKN_TYPE, TKN_SEMI, TKN_END];
         ret () });
       _ \<leftarrow> requireToken TKN_SEMI;
       ret (Inl ()) }
     else ret (Inr ()) }) ()"

definition parsePackagePrivatePart :: "('p, 'v) env \<Rightarrow> ('p, 'v, unit) pm" where
  "parsePackagePrivatePart E = parseBasicDeclarativeItemSequence E"

definition parsePackageSpec :: "('p, 'v) env \<Rightarrow> ('p, 'v, unit) pm" where
  "parsePackageSpec E = parseBasicDeclarativeItemSequence E"

text \<open>The end tag of a package, and the recovery when it is missing.\<close>

definition parsePackageEnd :: "('p, 'v) env \<Rightarrow> string \<Rightarrow> ('p, 'v, unit) pm" where
  "parsePackageEnd E name = do {
     ended \<leftarrow> parseEndTag (Some name);
     if \<not> ended then do {
       _ \<leftarrow> seekTokens E [TKN_PACKAGE, TKN_PROCEDURE, TKN_FUNCTION];
       ret () }
     else do { _ \<leftarrow> requireToken TKN_SEMI; ret () } }"

definition skipPackage :: "('p, 'v) env \<Rightarrow> string \<Rightarrow> ('p, 'v, unit) pm" where
  "skipPackage E name = do {
     _ \<leftarrow> seekAndConsumeEndTag E (Some name);
     _ \<leftarrow> reduceToken TKN_SEMI;
     ret () }"

definition parsePackage :: "('p, 'v) env \<Rightarrow> ('p, 'v, unit) pm" where
  "parsePackage E = do {
     b \<leftarrow> currentTokenIs TKN_PACKAGE;
     assertM ''parsePackage'' b;
     _ \<leftarrow> ignoreToken;
     isBody \<leftarrow> reduceToken TKN_BODY;
     loc \<leftarrow> curLocation;
     name \<leftarrow> parseIdentifier;
     (case name of
        None \<Rightarrow> ret ()
      | Some nm \<Rightarrow>
          if isBody then do {
            ok \<leftarrow> andM (requireToken TKN_IS) (clientBool E (UnitCall (BeginPackageBody nm loc)));
            if \<not> ok then skipPackage E nm
            else do {
              parsePackageBody E;
              clientUnit (UnitCall EndPackageBody);
              parsePackageEnd E nm } }
          else do {
            ok \<leftarrow> andM (requireToken TKN_IS) (clientBool E (UnitCall (BeginPackageSpec nm loc)));
            if \<not> ok then skipPackage E nm
            else do {
              parsePackageSpec E;
              private \<leftarrow> currentTokenIs TKN_PRIVATE;
              whenM private (do {
                _ \<leftarrow> ignoreToken;
                privLoc \<leftarrow> curLocation;
                clientUnit (UnitCall (BeginPackagePrivatePart privLoc));
                parsePackagePrivatePart E });
              clientUnit (UnitCall EndPackageSpec);
              parsePackageEnd E nm } }) }"

section \<open>Compilation units\<close>

text \<open>The dotted name of a \<^verbatim>\<open>with\<close> clause: \<open>None\<close> when an identifier is missing.\<close>

definition parseDottedName :: "('p, 'v) env \<Rightarrow> ('p, 'v, string list option) pm" where
  "parseDottedName E = loopM E None (\<lambda>names. do {
     idInfo \<leftarrow> parseIdentifier;
     (case idInfo of
        None \<Rightarrow> ret (Inr None)
      | Some nm \<Rightarrow> do {
          dot \<leftarrow> reduceToken TKN_DOT;
          ret (if dot then Inl (names @ [nm]) else Inr (Some (names @ [nm]))) }) }) []"

definition parseWithClause :: "('p, 'v) env \<Rightarrow> ('p, 'v, unit) pm" where
  "parseWithClause E = do {
     b \<leftarrow> currentTokenIs TKN_WITH;
     assertM ''parseWithClause'' b;
     loc \<leftarrow> ignoreToken;
     names \<leftarrow> parseDottedName E;
     (case names of
        None \<Rightarrow> do { _ \<leftarrow> seekSemi E; ret () }
      | Some ns \<Rightarrow> do {
          semi \<leftarrow> requireToken TKN_SEMI;
          if \<not> semi then do { _ \<leftarrow> seekSemi E; ret () }
          else clientUnit (UnitCall (AcceptWithClause loc ns)) }) }"

text \<open>The loop of the source is left by every branch of its switch.\<close>

definition parseTopLevelDeclaration :: "('p, 'v) env \<Rightarrow> ('p, 'v, bool) pm" where
  "parseTopLevelDeclaration E = do {
     c \<leftarrow> currentTokenCode;
     if c = TKN_PACKAGE then do { parsePackage E; ret True }
     else if c = TKN_EOT then ret False
     else do {
       str \<leftarrow> currentTokenString;
       report UNEXPECTED_TOKEN [str];
       ret False } }"

text \<open>The context clauses; the result is whether the end of the text was met.\<close>

definition parseContext :: "('p, 'v) env \<Rightarrow> ('p, 'v, bool) pm" where
  "parseContext E = loopM E True (\<lambda>_. do {
     c \<leftarrow> currentTokenCode;
     if c = TKN_WITH then do { parseWithClause E; ret (Inl ()) }
     else ret (Inr (c = TKN_EOT)) }) ()"

definition parseCompilationUnit :: "('p, 'v) env \<Rightarrow> ('p, 'v, unit) pm" where
  "parseCompilationUnit E = do {
     eot \<leftarrow> parseContext E;
     if eot then ret ()
     else loopM E () (\<lambda>_. do {
       more \<leftarrow> parseTopLevelDeclaration E;
       ret (if more then Inl () else Inr ()) }) () }"

section \<open>Dependencies\<close>

text \<open>
  \<^verbatim>\<open>DepParser\<close> has no client; it collects a set with the location and the name of each \<^verbatim>\<open>with\<close>
  clause.  The results of \<open>dep.concat\<close> are thrown away in the source (\<^verbatim>\<open>Twine::concat\<close> is
  a constant method), so the name is the first identifier alone.
\<close>

definition skipUse :: "('p, 'v) env \<Rightarrow> ('p, 'v, bool) pm" where
  "skipUse E = do {
     b \<leftarrow> currentTokenIs TKN_USE;
     assertM ''skipUse'' b;
     seekAndConsumeToken E TKN_SEMI }"

definition depParseWithClause ::
  "('p, 'v) env \<Rightarrow> (location \<times> string) set \<Rightarrow> ('p, 'v, (location \<times> string) set \<times> bool) pm" where
  "depParseWithClause E deps = do {
     b \<leftarrow> currentTokenIs TKN_WITH;
     assertM ''parseWithClause'' b;
     loc \<leftarrow> ignoreToken;
     names \<leftarrow> parseDottedName E;
     (case names of
        None \<Rightarrow> ret (deps, False)
      | Some ns \<Rightarrow> do {
          semi \<leftarrow> requireToken TKN_SEMI;
          ret (if semi then (insert (loc, hd ns) deps, True) else (deps, False)) }) }"

definition parseDependencies ::
  "('p, 'v) env \<Rightarrow> (location \<times> string) set \<Rightarrow> ('p, 'v, (location \<times> string) set \<times> bool) pm" where
  "parseDependencies E deps0 = loopM E (deps0, False) (\<lambda>(deps, status).
     if \<not> status then ret (Inr (deps, status))
     else do {
       c \<leftarrow> currentTokenCode;
       if c = TKN_USE then do { ok \<leftarrow> skipUse E; ret (Inl (deps, ok)) }
       else if c = TKN_WITH then do { r \<leftarrow> depParseWithClause E deps; ret (Inl r) }
       else ret (Inr (deps, True)) }) (deps0, True)"

end
