(* ===== verification/ParserSpec.thy ===== *)
theory ParserSpec
  imports ParseUnit
begin

text \<open>
  What the operations of the parser promise to each other.  This theory states the protocol
  a client sees, the invariant every operation keeps, and the rules of the operations of
  \<open>ParserBase\<close> for the weakest-precondition calculus of the prelude; the theories after
  it give the rules of the parsers themselves.
\<close>

named_theorems wp_funs \<open>rules of operations that tell the tokens left exactly\<close>

section \<open>The tokens left\<close>

text \<open>The current token and those to come; the end token is not one of them.\<close>

definition toks :: "('p, 'v) pstate \<Rightarrow> token list" where
  "toks s = (if tk_code (ps_token s) = TKN_EOT then [] else ps_token s # lexer_stream (ps_lexer s))"

fun headCode :: "token list \<Rightarrow> code" where
  "headCode [] = TKN_EOT"
| "headCode (t # ts) = tk_code t"

definition no_eot :: "token list \<Rightarrow> bool" where
  "no_eot ts \<longleftrightarrow> (\<forall>t \<in> set ts. tk_code t \<noteq> TKN_EOT)"

lemma headCode_EOT: "no_eot ts \<Longrightarrow> headCode ts = TKN_EOT \<longleftrightarrow> ts = []"
  by (cases ts) (auto simp: no_eot_def)

lemma no_eot_tl: "no_eot ts \<Longrightarrow> no_eot (tl ts)"
  by (cases ts) (auto simp: no_eot_def)

text \<open>The lexer and the token it gave belong together, and every open excursion has its token.\<close>

definition wf_tokens :: "('p, 'v) pstate \<Rightarrow> bool" where
  "wf_tokens s \<longleftrightarrow> lexer_ok (ps_lexer s) \<and>
     (tk_code (ps_token s) = TKN_EOT \<longrightarrow> lexer_stream (ps_lexer s) = []) \<and>
     length (ps_saved s) = length (lexer_marks (ps_lexer s))"

lemma current_code: "tk_code (ps_token s) = headCode (toks s)"
  by (simp add: toks_def)

lemma toks_no_eot: "wf_tokens s \<Longrightarrow> no_eot (toks s)"
  using lx.stream_no_EOT [of "ps_lexer s"] by (auto simp: wf_tokens_def toks_def no_eot_def)

lemma toks_scan:
  assumes "wf_tokens s"
  shows "toks (s\<lparr>ps_token := fst (lexer_scan (ps_lexer s)), ps_lexer := snd (lexer_scan (ps_lexer s))\<rparr>) = tl (toks s)"
    "wf_tokens (s\<lparr>ps_token := fst (lexer_scan (ps_lexer s)), ps_lexer := snd (lexer_scan (ps_lexer s))\<rparr>)"
proof -
  have ok: "lexer_ok (ps_lexer s)" using assms by (simp add: wf_tokens_def)
  note f = lx.scan_inv [OF ok] lx.scan_token [OF ok] lx.scan_stream [OF ok] lx.scan_marks [OF ok]
  have e: "tk_code (nextToken (lexer_stream (ps_lexer s))) = TKN_EOT \<longleftrightarrow> lexer_stream (ps_lexer s) = []"
    using lx.nextToken_EOT [OF ok] .
  show "toks (s\<lparr>ps_token := fst (lexer_scan (ps_lexer s)), ps_lexer := snd (lexer_scan (ps_lexer s))\<rparr>) = tl (toks s)"
    using assms e by (cases "lexer_stream (ps_lexer s)") (auto simp: toks_def f wf_tokens_def)
  show "wf_tokens (s\<lparr>ps_token := fst (lexer_scan (ps_lexer s)), ps_lexer := snd (lexer_scan (ps_lexer s))\<rparr>)"
    using assms e by (auto simp: wf_tokens_def f)
qed

section \<open>The protocol of the client\<close>

text \<open>
  The constructs that can be open, and the effect of a callback on the stack of them.
  \<open>None\<close> is a callback the class does not expect there: a declaration outside a
  declarative part, a component outside a record, an end without its begin.  A package
  the client refused, and a handler it gave an invalid node for, are not opened.
\<close>

datatype frame =
    F_PackageSpec | F_PackagePrivate | F_PackageBody
  | F_SubrDecl | F_SubrBody | F_SubrEnd
  | F_Block | F_While | F_Loop | F_For | F_Handler | F_Enumeration | F_Record

fun topFrame :: "frame list \<Rightarrow> frame option" where
  "topFrame [] = None"
| "topFrame (f # fs) = Some f"

definition declarative :: "frame list \<Rightarrow> bool" where
  "declarative C \<longleftrightarrow> topFrame C \<in> Some ` {F_PackageSpec, F_PackagePrivate, F_PackageBody, F_SubrBody, F_Block}"

definition statements :: "frame list \<Rightarrow> bool" where
  "statements C \<longleftrightarrow> topFrame C \<in> Some ` {F_SubrBody, F_Block, F_While, F_Loop, F_For, F_Handler}"

definition handlers :: "frame list \<Rightarrow> bool" where
  "handlers C \<longleftrightarrow> statements C \<or> topFrame C = Some F_SubrEnd"

definition pushIf :: "bool \<Rightarrow> frame \<Rightarrow> frame list \<Rightarrow> frame list option" where
  "pushIf b f C = (if b then Some (f # C) else None)"

definition popIf :: "frame \<Rightarrow> frame list \<Rightarrow> frame list option" where
  "popIf f C = (if topFrame C = Some f then Some (tl C) else None)"

definition stayIf :: "bool \<Rightarrow> frame list \<Rightarrow> frame list option" where
  "stayIf b C = (if b then Some C else None)"

fun blockStep :: "bool \<Rightarrow> 'p block_call \<Rightarrow> frame list \<Rightarrow> frame list option" where
  "blockStep v (BeginBlockStmt _ _) C = pushIf (statements C) F_Block C"
| "blockStep v (EndBlockStmt _) C = popIf F_Block C"
| "blockStep v (BeginWhileStmt _ _ _ _) C = pushIf (statements C) F_While C"
| "blockStep v (EndWhileStmt _) C = popIf F_While C"
| "blockStep v (BeginLoopStmt _ _ _) C = pushIf (statements C) F_Loop C"
| "blockStep v (EndLoopStmt _) C = popIf F_Loop C"
| "blockStep v (BeginForStmt _ _ _ _ _ _ _) C = pushIf (statements C) F_For C"
| "blockStep v (EndForStmt _) C = popIf F_For C"
| "blockStep v (BeginHandlerStmt _ _) C =
     (if v then pushIf (handlers C) F_Handler C else stayIf (handlers C) C)"
| "blockStep v (EndHandlerStmt _ _) C = popIf F_Handler C"

fun typeStep :: "'p type_call \<Rightarrow> frame list \<Rightarrow> frame list option" where
  "typeStep (BeginEnumeration _ _) C = pushIf (declarative C) F_Enumeration C"
| "typeStep (AcceptEnumerationIdentifier _ _) C = stayIf (topFrame C = Some F_Enumeration) C"
| "typeStep (AcceptEnumerationCharacter _ _) C = stayIf (topFrame C = Some F_Enumeration) C"
| "typeStep EndEnumeration C = popIf F_Enumeration C"
| "typeStep (BeginRecord _ _) C = pushIf (declarative C) F_Record C"
| "typeStep (AcceptRecordComponent _ _ _) C = stayIf (topFrame C = Some F_Record) C"
| "typeStep EndRecord C = popIf F_Record C"
| "typeStep _ C = stayIf (declarative C) C"

fun unitStep :: "bool \<Rightarrow> 'p unit_call \<Rightarrow> frame list \<Rightarrow> frame list option" where
  "unitStep v (AcceptWithClause _ _) C = stayIf (C = []) C"
| "unitStep v (BeginPackageSpec _ _) C = (if v then pushIf (C = []) F_PackageSpec C else stayIf (C = []) C)"
| "unitStep v (BeginPackagePrivatePart _) C =
     (if topFrame C = Some F_PackageSpec then Some (F_PackagePrivate # tl C) else None)"
| "unitStep v EndPackageSpec C =
     (if topFrame C \<in> {Some F_PackageSpec, Some F_PackagePrivate} then Some (tl C) else None)"
| "unitStep v (BeginPackageBody _ _) C = (if v then pushIf (C = []) F_PackageBody C else stayIf (C = []) C)"
| "unitStep v EndPackageBody C = popIf F_PackageBody C"
| "unitStep v (BeginFunctionDeclaration _ _) C = pushIf (declarative C) F_SubrDecl C"
| "unitStep v (BeginProcedureDeclaration _ _) C = pushIf (declarative C) F_SubrDecl C"
| "unitStep v (AcceptFunctionReturnType _) C = stayIf (topFrame C = Some F_SubrDecl) C"
| "unitStep v (AcceptSubroutineParameter _ _ _ _) C = stayIf (topFrame C = Some F_SubrDecl) C"
| "unitStep v (EndSubroutineDeclaration _) C = popIf F_SubrDecl C"
| "unitStep v (BeginSubroutineDefinition _) C = pushIf (topFrame C = Some F_PackageBody) F_SubrBody C"
| "unitStep v (EndSubroutineBody _) C =
     (if topFrame C = Some F_SubrBody then Some (F_SubrEnd # tl C) else None)"
| "unitStep v EndSubroutineDefinition C = popIf F_SubrEnd C"
| "unitStep v (AcceptPragmaImport _ _ _ _ _ _) C = stayIf (topFrame C = Some F_PackageBody) C"
| "unitStep v _ C = stayIf (declarative C) C"

text \<open>\<open>h\<close> is the history that ends with the call, from which the client's answer comes.\<close>

fun protoStep :: "('p, 'v) env \<Rightarrow> ('p, 'v) call \<Rightarrow> ('p, 'v) call list \<Rightarrow> frame list \<Rightarrow> frame list option" where
  "protoStep E (NameCall _) h C = Some C"
| "protoStep E (ExprCall _) h C = Some C"
| "protoStep E (AggregateCall _) h C = Some C"
| "protoStep E (StmtCall _) h C = stayIf (statements C) C"
| "protoStep E (BlockCall c) h C = blockStep (isValid (en_node E h)) c C"
| "protoStep E (TypeCall c) h C = typeStep c C"
| "protoStep E (UnitCall c) h C = unitStep (en_bool E h) c C"

text \<open>The stack after a history, the newest call first.\<close>

primrec protocol :: "('p, 'v) env \<Rightarrow> ('p, 'v) call list \<Rightarrow> frame list option" where
  "protocol E [] = Some []"
| "protocol E (c # h) = (case protocol E h of None \<Rightarrow> None | Some C \<Rightarrow> protoStep E c (c # h) C)"

text \<open>
  The operands of a callback: the nodes it is given, except the node of the construct it
  belongs to, which the client made itself and may have made invalid.
\<close>

fun name_operands :: "'p name_call \<Rightarrow> 'p node list" where
  "name_operands (AcceptSelectedComponent n _ _ _) = [n]"
| "name_operands (AcceptParameterAssociation _ _ n) = [n]"
| "name_operands (AcceptApplication n ns) = n # ns"
| "name_operands (AcceptAttribute n _ _) = [n]"
| "name_operands (FinishName n) = [n]"
| "name_operands (AcceptDereference n _) = [n]"
| "name_operands _ = []"

fun expr_operands :: "('p, 'v) expr_call \<Rightarrow> 'p node list" where
  "expr_operands (AcceptAllocatorExpr n _) = [n]"
| "expr_operands (AcceptQualifiedExpr n m) = [n, m]"
| "expr_operands (AcceptSubtypeIndication n) = [n]"
| "expr_operands (AcceptSubtypeIndicationRange n l u) = [n, l, u]"
| "expr_operands (AcceptSubtypeIndicationArgs n ns) = n # ns"
| "expr_operands (AcceptDSTRange l u) = [l, u]"
| "expr_operands (AcceptDSTConstrained n l u) = [n, l, u]"
| "expr_operands (AcceptDSTName n _) = [n]"
| "expr_operands _ = []"

fun aggregate_operands :: "'p aggregate_call \<Rightarrow> 'p node list" where
  "aggregate_operands (AcceptPositionalAggregateComponent n) = [n]"
| "aggregate_operands (AcceptAggregateKeyRange l u) = [l, u]"
| "aggregate_operands (AcceptAggregateKeyNode n) = [n]"
| "aggregate_operands (AcceptKeyedAggregateComponent ns n _) = n # ns"
| "aggregate_operands (AcceptAggregateOthers _ n) = [n]"
| "aggregate_operands _ = []"

fun stmt_operands :: "'p stmt_call \<Rightarrow> 'p node list" where
  "stmt_operands (AcceptStmt _ n) = [n]"
| "stmt_operands (AcceptProcedureCall n) = [n]"
| "stmt_operands (AcceptReturnStmt _ n) = [n]"
| "stmt_operands (AcceptAssignmentStmt n m) = [n, m]"
| "stmt_operands (AcceptIfStmt _ n ns) = n # ns"
| "stmt_operands (AcceptElseStmt _ n ns) = n # ns"
| "stmt_operands (AcceptElsifStmt _ n m ns) = n # m # ns"
| "stmt_operands (AcceptExitStmt _ _ _ n) = [n]"
| "stmt_operands (AcceptRaiseStmt _ n m) = [n, m]"
| "stmt_operands (AcceptPragmaStmt _ _ ns) = ns"
| "stmt_operands _ = []"

fun block_operands :: "'p block_call \<Rightarrow> 'p node list" where
  "block_operands (BeginWhileStmt _ n _ _) = [n]"
| "block_operands (BeginForStmt _ _ _ n _ _ _) = [n]"
| "block_operands (BeginHandlerStmt _ ns) = ns"
| "block_operands (EndHandlerStmt _ n) = [n]"
| "block_operands _ = []"

fun type_operands :: "'p type_call \<Rightarrow> 'p node list" where
  "type_operands (AcceptRecordComponent _ _ n) = [n]"
| "type_operands (AcceptIntegerTypeDecl _ _ l u) = [l, u]"
| "type_operands (AcceptModularTypeDecl _ _ n) = [n]"
| "type_operands (AcceptRangedSubtypeDecl _ _ n l u) = [n, l, u]"
| "type_operands (AcceptSubtypeDecl _ _ n) = [n]"
| "type_operands (AcceptAccessTypeDecl _ _ n) = [n]"
| "type_operands (AcceptArrayDecl _ _ ns n) = n # ns"
| "type_operands _ = []"

fun unit_operands :: "'p unit_call \<Rightarrow> 'p node list" where
  "unit_operands (AcceptFunctionReturnType n) = [n]"
| "unit_operands (AcceptSubroutineParameter _ _ n _) = [n]"
| "unit_operands (BeginSubroutineDefinition n) = [n]"
| "unit_operands (AcceptObjectDeclaration _ _ n m) = [n, m]"
| "unit_operands (AcceptRenamedObjectDeclaration _ _ n m) = [n, m]"
| "unit_operands (AcceptUseDeclaration n) = [n]"
| "unit_operands (AcceptPragmaImport _ _ _ _ _ n) = [n]"
| "unit_operands _ = []"

fun operands :: "('p, 'v) call \<Rightarrow> 'p node list" where
  "operands (NameCall c) = name_operands c"
| "operands (ExprCall c) = expr_operands c"
| "operands (AggregateCall c) = aggregate_operands c"
| "operands (StmtCall c) = stmt_operands c"
| "operands (BlockCall c) = block_operands c"
| "operands (TypeCall c) = type_operands c"
| "operands (UnitCall c) = unit_operands c"

definition valid_operands :: "('p, 'v) call \<Rightarrow> bool" where
  "valid_operands c \<longleftrightarrow> (\<forall>n \<in> set (operands c). isValid n)"

section \<open>The invariant of a run\<close>

text \<open>
  The reasons to stop that remain possible: the end tag stack that is empty, the assertion of
  \<^verbatim>\<open>parseQualifiedExpr\<close>, and what comes from the numbers of LLVM.
\<close>

definition halt_ok :: "halt option \<Rightarrow> bool" where
  "halt_ok h \<longleftrightarrow> h \<in> {None, Some EmptyEndTagStack, Some (AssertFailed ''parseQualifiedExpr''),
     Some (AssertFailed ''decimalLiteralToAPInt''), Some Diverges}"

text \<open>What a run from \<open>s0\<close> to \<open>s\<close> has done to the state.\<close>

definition extends :: "('p, 'v) pstate \<Rightarrow> ('p, 'v) pstate \<Rightarrow> bool" where
  "extends s0 s \<longleftrightarrow>
     suffix (toks s) (toks s0) \<and>
     ps_saved s = ps_saved s0 \<and> lexer_marks (ps_lexer s) = lexer_marks (ps_lexer s0) \<and>
     (ps_halt s0 \<noteq> None \<longrightarrow> ps_halt s = ps_halt s0) \<and>
     (\<exists>ds. ps_diags s = ps_diags s0 @ ds \<and> (\<forall>(kind, loc, args) \<in> set ds. length args = diagArity kind)) \<and>
     (\<exists>cs. ps_calls s = cs @ ps_calls s0 \<and> (\<forall>c \<in> set cs. valid_operands c))"

lemma extends_refl [simp, intro]: "extends s s"
  by (simp add: extends_def)

lemma extends_trans:
  assumes "extends a b" "extends b c" shows "extends a c"
proof -
  obtain ds where ds: "ps_diags b = ps_diags a @ ds" "\<forall>(kind, loc, args) \<in> set ds. length args = diagArity kind"
    using assms(1) unfolding extends_def by blast
  obtain ds' where ds': "ps_diags c = ps_diags b @ ds'" "\<forall>(kind, loc, args) \<in> set ds'. length args = diagArity kind"
    using assms(2) unfolding extends_def by blast
  obtain cs where cs: "ps_calls b = cs @ ps_calls a" "\<forall>c \<in> set cs. valid_operands c"
    using assms(1) unfolding extends_def by blast
  obtain cs' where cs': "ps_calls c = cs' @ ps_calls b" "\<forall>c \<in> set cs'. valid_operands c"
    using assms(2) unfolding extends_def by blast
  have "ps_diags c = ps_diags a @ (ds @ ds')" "\<forall>(kind, loc, args) \<in> set (ds @ ds'). length args = diagArity kind"
    "ps_calls c = (cs' @ cs) @ ps_calls a" "\<forall>c \<in> set (cs' @ cs). valid_operands c"
    using ds ds' cs cs' by auto
  moreover have "suffix (toks c) (toks a)" "ps_saved c = ps_saved a"
    "lexer_marks (ps_lexer c) = lexer_marks (ps_lexer a)" "ps_halt a \<noteq> None \<longrightarrow> ps_halt c = ps_halt a"
    using assms by (auto simp: extends_def intro: suffix_order.trans)
  ultimately show ?thesis unfolding extends_def by blast
qed

text \<open>
  The invariant: the tokens are well formed and fewer than the fuel, the run extends \<open>s0\<close>,
  it has not stopped for another reason than the listed ones, and the open constructs are \<open>C\<close>.
\<close>

definition G :: "('p, 'v) env \<Rightarrow> ('p, 'v) pstate \<Rightarrow> frame list \<Rightarrow> ('p, 'v) pstate \<Rightarrow> bool" where
  "G E s0 C s \<longleftrightarrow> wf_tokens s \<and> length (toks s) < en_fuel E \<and> halt_ok (ps_halt s) \<and>
     extends s0 s \<and> protocol E (ps_calls s) = Some C"

lemma G_refl: "G E s0 C s \<Longrightarrow> G E s C s"
  by (simp add: G_def)

lemma G_trans: "G E s0 C s \<Longrightarrow> G E s C' s' \<Longrightarrow> G E s0 C' s'"
  by (auto simp: G_def intro: extends_trans)

lemma G_extend:
  assumes "G E s0 C s" "extends s s'" "wf_tokens s'" "halt_ok (ps_halt s')" "protocol E (ps_calls s') = Some C'"
  shows "G E s0 C' s'"
proof -
  have "length (toks s') \<le> length (toks s)" using assms(2) by (auto simp: extends_def dest: suffix_length)
  then show ?thesis using assms extends_trans [of s0 s s'] by (simp add: G_def)
qed

lemma G_no_eot: "G E s0 C s \<Longrightarrow> no_eot (toks s)"
  by (simp add: G_def toks_no_eot)

lemma G_code: "G E s0 C s \<Longrightarrow> headCode (toks s) \<noteq> TKN_EOT \<Longrightarrow> toks s \<noteq> []"
  by auto

lemma G_EOT: "G E s0 C s \<Longrightarrow> headCode (toks s) = TKN_EOT \<longleftrightarrow> toks s = []"
  using headCode_EOT G_no_eot by blast

lemma G_fuel: "G E s0 C s \<Longrightarrow> length (toks s) < en_fuel E"
  by (simp add: G_def)

section \<open>Rules of the base\<close>

text \<open>
  A rule says what is left to show of a program that begins with the operation.  The new
  state is known by its invariant and its tokens only.
\<close>

lemmas wp_reads [wp_simps] =
  currentToken_def currentTokenCode_def currentTokenIs_def curLocation_def currentTokenString_def

lemma current_code_simps [wp_simps]: "tk_code (ps_token s) = headCode (toks s)"
  by (rule current_code)

lemma wp_whenM [wp_simps]: "wp (whenM b m) Q s = (if b then wp m Q s else Q () s)"
  by (simp add: whenM_def wp_simps)

lemma wp_andM [wp_simps]: "wp (andM a b) Q s = wp a (\<lambda>x s'. if x then wp b Q s' else Q False s') s"
  by (simp add: andM_def wp_def split: prod.split)

lemma wp_orM [wp_simps]: "wp (orM a b) Q s = wp a (\<lambda>x s'. if x then Q True s' else wp b Q s') s"
  by (simp add: orM_def wp_def split: prod.split)

lemma wp_notM [wp_simps]: "wp (notM a) Q s = wp a (\<lambda>x s'. Q (\<not> x) s') s"
  by (simp add: notM_def wp_def split: prod.split)

lemma wp_Let [wp_simps]: "wp (Let x f) Q s = wp (f x) Q s"
  by simp

lemma wp_case_prod [wp_simps]: "wp (case p of (a, b) \<Rightarrow> f a b) Q s = (case p of (a, b) \<Rightarrow> wp (f a b) Q s)"
  by (simp split: prod.split)

text \<open>A change of the state that leaves the tokens alone.\<close>

lemma G_same:
  assumes "G E s0 C s" "ps_token s' = ps_token s" "ps_lexer s' = ps_lexer s" "ps_saved s' = ps_saved s"
    "ps_diags s' = ps_diags s" "ps_calls s' = ps_calls s" "ps_halt s' = ps_halt s"
  shows "G E s0 C s'" "toks s' = toks s"
  using assms by (auto simp: G_def wf_tokens_def toks_def extends_def)

lemma wp_ignoreToken [wp_funs]:
  assumes "G E s0 C s"
    and Q: "\<And>s'. G E s0 C s' \<Longrightarrow> toks s' = tl (toks s) \<Longrightarrow> Q (tk_loc (ps_token s)) s'"
  shows "wp ignoreToken Q s"
proof -
  let ?s = "s\<lparr>ps_token := fst (lexer_scan (ps_lexer s)), ps_lexer := snd (lexer_scan (ps_lexer s))\<rparr>"
  have wf: "wf_tokens s" using assms(1) by (simp add: G_def)
  note t = toks_scan [OF wf]
  have "suffix (toks ?s) (toks s)" by (simp add: t)
  moreover have "lexer_marks (ps_lexer ?s) = lexer_marks (ps_lexer s)"
    using lx.scan_marks wf by (simp add: wf_tokens_def)
  moreover have "length (toks ?s) < en_fuel E" using assms(1) by (auto simp: t G_def)
  ultimately have "G E s0 C ?s"
    using assms(1) t(2) by (auto simp: G_def extends_def intro: suffix_order.trans)
  moreover have "(case lexer_scan (ps_lexer s) of (tkn, lx) \<Rightarrow> s\<lparr>ps_token := tkn, ps_lexer := lx\<rparr>) = ?s"
    by (simp add: case_prod_beta)
  ultimately show ?thesis
    using Q t(1) by (simp add: ignoreToken_def nextToken1_def wp_simps)
qed

lemma wp_peekToken:
  assumes "G E s0 C s"
    and Q: "\<And>s'. G E s0 C s' \<Longrightarrow> toks s' = toks s \<Longrightarrow> ps_token s' = ps_token s \<Longrightarrow>
      Q (nextToken (lexer_stream (ps_lexer s))) s'"
  shows "wp peekToken Q s"
proof -
  let ?s = "s\<lparr>ps_lexer := snd (lexer_peek 0 (ps_lexer s))\<rparr>"
  have ok: "lexer_ok (ps_lexer s)" using assms(1) by (simp add: G_def wf_tokens_def)
  have "toks ?s = toks s" by (simp add: toks_def lx.peek_stream [OF ok])
  moreover have "G E s0 C ?s" using assms(1)
    by (auto simp: G_def wf_tokens_def toks_def extends_def lx.peek_stream [OF ok] lx.peek_inv [OF ok]
        lx.peek_marks [OF ok])
  ultimately show ?thesis
    using Q lx.peek_token [OF ok, of 0] by (simp add: peekToken_def wp_simps)
qed

lemma next_code: "G E s0 C s \<Longrightarrow> tk_code (nextToken (lexer_stream (ps_lexer s))) = headCode (tl (toks s))"
  by (cases "lexer_stream (ps_lexer s)") (auto simp: G_def wf_tokens_def toks_def eotToken_def)

lemma wp_nextTokenIs [wp_rules]:
  assumes "G E s0 C s"
    and Q: "\<And>s'. G E s0 C s' \<Longrightarrow> toks s' = toks s \<Longrightarrow> Q (headCode (tl (toks s)) = code) s'"
  shows "wp (nextTokenIs code) Q s"
  unfolding nextTokenIs_def wp_simps
  by (rule wp_peekToken [OF assms(1)]) (simp add: next_code [OF assms(1)] Q)

lemma wp_peekTokenCode [wp_rules]:
  assumes "G E s0 C s"
    and Q: "\<And>s'. G E s0 C s' \<Longrightarrow> toks s' = toks s \<Longrightarrow> Q (headCode (tl (toks s))) s'"
  shows "wp peekTokenCode Q s"
  unfolding peekTokenCode_def wp_simps
  by (rule wp_peekToken [OF assms(1)]) (simp add: next_code [OF assms(1)] Q)

lemma wp_reduceToken [wp_funs]:
  assumes "G E s0 C s"
    and "\<And>s'. headCode (toks s) = code \<Longrightarrow> G E s0 C s' \<Longrightarrow> toks s' = tl (toks s) \<Longrightarrow> Q True s'"
    and "headCode (toks s) \<noteq> code \<Longrightarrow> Q False s"
  shows "wp (reduceToken code) Q s"
  using assms(2,3) by (auto simp: reduceToken_def wp_simps intro!: wp_ignoreToken [OF assms(1)])

lemma wp_reportAt [wp_rules]:
  assumes "G E s0 C s" "length args = diagArity kind"
    and Q: "\<And>s'. G E s0 C s' \<Longrightarrow> toks s' = toks s \<Longrightarrow> Q () s'"
  shows "wp (reportAt loc kind args) Q s"
proof -
  let ?s = "s\<lparr>ps_diags := ps_diags s @ [(kind, Some loc, args)]\<rparr>"
  have "extends s ?s" using assms(2) by (simp add: extends_def toks_def)
  moreover have t: "wf_tokens ?s" "toks ?s = toks s"
    using assms(1) by (simp_all add: G_def wf_tokens_def toks_def)
  moreover have "halt_ok (ps_halt ?s)" "protocol E (ps_calls ?s) = Some C"
    using assms(1) by (simp_all add: G_def)
  ultimately have "G E s0 C ?s" by (intro G_extend [OF assms(1)])
  then have "Q () ?s" using Q t(2) by blast
  then show ?thesis by (simp add: reportAt_def wp_simps)
qed

lemma wp_report [wp_rules]:
  assumes "G E s0 C s" "length args = diagArity kind"
    and Q: "\<And>s'. G E s0 C s' \<Longrightarrow> toks s' = toks s \<Longrightarrow> Q () s'"
  shows "wp (report kind args) Q s"
proof -
  let ?s = "s\<lparr>ps_diags := ps_diags s @ [(kind, None, args)]\<rparr>"
  have "extends s ?s" using assms(2) by (simp add: extends_def toks_def)
  moreover have t: "wf_tokens ?s" "toks ?s = toks s"
    using assms(1) by (simp_all add: G_def wf_tokens_def toks_def)
  moreover have "halt_ok (ps_halt ?s)" "protocol E (ps_calls ?s) = Some C"
    using assms(1) by (simp_all add: G_def)
  ultimately have "G E s0 C ?s" by (intro G_extend [OF assms(1)])
  then have "Q () ?s" using Q t(2) by blast
  then show ?thesis
    using wp_reportAt [where Q = Q and loc = "tk_loc (ps_token s)", OF assms(1,2) Q]
    by (simp add: report_def wp_simps)
qed

lemma diagArity_parser [simp]:
  "diagArity UNEXPECTED_TOKEN = 1" "diagArity UNEXPECTED_TOKEN_WANTED = 2" "diagArity PREMATURE_EOS = 0"
  "diagArity EXPECTED_END_TAG = 1" "diagArity UNEXPECTED_END_TAG = 1" "diagArity EMPTY_PARAMS = 0"
  "diagArity POSITIONAL_FOLLOWING_SELECTED_PARAMETER = 0" "diagArity MISSING_RETURN_AFTER_FUNCTION = 0"
  "diagArity RETURN_AFTER_PROCEDURE = 0" "diagArity OUT_IN_PARAMETER_MODE = 0"
  "diagArity EMPTY_ENUMERATION = 0" "diagArity EMPTY_ARRAY_TYPE_INDICES = 0"
  "diagArity DIAG_UNKNOWN_ATTRIBUTE = 1" "diagArity DIAG_UNKNOWN_PRAGMA = 1"
  "diagArity INVALID_PRAGMA_CONTEXT = 1" "diagArity INVALID_ATTRIBUTE_CONTEXT = 1"
  "diagArity OTHERS_HANDLER_NOT_UNIQUE = 0" "diagArity OTHERS_HANDLER_NOT_FINAL = 0"
  "diagArity POSITIONAL_FOLLOWING_KEYED_COMPONENT = 0" "diagArity OTHERS_COMPONENT_NOT_FINAL = 0"
  "diagArity MIXED_LOGICAL_OPERATORS = 0"
  by (simp_all add: diagArity_def)

lemma wp_requireToken [wp_funs]:
  assumes "G E s0 C s"
    and "\<And>s'. headCode (toks s) = code \<Longrightarrow> G E s0 C s' \<Longrightarrow> toks s' = tl (toks s) \<Longrightarrow> Q True s'"
    and "\<And>s'. headCode (toks s) \<noteq> code \<Longrightarrow> G E s0 C s' \<Longrightarrow> toks s' = toks s \<Longrightarrow> Q False s'"
  shows "wp (requireToken code) Q s"
  unfolding requireToken_def wp_simps
  by (rule wp_reduceToken [OF assms(1)])
     (use assms(2) in simp, use assms(3) in \<open>auto simp: wp_simps intro!: wp_report [OF assms(1)]\<close>)

lemma wp_identifierAttribute [wp_simps]:
  "wp (identifierAttribute name) Q s = Q (fst (getIdentifierInfo (ps_pool s) name)) s"
  by (simp add: identifierAttribute_def wp_simps)

lemma wp_internIdentifier [wp_rules]:
  assumes "G E s0 C s"
    and Q: "\<And>s'. G E s0 C s' \<Longrightarrow> toks s' = toks s \<Longrightarrow> Q name s'"
  shows "wp (internIdentifier name) Q s"
proof -
  let ?s = "s\<lparr>ps_pool := snd (getIdentifierInfo (ps_pool s) name)\<rparr>"
  have "Q name ?s" by (rule Q) (rule G_same [OF assms(1)]; simp)+
  then show ?thesis by (simp add: internIdentifier_def wp_simps)
qed

lemma wp_tokenIdentifier [wp_rules]:
  assumes "G E s0 C s"
    and Q: "\<And>s' name. G E s0 C s' \<Longrightarrow> toks s' = toks s \<Longrightarrow> Q name s'"
  shows "wp (tokenIdentifier tkn) Q s"
  unfolding tokenIdentifier_def by (rule wp_internIdentifier [OF assms(1)]) (rule Q)

lemma wp_parseIdentifier [wp_funs]:
  assumes "G E s0 C s"
    and "\<And>s' name. headCode (toks s) = TKN_IDENTIFIER \<Longrightarrow> G E s0 C s' \<Longrightarrow> toks s' = tl (toks s) \<Longrightarrow> Q (Some name) s'"
    and "\<And>s'. headCode (toks s) \<noteq> TKN_IDENTIFIER \<Longrightarrow> G E s0 C s' \<Longrightarrow> toks s' = toks s \<Longrightarrow> Q None s'"
  shows "wp parseIdentifier Q s"
  using assms by (auto simp: parseIdentifier_def wp_simps intro!: wp_rules wp_funs)

definition functionGlyph :: "code \<Rightarrow> bool" where
  "functionGlyph c \<longleftrightarrow> isFunctionGlyph \<lparr>tk_code = c, tk_loc = Location0, tk_rep = []\<rparr>"

lemma isFunctionGlyph_code: "isFunctionGlyph (ps_token s) = functionGlyph (headCode (toks s))"
  by (simp add: functionGlyph_def isFunctionGlyph_def current_code)

lemma functionGlyph_simps [simp]:
  "functionGlyph TKN_AND" "functionGlyph TKN_OR" "functionGlyph TKN_XOR" "functionGlyph TKN_NOT"
  "functionGlyph TKN_POW" "functionGlyph TKN_STAR" "functionGlyph TKN_FSLASH" "functionGlyph TKN_MOD"
  "functionGlyph TKN_REM" "functionGlyph TKN_PLUS" "functionGlyph TKN_MINUS" "functionGlyph TKN_EQUAL"
  "functionGlyph TKN_NEQUAL" "functionGlyph TKN_LESS" "functionGlyph TKN_GREAT" "functionGlyph TKN_LEQ"
  "functionGlyph TKN_GEQ" "\<not> functionGlyph TKN_IDENTIFIER" "\<not> functionGlyph TKN_EOT" "\<not> functionGlyph TKN_SEMI"
  by (simp_all add: functionGlyph_def isFunctionGlyph_def)

lemma wp_parseFunctionIdentifier [wp_funs]:
  assumes "G E s0 C s"
    and "\<And>s' name. functionGlyph (headCode (toks s)) \<or> headCode (toks s) = TKN_IDENTIFIER \<Longrightarrow>
      G E s0 C s' \<Longrightarrow> toks s' = tl (toks s) \<Longrightarrow> Q (Some name) s'"
    and "\<And>s'. \<not> functionGlyph (headCode (toks s)) \<Longrightarrow> headCode (toks s) \<noteq> TKN_IDENTIFIER \<Longrightarrow>
      G E s0 C s' \<Longrightarrow> toks s' = toks s \<Longrightarrow> Q None s'"
  shows "wp parseFunctionIdentifier Q s"
  using assms
  by (auto simp: parseFunctionIdentifier_def wp_simps isFunctionGlyph_code intro!: wp_rules wp_funs)

section \<open>Halts and callbacks\<close>

lemma wp_halt:
  assumes "G E s0 C s" "halt_ok (Some h)"
    and Q: "\<And>s'. G E s0 C s' \<Longrightarrow> toks s' = toks s \<Longrightarrow> ps_halt s' \<noteq> None \<Longrightarrow> Q () s'"
  shows "wp (halt h) Q s"
proof -
  let ?s = "if ps_halt s = None then s\<lparr>ps_halt := Some h\<rparr> else s"
  have t: "toks ?s = toks s" "wf_tokens ?s"
    using assms(1) by (auto simp: toks_def G_def wf_tokens_def)
  have "extends s ?s" "halt_ok (ps_halt ?s)" "protocol E (ps_calls ?s) = Some C"
    using assms(1,2) by (auto simp: extends_def toks_def G_def)
  then have "G E s0 C ?s" using t by (intro G_extend [OF assms(1)])
  then have "Q () ?s" using Q t by auto
  then show ?thesis by (simp add: halt_def wp_simps)
qed

lemma G_halted: "G E s0 C s \<Longrightarrow> ps_halt s0 \<noteq> None \<Longrightarrow> ps_halt s \<noteq> None"
  by (auto simp: G_def extends_def)

text \<open>An assertion that holds, or fails after the run has stopped already.\<close>

lemma wp_assertM [wp_rules]:
  assumes "G E s0 C s" "b \<or> ps_halt s0 \<noteq> None"
    and Q: "\<And>s'. G E s0 C s' \<Longrightarrow> toks s' = toks s \<Longrightarrow> Q () s'"
  shows "wp (assertM name b) Q s"
proof (cases b)
  case True
  then show ?thesis using Q assms(1) by (simp add: assertM_def wp_simps)
next
  case False
  then have "ps_halt s \<noteq> None" using assms(2) G_halted [OF assms(1)] by blast
  then have "wp (halt (AssertFailed name)) Q s"
    using Q [OF assms(1)] by (auto simp: halt_def wp_simps)
  then show ?thesis using False by (simp add: assertM_def)
qed

lemma wp_assert_qualified:
  assumes "G E s0 C s"
    and Q: "\<And>s'. G E s0 C s' \<Longrightarrow> toks s' = toks s \<Longrightarrow> b \<or> ps_halt s' \<noteq> None \<Longrightarrow> Q () s'"
  shows "wp (assertM ''parseQualifiedExpr'' b) Q s"
  using assms by (auto simp: assertM_def wp_simps halt_ok_def intro!: wp_halt [OF assms(1)])

lemma wp_record_call:
  assumes "G E s0 C s" "valid_operands c"
    and step: "protoStep E c (c # ps_calls s) C \<noteq> None"
    and Q: "\<And>s'. G E s0 (the (protoStep E c (c # ps_calls s) C)) s' \<Longrightarrow> toks s' = toks s \<Longrightarrow>
      ps_calls s' = c # ps_calls s \<Longrightarrow> Q () s'"
  shows "wp (record_call c) Q s"
proof -
  let ?s = "s\<lparr>ps_calls := c # ps_calls s\<rparr>"
  have t: "toks ?s = toks s" "wf_tokens ?s"
    using assms(1) by (auto simp: toks_def G_def wf_tokens_def)
  have e: "extends s ?s" using assms(2) by (auto simp: extends_def toks_def)
  have h: "halt_ok (ps_halt ?s)" using assms(1) by (simp add: G_def)
  have p: "protocol E (ps_calls ?s) = Some (the (protoStep E c (c # ps_calls s) C))"
    using assms(1) step by (auto simp: G_def)
  have "Q () ?s"
    by (rule Q [OF G_extend [OF assms(1) e t(2) h p] t(1)]) simp
  then show ?thesis by (simp add: record_call_def wp_simps)
qed

lemma wp_client:
  assumes "G E s0 C s" "valid_operands c" "protoStep E c (c # ps_calls s) C \<noteq> None"
    and "\<And>s' r. G E s0 (the (protoStep E c (c # ps_calls s) C)) s' \<Longrightarrow> toks s' = toks s \<Longrightarrow>
      r = en_node E (c # ps_calls s) \<Longrightarrow> Q r s'"
  shows "wp (client E c) Q s"
  unfolding client_def wp_simps by (rule wp_record_call [OF assms(1-3)]) (simp add: assms(4))

lemma wp_clientBool:
  assumes "G E s0 C s" "valid_operands c" "protoStep E c (c # ps_calls s) C \<noteq> None"
    and "\<And>s' r. G E s0 (the (protoStep E c (c # ps_calls s) C)) s' \<Longrightarrow> toks s' = toks s \<Longrightarrow>
      r = en_bool E (c # ps_calls s) \<Longrightarrow> Q r s'"
  shows "wp (clientBool E c) Q s"
  unfolding clientBool_def wp_simps by (rule wp_record_call [OF assms(1-3)]) (simp add: assms(4))

lemma wp_clientUnit:
  assumes "G E s0 C s" "valid_operands c" "protoStep E c (c # ps_calls s) C \<noteq> None"
    and "\<And>s'. G E s0 (the (protoStep E c (c # ps_calls s) C)) s' \<Longrightarrow> toks s' = toks s \<Longrightarrow> Q () s'"
  shows "wp (clientUnit c) Q s"
  unfolding clientUnit_def by (rule wp_record_call [OF assms(1-3)]) (rule assms(4))

text \<open>The callbacks of names, expressions and aggregates leave the open constructs alone.\<close>

lemma wp_client_name [wp_rules]:
  assumes "G E s0 C s" "\<forall>n \<in> set (name_operands c). isValid n"
    and "\<And>s' r. G E s0 C s' \<Longrightarrow> toks s' = toks s \<Longrightarrow> Q r s'"
  shows "wp (client E (NameCall c)) Q s"
  by (rule wp_client [OF assms(1)]) (use assms(2,3) in \<open>auto simp: valid_operands_def\<close>)

lemma wp_client_expr [wp_rules]:
  assumes "G E s0 C s" "\<forall>n \<in> set (expr_operands c). isValid n"
    and "\<And>s' r. G E s0 C s' \<Longrightarrow> toks s' = toks s \<Longrightarrow> Q r s'"
  shows "wp (client E (ExprCall c)) Q s"
  by (rule wp_client [OF assms(1)]) (use assms(2,3) in \<open>auto simp: valid_operands_def\<close>)

lemma wp_client_aggregate [wp_rules]:
  assumes "G E s0 C s" "\<forall>n \<in> set (aggregate_operands c). isValid n"
    and "\<And>s' r. G E s0 C s' \<Longrightarrow> toks s' = toks s \<Longrightarrow> Q r s'"
  shows "wp (client E (AggregateCall c)) Q s"
  by (rule wp_client [OF assms(1)]) (use assms(2,3) in \<open>auto simp: valid_operands_def\<close>)

lemma wp_clientUnit_aggregate [wp_rules]:
  assumes "G E s0 C s" "\<forall>n \<in> set (aggregate_operands c). isValid n"
    and "\<And>s'. G E s0 C s' \<Longrightarrow> toks s' = toks s \<Longrightarrow> Q () s'"
  shows "wp (clientUnit (AggregateCall c)) Q s"
  by (rule wp_clientUnit [OF assms(1)]) (use assms(2,3) in \<open>auto simp: valid_operands_def\<close>)

section \<open>Loops and excursions\<close>

lemma wp_loopM:
  assumes body: "\<And>a s. I a s \<Longrightarrow>
      wp (body a) (\<lambda>r t. case r of Inl a' \<Rightarrow> I a' t \<and> length (toks t) < length (toks s) | Inr x \<Rightarrow> Q x t) s"
    and start: "I a s" and fuel: "length (toks s) < en_fuel E"
  shows "wp (loopM E b body a) Q s"
  unfolding loopM_def
  by (rule wp_iterM [where I = I and \<mu> = "\<lambda>a s. length (toks s)"]) (use assms in auto)

text \<open>The state \<open>s1\<close> is \<open>s\<close> with an excursion opened.\<close>

definition excursion :: "('p, 'v) env \<Rightarrow> ('p, 'v) pstate \<Rightarrow> frame list \<Rightarrow> ('p, 'v) pstate \<Rightarrow> ('p, 'v) pstate \<Rightarrow> bool" where
  "excursion E s0 C s s1 \<longleftrightarrow> G E s0 C s \<and>
     ps_saved s1 = ps_token s # ps_saved s \<and>
     lexer_marks (ps_lexer s1) = lexer_stream (ps_lexer s) # lexer_marks (ps_lexer s) \<and>
     ps_diags s1 = ps_diags s \<and> ps_calls s1 = ps_calls s \<and> ps_halt s1 = ps_halt s"

lemma wp_beginExcursion:
  assumes "G E s0 C s"
    and Q: "\<And>s1. G E s1 C s1 \<Longrightarrow> toks s1 = toks s \<Longrightarrow> excursion E s0 C s s1 \<Longrightarrow> Q () s1"
  shows "wp beginExcursion Q s"
proof -
  let ?s = "s\<lparr>ps_saved := ps_token s # ps_saved s, ps_lexer := lexer_beginExcursion (ps_lexer s)\<rparr>"
  have ok: "lexer_ok (ps_lexer s)" using assms(1) by (simp add: G_def wf_tokens_def)
  note b = lx.begin_inv [OF ok] lx.begin_stream [OF ok] lx.begin_marks [OF ok]
  have t: "toks ?s = toks s" by (simp add: toks_def b)
  have "G E ?s C ?s"
    using assms(1) t by (simp add: G_def) (simp add: wf_tokens_def b)
  moreover have "excursion E s0 C s ?s"
    using assms(1) by (simp add: excursion_def b)
  ultimately have "Q () ?s" using Q t by blast
  then show ?thesis by (simp add: beginExcursion_def wp_simps)
qed

lemma wp_endExcursion:
  assumes ex: "excursion E s0 C s s1" and s2: "G E s1 C s2"
    and Q: "\<And>s3. G E s0 C s3 \<Longrightarrow> toks s3 = toks s \<Longrightarrow> Q () s3"
  shows "wp endExcursion Q s2"
proof -
  have e: "ps_saved s2 = ps_token s # ps_saved s"
    "lexer_marks (ps_lexer s2) = lexer_stream (ps_lexer s) # lexer_marks (ps_lexer s)"
    and ok: "lexer_ok (ps_lexer s2)"
    using ex s2 by (auto simp: excursion_def G_def extends_def wf_tokens_def)
  then obtain lx where lx: "lexer_endExcursion (ps_lexer s2) = Some lx"
    using lx.end_defined [OF ok] by auto
  note l = lx.end_stream [OF ok lx] lx.end_inv [OF ok lx]
  let ?s = "s2\<lparr>ps_token := ps_token s, ps_saved := ps_saved s, ps_lexer := lx\<rparr>"
  have Gs: "G E s0 C s" using ex by (simp add: excursion_def)
  have str: "lexer_stream lx = lexer_stream (ps_lexer s)" "lexer_marks lx = lexer_marks (ps_lexer s)"
    using l e by simp_all
  have t: "toks ?s = toks s" by (simp add: toks_def str)
  have wf: "wf_tokens ?s" using Gs l str by (auto simp: G_def wf_tokens_def)
  have x: "extends s1 s2" using s2 by (simp add: G_def)
  have "extends s ?s"
    using x ex str t unfolding extends_def excursion_def by simp
  moreover have "halt_ok (ps_halt ?s)" "protocol E (ps_calls ?s) = Some C"
    using s2 by (simp_all add: G_def)
  ultimately have "G E s0 C ?s" using wf by (intro G_extend [OF Gs])
  then have "Q () ?s" using Q t by blast
  then show ?thesis by (simp add: endExcursion_def wp_simps e lx)
qed

section \<open>Seeking\<close>

text \<open>The tokens from the first one with one of the codes on.\<close>

definition seekIn :: "code list \<Rightarrow> token list \<Rightarrow> token list" where
  "seekIn codes ts = dropWhile (\<lambda>t. tk_code t \<notin> set codes) ts"

lemma seekIn_length: "length (seekIn codes ts) \<le> length ts"
  by (simp add: seekIn_def length_dropWhile_le)

lemma seekIn_head: "seekIn codes ts \<noteq> [] \<Longrightarrow> headCode (seekIn codes ts) \<in> set codes"
  by (induction ts) (auto simp: seekIn_def)

lemma seekIn_step: "no_eot ts \<Longrightarrow> headCode ts \<notin> set codes \<Longrightarrow> seekIn codes (tl ts) = seekIn codes ts"
  by (cases ts) (auto simp: seekIn_def)

lemma seekIn_stop: "ts \<noteq> [] \<Longrightarrow> headCode ts \<in> set codes \<Longrightarrow> seekIn codes ts = ts"
  by (cases ts) (auto simp: seekIn_def)

lemma tl_less: "ts \<noteq> [] \<Longrightarrow> length (tl ts) < length ts"
  by (cases ts) auto

lemma tl_less_le [simp]: "ts \<noteq> [] \<Longrightarrow> length ts \<le> n \<Longrightarrow> length ts - Suc 0 < n"
  by (cases ts) auto

text \<open>The loop of both seeking functions, for a test on the code.\<close>

lemma wp_seekLoop:
  assumes start: "G E s0 C s" and test: "\<And>c. c \<noteq> TKN_EOT \<Longrightarrow> P c \<longleftrightarrow> c \<in> set codes"
    and P: "\<And>s. body s = do {
      eot \<leftarrow> currentTokenIs TKN_EOT;
      if eot then ret (Inr False)
      else do {
        c \<leftarrow> currentTokenCode;
        if P c then ret (Inr True) else do { _ \<leftarrow> ignoreToken; ret (Inl ()) } } }"
    and Q: "\<And>s'. G E s0 C s' \<Longrightarrow> toks s' = seekIn codes (toks s) \<Longrightarrow> Q (toks s' \<noteq> []) s'"
  shows "wp (loopM E False body ()) Q s"
proof (rule wp_loopM [where I = "\<lambda>_ t. G E s0 C t \<and> seekIn codes (toks t) = seekIn codes (toks s)"])
  fix a :: unit and t
  assume inv: "G E s0 C t \<and> seekIn codes (toks t) = seekIn codes (toks s)"
  show "wp (body a) (\<lambda>r t'. case r of Inl a' \<Rightarrow>
      (G E s0 C t' \<and> seekIn codes (toks t') = seekIn codes (toks s)) \<and> length (toks t') < length (toks t)
      | Inr x \<Rightarrow> Q x t') t"
  proof (cases "toks t")
    case Nil
    then show ?thesis using inv Q [of t] by (simp add: P wp_simps seekIn_def)
  next
    case (Cons u us)
    have ne: "headCode (toks t) \<noteq> TKN_EOT" using G_EOT [of E s0 C t] inv Cons by simp
    show ?thesis
    proof (cases "headCode (toks t) \<in> set codes")
      case True
      then show ?thesis using inv Q [of t] ne Cons seekIn_stop [of "toks t" codes]
        by (simp add: P wp_simps test)
    next
      case False
      have "seekIn codes us = seekIn codes (toks t)"
        using seekIn_step [OF G_no_eot [of E s0 C t] False] inv Cons by simp
      then show ?thesis using inv ne False Cons
        by (auto simp: P wp_simps test intro!: wp_ignoreToken)
    qed
  qed
next
  show "G E s0 C s \<and> seekIn codes (toks s) = seekIn codes (toks s)" using start by simp
  show "length (toks s) < en_fuel E" using start by (rule G_fuel)
qed

lemma wp_seekTokens [wp_funs]:
  assumes "G E s0 C s" and "length codes < 6"
    and Q: "\<And>s' r. G E s0 C s' \<Longrightarrow> toks s' = seekIn (UNUSED_ID # codes) (toks s) \<Longrightarrow>
      r = (toks s' \<noteq> []) \<Longrightarrow> Q r s'"
  shows "wp (seekTokens E codes) Q s"
  unfolding seekTokens_def
  by (rule wp_seekLoop [OF assms(1), where codes = "UNUSED_ID # codes"
        and P = "\<lambda>c. c \<in> set (take 6 (codes @ replicate 6 UNUSED_ID))"])
     (use assms(2) Q in auto)

lemma currentTokenIs_code:
  "State_Monad.bind (currentTokenIs code) g = State_Monad.bind currentTokenCode (\<lambda>c. g (c = code))"
  by (simp add: State_Monad.bind_def gets_def currentTokenIs_def currentTokenCode_def)

lemma wp_seekToken [wp_funs]:
  assumes "G E s0 C s"
    and Q: "\<And>s' r. G E s0 C s' \<Longrightarrow> toks s' = seekIn [code] (toks s) \<Longrightarrow> r = (toks s' \<noteq> []) \<Longrightarrow> Q r s'"
  shows "wp (seekToken E code) Q s"
  unfolding seekToken_def currentTokenIs_code [of code]
  by (rule wp_seekLoop [OF assms(1), where codes = "[code]" and P = "\<lambda>c. c = code"])
     (use Q in auto)

lemma wp_seekAndConsumeToken [wp_funs]:
  assumes "G E s0 C s"
    and Q: "\<And>s' r. G E s0 C s' \<Longrightarrow> toks s' = tl (seekIn [code] (toks s)) \<Longrightarrow>
      r = (seekIn [code] (toks s) \<noteq> []) \<Longrightarrow> Q r s'"
  shows "wp (seekAndConsumeToken E code) Q s"
  unfolding seekAndConsumeToken_def wp_bind
  by (rule wp_seekToken [OF assms(1)])
     (auto simp: wp_simps intro!: wp_ignoreToken Q)

section \<open>Recovery\<close>

fun closeParen :: "nat \<Rightarrow> token list \<Rightarrow> bool \<times> token list" where
  "closeParen d [] = (False, [])"
| "closeParen d (t # ts) =
     (if tk_code t = TKN_LPAREN then closeParen (d + 1) ts
      else if tk_code t = TKN_RPAREN then (if d - 1 = 0 then (True, ts) else closeParen (d - 1) ts)
      else closeParen d ts)"

lemma closeParen_suffix: "suffix (snd (closeParen d ts)) ts"
  by (induction d ts rule: closeParen.induct) (auto intro: suffix_ConsI)

lemma closeParen_length: "length (snd (closeParen d ts)) \<le> length ts"
  using closeParen_suffix by (rule suffix_length)

lemma closeParen_less: "fst (closeParen d ts) \<Longrightarrow> length (snd (closeParen d ts)) < length ts"
  by (induction d ts rule: closeParen.induct) (auto intro: less_SucI split: if_splits)

lemma closeParen_end: "\<not> fst (closeParen d ts) \<Longrightarrow> snd (closeParen d ts) = []"
  by (induction d ts rule: closeParen.induct) (auto split: if_splits)

lemma closeParen_seek: "closeParen d (seekIn [UNUSED_ID, TKN_LPAREN, TKN_RPAREN] ts) = closeParen d ts"
  by (induction ts) (auto simp: seekIn_def)

lemma closeParen_open: "headCode ts = TKN_LPAREN \<Longrightarrow> closeParen d ts = closeParen (Suc d) (tl ts)"
  by (cases ts) auto

lemma closeParen_close:
  "headCode ts = TKN_RPAREN \<Longrightarrow> closeParen d ts = (if d - 1 = 0 then (True, tl ts) else closeParen (d - 1) (tl ts))"
  by (cases ts) auto

lemma closeParen_other:
  "ts \<noteq> [] \<Longrightarrow> headCode ts \<noteq> TKN_RPAREN \<Longrightarrow> headCode ts \<noteq> TKN_LPAREN \<Longrightarrow> closeParen d ts = closeParen d (tl ts)"
  by (cases ts) auto

text \<open>
  \<open>seekCloseParen\<close> is the matching of parentheses on the tokens left; it fails when they
  end first, and then none is left.
\<close>

lemma wp_seekCloseParen [wp_funs]:
  assumes start: "G E s0 C s"
    and Q: "\<And>s' r. G E s0 C s' \<Longrightarrow> (r, toks s') = closeParen 1 (toks s) \<Longrightarrow> Q r s'"
  shows "wp (seekCloseParen E) Q s"
  unfolding seekCloseParen_def
proof (rule wp_loopM [where I = "\<lambda>d t. G E s0 C t \<and> closeParen d (toks t) = closeParen 1 (toks s)"])
  fix d :: nat and t
  assume inv: "G E s0 C t \<and> closeParen d (toks t) = closeParen 1 (toks s)"
  let ?ts = "seekIn [UNUSED_ID, TKN_LPAREN, TKN_RPAREN] (toks t)"
  have len: "length ?ts \<le> length (toks t)" by (rule seekIn_length)
  have c: "closeParen d ?ts = closeParen 1 (toks s)" using inv by (simp add: closeParen_seek)
  note cs = closeParen_open [of ?ts d] closeParen_close [of ?ts d] closeParen_other [of ?ts d]
  show "wp (do {
     _ \<leftarrow> seekTokens E [TKN_LPAREN, TKN_RPAREN];
     c \<leftarrow> currentTokenCode;
     if c = TKN_LPAREN then do { _ \<leftarrow> ignoreToken; ret (Inl (d + 1)) }
     else if c = TKN_RPAREN then
       (if d - 1 = 0 then do { _ \<leftarrow> ignoreToken; ret (Inr True) }
        else do { _ \<leftarrow> ignoreToken; ret (Inl (d - 1)) })
     else if c = TKN_EOT then ret (Inr False)
     else do { _ \<leftarrow> ignoreToken; ret (Inl d) } })
    (\<lambda>r t'. case r of Inl d' \<Rightarrow> (G E s0 C t' \<and> closeParen d' (toks t') = closeParen 1 (toks s)) \<and>
        length (toks t') < length (toks t) | Inr x \<Rightarrow> Q x t') t"
    unfolding wp_bind
    apply (rule wp_seekTokens [OF inv [THEN conjunct1]], simp)
    subgoal for t' r
      using len c cs G_EOT [of E s0 C t']
      by (cases "?ts = []") (auto simp: wp_simps intro!: wp_ignoreToken Q)
    done
next
  show "G E s0 C s \<and> closeParen 1 (toks s) = closeParen 1 (toks s)" using start by simp
  show "length (toks s) < en_fuel E" using start by (rule G_fuel)
qed

end
