(* ===== verification/LookaheadSpec.thy ===== *)
theory LookaheadSpec
  imports ParserSpec
begin

text \<open>
  The rules of recovery and lookahead.  Recovery only drops tokens; a test that looks
  ahead leaves the tokens, the reports and the callbacks as they were, and its result is a
  function of the tokens left.
\<close>

section \<open>Coarse rules\<close>

lemma case_sum_if [wp_simps]:
  "case_sum f g (if b then x else y) = (if b then case_sum f g x else case_sum f g y)"
  by simp

text \<open>
  Most of the parsers need only the number of tokens left and the code of the first one.
  These rules forget the rest; the exact ones are in \<open>wp_funs\<close>.
\<close>

lemma G_nonempty: "G E s0 C s \<Longrightarrow> headCode (toks s) \<noteq> TKN_EOT \<Longrightarrow> length (tl (toks s)) < length (toks s)"
  by (rule tl_less) auto

lemma wp_ignoreToken_le [wp_rules]:
  assumes "G E s0 C s"
    and "\<And>s'. G E s0 C s' \<Longrightarrow> length (toks s') \<le> length (toks s) \<Longrightarrow>
      (headCode (toks s) \<noteq> TKN_EOT \<Longrightarrow> length (toks s') < length (toks s)) \<Longrightarrow>
      headCode (toks s') = headCode (tl (toks s)) \<Longrightarrow> Q (tk_loc (ps_token s)) s'"
  shows "wp ignoreToken Q s"
  by (rule wp_ignoreToken [OF assms(1)], rule assms(2)) (use G_nonempty [OF assms(1)] in auto)

lemma wp_reduceToken_le [wp_rules]:
  assumes "G E s0 C s"
    and "\<And>s'. headCode (toks s) = code \<Longrightarrow> G E s0 C s' \<Longrightarrow> length (toks s') \<le> length (toks s) \<Longrightarrow>
      (code \<noteq> TKN_EOT \<Longrightarrow> length (toks s') < length (toks s)) \<Longrightarrow> headCode (toks s') = headCode (tl (toks s)) \<Longrightarrow> Q True s'"
    and "headCode (toks s) \<noteq> code \<Longrightarrow> Q False s"
  shows "wp (reduceToken code) Q s"
  by (rule wp_reduceToken [OF assms(1)], rule assms(2))
     (use assms(3) G_nonempty [OF assms(1)] in auto)

lemma wp_requireToken_le [wp_rules]:
  assumes "G E s0 C s"
    and "\<And>s'. headCode (toks s) = code \<Longrightarrow> G E s0 C s' \<Longrightarrow> length (toks s') \<le> length (toks s) \<Longrightarrow>
      (code \<noteq> TKN_EOT \<Longrightarrow> length (toks s') < length (toks s)) \<Longrightarrow> headCode (toks s') = headCode (tl (toks s)) \<Longrightarrow> Q True s'"
    and "\<And>s'. headCode (toks s) \<noteq> code \<Longrightarrow> G E s0 C s' \<Longrightarrow> toks s' = toks s \<Longrightarrow> Q False s'"
  shows "wp (requireToken code) Q s"
  by (rule wp_requireToken [OF assms(1)], rule assms(2))
     (use assms(3) G_nonempty [OF assms(1)] in auto)

lemma wp_parseIdentifier_le [wp_rules]:
  assumes "G E s0 C s"
    and "\<And>s' name. headCode (toks s) = TKN_IDENTIFIER \<Longrightarrow> G E s0 C s' \<Longrightarrow>
      length (toks s') < length (toks s) \<Longrightarrow> headCode (toks s') = headCode (tl (toks s)) \<Longrightarrow> Q (Some name) s'"
    and "\<And>s'. headCode (toks s) \<noteq> TKN_IDENTIFIER \<Longrightarrow> G E s0 C s' \<Longrightarrow> toks s' = toks s \<Longrightarrow> Q None s'"
  shows "wp parseIdentifier Q s"
  by (rule wp_parseIdentifier [OF assms(1)], rule assms(2))
     (use assms(3) G_nonempty [OF assms(1)] in auto)

lemma functionGlyph_EOT: "functionGlyph c \<Longrightarrow> c \<noteq> TKN_EOT"
  by auto

lemma wp_parseFunctionIdentifier_le [wp_rules]:
  assumes "G E s0 C s"
    and "\<And>s' name. functionGlyph (headCode (toks s)) \<or> headCode (toks s) = TKN_IDENTIFIER \<Longrightarrow> G E s0 C s' \<Longrightarrow>
      length (toks s') < length (toks s) \<Longrightarrow> headCode (toks s') = headCode (tl (toks s)) \<Longrightarrow> Q (Some name) s'"
    and "\<And>s'. \<not> functionGlyph (headCode (toks s)) \<Longrightarrow> headCode (toks s) \<noteq> TKN_IDENTIFIER \<Longrightarrow>
      G E s0 C s' \<Longrightarrow> toks s' = toks s \<Longrightarrow> Q None s'"
  shows "wp parseFunctionIdentifier Q s"
  by (rule wp_parseFunctionIdentifier [OF assms(1)], rule assms(2))
     (use assms(3) G_nonempty [OF assms(1)] functionGlyph_EOT in auto)

lemma wp_seekTokens_le [wp_rules]:
  assumes "G E s0 C s" and "length codes < 6"
    and "\<And>s'. G E s0 C s' \<Longrightarrow> length (toks s') \<le> length (toks s) \<Longrightarrow> headCode (toks s') \<in> insert UNUSED_ID (set codes) \<Longrightarrow> Q True s'"
    and "\<And>s'. G E s0 C s' \<Longrightarrow> toks s' = [] \<Longrightarrow> Q False s'"
  shows "wp (seekTokens E codes) Q s"
proof (rule wp_seekTokens [OF assms(1,2)])
  fix s' r
  assume "G E s0 C s'" "toks s' = seekIn (UNUSED_ID # codes) (toks s)" "r = (toks s' \<noteq> [])"
  then show "Q r s'"
    using seekIn_head [of "UNUSED_ID # codes" "toks s"] assms(3,4) [of s'] seekIn_length [of "UNUSED_ID # codes" "toks s"]
    by (cases r) auto
qed

lemma wp_seekToken_le [wp_rules]:
  assumes "G E s0 C s"
    and "\<And>s'. G E s0 C s' \<Longrightarrow> length (toks s') \<le> length (toks s) \<Longrightarrow> headCode (toks s') = code \<Longrightarrow> Q True s'"
    and "\<And>s'. G E s0 C s' \<Longrightarrow> toks s' = [] \<Longrightarrow> Q False s'"
  shows "wp (seekToken E code) Q s"
proof (rule wp_seekToken [OF assms(1)])
  fix s' r
  assume "G E s0 C s'" "toks s' = seekIn [code] (toks s)" "r = (toks s' \<noteq> [])"
  then show "Q r s'"
    using seekIn_head [of "[code]" "toks s"] assms(2,3) [of s'] seekIn_length [of "[code]" "toks s"]
    by (cases r) auto
qed

lemma wp_seekAndConsumeToken_le [wp_rules]:
  assumes "G E s0 C s"
    and "\<And>s'. G E s0 C s' \<Longrightarrow> length (toks s') < length (toks s) \<Longrightarrow> Q True s'"
    and "\<And>s'. G E s0 C s' \<Longrightarrow> toks s' = [] \<Longrightarrow> Q False s'"
  shows "wp (seekAndConsumeToken E code) Q s"
proof (rule wp_seekAndConsumeToken [OF assms(1)])
  fix s' r
  assume s': "G E s0 C s'" "toks s' = tl (seekIn [code] (toks s))" "r = (seekIn [code] (toks s) \<noteq> [])"
  have "length (seekIn [code] (toks s)) \<le> length (toks s)" by (rule seekIn_length)
  then show "Q r s'" using s' assms(2,3) [of s'] by (cases r) auto
qed

lemma wp_seekCloseParen_le [wp_rules]:
  assumes "G E s0 C s"
    and "\<And>s'. G E s0 C s' \<Longrightarrow> length (toks s') < length (toks s) \<Longrightarrow> Q True s'"
    and "\<And>s'. G E s0 C s' \<Longrightarrow> toks s' = [] \<Longrightarrow> Q False s'"
  shows "wp (seekCloseParen E) Q s"
proof (rule wp_seekCloseParen [OF assms(1)])
  fix s' r
  assume s': "G E s0 C s'" "(r, toks s') = closeParen 1 (toks s)"
  then have "fst (closeParen 1 (toks s)) = r" "snd (closeParen 1 (toks s)) = toks s'"
    by (metis fst_conv, metis snd_conv)
  then show "Q r s'"
    using closeParen_less [of 1 "toks s"] closeParen_end [of 1 "toks s"] assms(2,3) [of s'] s'(1)
    by (cases r) auto
qed

section \<open>Recovery\<close>

text \<open>
  A loop that keeps \<open>G\<close>, a property \<open>J\<close> of its accumulator, and consumes a token in every
  round that is followed by another one.
\<close>

lemma wp_loopM_le:
  assumes start: "G E s0 C s" "J a"
    and body: "\<And>a t. G E s0 C t \<Longrightarrow> J a \<Longrightarrow> length (toks t) \<le> length (toks s) \<Longrightarrow> wp (body a)
      (\<lambda>r t'. case r of Inl a' \<Rightarrow> G E s0 C t' \<and> J a' \<and> length (toks t') < length (toks t) | Inr x \<Rightarrow> Q x t') t"
  shows "wp (loopM E b body a) Q s"
proof (rule wp_loopM [where I = "\<lambda>a t. G E s0 C t \<and> J a \<and> length (toks t) \<le> length (toks s)"])
  fix a t
  assume "G E s0 C t \<and> J a \<and> length (toks t) \<le> length (toks s)"
  then show "wp (body a) (\<lambda>r t'. case r of Inl a' \<Rightarrow> (G E s0 C t' \<and> J a' \<and> length (toks t') \<le> length (toks s)) \<and>
      length (toks t') < length (toks t) | Inr x \<Rightarrow> Q x t') t"
    by (intro wp_conseq [OF body]) (auto split: sum.splits)
qed (use start in \<open>auto dest: G_fuel\<close>)

lemmas wp_loop = wp_loopM_le [where J = "\<lambda>_. True"]

lemma wp_seekSemi [wp_rules]:
  assumes "G E s0 C s"
    and "\<And>s'. G E s0 C s' \<Longrightarrow> length (toks s') \<le> length (toks s) \<Longrightarrow> headCode (toks s') = TKN_SEMI \<Longrightarrow> Q True s'"
    and "\<And>s'. G E s0 C s' \<Longrightarrow> toks s' = [] \<Longrightarrow> Q False s'"
  shows "wp (seekSemi E) Q s"
  using assms(1) unfolding seekSemi_def
  by (auto simp: wp_simps split: if_split_asm intro!: wp_loop [where ?s0.0 = s0 and C = C] wp_rules [where E = E and ?s0.0 = s0 and C = C] assms(2,3))

lemma wp_peekIdentifier [wp_rules]:
  assumes "G E s0 C s"
    and "\<And>s' r. G E s0 C s' \<Longrightarrow> toks s' = toks s \<Longrightarrow> Q r s'"
  shows "wp peekIdentifier Q s"
  using assms(1) unfolding peekIdentifier_def
  by (auto simp: wp_simps split: if_split_asm intro!: wp_peekToken [where E = E and ?s0.0 = s0 and C = C]
      wp_rules [where E = E and ?s0.0 = s0 and C = C] assms(2))

lemma wp_seekEndTag [wp_rules]:
  assumes "G E s0 C s"
    and "\<And>s'. G E s0 C s' \<Longrightarrow> length (toks s') \<le> length (toks s) \<Longrightarrow> headCode (toks s') = TKN_END \<Longrightarrow> Q True s'"
    and "\<And>s'. G E s0 C s' \<Longrightarrow> toks s' = [] \<Longrightarrow> Q False s'"
  shows "wp (seekEndTag E tag) Q s"
  using assms(1) unfolding seekEndTag_def
  by (auto simp: wp_simps split: if_split_asm intro!: wp_loop [where ?s0.0 = s0 and C = C] wp_rules [where E = E and ?s0.0 = s0 and C = C] assms(2,3))

lemma wp_seekAndConsumeEndTag [wp_rules]:
  assumes "G E s0 C s"
    and "\<And>s'. G E s0 C s' \<Longrightarrow> length (toks s') < length (toks s) \<Longrightarrow> Q True s'"
    and "\<And>s'. G E s0 C s' \<Longrightarrow> toks s' = [] \<Longrightarrow> Q False s'"
  shows "wp (seekAndConsumeEndTag E tag) Q s"
  using assms(1) unfolding seekAndConsumeEndTag_def
  by (auto simp: wp_simps split: if_split_asm intro!: wp_rules [where E = E and ?s0.0 = s0 and C = C] assms(2,3))

lemma wp_seekEndIf [wp_rules]:
  assumes "G E s0 C s"
    and "\<And>s' r. G E s0 C s' \<Longrightarrow> length (toks s') \<le> length (toks s) \<Longrightarrow> Q r s'"
  shows "wp (seekEndIf E) Q s"
  using assms(1) unfolding seekEndIf_def
  by (auto simp: wp_simps split: if_split_asm intro!: wp_loop [where ?s0.0 = s0 and C = C] wp_rules [where E = E and ?s0.0 = s0 and C = C] assms(2))

lemma wp_seekEndLoop [wp_rules]:
  assumes "G E s0 C s"
    and "\<And>s' r. G E s0 C s' \<Longrightarrow> length (toks s') \<le> length (toks s) \<Longrightarrow> Q r s'"
  shows "wp (seekEndLoop E tag) Q s"
  using assms(1) unfolding seekEndLoop_def
  by (auto simp: wp_simps split: if_split_asm intro!: wp_loop [where ?s0.0 = s0 and C = C] wp_rules [where E = E and ?s0.0 = s0 and C = C] assms(2))

text \<open>The tokens after a name, which is skipped without being parsed.\<close>

function nameEnd :: "token list \<Rightarrow> token list" where
  "nameEnd [] = []"
| "nameEnd (t # ts) =
     (if tk_code t \<in> {TKN_IDENTIFIER, TKN_DOT, TKN_CHARACTER, TKN_ALL} then nameEnd ts
      else if tk_code t = TKN_LPAREN then nameEnd (snd (closeParen 1 ts))
      else t # ts)"
  by pat_completeness auto
termination
  by (relation "measure length") (auto simp: less_Suc_eq_le closeParen_length)

lemma nameEnd_length: "length (nameEnd ts) \<le> length ts"
proof (induction ts rule: nameEnd.induct)
  case (2 t ts)
  then show ?case using closeParen_length [of 1 ts] by (auto intro: le_SucI)
qed simp

lemma nameEnd_skip:
  "headCode ts \<in> {TKN_IDENTIFIER, TKN_DOT, TKN_CHARACTER, TKN_ALL} \<Longrightarrow> nameEnd (tl ts) = nameEnd ts"
  "headCode ts = TKN_LPAREN \<Longrightarrow> nameEnd (snd (closeParen 1 (tl ts))) = nameEnd ts"
  "headCode ts \<notin> {TKN_IDENTIFIER, TKN_DOT, TKN_CHARACTER, TKN_ALL, TKN_LPAREN} \<Longrightarrow> nameEnd ts = ts"
  by (cases ts; auto)+

lemma paren_less:
  assumes "(r, ts') = closeParen (Suc 0) (tl (toks t))" "G E s0 C t" "headCode (toks t) = TKN_LPAREN"
  shows "ts' = snd (closeParen (Suc 0) (tl (toks t)))" "length ts' < length (toks t)"
proof -
  show e: "ts' = snd (closeParen (Suc 0) (tl (toks t)))" using assms(1) by (metis snd_conv)
  have "length (tl (toks t)) < length (toks t)" using assms(2,3) by (intro G_nonempty) auto
  then show "length ts' < length (toks t)"
    using closeParen_length [of "Suc 0" "tl (toks t)"] unfolding e by (rule order.strict_trans1 [rotated])
qed

lemma wp_seekNameEnd [wp_funs]:
  assumes start: "G E s0 C s"
    and Q: "\<And>s'. G E s0 C s' \<Longrightarrow> toks s' = nameEnd (toks s) \<Longrightarrow> Q () s'"
  shows "wp (seekNameEnd E) Q s"
  unfolding seekNameEnd_def
proof (rule wp_loopM [where I = "\<lambda>_ t. G E s0 C t \<and> nameEnd (toks t) = nameEnd (toks s)"])
  fix a :: unit and t
  assume inv: "G E s0 C t \<and> nameEnd (toks t) = nameEnd (toks s)"
  show "wp (do {
     c \<leftarrow> currentTokenCode;
     if c \<in> {TKN_IDENTIFIER, TKN_DOT, TKN_CHARACTER, TKN_ALL} then do { _ \<leftarrow> ignoreToken; ret (Inl ()) }
     else if c = TKN_LPAREN then do { _ \<leftarrow> ignoreToken; _ \<leftarrow> seekCloseParen E; ret (Inl ()) }
     else ret (Inr ()) })
     (\<lambda>r t'. case r of Inl d' \<Rightarrow> (G E s0 C t' \<and> nameEnd (toks t') = nameEnd (toks s)) \<and>
        length (toks t') < length (toks t) | Inr x \<Rightarrow> Q x t') t"
  proof (cases "headCode (toks t) = TKN_LPAREN")
    case True
    have G: "G E s0 C t" using inv by simp
    have "wp (do { _ \<leftarrow> ignoreToken; _ \<leftarrow> seekCloseParen E; ret (Inl ()) }) (\<lambda>r t'. case r of
        Inl d' \<Rightarrow> (G E s0 C t' \<and> nameEnd (toks t') = nameEnd (toks s)) \<and> length (toks t') < length (toks t)
        | Inr x \<Rightarrow> Q x t') t"
      unfolding wp_bind
    proof (rule wp_ignoreToken [OF G], rule wp_seekCloseParen, assumption)
      fix t1 t2 r
      assume t2: "toks t1 = tl (toks t)" "G E s0 C t2" "(r, toks t2) = closeParen 1 (toks t1)"
      then show "wp (ret (Inl ())) (\<lambda>r t'. case r of
        Inl d' \<Rightarrow> (G E s0 C t' \<and> nameEnd (toks t') = nameEnd (toks s)) \<and> length (toks t') < length (toks t)
        | Inr x \<Rightarrow> Q x t') t2"
        using paren_less [OF _ G True, of r "toks t2"] nameEnd_skip(2) [OF True] inv
        by (simp add: wp_simps)
    qed
    then show ?thesis using True by (simp add: wp_simps)
  next
    case False
    then show ?thesis using inv nameEnd_skip(1,3) [of "toks t"] G_nonempty [of E s0 C t]
      by (auto simp: wp_simps split: if_split_asm intro!: wp_ignoreToken Q)
  qed
next
  show "G E s0 C s \<and> nameEnd (toks s) = nameEnd (toks s)" using start by simp
  show "length (toks s) < en_fuel E" using start by (rule G_fuel)
qed

lemma wp_seekNameEnd_le [wp_rules]:
  assumes "G E s0 C s"
    and "\<And>s'. G E s0 C s' \<Longrightarrow> length (toks s') \<le> length (toks s) \<Longrightarrow> Q () s'"
  shows "wp (seekNameEnd E) Q s"
  by (rule wp_seekNameEnd [OF assms(1)], rule assms(2)) (auto simp: nameEnd_length)

section \<open>Looking ahead\<close>

lemma wp_unitExprFollows [wp_rules]:
  assumes "G E s0 C s"
    and "\<And>s'. G E s0 C s' \<Longrightarrow> toks s' = toks s \<Longrightarrow>
      Q (headCode (toks s) = TKN_LPAREN \<and> headCode (tl (toks s)) = TKN_RPAREN) s'"
  shows "wp unitExprFollows Q s"
  using assms by (auto simp: unitExprFollows_def wp_simps intro!: wp_nextTokenIs)

lemma wp_keywordSelectionFollows [wp_rules]:
  assumes "G E s0 C s"
    and "\<And>s'. G E s0 C s' \<Longrightarrow> toks s' = toks s \<Longrightarrow>
      Q (headCode (toks s) = TKN_IDENTIFIER \<and> headCode (tl (toks s)) = TKN_RDARROW) s'"
  shows "wp keywordSelectionFollows Q s"
  using assms by (auto simp: keywordSelectionFollows_def wp_simps intro!: wp_nextTokenIs)

lemma wp_taggedStmtFollows [wp_rules]:
  assumes "G E s0 C s"
    and "\<And>s'. G E s0 C s' \<Longrightarrow> toks s' = toks s \<Longrightarrow>
      Q (headCode (toks s) = TKN_IDENTIFIER \<and> headCode (tl (toks s)) = TKN_COLON) s'"
  shows "wp taggedStmtFollows Q s"
  using assms by (auto simp: taggedStmtFollows_def wp_simps intro!: wp_nextTokenIs)

lemma wp_qualificationFollows [wp_rules]:
  assumes "G E s0 C s"
    and "\<And>s'. G E s0 C s' \<Longrightarrow> toks s' = toks s \<Longrightarrow>
      Q (headCode (toks s) = TKN_QUOTE \<and> headCode (tl (toks s)) = TKN_LPAREN) s'"
  shows "wp qualificationFollows Q s"
  using assms by (auto simp: qualificationFollows_def wp_simps intro!: wp_nextTokenIs)

lemma wp_assignmentFollows [wp_rules]:
  assumes "G E s0 C s"
    and Q: "\<And>s'. G E s0 C s' \<Longrightarrow> toks s' = toks s \<Longrightarrow>
      Q (headCode (nameEnd (toks s)) = TKN_ASSIGN) s'"
  shows "wp (assignmentFollows E) Q s"
  unfolding assignmentFollows_def wp_bind
proof (rule wp_beginExcursion [OF assms(1)], rule wp_seekNameEnd)
  fix s1 s2
  assume "G E s1 C s1" "toks s1 = toks s" "excursion E s0 C s s1" "G E s1 C s2" "toks s2 = nameEnd (toks s1)"
  then show "wp (currentTokenIs TKN_ASSIGN) (\<lambda>r. wp endExcursion (\<lambda>u. wp (ret r) Q)) s2"
    by (auto simp: wp_simps split: if_split_asm intro!: wp_endExcursion Q)
qed

text \<open>The loops of the tests, which run inside an excursion.\<close>

lemma wp_skipParens:
  assumes "G E s0 C s"
    and "\<And>s'. G E s0 C s' \<Longrightarrow> length (toks s') \<le> length (toks s) \<Longrightarrow> Q () s'"
  shows "wp (loopM E () (\<lambda>_. do {
           _ \<leftarrow> ignoreToken;
           _ \<leftarrow> seekCloseParen E;
           more \<leftarrow> currentTokenIs TKN_LPAREN;
           ret (if more then Inl () else Inr ()) }) ()) Q s"
  using assms(1)
  by (auto simp: wp_simps split: if_split_asm intro!: wp_loop [where ?s0.0 = s0 and C = C] wp_rules [where E = E and ?s0.0 = s0 and C = C] assms(2))

lemma wp_selectedComponentFollows [wp_rules]:
  assumes "G E s0 C s"
    and Q: "\<And>s' r. G E s0 C s' \<Longrightarrow> toks s' = toks s \<Longrightarrow> (r \<Longrightarrow> headCode (toks s) = TKN_IDENTIFIER) \<Longrightarrow> Q r s'"
  shows "wp (selectedComponentFollows E) Q s"
proof (cases "headCode (toks s) = TKN_IDENTIFIER")
  case True
  have rest: "wp (do { beginExcursion;
         _ \<leftarrow> ignoreToken;
         loopM E () (\<lambda>_. do {
           _ \<leftarrow> ignoreToken;
           _ \<leftarrow> seekCloseParen E;
           more \<leftarrow> currentTokenIs TKN_LPAREN;
           ret (if more then Inl () else Inr ()) }) ();
         status \<leftarrow> currentTokenIs TKN_DOT;
         endExcursion;
         ret status }) Q s'" if "G E s0 C s'" "toks s' = toks s" for s'
    unfolding wp_bind
    apply (rule wp_beginExcursion [OF that(1)], rule wp_ignoreToken, assumption, rule wp_skipParens, assumption)
    using that(2) True
    by (auto simp: wp_simps intro!: wp_endExcursion Q)
  show ?thesis
    unfolding selectedComponentFollows_def using True
    by (auto simp: wp_simps intro!: wp_peekTokenCode [OF assms(1)] Q rest [simplified wp_simps])
qed (use assms(1) in \<open>auto simp: selectedComponentFollows_def wp_simps intro: Q\<close>)

lemma wp_aggregateLoop:
  assumes "G E s0 C s"
    and "\<And>s' r. G E s0 C s' \<Longrightarrow> length (toks s') \<le> length (toks s) \<Longrightarrow> Q r s'"
  shows "wp (loopM E False (\<lambda>_. do {
       more \<leftarrow> seekTokens E [TKN_LPAREN, TKN_COMMA, TKN_OTHERS, TKN_RDARROW, TKN_RPAREN];
       if \<not> more then ret (Inr False)
       else do {
         c \<leftarrow> currentTokenCode;
         if c \<in> {TKN_COMMA, TKN_RDARROW, TKN_OTHERS} then ret (Inr True)
         else if c = TKN_LPAREN then do {
           _ \<leftarrow> ignoreToken;
           closed \<leftarrow> seekCloseParen E;
           ret (if closed then Inl () else Inr False) }
         else ret (Inr False) } }) ()) Q s"
  using assms(1)
  by (auto simp: wp_simps split: if_split_asm intro!: wp_loop [where ?s0.0 = s0 and C = C] wp_rules [where E = E and ?s0.0 = s0 and C = C] assms(2))

lemma wp_aggregateFollows [wp_rules]:
  assumes "G E s0 C s" "headCode (toks s) = TKN_LPAREN \<or> ps_halt s0 \<noteq> None"
    and Q: "\<And>s' r. G E s0 C s' \<Longrightarrow> toks s' = toks s \<Longrightarrow> Q r s'"
  shows "wp (aggregateFollows E) Q s"
  unfolding aggregateFollows_def wp_bind currentTokenIs_def wp_gets current_code_simps wp_return
  apply (rule wp_assertM [OF assms(1,2)], rule wp_beginExcursion, assumption)
  apply (rule wp_ignoreToken, assumption, rule wp_aggregateLoop, assumption)
   apply (rule wp_endExcursion, assumption, assumption)
   apply (simp add: Q)
  done

lemma wp_consumeName [wp_rules]:
  assumes "G E s0 C s"
    and "\<And>s' r. G E s0 C s' \<Longrightarrow> length (toks s') \<le> length (toks s) \<Longrightarrow> Q r s'"
  shows "wp (consumeName E) Q s"
  using assms(1) unfolding consumeName_def consumeNameTail_def
  by (auto simp: wp_simps split: if_split_asm intro!: wp_loop [where ?s0.0 = s0 and C = C] wp_rules [where E = E and ?s0.0 = s0 and C = C] assms(2))

section \<open>Identifiers and end tags\<close>

lemma wp_parseCharacter [wp_rules]:
  assumes "G E s0 C s"
    and "\<And>s' x. G E s0 C s' \<Longrightarrow> length (toks s') < length (toks s) \<Longrightarrow> Q (Some x) s'"
    and "\<And>s'. G E s0 C s' \<Longrightarrow> length (toks s') \<le> length (toks s) \<Longrightarrow> Q None s'"
  shows "wp parseCharacter Q s"
  using assms(1) unfolding parseCharacter_def by (auto simp: wp_simps split: if_split_asm intro!: wp_rules [where E = E and ?s0.0 = s0 and C = C] assms(2,3))

lemma wp_parseIdentifierOrCharacter [wp_rules]:
  assumes "G E s0 C s"
    and "\<And>s' x. G E s0 C s' \<Longrightarrow> length (toks s') < length (toks s) \<Longrightarrow> Q (Some x) s'"
    and "\<And>s'. G E s0 C s' \<Longrightarrow> length (toks s') \<le> length (toks s) \<Longrightarrow> Q None s'"
  shows "wp parseIdentifierOrCharacter Q s"
  using assms(1) unfolding parseIdentifierOrCharacter_def by (auto simp: wp_simps split: if_split_asm intro!: wp_rules [where E = E and ?s0.0 = s0 and C = C] assms(2,3))

lemma wp_parseAnyIdentifier [wp_rules]:
  assumes "G E s0 C s"
    and "\<And>s' x. G E s0 C s' \<Longrightarrow> length (toks s') < length (toks s) \<Longrightarrow> Q (Some x) s'"
    and "\<And>s'. G E s0 C s' \<Longrightarrow> length (toks s') \<le> length (toks s) \<Longrightarrow> Q None s'"
  shows "wp parseAnyIdentifier Q s"
  using assms(1) unfolding parseAnyIdentifier_def by (auto simp: wp_simps split: if_split_asm intro!: wp_rules [where E = E and ?s0.0 = s0 and C = C] assms(2,3))

lemma wp_checkEndTag [wp_rules]:
  assumes "G E s0 C s"
    and "\<And>s'. G E s0 C s' \<Longrightarrow> length (toks s') \<le> length (toks s) \<Longrightarrow> Q () s'"
  shows "wp (checkEndTag tag) Q s"
  using assms(1) unfolding checkEndTag_def
  by (auto simp: wp_simps split: option.split intro!: wp_rules [where E = E and ?s0.0 = s0 and C = C] assms(2))

lemma wp_parseEndTag [wp_rules]:
  assumes "G E s0 C s"
    and "\<And>s'. G E s0 C s' \<Longrightarrow> length (toks s') < length (toks s) \<Longrightarrow> Q True s'"
    and "\<And>s'. G E s0 C s' \<Longrightarrow> length (toks s') \<le> length (toks s) \<Longrightarrow> Q False s'"
  shows "wp (parseEndTag tag) Q s"
  using assms(1) unfolding parseEndTag_def by (auto simp: wp_simps split: if_split_asm intro!: wp_rules [where E = E and ?s0.0 = s0 and C = C] assms(2,3))

lemma wp_parseLoopEndTag [wp_rules]:
  assumes "G E s0 C s"
    and "\<And>s'. G E s0 C s' \<Longrightarrow> length (toks s') < length (toks s) \<Longrightarrow> Q True s'"
    and "\<And>s'. G E s0 C s' \<Longrightarrow> length (toks s') \<le> length (toks s) \<Longrightarrow> Q False s'"
  shows "wp (parseLoopEndTag tag) Q s"
  using assms(1) unfolding parseLoopEndTag_def by (auto simp: wp_simps split: if_split_asm intro!: wp_rules [where E = E and ?s0.0 = s0 and C = C] assms(2,3))

end
