(* ===== verification/NameSpec.thy ===== *)
theory NameSpec
  imports LookaheadSpec
begin

text \<open>
  The rules of names and subtype indications, over any parser of expressions that keeps the
  contract \<open>expr_parser\<close>.
\<close>

named_theorems expr_rules \<open>rules of the operations that parse expressions\<close>

section \<open>The contract of a parser of expressions\<close>

text \<open>
  \<open>room k s0 n\<close>: there are at most \<open>n\<close> tokens and \<open>n\<close> is within the nesting \<open>k\<close> of the
  parser; when the run had stopped before \<open>s0\<close>, nothing is asked.
\<close>

definition room :: "nat \<Rightarrow> ('p, 'v) pstate \<Rightarrow> nat \<Rightarrow> bool" where
  "room k s0 n \<longleftrightarrow> n \<le> k \<or> ps_halt s0 \<noteq> None"

locale expr_parser =
  fixes E :: "('p, 'v) env" and k :: nat and pe :: "('p, 'v, 'p node) pm"
  assumes pe: "G E s0 C s \<Longrightarrow> room k s0 n \<Longrightarrow> length (toks s) < n \<Longrightarrow>
      wp pe (\<lambda>r s'. G E s0 C s' \<and> length (toks s') \<le> length (toks s)) s"
begin

lemma wp_pe [expr_rules]:
  assumes "G E s0 C s" "room k s0 n" "length (toks s) < n"
    and "\<And>s' r. G E s0 C s' \<Longrightarrow> length (toks s') \<le> length (toks s) \<Longrightarrow> Q r s'"
  shows "wp pe Q s"
  by (rule wp_conseq [OF pe [OF assms(1-3)]]) (use assms(4) in blast)

end

section \<open>Names\<close>

lemma wp_parseDirectName [wp_rules]:
  assumes "G E s0 C s"
    and "\<And>s' r. G E s0 C s' \<Longrightarrow> length (toks s') \<le> length (toks s) \<Longrightarrow> Q r s'"
  shows "wp (parseDirectName E opt) Q s"
  using assms(1) unfolding parseDirectName_def
  by (auto simp: wp_simps isInvalid_iff split: if_split_asm option.splits intro!: wp_rules [where E = E and ?s0.0 = s0 and C = C] assms(2))

lemma wp_parseSelectedComponent [wp_rules]:
  assumes "G E s0 C s" "isValid pfx"
    and "\<And>s' r. G E s0 C s' \<Longrightarrow> length (toks s') \<le> length (toks s) \<Longrightarrow> Q r s'"
  shows "wp (parseSelectedComponent E pfx opt) Q s"
  using assms(1,2) unfolding parseSelectedComponent_def
  by (auto simp: wp_simps isInvalid_iff split: if_split_asm option.splits intro!: wp_rules [where E = E and ?s0.0 = s0 and C = C] assms(3))

lemma wp_parseAttribute [wp_rules]:
  assumes "G E s0 C s" "isValid pfx" "headCode (toks s) = TKN_ATTRIBUTE"
    and "\<And>s' r. G E s0 C s' \<Longrightarrow> length (toks s') < length (toks s) \<Longrightarrow> Q r s'"
  shows "wp (parseAttribute E pfx opt) Q s"
  using assms(1,2,3) unfolding parseAttribute_def
  by (auto simp: wp_simps isInvalid_iff split: if_split_asm intro!: wp_rules [where E = E and ?s0.0 = s0 and C = C] assms(4))

lemma wp_rangeFollows [wp_rules]:
  assumes "G E s0 C s"
    and Q: "\<And>s' r. G E s0 C s' \<Longrightarrow> toks s' = toks s \<Longrightarrow> Q r s'"
  shows "wp (rangeFollows E) Q s"
  unfolding rangeFollows_def wp_bind currentTokenCode_def wp_gets wp_return
  by (rule wp_beginExcursion [OF assms(1)], rule wp_consumeName, assumption,
      rule wp_endExcursion, assumption, assumption, rule Q)

context expr_parser begin

lemma wp_parseParameterAssociation [expr_rules]:
  assumes "G E s0 C s" "room k s0 n" "length (toks s) \<le> n" "headCode (toks s) = TKN_IDENTIFIER" "headCode (tl (toks s)) = TKN_RDARROW"
    and "\<And>s' r. G E s0 C s' \<Longrightarrow> length (toks s') < length (toks s) \<Longrightarrow> Q r s'"
  shows "wp (parseParameterAssociation E pe) Q s"
  using assms(1,2,3,4,5) unfolding parseParameterAssociation_def
  by (auto simp: wp_simps isInvalid_iff split: if_split_asm intro!: wp_rules [where E = E and ?s0.0 = s0 and C = C]
      expr_rules [where ?s0.0 = s0 and C = C and n = n] assms(6))

lemma wp_arguments [expr_rules]:
  assumes "G E s0 C s" "room k s0 n" "length (toks s) < n" "\<forall>a \<in> set (fst acc). isValid a"
    and "\<And>s' arguments. G E s0 C s' \<Longrightarrow> length (toks s') \<le> length (toks s) \<Longrightarrow>
      \<forall>a \<in> set arguments. isValid a \<Longrightarrow> Q (Some arguments) s'"
    and "\<And>s'. G E s0 C s' \<Longrightarrow> length (toks s') \<le> length (toks s) \<Longrightarrow> Q None s'"
  shows "wp (loopM E None (argumentRound E pe) acc) Q s"
  using assms(1-4)
  by (auto simp: argumentRound_def wp_simps split: if_split_asm prod.splits
      intro!: wp_loopM_le [where ?s0.0 = s0 and C = C and J = "\<lambda>acc. \<forall>a \<in> set (fst acc). isValid a"]
        wp_rules [where E = E and ?s0.0 = s0 and C = C]
        expr_rules [where ?s0.0 = s0 and C = C and n = n] assms(5,6))

lemma wp_parseApplication [expr_rules]:
  assumes "G E s0 C s" "room k s0 n" "length (toks s) \<le> n" "isValid pfx" "headCode (toks s) = TKN_LPAREN"
    and "\<And>s' r. G E s0 C s' \<Longrightarrow> length (toks s') < length (toks s) \<Longrightarrow> Q r s'"
  shows "wp (parseApplication E pe pfx) Q s"
  using assms(1,2,3,4,5) unfolding parseApplication_def
  by (auto simp: wp_simps isInvalid_iff split: if_split_asm option.splits intro!: wp_rules [where E = E and ?s0.0 = s0 and C = C]
      expr_rules [where ?s0.0 = s0 and C = C and n = n] assms(6))

text \<open>The test of \<open>Elide_Application\<close>, which runs in an excursion.\<close>

lemma wp_selectorFollows:
  assumes "G E s0 C s"
    and f: "\<And>s3 b. G E s0 C s3 \<Longrightarrow> toks s3 = toks s \<Longrightarrow> wp (f b) Q s3"
  shows "wp beginExcursion (\<lambda>_. wp (do {
      _ \<leftarrow> ignoreToken;
      b \<leftarrow> andM (seekCloseParen E) (gets (\<lambda>s. headCode (toks s) = TKN_DOT));
      endExcursion;
      f b }) Q) s"
  unfolding wp_bind
  by (rule wp_beginExcursion [OF assms(1)], rule wp_ignoreToken, assumption)
     (auto simp: wp_andM wp_gets intro!: wp_seekCloseParen_le wp_endExcursion f)

lemma wp_nameSuffix [expr_rules]:
  assumes "G E s0 C s" "room k s0 n" "length (toks s) \<le> n" "isValid pfx"
    and "\<And>s' p. G E s0 C s' \<Longrightarrow> length (toks s') < length (toks s) \<Longrightarrow> isValid p \<Longrightarrow> Q (Inl p) s'"
    and "\<And>s' p b. G E s0 C s' \<Longrightarrow> length (toks s') \<le> length (toks s) \<Longrightarrow> isInvalid p \<or> isValid p \<Longrightarrow> Q (Inr (p, b)) s'"
  shows "wp (nameSuffix E pe opt pfx) Q s"
  using assms(1-4) unfolding nameSuffix_def
  by (auto simp: wp_simps Let_def isInvalid_iff split: if_split_asm
      intro!: wp_selectorFollows
        wp_rules [where E = E and ?s0.0 = s0 and C = C]
        expr_rules [where ?s0.0 = s0 and C = C and n = n] assms(5,6))

lemma wp_parseName [expr_rules]:
  assumes "G E s0 C s" "room k s0 n" "length (toks s) \<le> n"
    and "\<And>s' r. G E s0 C s' \<Longrightarrow> length (toks s') \<le> length (toks s) \<Longrightarrow> Q r s'"
  shows "wp (parseName E pe opt) Q s"
  using assms(1-3) unfolding parseName_def
  by (auto simp: wp_simps isInvalid_iff split: if_split_asm prod.splits
      intro!: wp_loopM_le [where ?s0.0 = s0 and C = C and J = isValid]
        wp_rules [where E = E and ?s0.0 = s0 and C = C]
        expr_rules [where ?s0.0 = s0 and C = C and n = n] assms(4))

text \<open>Subtype indications and discrete subtype definitions.\<close>

lemma wp_parseRange [expr_rules]:
  assumes "G E s0 C s" "room k s0 n" "length (toks s) < n"
    and "\<And>s' lower upper b. G E s0 C s' \<Longrightarrow> length (toks s') \<le> length (toks s) \<Longrightarrow>
      b \<longrightarrow> isValid lower \<and> isValid upper \<Longrightarrow> Q (lower, upper, b) s'"
  shows "wp (parseRange pe) Q s"
  using assms(1-3) unfolding parseRange_def
  by (auto simp: wp_simps isInvalid_iff split: if_split_asm
      intro!: wp_rules [where E = E and ?s0.0 = s0 and C = C]
        expr_rules [where ?s0.0 = s0 and C = C and n = n] assms(4))

lemma wp_parseSubtypeIndicationRange [expr_rules]:
  assumes "G E s0 C s" "room k s0 n" "length (toks s) \<le> n" "headCode (toks s) = TKN_RANGE" "isValid mark"
    and "\<And>s' r. G E s0 C s' \<Longrightarrow> length (toks s') \<le> length (toks s) \<Longrightarrow> Q r s'"
  shows "wp (parseSubtypeIndicationRange E pe mark) Q s"
  using assms(1-5) unfolding parseSubtypeIndicationRange_def
  by (auto simp: wp_simps isInvalid_iff split: if_split_asm prod.splits
      intro!: wp_rules [where E = E and ?s0.0 = s0 and C = C]
        expr_rules [where ?s0.0 = s0 and C = C and n = n] assms(6))

lemma wp_parseSubtypeIndicationArgument [expr_rules]:
  assumes "G E s0 C s" "room k s0 n" "length (toks s) < n"
    and "\<And>s' r. G E s0 C s' \<Longrightarrow> length (toks s') \<le> length (toks s) \<Longrightarrow> Q r s'"
  shows "wp (parseSubtypeIndicationArgument E pe) Q s"
  using assms(1-3) unfolding parseSubtypeIndicationArgument_def
  by (auto simp: wp_simps isInvalid_iff split: if_split_asm
      intro!: wp_rules [where E = E and ?s0.0 = s0 and C = C]
        expr_rules [where ?s0.0 = s0 and C = C and n = n] assms(4))

lemma wp_parseSubtypeIndicationArguments [expr_rules]:
  assumes "G E s0 C s" "room k s0 n" "length (toks s) \<le> n" "headCode (toks s) = TKN_LPAREN" "isValid mark"
    and "\<And>s' r. G E s0 C s' \<Longrightarrow> length (toks s') \<le> length (toks s) \<Longrightarrow> Q r s'"
  shows "wp (parseSubtypeIndicationArguments E pe mark) Q s"
  using assms(1-5) unfolding parseSubtypeIndicationArguments_def
  by (auto simp: wp_simps isInvalid_iff split: if_split_asm option.splits
      intro!: wp_loopM_le [where ?s0.0 = s0 and C = C and J = "\<lambda>params. \<forall>p \<in> set params. isValid p"]
        wp_rules [where E = E and ?s0.0 = s0 and C = C]
        expr_rules [where ?s0.0 = s0 and C = C and n = n] assms(6))

lemma wp_parseSubtypeIndication [expr_rules]:
  assumes "G E s0 C s" "room k s0 n" "length (toks s) \<le> n"
    and "\<And>s' r. G E s0 C s' \<Longrightarrow> length (toks s') \<le> length (toks s) \<Longrightarrow> Q r s'"
  shows "wp (parseSubtypeIndication E pe) Q s"
  using assms(1-3) unfolding parseSubtypeIndication_def
  by (auto simp: wp_simps isInvalid_iff split: if_split_asm
      intro!: wp_rules [where E = E and ?s0.0 = s0 and C = C]
        expr_rules [where ?s0.0 = s0 and C = C and n = n] assms(4))

lemma wp_parseDSTDefinition [expr_rules]:
  assumes "G E s0 C s" "room k s0 n" "length (toks s) < n"
    and "\<And>s' r. G E s0 C s' \<Longrightarrow> length (toks s') \<le> length (toks s) \<Longrightarrow> Q r s'"
  shows "wp (parseDSTDefinition E pe diamond) Q s"
  using assms(1-3) unfolding parseDSTDefinition_def
  by (auto simp: wp_simps isInvalid_iff split: if_split_asm
      intro!: wp_rules [where E = E and ?s0.0 = s0 and C = C]
        expr_rules [where ?s0.0 = s0 and C = C and n = n] assms(4))

end

end
