(* ===== verification/ExprSpec.thy ===== *)
theory ExprSpec
  imports NameSpec
begin

text \<open>
  The rules of expressions, over the contract of the parser of nested expressions; the fuel
  of the environment is enough for every nesting, so \<open>parseExpr\<close> keeps the contract.
\<close>

lemma decimalLiteral_halt: "decimalLiteralToAPInt ops str = Inl h \<Longrightarrow> halt_ok (Some h)"
  by (auto simp: decimalLiteralToAPInt_def Let_def halt_ok_def split: if_splits option.splits)

lemma wp_halt_again:
  assumes "G E s0 C s" "ps_halt s0 \<noteq> None" and "Q () s"
  shows "wp (halt h) Q s"
  using G_halted [OF assms(1,2)] assms(3) by (auto simp: halt_def wp_simps)

lemma functionGlyph_logical: "isLogicalCode c \<Longrightarrow> functionGlyph c"
  by (auto simp: isLogicalCode_def)

lemma wp_parseIntegerLiteral [wp_rules]:
  assumes "G E s0 C s" "headCode (toks s) = TKN_INTEGER"
    and "\<And>s' r. G E s0 C s' \<Longrightarrow> length (toks s') \<le> length (toks s) \<Longrightarrow> Q r s'"
  shows "wp (parseIntegerLiteral E) Q s"
  using assms(1,2) unfolding parseIntegerLiteral_def
  by (auto simp: wp_simps decimalLiteral_halt split: sum.split
      intro!: wp_rules [where E = E and ?s0.0 = s0 and C = C] wp_halt [where E = E and ?s0.0 = s0 and C = C] assms(3))

lemma wp_parseStringLiteral [wp_rules]:
  assumes "G E s0 C s" "headCode (toks s) = TKN_STRING"
    and "\<And>s' r. G E s0 C s' \<Longrightarrow> length (toks s') \<le> length (toks s) \<Longrightarrow> Q r s'"
  shows "wp (parseStringLiteral E) Q s"
  using assms(1,2) unfolding parseStringLiteral_def
  by (auto simp: wp_simps intro!: wp_rules [where E = E and ?s0.0 = s0 and C = C] assms(3))

lemma wp_skipQualified [wp_rules]:
  assumes "G E s0 C s"
    and "\<And>s'. G E s0 C s' \<Longrightarrow> length (toks s') \<le> length (toks s) \<Longrightarrow> Q () s'"
  shows "wp (skipQualified E) Q s"
  using assms(1) unfolding skipQualified_def
  by (auto simp: wp_simps intro!: wp_rules [where E = E and ?s0.0 = s0 and C = C] assms(2))

lemma wp_applyOperator [wp_rules]:
  assumes "G E s0 C s" "\<forall>a \<in> set (butlast ns). isValid a" "ns \<noteq> []"
    and "\<And>s' r. G E s0 C s' \<Longrightarrow> length (toks s') \<le> length (toks s) \<Longrightarrow> Q r s'"
  shows "wp (applyOperator E opInfo loc ns) Q s"
proof -
  have "isValid (last ns) \<Longrightarrow> \<forall>a \<in> set ns. isValid a"
    using assms(2,3) by (metis append_butlast_last_id in_set_conv_decomp_first set_append Un_iff list.set_intros(1) empty_iff empty_set set_ConsD)
  then show ?thesis
    using assms(1) unfolding applyOperator_def
    by (auto simp: wp_simps intro!: wp_rules [where E = E and ?s0.0 = s0 and C = C] assms(4))
qed

text \<open>The loop over the operators of one precedence, for a parser of the operands.\<close>

lemma wp_binaryLoop:
  assumes "G E s0 C s" "length (toks s) \<le> n" "\<forall>c \<in> codes. functionGlyph c"
    and operand: "\<And>t R. G E s0 C t \<Longrightarrow> length (toks t) \<le> n \<Longrightarrow>
      (\<And>t' r. G E s0 C t' \<Longrightarrow> length (toks t') \<le> length (toks t) \<Longrightarrow> R r t') \<Longrightarrow> wp operand R t"
    and "\<And>s' r. G E s0 C s' \<Longrightarrow> length (toks s') \<le> length (toks s) \<Longrightarrow> Q r s'"
  shows "wp (binaryLoop E codes operand lhs) Q s"
  using assms(1-3) unfolding binaryLoop_def
  by (auto simp: wp_simps split: if_split_asm
      intro!: wp_loop [where ?s0.0 = s0 and C = C] operand wp_rules [where E = E and ?s0.0 = s0 and C = C] assms(5))

text \<open>The test of an allocator, which runs in an excursion.\<close>

lemma wp_haveQualifier:
  assumes "G E s0 C s"
    and f: "\<And>s3 b. G E s0 C s3 \<Longrightarrow> toks s3 = toks s \<Longrightarrow> wp (f b) Q s3"
  shows "wp beginExcursion (\<lambda>_. wp (do {
      b \<leftarrow> andM (consumeName E) qualificationFollows;
      endExcursion;
      f b }) Q) s"
  unfolding wp_bind
  by (rule wp_beginExcursion [OF assms(1)])
     (auto simp: wp_andM intro!: wp_consumeName wp_qualificationFollows wp_endExcursion f)

context expr_parser begin

lemma wp_parseOthersExpr [expr_rules]:
  assumes "G E s0 C s" "room k s0 n" "length (toks s) \<le> n" "headCode (toks s) = TKN_OTHERS"
    and "\<And>s' r. G E s0 C s' \<Longrightarrow> length (toks s') \<le> length (toks s) \<Longrightarrow> Q r s'"
  shows "wp (parseOthersExpr E pe) Q s"
  using assms(1-4) unfolding parseOthersExpr_def
  by (auto simp: wp_simps split: if_split_asm intro!: wp_rules [where E = E and ?s0.0 = s0 and C = C]
        expr_rules [where ?s0.0 = s0 and C = C and n = n] assms(5))

lemma wp_componentKey [expr_rules]:
  assumes "G E s0 C s" "room k s0 n" "length (toks s) < n" "\<forall>a \<in> set keys. isValid a"
    and "\<And>s' keys. G E s0 C s' \<Longrightarrow> length (toks s') \<le> length (toks s) \<Longrightarrow> \<forall>a \<in> set keys. isValid a \<Longrightarrow> Q (Inl keys) s'"
    and "\<And>s' b. G E s0 C s' \<Longrightarrow> length (toks s') \<le> length (toks s) \<Longrightarrow> Q (Inr b) s'"
  shows "wp (componentKey E pe seen keys) Q s"
  using assms(1-4) unfolding componentKey_def
  by (auto simp: wp_simps isInvalid_iff split: if_split_asm intro!: wp_rules [where E = E and ?s0.0 = s0 and C = C]
        expr_rules [where ?s0.0 = s0 and C = C and n = n] assms(5,6))

lemma wp_parseAggregateComponent [expr_rules]:
  assumes "G E s0 C s" "room k s0 n" "length (toks s) < n"
    and "\<And>s' r. G E s0 C s' \<Longrightarrow> length (toks s') \<le> length (toks s) \<Longrightarrow> Q r s'"
  shows "wp (parseAggregateComponent E pe seen) Q s"
  using assms(1-3) unfolding parseAggregateComponent_def
  by (auto simp: wp_simps isInvalid_iff split: if_split_asm sum.splits
      intro!: wp_loopM_le [where ?s0.0 = s0 and C = C and J = "\<lambda>keys. \<forall>a \<in> set keys. isValid a"]
        wp_rules [where E = E and ?s0.0 = s0 and C = C]
        expr_rules [where ?s0.0 = s0 and C = C and n = n] assms(4))

text \<open>
  These two are also reached after the assertion of \<open>parseQualifiedExpr\<close> failed; the run has
  stopped then and the current token need not be a parenthesis.
\<close>

lemma wp_parseAggregate [expr_rules]:
  assumes "G E s0 C s" "room k s0 n"
    and "headCode (toks s) = TKN_LPAREN \<and> length (toks s) \<le> n \<or> ps_halt s0 \<noteq> None \<and> length (toks s) < n"
    and "\<And>s' r. G E s0 C s' \<Longrightarrow> length (toks s') \<le> length (toks s) \<Longrightarrow> Q r s'"
  shows "wp (parseAggregate E pe) Q s"
  using assms(1-3) unfolding parseAggregate_def
  by (auto simp: wp_simps split: if_split_asm prod.splits
      intro!: wp_loop [where ?s0.0 = s0 and C = C] wp_rules [where E = E and ?s0.0 = s0 and C = C]
        expr_rules [where ?s0.0 = s0 and C = C and n = n] assms(4))

lemma wp_parseParenExpr [expr_rules]:
  assumes "G E s0 C s" "room k s0 n"
    and "headCode (toks s) = TKN_LPAREN \<and> length (toks s) \<le> n \<or> ps_halt s0 \<noteq> None \<and> length (toks s) < n"
    and "\<And>s' r. G E s0 C s' \<Longrightarrow> length (toks s') \<le> length (toks s) \<Longrightarrow> Q r s'"
  shows "wp (parseParenExpr E pe) Q s"
  using assms(1-3) unfolding parseParenExpr_def
  by (auto simp: wp_simps split: if_split_asm intro!: wp_rules [where E = E and ?s0.0 = s0 and C = C]
        expr_rules [where ?s0.0 = s0 and C = C and n = n] assms(4))

lemma wp_parseQualifiedExpr [expr_rules]:
  assumes "G E s0 C s" "room k s0 n" "length (toks s) \<le> n" "isValid qualifier"
    and Q: "\<And>s' r. G E s0 C s' \<Longrightarrow> length (toks s') \<le> length (toks s) \<Longrightarrow> Q r s'"
  shows "wp (parseQualifiedExpr E pe qualifier) Q s"
  unfolding parseQualifiedExpr_def wp_bind
proof (rule wp_qualificationFollows [OF assms(1)], rule wp_assert_qualified, assumption)
  fix t t1
  let ?b = "headCode (toks s) = TKN_QUOTE \<and> headCode (tl (toks s)) = TKN_LPAREN"
  let ?rest = "wp ignoreToken (\<lambda>r. wp (parseParenExpr E pe) (\<lambda>operand.
      wp (if isValid operand then client E (ExprCall (AcceptQualifiedExpr qualifier operand))
          else ret getInvalidNode) Q)) t1"
  assume t: "G E s0 C t" "toks t = toks s" and t1: "G E s0 C t1" "toks t1 = toks t" "?b \<or> ps_halt t1 \<noteq> None"
  show ?rest
  proof (cases "?b")
    case True
    then show ?thesis using t t1 assms(2-4)
      by (auto simp: wp_simps split: if_split_asm intro!: wp_rules [where E = E and ?s0.0 = s0 and C = C]
        expr_rules [where ?s0.0 = s0 and C = C and n = n] Q)
  next
    case False
    define s1 m where "s1 = t1" and "m = Suc (length (toks t1))"
    have h: "ps_halt s1 \<noteq> None" using t1(3) False by (simp add: s1_def)
    have g: "G E s1 C t1" using t1(1) by (simp add: s1_def G_refl)
    have rm: "room k s1 m" using h by (simp add: room_def)
    have R: "Q r s'" if "G E s1 C s'" "length (toks s') \<le> length (toks t1)" for r s'
      using Q [OF G_trans [OF t1(1)]] that t(2) t1(2) by (simp add: s1_def)
    have lm: "length (toks t1) < m" by (simp add: m_def)
    show ?thesis using g rm h lm assms(4)
      by (auto simp: wp_simps split: if_split_asm
          intro!: R wp_rules [where E = E and ?s0.0 = s1 and C = C]
            expr_rules [where ?s0.0 = s1 and C = C and n = m])
  qed
qed

lemma wp_parseAllocatorExpr [expr_rules]:
  assumes "G E s0 C s" "room k s0 n" "length (toks s) \<le> n" "headCode (toks s) = TKN_NEW"
    and "\<And>s' r. G E s0 C s' \<Longrightarrow> length (toks s') \<le> length (toks s) \<Longrightarrow> Q r s'"
  shows "wp (parseAllocatorExpr E pe) Q s"
  using assms(1-4) unfolding parseAllocatorExpr_def
  by (auto simp: wp_simps isInvalid_iff split: if_split_asm
      intro!: wp_haveQualifier wp_rules [where E = E and ?s0.0 = s0 and C = C]
        expr_rules [where ?s0.0 = s0 and C = C and n = n] assms(5))

lemma wp_parsePrimaryExpr [expr_rules]:
  assumes "G E s0 C s" "room k s0 n" "length (toks s) \<le> n"
    and "\<And>s' r. G E s0 C s' \<Longrightarrow> length (toks s') \<le> length (toks s) \<Longrightarrow> Q r s'"
  shows "wp (parsePrimaryExpr E pe) Q s"
  using assms(1-3) unfolding parsePrimaryExpr_def
  by (auto simp: wp_simps isInvalid_iff split: if_split_asm intro!: wp_rules [where E = E and ?s0.0 = s0 and C = C]
        expr_rules [where ?s0.0 = s0 and C = C and n = n] assms(4))

text \<open>The operators, from the tightest to the loosest.\<close>

lemma wp_exponential:
  assumes "G E s0 C s" "room k s0 n" "length (toks s) \<le> n" "length (toks s) < m"
    and "\<And>s' r. G E s0 C s' \<Longrightarrow> length (toks s') \<le> length (toks s) \<Longrightarrow> Q r s'"
  shows "wp (parseExponentialOperator m E pe) Q s"
  using assms(1,3-)
proof (induction m arbitrary: s Q)
  case (Suc m)
  show ?case
    using Suc.prems(1-3) assms(2)
    by (auto simp: wp_simps isInvalid_iff split: if_split_asm
        intro!: Suc.IH wp_rules [where E = E and ?s0.0 = s0 and C = C]
        expr_rules [where ?s0.0 = s0 and C = C and n = n] Suc.prems(4))
qed simp

lemma wp_parseExponentialOperator [expr_rules]:
  assumes "G E s0 C s" "room k s0 n" "length (toks s) \<le> n"
    and "\<And>s' r. G E s0 C s' \<Longrightarrow> length (toks s') \<le> length (toks s) \<Longrightarrow> Q r s'"
  shows "wp (parseExponentialOperator (en_fuel E) E pe) Q s"
  by (rule wp_exponential [OF assms(1-3) G_fuel [OF assms(1)]]) (rule assms(4))

lemma wp_parseMultiplicativeOperator [expr_rules]:
  assumes "G E s0 C s" "room k s0 n" "length (toks s) \<le> n"
    and "\<And>s' r. G E s0 C s' \<Longrightarrow> length (toks s') \<le> length (toks s) \<Longrightarrow> Q r s'"
  shows "wp (parseMultiplicativeOperator E pe) Q s"
  using assms(1-3) unfolding parseMultiplicativeOperator_def
  by (auto simp: wp_simps intro!: wp_binaryLoop [where ?s0.0 = s0 and C = C and n = n] wp_rules [where E = E and ?s0.0 = s0 and C = C]
        expr_rules [where ?s0.0 = s0 and C = C and n = n] assms(4))

lemma wp_parseBinaryAdditiveOperator [expr_rules]:
  assumes "G E s0 C s" "room k s0 n" "length (toks s) \<le> n"
    and "\<And>s' r. G E s0 C s' \<Longrightarrow> length (toks s') \<le> length (toks s) \<Longrightarrow> Q r s'"
  shows "wp (parseBinaryAdditiveOperator E pe lhs) Q s"
  using assms(1-3) unfolding parseBinaryAdditiveOperator_def
  by (auto simp: wp_simps intro!: wp_binaryLoop [where ?s0.0 = s0 and C = C and n = n] wp_rules [where E = E and ?s0.0 = s0 and C = C]
        expr_rules [where ?s0.0 = s0 and C = C and n = n] assms(4))

lemma wp_parseAdditiveOperator [expr_rules]:
  assumes "G E s0 C s" "room k s0 n" "length (toks s) \<le> n"
    and "\<And>s' r. G E s0 C s' \<Longrightarrow> length (toks s') \<le> length (toks s) \<Longrightarrow> Q r s'"
  shows "wp (parseAdditiveOperator E pe) Q s"
  using assms(1-3) unfolding parseAdditiveOperator_def
  by (auto simp: wp_simps split: if_split_asm intro!: wp_rules [where E = E and ?s0.0 = s0 and C = C]
        expr_rules [where ?s0.0 = s0 and C = C and n = n] assms(4))

lemma wp_parseRelationalOperator [expr_rules]:
  assumes "G E s0 C s" "room k s0 n" "length (toks s) \<le> n"
    and "\<And>s' r. G E s0 C s' \<Longrightarrow> length (toks s') \<le> length (toks s) \<Longrightarrow> Q r s'"
  shows "wp (parseRelationalOperator E pe) Q s"
  using assms(1-3) unfolding parseRelationalOperator_def
  by (auto simp: wp_simps intro!: wp_binaryLoop [where ?s0.0 = s0 and C = C and n = n] wp_rules [where E = E and ?s0.0 = s0 and C = C]
        expr_rules [where ?s0.0 = s0 and C = C and n = n] assms(4))

lemma wp_parseLogicalOperator [expr_rules]:
  assumes "G E s0 C s" "room k s0 n" "length (toks s) \<le> n" "isLogicalCode code" "isValid lhs"
    and "\<And>s' r. G E s0 C s' \<Longrightarrow> length (toks s') \<le> length (toks s) \<Longrightarrow> Q r s'"
  shows "wp (parseLogicalOperator E pe code lhs) Q s"
  using assms(1-5) functionGlyph_logical [OF assms(4)] unfolding parseLogicalOperator_def
  by (auto simp: wp_simps split: if_split_asm
      intro!: wp_loopM_le [where ?s0.0 = s0 and C = C and J = isValid] wp_rules [where E = E and ?s0.0 = s0 and C = C]
        expr_rules [where ?s0.0 = s0 and C = C and n = n] assms(6))

lemma wp_parseOperatorExpr [expr_rules]:
  assumes "G E s0 C s" "room k s0 n" "length (toks s) \<le> n"
    and "\<And>s' r. G E s0 C s' \<Longrightarrow> length (toks s') \<le> length (toks s) \<Longrightarrow> Q r s'"
  shows "wp (parseOperatorExpr E pe) Q s"
  using assms(1-3) unfolding parseOperatorExpr_def
  by (auto simp: wp_simps isInvalid_iff split: if_split_asm intro!: wp_rules [where E = E and ?s0.0 = s0 and C = C]
        expr_rules [where ?s0.0 = s0 and C = C and n = n] assms(4))

end

section \<open>The fuel is enough\<close>

lemma expr_parser_parseExprN: "expr_parser E k (parseExprN k E)"
proof (induction k)
  case 0
  show ?case
  proof
    fix s0 C s and n :: nat
    assume g: "G E s0 C s" and "room 0 s0 n" "length (toks s) < n"
    then have h: "ps_halt s0 \<noteq> None" by (simp add: room_def)
    show "wp (parseExprN 0 E) (\<lambda>r s'. G E s0 C s' \<and> length (toks s') \<le> length (toks s)) s"
      using g by (auto simp: wp_simps intro!: wp_halt_again [OF g h])
  qed
next
  case (Suc k)
  show ?case
  proof
    fix s0 C s and n :: nat
    assume g: "G E s0 C s" and r: "room (Suc k) s0 n" and l: "length (toks s) < n"
    then have "room k s0 (n - 1)" "length (toks s) \<le> n - 1" by (auto simp: room_def)
    then show "wp (parseExprN (Suc k) E) (\<lambda>r s'. G E s0 C s' \<and> length (toks s') \<le> length (toks s)) s"
      using g by (auto intro!: expr_parser.wp_parseOperatorExpr [OF Suc.IH])
  qed
qed

text \<open>The parser of the source keeps the contract, whatever the client.\<close>

interpretation expr: expr_parser E "en_fuel E" "parseExpr E" for E
  unfolding parseExpr_def by (rule expr_parser_parseExprN)

lemma room_fuel [simp]: "room (en_fuel E) s0 (en_fuel E)"
  by (simp add: room_def)

text \<open>The rules the parsers of declarations and statements use.\<close>

named_theorems unit_rules \<open>rules of the operations above expressions\<close>

lemma wp_parseExpr [unit_rules]:
  assumes "G E s0 C s" and "\<And>s' r. G E s0 C s' \<Longrightarrow> length (toks s') \<le> length (toks s) \<Longrightarrow> Q r s'"
  shows "wp (parseExpr E) Q s"
  by (rule expr.wp_pe [OF assms(1) room_fuel G_fuel [OF assms(1)]]) (rule assms(2))

lemma wp_parseName_expr [unit_rules]:
  assumes "G E s0 C s" and "\<And>s' r. G E s0 C s' \<Longrightarrow> length (toks s') \<le> length (toks s) \<Longrightarrow> Q r s'"
  shows "wp (parseName E (parseExpr E) opt) Q s"
  by (rule expr.wp_parseName [OF assms(1) room_fuel less_imp_le [OF G_fuel [OF assms(1)]]]) (rule assms(2))

lemma wp_parseSubtypeIndication_expr [unit_rules]:
  assumes "G E s0 C s" and "\<And>s' r. G E s0 C s' \<Longrightarrow> length (toks s') \<le> length (toks s) \<Longrightarrow> Q r s'"
  shows "wp (parseSubtypeIndication E (parseExpr E)) Q s"
  by (rule expr.wp_parseSubtypeIndication [OF assms(1) room_fuel less_imp_le [OF G_fuel [OF assms(1)]]])
     (rule assms(2))

lemma wp_parseDSTDefinition_expr [unit_rules]:
  assumes "G E s0 C s" and "\<And>s' r. G E s0 C s' \<Longrightarrow> length (toks s') \<le> length (toks s) \<Longrightarrow> Q r s'"
  shows "wp (parseDSTDefinition E (parseExpr E) diamond) Q s"
  by (rule expr.wp_parseDSTDefinition [OF assms(1) room_fuel G_fuel [OF assms(1)]]) (rule assms(2))

end
