(* ===== verification/DeclSpec.thy ===== *)
theory DeclSpec
  imports ExprSpec
begin

text \<open>
  The rules of declarations.  A declaration is parsed in a declarative part and leaves the
  open constructs as they were; what it opens itself it closes again.
\<close>

lemmas proto_simps = stayIf_def pushIf_def popIf_def

text \<open>Callbacks that leave the open constructs alone.\<close>

named_theorems stay_rules \<open>callbacks that leave the open constructs alone\<close>

lemma wp_clientUnit_type [stay_rules]:
  assumes "G E s0 C s" "typeStep c C = Some C" "\<forall>n \<in> set (type_operands c). isValid n"
    and "\<And>s'. G E s0 C s' \<Longrightarrow> toks s' = toks s \<Longrightarrow> Q () s'"
  shows "wp (clientUnit (TypeCall c)) Q s"
  by (rule wp_clientUnit [OF assms(1)]) (use assms(2-4) in \<open>auto simp: valid_operands_def\<close>)

lemma wp_clientUnit_unit [stay_rules]:
  assumes "G E s0 C s" "\<And>v. unitStep v c C = Some C" "\<forall>n \<in> set (unit_operands c). isValid n"
    and "\<And>s'. G E s0 C s' \<Longrightarrow> toks s' = toks s \<Longrightarrow> Q () s'"
  shows "wp (clientUnit (UnitCall c)) Q s"
  by (rule wp_clientUnit [OF assms(1)]) (use assms(2-4) in \<open>auto simp: valid_operands_def\<close>)

lemma wp_clientBool_unit [stay_rules]:
  assumes "G E s0 C s" "\<And>v. unitStep v c C = Some C" "\<forall>n \<in> set (unit_operands c). isValid n"
    and "\<And>s' r. G E s0 C s' \<Longrightarrow> toks s' = toks s \<Longrightarrow> Q r s'"
  shows "wp (clientBool E (UnitCall c)) Q s"
  by (rule wp_clientBool [OF assms(1)]) (use assms(2-4) in \<open>auto simp: valid_operands_def\<close>)

text \<open>Callbacks that change them.\<close>

lemma wp_clientUnit_type_to:
  assumes "G E s0 C s" "typeStep c C = Some C'" "\<forall>n \<in> set (type_operands c). isValid n"
    and "\<And>s'. G E s0 C' s' \<Longrightarrow> toks s' = toks s \<Longrightarrow> Q () s'"
  shows "wp (clientUnit (TypeCall c)) Q s"
  by (rule wp_clientUnit [OF assms(1)]) (use assms(2-4) in \<open>auto simp: valid_operands_def\<close>)

lemma wp_clientUnit_unit_to:
  assumes "G E s0 C s" "\<And>v. unitStep v c C = Some C'" "\<forall>n \<in> set (unit_operands c). isValid n"
    and "\<And>s'. G E s0 C' s' \<Longrightarrow> toks s' = toks s \<Longrightarrow> Q () s'"
  shows "wp (clientUnit (UnitCall c)) Q s"
  by (rule wp_clientUnit [OF assms(1)]) (use assms(2-4) in \<open>auto simp: valid_operands_def\<close>)

lemma wp_client_unit_to:
  assumes "G E s0 C s" "\<And>v. unitStep v c C = Some C'" "\<forall>n \<in> set (unit_operands c). isValid n"
    and "\<And>s' r. G E s0 C' s' \<Longrightarrow> toks s' = toks s \<Longrightarrow> Q r s'"
  shows "wp (client E (UnitCall c)) Q s"
  by (rule wp_client [OF assms(1)]) (use assms(2-4) in \<open>auto simp: valid_operands_def\<close>)

section \<open>Types\<close>

lemma wp_parseEnumerationList [unit_rules]:
  assumes "G E s0 C s" "headCode (toks s) = TKN_LPAREN" "topFrame C = Some F_Enumeration"
    and "\<And>s'. G E s0 C s' \<Longrightarrow> length (toks s') \<le> length (toks s) \<Longrightarrow> Q () s'"
  shows "wp (parseEnumerationList E) Q s"
  using assms(1-3) unfolding parseEnumerationList_def
  by (auto simp: wp_simps isInvalid_iff proto_simps split: if_split_asm option.splits
      intro!: wp_loop [where ?s0.0 = s0 and C = C] wp_rules [where E = E and ?s0.0 = s0 and C = C]
        unit_rules [where E = E and ?s0.0 = s0 and C = C]
        stay_rules [where ?s0.0 = s0 and C = C] assms(4))

lemma wp_parseIntegerRange [unit_rules]:
  assumes "G E s0 C s" "headCode (toks s) = TKN_RANGE" "declarative C"
    and "\<And>s' r. G E s0 C s' \<Longrightarrow> length (toks s') < length (toks s) \<Longrightarrow> Q r s'"
  shows "wp (parseIntegerRange E name loc) Q s"
  using assms(1-3) unfolding parseIntegerRange_def
  by (auto simp: wp_simps isInvalid_iff proto_simps split: if_split_asm
      intro!: wp_rules [where E = E and ?s0.0 = s0 and C = C]
        unit_rules [where E = E and ?s0.0 = s0 and C = C]
        stay_rules [where ?s0.0 = s0 and C = C] assms(4))

lemma wp_parseModularInteger [unit_rules]:
  assumes "G E s0 C s" "headCode (toks s) = TKN_MOD" "declarative C"
    and "\<And>s' r. G E s0 C s' \<Longrightarrow> length (toks s') < length (toks s) \<Longrightarrow> Q r s'"
  shows "wp (parseModularInteger E name loc) Q s"
  using assms(1-3) unfolding parseModularInteger_def
  by (auto simp: wp_simps isInvalid_iff proto_simps split: if_split_asm
      intro!: wp_rules [where E = E and ?s0.0 = s0 and C = C]
        unit_rules [where E = E and ?s0.0 = s0 and C = C]
        stay_rules [where ?s0.0 = s0 and C = C] assms(4))

lemma wp_parseArrayIndexProfile [unit_rules]:
  assumes "G E s0 C s" "headCode (toks s) = TKN_LPAREN"
    and "\<And>s' r. G E s0 C s' \<Longrightarrow> length (toks s') < length (toks s) \<Longrightarrow> \<forall>n \<in> set r. isValid n \<Longrightarrow> Q r s'"
  shows "wp (parseArrayIndexProfile E) Q s"
  using assms(1-2) unfolding parseArrayIndexProfile_def
  by (auto simp: wp_simps isInvalid_iff Let_def split: if_split_asm
      intro!: wp_loopM_le [where ?s0.0 = s0 and C = C and J = "\<lambda>ns. \<forall>n \<in> set ns. isValid n"] wp_rules [where E = E and ?s0.0 = s0 and C = C]
        unit_rules [where E = E and ?s0.0 = s0 and C = C]
        stay_rules [where ?s0.0 = s0 and C = C] assms(3))

lemma wp_parseArrayTypeDecl [unit_rules]:
  assumes "G E s0 C s" "headCode (toks s) = TKN_ARRAY" "declarative C"
    and "\<And>s' r. G E s0 C s' \<Longrightarrow> length (toks s') < length (toks s) \<Longrightarrow> Q r s'"
  shows "wp (parseArrayTypeDecl E name loc) Q s"
  using assms(1-3) unfolding parseArrayTypeDecl_def
  by (auto simp: wp_simps isInvalid_iff proto_simps split: if_split_asm
      intro!: wp_rules [where E = E and ?s0.0 = s0 and C = C]
        unit_rules [where E = E and ?s0.0 = s0 and C = C]
        stay_rules [where ?s0.0 = s0 and C = C] assms(4))

lemma wp_parseAccessTypeDecl [unit_rules]:
  assumes "G E s0 C s" "headCode (toks s) = TKN_ACCESS" "declarative C"
    and "\<And>s' r. G E s0 C s' \<Longrightarrow> length (toks s') < length (toks s) \<Longrightarrow> Q r s'"
  shows "wp (parseAccessTypeDecl E name loc) Q s"
  using assms(1-3) unfolding parseAccessTypeDecl_def
  by (auto simp: wp_simps isInvalid_iff proto_simps split: if_split_asm
      intro!: wp_rules [where E = E and ?s0.0 = s0 and C = C]
        unit_rules [where E = E and ?s0.0 = s0 and C = C]
        stay_rules [where ?s0.0 = s0 and C = C] assms(4))

lemma wp_parsePrivateTypeDecl [unit_rules]:
  assumes "G E s0 C s" "declarative C"
    and "\<And>s' r. G E s0 C s' \<Longrightarrow> length (toks s') \<le> length (toks s) \<Longrightarrow> Q r s'"
  shows "wp (parsePrivateTypeDecl E name loc) Q s"
  using assms(1-2) unfolding parsePrivateTypeDecl_def
  by (auto simp: wp_simps isInvalid_iff proto_simps Let_def split: if_split_asm
      intro!: wp_rules [where E = E and ?s0.0 = s0 and C = C]
        unit_rules [where E = E and ?s0.0 = s0 and C = C]
        stay_rules [where ?s0.0 = s0 and C = C] assms(3))

lemma wp_parseRecordComponent [unit_rules]:
  assumes "G E s0 C s" "topFrame C = Some F_Record"
    and "\<And>s'. G E s0 C s' \<Longrightarrow> length (toks s') \<le> length (toks s) \<Longrightarrow> length (toks s') < length (toks s) \<or> toks s' = [] \<Longrightarrow> Q () s'"
  shows "wp (parseRecordComponent E) Q s"
  using assms(1-2) unfolding parseRecordComponent_def
  by (auto simp: wp_simps isInvalid_iff proto_simps split: if_split_asm
      intro!: wp_rules [where E = E and ?s0.0 = s0 and C = C]
        unit_rules [where E = E and ?s0.0 = s0 and C = C]
        stay_rules [where ?s0.0 = s0 and C = C] assms(3))

text \<open>A record opens itself as a construct; between its begin and end its components are parsed.\<close>

lemma wp_recordBody:
  assumes "G E s0 (F_Record # C) s" "headCode (toks s) = TKN_RECORD \<or> headCode (toks s) = TKN_NULL"
    and "\<And>s' r. G E s0 C s' \<Longrightarrow> length (toks s') < length (toks s) \<Longrightarrow> Q r s'"
  shows "wp (do {
     nullRecord \<leftarrow> andM (currentTokenIs TKN_NULL) (nextTokenIs TKN_RECORD);
     if nullRecord then do {
       _ \<leftarrow> ignoreToken;
       _ \<leftarrow> ignoreToken;
       clientUnit (TypeCall EndRecord);
       ret True }
     else do {
       _ \<leftarrow> ignoreToken;
       loopM E () (\<lambda>_. do {
         parseRecordComponent E;
         c \<leftarrow> currentTokenCode;
         ret (if c \<noteq> TKN_END \<and> c \<noteq> TKN_EOT then Inl () else Inr ()) }) ();
       clientUnit (TypeCall EndRecord);
       andM (requireToken TKN_END) (requireToken TKN_RECORD) } }) Q s"
  using assms(1,2)
  by (auto simp: wp_simps proto_simps split: if_split_asm
      intro!: wp_loop [where ?s0.0 = s0 and C = "F_Record # C"]
        wp_ignoreToken_le [where ?s0.0 = s0 and C = "F_Record # C"]
        wp_nextTokenIs [where ?s0.0 = s0 and C = "F_Record # C"]
        wp_parseRecordComponent [where ?s0.0 = s0 and C = "F_Record # C"]
        wp_clientUnit_type_to [where ?s0.0 = s0 and C = "F_Record # C" and C' = C]
        wp_requireToken_le [where ?s0.0 = s0 and C = C] assms(3))

lemma wp_parseRecordTypeDecl [unit_rules]:
  assumes "G E s0 C s" "headCode (toks s) = TKN_RECORD \<or> headCode (toks s) = TKN_NULL" "declarative C"
    and "\<And>s' r. G E s0 C s' \<Longrightarrow> length (toks s') < length (toks s) \<Longrightarrow> Q r s'"
  shows "wp (parseRecordTypeDecl E name loc) Q s"
  unfolding parseRecordTypeDecl_def
  using assms(1-3)
  by (auto simp: wp_bind wp_assertM wp_gets currentTokenCode_def current_code_simps proto_simps
      intro!: wp_assertM [where ?s0.0 = s0 and C = C]
        wp_clientUnit_type_to [where ?s0.0 = s0 and C = C and C' = "F_Record # C"]
        wp_recordBody [where ?s0.0 = s0 and C = C] assms(4))

lemma wp_enumeration:
  assumes "G E s0 C s" "headCode (toks s) = TKN_LPAREN" "declarative C"
    and "\<And>s' r. G E s0 C s' \<Longrightarrow> length (toks s') \<le> length (toks s) \<Longrightarrow> Q r s'"
  shows "wp (clientUnit (TypeCall (BeginEnumeration name loc))) (\<lambda>_. wp (do {
       parseEnumerationList E; clientUnit (TypeCall EndEnumeration); ret True }) Q) s"
  unfolding wp_bind
  by (rule wp_clientUnit_type_to [OF assms(1), where C' = "F_Enumeration # C"])
     (use assms(2-3) in \<open>auto simp: wp_simps proto_simps intro!: assms(4)
        wp_parseEnumerationList [where ?s0.0 = s0 and C = "F_Enumeration # C"]
        wp_clientUnit_type_to [where ?s0.0 = s0 and C = "F_Enumeration # C" and C' = C]\<close>)

lemma wp_parseTypeDefinition [unit_rules]:
  assumes "G E s0 C s" "declarative C"
    and "\<And>s' r. G E s0 C s' \<Longrightarrow> length (toks s') \<le> length (toks s) \<Longrightarrow> Q r s'"
  shows "wp (parseTypeDefinition E name loc) Q s"
  using assms(1-2) unfolding parseTypeDefinition_def
  by (auto simp: wp_simps isInvalid_iff split: if_split_asm
      intro!: wp_enumeration [where ?s0.0 = s0 and C = C] wp_rules [where E = E and ?s0.0 = s0 and C = C]
        unit_rules [where E = E and ?s0.0 = s0 and C = C] assms(3))

lemma wp_parseType [unit_rules]:
  assumes "G E s0 C s" "headCode (toks s) = TKN_TYPE" "declarative C"
    and "\<And>s' r. G E s0 C s' \<Longrightarrow> length (toks s') < length (toks s) \<Longrightarrow> Q r s'"
  shows "wp (parseType E) Q s"
  using assms(1-3) unfolding parseType_def
  by (auto simp: wp_simps isInvalid_iff proto_simps split: if_split_asm option.splits
      intro!: wp_rules [where E = E and ?s0.0 = s0 and C = C]
        unit_rules [where E = E and ?s0.0 = s0 and C = C]
        stay_rules [where ?s0.0 = s0 and C = C] assms(4))

lemma wp_parseSubtypeRange [unit_rules]:
  assumes "G E s0 C s" "declarative C" "isValid subtype"
    and "\<And>s' r. G E s0 C s' \<Longrightarrow> length (toks s') \<le> length (toks s) \<Longrightarrow> Q r s'"
  shows "wp (parseSubtypeRange E name loc subtype) Q s"
  using assms(1-3) unfolding parseSubtypeRange_def
  by (auto simp: wp_simps isInvalid_iff proto_simps split: if_split_asm
      intro!: wp_rules [where E = E and ?s0.0 = s0 and C = C]
        unit_rules [where E = E and ?s0.0 = s0 and C = C]
        stay_rules [where ?s0.0 = s0 and C = C] assms(4))

lemma wp_parseSubtype [unit_rules]:
  assumes "G E s0 C s" "headCode (toks s) = TKN_SUBTYPE" "declarative C"
    and "\<And>s' r. G E s0 C s' \<Longrightarrow> length (toks s') < length (toks s) \<Longrightarrow> Q r s'"
  shows "wp (parseSubtype E) Q s"
  using assms(1-3) unfolding parseSubtype_def
  by (auto simp: wp_simps isInvalid_iff proto_simps split: if_split_asm
      intro!: wp_rules [where E = E and ?s0.0 = s0 and C = C]
        unit_rules [where E = E and ?s0.0 = s0 and C = C]
        stay_rules [where ?s0.0 = s0 and C = C] assms(4))

section \<open>Objects and use clauses\<close>

lemma wp_parseObjectTail [unit_rules]:
  assumes "G E s0 C s" "declarative C" "isValid subtype"
    and "\<And>s' r. G E s0 C s' \<Longrightarrow> length (toks s') \<le> length (toks s) \<Longrightarrow> Q r s'"
  shows "wp (parseObjectTail E loc idn subtype) Q s"
  using assms(1-3) unfolding parseObjectTail_def
  by (auto simp: wp_simps isInvalid_iff proto_simps split: if_split_asm
      intro!: wp_rules [where E = E and ?s0.0 = s0 and C = C]
        unit_rules [where E = E and ?s0.0 = s0 and C = C]
        stay_rules [where ?s0.0 = s0 and C = C] assms(4))

lemma wp_parseObjectDeclaration [unit_rules]:
  assumes "G E s0 C s" "headCode (toks s) = TKN_IDENTIFIER" "declarative C"
    and "\<And>s' r. G E s0 C s' \<Longrightarrow> length (toks s') < length (toks s) \<Longrightarrow> Q r s'"
  shows "wp (parseObjectDeclaration E) Q s"
  using assms(1-3) unfolding parseObjectDeclaration_def
  by (auto simp: wp_simps isInvalid_iff proto_simps split: if_split_asm
      intro!: wp_rules [where E = E and ?s0.0 = s0 and C = C]
        unit_rules [where E = E and ?s0.0 = s0 and C = C]
        stay_rules [where ?s0.0 = s0 and C = C] assms(4))

lemma wp_parseUseDeclaration [unit_rules]:
  assumes "G E s0 C s" "headCode (toks s) = TKN_USE" "declarative C"
    and "\<And>s' r. G E s0 C s' \<Longrightarrow> length (toks s') < length (toks s) \<Longrightarrow> Q r s'"
  shows "wp (parseUseDeclaration E) Q s"
  using assms(1-3) unfolding parseUseDeclaration_def
  by (auto simp: wp_simps isInvalid_iff proto_simps split: if_split_asm
      intro!: wp_rules [where E = E and ?s0.0 = s0 and C = C]
        unit_rules [where E = E and ?s0.0 = s0 and C = C]
        stay_rules [where ?s0.0 = s0 and C = C] assms(4))

section \<open>Subroutine declarations\<close>

lemma wp_parseParameterMode [unit_rules]:
  assumes "G E s0 C s"
    and "\<And>s' r. G E s0 C s' \<Longrightarrow> length (toks s') \<le> length (toks s) \<Longrightarrow> Q r s'"
  shows "wp parseParameterMode Q s"
  using assms(1) unfolding parseParameterMode_def
  by (auto simp: wp_simps isInvalid_iff split: if_split_asm
      intro!: wp_rules [where E = E and ?s0.0 = s0 and C = C]
        unit_rules [where E = E and ?s0.0 = s0 and C = C]
        stay_rules [where ?s0.0 = s0 and C = C] assms(2))

lemma wp_parseSubroutineParameter [unit_rules]:
  assumes "G E s0 C s" "topFrame C = Some F_SubrDecl"
    and "\<And>s' r. G E s0 C s' \<Longrightarrow> length (toks s') \<le> length (toks s) \<Longrightarrow> Q r s'"
  shows "wp (parseSubroutineParameter E) Q s"
  using assms(1-2) unfolding parseSubroutineParameter_def
  by (auto simp: wp_simps isInvalid_iff proto_simps split: if_split_asm option.splits
      intro!: wp_rules [where E = E and ?s0.0 = s0 and C = C]
        unit_rules [where E = E and ?s0.0 = s0 and C = C]
        stay_rules [where ?s0.0 = s0 and C = C] assms(3))

lemma wp_parseSubroutineParameters [unit_rules]:
  assumes "G E s0 C s" "headCode (toks s) = TKN_LPAREN" "topFrame C = Some F_SubrDecl"
    and "\<And>s'. G E s0 C s' \<Longrightarrow> length (toks s') < length (toks s) \<Longrightarrow> Q () s'"
  shows "wp (parseSubroutineParameters E) Q s"
  using assms(1-3) unfolding parseSubroutineParameters_def
  by (auto simp: wp_simps isInvalid_iff split: if_split_asm
      intro!: wp_loop [where ?s0.0 = s0 and C = C] wp_rules [where E = E and ?s0.0 = s0 and C = C]
        unit_rules [where E = E and ?s0.0 = s0 and C = C]
        stay_rules [where ?s0.0 = s0 and C = C] assms(4))

lemma wp_pushEndTag [unit_rules]:
  assumes "G E s0 C s" and Q: "\<And>s'. G E s0 C s' \<Longrightarrow> toks s' = toks s \<Longrightarrow> Q () s'"
  shows "wp (pushEndTag loc name) Q s"
  unfolding pushEndTag_def wp_update by (rule Q; rule G_same [OF assms(1)]; simp)

lemma wp_popEndTag [unit_rules]:
  assumes "G E s0 C s" and Q: "\<And>s' tag. G E s0 C s' \<Longrightarrow> toks s' = toks s \<Longrightarrow> Q tag s'"
  shows "wp popEndTag Q s"
proof (cases "ps_endtags s")
  case Nil
  have "halt_ok (Some EmptyEndTagStack)" by (simp add: halt_ok_def)
  with Nil show ?thesis
    unfolding popEndTag_def by (auto simp: wp_simps intro!: wp_halt [OF assms(1)] Q)
next
  case (Cons a as)
  have "Q (et_tag a) (s\<lparr>ps_endtags := as\<rparr>)" by (rule Q; rule G_same [OF assms(1)]; simp)
  with Cons show ?thesis unfolding popEndTag_def by (simp add: wp_simps)
qed

lemma wp_parseReturnType [unit_rules]:
  assumes "G E s0 C s"
    and "\<And>s' r. G E s0 C s' \<Longrightarrow> length (toks s') \<le> length (toks s) \<Longrightarrow> isValid r \<Longrightarrow> Q r s'"
  shows "wp (parseReturnType E) Q s"
  using assms(1) unfolding parseReturnType_def
  by (auto simp: wp_simps isInvalid_iff split: if_split_asm
      intro!: wp_rules [where E = E and ?s0.0 = s0 and C = C]
        unit_rules [where E = E and ?s0.0 = s0 and C = C]
        stay_rules [where ?s0.0 = s0 and C = C] assms(2))

text \<open>The profile and the end of a declaration, in the construct the declaration opened.\<close>

lemma wp_functionProfile:
  assumes "G E s0 C s" "declarative C"
    and "\<And>s' r. G E s0 C s' \<Longrightarrow> length (toks s') \<le> length (toks s) \<Longrightarrow> Q r s'"
  shows "wp (clientUnit (UnitCall (BeginFunctionDeclaration nm loc))) (\<lambda>_. wp (do {
          lparen \<leftarrow> gets (\<lambda>s. headCode (toks s) = TKN_LPAREN);
          whenM lparen (parseSubroutineParameters E);
          returnNode \<leftarrow> parseReturnType E;
          clientUnit (UnitCall (AcceptFunctionReturnType returnNode));
          c \<leftarrow> gets (\<lambda>s. headCode (toks s));
          whenM (c = TKN_IS \<or> c = TKN_BEGIN) (pushEndTag loc nm);
          client E (UnitCall (EndSubroutineDeclaration (c = TKN_IS \<or> c = TKN_BEGIN))) }) Q) s"
  by (rule wp_clientUnit_unit_to [OF assms(1), where C' = "F_SubrDecl # C"])
     (use assms(2) in \<open>auto simp: wp_simps proto_simps split: if_split_asm intro!: assms(3)
        wp_client_unit_to [where ?s0.0 = s0 and C = "F_SubrDecl # C" and C' = C]
        wp_parseSubroutineParameters [where ?s0.0 = s0 and C = "F_SubrDecl # C"]
        wp_parseReturnType [where ?s0.0 = s0 and C = "F_SubrDecl # C"]
        wp_pushEndTag [where ?s0.0 = s0 and C = "F_SubrDecl # C"]
        wp_clientUnit_unit [where ?s0.0 = s0 and C = "F_SubrDecl # C"]\<close>)

lemma wp_parseFunctionDeclaration [unit_rules]:
  assumes "G E s0 C s" "headCode (toks s) = TKN_FUNCTION" "declarative C"
    and "\<And>s' r. G E s0 C s' \<Longrightarrow> length (toks s') < length (toks s) \<Longrightarrow> Q r s'"
  shows "wp (parseFunctionDeclaration E) Q s"
  using assms(1-3) unfolding parseFunctionDeclaration_def
  by (auto simp: wp_simps Let_def split: if_split_asm option.splits
      intro!: wp_functionProfile [where ?s0.0 = s0 and C = C]
        wp_rules [where E = E and ?s0.0 = s0 and C = C] assms(4))

lemma wp_procedureProfile:
  assumes "G E s0 C s" "declarative C"
    and "\<And>s' r. G E s0 C s' \<Longrightarrow> length (toks s') \<le> length (toks s) \<Longrightarrow> Q r s'"
  shows "wp (clientUnit (UnitCall (BeginProcedureDeclaration nm loc))) (\<lambda>_. wp (do {
          lparen \<leftarrow> gets (\<lambda>s. headCode (toks s) = TKN_LPAREN);
          whenM lparen (parseSubroutineParameters E);
          returns \<leftarrow> gets (\<lambda>s. headCode (toks s) = TKN_RETURN);
          whenM returns (do {
            report RETURN_AFTER_PROCEDURE [];
            _ \<leftarrow> seekTokens E [TKN_SEMI, TKN_IS];
            ret () });
          bodyFollows \<leftarrow> gets (\<lambda>s. headCode (toks s) = TKN_IS);
          whenM bodyFollows (pushEndTag loc nm);
          client E (UnitCall (EndSubroutineDeclaration bodyFollows)) }) Q) s"
  by (rule wp_clientUnit_unit_to [OF assms(1), where C' = "F_SubrDecl # C"])
     (use assms(2) in \<open>auto simp: wp_simps proto_simps split: if_split_asm intro!: assms(3)
        wp_client_unit_to [where ?s0.0 = s0 and C = "F_SubrDecl # C" and C' = C]
        wp_parseSubroutineParameters [where ?s0.0 = s0 and C = "F_SubrDecl # C"]
        wp_report [where E = E and ?s0.0 = s0 and C = "F_SubrDecl # C"]
        wp_seekTokens_le [where ?s0.0 = s0 and C = "F_SubrDecl # C"]
        wp_pushEndTag [where E = E and ?s0.0 = s0 and C = "F_SubrDecl # C"]\<close>)

lemma wp_parseProcedureDeclaration [unit_rules]:
  assumes "G E s0 C s" "headCode (toks s) = TKN_PROCEDURE" "declarative C"
    and "\<And>s' r. G E s0 C s' \<Longrightarrow> length (toks s') < length (toks s) \<Longrightarrow> Q r s'"
  shows "wp (parseProcedureDeclaration E) Q s"
  using assms(1-3) unfolding parseProcedureDeclaration_def
  by (auto simp: wp_simps split: if_split_asm option.splits
      intro!: wp_procedureProfile [where ?s0.0 = s0 and C = C]
        wp_rules [where E = E and ?s0.0 = s0 and C = C] assms(4))

section \<open>Declarations and pragmas\<close>

text \<open>A declaration consumes a token or stops at the semicolon the caller takes.\<close>

lemma wp_parseDeclaration [unit_rules]:
  assumes "G E s0 C s" "headCode (toks s) \<noteq> TKN_EOT" "declarative C"
    and "\<And>s' r. G E s0 C s' \<Longrightarrow> length (toks s') \<le> length (toks s) \<Longrightarrow> length (toks s') < length (toks s) \<or> headCode (toks s') = TKN_SEMI \<Longrightarrow> Q r s'"
  shows "wp (parseDeclaration E) Q s"
  using assms(1-3) unfolding parseDeclaration_def
  by (auto simp: wp_simps isInvalid_iff split: if_split_asm
      intro!: wp_rules [where E = E and ?s0.0 = s0 and C = C]
        unit_rules [where E = E and ?s0.0 = s0 and C = C]
        stay_rules [where ?s0.0 = s0 and C = C] assms(4))

lemma wp_parsePragmaImport [unit_rules]:
  assumes "G E s0 C s" "topFrame C = Some F_PackageBody"
    and "\<And>s'. G E s0 C s' \<Longrightarrow> length (toks s') \<le> length (toks s) \<Longrightarrow> Q () s'"
  shows "wp (parsePragmaImport E loc) Q s"
  using assms(1-2) unfolding parsePragmaImport_def
  by (auto simp: wp_simps isInvalid_iff proto_simps split: if_split_asm
      intro!: wp_rules [where E = E and ?s0.0 = s0 and C = C]
        unit_rules [where E = E and ?s0.0 = s0 and C = C]
        stay_rules [where ?s0.0 = s0 and C = C] assms(3))

lemma wp_parseDeclarationPragma [unit_rules]:
  assumes "G E s0 C s" "headCode (toks s) = TKN_PRAGMA" "topFrame C = Some F_PackageBody"
    and "\<And>s'. G E s0 C s' \<Longrightarrow> length (toks s') < length (toks s) \<Longrightarrow> Q () s'"
  shows "wp (parseDeclarationPragma E) Q s"
  using assms(1-3) unfolding parseDeclarationPragma_def
  by (auto simp: wp_simps isInvalid_iff Let_def split: if_split_asm option.splits
      intro!: wp_rules [where E = E and ?s0.0 = s0 and C = C]
        unit_rules [where E = E and ?s0.0 = s0 and C = C]
        stay_rules [where ?s0.0 = s0 and C = C] assms(4))

end
