(* ===== verification/StmtSpec.thy ===== *)
theory StmtSpec
  imports DeclSpec
begin

text \<open>
  The rules of statements, over the contract of the parser of nested statements.  Every
  statement consumes a token unless none is left, and closes the constructs it opens.
\<close>

named_theorems stmt_rules \<open>rules of the operations that parse statements\<close>

text \<open>The callbacks of statements and blocks.\<close>

lemma wp_client_stmt [stmt_rules]:
  assumes "G E s0 C s" "statements C" "\<forall>n \<in> set (stmt_operands c). isValid n"
    and "\<And>s' r. G E s0 C s' \<Longrightarrow> toks s' = toks s \<Longrightarrow> Q r s'"
  shows "wp (client E (StmtCall c)) Q s"
  by (rule wp_client [OF assms(1)]) (use assms(2-4) in \<open>auto simp: valid_operands_def proto_simps\<close>)

lemma wp_clientBool_stmt [stmt_rules]:
  assumes "G E s0 C s" "statements C" "\<forall>n \<in> set (stmt_operands c). isValid n"
    and "\<And>s' r. G E s0 C s' \<Longrightarrow> toks s' = toks s \<Longrightarrow> Q r s'"
  shows "wp (clientBool E (StmtCall c)) Q s"
  by (rule wp_clientBool [OF assms(1)]) (use assms(2-4) in \<open>auto simp: valid_operands_def proto_simps\<close>)

lemma wp_client_block_to:
  assumes "G E s0 C s" "\<And>v. blockStep v c C = Some C'" "\<forall>n \<in> set (block_operands c). isValid n"
    and "\<And>s' r. G E s0 C' s' \<Longrightarrow> toks s' = toks s \<Longrightarrow> Q r s'"
  shows "wp (client E (BlockCall c)) Q s"
  by (rule wp_client [OF assms(1)]) (use assms(2-4) in \<open>auto simp: valid_operands_def\<close>)

lemma wp_clientUnit_block_to:
  assumes "G E s0 C s" "\<And>v. blockStep v c C = Some C'" "\<forall>n \<in> set (block_operands c). isValid n"
    and "\<And>s'. G E s0 C' s' \<Longrightarrow> toks s' = toks s \<Longrightarrow> Q () s'"
  shows "wp (clientUnit (BlockCall c)) Q s"
  by (rule wp_clientUnit [OF assms(1)]) (use assms(2-4) in \<open>auto simp: valid_operands_def\<close>)

lemma wp_beginHandler:
  assumes "G E s0 C s" "handlers C" "\<forall>n \<in> set choices. isValid n"
    and "\<And>s' r. isValid r \<Longrightarrow> G E s0 (F_Handler # C) s' \<Longrightarrow> toks s' = toks s \<Longrightarrow> Q r s'"
    and "\<And>s' r. \<not> isValid r \<Longrightarrow> G E s0 C s' \<Longrightarrow> toks s' = toks s \<Longrightarrow> Q r s'"
  shows "wp (client E (BlockCall (BeginHandlerStmt loc choices))) Q s"
  by (rule wp_client [OF assms(1)])
     (use assms(2-5) in \<open>auto simp: valid_operands_def proto_simps split: if_split_asm\<close>)

lemma frames [simp]:
  "statements (F_Block # C)" "statements (F_While # C)" "statements (F_Loop # C)" "statements (F_For # C)"
  "statements (F_Handler # C)" "statements (F_SubrBody # C)" "declarative (F_Block # C)" "declarative (F_SubrBody # C)"
  "declarative (F_PackageBody # C)" "declarative (F_PackageSpec # C)" "declarative (F_PackagePrivate # C)"
  "handlers (F_SubrEnd # C)"
  by (simp_all add: statements_def declarative_def handlers_def)

lemma handlers_statements [simp]: "statements C \<Longrightarrow> handlers C"
  by (simp add: handlers_def)

section \<open>Simple statements\<close>

lemma wp_parseProcedureCallStatement [stmt_rules]:
  assumes "G E s0 C s" "statements C"
    and "\<And>s' r. G E s0 C s' \<Longrightarrow> length (toks s') \<le> length (toks s) \<Longrightarrow> Q r s'"
  shows "wp (parseProcedureCallStatement E) Q s"
  using assms(1-2) unfolding parseProcedureCallStatement_def
  by (auto simp: wp_simps isInvalid_iff split: if_split_asm
      intro!: wp_rules [where E = E and ?s0.0 = s0 and C = C]
        unit_rules [where E = E and ?s0.0 = s0 and C = C]
        stmt_rules [where ?s0.0 = s0 and C = C] assms(3))

lemma wp_parseReturnStmt [stmt_rules]:
  assumes "G E s0 C s" "headCode (toks s) = TKN_RETURN" "statements C"
    and "\<And>s' r. G E s0 C s' \<Longrightarrow> length (toks s') \<le> length (toks s) \<Longrightarrow> Q r s'"
  shows "wp (parseReturnStmt E) Q s"
  using assms(1-3) unfolding parseReturnStmt_def
  by (auto simp: wp_simps isInvalid_iff split: if_split_asm
      intro!: wp_rules [where E = E and ?s0.0 = s0 and C = C]
        unit_rules [where E = E and ?s0.0 = s0 and C = C]
        stmt_rules [where ?s0.0 = s0 and C = C] assms(4))

lemma wp_parseAssignmentStmt [stmt_rules]:
  assumes "G E s0 C s" "headCode (nameEnd (toks s)) = TKN_ASSIGN" "statements C"
    and "\<And>s' r. G E s0 C s' \<Longrightarrow> length (toks s') \<le> length (toks s) \<Longrightarrow> Q r s'"
  shows "wp (parseAssignmentStmt E) Q s"
  using assms(1-3) unfolding parseAssignmentStmt_def
  by (auto simp: wp_simps isInvalid_iff split: if_split_asm
      intro!: wp_rules [where E = E and ?s0.0 = s0 and C = C]
        unit_rules [where E = E and ?s0.0 = s0 and C = C]
        stmt_rules [where ?s0.0 = s0 and C = C] assms(4))

lemma wp_parseExitStmt [stmt_rules]:
  assumes "G E s0 C s" "headCode (toks s) = TKN_EXIT" "statements C"
    and "\<And>s' r. G E s0 C s' \<Longrightarrow> length (toks s') \<le> length (toks s) \<Longrightarrow> Q r s'"
  shows "wp (parseExitStmt E) Q s"
  using assms(1-3) unfolding parseExitStmt_def
  by (auto simp: wp_simps isInvalid_iff split: if_split_asm
      intro!: wp_rules [where E = E and ?s0.0 = s0 and C = C]
        unit_rules [where E = E and ?s0.0 = s0 and C = C]
        stmt_rules [where ?s0.0 = s0 and C = C] assms(4))

lemma wp_parsePragmaAssert [stmt_rules]:
  assumes "G E s0 C s" "statements C"
    and "\<And>s' r. G E s0 C s' \<Longrightarrow> length (toks s') \<le> length (toks s) \<Longrightarrow> Q r s'"
  shows "wp (parsePragmaAssert E name loc) Q s"
  using assms(1-2) unfolding parsePragmaAssert_def
  by (auto simp: wp_simps isInvalid_iff split: if_split_asm
      intro!: wp_rules [where E = E and ?s0.0 = s0 and C = C]
        unit_rules [where E = E and ?s0.0 = s0 and C = C]
        stmt_rules [where ?s0.0 = s0 and C = C] assms(3))

lemma wp_parsePragmaStmt [stmt_rules]:
  assumes "G E s0 C s" "headCode (toks s) = TKN_PRAGMA" "statements C"
    and "\<And>s' r. G E s0 C s' \<Longrightarrow> length (toks s') \<le> length (toks s) \<Longrightarrow> Q r s'"
  shows "wp (parsePragmaStmt E) Q s"
  using assms(1-3) unfolding parsePragmaStmt_def
  by (auto simp: wp_simps isInvalid_iff Let_def split: if_split_asm option.splits
      intro!: wp_rules [where E = E and ?s0.0 = s0 and C = C]
        unit_rules [where E = E and ?s0.0 = s0 and C = C]
        stmt_rules [where ?s0.0 = s0 and C = C] assms(4))

lemma wp_parseRaiseStmt [stmt_rules]:
  assumes "G E s0 C s" "headCode (toks s) = TKN_RAISE" "statements C"
    and "\<And>s' r. G E s0 C s' \<Longrightarrow> length (toks s') \<le> length (toks s) \<Longrightarrow> Q r s'"
  shows "wp (parseRaiseStmt E) Q s"
  using assms(1-3) unfolding parseRaiseStmt_def
  by (auto simp: wp_simps isInvalid_iff split: if_split_asm
      intro!: wp_rules [where E = E and ?s0.0 = s0 and C = C]
        unit_rules [where E = E and ?s0.0 = s0 and C = C]
        stmt_rules [where ?s0.0 = s0 and C = C] assms(4))

lemma wp_acceptStmtInto [stmt_rules]:
  assumes "G E s0 C s" "statements C"
    and "\<And>s'. G E s0 C s' \<Longrightarrow> toks s' = toks s \<Longrightarrow> Q () s'"
  shows "wp (acceptStmtInto E context stmt) Q s"
  using assms(1-2) unfolding acceptStmtInto_def
  by (auto simp: wp_simps isInvalid_iff split: if_split_asm
      intro!: wp_rules [where E = E and ?s0.0 = s0 and C = C]
        unit_rules [where E = E and ?s0.0 = s0 and C = C]
        stmt_rules [where ?s0.0 = s0 and C = C] assms(3))

lemma wp_parseCondition [stmt_rules]:
  assumes "G E s0 C s"
    and "\<And>s' cond. G E s0 C s' \<Longrightarrow> length (toks s') \<le> length (toks s) \<Longrightarrow> isValid cond \<Longrightarrow> Q (Some cond) s'"
    and "\<And>s'. G E s0 C s' \<Longrightarrow> length (toks s') \<le> length (toks s) \<Longrightarrow> Q None s'"
  shows "wp (parseCondition E) Q s"
  using assms(1) unfolding parseCondition_def
  by (auto simp: wp_simps isInvalid_iff split: if_split_asm
      intro!: wp_rules [where E = E and ?s0.0 = s0 and C = C]
        unit_rules [where E = E and ?s0.0 = s0 and C = C]
        stmt_rules [where ?s0.0 = s0 and C = C] assms(2,3))

lemma wp_parseChoices [stmt_rules]:
  assumes "G E s0 C s"
    and "\<And>s' choices oth. G E s0 C s' \<Longrightarrow> length (toks s') \<le> length (toks s) \<Longrightarrow> \<forall>n \<in> set choices. isValid n \<Longrightarrow> Q (Some (choices, oth)) s'"
    and "\<And>s'. G E s0 C s' \<Longrightarrow> length (toks s') \<le> length (toks s) \<Longrightarrow> Q None s'"
  shows "wp (parseChoices E) Q s"
  using assms(1) unfolding parseChoices_def
  by (auto simp: wp_simps isInvalid_iff split: if_split_asm
      intro!: wp_loopM_le [where ?s0.0 = s0 and C = C and J = "\<lambda>ns. \<forall>n \<in> set ns. isValid n"] wp_rules [where E = E and ?s0.0 = s0 and C = C]
        unit_rules [where E = E and ?s0.0 = s0 and C = C]
        stmt_rules [where ?s0.0 = s0 and C = C] assms(2,3))

lemma wp_blockDeclarations [stmt_rules]:
  assumes "G E s0 C s" "declarative C"
    and "\<And>s'. G E s0 C s' \<Longrightarrow> length (toks s') \<le> length (toks s) \<Longrightarrow> Q () s'"
  shows "wp (blockDeclarations E) Q s"
  using assms(1-2) unfolding blockDeclarations_def
  by (auto simp: wp_simps isInvalid_iff split: if_split_asm
      intro!: wp_loop [where ?s0.0 = s0 and C = C] wp_rules [where E = E and ?s0.0 = s0 and C = C]
        unit_rules [where E = E and ?s0.0 = s0 and C = C]
        stmt_rules [where ?s0.0 = s0 and C = C] assms(3))

section \<open>The contract of a parser of statements\<close>

locale stmt_parser =
  fixes E :: "('p, 'v) env" and k :: nat and pst :: "('p, 'v, 'p node) pm"
  assumes pst: "G E s0 C s \<Longrightarrow> statements C \<Longrightarrow> length (toks s) < k \<Longrightarrow>
      wp pst (\<lambda>r s'. G E s0 C s' \<and> length (toks s') \<le> length (toks s) \<and>
        (length (toks s') < length (toks s) \<or> toks s' = [])) s"
begin

lemma wp_pst [stmt_rules]:
  assumes "G E s0 C s" "statements C" "length (toks s) < k"
    and "\<And>s' r. G E s0 C s' \<Longrightarrow> length (toks s') \<le> length (toks s) \<Longrightarrow>
      length (toks s') < length (toks s) \<or> toks s' = [] \<Longrightarrow>
      (headCode (toks s) \<noteq> TKN_EOT \<longrightarrow> length (toks s') < length (toks s)) \<Longrightarrow> Q r s'"
  shows "wp pst Q s"
proof (rule wp_conseq [OF pst [OF assms(1-3)]])
  fix r s'
  assume "G E s0 C s' \<and> length (toks s') \<le> length (toks s) \<and>
        (length (toks s') < length (toks s) \<or> toks s' = [])"
  moreover have "headCode (toks s) \<noteq> TKN_EOT \<Longrightarrow> toks s \<noteq> []" by auto
  ultimately show "Q r s'" by (intro assms(4)) auto
qed

lemma wp_stmtSeq [stmt_rules]:
  assumes "G E s0 C s" "statements C" "length (toks s) < k"
    and "\<And>s' r. G E s0 C s' \<Longrightarrow> length (toks s') \<le> length (toks s) \<Longrightarrow> \<forall>n \<in> set r. isValid n \<Longrightarrow> Q r s'"
  shows "wp (stmtSeq E pst stops) Q s"
  using assms(1-3) unfolding stmtSeq_def
  by (auto simp: wp_simps isInvalid_iff Let_def split: if_split_asm
      intro!: wp_loopM_le [where ?s0.0 = s0 and C = C and J = "\<lambda>ns. \<forall>n \<in> set ns. isValid n"] wp_rules [where E = E and ?s0.0 = s0 and C = C]
        unit_rules [where E = E and ?s0.0 = s0 and C = C]
        stmt_rules [where ?s0.0 = s0 and C = C] assms(4))

lemma wp_stmtsInto:
  assumes "G E s0 C s" "statements C" "length (toks s) < k"
    and "\<And>s'. G E s0 C s' \<Longrightarrow> length (toks s') \<le> length (toks s) \<Longrightarrow> Q () s'"
  shows "wp (stmtsInto E pst stops context) Q s"
  using assms(1-3) unfolding stmtsInto_def
  by (auto simp: wp_simps isInvalid_iff split: if_split_asm
      intro!: wp_loop [where ?s0.0 = s0 and C = C] wp_rules [where E = E and ?s0.0 = s0 and C = C]
        unit_rules [where E = E and ?s0.0 = s0 and C = C]
        stmt_rules [where ?s0.0 = s0 and C = C] assms(4))

lemma wp_stmtsWhile:
  assumes "G E s0 C s" "statements C" "length (toks s) < k"
    and "\<And>s'. G E s0 C s' \<Longrightarrow> length (toks s') \<le> length (toks s) \<Longrightarrow> Q () s'"
  shows "wp (stmtsWhile E pst stops context) Q s"
  using assms(1-3) unfolding stmtsWhile_def
  by (auto simp: wp_simps isInvalid_iff split: if_split_asm
      intro!: wp_loop [where ?s0.0 = s0 and C = C] wp_rules [where E = E and ?s0.0 = s0 and C = C]
        unit_rules [where E = E and ?s0.0 = s0 and C = C]
        stmt_rules [where ?s0.0 = s0 and C = C] assms(4))

lemma wp_parseElsifs [stmt_rules]:
  assumes "G E s0 C s" "statements C" "length (toks s) < k" "isValid result"
    and "\<And>s' r. G E s0 C s' \<Longrightarrow> length (toks s') \<le> length (toks s) \<Longrightarrow> isValid r \<Longrightarrow> Q (Some r) s'"
    and "\<And>s'. G E s0 C s' \<Longrightarrow> length (toks s') \<le> length (toks s) \<Longrightarrow> Q None s'"
  shows "wp (parseElsifs E pst result) Q s"
  using assms(1-4) unfolding parseElsifs_def
  by (auto simp: wp_simps isInvalid_iff split: if_split_asm option.splits
      intro!: wp_loopM_le [where ?s0.0 = s0 and C = C and J = isValid] wp_rules [where E = E and ?s0.0 = s0 and C = C]
        unit_rules [where E = E and ?s0.0 = s0 and C = C]
        stmt_rules [where ?s0.0 = s0 and C = C] assms(5,6))

lemma wp_parseElse [stmt_rules]:
  assumes "G E s0 C s" "statements C" "length (toks s) < k" "isValid result"
    and "\<And>s' r. G E s0 C s' \<Longrightarrow> length (toks s') \<le> length (toks s) \<Longrightarrow> Q r s'"
  shows "wp (parseElse E pst result) Q s"
  using assms(1-4) unfolding parseElse_def
  by (auto simp: wp_simps isInvalid_iff split: if_split_asm
      intro!: wp_rules [where E = E and ?s0.0 = s0 and C = C]
        unit_rules [where E = E and ?s0.0 = s0 and C = C]
        stmt_rules [where ?s0.0 = s0 and C = C] assms(5))

lemma wp_parseIfStmt [stmt_rules]:
  assumes "G E s0 C s" "headCode (toks s) = TKN_IF" "statements C" "length (toks s) \<le> k"
    and "\<And>s' r. G E s0 C s' \<Longrightarrow> length (toks s') \<le> length (toks s) \<Longrightarrow> Q r s'"
  shows "wp (parseIfStmt E pst) Q s"
  using assms(1-4) unfolding parseIfStmt_def
  by (auto simp: wp_simps isInvalid_iff split: if_split_asm option.splits
      intro!: wp_rules [where E = E and ?s0.0 = s0 and C = C]
        unit_rules [where E = E and ?s0.0 = s0 and C = C]
        stmt_rules [where ?s0.0 = s0 and C = C] assms(5))

text \<open>The statements of a handler, in the construct it opens.\<close>

lemma wp_handlerBody:
  assumes "G E s0 (F_Handler # C) s" "length (toks s) < k" "isValid handler"
    and "\<And>s'. G E s0 C s' \<Longrightarrow> length (toks s') \<le> length (toks s) \<Longrightarrow> wp f Q s'"
  shows "wp (stmtsInto E pst stops handler) (\<lambda>_. wp (do {
     clientUnit (BlockCall (EndHandlerStmt context handler)); f }) Q) s"
  unfolding wp_bind
  using assms(1-3)
  by (auto simp: proto_simps intro!: wp_stmtsInto [where ?s0.0 = s0 and C = "F_Handler # C"]
      wp_clientUnit_block_to [where ?s0.0 = s0 and C = "F_Handler # C" and C' = C] assms(4))

lemma wp_parseHandler [stmt_rules]:
  assumes "G E s0 C s" "handlers C" "length (toks s) < k"
    and "\<And>s' a. G E s0 C s' \<Longrightarrow> length (toks s') < length (toks s) \<Longrightarrow> Q (Inl a) s'"
    and "\<And>s'. G E s0 C s' \<Longrightarrow> length (toks s') \<le> length (toks s) \<Longrightarrow> Q (Inr ()) s'"
  shows "wp (parseHandler E pst context seenOthers) Q s"
  using assms(1-3) unfolding parseHandler_def
  by (auto simp: wp_simps isInvalid_iff split: if_split_asm option.splits prod.splits
      intro!: wp_beginHandler [where ?s0.0 = s0 and C = C] wp_handlerBody [where ?s0.0 = s0 and C = C]
        wp_rules [where E = E and ?s0.0 = s0 and C = C]
        stmt_rules [where ?s0.0 = s0 and C = C] assms(4,5))

lemma wp_parseExceptionStmt [stmt_rules]:
  assumes "G E s0 C s" "headCode (toks s) = TKN_EXCEPTION" "handlers C" "length (toks s) \<le> k"
    and "\<And>s'. G E s0 C s' \<Longrightarrow> length (toks s') \<le> length (toks s) \<Longrightarrow> Q () s'"
  shows "wp (parseExceptionStmt E pst context) Q s"
  using assms(1-4) unfolding parseExceptionStmt_def
  by (auto simp: wp_simps split: if_split_asm
      intro!: wp_loop [where ?s0.0 = s0 and C = C] wp_rules [where E = E and ?s0.0 = s0 and C = C]
        stmt_rules [where ?s0.0 = s0 and C = C] assms(5))

text \<open>A block, whose declarations and statements are parsed in the construct it opens.\<close>

lemma wp_blockStatements:
  assumes "G E s0 (F_Block # C) s" "length (toks s) < k" "statements C"
    and "\<And>s'. G E s0 C s' \<Longrightarrow> length (toks s') \<le> length (toks s) \<Longrightarrow> wp f Q s'"
  shows "wp (stmtsWhile E pst stops block) (\<lambda>_. wp (do {
     clientUnit (BlockCall (EndBlockStmt block)); f }) Q) s"
  unfolding wp_bind
  using assms(1-3)
  by (auto simp: proto_simps intro!: wp_stmtsWhile [where ?s0.0 = s0 and C = "F_Block # C"]
      wp_clientUnit_block_to [where ?s0.0 = s0 and C = "F_Block # C" and C' = C] assms(4))

lemma wp_blockOpening:
  assumes "G E s0 (F_Block # C) s" "headCode (toks s) = TKN_DECLARE \<or> headCode (toks s) = TKN_BEGIN"
    and "\<And>s'. G E s0 (F_Block # C) s' \<Longrightarrow> length (toks s') < length (toks s) \<Longrightarrow> wp (f True) Q s'"
    and "\<And>s'. G E s0 (F_Block # C) s' \<Longrightarrow> length (toks s') \<le> length (toks s) \<Longrightarrow> wp (f False) Q s'"
  shows "wp (reduceToken TKN_DECLARE) (\<lambda>declare. wp (do {
     whenM declare (blockDeclarations E);
     b \<leftarrow> requireToken TKN_BEGIN;
     f b }) Q) s"
  using assms(1,2)
  by (auto simp: wp_simps split: if_split_asm
      intro!: wp_reduceToken_le [where ?s0.0 = s0 and C = "F_Block # C"]
        wp_requireToken_le [where ?s0.0 = s0 and C = "F_Block # C"]
        wp_blockDeclarations [where ?s0.0 = s0 and C = "F_Block # C"] assms(3,4))

lemma wp_parseBlockStmt [stmt_rules]:
  assumes "G E s0 C s" "headCode (toks s) = TKN_DECLARE \<or> headCode (toks s) = TKN_BEGIN"
    "statements C" "length (toks s) \<le> k"
    and "\<And>s' r. G E s0 C s' \<Longrightarrow> length (toks s') \<le> length (toks s) \<Longrightarrow> Q r s'"
  shows "wp (parseBlockStmt E pst tag loc) Q s"
proof -
  have rest: "wp (client E (BlockCall (BeginBlockStmt loc' tag))) (\<lambda>block. wp (do {
     declare \<leftarrow> reduceToken TKN_DECLARE;
     whenM declare (blockDeclarations E);
     beginTkn \<leftarrow> requireToken TKN_BEGIN;
     if \<not> beginTkn then do {
       clientUnit (BlockCall (EndBlockStmt block));
       _ \<leftarrow> seekAndConsumeEndTag E tag;
       ret getInvalidNode }
     else do {
       stmtsWhile E pst {TKN_END, TKN_EXCEPTION} block;
       clientUnit (BlockCall (EndBlockStmt block));
       exn \<leftarrow> currentTokenIs TKN_EXCEPTION;
       whenM exn (parseExceptionStmt E pst block);
       ended \<leftarrow> parseEndTag tag;
       whenM (\<not> ended) (do { _ \<leftarrow> seekAndConsumeEndTag E tag; ret () });
       ret block } }) Q) s" for loc'
    by (rule wp_client_block_to [OF assms(1), where C' = "F_Block # C"])
       (use assms(2-4) in \<open>auto simp: wp_simps proto_simps split: if_split_asm
         intro!: wp_blockOpening [where ?s0.0 = s0 and C = C] wp_blockStatements [where ?s0.0 = s0 and C = C]
           wp_clientUnit_block_to [where ?s0.0 = s0 and C = "F_Block # C" and C' = C]
           wp_seekAndConsumeEndTag [where ?s0.0 = s0 and C = C] wp_parseEndTag [where E = E and ?s0.0 = s0 and C = C]
           wp_parseExceptionStmt [where ?s0.0 = s0 and C = C] assms(5)\<close>)
  show ?thesis
    unfolding parseBlockStmt_def
    using rest [of loc] rest [of "tk_loc (ps_token s)"]
    by (cases tag) (simp_all add: wp_bind wp_return curLocation_def wp_gets)
qed

section \<open>Loops\<close>

text \<open>The body and the end of a loop, in the construct the loop opened.\<close>

lemma wp_loopBody:
  assumes "G E s0 C s" "statements C" "length (toks s) < k"
    and "\<And>s'. G E s0 C s' \<Longrightarrow> length (toks s') \<le> length (toks s) \<Longrightarrow> Q () s'"
  shows "wp (loopBody E pst tag node) Q s"
  using assms(1-3) unfolding loopBody_def
  by (auto simp: wp_simps split: if_split_asm
      intro!: wp_stmtsInto [where ?s0.0 = s0 and C = C] wp_rules [where E = E and ?s0.0 = s0 and C = C] assms(4))

lemma wp_loopStatements:
  assumes "G E s0 C s" "statements C" "length (toks s) < k" "statements C'"
    and "\<And>v. blockStep v opening C = Some C'" "\<forall>n \<in> set (block_operands opening). isValid n"
    and "\<And>v node. blockStep v (closing node) C' = Some C" "\<And>node. block_operands (closing node) = []"
    and "\<And>s' r. G E s0 C s' \<Longrightarrow> length (toks s') \<le> length (toks s) \<Longrightarrow> Q r s'"
  shows "wp (client E (BlockCall opening)) (\<lambda>node. wp (do {
       loopBody E pst tag node; client E (BlockCall (closing node)) }) Q) s"
  unfolding wp_bind
  by (rule wp_client_block_to [OF assms(1,5,6)])
     (use assms(2-4,7,8) in \<open>auto intro!: wp_loopBody [where ?s0.0 = s0 and C = C']
        wp_client_block_to [where ?s0.0 = s0 and C = C' and C' = C] assms(9)\<close>)

lemma wp_parseWhileStmt [stmt_rules]:
  assumes "G E s0 C s" "headCode (toks s) = TKN_WHILE" "statements C" "length (toks s) \<le> k"
    and "\<And>s' r. G E s0 C s' \<Longrightarrow> length (toks s') \<le> length (toks s) \<Longrightarrow> Q r s'"
  shows "wp (parseWhileStmt E pst tag loc) Q s"
  using assms(1-4) unfolding parseWhileStmt_def
  by (auto simp: wp_simps isInvalid_iff proto_simps split: if_split_asm
      intro!: wp_loopStatements [where ?s0.0 = s0 and C = C and C' = "F_While # C" and closing = EndWhileStmt]
        wp_rules [where E = E and ?s0.0 = s0 and C = C]
        unit_rules [where E = E and ?s0.0 = s0 and C = C] assms(5))

lemma wp_parseLoopStmt [stmt_rules]:
  assumes "G E s0 C s" "headCode (toks s) = TKN_LOOP" "statements C" "length (toks s) \<le> k"
    and "\<And>s' r. G E s0 C s' \<Longrightarrow> length (toks s') \<le> length (toks s) \<Longrightarrow> Q r s'"
  shows "wp (parseLoopStmt E pst tag loc) Q s"
  using assms(1-4) unfolding parseLoopStmt_def
  by (auto simp: wp_simps isInvalid_iff proto_simps split: if_split_asm
      intro!: wp_loopStatements [where ?s0.0 = s0 and C = C and C' = "F_Loop # C" and closing = EndLoopStmt]
        wp_rules [where E = E and ?s0.0 = s0 and C = C] assms(5))

lemma wp_parseForStmt [stmt_rules]:
  assumes "G E s0 C s" "headCode (toks s) = TKN_FOR" "statements C" "length (toks s) \<le> k"
    and "\<And>s' r. G E s0 C s' \<Longrightarrow> length (toks s') \<le> length (toks s) \<Longrightarrow> Q r s'"
  shows "wp (parseForStmt E pst tag loc) Q s"
  using assms(1-4) unfolding parseForStmt_def
  by (auto simp: wp_simps isInvalid_iff proto_simps split: if_split_asm
      intro!: wp_loopStatements [where ?s0.0 = s0 and C = C and C' = "F_For # C" and closing = EndForStmt]
        wp_rules [where E = E and ?s0.0 = s0 and C = C]
        unit_rules [where E = E and ?s0.0 = s0 and C = C] assms(5))

section \<open>Statements\<close>

lemma wp_parseTaggedStmt [stmt_rules]:
  assumes "G E s0 C s" "headCode (toks s) = TKN_IDENTIFIER \<and> headCode (tl (toks s)) = TKN_COLON"
    "statements C" "length (toks s) \<le> k"
    and "\<And>s' r. G E s0 C s' \<Longrightarrow> length (toks s') \<le> length (toks s) \<Longrightarrow> Q r s'"
  shows "wp (parseTaggedStmt E pst) Q s"
  using assms(1-4) unfolding parseTaggedStmt_def
  by (auto simp: wp_simps isInvalid_iff split: if_split_asm
      intro!: wp_rules [where E = E and ?s0.0 = s0 and C = C]
        stmt_rules [where ?s0.0 = s0 and C = C] assms(5))

lemma wp_parseStatementBody:
  assumes "G E s0 C s" "statements C" "length (toks s) \<le> k"
    and "\<And>s' r. G E s0 C s' \<Longrightarrow> length (toks s') \<le> length (toks s) \<Longrightarrow>
      length (toks s') < length (toks s) \<or> toks s' = [] \<Longrightarrow> Q r s'"
  shows "wp (parseStatementBody E pst) Q s"
  using assms(1-3) unfolding parseStatementBody_def
  by (auto simp: wp_simps isInvalid_iff split: if_split_asm
      intro!: wp_rules [where E = E and ?s0.0 = s0 and C = C]
        stmt_rules [where ?s0.0 = s0 and C = C] assms(4))

end

lemma stmt_parser_parseStatementN: "stmt_parser E k (parseStatementN k E)"
proof (induction k)
  case 0
  show ?case by unfold_locales simp
next
  case (Suc k)
  show ?case
    by unfold_locales (auto intro!: stmt_parser.wp_parseStatementBody [OF Suc])
qed

interpretation stmt: stmt_parser E "en_fuel E" "parseStatement E" for E
  unfolding parseStatement_def by (rule stmt_parser_parseStatementN)

text \<open>The rules the parsers of bodies use.\<close>

named_theorems body_rules \<open>rules of the operations above statements\<close>

lemmas body_statements [body_rules] =
  stmt.wp_stmtsWhile [OF _ _ G_fuel] stmt.wp_parseExceptionStmt [OF _ _ _ less_imp_le [OF G_fuel]]

lemma wp_parseStatement [body_rules]:
  assumes "G E s0 C s" "statements C"
    and "\<And>s' r. G E s0 C s' \<Longrightarrow> length (toks s') \<le> length (toks s) \<Longrightarrow>
      length (toks s') < length (toks s) \<or> toks s' = [] \<Longrightarrow> Q r s'"
  shows "wp (parseStatement E) Q s"
  by (rule stmt.wp_pst [OF assms(1,2) G_fuel [OF assms(1)]]) (rule assms(3))

end
