(* ===== verification/UnitSpec.thy ===== *)
theory UnitSpec
  imports StmtSpec
begin

text \<open>
  The rules of subroutine bodies, packages and compilation units.  A unit starts and ends with
  no construct open.
\<close>

section \<open>Subroutine bodies\<close>

lemma wp_bodyDeclarations:
  assumes "G E s0 (F_SubrBody # C) s"
    and "\<And>s'. G E s0 (F_SubrEnd # C) s' \<Longrightarrow> length (toks s') \<le> length (toks s) \<Longrightarrow> Q True s'"
    and "\<And>s'. G E s0 (F_SubrBody # C) s' \<Longrightarrow> length (toks s') \<le> length (toks s) \<Longrightarrow> Q False s'"
  shows "wp (bodyDeclarations E context) Q s"
  using assms(1) unfolding bodyDeclarations_def
  by (auto simp: wp_simps split: if_split_asm
      intro!: wp_loop [where ?s0.0 = s0 and C = "F_SubrBody # C"]
        wp_report [where E = E and ?s0.0 = s0 and C = "F_SubrBody # C"]
        wp_parseDeclaration [where ?s0.0 = s0 and C = "F_SubrBody # C"]
        wp_requireToken_le [where ?s0.0 = s0 and C = "F_SubrBody # C"]
        wp_clientUnit_unit_to [where ?s0.0 = s0 and C = "F_SubrBody # C" and C' = "F_SubrEnd # C"] assms(2,3))

lemma wp_subroutineStatements:
  assumes "G E s0 (F_SubrBody # C) s"
    and "\<And>s'. G E s0 (F_SubrEnd # C) s' \<Longrightarrow> length (toks s') \<le> length (toks s) \<Longrightarrow> Q () s'"
  shows "wp (do {
       _ \<leftarrow> requireToken TKN_BEGIN;
       stmtsWhile E (parseStatement E) {TKN_END, TKN_EXCEPTION} context;
       clientUnit (UnitCall (EndSubroutineBody context));
       exn \<leftarrow> currentTokenIs TKN_EXCEPTION;
       whenM exn (parseExceptionStmt E (parseStatement E) context) }) Q s"
  using assms(1)
  by (auto simp: wp_simps split: if_split_asm
      intro!: wp_requireToken_le [where ?s0.0 = s0 and C = "F_SubrBody # C"]
        body_statements(1) [where ?s0.0 = s0 and C = "F_SubrBody # C"]
        body_statements(2) [where ?s0.0 = s0 and C = "F_SubrEnd # C"]
        wp_clientUnit_unit_to [where ?s0.0 = s0 and C = "F_SubrBody # C" and C' = "F_SubrEnd # C"] assms(2))

lemma wp_subroutineEnd:
  assumes "G E s0 (F_SubrEnd # C) s"
    and "\<And>s'. G E s0 C s' \<Longrightarrow> length (toks s') \<le> length (toks s) \<Longrightarrow> Q () s'"
  shows "wp (do {
     tag \<leftarrow> popEndTag;
     _ \<leftarrow> parseEndTag (Some tag);
     clientUnit (UnitCall EndSubroutineDefinition) }) Q s"
  using assms(1)
  by (auto simp: wp_simps proto_simps
      intro!: wp_popEndTag [where E = E and ?s0.0 = s0 and C = "F_SubrEnd # C"]
        wp_parseEndTag [where E = E and ?s0.0 = s0 and C = "F_SubrEnd # C"]
        wp_clientUnit_unit_to [where ?s0.0 = s0 and C = "F_SubrEnd # C" and C' = C] assms(2))

lemma wp_parseSubroutineBody [body_rules]:
  assumes "G E s0 C s" "topFrame C = Some F_PackageBody" "isValid decl"
    and "\<And>s'. G E s0 C s' \<Longrightarrow> length (toks s') \<le> length (toks s) \<Longrightarrow> Q () s'"
  shows "wp (parseSubroutineBody E decl) Q s"
  using assms(1-3) unfolding parseSubroutineBody_def wp_bind [of "client _ _"] wp_bind [of "bodyDeclarations _ _"]
    wp_bind [of "whenM _ _"] wp_whenM
  by (auto simp: proto_simps
      intro!: wp_client_unit_to [where ?s0.0 = s0 and C = C and C' = "F_SubrBody # C"]
        wp_bodyDeclarations [where ?s0.0 = s0 and C = C]
        wp_subroutineStatements [where ?s0.0 = s0 and C = C]
        wp_subroutineEnd [where ?s0.0 = s0 and C = C] assms(4))

lemma wp_skipInvalidDeclaration [body_rules]:
  assumes "G E s0 C s"
    and "\<And>s'. G E s0 C s' \<Longrightarrow> length (toks s') \<le> length (toks s) \<Longrightarrow> Q () s'"
  shows "wp (skipInvalidDeclaration E) Q s"
  using assms(1) unfolding skipInvalidDeclaration_def
  by (auto simp: wp_simps split: if_split_asm
      intro!: wp_rules [where E = E and ?s0.0 = s0 and C = C]
        wp_popEndTag [where E = E and ?s0.0 = s0 and C = C] assms(2))

lemma packageBody_declarative [simp]: "topFrame C = Some F_PackageBody \<Longrightarrow> declarative C"
  by (simp add: declarative_def)

lemma wp_parseFunctionDeclOrDefinition [body_rules]:
  assumes "G E s0 C s" "headCode (toks s) = TKN_FUNCTION" "topFrame C = Some F_PackageBody"
    and "\<And>s'. G E s0 C s' \<Longrightarrow> length (toks s') < length (toks s) \<Longrightarrow> Q () s'"
  shows "wp (parseFunctionDeclOrDefinition E) Q s"
  using assms(1-3) unfolding parseFunctionDeclOrDefinition_def
  by (auto simp: wp_simps isInvalid_iff split: if_split_asm
      intro!: wp_rules [where E = E and ?s0.0 = s0 and C = C]
        unit_rules [where E = E and ?s0.0 = s0 and C = C]
        wp_parseSubroutineBody [where ?s0.0 = s0 and C = C]
        wp_skipInvalidDeclaration [where ?s0.0 = s0 and C = C] assms(4))

lemma wp_parseProcedureDeclOrDefinition [body_rules]:
  assumes "G E s0 C s" "headCode (toks s) = TKN_PROCEDURE" "topFrame C = Some F_PackageBody"
    and "\<And>s'. G E s0 C s' \<Longrightarrow> length (toks s') < length (toks s) \<Longrightarrow> Q () s'"
  shows "wp (parseProcedureDeclOrDefinition E) Q s"
  using assms(1-3) unfolding parseProcedureDeclOrDefinition_def
  by (auto simp: wp_simps isInvalid_iff split: if_split_asm
      intro!: wp_rules [where E = E and ?s0.0 = s0 and C = C]
        unit_rules [where E = E and ?s0.0 = s0 and C = C]
        wp_parseSubroutineBody [where ?s0.0 = s0 and C = C]
        wp_skipInvalidDeclaration [where ?s0.0 = s0 and C = C] assms(4))

section \<open>Packages\<close>

lemma wp_parsePackageBody [body_rules]:
  assumes "G E s0 C s" "topFrame C = Some F_PackageBody"
    and "\<And>s'. G E s0 C s' \<Longrightarrow> length (toks s') \<le> length (toks s) \<Longrightarrow> Q () s'"
  shows "wp (parsePackageBody E) Q s"
  using assms(1-2) unfolding parsePackageBody_def
  by (auto simp: wp_simps split: if_split_asm
      intro!: wp_loop [where ?s0.0 = s0 and C = C] wp_rules [where E = E and ?s0.0 = s0 and C = C]
        unit_rules [where E = E and ?s0.0 = s0 and C = C]
        body_rules [where ?s0.0 = s0 and C = C] assms(3))

lemma wp_parseBasicDeclarativeItemSequence [body_rules]:
  assumes "G E s0 C s" "declarative C"
    and "\<And>s'. G E s0 C s' \<Longrightarrow> length (toks s') \<le> length (toks s) \<Longrightarrow> Q () s'"
  shows "wp (parseBasicDeclarativeItemSequence E) Q s"
  using assms(1-2) unfolding parseBasicDeclarativeItemSequence_def
  by (auto simp: wp_simps split: if_split_asm
      intro!: wp_loop [where ?s0.0 = s0 and C = C] wp_rules [where E = E and ?s0.0 = s0 and C = C]
        unit_rules [where E = E and ?s0.0 = s0 and C = C] assms(3))

lemma wp_parsePackageEnd [body_rules]:
  assumes "G E s0 C s"
    and "\<And>s'. G E s0 C s' \<Longrightarrow> length (toks s') \<le> length (toks s) \<Longrightarrow> Q () s'"
  shows "wp (parsePackageEnd E name) Q s"
  using assms(1) unfolding parsePackageEnd_def
  by (auto simp: wp_simps split: if_split_asm
      intro!: wp_rules [where E = E and ?s0.0 = s0 and C = C] assms(2))

lemma wp_skipPackage [body_rules]:
  assumes "G E s0 C s"
    and "\<And>s'. G E s0 C s' \<Longrightarrow> length (toks s') \<le> length (toks s) \<Longrightarrow> Q () s'"
  shows "wp (skipPackage E name) Q s"
  using assms(1) unfolding skipPackage_def
  by (auto simp: wp_simps split: if_split_asm
      intro!: wp_rules [where E = E and ?s0.0 = s0 and C = C] assms(2))

text \<open>The client may refuse a package, which is not open then.\<close>

lemma wp_beginPackageBody:
  assumes "G E s0 [] s"
    and "\<And>s'. G E s0 [F_PackageBody] s' \<Longrightarrow> toks s' = toks s \<Longrightarrow> Q True s'"
    and "\<And>s'. G E s0 [] s' \<Longrightarrow> toks s' = toks s \<Longrightarrow> Q False s'"
  shows "wp (clientBool E (UnitCall (BeginPackageBody nm loc))) Q s"
  by (rule wp_clientBool [OF assms(1)])
     (use assms(2,3) in \<open>auto simp: valid_operands_def proto_simps split: if_split_asm\<close>)

lemma wp_beginPackageSpec:
  assumes "G E s0 [] s"
    and "\<And>s'. G E s0 [F_PackageSpec] s' \<Longrightarrow> toks s' = toks s \<Longrightarrow> Q True s'"
    and "\<And>s'. G E s0 [] s' \<Longrightarrow> toks s' = toks s \<Longrightarrow> Q False s'"
  shows "wp (clientBool E (UnitCall (BeginPackageSpec nm loc))) Q s"
  by (rule wp_clientBool [OF assms(1)])
     (use assms(2,3) in \<open>auto simp: valid_operands_def proto_simps split: if_split_asm\<close>)

lemma wp_packageBody:
  assumes "G E s0 [F_PackageBody] s"
    and "\<And>s'. G E s0 [] s' \<Longrightarrow> length (toks s') \<le> length (toks s) \<Longrightarrow> Q () s'"
  shows "wp (do { parsePackageBody E; clientUnit (UnitCall EndPackageBody); parsePackageEnd E nm }) Q s"
  using assms(1) unfolding wp_bind
  by (auto simp: proto_simps
      intro!: wp_parsePackageBody [where ?s0.0 = s0 and C = "[F_PackageBody]"]
        wp_clientUnit_unit_to [where ?s0.0 = s0 and C = "[F_PackageBody]" and C' = "[]"]
        wp_parsePackageEnd [where ?s0.0 = s0 and C = "[]"] assms(2))

lemma wp_packageSpecEnd:
  assumes "G E s0 C s" "C = [F_PackageSpec] \<or> C = [F_PackagePrivate]"
    and "\<And>s'. G E s0 [] s' \<Longrightarrow> length (toks s') \<le> length (toks s) \<Longrightarrow> Q () s'"
  shows "wp (do { clientUnit (UnitCall EndPackageSpec); parsePackageEnd E nm }) Q s"
  unfolding wp_bind
  by (rule wp_clientUnit_unit_to [OF assms(1), where C' = "[]"])
     (use assms(2) in \<open>auto intro!: wp_parsePackageEnd [where ?s0.0 = s0 and C = "[]"] assms(3)\<close>)

lemma wp_privatePart:
  assumes "G E s0 [F_PackageSpec] s" "headCode (toks s) = TKN_PRIVATE"
    and "\<And>s'. G E s0 [F_PackagePrivate] s' \<Longrightarrow> length (toks s') \<le> length (toks s) \<Longrightarrow> Q () s'"
  shows "wp (do {
        _ \<leftarrow> ignoreToken;
        privLoc \<leftarrow> curLocation;
        clientUnit (UnitCall (BeginPackagePrivatePart privLoc));
        parseBasicDeclarativeItemSequence E }) Q s"
  using assms(1,2) by (auto simp: wp_simps
      intro!: wp_ignoreToken_le [where ?s0.0 = s0 and C = "[F_PackageSpec]"]
        wp_clientUnit_unit_to [where ?s0.0 = s0 and C = "[F_PackageSpec]" and C' = "[F_PackagePrivate]"]
        wp_parseBasicDeclarativeItemSequence [where ?s0.0 = s0 and C = "[F_PackagePrivate]"] assms(3))

lemma wp_packageSpec:
  assumes "G E s0 [F_PackageSpec] s"
    and "\<And>s'. G E s0 [] s' \<Longrightarrow> length (toks s') \<le> length (toks s) \<Longrightarrow> Q () s'"
  shows "wp (do {
      parsePackageSpec E;
      private \<leftarrow> currentTokenIs TKN_PRIVATE;
      whenM private (do {
        _ \<leftarrow> ignoreToken;
        privLoc \<leftarrow> curLocation;
        clientUnit (UnitCall (BeginPackagePrivatePart privLoc));
        parsePackagePrivatePart E });
      clientUnit (UnitCall EndPackageSpec);
      parsePackageEnd E nm }) Q s"
  using assms(1) unfolding parsePackageSpec_def parsePackagePrivatePart_def
    wp_bind [of "parseBasicDeclarativeItemSequence _"] wp_bind [of "currentTokenIs _"]
    wp_bind [of "whenM _ _"] wp_whenM
  by (auto simp: currentTokenIs_def wp_gets current_code_simps
      intro!: wp_parseBasicDeclarativeItemSequence [where ?s0.0 = s0 and C = "[F_PackageSpec]"]
        wp_privatePart [where ?s0.0 = s0] wp_packageSpecEnd [where ?s0.0 = s0] assms(2))

lemma wp_parsePackage [body_rules]:
  assumes "G E s0 [] s" "headCode (toks s) = TKN_PACKAGE"
    and "\<And>s'. G E s0 [] s' \<Longrightarrow> length (toks s') < length (toks s) \<Longrightarrow> Q () s'"
  shows "wp (parsePackage E) Q s"
  using assms(1-2) unfolding parsePackage_def wp_bind [of "currentTokenIs _"] wp_bind [of "assertM _ _"]
    wp_bind [of ignoreToken] wp_bind [of "reduceToken _"] wp_bind [of curLocation] wp_bind [of parseIdentifier]
    wp_bind [of "andM _ _"] wp_andM
  by (auto simp: currentTokenIs_def curLocation_def wp_gets wp_if wp_return current_code_simps
        wp_bind [of "andM _ _"] wp_andM split: option.splits
      intro!: wp_rules [where E = E and ?s0.0 = s0 and C = "[]"]
        wp_beginPackageBody [where ?s0.0 = s0] wp_beginPackageSpec [where ?s0.0 = s0]
        wp_packageBody [where ?s0.0 = s0]
        wp_packageSpec [where ?s0.0 = s0, unfolded currentTokenIs_def curLocation_def current_code_simps]
        wp_skipPackage [where ?s0.0 = s0 and C = "[]"] assms(3))

section \<open>Compilation units\<close>

lemma wp_parseDottedName [body_rules]:
  assumes "G E s0 C s"
    and "\<And>s' names. G E s0 C s' \<Longrightarrow> length (toks s') \<le> length (toks s) \<Longrightarrow> names \<noteq> [] \<Longrightarrow> Q (Some names) s'"
    and "\<And>s'. G E s0 C s' \<Longrightarrow> length (toks s') \<le> length (toks s) \<Longrightarrow> Q None s'"
  shows "wp (parseDottedName E) Q s"
  using assms(1) unfolding parseDottedName_def
  by (auto simp: wp_simps split: if_split_asm option.splits
      intro!: wp_loop [where ?s0.0 = s0 and C = C] wp_rules [where E = E and ?s0.0 = s0 and C = C] assms(2,3))

lemma wp_parseWithClause [body_rules]:
  assumes "G E s0 [] s" "headCode (toks s) = TKN_WITH"
    and "\<And>s'. G E s0 [] s' \<Longrightarrow> length (toks s') < length (toks s) \<Longrightarrow> Q () s'"
  shows "wp (parseWithClause E) Q s"
  using assms(1,2) unfolding parseWithClause_def
  by (auto simp: wp_simps proto_simps split: if_split_asm option.splits
      intro!: wp_rules [where E = E and ?s0.0 = s0 and C = "[]"] stay_rules [where ?s0.0 = s0 and C = "[]"]
        wp_parseDottedName [where ?s0.0 = s0 and C = "[]"] assms(3))

lemma wp_parseContext [body_rules]:
  assumes "G E s0 [] s"
    and "\<And>s'. G E s0 [] s' \<Longrightarrow> length (toks s') \<le> length (toks s) \<Longrightarrow> Q (toks s' = []) s'"
  shows "wp (parseContext E) Q s"
  using assms(1) unfolding parseContext_def
  by (auto simp: wp_simps G_EOT split: if_split_asm
      intro!: wp_loop [where ?s0.0 = s0 and C = "[]"] wp_rules [where E = E and ?s0.0 = s0 and C = "[]"]
        wp_parseWithClause [where ?s0.0 = s0] assms(2))

text \<open>A unit is parsed to the end of the text or to a token no unit starts with, which is reported.\<close>

lemma wp_parseCompilationUnit [body_rules]:
  assumes "G E s0 [] s" and "\<And>s'. G E s0 [] s' \<Longrightarrow> Q () s'"
  shows "wp (parseCompilationUnit E) Q s"
  using assms(1) unfolding parseCompilationUnit_def parseTopLevelDeclaration_def
  by (auto simp: wp_simps split: if_split_asm
      intro!: wp_loop [where ?s0.0 = s0 and C = "[]"] wp_rules [where E = E and ?s0.0 = s0 and C = "[]"]
        wp_parseContext [where ?s0.0 = s0] wp_parsePackage [where ?s0.0 = s0] assms(2))

section \<open>Dependencies\<close>

lemma wp_skipUse [body_rules]:
  assumes "G E s0 C s" "headCode (toks s) = TKN_USE"
    and "\<And>s' r. G E s0 C s' \<Longrightarrow> length (toks s') < length (toks s) \<Longrightarrow> Q r s'"
  shows "wp (skipUse E) Q s"
  using assms(1,2) unfolding skipUse_def
  by (auto simp: wp_simps intro!: wp_rules [where E = E and ?s0.0 = s0 and C = C] assms(3))

lemma wp_depParseWithClause [body_rules]:
  assumes "G E s0 C s" "headCode (toks s) = TKN_WITH"
    and "\<And>s' r. G E s0 C s' \<Longrightarrow> length (toks s') < length (toks s) \<Longrightarrow> Q r s'"
  shows "wp (depParseWithClause E deps) Q s"
  using assms(1,2) unfolding depParseWithClause_def
  by (auto simp: wp_simps split: if_split_asm option.splits
      intro!: wp_rules [where E = E and ?s0.0 = s0 and C = C]
        wp_parseDottedName [where ?s0.0 = s0 and C = C] assms(3))

lemma wp_parseDependencies [body_rules]:
  assumes "G E s0 C s" and "\<And>s' r. G E s0 C s' \<Longrightarrow> Q r s'"
  shows "wp (parseDependencies E deps) Q s"
  using assms(1) unfolding parseDependencies_def
  by (auto simp: wp_simps split: if_split_asm
      intro!: wp_loop [where ?s0.0 = s0 and C = C]
        wp_skipUse [where ?s0.0 = s0 and C = C] wp_depParseWithClause [where ?s0.0 = s0 and C = C] assms(2))

end
