(* ===== verification/FrontEnd.thy ===== *)
theory FrontEnd
  imports UnitSpec
begin

text \<open>
  Whole runs: the parser on a text, from the scanner up.  The rules of the parsers are
  instantiated at the state the constructor makes, and the invariant is read off at the end.
\<close>

section \<open>The start of a run\<close>

lemma lexAll_length: "length (lexAll sc) \<le> length (sc_text sc) - sc_pos sc"
proof (induction sc rule: lexAll.induct)
  case (1 sc)
  show ?case
  proof (cases "tk_code (sc_target (scanToken sc)) = TKN_EOT")
    case True
    then show ?thesis by (simp add: lexAll_scanToken)
  next
    case False
    then show ?thesis
      using 1 [OF refl False] scanToken_moves [OF False] by (simp add: lexAll_scanToken) arith
  qed
qed

lemma toks_mkParser: "toks (mkParser tp pool) = lexAll (mkScanner tp)"
proof -
  note f = lexer_scan_effect [OF lexer_ok_mkLexer [of tp], unfolded lexer_stream_mkLexer]
  show ?thesis
    using f lexAll_no_EOT [of _ "mkScanner tp"]
    by (cases "lexAll (mkScanner tp)")
       (auto simp: mkParser_def toks_def case_prod_beta eotToken_def)
qed

lemma mkParser_simps [simp]:
  "ps_saved (mkParser tp pool) = []" "ps_diags (mkParser tp pool) = []" "ps_calls (mkParser tp pool) = []"
  "ps_halt (mkParser tp pool) = None"
  by (simp_all add: mkParser_def case_prod_beta)

lemma marks_mkParser [simp]: "lexer_marks (ps_lexer (mkParser tp pool)) = []"
  using lx.scan_marks [OF lexer_ok_mkLexer [of tp]]
  by (simp add: mkParser_def case_prod_beta) (simp add: lexer_marks_def mkLexer_def)

lemma wf_mkParser: "wf_tokens (mkParser tp pool)"
  using lexer_scan_effect [OF lexer_ok_mkLexer [of tp]] lx.nextToken_EOT [OF lexer_ok_mkLexer [of tp]]
    marks_mkParser [of tp pool]
  by (auto simp: wf_tokens_def mkParser_def case_prod_beta)

lemma G_mkParser:
  assumes "length (tp_text tp) < en_fuel E"
  shows "G E (mkParser tp pool) [] (mkParser tp pool)"
  using lexAll_length [of "mkScanner tp"] assms
  by (simp add: G_def wf_mkParser toks_mkParser mkScanner_def halt_ok_def)

text \<open>A rule at the start of a run, read off at its end.\<close>

lemma run_G:
  assumes "\<And>Q. (\<And>r s'. G E s C s' \<Longrightarrow> Q r s') \<Longrightarrow> wp m Q s"
  shows "G E s C (snd (run_state m s))"
  using assms [of "\<lambda>r s'. G E s C s'"] by (simp add: wp_def case_prod_beta)

section \<open>Parsing a unit\<close>

text \<open>The parser the driver makes for a source item, run on its text.\<close>

definition parsedUnit :: "('p, 'v) env \<Rightarrow> text_provider \<Rightarrow> pool \<Rightarrow> ('p, 'v) pstate" where
  "parsedUnit E tp pool = snd (run_state (parseCompilationUnit E) (mkParser tp pool))"

lemma G_parsedUnit:
  assumes "length (tp_text tp) < en_fuel E"
  shows "G E (mkParser tp pool) [] (parsedUnit E tp pool)"
  unfolding parsedUnit_def by (rule run_G) (rule wp_parseCompilationUnit [OF G_mkParser [OF assms]])

text \<open>
  C2. Parsing a unit ends, with fuel above the length of its text: a run never takes the
  branch of a loop or a recursion without fuel, and the only ways it can stop otherwise are the
  top of an empty stack of end tags, the assertion of \<^verbatim>\<open>parseQualifiedExpr\<close>, and the
  conversion of an integer literal.
\<close>

theorem parsedUnit_terminates:
  assumes "length (tp_text tp) < en_fuel E"
  shows "ps_halt (parsedUnit E tp pool) \<in> {None, Some EmptyEndTagStack,
    Some (AssertFailed ''parseQualifiedExpr''), Some (AssertFailed ''decimalLiteralToAPInt''), Some Diverges}"
  using G_parsedUnit [OF assms, of pool] by (simp add: G_def halt_ok_def)

text \<open>A client that takes everything, and one that refuses everything.\<close>

definition yesEnv :: "nat \<Rightarrow> (nat, nat \<times> nat) env" where
  "yesEnv n = \<lparr>en_node = (\<lambda>cs. \<lparr>nd_invalid = False, nd_payload = Some (length cs)\<rparr>),
     en_bool = (\<lambda>_. True), en_apint = pairOps, en_fuel = n\<rparr>"

definition noEnv :: "nat \<Rightarrow> (nat, nat \<times> nat) env" where
  "noEnv n = \<lparr>en_node = (\<lambda>_. getInvalidNode), en_bool = (\<lambda>_. False), en_apint = pairOps, en_fuel = n\<rparr>"

definition sampleText :: string where
  "sampleText = ''with A; package body P is procedure Q is begin X := 1 + Y; end Q; end P;'' @ [LF]"

definition sampleTP :: text_provider where
  "sampleTP = mkTextProvider 1 sampleText"

lemma sample_fuel [simp]:
  "length (tp_text sampleTP) < en_fuel (yesEnv 100)" "length (tp_text sampleTP) < en_fuel (noEnv 100)"
  by (simp_all add: sampleTP_def sampleText_def mkTextProvider_def initializeLinevec_def yesEnv_def noEnv_def)

theorem parsedUnit_terminates_witness:
  "ps_halt (parsedUnit (yesEnv 100) sampleTP Map.empty) \<noteq> Some OutOfFuel"
  using parsedUnit_terminates [of sampleTP "yesEnv 100" Map.empty] by auto



text \<open>
  C3. The client is never given an invalid node as an operand, even when it answered
  earlier callbacks with invalid ones: the parser checks each before it passes it on.
\<close>

theorem parsedUnit_operands:
  assumes "length (tp_text tp) < en_fuel E"
  shows "list_all (\<lambda>c. list_all isValid (operands c)) (ps_calls (parsedUnit E tp pool))"
  using G_parsedUnit [OF assms, of pool] by (auto simp: G_def extends_def valid_operands_def list_all_iff)

theorem parsedUnit_operands_witness:
  "list_all (\<lambda>c. list_all isValid (operands c)) (ps_calls (parsedUnit (noEnv 100) sampleTP Map.empty))"
  using parsedUnit_operands [of sampleTP "noEnv 100" Map.empty] by simp



text \<open>
  The excursions of a run are balanced: at its end no token and no position of the
  lexer is left saved, so the stack was never empty at the end of one, and the tokens not read are
  the last ones of the text.
\<close>

theorem parsedUnit_excursions:
  assumes "length (tp_text tp) < en_fuel E"
  shows "ps_saved (parsedUnit E tp pool) = [] \<and> lx_positionStack (ps_lexer (parsedUnit E tp pool)) = [] \<and>
    suffix (toks (parsedUnit E tp pool)) (lexAll (mkScanner tp))"
  using G_parsedUnit [OF assms, of pool]
  by (simp add: G_def extends_def toks_mkParser) (simp add: lexer_marks_def)

theorem parsedUnit_excursions_witness:
  "ps_saved (parsedUnit (yesEnv 100) sampleTP Map.empty) = []"
  using parsedUnit_excursions [of sampleTP "yesEnv 100" Map.empty] by simp

text \<open>
  The end of a unit: the text is used up, or the last report names the token the run stopped at.
\<close>

definition stopped :: "('p, 'v) pstate \<Rightarrow> bool" where
  "stopped s \<longleftrightarrow> toks s = [] \<or>
     (\<exists>ds loc. ps_diags s = ds @ [(UNEXPECTED_TOKEN, loc, [tokenText (ps_token s)])])"

lemma wp_report_here:
  assumes "G E s0 C s" and Q: "\<And>s'. G E s0 C s' \<Longrightarrow> stopped s' \<Longrightarrow> Q () s'"
  shows "wp (report UNEXPECTED_TOKEN [tokenText (ps_token s)]) Q s"
proof -
  let ?P = "\<lambda>(_ :: unit) s'. stopped s'"
  have "wp (report UNEXPECTED_TOKEN [tokenText (ps_token s)]) ?P s"
    by (simp add: report_def reportAt_def wp_bind wp_update wp_if wp_gets curLocation_def stopped_def)
  moreover have "wp (report UNEXPECTED_TOKEN [tokenText (ps_token s)]) (\<lambda>_ s'. G E s0 C s') s"
    by (rule wp_report [OF assms(1)]) simp_all
  ultimately show ?thesis
    using Q by (auto simp: wp_def split: prod.splits)
qed

lemma wp_parseTopLevelDeclaration:
  assumes "G E s0 [] s"
    and "\<And>s'. G E s0 [] s' \<Longrightarrow> length (toks s') < length (toks s) \<Longrightarrow> Q True s'"
    and "\<And>s'. G E s0 [] s' \<Longrightarrow> stopped s' \<Longrightarrow> Q False s'"
  shows "wp (parseTopLevelDeclaration E) Q s"
  using assms(1) G_EOT [OF assms(1)] unfolding parseTopLevelDeclaration_def
  by (auto simp: wp_simps stopped_def [of s] intro!: wp_report_here [where ?s0.0 = s0 and C = "[]" and E = E]
      wp_parsePackage [where ?s0.0 = s0] assms(2,3))

lemma wp_parseCompilationUnit_stopped:
  assumes "G E s0 [] s" and "\<And>s'. stopped s' \<Longrightarrow> Q () s'"
  shows "wp (parseCompilationUnit E) Q s"
  using assms(1) unfolding parseCompilationUnit_def
  by (auto simp: wp_simps split: if_split_asm
      intro!: wp_loop [where ?s0.0 = s0 and C = "[]"] wp_parseTopLevelDeclaration [where ?s0.0 = s0]
        wp_parseContext [where ?s0.0 = s0] assms(2)) (simp add: stopped_def)

text \<open>
  C6. No part of a text is passed over in silence at the end of a unit: a run that does not
  reach the end of the text has reported the token it stopped at as unexpected.
\<close>

theorem parsedUnit_stops:
  assumes "length (tp_text tp) < en_fuel E" "toks (parsedUnit E tp pool) \<noteq> []"
  shows "fst (last (ps_diags (parsedUnit E tp pool))) = UNEXPECTED_TOKEN \<and>
    snd (snd (last (ps_diags (parsedUnit E tp pool)))) = [tokenText (ps_token (parsedUnit E tp pool))]"
proof -
  have "wp (parseCompilationUnit E) (\<lambda>_ s'. stopped s') (mkParser tp pool)"
    by (rule wp_parseCompilationUnit_stopped [OF G_mkParser [OF assms(1)]])
  then have "stopped (parsedUnit E tp pool)" by (simp add: wp_def parsedUnit_def case_prod_beta)
  then show ?thesis using assms(2) by (auto simp: stopped_def)
qed

text \<open>A text that starts with neither a context clause nor a package stops at its first token.\<close>

lemma parsedUnit_junk:
  fixes E :: "('p, 'v) env"
  assumes "length (tp_text tp) < en_fuel E"
    and "headCode (lexAll (mkScanner tp)) \<notin> {TKN_WITH, TKN_PACKAGE}"
  shows "toks (parsedUnit E tp pool) = lexAll (mkScanner tp)"
proof -
  let ?s = "mkParser tp pool :: ('p, 'v) pstate"
  let ?I = "\<lambda>(_ :: unit) t. G E ?s [] t \<and> toks t = toks ?s"
  note start = G_mkParser [OF assms(1), of pool]
  have junk: "headCode (toks ?s) \<notin> {TKN_WITH, TKN_PACKAGE}" using assms(2) by (simp add: toks_mkParser)
  have ctxt: "wp (parseContext E) (\<lambda>_ t. G E ?s [] t \<and> toks t = toks ?s) ?s"
    unfolding parseContext_def
    by (rule wp_loopM [where I = ?I]) (use junk start G_fuel [OF start] in \<open>auto simp: wp_simps\<close>)
  have decls: "wp (loopM E () (\<lambda>_. do {
       more \<leftarrow> parseTopLevelDeclaration E;
       ret (if more then Inl () else Inr ()) }) ()) (\<lambda>_ t. toks t = toks ?s) t"
    if "G E ?s [] t \<and> toks t = toks ?s" for t
    unfolding parseTopLevelDeclaration_def
    by (rule wp_loopM [where I = ?I])
       (use junk that G_fuel [of E ?s "[]" t] in \<open>auto simp: wp_simps intro!: wp_report [where E = E and ?s0.0 = ?s and C = "[]"]\<close>)
  have "wp (parseCompilationUnit E) (\<lambda>_ t. toks t = toks ?s) ?s"
    unfolding parseCompilationUnit_def wp_bind
    by (rule wp_conseq [OF ctxt]) (simp add: wp_if wp_return decls)
  then show ?thesis by (simp add: wp_def parsedUnit_def case_prod_beta toks_mkParser)
qed

theorem parsedUnit_stops_witness:
  "fst (last (ps_diags (parsedUnit (yesEnv 100) (mkTextProvider 1 '';'') Map.empty))) = UNEXPECTED_TOKEN"
proof -
  let ?tp = "mkTextProvider 1 '';''"
  have f: "length (tp_text ?tp) < en_fuel (yesEnv 100)"
    by (simp add: mkTextProvider_def initializeLinevec_def yesEnv_def)
  have l: "map tk_code (lexAll (mkScanner ?tp)) = [TKN_SEMI]" by code_simp
  then have "toks (parsedUnit (yesEnv 100) ?tp Map.empty) \<noteq> []"
    using parsedUnit_junk [OF f, of Map.empty] by (cases "lexAll (mkScanner ?tp)") auto
  from parsedUnit_stops [OF f this] show ?thesis by simp
qed

section \<open>Statements and lookahead\<close>


text \<open>A text in the body of a subroutine.\<close>

definition bodyTP :: text_provider where
  "bodyTP = mkTextProvider 1 '';''"

definition sampleBody :: "(nat, nat \<times> nat) pstate" where
  "sampleBody = (mkParser bodyTP Map.empty)\<lparr>ps_calls :=
     [UnitCall (BeginSubroutineDefinition getNullNode), UnitCall (BeginPackageBody ''p'' Location0)]\<rparr>"

lemma toks_calls [simp]: "toks (s\<lparr>ps_calls := cs\<rparr>) = toks s" "wf_tokens (s\<lparr>ps_calls := cs\<rparr>) = wf_tokens s"
  by (simp_all add: toks_def wf_tokens_def)

lemma G_sampleBody: "G (yesEnv 100) sampleBody [F_SubrBody, F_PackageBody] sampleBody"
proof -
  have "length (tp_text bodyTP) < en_fuel (yesEnv 100)"
    by (simp add: bodyTP_def mkTextProvider_def initializeLinevec_def yesEnv_def)
  from G_mkParser [OF this, of Map.empty] show ?thesis
    by (simp add: G_def sampleBody_def proto_simps yesEnv_def)
qed


text \<open>
  C8. The test for an assignment looks past the whole name, however many selections and
  parenthesised arguments it has, and answers whether \<^verbatim>\<open>:=\<close> follows it; the tokens left and
  the current one are as before.
\<close>

theorem assignmentFollows_correct:
  assumes "G E s C s"
  shows "(fst (run_state (assignmentFollows E) s) \<longleftrightarrow> headCode (nameEnd (toks s)) = TKN_ASSIGN) \<and>
    toks (snd (run_state (assignmentFollows E) s)) = toks s"
proof -
  have "wp (assignmentFollows E) (\<lambda>r s'. r = (headCode (nameEnd (toks s)) = TKN_ASSIGN) \<and> toks s' = toks s) s"
    by (rule wp_assignmentFollows [OF assms]) simp
  then show ?thesis by (simp add: wp_def case_prod_beta)
qed

theorem assignmentFollows_correct_witness:
  "fst (run_state (assignmentFollows (yesEnv 100)) (mkParser sampleTP Map.empty)) \<longleftrightarrow>
    headCode (nameEnd (toks (mkParser sampleTP Map.empty :: (nat, nat \<times> nat) pstate))) = TKN_ASSIGN"
  using assignmentFollows_correct [OF G_mkParser [OF sample_fuel(1), of Map.empty]] by blast

text \<open>
  \<^verbatim>\<open>seekCloseParen\<close> is the matching of parentheses: it succeeds when the tokens left
  close one parenthesis more than they open, leaves what follows the one that does, and
  otherwise leaves nothing.
\<close>

theorem seekCloseParen_correct:
  assumes "G E s C s"
  shows "(fst (run_state (seekCloseParen E) s), toks (snd (run_state (seekCloseParen E) s))) =
    closeParen 1 (toks s)"
proof -
  have "wp (seekCloseParen E) (\<lambda>r s'. (r, toks s') = closeParen 1 (toks s)) s"
    by (rule wp_seekCloseParen [OF assms])
  then show ?thesis by (simp add: wp_def case_prod_beta)
qed

theorem seekCloseParen_correct_witness:
  "(fst (run_state (seekCloseParen (yesEnv 100)) (mkParser sampleTP Map.empty)),
    toks (snd (run_state (seekCloseParen (yesEnv 100)) (mkParser sampleTP Map.empty)))) =
   closeParen 1 (toks (mkParser sampleTP Map.empty :: (nat, nat \<times> nat) pstate))"
  by (rule seekCloseParen_correct [OF G_mkParser [OF sample_fuel(1)]])

end
