(* ===== verification/Dependencies.thy ===== *)
theory Dependencies
  imports FrontEnd
begin

text \<open>
  What the dependency parser computes, as a function of the tokens of the text: the names of
  the \<^verbatim>\<open>with\<close> clauses before the first token that belongs to neither a \<^verbatim>\<open>with\<close> nor a
  \<^verbatim>\<open>use\<close> clause.  The parser with its lexer, token buffer and pool is shown to compute it.
\<close>

section \<open>The function\<close>

fun dottedName :: "token list \<Rightarrow> string list option \<times> token list" where
  "dottedName (t # ts) =
     (if tk_code t \<noteq> TKN_IDENTIFIER then (None, t # ts)
      else case ts of
        u # us \<Rightarrow>
          if tk_code u = TKN_DOT then
            (case dottedName us of (names, rest) \<Rightarrow> (map_option (Cons (tk_rep t)) names, rest))
          else (Some [tk_rep t], ts)
      | [] \<Rightarrow> (Some [tk_rep t], []))"
| "dottedName [] = (None, [])"

lemma dottedName_length: "length (snd (dottedName ts)) \<le> length ts"
  by (induction ts rule: dottedName.induct) (auto split: list.splits prod.splits)

text \<open>A \<^verbatim>\<open>with\<close> clause after its keyword: its first name and what follows the semicolon.\<close>

definition withClause :: "token list \<Rightarrow> (string \<times> token list) option" where
  "withClause ts = (case dottedName ts of
     (Some names, t # rest) \<Rightarrow> if tk_code t = TKN_SEMI then Some (hd names, rest) else None
   | _ \<Rightarrow> None)"

lemma withClause_length: "withClause ts = Some (n, rest) \<Longrightarrow> length rest < length ts"
  using dottedName_length [of ts] by (auto simp: withClause_def split: prod.splits option.splits list.splits if_splits)

function dependencies :: "token list \<Rightarrow> (location \<times> string) set \<Rightarrow> (location \<times> string) set \<times> bool" where
  "dependencies [] deps = (deps, True)"
| "dependencies (t # ts) deps =
     (if tk_code t = TKN_USE then
        (case dropWhile (\<lambda>u. tk_code u \<noteq> TKN_SEMI) ts of
           [] \<Rightarrow> (deps, False)
         | u # us \<Rightarrow> dependencies us deps)
      else if tk_code t = TKN_WITH then
        (case withClause ts of
           None \<Rightarrow> (deps, False)
         | Some (name, rest) \<Rightarrow> dependencies rest (insert (tk_loc t, name) deps))
      else (deps, True))"
  by pat_completeness auto
termination
proof (relation "measure (length \<circ> fst)", goal_cases)
  case (2 t ts deps u us)
  then have "length (u # us) \<le> length ts" by (metis length_dropWhile_le)
  then show ?case by simp
next
  case (3 t ts deps p name rest)
  then show ?case using withClause_length [of ts name rest] by simp
qed simp

section \<open>The parser computes it\<close>

lemma toks_token: "toks s \<noteq> [] \<Longrightarrow> ps_token s = hd (toks s)"
  by (simp add: toks_def split: if_splits)

lemma wp_parseIdentifier_rep:
  assumes "G E s0 C s"
    and "\<And>s' t. toks s = t # toks s' \<Longrightarrow> tk_code t = TKN_IDENTIFIER \<Longrightarrow> G E s0 C s' \<Longrightarrow> Q (Some (tk_rep t)) s'"
    and "\<And>s'. headCode (toks s) \<noteq> TKN_IDENTIFIER \<Longrightarrow> G E s0 C s' \<Longrightarrow> toks s' = toks s \<Longrightarrow> Q None s'"
  shows "wp parseIdentifier Q s"
proof (cases "headCode (toks s) = TKN_IDENTIFIER")
  case True
  then obtain t ts where t: "toks s = t # ts" "tk_code t = TKN_IDENTIFIER" "ps_token s = t"
    using toks_token [of s] by (cases "toks s") auto
  have "Q (Some (tk_rep t)) s'" if "G E s0 C s'" "toks s' = tl (toks s)" for s'
    by (rule assms(2)) (use t that in simp_all)
  then show ?thesis
    using True unfolding parseIdentifier_def tokenIdentifier_def
    by (simp add: wp_simps t(3))
       (rule wp_internIdentifier [OF assms(1)], simp add: wp_bind wp_return, rule wp_ignoreToken,
        auto simp: wp_return)
next
  case False
  then show ?thesis
    using assms(1,3) unfolding parseIdentifier_def
    by (auto simp: wp_simps intro!: wp_report)
qed

lemma dottedName_simps:
  "headCode ts \<noteq> TKN_IDENTIFIER \<Longrightarrow> dottedName ts = (None, ts)"
  "tk_code t = TKN_IDENTIFIER \<Longrightarrow> headCode ts \<noteq> TKN_DOT \<Longrightarrow> dottedName (t # ts) = (Some [tk_rep t], ts)"
  "tk_code t = TKN_IDENTIFIER \<Longrightarrow> headCode ts = TKN_DOT \<Longrightarrow>
     dottedName (t # ts) = map_prod (map_option (Cons (tk_rep t))) id (dottedName (tl ts))"
  by (cases ts; auto simp: map_prod_def)+

declare dottedName.simps [simp del]

lemma append_snoc: "append (xs @ [x]) = (\<lambda>ys. xs @ x # ys)"
  by auto

lemma wp_parseDottedName_exact:
  assumes "G E s0 C s"
    and Q: "\<And>s' r. G E s0 C s' \<Longrightarrow> dottedName (toks s) = (r, toks s') \<Longrightarrow> Q r s'"
  shows "wp (parseDottedName E) Q s"
  unfolding parseDottedName_def
proof (rule wp_loopM [where I = "\<lambda>acc t. G E s0 C t \<and>
      dottedName (toks s) = map_prod (map_option (append acc)) id (dottedName (toks t))"])
  fix acc t
  assume inv: "G E s0 C t \<and> dottedName (toks s) = map_prod (map_option (append acc)) id (dottedName (toks t))"
  then have g: "G E s0 C t" ..
  show "wp (do {
     idInfo \<leftarrow> parseIdentifier;
     (case idInfo of
        None \<Rightarrow> ret (Inr None)
      | Some nm \<Rightarrow> do {
          dot \<leftarrow> reduceToken TKN_DOT;
          ret (if dot then Inl (acc @ [nm]) else Inr (Some (acc @ [nm]))) }) })
    (\<lambda>r t'. case r of Inl acc' \<Rightarrow> (G E s0 C t' \<and>
        dottedName (toks s) = map_prod (map_option (append acc')) id (dottedName (toks t'))) \<and>
        length (toks t') < length (toks t) | Inr x \<Rightarrow> Q x t') t"
    unfolding wp_bind
    by (rule wp_parseIdentifier_rep [OF g])
       (use inv in \<open>auto simp: wp_simps dottedName_simps map_prod_def case_prod_beta option.map_comp comp_def
          less_Suc_eq_le append_snoc
          intro!: wp_reduceToken Q split: if_split_asm\<close>)
next
  show "G E s0 C s \<and> dottedName (toks s) = map_prod (map_option (append [])) id (dottedName (toks s))"
    using assms(1) by (cases "dottedName (toks s)") (simp add: option.map_ident append_Nil [abs_def])
  show "length (toks s) < en_fuel E" using assms(1) by (rule G_fuel)
qed

lemma wp_depParseWithClause_exact:
  assumes "G E s0 C s" "toks s = t # ts" "tk_code t = TKN_WITH"
    and "\<And>s' name. withClause ts = Some (name, toks s') \<Longrightarrow> G E s0 C s' \<Longrightarrow>
      Q (insert (tk_loc t, name) deps, True) s'"
    and "\<And>s'. withClause ts = None \<Longrightarrow> G E s0 C s' \<Longrightarrow> length (toks s') \<le> length ts \<Longrightarrow> Q (deps, False) s'"
  shows "wp (depParseWithClause E deps) Q s"
proof -
  have t: "ps_token s = t" using assms(2) toks_token [of s] by simp
  have name: "wp (parseDottedName E) (\<lambda>names. wp (case names of None \<Rightarrow> ret (deps, False)
       | Some ns \<Rightarrow> do {
           semi \<leftarrow> requireToken TKN_SEMI;
           ret (if semi then (insert (tk_loc t, hd ns) deps, True) else (deps, False)) }) Q) s'"
    if "G E s0 C s'" "toks s' = ts" for s'
  proof (rule wp_parseDottedName_exact [OF that(1)])
    fix s1 r
    assume g: "G E s0 C s1" and d: "dottedName (toks s') = (r, toks s1)"
    have len: "length (toks s1) \<le> length ts" using dottedName_length [of ts] d that(2) by simp
    show "wp (case r of None \<Rightarrow> ret (deps, False) | Some ns \<Rightarrow> do {
           semi \<leftarrow> requireToken TKN_SEMI;
           ret (if semi then (insert (tk_loc t, hd ns) deps, True) else (deps, False)) }) Q s1"
    proof (cases r)
      case None
      then have "withClause ts = None" using d that(2) by (simp add: withClause_def)
      then show ?thesis using None g using len by (simp add: wp_return assms(5))
    next
      case (Some ns)
      have semi: "withClause ts = (if headCode (toks s1) = TKN_SEMI then Some (hd ns, tl (toks s1)) else None)"
        using d that(2) Some by (cases "toks s1") (simp_all add: withClause_def)
      show ?thesis
        unfolding Some option.case wp_bind
        by (rule wp_requireToken [OF g]) (use semi len in \<open>auto simp: wp_return intro!: assms(4,5)\<close>)
    qed
  qed
  show ?thesis
    unfolding depParseWithClause_def assertM_def
    by (simp add: currentTokenIs_def wp_bind wp_gets wp_return wp_if t assms(3))
       (rule wp_ignoreToken [OF assms(1)], unfold t wp_bind, rule name [unfolded wp_bind], auto simp: assms(2))
qed

lemma wp_skipUse_exact:
  assumes "G E s0 C s" "toks s = t # ts" "tk_code t = TKN_USE"
    and "\<And>s' u. dropWhile (\<lambda>u. tk_code u \<noteq> TKN_SEMI) ts = u # toks s' \<Longrightarrow> G E s0 C s' \<Longrightarrow> Q True s'"
    and "\<And>s'. dropWhile (\<lambda>u. tk_code u \<noteq> TKN_SEMI) ts = [] \<Longrightarrow> G E s0 C s' \<Longrightarrow> toks s' = [] \<Longrightarrow> Q False s'"
  shows "wp (skipUse E) Q s"
proof -
  have t: "ps_token s = t" using assms(2) toks_token [of s] by simp
  have d: "seekIn [TKN_SEMI] (toks s) = dropWhile (\<lambda>u. tk_code u \<noteq> TKN_SEMI) ts"
    using assms(2,3) by (simp add: seekIn_def)
  show ?thesis
    unfolding skipUse_def assertM_def
  proof (simp add: currentTokenIs_def wp_bind wp_gets wp_return wp_if t assms(3),
      rule wp_seekAndConsumeToken [OF assms(1)], unfold d)
    fix s' r
    assume "G E s0 C s'" "toks s' = tl (dropWhile (\<lambda>u. tk_code u \<noteq> TKN_SEMI) ts)"
      "r = (dropWhile (\<lambda>u. tk_code u \<noteq> TKN_SEMI) ts \<noteq> [])"
    then show "Q r s'"
      using assms(4) [of _ s'] assms(5) [of s']
      by (cases "dropWhile (\<lambda>u. tk_code u \<noteq> TKN_SEMI) ts") auto
  qed
qed

lemma wp_parseDependencies_exact:
  assumes "G E s0 C s"
    and Q: "\<And>s'. G E s0 C s' \<Longrightarrow> Q (dependencies (toks s) deps) s'"
  shows "wp (parseDependencies E deps) Q s"
  unfolding parseDependencies_def
proof (rule wp_loopM [where I = "\<lambda>a t. G E s0 C t \<and>
      dependencies (toks s) deps = (if snd a then dependencies (toks t) (fst a) else (fst a, False))"])
  fix a t
  assume inv: "G E s0 C t \<and>
      dependencies (toks s) deps = (if snd a then dependencies (toks t) (fst a) else (fst a, False))"
  obtain ds status where a: "a = (ds, status)" by force
  have g: "G E s0 C t" using inv by (simp add: a)
  let ?R = "\<lambda>r t'. case r of Inl a' \<Rightarrow> (G E s0 C t' \<and>
        dependencies (toks s) deps = (if snd a' then dependencies (toks t') (fst a') else (fst a', False))) \<and>
        length (toks t') < length (toks t) | Inr x \<Rightarrow> Q x t'"
  show "wp (case a of (deps, status) \<Rightarrow>
     if \<not> status then ret (Inr (deps, status))
     else do {
       c \<leftarrow> currentTokenCode;
       if c = TKN_USE then do { ok \<leftarrow> skipUse E; ret (Inl (deps, ok)) }
       else if c = TKN_WITH then do { r \<leftarrow> depParseWithClause E deps; ret (Inl r) }
       else ret (Inr (deps, True)) }) ?R t"
  proof (cases "toks t")
    case Nil
    then show ?thesis using inv Q [OF g] by (auto simp: a wp_simps)
  next
    case (Cons u us)
    have "wp (do { ok \<leftarrow> skipUse E; ret (Inl (ds, ok)) }) ?R t" if "status" "tk_code u = TKN_USE"
      unfolding wp_bind
      by (rule wp_skipUse_exact [OF g Cons that(2)])
         (use inv that Cons length_dropWhile_le [of "\<lambda>u. tk_code u \<noteq> TKN_SEMI" us] in
           \<open>auto simp: a wp_return simp del: dropWhile_eq_Nil_conv\<close>)
    moreover have "wp (do { r \<leftarrow> depParseWithClause E ds; ret (Inl r) }) ?R t" if "status" "tk_code u = TKN_WITH"
      unfolding wp_bind
      by (rule wp_depParseWithClause_exact [OF g Cons that(2)])
         (use inv that Cons withClause_length [of us] in \<open>auto simp: a wp_return\<close>)
    ultimately show ?thesis
      using inv Q [OF g] Cons by (auto simp: a wp_simps)
  qed
next
  show "G E s0 C s \<and> dependencies (toks s) deps =
      (if snd (deps, True) then dependencies (toks s) (fst (deps, True)) else (fst (deps, True), False))"
    using assms(1) by simp
  show "length (toks s) < en_fuel E" using assms(1) by (rule G_fuel)
qed

text \<open>
  C4. Run on a text, the dependency parser returns what \<open>dependencies\<close> says of the tokens of the
  text: the set of the first names of its \<^verbatim>\<open>with\<close> clauses, each with the location of its
  keyword, and success unless one of its clauses is broken.
\<close>

theorem parseDependencies_refines:
  assumes "length (tp_text tp) < en_fuel E"
  shows "fst (run_state (parseDependencies E deps) (mkParser tp pool)) =
    dependencies (lexAll (mkScanner tp)) deps"
proof -
  have "wp (parseDependencies E deps) (\<lambda>r s'. r = dependencies (toks (mkParser tp pool :: (_, _) pstate)) deps)
      (mkParser tp pool)"
    by (rule wp_parseDependencies_exact [OF G_mkParser [OF assms]]) (simp add: toks_mkParser)
  then show ?thesis by (simp add: wp_def case_prod_beta toks_mkParser)
qed

theorem parseDependencies_refines_witness:
  "fst (run_state (parseDependencies (yesEnv 100) {}) (mkParser (mkTextProvider 1 '';'') Map.empty)) = ({}, True)"
proof -
  have "dependencies (lexAll (mkScanner (mkTextProvider 1 '';''))) {} = ({}, True)"
    by code_simp
  then show ?thesis
    using parseDependencies_refines [of "mkTextProvider 1 '';''" "yesEnv 100" "{}" Map.empty]
    by (simp add: mkTextProvider_def initializeLinevec_def yesEnv_def)
qed

end
