(* ===== verification/Dwarf.thy ===== *)
theory Dwarf
  imports Prelude
begin

text \<open>
  The reading of DWARF values, from the first part of \<^verbatim>\<open>lib/runtime/crt_exceptions.c\<close>.

  A pointer is a 64-bit word and the memory a partial map from pointers to bytes.  A function
  of the source that reads through a pointer returns an error or its results with the
  pointer behind what it read.  The errors are what the C code does not survive: a byte that is not there, a
  shift by the width of the type or more, a copy beyond the end of an object, a failed
  \<^verbatim>\<open>assert\<close>, and the end of the process in \<^verbatim>\<open>fatal_error\<close>.  Words are read
  with the least significant byte first.
\<close>

unbundle bit_operations_syntax

section \<open>Memory and errors\<close>

type_synonym addr = "64 word"
type_synonym byte = "8 word"
type_synonym mem = "addr \<Rightarrow> byte option"

datatype rt_error = Unmapped | ShiftTooFar | CopyTooLong | Assertion | Fatal string

text \<open>So many bytes from an address.\<close>

fun bytes_at :: "mem \<Rightarrow> addr \<Rightarrow> nat \<Rightarrow> byte list option" where
  "bytes_at m p 0 = Some []"
| "bytes_at m p (Suc n) =
     (case m p of None \<Rightarrow> None | Some b \<Rightarrow> map_option (Cons b) (bytes_at m (p + 1) n))"

text \<open>The word of so many bytes, zero-extended, and sign-extended from its last byte.\<close>

fun le_word :: "byte list \<Rightarrow> 64 word" where
  "le_word [] = 0"
| "le_word (b # bs) = ucast b OR push_bit 8 (le_word bs)"

definition sign_extend_from :: "nat \<Rightarrow> 64 word \<Rightarrow> 64 word" where
  "sign_extend_from n w = (if n < 64 \<and> bit w (n - 1) then w OR push_bit n (- 1) else w)"

section \<open>LEB128\<close>

definition DW_EH_PE_omit :: byte where "DW_EH_PE_omit = 0xFF"
definition DW_EH_PE_uleb128 :: byte where "DW_EH_PE_uleb128 = 0x01"
definition DW_EH_PE_udata2 :: byte where "DW_EH_PE_udata2 = 0x02"
definition DW_EH_PE_udata4 :: byte where "DW_EH_PE_udata4 = 0x03"
definition DW_EH_PE_udata8 :: byte where "DW_EH_PE_udata8 = 0x04"
definition DW_EH_PE_sleb128 :: byte where "DW_EH_PE_sleb128 = 0x09"
definition DW_EH_PE_sdata2 :: byte where "DW_EH_PE_sdata2 = 0x0A"
definition DW_EH_PE_sdata4 :: byte where "DW_EH_PE_sdata4 = 0x0B"
definition DW_EH_PE_sdata8 :: byte where "DW_EH_PE_sdata8 = 0x0C"
definition DW_EH_PE_absptr :: byte where "DW_EH_PE_absptr = 0x00"

lemmas dwarf_codes =
  DW_EH_PE_omit_def DW_EH_PE_uleb128_def DW_EH_PE_udata2_def DW_EH_PE_udata4_def DW_EH_PE_udata8_def
  DW_EH_PE_sleb128_def DW_EH_PE_sdata2_def DW_EH_PE_sdata4_def DW_EH_PE_sdata8_def DW_EH_PE_absptr_def

text \<open>
  The loop both LEB128 readers start with: it takes the bytes whose high bit is set, and
  ends at the pointer of the first other byte.
\<close>

function leb_loop :: "mem \<Rightarrow> addr \<Rightarrow> 64 word \<Rightarrow> nat \<Rightarrow> rt_error + addr \<times> 64 word \<times> nat" where
  "leb_loop m start res bits =
     (case m start of
        None \<Rightarrow> Inl Unmapped
      | Some b \<Rightarrow>
          if b AND 0x80 = 0 then Inr (start, res, bits)
          else if 64 \<le> bits then Inl ShiftTooFar
          else leb_loop m (start + 1) (res OR push_bit bits (ucast b AND 0x7F)) (bits + 7))"
  by pat_completeness auto
termination
  by (relation "measure (\<lambda>(m, start, res, bits). 64 - bits)") auto

declare leb_loop.simps [simp del]

definition parse_uleb128 :: "mem \<Rightarrow> addr \<Rightarrow> rt_error + 64 word \<times> addr" where
  "parse_uleb128 m start =
     (case leb_loop m start 0 0 of
        Inl e \<Rightarrow> Inl e
      | Inr (p, res, bits) \<Rightarrow>
          (case m p of
             None \<Rightarrow> Inl Unmapped
           | Some b \<Rightarrow>
               if 64 \<le> bits then Inl ShiftTooFar
               else Inr (res OR push_bit bits (ucast b AND 0x7F), p + 1)))"

definition parse_sleb128 :: "mem \<Rightarrow> addr \<Rightarrow> rt_error + 64 word \<times> addr" where
  "parse_sleb128 m start =
     (case leb_loop m start 0 0 of
        Inl e \<Rightarrow> Inl e
      | Inr (p, res, bits) \<Rightarrow>
          (case m p of
             None \<Rightarrow> Inl Unmapped
           | Some b \<Rightarrow>
               if 64 \<le> bits then Inl ShiftTooFar
               else
                 let res' = res OR push_bit bits (ucast b AND 0x7F) in
                 if b AND 0x40 \<noteq> 0 then
                   (if 64 \<le> bits + 7 then Inl ShiftTooFar
                    else Inr (res' OR push_bit (bits + 7) (- 1), p + 1))
                 else Inr (res', p + 1)))"

section \<open>Encoded values\<close>

text \<open>
  The value parsed into \<open>*value\<close>, whose old contents \<open>old\<close> are kept for an omitted
  one.  The cases of two and four bytes copy into objects of one and two bytes.
\<close>

definition parse_dwarf_value :: "byte \<Rightarrow> mem \<Rightarrow> addr \<Rightarrow> 64 word \<Rightarrow> rt_error + 64 word \<times> addr" where
  "parse_dwarf_value ID m start old =
     (if ID = DW_EH_PE_omit then Inr (old, start)
      else if ID = DW_EH_PE_uleb128 then parse_uleb128 m start
      else if ID \<in> {DW_EH_PE_udata2, DW_EH_PE_udata4, DW_EH_PE_sdata2, DW_EH_PE_sdata4} then Inl CopyTooLong
      else if ID \<in> {DW_EH_PE_udata8, DW_EH_PE_sdata8} then
        (case bytes_at m start 8 of None \<Rightarrow> Inl Unmapped | Some bs \<Rightarrow> Inr (le_word bs, start + 8))
      else if ID = DW_EH_PE_sleb128 then parse_sleb128 m start
      else Inl Assertion)"

definition dwarf_scale :: "byte \<Rightarrow> 64 word" where
  "dwarf_scale ID =
     (if ID = DW_EH_PE_absptr then 8
      else if ID \<in> {DW_EH_PE_udata2, DW_EH_PE_sdata2} then 2
      else if ID \<in> {DW_EH_PE_udata4, DW_EH_PE_sdata4} then 4
      else if ID \<in> {DW_EH_PE_udata8, DW_EH_PE_sdata8} then 8
      else 1)"

text \<open>The bytes an encoding takes and whether it is signed.\<close>

definition load_dwarf_pointer :: "byte \<Rightarrow> mem \<Rightarrow> addr \<Rightarrow> rt_error + 64 word" where
  "load_dwarf_pointer ID m p =
     (let load = (\<lambda>n. case bytes_at m p n of None \<Rightarrow> Inl Unmapped | Some bs \<Rightarrow> Inr (le_word bs));
          loads = (\<lambda>n. case bytes_at m p n of None \<Rightarrow> Inl Unmapped
            | Some bs \<Rightarrow> Inr (sign_extend_from (8 * n) (le_word bs))) in
      if ID = DW_EH_PE_absptr then load 8
      else if ID = DW_EH_PE_udata2 then load 2
      else if ID = DW_EH_PE_sdata2 then loads 2
      else if ID = DW_EH_PE_udata4 then load 4
      else if ID = DW_EH_PE_sdata4 then loads 4
      else if ID = DW_EH_PE_udata8 then load 8
      else if ID = DW_EH_PE_sdata8 then loads 8
      else Inl Assertion)"

section \<open>Bits of bytes and words\<close>

lemma or_push_add:
  fixes w :: "64 word"
  assumes "take_bit n w = w"
  shows "w OR push_bit n x = w + push_bit n x"
proof -
  have "\<not> bit w i \<or> \<not> bit (push_bit n x) i" for i
    using assms by (metis bit_push_bit_iff bit_take_bit_iff linorder_not_le)
  then show ?thesis by (metis disjunctive_add)
qed

lemma take_bit_or_push:
  fixes w :: "64 word"
  assumes "take_bit n w = w"
  shows "take_bit (n + 7) (w OR push_bit n (x AND 0x7F)) = w OR push_bit n (x AND 0x7F)"
proof (rule bit_eqI)
  fix i
  have m: "(0x7F :: 64 word) = mask 7" by (simp add: mask_eq_exp_minus_1)
  have "bit w i \<Longrightarrow> i < n" using assms by (metis bit_take_bit_iff)
  then show "bit (take_bit (n + 7) (w OR push_bit n (x AND 0x7F))) i \<longleftrightarrow> bit (w OR push_bit n (x AND 0x7F)) i"
    by (auto simp: m bit_simps)
qed

lemma low7: "(ucast (b :: byte) AND 0x7F :: 64 word) = of_nat (unat b mod 128)"
proof -
  have "(ucast b AND 0x7F :: 64 word) = take_bit 7 (of_nat (unat b))"
    unfolding of_nat_unat take_bit_eq_mask by (simp add: mask_eq_exp_minus_1)
  also have "\<dots> = of_nat (take_bit 7 (unat b))" by (rule take_bit_of_nat)
  finally show ?thesis by (simp only: take_bit_eq_mod) simp
qed

lemma byte_bit:
  assumes "d < 256" "n < 8"
  shows "(of_nat d :: byte) AND 2 ^ n = 0 \<longleftrightarrow> even (d div 2 ^ n)"
proof -
  have "(of_nat d :: byte) AND 2 ^ n = 0 \<longleftrightarrow> \<not> bit (of_nat d :: byte) n"
    by (rule and_exp_eq_0_iff_not_bit)
  also have "\<dots> \<longleftrightarrow> even (d div 2 ^ n)" using assms(2) by (simp add: bit_of_nat_iff bit_iff_odd [of d n])
  finally show ?thesis .
qed

lemma even_div:
  assumes "d < 2 * k" "0 < (k :: nat)"
  shows "even (d div k) \<longleftrightarrow> d < k"
proof (cases "d < k")
  case False
  then have "d div k = 1" using assms by (intro div_nat_eqI) simp_all
  then show ?thesis using False by simp
qed simp

lemma high_bit: "d < 256 \<Longrightarrow> (of_nat d :: byte) AND 0x80 = 0 \<longleftrightarrow> d < 128"
  using byte_bit [of d 7] even_div [of d 128] by simp

lemma sign_bit: "d < 128 \<Longrightarrow> (of_nat d :: byte) AND 0x40 = 0 \<longleftrightarrow> d < 64"
  using byte_bit [of d 6] even_div [of d 64] by simp

lemma unat_byte: "d < 256 \<Longrightarrow> unat (of_nat d :: byte) = d"
  by (simp add: unat_of_nat)


section \<open>Unsigned encoding\<close>

text \<open>The encoding of a number: groups of seven bits, the lowest first.\<close>

fun uleb :: "nat \<Rightarrow> byte list" where
  "uleb n = (if n < 128 then [of_nat n] else of_nat (n mod 128 + 128) # uleb (n div 128))"

declare uleb.simps [simp del]

text \<open>
  The loop on an encoding: what is read so far, and what is left at the weight of the next
  bits, make up the value.
\<close>

lemma leb_loop_byte:
  assumes "m p = Some (of_nat d)" "d < 256" "bits < 64"
  shows "leb_loop m p res bits =
    (if d < 128 then Inr (p, res, bits)
     else leb_loop m (p + 1) (res OR push_bit bits (of_nat (d - 128))) (bits + 7))"
proof -
  have "unat (of_nat d :: byte) mod 128 = d - 128" if "128 \<le> d"
    using that assms(2) by (simp add: unat_byte mod_if)
  then show ?thesis
    using assms by (subst leb_loop.simps) (simp add: high_bit low7)
qed

lemma leb_loop_uleb:
  assumes "bytes_at m p (length (uleb n)) = Some (uleb n)" "n * 2 ^ bits < 2 ^ 64" "0 < n \<or> bits < 64"
    and "take_bit bits res = res"
  shows "\<exists>d res' bits'. leb_loop m p res bits = Inr (p + of_nat (length (uleb n)) - 1, res', bits') \<and>
    m (p + of_nat (length (uleb n)) - 1) = Some (of_nat d) \<and> d < 128 \<and> bits' < 64 \<and>
    take_bit bits' res' = res' \<and>
    res' + push_bit bits' (of_nat d) = res + push_bit bits (of_nat n)"
  using assms
proof (induction n arbitrary: p res bits rule: uleb.induct)
  case (1 n)
  have bits: "bits < 64"
  proof (cases "n = 0")
    case False
    then have "(2 :: nat) ^ bits \<le> n * 2 ^ bits" by simp
    then have "(2 :: nat) ^ bits < 2 ^ 64" using 1(3) by (rule le_less_trans)
    then show ?thesis by (rule power_less_imp_less_exp [rotated]) simp
  qed (use 1(4) in simp)
  show ?case
  proof (cases "n < 128")
    case True
    then have "uleb n = [of_nat n]" by (simp add: uleb.simps)
    moreover from this have "m p = Some (of_nat n)" using 1(2) by (auto split: option.splits)
    ultimately show ?thesis
      using leb_loop_byte [of m p n bits res] 1(5) True bits by auto
  next
    case False
    let ?d = "n mod 128" and ?q = "n div 128"
    have u: "uleb n = of_nat (?d + 128) # uleb ?q" using False by (simp add: uleb.simps [of n])
    have b: "m p = Some (of_nat (?d + 128))" "bytes_at m (p + 1) (length (uleb ?q)) = Some (uleb ?q)"
      using 1(2) by (auto simp: u split: option.splits)
    let ?res = "res OR push_bit bits (of_nat ?d)"
    have l: "leb_loop m p res bits = leb_loop m (p + 1) ?res (bits + 7)"
      using leb_loop_byte [of m p "?d + 128" bits res] b(1) bits by simp
    have "?q * 128 \<le> n" by simp
    then have "?q * 2 ^ (bits + 7) \<le> n * 2 ^ bits" by (simp add: power_add)
    then have q: "?q * 2 ^ (bits + 7) < 2 ^ 64" using 1(3) by linarith
    have t: "take_bit (bits + 7) ?res = ?res"
      using take_bit_or_push [OF 1(5), of "ucast (of_nat ?d :: byte)"] low7 [of "of_nat ?d"]
      by (simp only: unat_byte) (simp add: unat_byte)
    have "(of_nat n :: 64 word) = of_nat (?d + 128 * ?q)" by simp
    also have "\<dots> = of_nat ?d + 128 * of_nat ?q" by (simp only: of_nat_add of_nat_mult of_nat_numeral)
    finally have s: "?res + push_bit (bits + 7) (of_nat ?q) = res + push_bit bits (of_nat n)"
      unfolding or_push_add [OF 1(5)] by (simp add: push_bit_eq_mult power_add algebra_simps)
    have "0 < ?q" using False by simp
    have e: "p + 1 + of_nat (length (uleb ?q)) - 1 = p + of_nat (length (uleb n)) - 1" by (simp add: u)
    from 1(1) [OF False b(2) q disjI1 [OF \<open>0 < ?q\<close>] t] show ?thesis
      unfolding l s e .
  qed
qed


lemma parse_last:
  assumes "leb_loop m start 0 0 = Inr (p, res, bits)" "m p = Some (of_nat d)" "d < 128" "bits < 64"
    "take_bit bits res = res"
  shows "parse_uleb128 m start = Inr (res + push_bit bits (of_nat d), p + 1)"
  using assms low7 [of "of_nat d"] or_push_add [OF assms(5), of "of_nat d"]
  by (simp add: parse_uleb128_def unat_byte)

lemma uleb_read:
  assumes "bytes_at m p (length (uleb n)) = Some (uleb n)" "n < 2 ^ 64"
  shows "parse_uleb128 m p = Inr (of_nat n, p + of_nat (length (uleb n)))"
proof -
  obtain d res' bits' where "leb_loop m p 0 0 = Inr (p + of_nat (length (uleb n)) - 1, res', bits')"
    "m (p + of_nat (length (uleb n)) - 1) = Some (of_nat d)" "d < 128" "bits' < 64"
    "take_bit bits' res' = res'" "res' + push_bit bits' (of_nat d) = 0 + push_bit 0 (of_nat n)"
    using leb_loop_uleb [OF assms(1), of 0 0] assms(2) by auto
  then show ?thesis using parse_last [of m p] by simp
qed

text \<open>
  Reading an unsigned LEB128 number undoes its encoding, for every number of 64 bits: the
  value is the number and the pointer is the one behind the encoding.
\<close>

theorem parse_uleb128_uleb:
  assumes "bytes_at m p (length (uleb n)) = Some (uleb n)" "n < 2 ^ 64"
  shows "parse_uleb128 m p = Inr (of_nat n, p + of_nat (length (uleb n)))"
  using assms by (rule uleb_read)

text \<open>A block of bytes at an address.\<close>

definition memory_of :: "addr \<Rightarrow> byte list \<Rightarrow> mem" where
  "memory_of base bs a = (if unat (a - base) < length bs then Some (bs ! unat (a - base)) else None)"

theorem parse_uleb128_uleb_witness:
  "parse_uleb128 (memory_of 0x1000 [0xE5, 0x8E, 0x26, 0]) 0x1000 = Inr (624485, 0x1003)"
proof -
  have u: "uleb 624485 = [0xE5, 0x8E, 0x26]" by (simp add: uleb.simps)
  have "bytes_at (memory_of 0x1000 [0xE5, 0x8E, 0x26, 0]) 0x1000 (length (uleb 624485)) = Some (uleb 624485)"
    unfolding u by code_simp
  from parse_uleb128_uleb [OF this] show ?thesis by (simp add: u)
qed

section \<open>Signed encoding\<close>

text \<open>The encoding of an integer: the groups of its two's complement, the last with its sign.\<close>

function sleb :: "int \<Rightarrow> byte list" where
  "sleb i = (if - 64 \<le> i \<and> i < 64 then [of_int (i mod 128)]
     else of_int (i mod 128 + 128) # sleb (i div 128))"
  by pat_completeness auto
termination
proof (relation "measure (\<lambda>i. nat \<bar>i\<bar>)")
  fix i :: int
  assume "\<not> (- 64 \<le> i \<and> i < 64)"
  then have "\<bar>i div 128\<bar> < \<bar>i\<bar>" by linarith
  then show "(i div 128, i) \<in> measure (\<lambda>i. nat \<bar>i\<bar>)" by simp
qed simp

declare sleb.simps [simp del]


lemma div128_bounds:
  assumes "- (2 ^ (n + 7)) \<le> (i :: int)" "i < 2 ^ (n + 7)"
  shows "- (2 ^ n) \<le> i div 128 \<and> i div 128 < 2 ^ n"
proof -
  have "(- (2 ^ n) * 128) div 128 \<le> i div 128"
    using assms(1) by (intro zdiv_mono1) (simp_all add: power_add)
  moreover have "(- (2 ^ n) * 128) div 128 = - (2 ^ n :: int)" by (rule nonzero_mult_div_cancel_right) simp
  moreover have "i < 2 ^ n * 128" using assms(2) by (simp add: power_add)
  moreover have "(i div 128) * 128 \<le> i" by simp
  ultimately show ?thesis by linarith
qed

lemma sleb_digit:
  assumes "- 64 \<le> i" "i < (64 :: int)"
  shows "(if i mod 128 < 64 then i mod 128 else i mod 128 - 128) = i"
proof (cases "0 \<le> i")
  case False
  then have "i mod 128 = (i + 128) mod 128" by simp
  also have "\<dots> = i + 128" using False assms(1) by (intro mod_pos_pos_trivial) simp_all
  finally show ?thesis using assms False by simp
qed (use assms in simp)

lemma leb_loop_sleb:
  assumes "bytes_at m p (length (sleb i)) = Some (sleb i)"
    and "bits \<le> 56" "7 dvd bits" "- (2 ^ (62 - bits)) \<le> i" "i < 2 ^ (62 - bits)"
    and "take_bit bits res = res"
  shows "\<exists>d res' bits'. leb_loop m p res bits = Inr (p + of_nat (length (sleb i)) - 1, res', bits') \<and>
    m (p + of_nat (length (sleb i)) - 1) = Some (of_nat d) \<and> d < 128 \<and> bits' \<le> 56 \<and>
    take_bit bits' res' = res' \<and>
    res' + push_bit bits' (of_int (if d < 64 then int d else int d - 128)) = res + push_bit bits (of_int i)"
  using assms
proof (induction i arbitrary: p res bits rule: sleb.induct)
  case (1 i)
  let ?q = "i div 128"
  obtain d where d: "i mod 128 = int d" by (rule nonneg_int_cases [of "i mod 128"]) simp_all
  have d': "d < 128" using d pos_mod_bound [of 128 i] by simp
  show ?case
  proof (cases "- 64 \<le> i \<and> i < 64")
    case True
    then have s: "sleb i = [of_nat d]" by (simp add: sleb.simps d)
    have "m p = Some (of_nat d)" using 1(2) by (auto simp: s split: option.splits)
    then have "leb_loop m p res bits = Inr (p, res, bits)"
      using leb_loop_byte [of m p d bits res] 1(3) d' by simp
    moreover have "(if d < 64 then int d else int d - 128) = i"
      using sleb_digit [of i] True unfolding d by auto
    ultimately show ?thesis
      using \<open>m p = Some (of_nat d)\<close> d' 1(3,7) by (intro exI [of _ d]) (simp add: s)
  next
    case False
    have u: "sleb i = of_nat (d + 128) # sleb ?q" using False by (simp add: sleb.simps [of i] d)
    have b: "m p = Some (of_nat (d + 128))" "bytes_at m (p + 1) (length (sleb ?q)) = Some (sleb ?q)"
      using 1(2) by (auto simp: u split: option.splits)
    let ?res = "res OR push_bit bits (of_nat d)"
    have l: "leb_loop m p res bits = leb_loop m (p + 1) ?res (bits + 7)"
      using leb_loop_byte [of m p "d + 128" bits res] b(1) 1(3) d' by simp
    have t: "take_bit (bits + 7) ?res = ?res"
      using take_bit_or_push [OF 1(7), of "ucast (of_nat d :: byte)"] low7 [of "of_nat d"] d'
      by (simp only: unat_byte) (simp add: unat_byte)
    have "(of_int i :: 64 word) = of_int (int d + 128 * ?q)" using d by (metis mod_mult_div_eq)
    also have "\<dots> = of_nat d + 128 * of_int ?q" by (simp only: of_int_add of_int_mult of_int_numeral of_int_of_nat_eq)
    finally have s: "?res + push_bit (bits + 7) (of_int ?q) = res + push_bit bits (of_int i)"
      unfolding or_push_add [OF 1(7)] by (simp add: push_bit_eq_mult power_add algebra_simps)
    have e: "p + 1 + of_nat (length (sleb ?q)) - 1 = p + of_nat (length (sleb i)) - 1" by (simp add: u)
    have "bits \<noteq> 56" using False 1(5,6) by auto
    then have n: "bits + 7 \<le> 56" "7 dvd bits + 7" using 1(3,4) by (auto elim!: dvdE)
    have w: "62 - (bits + 7) + 7 = 62 - bits" using n(1) by simp
    have q: "- (2 ^ (62 - (bits + 7))) \<le> ?q" "?q < 2 ^ (62 - (bits + 7))"
      using div128_bounds [of "62 - (bits + 7)" i, unfolded w, OF 1(5,6)] by blast+
    from 1(1) [OF False b(2) n q t] show ?thesis unfolding l s e .
  qed
qed

lemma sleb_read:
  assumes "bytes_at m p (length (sleb i)) = Some (sleb i)" "- (2 ^ 62) \<le> i" "i < 2 ^ 62"
  shows "parse_sleb128 m p = Inr (of_int i, p + of_nat (length (sleb i)))"
proof -
  obtain d res' bits' where l: "leb_loop m p 0 0 = Inr (p + of_nat (length (sleb i)) - 1, res', bits')"
    and b: "m (p + of_nat (length (sleb i)) - 1) = Some (of_nat d)" "d < 128" "bits' \<le> 56"
    and t: "take_bit bits' res' = res'"
    and v: "res' + push_bit bits' (of_int (if d < 64 then int d else int d - 128)) = (of_int i :: 64 word)"
    using leb_loop_sleb [OF assms(1), of 0 0] assms(2,3) by auto
  let ?res = "res' OR push_bit bits' (of_nat d)"
  have r: "?res = res' + push_bit bits' (of_nat d)" by (rule or_push_add [OF t])
  have "take_bit (bits' + 7) ?res = ?res"
    using take_bit_or_push [OF t, of "ucast (of_nat d :: byte)"] low7 [of "of_nat d"] b(2)
    by (simp only: unat_byte) (simp add: unat_byte)
  then have "?res OR push_bit (bits' + 7) (- 1) = ?res + push_bit (bits' + 7) (- 1)" by (rule or_push_add)
  also have "\<dots> = res' + push_bit bits' (of_int (int d - 128))"
    unfolding r by (simp add: push_bit_eq_mult power_add algebra_simps)
  finally have "?res OR push_bit (bits' + 7) (- 1) = of_int i" if "\<not> d < 64" using v that by simp
  moreover have "?res = of_int i" if "d < 64" using v that by (simp add: r)
  ultimately show ?thesis
    using l b low7 [of "of_nat d"] sign_bit [OF b(2)] by (simp add: parse_sleb128_def unat_byte Let_def)
qed

text \<open>
  C36. Reading a signed LEB128 number undoes its encoding for the numbers of 63 bits.  Beyond
  them the last group of the encoding is at bit 63, and the extension of its sign shifts by more
  than the width of the word.
\<close>

theorem parse_sleb128_sleb:
  assumes "bytes_at m p (length (sleb i)) = Some (sleb i)" "- (2 ^ 62) \<le> i" "i < 2 ^ 62"
  shows "parse_sleb128 m p = Inr (of_int i, p + of_nat (length (sleb i)))"
  using assms by (rule sleb_read)

theorem parse_sleb128_sleb_witness:
  "parse_sleb128 (memory_of 0x1000 [0x80, 0x7F]) 0x1000 = Inr (- 128, 0x1002)"
proof -
  have u: "sleb (- 128) = [0x80, 0x7F]" by (simp add: sleb.simps)
  have "bytes_at (memory_of 0x1000 [0x80, 0x7F]) 0x1000 (length (sleb (- 128))) = Some (sleb (- 128))"
    unfolding u by code_simp
  from parse_sleb128_sleb [OF this] show ?thesis by (simp add: u)
qed

text \<open>The shift beyond the width is reached by the least number of 64 bits.\<close>

theorem parse_sleb128_overshift:
  "parse_sleb128 (memory_of 0 (replicate 9 0x80 @ [0x7F])) 0 = Inl ShiftTooFar"
  by code_simp

end
