(* ===== verification/Personality.thy ===== *)
theory Personality
  imports Dwarf
begin

text \<open>
  The exception personality of Comma, from \<^verbatim>\<open>lib/runtime/crt_exceptions.c\<close>: the
  language-specific data area (LSDA) of a routine, its call sites and actions, and the decision
  whether an exception is handled in a frame.

  What the unwinder (\<^verbatim>\<open>_Unwind_*\<close>, not under \<^verbatim>\<open>src\<close>) knows of a frame is the record
  \<open>unwind_context\<close>; setting a register or the instruction pointer updates it.  A walk over call sites or
  actions is bounded by no argument of the source, as the data may be malformed; such a walk is a partial function
  whose result \<open>None\<close> is that it does not end.
\<close>

section \<open>State\<close>

record unwind_context =
  uc_language_data :: addr
  uc_region_start :: addr
  uc_ip :: addr
  uc_gr0 :: "64 word"
  uc_gr1 :: "64 word"

record LSDA_Header =
  lsda_start :: addr
  lsda_lpstart :: addr
  lsda_tt_format :: byte
  lsda_type_table :: addr
  lsda_call_site_format :: byte
  lsda_call_table_size :: "64 word"
  lsda_call_sites :: addr
  lsda_actions :: addr

record Call_Site =
  cs_region_start :: "64 word"
  cs_region_length :: "64 word"
  cs_landing_pad :: "64 word"
  cs_action_index :: "64 word"

record Action_Record =
  ar_info_index :: "64 word"
  ar_next_action :: "64 word"

text \<open>
  Of a Comma exception the personality reads the identity only.  The offset of the header in
  the object depends on the alignment \<^verbatim>\<open>unwind.h\<close> gives it; it is an argument.
\<close>

record comma_exception =
  exn_id :: addr

definition to_comma_exception :: "addr \<Rightarrow> addr \<Rightarrow> addr" where
  "to_comma_exception header_offset header = header - header_offset"

definition to_Unwind_Exception :: "addr \<Rightarrow> addr \<Rightarrow> addr" where
  "to_Unwind_Exception header_offset exception = exception + header_offset"

section \<open>The LSDA\<close>

text \<open>\<open>None\<close> is the return of 1: there is no data.\<close>

definition parse_LSDA :: "mem \<Rightarrow> unwind_context \<Rightarrow> rt_error + LSDA_Header option" where
  "parse_LSDA m ctx =
     (let start = uc_language_data ctx in
      if start = 0 then Inr None
      else case (m start, m (start + 1)) of
        (Some lp, Some tt) \<Rightarrow>
          if lp \<noteq> DW_EH_PE_omit then Inl (Fatal ''Unexpected DWARF value for @LPStart!'')
          else if tt AND 0xF0 \<noteq> DW_EH_PE_absptr then Inl (Fatal ''Unexpected type table format!'')
          else (case parse_uleb128 m (start + 2) of
            Inl e \<Rightarrow> Inl e
          | Inr (tmp, p) \<Rightarrow>
              (case m p of
                 None \<Rightarrow> Inl Unmapped
               | Some fmt \<Rightarrow>
                   (case parse_uleb128 m (p + 1) of
                      Inl e \<Rightarrow> Inl e
                    | Inr (tableSize, sites) \<Rightarrow>
                        Inr (Some \<lparr>lsda_start = start, lsda_lpstart = uc_region_start ctx,
                          lsda_tt_format = tt, lsda_type_table = p + tmp, lsda_call_site_format = fmt,
                          lsda_call_table_size = tableSize, lsda_call_sites = sites,
                          lsda_actions = sites + tableSize\<rparr>))))
      | _ \<Rightarrow> Inl Unmapped)"

text \<open>The end of the table is the null pointer of the source, here \<open>None\<close>.\<close>

definition parse_Call_Site ::
  "mem \<Rightarrow> LSDA_Header \<Rightarrow> addr \<Rightarrow> Call_Site \<Rightarrow> rt_error + (addr \<times> Call_Site) option" where
  "parse_Call_Site m lsda ptr dst =
     (if lsda_call_sites lsda + lsda_call_table_size lsda \<le> ptr then Inr None
      else
        let value = parse_dwarf_value (lsda_call_site_format lsda) m in
        case value ptr (cs_region_start dst) of
          Inl e \<Rightarrow> Inl e
        | Inr (start, p1) \<Rightarrow>
          (case value p1 (cs_region_length dst) of
             Inl e \<Rightarrow> Inl e
           | Inr (len, p2) \<Rightarrow>
             (case value p2 (cs_landing_pad dst) of
                Inl e \<Rightarrow> Inl e
              | Inr (pad, p3) \<Rightarrow>
                (case parse_uleb128 m p3 of
                   Inl e \<Rightarrow> Inl e
                 | Inr (act, p4) \<Rightarrow>
                     Inr (Some (p4, \<lparr>cs_region_start = start, cs_region_length = len,
                       cs_landing_pad = pad, cs_action_index = act\<rparr>))))))"

text \<open>The pointer to the next record, if the offset is not zero.\<close>

definition parse_Action_Record :: "mem \<Rightarrow> addr \<Rightarrow> rt_error + Action_Record \<times> addr option" where
  "parse_Action_Record m ptr =
     (case parse_sleb128 m ptr of
        Inl e \<Rightarrow> Inl e
      | Inr (index, start) \<Rightarrow>
          (case parse_sleb128 m start of
             Inl e \<Rightarrow> Inl e
           | Inr (next_action, _) \<Rightarrow>
               Inr (\<lparr>ar_info_index = index, ar_next_action = next_action\<rparr>,
                 if next_action \<noteq> 0 then Some (start + next_action) else None)))"

section \<open>Call sites\<close>

text \<open>
  The loop of \<^verbatim>\<open>find_applicable_call_site\<close>, for the instruction pointer less one and
  the start of the region; \<open>dst\<close> is the record filled so far.
\<close>

partial_function (option) walk_call_sites ::
  "mem \<Rightarrow> LSDA_Header \<Rightarrow> addr \<Rightarrow> addr \<Rightarrow> addr \<Rightarrow> Call_Site \<Rightarrow> (rt_error + Call_Site option) option" where
  "walk_call_sites m lsda ip region ptr dst =
     (case parse_Call_Site m lsda ptr dst of
        Inl e \<Rightarrow> Some (Inl e)
      | Inr None \<Rightarrow> Some (Inl (Fatal ''IP out of bounds for call site table!''))
      | Inr (Some (ptr', site)) \<Rightarrow>
          let start = region + cs_region_start site in
          if ip < start then Some (Inr None)
          else if ip < start + cs_region_length site then Some (Inr (Some site))
          else walk_call_sites m lsda ip region ptr' site)"

definition find_applicable_call_site ::
  "mem \<Rightarrow> LSDA_Header \<Rightarrow> unwind_context \<Rightarrow> Call_Site \<Rightarrow> (rt_error + Call_Site option) option" where
  "find_applicable_call_site m lsda ctx dst =
     walk_call_sites m lsda (uc_ip ctx - 1) (uc_region_start ctx) (lsda_call_sites lsda) dst"

section \<open>Actions\<close>

text \<open>
  The loop of \<^verbatim>\<open>match_exception\<close>, which is entered at least once.  The index is
  unsigned, so the branch of the source for one below zero is never taken.
\<close>

partial_function (option) walk_actions ::
  "mem \<Rightarrow> LSDA_Header \<Rightarrow> addr \<Rightarrow> addr \<Rightarrow> (rt_error + 64 word option) option" where
  "walk_actions m lsda ident ptr =
     (case parse_Action_Record m ptr of
        Inl e \<Rightarrow> Some (Inl e)
      | Inr (action, follow) \<Rightarrow>
          if 0 < ar_info_index action then
            (case load_dwarf_pointer (lsda_tt_format lsda) m
                (lsda_type_table lsda - dwarf_scale (lsda_tt_format lsda) * ar_info_index action) of
               Inl e \<Rightarrow> Some (Inl e)
             | Inr info \<Rightarrow>
                 if info = 0 \<or> ident = info then Some (Inr (Some (ar_info_index action)))
                 else (case follow of None \<Rightarrow> Some (Inr None) | Some p \<Rightarrow> walk_actions m lsda ident p))
          else if ar_info_index action < 0 then Some (Inl (Fatal ''Filter action detected!''))
          else (case follow of None \<Rightarrow> Some (Inr None) | Some p \<Rightarrow> walk_actions m lsda ident p))"

definition match_exception ::
  "mem \<Rightarrow> LSDA_Header \<Rightarrow> comma_exception \<Rightarrow> 64 word \<Rightarrow> (rt_error + 64 word option) option" where
  "match_exception m lsda exception action_index =
     (if action_index = 0 then Some (Inl (Fatal ''Invalid action index!''))
      else walk_actions m lsda (exn_id exception) (lsda_actions lsda + (action_index - 1)))"

section \<open>The personality\<close>

definition install_handler :: "addr \<Rightarrow> unwind_context \<Rightarrow> addr \<Rightarrow> addr \<Rightarrow> 64 word \<Rightarrow> unwind_context" where
  "install_handler header_offset ctx exceptionObject landing_pad ident =
     ctx\<lparr>uc_gr0 := to_comma_exception header_offset exceptionObject, uc_gr1 := ident, uc_ip := landing_pad\<rparr>"

definition Comma_Exception_Class_ID :: "64 word" where
  "Comma_Exception_Class_ID = 0x534D570434D410"

datatype reason_code = URC_FATAL_PHASE1_ERROR | URC_CONTINUE_UNWIND | URC_HANDLER_FOUND | URC_INSTALL_CONTEXT

text \<open>The actions of the unwinder are a bit mask.\<close>

definition UA_SEARCH_PHASE :: "32 word" where "UA_SEARCH_PHASE = 1"
definition UA_CLEANUP_PHASE :: "32 word" where "UA_CLEANUP_PHASE = 2"
definition UA_HANDLER_FRAME :: "32 word" where "UA_HANDLER_FRAME = 4"

text \<open>
  The parts after the call site was found.  \<open>site0\<close> is what the local variable holds before it
  is filled.
\<close>

definition handle_site ::
  "addr \<Rightarrow> mem \<Rightarrow> 32 word \<Rightarrow> addr \<Rightarrow> comma_exception \<Rightarrow> unwind_context \<Rightarrow> LSDA_Header \<Rightarrow> Call_Site
     \<Rightarrow> (rt_error + reason_code \<times> unwind_context) option" where
  "handle_site header_offset m actions exceptionObject exception ctx lsda site =
     (if cs_landing_pad site = 0 then Some (Inr (URC_CONTINUE_UNWIND, ctx))
      else if cs_action_index site = 0 then Some (Inl (Fatal ''Cleanups are not supported!''))
      else if actions AND UA_CLEANUP_PHASE \<noteq> 0 \<and> actions AND UA_HANDLER_FRAME = 0 then
        Some (Inr (URC_CONTINUE_UNWIND, ctx))
      else (case match_exception m lsda exception (cs_action_index site) of
         None \<Rightarrow> None
       | Some (Inl e) \<Rightarrow> Some (Inl e)
       | Some (Inr None) \<Rightarrow> Some (Inr (URC_CONTINUE_UNWIND, ctx))
       | Some (Inr (Some ident)) \<Rightarrow>
           if actions AND UA_SEARCH_PHASE \<noteq> 0 then Some (Inr (URC_HANDLER_FOUND, ctx))
           else if actions AND UA_HANDLER_FRAME = 0 then Some (Inr (URC_CONTINUE_UNWIND, ctx))
           else Some (Inr (URC_INSTALL_CONTEXT,
             install_handler header_offset ctx exceptionObject (lsda_lpstart lsda + cs_landing_pad site) ident))))"

definition comma_eh_personality ::
  "addr \<Rightarrow> mem \<Rightarrow> Call_Site \<Rightarrow> int \<Rightarrow> 32 word \<Rightarrow> 64 word \<Rightarrow> addr \<Rightarrow> comma_exception \<Rightarrow> unwind_context
     \<Rightarrow> (rt_error + reason_code \<times> unwind_context) option" where
  "comma_eh_personality header_offset m site0 version actions exceptionClass exceptionObject exception ctx =
     (if version \<noteq> 1 then Some (Inr (URC_FATAL_PHASE1_ERROR, ctx))
      else if exceptionClass \<noteq> Comma_Exception_Class_ID then Some (Inr (URC_FATAL_PHASE1_ERROR, ctx))
      else (case parse_LSDA m ctx of
         Inl e \<Rightarrow> Some (Inl e)
       | Inr None \<Rightarrow> Some (Inr (URC_CONTINUE_UNWIND, ctx))
       | Inr (Some lsda) \<Rightarrow>
           (case find_applicable_call_site m lsda ctx site0 of
              None \<Rightarrow> None
            | Some (Inl e) \<Rightarrow> Some (Inl e)
            | Some (Inr None) \<Rightarrow> Some (Inr (URC_CONTINUE_UNWIND, ctx))
            | Some (Inr (Some site)) \<Rightarrow> handle_site header_offset m actions exceptionObject exception ctx lsda site)))"


section \<open>Values in memory\<close>

text \<open>The bytes of a word, the least significant first, and of a value in a format.\<close>

fun word_bytes :: "nat \<Rightarrow> 64 word \<Rightarrow> byte list" where
  "word_bytes 0 w = []"
| "word_bytes (Suc n) w = ucast w # word_bytes n (drop_bit 8 w)"

lemma length_word_bytes [simp]: "length (word_bytes n w) = n"
  by (induction n arbitrary: w) auto

lemma le_word_bytes: "le_word (word_bytes n w) = take_bit (8 * n) w"
proof (induction n arbitrary: w)
  case (Suc n)
  show ?case
    unfolding word_bytes.simps le_word.simps Suc
    by (rule bit_eqI) (auto simp: bit_simps dest: bit_imp_le_length)
qed simp

definition value_bytes :: "byte \<Rightarrow> 64 word \<Rightarrow> byte list" where
  "value_bytes fmt w =
     (if fmt = DW_EH_PE_uleb128 then uleb (unat w)
      else if fmt = DW_EH_PE_sleb128 then sleb (sint w)
      else word_bytes 8 w)"

definition value_fits :: "byte \<Rightarrow> 64 word \<Rightarrow> bool" where
  "value_fits fmt w \<longleftrightarrow>
     fmt \<in> {DW_EH_PE_uleb128, DW_EH_PE_udata8, DW_EH_PE_sdata8} \<or>
     fmt = DW_EH_PE_sleb128 \<and> - (2 ^ 62) \<le> sint w \<and> sint w < 2 ^ 62"

text \<open>The bytes that a block of memory holds.\<close>

definition stored :: "mem \<Rightarrow> addr \<Rightarrow> byte list \<Rightarrow> bool" where
  "stored m p bs \<longleftrightarrow> bytes_at m p (length bs) = Some bs"

lemma stored_Nil [simp]: "stored m p []"
  by (simp add: stored_def)

lemma stored_Cons [simp]: "stored m p (x # a) \<longleftrightarrow> m p = Some x \<and> stored m (p + 1) a"
  by (auto simp: stored_def split: option.splits)

lemma stored_append [simp]: "stored m p (a @ b) \<longleftrightarrow> stored m p a \<and> stored m (p + of_nat (length a)) b"
  by (induction a arbitrary: p) (simp_all add: add.assoc)

lemma parse_uleb128_word:
  assumes "stored m p (uleb (unat w))"
  shows "parse_uleb128 m p = Inr (w, p + of_nat (length (uleb (unat (w :: 64 word)))))"
  using uleb_read [OF assms [unfolded stored_def]] unsigned_less [of w] by simp

lemma parse_value:
  assumes "stored m p (value_bytes fmt w)" "value_fits fmt w"
  shows "parse_dwarf_value fmt m p old = Inr (w, p + of_nat (length (value_bytes fmt w)))"
proof -
  consider "fmt = DW_EH_PE_uleb128" | "fmt = DW_EH_PE_udata8" | "fmt = DW_EH_PE_sdata8"
    | "fmt = DW_EH_PE_sleb128" "- (2 ^ 62) \<le> sint w" "sint w < 2 ^ 62"
    using assms(2) by (auto simp: value_fits_def)
  then show ?thesis
  proof cases
    case 1
    then show ?thesis
      using assms(1) parse_uleb128_word [of m p w] by (simp add: value_bytes_def parse_dwarf_value_def dwarf_codes)
  next
    case 4
    then show ?thesis
      using assms(1) sleb_read [of m p "sint w"]
      by (simp add: stored_def value_bytes_def parse_dwarf_value_def dwarf_codes)
  qed (use assms(1) le_word_bytes [of 8 w] in
      \<open>simp_all add: stored_def take_bit_word_eq_self value_bytes_def parse_dwarf_value_def dwarf_codes\<close>)
qed

section \<open>Tables in memory\<close>

definition site_bytes :: "byte \<Rightarrow> Call_Site \<Rightarrow> byte list" where
  "site_bytes fmt s = value_bytes fmt (cs_region_start s) @ value_bytes fmt (cs_region_length s) @
     value_bytes fmt (cs_landing_pad s) @ uleb (unat (cs_action_index s))"

definition site_fits :: "byte \<Rightarrow> Call_Site \<Rightarrow> bool" where
  "site_fits fmt s \<longleftrightarrow> value_fits fmt (cs_region_start s) \<and> value_fits fmt (cs_region_length s) \<and>
     value_fits fmt (cs_landing_pad s)"

definition table_bytes :: "byte \<Rightarrow> Call_Site list \<Rightarrow> byte list" where
  "table_bytes fmt sites = concat (map (site_bytes fmt) sites)"

lemma table_bytes_simps [simp]:
  "table_bytes fmt [] = []" "table_bytes fmt (s # sites) = site_bytes fmt s @ table_bytes fmt sites"
  by (simp_all add: table_bytes_def)

text \<open>A block that ends without wrapping around.\<close>

definition inside :: "addr \<Rightarrow> addr \<Rightarrow> nat \<Rightarrow> bool" where
  "inside end p n \<longleftrightarrow> p + of_nat n = end \<and> unat p + n < 2 ^ 64"

lemma inside_append: "inside end p (length (a @ b)) \<Longrightarrow> inside end (p + of_nat (length a)) (length b)"
  by (auto simp: inside_def unat_word_ariths unat_of_nat)

lemma inside_less: "inside end p n \<Longrightarrow> end \<le> p \<longleftrightarrow> n = 0"
  by (auto simp: inside_def word_le_nat_alt unat_word_ariths unat_of_nat)

lemma value_bytes_nonempty: "0 < length (value_bytes fmt w)"
  using length_word_bytes [of 8 w]
  by (auto simp: value_bytes_def uleb.simps [of "unat w"] sleb.simps [of "sint w"] simp del: length_word_bytes)

lemma parse_Call_Site_bytes:
  assumes "stored m p (site_bytes fmt s)" "site_fits fmt s"
    and "\<not> lsda_call_sites lsda + lsda_call_table_size lsda \<le> p" "lsda_call_site_format lsda = fmt"
  shows "parse_Call_Site m lsda p dst = Inr (Some (p + of_nat (length (site_bytes fmt s)), s))"
proof -
  let ?v = "value_bytes fmt"
  let ?p1 = "p + of_nat (length (?v (cs_region_start s)))"
  let ?p2 = "?p1 + of_nat (length (?v (cs_region_length s)))"
  let ?p3 = "?p2 + of_nat (length (?v (cs_landing_pad s)))"
  have st: "stored m p (?v (cs_region_start s))" "stored m ?p1 (?v (cs_region_length s))"
    "stored m ?p2 (?v (cs_landing_pad s))" "stored m ?p3 (uleb (unat (cs_action_index s)))"
    using assms(1) by (simp_all add: site_bytes_def add.assoc)
  have f: "value_fits fmt (cs_region_start s)" "value_fits fmt (cs_region_length s)"
    "value_fits fmt (cs_landing_pad s)"
    using assms(2) by (simp_all add: site_fits_def)
  show ?thesis
    using assms(3,4)
    by (simp only: parse_Call_Site_def Let_def parse_value [OF st(1) f(1)] parse_value [OF st(2) f(2)]
        parse_value [OF st(3) f(3)] parse_uleb128_word [OF st(4)] if_False sum.case prod.case)
      (simp add: site_bytes_def add.assoc)
qed

text \<open>The search on the list of call sites.\<close>

fun applicable :: "addr \<Rightarrow> addr \<Rightarrow> Call_Site list \<Rightarrow> rt_error + Call_Site option" where
  "applicable ip region [] = Inl (Fatal ''IP out of bounds for call site table!'')"
| "applicable ip region (s # sites) =
     (if ip < region + cs_region_start s then Inr None
      else if ip < region + cs_region_start s + cs_region_length s then Inr (Some s)
      else applicable ip region sites)"

lemma walk_call_sites_applicable:
  assumes "stored m p (table_bytes fmt sites)"
    and "list_all (site_fits fmt) sites" "lsda_call_site_format lsda = fmt"
    and "inside (lsda_call_sites lsda + lsda_call_table_size lsda) p (length (table_bytes fmt sites))"
  shows "walk_call_sites m lsda ip region p dst = Some (applicable ip region sites)"
  using assms
proof (induction sites arbitrary: p dst)
  case Nil
  then show ?case by (subst walk_call_sites.simps) (simp add: parse_Call_Site_def inside_less)
next
  case (Cons s sites)
  have "site_bytes fmt s \<noteq> []"
    using value_bytes_nonempty [of fmt "cs_region_start s"] by (auto simp: site_bytes_def)
  then have "\<not> lsda_call_sites lsda + lsda_call_table_size lsda \<le> p"
    using inside_less [OF Cons.prems(4)] by simp
  then have s: "parse_Call_Site m lsda p dst = Inr (Some (p + of_nat (length (site_bytes fmt s)), s))"
    using Cons.prems(1-3) by (intro parse_Call_Site_bytes) simp_all
  have "walk_call_sites m lsda ip region (p + of_nat (length (site_bytes fmt s))) s
      = Some (applicable ip region sites)"
    using Cons.prems inside_append [OF Cons.prems(4) [unfolded table_bytes_simps]]
    by (intro Cons.IH) simp_all
  then show ?case by (subst walk_call_sites.simps) (simp add: s Let_def add.assoc)
qed

section \<open>The search for a call site\<close>

text \<open>
  Call sites in the order of their regions, which do not overlap nor wrap around; and the site
  that covers an instruction.
\<close>

definition site_from :: "addr \<Rightarrow> Call_Site \<Rightarrow> nat" where
  "site_from region s = unat region + unat (cs_region_start s)"

definition site_to :: "addr \<Rightarrow> Call_Site \<Rightarrow> nat" where
  "site_to region s = site_from region s + unat (cs_region_length s)"

fun sites_ordered :: "addr \<Rightarrow> nat \<Rightarrow> Call_Site list \<Rightarrow> bool" where
  "sites_ordered region lo [] \<longleftrightarrow> True"
| "sites_ordered region lo (s # sites) \<longleftrightarrow>
     lo \<le> site_from region s \<and> site_to region s < 2 ^ 64 \<and> sites_ordered region (site_to region s) sites"

definition covers :: "addr \<Rightarrow> addr \<Rightarrow> Call_Site \<Rightarrow> bool" where
  "covers region ip s \<longleftrightarrow> site_from region s \<le> unat ip \<and> unat ip < site_to region s"

lemma before_site:
  assumes "site_to region s < 2 ^ 64"
  shows "ip < region + cs_region_start s \<longleftrightarrow> unat ip < site_from region s"
    "ip < region + cs_region_start s + cs_region_length s \<longleftrightarrow> unat ip < site_to region s"
  using assms by (simp_all add: word_less_nat_alt unat_word_ariths site_from_def site_to_def mod_add_left_eq)

lemma sites_ordered_later:
  "sites_ordered region lo sites \<Longrightarrow> s \<in> set sites \<Longrightarrow> lo \<le> site_from region s \<and> site_to region s < 2 ^ 64"
proof (induction sites arbitrary: lo)
  case (Cons t sites)
  then show ?case using Cons.IH [of "site_to region t"] by (fastforce simp: site_to_def)
qed simp

lemma applicable_find:
  assumes "sites_ordered region lo sites"
  shows "applicable ip region sites =
    (case find (covers region ip) sites of
       Some s \<Rightarrow> Inr (Some s)
     | None \<Rightarrow> if \<exists>s \<in> set sites. unat ip < site_from region s then Inr None
         else Inl (Fatal ''IP out of bounds for call site table!''))"
  using assms
proof (induction sites arbitrary: lo)
  case (Cons s sites)
  have w: "site_to region s < 2 ^ 64" using Cons.prems by simp
  have later: "t \<in> set sites \<Longrightarrow> site_to region s \<le> site_from region t" for t
    using sites_ordered_later [of region "site_to region s" sites t] Cons.prems by simp
  show ?case
  proof (cases "unat ip < site_from region s")
    case True
    have "\<not> covers region ip t" if "t \<in> set (s # sites)" for t
      using that later [of t] True by (auto simp: covers_def site_to_def)
    then have "find (covers region ip) (s # sites) = None" unfolding find_None_iff by blast
    then show ?thesis using True by (simp add: before_site [OF w] del: find.simps)
  next
    case False
    then show ?thesis using Cons.IH [of "site_to region s"] Cons.prems
      by (auto simp: before_site [OF w] covers_def)
  qed
qed simp


definition sample_sites :: "Call_Site list" where
  "sample_sites =
     [\<lparr>cs_region_start = 0, cs_region_length = 16, cs_landing_pad = 0, cs_action_index = 0\<rparr>,
      \<lparr>cs_region_start = 16, cs_region_length = 300, cs_landing_pad = 0x140, cs_action_index = 1\<rparr>]"

definition sample_lsda :: LSDA_Header where
  "sample_lsda = \<lparr>lsda_start = 0x1000, lsda_lpstart = 0x4000, lsda_tt_format = DW_EH_PE_absptr,
     lsda_type_table = 0x1028, lsda_call_site_format = DW_EH_PE_uleb128, lsda_call_table_size = 10,
     lsda_call_sites = 0x1005, lsda_actions = 0x100F\<rparr>"

definition sample_context :: unwind_context where
  "sample_context = \<lparr>uc_language_data = 0x1000, uc_region_start = 0x4000, uc_ip = 0x4020, uc_gr0 = 0, uc_gr1 = 0\<rparr>"

lemma sample_table:
  "table_bytes DW_EH_PE_uleb128 sample_sites = [0, 16, 0, 0, 16, 0xAC, 2, 0xC0, 2, 1]"
  by (simp add: sample_sites_def site_bytes_def value_bytes_def uleb.simps)


section \<open>The match of an exception\<close>

text \<open>
  A chain of action records, each with its index, the offset to the next one and the entry of
  the type table; all type entries are plain pointers.
\<close>

fun actions_stored :: "mem \<Rightarrow> addr \<Rightarrow> addr \<Rightarrow> (int \<times> int \<times> addr) list \<Rightarrow> bool" where
  "actions_stored m tt p [] \<longleftrightarrow> False"
| "actions_stored m tt p ((index, off, info) # acts) \<longleftrightarrow>
     0 \<le> index \<and> index < 2 ^ 62 \<and> - (2 ^ 62) \<le> off \<and> off < 2 ^ 62 \<and>
     stored m p (sleb index @ sleb off) \<and>
     (0 < index \<longrightarrow> stored m (tt - 8 * of_int index) (word_bytes 8 info)) \<and>
     (if acts = [] then off = 0
      else off \<noteq> 0 \<and> actions_stored m tt (p + of_nat (length (sleb index)) + of_int off) acts)"

definition selects :: "addr \<Rightarrow> int \<times> int \<times> addr \<Rightarrow> bool" where
  "selects ident = (\<lambda>(index, off, info). 0 < index \<and> (info = 0 \<or> info = ident))"

lemma of_int_zero_iff: "- (2 ^ 62) \<le> i \<Longrightarrow> i < 2 ^ 62 \<Longrightarrow> (of_int i :: 64 word) = 0 \<longleftrightarrow> i = 0"
proof
  assume b: "- (2 ^ 62) \<le> i" "i < 2 ^ 62" and "(of_int i :: 64 word) = 0"
  then have "2 ^ 64 dvd i" by (simp add: word_of_int_eq_0_iff)
  then obtain k where "i = 2 ^ 64 * k" ..
  then show "i = 0" using b by (cases "k = 0") auto
qed simp

lemma walk_actions_find:
  assumes "actions_stored m (lsda_type_table lsda) p acts" "lsda_tt_format lsda = DW_EH_PE_absptr"
  shows "walk_actions m lsda ident p =
    Some (Inr (map_option (\<lambda>(index, _). of_int index) (find (selects ident) acts)))"
  using assms(1)
proof (induction acts arbitrary: p)
  case (Cons a acts)
  obtain index off info where a: "a = (index, off, info)" by (cases a)
  let ?q = "p + of_nat (length (sleb index))"
  have b: "0 \<le> index" "index < 2 ^ 62" "- (2 ^ 62) \<le> off" "off < 2 ^ 62"
    and st: "stored m p (sleb index)" "stored m ?q (sleb off)"
    using Cons.prems by (simp_all add: a)
  have "- (2 ^ 62) \<le> index" using b(1) by simp
  then have r: "parse_Action_Record m p = Inr (\<lparr>ar_info_index = of_int index, ar_next_action = of_int off\<rparr>,
      if off \<noteq> 0 then Some (?q + of_int off) else None)"
    using sleb_read [OF st(1) [unfolded stored_def] _ b(2)] sleb_read [OF st(2) [unfolded stored_def] b(3,4)]
      of_int_zero_iff [OF b(3,4)]
    by (simp add: parse_Action_Record_def)
  have i: "(0 :: 64 word) < of_int index \<longleftrightarrow> 0 < index"
    using of_int_zero_iff [OF \<open>- (2 ^ 62) \<le> index\<close> b(2)] b(1) by (simp add: word_gt_0) linarith
  have l: "load_dwarf_pointer DW_EH_PE_absptr m (lsda_type_table lsda - 8 * of_int index) = Inr info"
    if "0 < index"
    using that Cons.prems le_word_bytes [of 8 info]
    by (simp add: a stored_def load_dwarf_pointer_def take_bit_word_eq_self)
  have n: "(case if off \<noteq> 0 then Some (?q + of_int off) else None of
      None \<Rightarrow> Some (Inr None) | Some p \<Rightarrow> walk_actions m lsda ident p) =
      Some (Inr (map_option (\<lambda>(index, _). of_int index) (find (selects ident) acts)))"
    using Cons.prems Cons.IH [of "?q + of_int off"] by (cases "acts = []") (simp_all add: a)
  show ?case
    by (subst walk_actions.simps) (use n i l in \<open>auto simp: r assms(2) a selects_def dwarf_scale_def dwarf_codes\<close>)
qed simp

text \<open>
  On a chain of action records with plain type entries, the match of an exception ends and
  answers the index of the first handler of the chain whose entry is null or the
  identity of the exception.
\<close>

theorem match_exception_finds:
  assumes "actions_stored m (lsda_type_table lsda) (lsda_actions lsda + (action_index - 1)) acts"
    and "lsda_tt_format lsda = DW_EH_PE_absptr" "action_index \<noteq> 0"
  shows "match_exception m lsda exception action_index =
    Some (Inr (map_option (\<lambda>(index, _). of_int index) (find (selects (exn_id exception)) acts)))"
  using walk_actions_find [OF assms(1,2)] assms(3) by (simp add: match_exception_def)

definition sample_memory :: mem where
  "sample_memory = memory_of 0x1000
     ([0xFF, 0, 0x25, DW_EH_PE_uleb128, 10, 0, 16, 0, 0, 16, 0xAC, 2, 0xC0, 2, 1, 1, 1, 2, 0, 0, 0, 0, 0, 0] @
      [0, 0x90, 0, 0, 0, 0, 0, 0] @ [0, 0x80, 0, 0, 0, 0, 0, 0])"

lemma sample_actions:
  "actions_stored sample_memory 0x1028 0x100F [(1, 1, 0x8000), (2, 0, 0x9000)]"
proof -
  have e: "sleb 0 = [0]" "sleb 1 = [1]" "sleb 2 = [2]" by (simp_all add: sleb.simps)
  have w: "word_bytes 8 0x8000 = [0, 0x80, 0, 0, 0, 0, 0, 0]" "word_bytes 8 0x9000 = [0, 0x90, 0, 0, 0, 0, 0, 0]"
    by code_simp+
  have "stored sample_memory 0x100F [1, 1]" "stored sample_memory 0x1011 [2, 0]"
    "stored sample_memory 0x1020 [0, 0x80, 0, 0, 0, 0, 0, 0]" "stored sample_memory 0x1018 [0, 0x90, 0, 0, 0, 0, 0, 0]"
    by code_simp+
  then show ?thesis by (simp add: e w del: stored_Cons)
qed

theorem match_exception_finds_witness:
  "match_exception sample_memory sample_lsda \<lparr>exn_id = 0x9000\<rparr> 1 = Some (Inr (Some 2))"
  using match_exception_finds [of sample_memory sample_lsda 1 "[(1, 1, 0x8000), (2, 0, 0x9000)]" "\<lparr>exn_id = 0x9000\<rparr>"]
    sample_actions
  by (simp add: sample_lsda_def selects_def del: actions_stored.simps)

text \<open>A value that cannot be read is not a reason for the runtime to end the process by itself.\<close>

lemma leb_loop_error: "leb_loop m p res bits = Inl e \<Longrightarrow> e \<in> {Unmapped, ShiftTooFar}"
  by (induction m p res bits rule: leb_loop.induct) (subst (asm) (2) leb_loop.simps, auto split: option.splits if_splits)

lemma parse_sleb128_error: "parse_sleb128 m p = Inl e \<Longrightarrow> e \<in> {Unmapped, ShiftTooFar}"
  by (auto simp: parse_sleb128_def Let_def dest: leb_loop_error split: sum.splits option.splits if_splits)

lemma parse_Action_Record_error: "parse_Action_Record m p = Inl e \<Longrightarrow> e \<in> {Unmapped, ShiftTooFar}"
  by (auto simp: parse_Action_Record_def dest: parse_sleb128_error split: sum.splits)

lemma load_dwarf_pointer_error: "load_dwarf_pointer fmt m p = Inl e \<Longrightarrow> e \<in> {Unmapped, Assertion}"
  by (auto simp: load_dwarf_pointer_def Let_def split: option.splits if_splits)

lemma walk_actions_error:
  "walk_actions m lsda ident p = Some r \<Longrightarrow> r = Inl e \<Longrightarrow> e \<in> {Unmapped, ShiftTooFar, Assertion}"
proof (induction rule: walk_actions.raw_induct [rotated 1, consumes 1])
  case (1 walk m lsda ident p r)
  then show ?case
    using 1(1)
    by (fastforce dest: parse_Action_Record_error load_dwarf_pointer_error split: sum.splits if_splits option.splits)
qed

text \<open>
  The test for a filter compares an unsigned index with zero: whatever the data, the match never ends
  with the error for filters; the record of a filter is taken for a handler at a
  wrapped-around place of the type table.
\<close>

theorem match_exception_no_filter:
  "match_exception m lsda exception index \<noteq> Some (Inl (Fatal ''Filter action detected!''))"
  using walk_actions_error [of m lsda "exn_id exception" _ _ "Fatal ''Filter action detected!''"]
  by (auto simp: match_exception_def)

section \<open>The two phases\<close>

text \<open>The data area of a routine up to its actions, and the header it is parsed to.\<close>

definition lsda_bytes :: "addr \<Rightarrow> byte \<Rightarrow> Call_Site list \<Rightarrow> byte list" where
  "lsda_bytes off fmt sites = [DW_EH_PE_omit, DW_EH_PE_absptr] @ uleb (unat off) @ [fmt] @
     uleb (length (table_bytes fmt sites)) @ table_bytes fmt sites"

definition lsda_of :: "unwind_context \<Rightarrow> addr \<Rightarrow> byte \<Rightarrow> Call_Site list \<Rightarrow> LSDA_Header" where
  "lsda_of ctx off fmt sites =
     (let p = uc_language_data ctx + 2 + of_nat (length (uleb (unat off)));
          n = length (table_bytes fmt sites);
          q = p + 1 + of_nat (length (uleb n)) in
      \<lparr>lsda_start = uc_language_data ctx, lsda_lpstart = uc_region_start ctx,
       lsda_tt_format = DW_EH_PE_absptr, lsda_type_table = p + off, lsda_call_site_format = fmt,
       lsda_call_table_size = of_nat n, lsda_call_sites = q, lsda_actions = q + of_nat n\<rparr>)"

lemma parse_LSDA_bytes:
  assumes "stored m (uc_language_data ctx) (lsda_bytes off fmt sites)" "uc_language_data ctx \<noteq> 0"
    and "length (table_bytes fmt sites) < 2 ^ 64"
  shows "parse_LSDA m ctx = Inr (Some (lsda_of ctx off fmt sites))"
    "stored m (lsda_call_sites (lsda_of ctx off fmt sites)) (table_bytes fmt sites)"
proof -
  let ?p = "uc_language_data ctx + 2 + of_nat (length (uleb (unat off)))"
  let ?n = "length (table_bytes fmt sites)"
  have st: "m (uc_language_data ctx) = Some DW_EH_PE_omit" "m (uc_language_data ctx + 1) = Some DW_EH_PE_absptr"
    "stored m (uc_language_data ctx + 2) (uleb (unat off))" "m ?p = Some fmt"
    "stored m (?p + 1) (uleb ?n)" "stored m (?p + 1 + of_nat (length (uleb ?n))) (table_bytes fmt sites)"
    using assms(1) by (simp_all add: lsda_bytes_def algebra_simps)
  show "parse_LSDA m ctx = Inr (Some (lsda_of ctx off fmt sites))"
    using st(1,2,4) parse_uleb128_word [OF st(3)] uleb_read [OF st(5) [unfolded stored_def] assms(3)] assms(2)
    by (simp add: parse_LSDA_def lsda_of_def Let_def dwarf_codes add.assoc)
  show "stored m (lsda_call_sites (lsda_of ctx off fmt sites)) (table_bytes fmt sites)"
    using st(6) by (simp add: lsda_of_def Let_def)
qed

lemma find_covers:
  assumes "sites_ordered region lo sites" "s \<in> set sites" "covers region ip s"
  shows "find (covers region ip) sites = Some s"
  using assms
proof (induction sites arbitrary: lo)
  case (Cons t sites)
  have "\<not> covers region ip t" if "s \<in> set sites"
    using that Cons.prems sites_ordered_later [of region "site_to region t" sites s] by (auto simp: covers_def)
  then show ?case using Cons.prems Cons.IH [of "site_to region t"] by auto
qed simp

lemma personality_site:
  assumes "stored m (uc_language_data ctx) (lsda_bytes off fmt sites)" "uc_language_data ctx \<noteq> 0"
    and "unat (uc_language_data ctx) + length (lsda_bytes off fmt sites) < 2 ^ 64"
    and "list_all (site_fits fmt) sites" "sites_ordered (uc_region_start ctx) 0 sites"
    and "s \<in> set sites" "covers (uc_region_start ctx) (uc_ip ctx - 1) s"
  shows "comma_eh_personality h m site0 1 actions Comma_Exception_Class_ID obj exn ctx =
    handle_site h m actions obj exn ctx (lsda_of ctx off fmt sites) s"
proof -
  let ?lsda = "lsda_of ctx off fmt sites" and ?n = "length (table_bytes fmt sites)"
  have n: "?n < 2 ^ 64" using assms(3) by (simp add: lsda_bytes_def)
  note l = parse_LSDA_bytes [OF assms(1,2) n]
  have f: "lsda_call_site_format ?lsda = fmt" "lsda_call_table_size ?lsda = of_nat ?n"
    by (simp_all add: lsda_of_def Let_def)
  have "unat (lsda_call_sites ?lsda) + ?n < 2 ^ 64"
  proof -
    have "lsda_call_sites ?lsda = uc_language_data ctx + of_nat (length (lsda_bytes off fmt sites) - ?n)"
      by (simp add: lsda_of_def lsda_bytes_def Let_def algebra_simps)
    then have "unat (lsda_call_sites ?lsda) = unat (uc_language_data ctx) + (length (lsda_bytes off fmt sites) - ?n)"
      using assms(3) by (simp add: unat_word_ariths unat_of_nat)
    moreover have "?n \<le> length (lsda_bytes off fmt sites)" by (simp add: lsda_bytes_def)
    ultimately show ?thesis using assms(3) by simp
  qed
  then have "inside (lsda_call_sites ?lsda + lsda_call_table_size ?lsda) (lsda_call_sites ?lsda) ?n"
    by (simp add: inside_def f)
  then have "find_applicable_call_site m ?lsda ctx site0 = Some (Inr (Some s))"
    using walk_call_sites_applicable [OF l(2) assms(4) f(1)] applicable_find [OF assms(5)]
      find_covers [OF assms(5-7)]
    by (simp add: find_applicable_call_site_def)
  then show ?thesis using l(1) by (simp add: comma_eh_personality_def)
qed

text \<open>
  C30. For a frame whose data area is well formed and whose instruction lies in a call site with a
  landing pad, the two phases of unwinding agree: the first one reports a handler exactly when the chain
  of the site has one for the exception, the second one installs exactly that handler, at
  the landing pad and with the exception and the index in the registers, when the unwinder asks for it, and
  passes over every other frame; in all other cases the context is left as it was.
\<close>

theorem comma_eh_personality_phases:
  assumes "stored m (uc_language_data ctx) (lsda_bytes off fmt sites)" "uc_language_data ctx \<noteq> 0"
    and "unat (uc_language_data ctx) + length (lsda_bytes off fmt sites) < 2 ^ 64"
    and "list_all (site_fits fmt) sites" "sites_ordered (uc_region_start ctx) 0 sites"
    and "s \<in> set sites" "covers (uc_region_start ctx) (uc_ip ctx - 1) s"
    and "cs_landing_pad s \<noteq> 0" "cs_action_index s \<noteq> 0"
    and "actions_stored m (lsda_type_table (lsda_of ctx off fmt sites))
      (lsda_actions (lsda_of ctx off fmt sites) + (cs_action_index s - 1)) acts"
  shows "comma_eh_personality h m site0 1 UA_SEARCH_PHASE Comma_Exception_Class_ID obj exn ctx = Some (Inr
      (case find (selects (exn_id exn)) acts of None \<Rightarrow> URC_CONTINUE_UNWIND | Some a \<Rightarrow> URC_HANDLER_FOUND, ctx))
    \<and> comma_eh_personality h m site0 1 UA_CLEANUP_PHASE Comma_Exception_Class_ID obj exn ctx = Some (Inr (URC_CONTINUE_UNWIND, ctx))
    \<and> comma_eh_personality h m site0 1 (UA_CLEANUP_PHASE OR UA_HANDLER_FRAME) Comma_Exception_Class_ID obj exn ctx = Some (Inr
      (case find (selects (exn_id exn)) acts of
         None \<Rightarrow> (URC_CONTINUE_UNWIND, ctx)
       | Some (index, _) \<Rightarrow> (URC_INSTALL_CONTEXT,
           ctx\<lparr>uc_gr0 := obj - h, uc_gr1 := of_int index, uc_ip := uc_region_start ctx + cs_landing_pad s\<rparr>)))"
proof -
  let ?lsda = "lsda_of ctx off fmt sites"
  have "lsda_tt_format ?lsda = DW_EH_PE_absptr" "lsda_lpstart ?lsda = uc_region_start ctx"
    by (simp_all add: lsda_of_def Let_def)
  then show ?thesis
    using assms(8,9) walk_actions_find [OF assms(10)]
    by (simp add: personality_site [OF assms(1-7)] handle_site_def match_exception_def
        UA_SEARCH_PHASE_def UA_CLEANUP_PHASE_def UA_HANDLER_FRAME_def install_handler_def to_comma_exception_def
        split: option.split)
qed

theorem comma_eh_personality_phases_witness:
  "comma_eh_personality 48 sample_memory (hd sample_sites) 1 (UA_CLEANUP_PHASE OR UA_HANDLER_FRAME)
     Comma_Exception_Class_ID 0x7030 \<lparr>exn_id = 0x9000\<rparr> sample_context =
   Some (Inr (URC_INSTALL_CONTEXT, sample_context\<lparr>uc_gr0 := 0x7000, uc_gr1 := 2, uc_ip := 0x4140\<rparr>))"
proof -
  let ?fmt = "DW_EH_PE_uleb128"
  have n: "length (table_bytes ?fmt sample_sites) = 10" by (simp add: sample_table)
  have u: "uleb 37 = [37]" "uleb 10 = [10]" by (simp_all add: uleb.simps)
  have b: "lsda_bytes 0x25 ?fmt sample_sites =
      [0xFF, 0, 0x25, ?fmt, 10, 0, 16, 0, 0, 16, 0xAC, 2, 0xC0, 2, 1]"
    unfolding lsda_bytes_def n u by (simp add: sample_table u) (simp add: dwarf_codes)
  have "stored sample_memory 0x1000 [0xFF, 0, 0x25, ?fmt, 10, 0, 16, 0, 0, 16, 0xAC, 2, 0xC0, 2, 1]"
    by code_simp
  then have st: "stored sample_memory (uc_language_data sample_context) (lsda_bytes 0x25 ?fmt sample_sites)"
    "unat (uc_language_data sample_context) + length (lsda_bytes 0x25 ?fmt sample_sites) < 2 ^ 64"
    unfolding b by (simp_all add: sample_context_def)
  have l: "lsda_of sample_context 0x25 ?fmt sample_sites = sample_lsda"
    unfolding lsda_of_def n u Let_def by (simp add: sample_lsda_def sample_context_def u)
  have sites: "list_all (site_fits ?fmt) sample_sites" "sites_ordered 0x4000 0 sample_sites"
    "sample_sites ! 1 \<in> set sample_sites" "covers 0x4000 0x401F (sample_sites ! 1)"
    by (simp_all add: sample_sites_def site_fits_def value_fits_def site_from_def site_to_def covers_def)
  have c: "uc_language_data sample_context \<noteq> 0" "uc_region_start sample_context = 0x4000"
    "uc_ip sample_context - 1 = 0x401F"
    by (simp_all add: sample_context_def)
  have a: "cs_landing_pad (sample_sites ! 1) = 0x140" "cs_action_index (sample_sites ! 1) = 1"
    by (simp_all add: sample_sites_def)
  have t: "lsda_type_table sample_lsda = 0x1028" "lsda_actions sample_lsda = 0x100F"
    by (simp_all add: sample_lsda_def)
  show ?thesis
    using comma_eh_personality_phases [of sample_memory sample_context "0x25" ?fmt sample_sites "sample_sites ! 1"
        "[(1, 1, 0x8000), (2, 0, 0x9000)]" 48 "hd sample_sites" "0x7030" "\<lparr>exn_id = 0x9000\<rparr>"]
      st sites sample_actions
    unfolding l c a t by (simp add: c selects_def del: actions_stored.simps)
qed

end
