(* ===== verification/Runtime.thy ===== *)
theory Runtime
  imports Personality
begin

text \<open>
  The rest of the runtime library: the stack for results of variable length
  (\<^verbatim>\<open>lib/runtime/crt_vstack.c\<close>), the creation and disposal of exceptions
  (\<^verbatim>\<open>crt_exceptions.c\<close>) and the powers of integers (\<^verbatim>\<open>crt_math.c\<close>).

  The heap has the mapped bytes, the blocks with their lengths, and the exception objects by their
  addresses.  What \<^verbatim>\<open>malloc\<close> answers is an argument: the address, null if there is no memory, and
  the arbitrary bytes of the block.
\<close>

unbundle bit_operations_syntax

section \<open>The heap\<close>

record exception_object = comma_exception +
  exn_file_name :: addr
  exn_line_number :: "32 word"
  exn_message :: addr
  exn_flags :: "32 word"
  exn_class :: "64 word"

record rt_heap =
  hp_mem :: mem
  hp_blocks :: "addr \<Rightarrow> nat option"
  hp_exns :: "addr \<Rightarrow> exception_object option"

definition overwrite :: "mem \<Rightarrow> addr \<Rightarrow> byte list \<Rightarrow> mem" where
  "overwrite m p bs = (\<lambda>a. if unat (a - p) < length bs then Some (bs ! unat (a - p)) else m a)"

definition write_bytes :: "rt_heap \<Rightarrow> addr \<Rightarrow> byte list \<Rightarrow> rt_error + rt_heap" where
  "write_bytes h p bs =
     (case bytes_at (hp_mem h) p (length bs) of
        None \<Rightarrow> Inl Unmapped
      | Some _ \<Rightarrow> Inr (h\<lparr>hp_mem := overwrite (hp_mem h) p bs\<rparr>))"

text \<open>The effect of \<^verbatim>\<open>malloc\<close> with an answer and the bytes of the block, and of \<^verbatim>\<open>free\<close>.\<close>

definition malloc_block :: "addr \<Rightarrow> byte list \<Rightarrow> rt_heap \<Rightarrow> rt_heap" where
  "malloc_block p junk h =
     (if p = 0 then h
      else h\<lparr>hp_mem := overwrite (hp_mem h) p junk, hp_blocks := (hp_blocks h)(p \<mapsto> length junk)\<rparr>)"

definition unmap :: "mem \<Rightarrow> addr \<Rightarrow> nat \<Rightarrow> mem" where
  "unmap m p n = (\<lambda>a. if unat (a - p) < n then None else m a)"

definition free_block :: "addr \<Rightarrow> rt_heap \<Rightarrow> rt_error + rt_heap" where
  "free_block p h =
     (if p = 0 then Inr h
      else case hp_blocks h p of
        None \<Rightarrow> Inl (Fatal ''free(): invalid pointer'')
      | Some n \<Rightarrow> Inr (h\<lparr>hp_mem := unmap (hp_mem h) p n, hp_blocks := (hp_blocks h)(p := None)\<rparr>))"

text \<open>What is known of an answer of \<^verbatim>\<open>malloc\<close> that is not null: a new block of unused addresses.\<close>

definition fresh_block :: "rt_heap \<Rightarrow> addr \<Rightarrow> nat \<Rightarrow> bool" where
  "fresh_block h p n \<longleftrightarrow> p \<noteq> 0 \<and> hp_blocks h p = None \<and>
     (\<forall>a. unat (a - p) < n \<longrightarrow> hp_mem h a = None)"

definition comma_alloc :: "64 word \<Rightarrow> 32 word \<Rightarrow> addr \<Rightarrow> byte list \<Rightarrow> rt_heap \<Rightarrow> addr \<times> rt_heap" where
  "comma_alloc bytes align p junk h = (p, malloc_block p (take (unat bytes) junk) h)"

section \<open>The variable stack\<close>

text \<open>
  The stack pointer is the address of the data of the top entry, eight bytes behind
  the entry itself.  A size is a signed number of 32 bits, extended to the
  64 bits of an address.
\<close>

definition get_vstack_entry :: "addr \<Rightarrow> addr" where
  "get_vstack_entry vstack = vstack - 8"

definition set_vstack_entry :: "addr \<Rightarrow> addr" where
  "set_vstack_entry entry = entry + 8"

definition vstack_size :: "32 word \<Rightarrow> nat" where
  "vstack_size sz = unat (8 + scast sz :: 64 word)"

definition vstack_alloc ::
  "addr \<Rightarrow> byte list \<Rightarrow> 32 word \<Rightarrow> rt_heap \<times> addr \<Rightarrow> rt_error + rt_heap \<times> addr" where
  "vstack_alloc entry junk sz = (\<lambda>(h, vstack).
     case write_bytes (malloc_block entry (take (vstack_size sz) junk) h) entry
         (word_bytes 8 (get_vstack_entry vstack)) of
       Inl e \<Rightarrow> Inl e
     | Inr h1 \<Rightarrow> Inr (h1, set_vstack_entry entry))"

definition vstack_push ::
  "addr \<Rightarrow> byte list \<Rightarrow> addr \<Rightarrow> 32 word \<Rightarrow> rt_heap \<times> addr \<Rightarrow> rt_error + rt_heap \<times> addr" where
  "vstack_push entry junk data sz = (\<lambda>(h, vstack).
     case write_bytes (malloc_block entry (take (vstack_size sz) junk) h) entry
         (word_bytes 8 (get_vstack_entry vstack)) of
       Inl e \<Rightarrow> Inl e
     | Inr h1 \<Rightarrow>
         (case bytes_at (hp_mem h1) data (unat (scast sz :: 64 word)) of
            None \<Rightarrow> Inl Unmapped
          | Some bs \<Rightarrow>
              (case write_bytes h1 (entry + 8) bs of
                 Inl e \<Rightarrow> Inl e
               | Inr h2 \<Rightarrow> Inr (h2, set_vstack_entry entry))))"

definition vstack_pop :: "rt_heap \<times> addr \<Rightarrow> rt_error + rt_heap \<times> addr" where
  "vstack_pop = (\<lambda>(h, vstack).
     let entry = get_vstack_entry vstack in
     case bytes_at (hp_mem h) entry 8 of
       None \<Rightarrow> Inl Unmapped
     | Some prev \<Rightarrow>
         (case free_block entry h of
            Inl e \<Rightarrow> Inl e
          | Inr h' \<Rightarrow> Inr (h', set_vstack_entry (le_word prev))))"

section \<open>Exceptions\<close>

text \<open>
  The object is created at the answer \<open>p\<close> of \<^verbatim>\<open>malloc\<close>; its size and the offset of its
  header are those of the platform.  The result is the pointer given to
  \<^verbatim>\<open>_Unwind_RaiseException\<close>.
\<close>

definition COMMA_DYN_MESSAGE :: "32 word" where
  "COMMA_DYN_MESSAGE = 1"

definition new_exception :: "nat \<Rightarrow> addr \<Rightarrow> exception_object \<Rightarrow> rt_heap \<Rightarrow> rt_error + rt_heap" where
  "new_exception exnSize p obj h =
     (if p = 0 then Inl Unmapped
      else Inr (h\<lparr>hp_blocks := (hp_blocks h)(p \<mapsto> exnSize), hp_exns := (hp_exns h)(p \<mapsto> obj)\<rparr>))"

definition comma_raise_exception ::
  "addr \<Rightarrow> nat \<Rightarrow> addr \<Rightarrow> addr \<Rightarrow> addr \<Rightarrow> 32 word \<Rightarrow> addr \<Rightarrow> rt_heap \<Rightarrow> rt_error + addr \<times> rt_heap" where
  "comma_raise_exception header_offset exnSize p info file_name line_number message h =
     (case new_exception exnSize p \<lparr>exn_id = info, exn_file_name = file_name, exn_line_number = line_number,
         exn_message = message, exn_flags = 0, exn_class = Comma_Exception_Class_ID\<rparr> h of
        Inl e \<Rightarrow> Inl e
      | Inr h1 \<Rightarrow> Inr (to_Unwind_Exception header_offset p, h1))"

text \<open>
  The copy of the message at the answer \<open>q\<close>: the size of the block is computed with 32 bits.
\<close>

definition copy_message ::
  "addr \<Rightarrow> byte list \<Rightarrow> addr \<Rightarrow> 32 word \<Rightarrow> rt_heap \<Rightarrow> rt_error + rt_heap" where
  "copy_message q junk message len h =
     (let h1 = malloc_block q (take (unat (len + 1)) junk) h in
      case bytes_at (hp_mem h1) message (unat len) of
        None \<Rightarrow> Inl Unmapped
      | Some bs \<Rightarrow>
          (case write_bytes h1 q bs of
             Inl e \<Rightarrow> Inl e
           | Inr h2 \<Rightarrow> write_bytes h2 (q + ucast len) [0]))"

definition comma_raise_nexception ::
  "addr \<Rightarrow> nat \<Rightarrow> addr \<Rightarrow> addr \<Rightarrow> byte list \<Rightarrow> addr \<Rightarrow> addr \<Rightarrow> 32 word \<Rightarrow> addr \<Rightarrow> 32 word \<Rightarrow> rt_heap
     \<Rightarrow> rt_error + addr \<times> rt_heap" where
  "comma_raise_nexception header_offset exnSize p q junk info file_name line_number message len h =
     (let obj = \<lparr>exn_id = info, exn_file_name = file_name, exn_line_number = line_number,
         exn_message = 0, exn_flags = 0, exn_class = Comma_Exception_Class_ID\<rparr> in
      if message \<noteq> 0 then
        (case new_exception exnSize p (obj\<lparr>exn_message := q, exn_flags := COMMA_DYN_MESSAGE\<rparr>) h of
           Inl e \<Rightarrow> Inl e
         | Inr h1 \<Rightarrow>
             (case copy_message q junk message len h1 of
                Inl e \<Rightarrow> Inl e
              | Inr h2 \<Rightarrow> Inr (to_Unwind_Exception header_offset p, h2)))
      else
        (case new_exception exnSize p obj h of
           Inl e \<Rightarrow> Inl e
         | Inr h1 \<Rightarrow> Inr (to_Unwind_Exception header_offset p, h1)))"

definition comma_cleanup_exception :: "addr \<Rightarrow> addr \<Rightarrow> rt_heap \<Rightarrow> rt_error + rt_heap" where
  "comma_cleanup_exception header_offset exc h =
     (let p = to_comma_exception header_offset exc in
      case hp_exns h p of
        None \<Rightarrow> Inl Unmapped
      | Some exn \<Rightarrow>
          (case (if exn_flags exn AND COMMA_DYN_MESSAGE \<noteq> 0 then free_block (exn_message exn) h else Inr h) of
             Inl e \<Rightarrow> Inl e
           | Inr h1 \<Rightarrow> Inr (h1\<lparr>hp_blocks := (hp_blocks h1)(p := None), hp_exns := (hp_exns h1)(p := None)\<rparr>)))"

definition comma_reraise_exception :: "addr \<Rightarrow> addr \<Rightarrow> addr" where
  "comma_reraise_exception header_offset exception = to_Unwind_Exception header_offset exception"

text \<open>The identities of the system exceptions; their addresses are those of three variables.\<close>

datatype comma_exinfo = Exinfo_constraint_error | Exinfo_program_error | Exinfo_assertion_error

definition exinfo_name :: "comma_exinfo \<Rightarrow> string" where
  "exinfo_name info = (case info of Exinfo_constraint_error \<Rightarrow> ''CONSTRAINT_ERROR''
     | Exinfo_program_error \<Rightarrow> ''PROGRAM_ERROR'' | Exinfo_assertion_error \<Rightarrow> ''ASSERTION_ERROR'')"

definition comma_get_exception :: "32 word \<Rightarrow> rt_error + comma_exinfo" where
  "comma_get_exception ident =
     (if ident = 0 then Inr Exinfo_constraint_error
      else if ident = 1 then Inr Exinfo_program_error
      else if ident = 2 then Inr Exinfo_assertion_error
      else Inl (Fatal ''Invalid exception ID!''))"

definition comma_raise_system ::
  "(comma_exinfo \<Rightarrow> addr) \<Rightarrow> addr \<Rightarrow> nat \<Rightarrow> addr \<Rightarrow> 32 word \<Rightarrow> addr \<Rightarrow> 32 word \<Rightarrow> addr \<Rightarrow> rt_heap
     \<Rightarrow> rt_error + addr \<times> rt_heap" where
  "comma_raise_system address header_offset exnSize p ident file_name line_number message h =
     (case comma_get_exception ident of
        Inl e \<Rightarrow> Inl e
      | Inr info \<Rightarrow>
          comma_raise_exception header_offset exnSize p (address info) file_name line_number message h)"

section \<open>Powers\<close>

text \<open>
  The product of signed integers must fit; \<open>None\<close> is an overflow.  The loop
  \<^verbatim>\<open>while (--n) res *= x\<close> is entered with a counter that is not zero.
\<close>

function pow_loop :: "(int \<Rightarrow> bool) \<Rightarrow> int \<Rightarrow> 32 word \<Rightarrow> int \<Rightarrow> int option" where
  "pow_loop fits x n res =
     (if n - 1 = 0 then Some res
      else if fits (res * x) then pow_loop fits x (n - 1) (res * x)
      else None)"
  by pat_completeness auto
termination
proof (relation "measure (\<lambda>(fits, x, n, res). unat (n - 1))")
  fix fits :: "int \<Rightarrow> bool" and x res and n :: "32 word"
  assume "n - 1 \<noteq> 0"
  then have "unat (n - 1 - 1) = unat (n - 1) - 1" by (rule unat_minus_one)
  moreover have "0 < unat (n - 1)" unfolding unat_gt_0 by fact
  ultimately have "unat (n - 1 - 1) < unat (n - 1)" by linarith
  then show "((fits, x, n - 1, res * x), fits, x, n, res) \<in> measure (\<lambda>(fits, x, n, res). unat (n - 1))" by simp
qed simp

declare pow_loop.simps [simp del]

definition fits32 :: "int \<Rightarrow> bool" where "fits32 i \<longleftrightarrow> - (2 ^ 31) \<le> i \<and> i < 2 ^ 31"
definition fits64 :: "int \<Rightarrow> bool" where "fits64 i \<longleftrightarrow> - (2 ^ 63) \<le> i \<and> i < 2 ^ 63"

definition comma_pow_i32_i32 :: "32 word \<Rightarrow> 32 word \<Rightarrow> int option" where
  "comma_pow_i32_i32 x n = (if n = 0 then Some 0 else pow_loop fits32 (sint x) n (sint x))"

definition comma_pow_i64_i32 :: "64 word \<Rightarrow> 32 word \<Rightarrow> int option" where
  "comma_pow_i64_i32 x n = (if n = 0 then Some 0 else pow_loop fits64 (sint x) n (sint x))"

section \<open>Blocks of bytes\<close>

lemma stored_nth: "stored m p bs \<longleftrightarrow> (\<forall>i < length bs. m (p + of_nat i) = Some (bs ! i))"
proof (induction bs arbitrary: p)
  case (Cons b bs)
  show ?case
    unfolding stored_Cons Cons using All_less_Suc2 [of "length bs" "\<lambda>i. m (p + of_nat i) = Some ((b # bs) ! i)"]
    by (simp add: add.assoc)
qed simp

lemma stored_iff:
  assumes "length bs \<le> 2 ^ 64"
  shows "stored m p bs \<longleftrightarrow> (\<forall>a. unat (a - p) < length bs \<longrightarrow> m a = Some (bs ! unat (a - p)))"
    (is "_ \<longleftrightarrow> ?r")
proof
  assume s: "stored m p bs"
  show ?r
  proof (intro allI impI)
    fix a
    assume "unat (a - p) < length bs"
    then have "m (p + of_nat (unat (a - p))) = Some (bs ! unat (a - p))" using s unfolding stored_nth by blast
    then show "m a = Some (bs ! unat (a - p))" by simp
  qed
next
  assume r: ?r
  have "unat (p + of_nat i - p) = i" if "i < length bs" for i
    using that assms by (simp add: unat_of_nat)
  then show "stored m p bs" using r unfolding stored_nth by metis
qed

lemma bytes_at_stored: "bytes_at m p n = Some bs \<longleftrightarrow> length bs = n \<and> stored m p bs"
proof (induction n arbitrary: p bs)
  case (Suc n)
  show ?case using Suc [of "p + 1"] by (cases bs) (auto split: option.splits)
qed auto

lemma stored_same:
  assumes "\<And>a. unat (a - p) < length bs \<Longrightarrow> m' a = m a" "stored m p bs" "length bs \<le> 2 ^ 64"
  shows "stored m' p bs"
  using assms by (simp add: stored_iff)

lemma stored_overwrite: "length bs \<le> 2 ^ 64 \<Longrightarrow> stored (overwrite m p bs) p bs"
  by (simp add: stored_iff overwrite_def)

lemma overwrite_same: "length b \<le> length a \<Longrightarrow> length b = length a \<Longrightarrow> overwrite (overwrite m p a) p b = overwrite m p b"
  by (auto simp: overwrite_def)

lemma unat_minus_nat:
  assumes "n < 2 ^ 64"
  shows "unat (y - of_nat n :: addr) = (if n \<le> unat y then unat y - n else 2 ^ 64 + unat y - n)"
proof -
  have u: "unat (of_nat n :: addr) = n" using assms by (simp add: unat_of_nat)
  show ?thesis unfolding unat_sub_if_size u by (simp add: word_size add.commute [of "unat y"])
qed

lemma overwrite_parts:
  assumes "length junk = length a + length b" "length a + length b < 2 ^ 64"
  shows "overwrite (overwrite (overwrite m p junk) p a) (p + of_nat (length a)) b = overwrite m p (a @ b)"
proof
  fix x
  let ?k = "unat (x - p)"
  have s: "unat (x - (p + of_nat (length a))) = (if length a \<le> ?k then ?k - length a else 2 ^ 64 + ?k - length a)"
    using unat_minus_nat [of "length a" "x - p"] assms(2) by (simp add: diff_diff_add)
  show "overwrite (overwrite (overwrite m p junk) p a) (p + of_nat (length a)) b x = overwrite m p (a @ b) x"
    unfolding overwrite_def s length_append assms(1) using assms(2) by (auto simp: nth_append)
qed

lemma unmap_overwrite:
  assumes "\<forall>a. unat (a - p) < length c \<longrightarrow> m a = None"
  shows "unmap (overwrite m p c) p (length c) = m"
  using assms by (auto simp: unmap_def overwrite_def)

lemma write_block:
  assumes "stored (hp_mem h) p c" "length bs \<le> length c"
  shows "write_bytes h p bs = Inr (h\<lparr>hp_mem := overwrite (hp_mem h) p bs\<rparr>)"
proof -
  have "stored (hp_mem h) p (take (length bs) c)"
    using assms stored_append [of "hp_mem h" p "take (length bs) c" "drop (length bs) c"] by simp
  then have "bytes_at (hp_mem h) p (length bs) = Some (take (length bs) c)"
    using assms(2) by (simp add: bytes_at_stored)
  then show ?thesis by (simp add: write_bytes_def)
qed

text \<open>
  A new block is filled in two steps; what was stored elsewhere stays, as the block was not in use.
\<close>

lemma fill_block:
  assumes "fresh_block h p (length a + length b)" "length junk = length a + length b" "length a + length b < 2 ^ 64"
  defines "h1 \<equiv> (malloc_block p junk h)"
  shows "write_bytes h1 p a = Inr (h1\<lparr>hp_mem := overwrite (hp_mem h1) p a\<rparr>)"
    and "write_bytes (h1\<lparr>hp_mem := overwrite (hp_mem h1) p a\<rparr>) (p + of_nat (length a)) b = Inr
      (h\<lparr>hp_mem := overwrite (hp_mem h) p (a @ b), hp_blocks := (hp_blocks h)(p \<mapsto> length a + length b)\<rparr>)"
    and "stored (hp_mem h) q c \<Longrightarrow> stored (overwrite (hp_mem h1) p a) q c"
proof -
  have p: "p \<noteq> 0" and free: "\<And>x. unat (x - p) < length a + length b \<Longrightarrow> hp_mem h x = None"
    using assms(1) by (simp_all add: fresh_block_def)
  have m: "hp_mem h1 = overwrite (hp_mem h) p junk" "hp_blocks h1 = (hp_blocks h)(p \<mapsto> length a + length b)"
    using p by (simp_all add: h1_def malloc_block_def assms(2))
  have st: "stored (hp_mem h1) p junk" unfolding m using assms(2,3) by (intro stored_overwrite) simp
  show "write_bytes h1 p a = Inr (h1\<lparr>hp_mem := overwrite (hp_mem h1) p a\<rparr>)"
    by (rule write_block [OF st]) (simp add: assms(2))
  let ?h2 = "h1\<lparr>hp_mem := overwrite (hp_mem h1) p a\<rparr>"
  have o: "overwrite (hp_mem h1) p a = overwrite (hp_mem h) p (a @ drop (length a) junk)"
    unfolding m using assms(2) by (auto simp: overwrite_def nth_append)
  have "stored (hp_mem ?h2) p (a @ drop (length a) junk)"
    using stored_overwrite [of "a @ drop (length a) junk" "hp_mem h" p] assms(2,3) by (simp add: o)
  then have "stored (hp_mem ?h2) (p + of_nat (length a)) (drop (length a) junk)" by simp
  then have "write_bytes ?h2 (p + of_nat (length a)) b =
      Inr (?h2\<lparr>hp_mem := overwrite (hp_mem ?h2) (p + of_nat (length a)) b\<rparr>)"
    by (rule write_block) (simp add: assms(2))
  also have "\<dots> = Inr (h\<lparr>hp_mem := overwrite (hp_mem h) p (a @ b), hp_blocks := (hp_blocks h)(p \<mapsto> length a + length b)\<rparr>)"
    using overwrite_parts [OF assms(2,3), of "hp_mem h" p] p
    by (simp add: m h1_def malloc_block_def assms(2))
  finally show "write_bytes ?h2 (p + of_nat (length a)) b =
      Inr (h\<lparr>hp_mem := overwrite (hp_mem h) p (a @ b), hp_blocks := (hp_blocks h)(p \<mapsto> length a + length b)\<rparr>)" .
  assume c: "stored (hp_mem h) q c"
  have "overwrite (hp_mem h1) p a x = Some y" if "hp_mem h x = Some y" for x y
  proof -
    have "\<not> unat (x - p) < length (a @ drop (length a) junk)" using that free [of x] assms(2) by auto
    then have "overwrite (hp_mem h) p (a @ drop (length a) junk) x = Some y"
      using that unfolding overwrite_def by (simp only: if_False)
    then show ?thesis unfolding o .
  qed
  then show "stored (overwrite (hp_mem h1) p a) q c" using c unfolding stored_nth by blast
qed

lemma malloc_stored:
  assumes "fresh_block h p (length junk)" "stored (hp_mem h) q c"
  shows "stored (hp_mem (malloc_block p junk h)) q c"
proof -
  have "hp_mem (malloc_block p junk h) x = Some y" if "hp_mem h x = Some y" for x y
    using that assms(1) by (auto simp: malloc_block_def overwrite_def fresh_block_def)
  then show ?thesis using assms(2) unfolding stored_nth by blast
qed

section \<open>The stack as a list\<close>

text \<open>
  The stack represents a list of blocks, each with its entry's address and its data, the top first.
\<close>

definition apart :: "addr \<Rightarrow> nat \<Rightarrow> addr \<Rightarrow> nat \<Rightarrow> bool" where
  "apart p n q k \<longleftrightarrow> (\<forall>a. \<not> (unat (a - p) < n \<and> unat (a - q) < k))"

fun vstack_rep :: "rt_heap \<Rightarrow> addr \<Rightarrow> (addr \<times> byte list) list \<Rightarrow> bool" where
  "vstack_rep h vstack [] \<longleftrightarrow> vstack = 0"
| "vstack_rep h vstack ((e, bs) # xs) \<longleftrightarrow>
     vstack = e + 8 \<and> e \<noteq> 0 \<and> length bs < 2 ^ 63 \<and> hp_blocks h e = Some (8 + length bs) \<and>
     (\<forall>(e', bs') \<in> set xs. e' \<noteq> e \<and> apart e (8 + length bs) e' (8 + length bs')) \<and>
     (\<exists>prev. stored (hp_mem h) e (word_bytes 8 (get_vstack_entry prev) @ bs) \<and> vstack_rep h prev xs)"

lemma vstack_rep_blocks:
  "vstack_rep h vstack xs \<Longrightarrow> (e, bs) \<in> set xs \<Longrightarrow>
     hp_blocks h e = Some (8 + length bs) \<and> (\<forall>a. unat (a - e) < 8 + length bs \<longrightarrow> hp_mem h a \<noteq> None)"
proof (induction h vstack xs rule: vstack_rep.induct)
  case (2 h vstack e' bs' xs)
  show ?case
  proof (cases "(e, bs) \<in> set xs")
    case False
    then have [simp]: "e' = e" "bs' = bs" using 2(3) by simp_all
    obtain prev where "stored (hp_mem h) e (word_bytes 8 (get_vstack_entry prev) @ bs)"
      using 2(2) by auto
    moreover have "length (word_bytes 8 (get_vstack_entry prev) @ bs) \<le> 2 ^ 64" using 2(2) by simp
    ultimately have "unat (a - e) < 8 + length bs \<Longrightarrow> hp_mem h a \<noteq> None" for a
      by (subst (asm) stored_iff) auto
    then show ?thesis using 2(2) by simp
  qed (use 2 in auto)
qed simp

lemma vstack_rep_frame:
  assumes "vstack_rep h vstack xs"
    and "\<And>e bs. (e, bs) \<in> set xs \<Longrightarrow> hp_blocks h' e = hp_blocks h e"
    and "\<And>e bs a. (e, bs) \<in> set xs \<Longrightarrow> unat (a - e) < 8 + length bs \<Longrightarrow> hp_mem h' a = hp_mem h a"
  shows "vstack_rep h' vstack xs"
  using assms
proof (induction h vstack xs rule: vstack_rep.induct)
  case (2 h vstack e bs xs)
  obtain prev where p: "stored (hp_mem h) e (word_bytes 8 (get_vstack_entry prev) @ bs)" "vstack_rep h prev xs"
    using 2(2) by auto
  have "vstack_rep h' prev xs"
  proof (rule 2(1) [OF p(2)])
    fix e' bs' a
    assume "(e', bs') \<in> set xs"
    then have "(e', bs') \<in> set ((e, bs) # xs)" by simp
    then show "hp_blocks h' e' = hp_blocks h e'" "unat (a - e') < 8 + length bs' \<Longrightarrow> hp_mem h' a = hp_mem h a"
      by (fact 2(3), elim 2(4))
  qed
  moreover have "stored (hp_mem h') e (word_bytes 8 (get_vstack_entry prev) @ bs)"
    by (rule stored_same [OF _ p(1)]) (use 2(2,4) in auto)
  moreover have "hp_blocks h' e = hp_blocks h e" by (rule 2(3) [of e bs]) simp
  ultimately show ?case using 2(2) by auto
qed simp

lemma vstack_rep_fresh:
  assumes "vstack_rep h vstack xs" "fresh_block h p n" "(e, bs) \<in> set xs"
  shows "e \<noteq> p" "apart p n e (8 + length bs)" "unat (a - e) < 8 + length bs \<Longrightarrow> \<not> unat (a - p) < n"
  using vstack_rep_blocks [OF assms(1,3)] assms(2) by (auto simp: fresh_block_def apart_def)

lemma push_rep:
  assumes "vstack_rep h vstack xs" "fresh_block h p (8 + length bs)" "length bs < 2 ^ 63"
  shows "vstack_rep (h\<lparr>hp_mem := overwrite (hp_mem h) p (word_bytes 8 (get_vstack_entry vstack) @ bs),
      hp_blocks := (hp_blocks h)(p \<mapsto> 8 + length bs)\<rparr>) (set_vstack_entry p) ((p, bs) # xs)"
    (is "vstack_rep ?h' _ _")
proof -
  note f = vstack_rep_fresh [OF assms(1,2)]
  have "vstack_rep ?h' vstack xs"
  proof (rule vstack_rep_frame [OF assms(1)])
    fix e bs' a
    assume e: "(e, bs') \<in> set xs"
    show "hp_blocks ?h' e = hp_blocks h e" using f(1) [OF e] by simp
    assume "unat (a - e) < 8 + length bs'"
    then show "hp_mem ?h' a = hp_mem h a" using f(3) [OF e] by (simp add: overwrite_def)
  qed
  moreover have "stored (hp_mem ?h') p (word_bytes 8 (get_vstack_entry vstack) @ bs)"
    using stored_overwrite [of "word_bytes 8 (get_vstack_entry vstack) @ bs" "hp_mem h" p] assms(3) by simp
  ultimately show ?thesis using f(1,2) assms(2,3) by (fastforce simp: set_vstack_entry_def fresh_block_def)
qed

lemma vstack_size_nonneg:
  assumes "unat sz < 2 ^ 31"
  shows "unat (scast sz :: addr) = unat sz" "vstack_size sz = 8 + unat sz"
proof -
  have "signed_take_bit 31 (uint sz) = uint sz"
  proof (rule signed_take_bit_int_eq_self)
    show "- (2 ^ 31) \<le> uint sz" by (rule order_trans [OF _ uint_ge_0]) simp
    show "uint sz < 2 ^ 31" using assms by (simp only: unat_eq_nat_uint nat_less_iff [OF uint_ge_0] of_nat_numeral of_nat_power)
  qed
  then have "sint sz = int (unat sz)" by (simp add: sint_uint)
  then have "(scast sz :: addr) = of_nat (unat sz)" by (simp only: scast_eq of_int_of_nat_eq)
  moreover have "unat (of_nat (unat sz) :: addr) = unat sz"
    using assms by (simp only: unat_of_nat) (rule mod_less, simp)
  ultimately show u: "unat (scast sz :: addr) = unat sz" by (simp only:)
  show "vstack_size sz = 8 + unat sz" using assms by (simp add: vstack_size_def unat_word_ariths u)
qed

text \<open>
  C32. Pushing data refines the insertion of a block at the front of the list the stack represents, for
  every size that is not negative and data that is in memory: the data is where the stack
  pointer points to, no byte and no block outside the new one changes, and a
  following pop gives back the heap and the stack pointer as they were.
\<close>

theorem vstack_push_refines:
  assumes "vstack_rep h vstack xs" "unat sz < 2 ^ 31" "bytes_at (hp_mem h) data (unat sz) = Some bs"
    and "fresh_block h p (vstack_size sz)" "length junk = vstack_size sz"
  shows "\<exists>h'. vstack_push p junk data sz (h, vstack) = Inr (h', p + 8) \<and>
    vstack_rep h' (p + 8) ((p, bs) # xs) \<and> stored (hp_mem h') (p + 8) bs \<and>
    (\<forall>a. vstack_size sz \<le> unat (a - p) \<longrightarrow> hp_mem h' a = hp_mem h a) \<and>
    hp_blocks h' = (hp_blocks h)(p \<mapsto> vstack_size sz) \<and>
    vstack_pop (h', p + 8) = Inr (h, vstack)"
proof -
  note size = vstack_size_nonneg [OF assms(2)]
  have len: "length bs = unat sz" and st: "stored (hp_mem h) data bs"
    using assms(3) by (simp_all add: bytes_at_stored)
  let ?a = "word_bytes 8 (get_vstack_entry vstack)"
  have fresh: "fresh_block h p (length ?a + length bs)" "length junk = length ?a + length bs"
    "length ?a + length bs < 2 ^ 64" "length bs < 2 ^ 63"
    using assms(2,4,5) by (simp_all add: size len)
  let ?h = "h\<lparr>hp_mem := overwrite (hp_mem h) p (?a @ bs), hp_blocks := (hp_blocks h)(p \<mapsto> 8 + length bs)\<rparr>"
  note fill = fill_block [OF fresh(1-3)]
  have d: "bytes_at (overwrite (hp_mem (malloc_block p junk h)) p ?a) data (unat sz) = Some bs"
    using fill(3) [OF st] by (simp add: bytes_at_stored len)
  have push: "vstack_push p junk data sz (h, vstack) = Inr (?h, p + 8)"
    using fill(1,2) fresh(2) d by (simp add: vstack_push_def size len set_vstack_entry_def)
  have rep: "vstack_rep ?h (p + 8) ((p, bs) # xs)"
    using push_rep [OF assms(1) _ fresh(4), of p] fresh(1) by (simp add: set_vstack_entry_def)
  have s: "stored (hp_mem ?h) p (?a @ bs)"
    using stored_overwrite [of "?a @ bs" "hp_mem h" p] fresh(3) by simp
  have "unmap (hp_mem ?h) p (8 + length bs) = hp_mem h"
    using unmap_overwrite [of p "?a @ bs" "hp_mem h"] fresh(1) by (simp add: fresh_block_def)
  moreover have "(hp_blocks ?h)(p := None) = hp_blocks h" using fresh(1) by (simp add: fresh_block_def fun_upd_idem)
  moreover have "bytes_at (hp_mem ?h) p 8 = Some ?a" using s by (simp add: bytes_at_stored)
  ultimately have pop: "vstack_pop (?h, p + 8) = Inr (h, vstack)"
    using fresh(1) le_word_bytes [of 8 "get_vstack_entry vstack"]
    by (simp add: vstack_pop_def get_vstack_entry_def set_vstack_entry_def free_block_def fresh_block_def
        take_bit_word_eq_self)
  show ?thesis
    using s by (intro exI [of _ ?h] conjI push rep pop) (simp_all add: overwrite_def size len)
qed

definition empty_heap :: rt_heap where
  "empty_heap = \<lparr>hp_mem = memory_of 0x500 [72, 105], hp_blocks = (\<lambda>_. None), hp_exns = (\<lambda>_. None)\<rparr>"

lemma empty_heap_bytes: "bytes_at (hp_mem empty_heap) 0x500 (unat (2 :: 32 word)) = Some [72, 105]"
proof -
  have "bytes_at (memory_of 0x500 [72, 105]) 0x500 2 = Some [72, 105]" by code_simp
  then show ?thesis by (simp add: empty_heap_def)
qed

lemma empty_heap_fresh: "fresh_block empty_heap 0x1000 10"
proof -
  have "hp_mem empty_heap a = None" if "unat (a - 0x1000) < 10" for a
  proof -
    define i where "i = unat (a - 0x1000)"
    have "a = 0x1000 + of_nat i" "i < 10" using that by (simp_all add: i_def)
    then have "unat (a - 0x500) = 0xB00 + i" by (simp add: unat_word_ariths unat_of_nat)
    then show ?thesis by (simp add: empty_heap_def memory_of_def)
  qed
  then show ?thesis by (simp add: fresh_block_def) (simp add: empty_heap_def)
qed

lemma fresh_block_less: "fresh_block h p n \<Longrightarrow> k \<le> n \<Longrightarrow> fresh_block h p k"
  by (auto simp: fresh_block_def)

theorem vstack_push_refines_witness:
  "\<exists>h'. vstack_push 0x1000 (replicate 10 0) 0x500 2 (empty_heap, 0) = Inr (h', 0x1008) \<and>
     stored (hp_mem h') 0x1008 [72, 105] \<and> vstack_pop (h', 0x1008) = Inr (empty_heap, 0)"
proof -
  have "unat (2 :: 32 word) < 2 ^ 31" by simp
  note size = vstack_size_nonneg(2) [OF this]
  show ?thesis
    using vstack_push_refines [OF _ _ empty_heap_bytes, of 0 "[]" "0x1000" "replicate 10 0"] empty_heap_fresh
    by (auto simp: size)
qed

text \<open>
  Popping the stack refines the removal of the first block of the list it represents; the block is
  freed and nothing else changes.
\<close>

theorem vstack_pop_refines:
  assumes "vstack_rep h vstack ((e, bs) # xs)"
  shows "\<exists>h' vstack'. vstack_pop (h, vstack) = Inr (h', vstack') \<and> vstack_rep h' vstack' xs \<and>
    hp_blocks h' = (hp_blocks h)(e := None) \<and>
    (\<forall>a. 8 + length bs \<le> unat (a - e) \<longrightarrow> hp_mem h' a = hp_mem h a)"
proof -
  obtain prev where v: "vstack = e + 8" "e \<noteq> 0" and b: "hp_blocks h e = Some (8 + length bs)"
    and d: "\<And>e' bs'. (e', bs') \<in> set xs \<Longrightarrow> e' \<noteq> e \<and> apart e (8 + length bs) e' (8 + length bs')"
    and st: "stored (hp_mem h) e (word_bytes 8 (get_vstack_entry prev) @ bs)" and rep: "vstack_rep h prev xs"
    using assms by auto
  let ?h = "h\<lparr>hp_mem := unmap (hp_mem h) e (8 + length bs), hp_blocks := (hp_blocks h)(e := None)\<rparr>"
  have "bytes_at (hp_mem h) e 8 = Some (word_bytes 8 (get_vstack_entry prev))"
    using st by (simp add: bytes_at_stored)
  then have pop: "vstack_pop (h, vstack) = Inr (?h, prev)"
    using v b le_word_bytes [of 8 "get_vstack_entry prev"]
    by (simp add: vstack_pop_def get_vstack_entry_def set_vstack_entry_def free_block_def take_bit_word_eq_self)
  have "vstack_rep ?h prev xs"
  proof (rule vstack_rep_frame [OF rep])
    fix e' bs' a
    assume e: "(e', bs') \<in> set xs"
    show "hp_blocks ?h e' = hp_blocks h e'" using d [OF e] by simp
    assume "unat (a - e') < 8 + length bs'"
    then show "hp_mem ?h a = hp_mem h a" using d [OF e] by (auto simp: unmap_def apart_def)
  qed
  then show ?thesis using pop by (intro exI [of _ ?h] exI [of _ prev]) (simp add: unmap_def)
qed

theorem vstack_pop_refines_witness:
  "\<exists>h'. vstack_pop (empty_heap\<lparr>hp_mem := overwrite (hp_mem empty_heap) 0x1000 (word_bytes 8 (- 8) @ [72, 105]),
     hp_blocks := (hp_blocks empty_heap)(0x1000 \<mapsto> 10)\<rparr>, 0x1008) = Inr (h', 0) \<and> hp_blocks h' 0x1000 = None"
proof -
  have "vstack_rep (empty_heap\<lparr>hp_mem := overwrite (hp_mem empty_heap) 0x1000 (word_bytes 8 (- 8) @ [72, 105]),
     hp_blocks := (hp_blocks empty_heap)(0x1000 \<mapsto> 10)\<rparr>) 0x1008 [(0x1000, [72, 105])]"
    using push_rep [of empty_heap 0 "[]" "0x1000" "[72, 105]"] empty_heap_fresh
    by (simp add: get_vstack_entry_def set_vstack_entry_def)
  from vstack_pop_refines [OF this] show ?thesis by auto
qed

section \<open>Exceptions are disposed of\<close>

text \<open>
  An exception raised with a message of a length below the greatest number of 32 bits holds a copy
  of the message, closed by a zero, and when the handler disposes of it all that was
  allocated for it is freed and the heap is as before.
\<close>

theorem comma_raise_nexception_cleanup:
  assumes "bytes_at (hp_mem h) message (unat len) = Some bs" "message \<noteq> 0" "len \<noteq> - 1"
    and "p \<noteq> 0" "hp_blocks h p = None" "hp_exns h p = None"
    and "fresh_block h q (unat len + 1)" "q \<noteq> p" "length junk = unat len + 1"
  shows "\<exists>h'. comma_raise_nexception off exnSize p q junk info file line message len h = Inr (p + off, h') \<and>
    hp_exns h' p = Some \<lparr>exn_id = info, exn_file_name = file, exn_line_number = line, exn_message = q,
      exn_flags = COMMA_DYN_MESSAGE, exn_class = Comma_Exception_Class_ID\<rparr> \<and>
    stored (hp_mem h') q (bs @ [0]) \<and> comma_cleanup_exception off (p + off) h' = Inr h"
proof -
  let ?obj = "\<lparr>exn_id = info, exn_file_name = file, exn_line_number = line, exn_message = q,
      exn_flags = COMMA_DYN_MESSAGE, exn_class = Comma_Exception_Class_ID\<rparr>"
  let ?h1 = "h\<lparr>hp_blocks := (hp_blocks h)(p \<mapsto> exnSize), hp_exns := (hp_exns h)(p \<mapsto> ?obj)\<rparr>"
  let ?h = "?h1\<lparr>hp_mem := overwrite (hp_mem h) q (bs @ [0]), hp_blocks := (hp_blocks ?h1)(q \<mapsto> unat len + 1)\<rparr>"
  have len: "length bs = unat len" and st: "stored (hp_mem h) message bs"
    using assms(1) by (simp_all add: bytes_at_stored)
  have "1 + len \<noteq> 0" using assms(3) by (simp add: add_eq_0_iff)
  then have "unat (len + 1) = unat len + 1" using unatSuc [of len] by (simp add: add.commute)
  then have l: "take (unat (len + 1)) junk = junk" "length junk = length bs + length [0 :: byte]"
    using assms(9) by (simp_all add: len)
  have f: "fresh_block ?h1 q (length bs + length [0 :: byte])" "length bs + length [0 :: byte] < 2 ^ 64"
    using assms(7-9) unsigned_less [of len, where ?'a = nat] by (simp_all add: len fresh_block_def)
  note fill = fill_block [OF f(1) l(2) f(2)]
  have "stored (hp_mem (malloc_block q junk ?h1)) message bs"
    using malloc_stored [of ?h1 q junk message bs] f(1) st by (simp add: l)
  then have m: "bytes_at (hp_mem (malloc_block q junk ?h1)) message (unat len) = Some bs"
    by (simp add: bytes_at_stored len)
  have u: "(of_nat (length bs) :: addr) = ucast len" by (simp add: len)
  have copy: "copy_message q junk message len ?h1 = Inr ?h"
    using fill(1,2) unfolding u by (simp add: copy_message_def l m len)
  have "unmap (overwrite (hp_mem h) q (bs @ [0])) q (unat len + 1) = hp_mem h"
    using unmap_overwrite [of q "bs @ [0]" "hp_mem h"] assms(7) by (simp add: fresh_block_def len)
  moreover have "(hp_blocks ?h)(q := None, p := None) = hp_blocks h"
    using assms(5,7,8) by (auto simp: fresh_block_def)
  moreover have "(hp_exns ?h)(p := None) = hp_exns h" using assms(6) by auto
  ultimately have "comma_cleanup_exception off (p + off) ?h = Inr h"
    using assms(7,8)
    by (simp add: comma_cleanup_exception_def to_comma_exception_def free_block_def fresh_block_def COMMA_DYN_MESSAGE_def)
  moreover have "stored (hp_mem ?h) q (bs @ [0])"
    using stored_overwrite [of "bs @ [0]" "hp_mem h" q] f(2) by simp
  moreover have "comma_raise_nexception off exnSize p q junk info file line message len h = Inr (p + off, ?h)"
    using copy assms(2,4) by (simp add: comma_raise_nexception_def new_exception_def to_Unwind_Exception_def)
  ultimately show ?thesis by (intro exI [of _ ?h] conjI) simp_all
qed

theorem comma_raise_nexception_cleanup_witness:
  "\<exists>h'. comma_raise_nexception 48 80 0x2000 0x1000 [1, 2, 3] 0x9000 0x600 7 0x500 2 empty_heap = Inr (0x2030, h') \<and>
     stored (hp_mem h') 0x1000 [72, 105, 0] \<and> comma_cleanup_exception 48 0x2030 h' = Inr empty_heap"
proof -
  have "bytes_at (hp_mem empty_heap) 0x500 (unat (2 :: 32 word)) = Some [72, 105]" by (rule empty_heap_bytes)
  moreover have "fresh_block empty_heap 0x1000 (unat (2 :: 32 word) + 1)"
    by (rule fresh_block_less [OF empty_heap_fresh]) simp
  ultimately show ?thesis
    using comma_raise_nexception_cleanup [of empty_heap "0x500" 2 "[72, 105]" "0x2000" "0x1000" "[1, 2, 3]" 48 80 "0x9000" "0x600" 7]
    by (auto simp: empty_heap_def)
qed

lemma pow_loop_power:
  assumes "\<And>k. 1 < k \<Longrightarrow> k \<le> i + unat n \<Longrightarrow> fits (x ^ k)" "0 < unat n" "res = x ^ (i + 1)" 
  shows "pow_loop fits x n res = Some (x ^ (i + unat n))"
  using assms
proof (induction fits x n res arbitrary: i rule: pow_loop.induct)
  case (1 fits x n res)
  show ?case
  proof (cases "n - 1 = 0")
    case True
    then have "n = 1" by simp
    then show ?thesis using 1(4) by (subst pow_loop.simps) simp
  next
    case False
    have "unat (n - 1) = unat n - 1" using 1(3) unfolding unat_gt_0 by (rule unat_minus_one)
    moreover have "unat (n - 1) \<noteq> 0" using False unfolding unat_0_iff .
    ultimately have n: "unat n = Suc (unat (n - 1))" "0 < unat (n - 1)" using 1(3) by linarith+
    have r: "res * x = x ^ (i + 1 + 1)" using 1(4) by simp
    have f: "fits (res * x)" unfolding r by (rule 1(2)) (use n in simp_all)
    have "pow_loop fits x (n - 1) (res * x) = Some (x ^ (i + 1 + unat (n - 1)))"
      by (rule 1(1) [OF False f]) (use 1(2) n r in simp_all)
    then show ?thesis using False f by (subst pow_loop.simps) (simp add: n(1))
  qed
qed

lemma power_abs_mono:
  fixes x :: int
  assumes "1 < k" "k < n"
  shows "x ^ k = x ^ n \<or> \<bar>x ^ k\<bar> < \<bar>x ^ n\<bar> \<or> \<bar>x ^ k\<bar> \<le> 1"
proof (cases "\<bar>x\<bar> \<le> 1")
  case True
  then have "x = 0 \<or> x = 1 \<or> x = - 1" by linarith
  moreover have "\<bar>(0 :: int) ^ k\<bar> \<le> 1" by (cases k) simp_all
  ultimately show ?thesis by (elim disjE) (simp_all add: power_abs)
next
  case False
  then have "\<bar>x\<bar> ^ k < \<bar>x\<bar> ^ n" using assms by (intro power_strict_increasing) auto
  then show ?thesis by (simp add: power_abs)
qed

text \<open>
  A power with a positive exponent whose value fits is computed without an overflow on the way, and is the
  power; the answer for the exponent 0 is 0 for every base.
\<close>

theorem comma_pow_correct:
  "(0 < unat n \<and> fits32 (sint x ^ unat n) \<longrightarrow> comma_pow_i32_i32 x n = Some (sint x ^ unat n)) \<and>
   (0 < unat n \<and> fits64 (sint y ^ unat n) \<longrightarrow> comma_pow_i64_i32 y n = Some (sint y ^ unat n)) \<and>
   comma_pow_i32_i32 x 0 = Some 0 \<and> comma_pow_i64_i32 y 0 = Some 0"
proof -
  have f: "fits z" if "fits = fits32 \<or> fits = fits64" "fits w" "z = w \<or> \<bar>z\<bar> < \<bar>w\<bar> \<or> \<bar>z\<bar> \<le> 1" for z w :: int and fits
    using that by (auto simp: fits32_def fits64_def)
  have p: "pow_loop fits z n z = Some (z ^ unat n)"
    if "fits = fits32 \<or> fits = fits64" "0 < unat n" "fits (z ^ unat n)" for fits z
  proof -
    have "fits (z ^ k)" if "1 < k" "k \<le> unat n" for k
      by (rule f [OF \<open>fits = fits32 \<or> fits = fits64\<close> \<open>fits (z ^ unat n)\<close>])
        (use power_abs_mono [OF that(1), of "unat n" z] that(2) in \<open>cases "k = unat n", auto\<close>)
    then show ?thesis using pow_loop_power [of 0 n fits z z] that(2) by simp
  qed
  have "n \<noteq> 0" if "0 < unat n" using that unfolding unat_gt_0 .
  then show ?thesis using p by (auto simp: comma_pow_i32_i32_def comma_pow_i64_i32_def)
qed

theorem comma_pow_correct_witness:
  "comma_pow_i32_i32 (- 3) 5 = Some (- 243)"
proof -
  have "sint (- 3 :: 32 word) = - 3" "unat (5 :: 32 word) = 5" by simp_all
  then show ?thesis using comma_pow_correct [of 5 "- 3" 0] by (simp add: fits32_def)
qed

end
