(* ===== verification/SourceManager.thy ===== *)
theory SourceManager
  imports
    Scanner
begin

text \<open>
  The source manager of the driver (\<^verbatim>\<open>tools/driver/SourceManager.cpp\<close>) and the order in which
  \<^verbatim>\<open>tools/driver/driver.cpp\<close> compiles the sources.

  A source item is an index into the list of all items; the tables map file names and canonical
  base names.  The directory, the base name of a path and the dependency parser's
  answer on a file (the entries in the order of the set it fills, or nothing when the parse
  failed) are arguments.  Recursion over the dependencies has fuel, and \<open>None\<close> is its end.
\<close>

section \<open>State\<close>

record source_item =
  si_path :: string
  si_dependents :: "nat list"
  si_cunit :: "string list option"

datatype sm_event =
    UnitResolutionFailed location string
  | CircularDependency "(nat \<times> nat) list"
  | NoUnitNamed nat string

record source_manager =
  sm_paths :: "string \<Rightarrow> string option"
  sm_sources :: "string \<Rightarrow> nat option"
  sm_items :: "source_item list"
  sm_cycle :: "nat list"
  sm_events :: "sm_event list"

type_synonym dep_reader = "string \<Rightarrow> (location \<times> string) list option"

definition canonical :: "string \<Rightarrow> string" where
  "canonical s = map tolower s"

text \<open>The table of paths: an entry with the key of an earlier one is not inserted.\<close>

definition insertPath :: "(string \<Rightarrow> string) \<Rightarrow> (string \<Rightarrow> string) \<Rightarrow> string \<Rightarrow> (string \<Rightarrow> string option)
    \<Rightarrow> string \<Rightarrow> string option" where
  "insertPath extension basename path table =
     (if extension path = ''cms'' then
        let key = canonical (basename path) in
        if table key = None then table(key \<mapsto> path) else table
      else table)"

definition newSourceManager :: "(string \<Rightarrow> string) \<Rightarrow> (string \<Rightarrow> string) \<Rightarrow> string list \<Rightarrow> source_manager" where
  "newSourceManager extension basename listing =
     \<lparr>sm_paths = fold (insertPath extension basename) listing (\<lambda>_. None), sm_sources = (\<lambda>_. None),
      sm_items = [], sm_cycle = [], sm_events = []\<rparr>"

definition dependents :: "source_manager \<Rightarrow> nat \<Rightarrow> nat list" where
  "dependents m i = si_dependents (sm_items m ! i)"

definition addDependency :: "nat \<Rightarrow> nat \<Rightarrow> source_manager \<Rightarrow> source_manager" where
  "addDependency i d m =
     m\<lparr>sm_items := (sm_items m)[i := (sm_items m ! i)\<lparr>si_dependents := dependents m i @ [d]\<rparr>]\<rparr>"

definition smReport :: "sm_event \<Rightarrow> source_manager \<Rightarrow> source_manager" where
  "smReport e m = m\<lparr>sm_events := sm_events m @ [e]\<rparr>"

section \<open>Operations\<close>

definition getOrCreateSourceItem :: "string \<Rightarrow> source_manager \<Rightarrow> nat \<times> source_manager" where
  "getOrCreateSourceItem path m =
     (case sm_sources m path of
        Some i \<Rightarrow> (i, m)
      | None \<Rightarrow>
          let i = length (sm_items m) in
          (i, m\<lparr>sm_items := sm_items m @ [\<lparr>si_path = path, si_dependents = [], si_cunit = None\<rparr>],
             sm_sources := (sm_sources m)(path \<mapsto> i)\<rparr>))"

text \<open>The loop over the entries of the set.\<close>

fun locateDependencies :: "nat \<Rightarrow> (location \<times> string) list \<Rightarrow> source_manager \<Rightarrow> bool \<times> source_manager" where
  "locateDependencies i [] m = (True, m)"
| "locateDependencies i ((loc, name) # deps) m =
     (let target = canonical name in
      case sm_paths m target of
        None \<Rightarrow> (False, smReport (UnitResolutionFailed loc target) m)
      | Some path \<Rightarrow>
          let (d, m1) = getOrCreateSourceItem path m in
          locateDependencies i deps (addDependency i d m1))"

definition loadDependencies :: "dep_reader \<Rightarrow> nat \<Rightarrow> source_manager \<Rightarrow> bool \<times> source_manager" where
  "loadDependencies rd i m =
     (if dependents m i \<noteq> [] then (True, m)
      else case rd (si_path (sm_items m ! i)) of
        None \<Rightarrow> (False, m)
      | Some deps \<Rightarrow> locateDependencies i deps m)"

text \<open>
  The insertion of a cycle entry and its removal by the destructor, or before it by the last statement of the
  loop.  The circular dependency is printed as pairs of items, from the place of the repeated one on.
\<close>

definition pushCycle :: "nat \<Rightarrow> source_manager \<Rightarrow> source_manager" where
  "pushCycle i m = m\<lparr>sm_cycle := sm_cycle m @ [i]\<rparr>"

definition removeCycle :: "nat \<Rightarrow> source_manager \<Rightarrow> source_manager" where
  "removeCycle i m = m\<lparr>sm_cycle := remove1 i (sm_cycle m)\<rparr>"

definition reportCycleDependencies :: "nat \<Rightarrow> source_manager \<Rightarrow> source_manager" where
  "reportCycleDependencies i m =
     (let c = dropWhile (\<lambda>j. j \<noteq> i) (sm_cycle m) in
      smReport (CircularDependency (zip c (tl c @ [i]))) m)"

function (sequential) loadSubDependencies ::
  "dep_reader \<Rightarrow> nat \<Rightarrow> nat list \<Rightarrow> source_manager \<Rightarrow> (bool \<times> source_manager) option" where
  "loadSubDependencies rd fuel [] m = Some (True, m)"
| "loadSubDependencies rd fuel (d # ds) m =
     (if d \<in> set (sm_cycle m) then Some (False, reportCycleDependencies d m)
      else case fuel of
        0 \<Rightarrow> None
      | Suc k \<Rightarrow>
          (case loadDependencies rd d (pushCycle d m) of
             (False, m1) \<Rightarrow> Some (False, removeCycle d m1)
           | (True, m1) \<Rightarrow>
               (case loadSubDependencies rd k (dependents m1 d) m1 of
                  None \<Rightarrow> None
                | Some (False, m2) \<Rightarrow> Some (False, removeCycle d m2)
                | Some (True, m2) \<Rightarrow> loadSubDependencies rd fuel ds (removeCycle d m2))))"
  by pat_completeness auto
termination
  by (relation "measures [\<lambda>(rd, fuel, ds, m). fuel, \<lambda>(rd, fuel, ds, m). length ds]") auto

definition processDependencies :: "dep_reader \<Rightarrow> nat \<Rightarrow> nat \<Rightarrow> source_manager \<Rightarrow> (bool \<times> source_manager) option" where
  "processDependencies rd fuel i m =
     (case loadDependencies rd i (pushCycle i m) of
        (False, m1) \<Rightarrow> Some (False, removeCycle i m1)
      | (True, m1) \<Rightarrow> map_option (\<lambda>(ok, m2). (ok, removeCycle i m2)) (loadSubDependencies rd fuel (dependents m1 i) m1))"

definition getSourceItem :: "dep_reader \<Rightarrow> nat \<Rightarrow> string \<Rightarrow> source_manager \<Rightarrow> (nat option \<times> source_manager) option" where
  "getSourceItem rd fuel path m =
     (let (i, m1) = getOrCreateSourceItem path m in
      if dependents m1 i = [] then
        map_option (\<lambda>(ok, m2). (if ok then Some i else None, m2)) (processDependencies rd fuel i m1)
      else Some (Some i, m1))"

section \<open>The order of the sources\<close>

text \<open>The set with the order of insertion; an element that is there is removed first.\<close>

definition moveToEnd :: "nat \<Rightarrow> nat list \<Rightarrow> nat list" where
  "moveToEnd d sources = (if d \<in> set sources then remove1 d sources else sources) @ [d]"

function (sequential) insertDependencies ::
  "(nat \<Rightarrow> nat list) \<Rightarrow> nat \<Rightarrow> nat list \<Rightarrow> nat list \<Rightarrow> nat list option" where
  "insertDependencies dep fuel [] sources = Some sources"
| "insertDependencies dep 0 (d # ds) sources = None"
| "insertDependencies dep (Suc k) (d # ds) sources =
     (case insertDependencies dep k (dep d) (moveToEnd d sources) of
        None \<Rightarrow> None
      | Some sources1 \<Rightarrow> insertDependencies dep (Suc k) ds sources1)"
  by pat_completeness auto
termination
  by (relation "measures [\<lambda>(dep, fuel, ds, s). fuel, \<lambda>(dep, fuel, ds, s). length ds]") auto

definition extractDependencies :: "source_manager \<Rightarrow> nat \<Rightarrow> nat \<Rightarrow> nat list option" where
  "extractDependencies m fuel i = insertDependencies (dependents m) fuel (dependents m i) [i]"

section \<open>Compilation\<close>

text \<open>
  What happens to one source: \<open>compile\<close> stands for the parser, the type checker and the code
  generator on the item with the principal declarations of its dependencies; it answers the names of the declared
  units, or nothing when an error was reported or the generator failed.  A missing compilation unit of
  a dependency is a failed \<^verbatim>\<open>assert\<close>.
\<close>

datatype drive_result = DependencyNotResolved | Compiled bool

definition findPrincipleDeclaration ::
  "(string \<Rightarrow> string) \<Rightarrow> nat \<Rightarrow> source_manager \<Rightarrow> (string option \<times> source_manager) option" where
  "findPrincipleDeclaration basename i m =
     (case si_cunit (sm_items m ! i) of
        None \<Rightarrow> None
      | Some decls \<Rightarrow>
          let target = canonical (basename (si_path (sm_items m ! i))) in
          (case find (\<lambda>name. canonical name = target) decls of
             Some name \<Rightarrow> Some (Some name, m)
           | None \<Rightarrow> Some (None, smReport (NoUnitNamed i target) m)))"

fun principleDeclarations ::
  "(string \<Rightarrow> string) \<Rightarrow> nat list \<Rightarrow> source_manager \<Rightarrow> ((nat \<times> string) list option \<times> source_manager) option" where
  "principleDeclarations basename [] m = Some (Some [], m)"
| "principleDeclarations basename (d # ds) m =
     (case findPrincipleDeclaration basename d m of
        None \<Rightarrow> None
      | Some (None, m1) \<Rightarrow> Some (None, m1)
      | Some (Some name, m1) \<Rightarrow>
          (case principleDeclarations basename ds m1 of
             None \<Rightarrow> None
           | Some (None, m2) \<Rightarrow> Some (None, m2)
           | Some (Some names, m2) \<Rightarrow> Some (Some ((d, name) # names), m2)))"

definition setCompilation :: "nat \<Rightarrow> string list \<Rightarrow> source_manager \<Rightarrow> source_manager" where
  "setCompilation i decls m = m\<lparr>sm_items := (sm_items m)[i := (sm_items m ! i)\<lparr>si_cunit := Some decls\<rparr>]\<rparr>"

fun compileItems ::
  "(string \<Rightarrow> string) \<Rightarrow> (string \<Rightarrow> (nat \<times> string) list \<Rightarrow> string list option) \<Rightarrow> nat list \<Rightarrow> source_manager
     \<Rightarrow> drive_result \<times> source_manager" where
  "compileItems basename compile [] m = (Compiled True, m)"
| "compileItems basename compile (i # is) m =
     (case principleDeclarations basename (dependents m i) m of
        None \<Rightarrow> (DependencyNotResolved, m)
      | Some (None, m1) \<Rightarrow> (Compiled False, m1)
      | Some (Some names, m1) \<Rightarrow>
          (case compile (si_path (sm_items m1 ! i)) names of
             None \<Rightarrow> (Compiled False, m1)
           | Some decls \<Rightarrow> compileItems basename compile is (setCompilation i decls m1)))"

definition compileSourceItem ::
  "(string \<Rightarrow> string) \<Rightarrow> (string \<Rightarrow> (nat \<times> string) list \<Rightarrow> string list option) \<Rightarrow> nat \<Rightarrow> nat \<Rightarrow> source_manager
     \<Rightarrow> (drive_result \<times> source_manager) option" where
  "compileSourceItem basename compile fuel root m =
     map_option (\<lambda>items. compileItems basename compile (rev items) m) (extractDependencies m fuel root)"

section \<open>The walk over the dependencies\<close>

text \<open>
  The sequence in which the sources are inserted, and the result of the insertions: every source
  is at the place of its last insertion.
\<close>

function (sequential) walk :: "(nat \<Rightarrow> nat list) \<Rightarrow> nat \<Rightarrow> nat list \<Rightarrow> nat list option" where
  "walk dep fuel [] = Some []"
| "walk dep 0 (d # ds) = None"
| "walk dep (Suc k) (d # ds) =
     (case walk dep k (dep d) of
        None \<Rightarrow> None
      | Some T \<Rightarrow> map_option (\<lambda>U. d # T @ U) (walk dep (Suc k) ds))"
  by pat_completeness auto
termination
  by (relation "measures [\<lambda>(dep, fuel, ds). fuel, \<lambda>(dep, fuel, ds). length ds]") auto

lemma remdups_append: "remdups (xs @ ys) = filter (\<lambda>x. x \<notin> set ys) (remdups xs) @ remdups ys"
  by (induction xs) auto

lemma remdups_remdups_append: "remdups (remdups xs @ ys) = remdups (xs @ ys)"
  by (simp add: remdups_append distinct_remdups_id)

lemma moveToEnd_remdups: "distinct s \<Longrightarrow> moveToEnd d s = remdups (s @ [d])"
  by (auto simp: moveToEnd_def remdups_append distinct_remove1_removeAll removeAll_filter_not_eq
      distinct_remdups_id intro!: filter_cong filter_True [symmetric])

lemma insertDependencies_walk:
  "distinct s \<Longrightarrow> insertDependencies dep fuel ds s = map_option (\<lambda>T. remdups (s @ T)) (walk dep fuel ds)"
proof (induction dep fuel ds s rule: insertDependencies.induct)
  case (3 dep k d ds s)
  show ?case
  proof (cases "walk dep k (dep d)")
    case None
    then show ?thesis using 3 by (simp add: moveToEnd_remdups)
  next
    case (Some T)
    have "insertDependencies dep k (dep d) (moveToEnd d s) = Some (remdups (s @ d # T))"
      using 3(1) Some 3(3) by (simp add: moveToEnd_remdups remdups_remdups_append)
    moreover have "insertDependencies dep (Suc k) ds (remdups (s @ d # T)) =
        map_option (\<lambda>U. remdups (remdups (s @ d # T) @ U)) (walk dep (Suc k) ds)"
      by (rule 3(2) [OF calculation]) simp
    ultimately show ?thesis
      using remdups_remdups_append [of "s @ d # T"] by (simp add: Some option.map_comp comp_def)
  qed
qed (simp_all add: distinct_remdups_id)

text \<open>A finished walk is closed under dependencies, and each of them follows its source.\<close>

lemma walk_start: "walk dep k ds = Some T \<Longrightarrow> set ds \<subseteq> set T"
  by (induction dep k ds arbitrary: T rule: walk.induct) (fastforce split: option.splits)+

lemma walk_follows:
  "walk dep k ds = Some T \<Longrightarrow> T = us @ x # vs \<Longrightarrow> set (dep x) \<subseteq> set vs \<and> (\<exists>j < k. \<exists>U. walk dep j (dep x) = Some U)"
proof (induction dep k ds arbitrary: T us vs rule: walk.induct)
  case (3 dep k d ds)
  obtain S U where w: "walk dep k (dep d) = Some S" "walk dep (Suc k) ds = Some U" "T = d # S @ U"
    using 3(3) by (auto split: option.splits)
  consider "us = []" "x = d" "vs = S @ U"
    | us' where "us = d # us'" "us' @ x # vs = S @ U"
    using 3(4) w(3) by (cases us) auto
  then show ?case
  proof cases
    case 1
    then show ?thesis using walk_start [OF w(1)] w(1) by auto
  next
    case (2 us')
    then consider vs' where "S = us' @ x # vs'" "vs = vs' @ U" | us'' where "U = us'' @ x # vs"
      by (auto simp: append_eq_append_conv2 Cons_eq_append_conv)
    then show ?thesis
    proof cases
      case 1
      then show ?thesis using 3(1) [OF w(1) 1(1)] by (auto intro: less_SucI)
    next
      case 2
      then show ?thesis using 3(2) [OF w(1) w(2)] by simp
    qed
  qed
qed simp_all

lemma walk_step: "walk dep k ds = Some T \<Longrightarrow> x \<in> set T \<Longrightarrow> y \<in> set (dep x) \<Longrightarrow> y \<in> set T"
  using walk_follows [of dep k ds T _ x] by (fastforce dest: split_list)

lemma walk_cong:
  "walk dep k ds = Some T \<Longrightarrow> (\<And>x. x \<in> set T \<Longrightarrow> dep' x = dep x) \<Longrightarrow> walk dep' k ds = Some T"
  by (induction dep k ds arbitrary: T rule: walk.induct) (auto split: option.splits)

definition edge :: "(nat \<Rightarrow> nat list) \<Rightarrow> nat \<Rightarrow> nat \<Rightarrow> bool" where
  "edge dep x y \<longleftrightarrow> y \<in> set (dep x)"

lemma walk_reaches:
  assumes "walk dep k (dep x) = Some T" "(edge dep)\<^sup>+\<^sup>+ x y"
  shows "y \<in> set T"
  using assms(2)
proof (induction rule: tranclp_induct)
  case (base y)
  then show ?case using walk_start [OF assms(1)] by (auto simp: edge_def)
next
  case (step y z)
  then obtain us vs where "T = us @ y # vs" by (meson split_list)
  then show ?case using walk_follows [OF assms(1)] step(2) by (auto simp: edge_def)
qed

lemma walk_reached: "walk dep k (dep x) = Some T \<Longrightarrow> y \<in> set T \<Longrightarrow> (edge dep)\<^sup>+\<^sup>+ x y"
proof -
  have "\<exists>d \<in> set ds. (edge dep)\<^sup>*\<^sup>* d y" if "walk dep k ds = Some T" "y \<in> set T" for ds
    using that
  proof (induction dep k ds arbitrary: T rule: walk.induct)
    case (3 dep k d ds)
    obtain S U where w: "walk dep k (dep d) = Some S" "walk dep (Suc k) ds = Some U" "T = d # S @ U"
      using 3(3) by (auto split: option.splits)
    consider "y = d" | "y \<in> set S" | "y \<in> set U" using 3(4) w(3) by auto
    then show ?case
    proof cases
      case 2
      then obtain e where "e \<in> set (dep d)" "(edge dep)\<^sup>*\<^sup>* e y" using 3(1) [OF w(1)] by blast
      then have "(edge dep)\<^sup>*\<^sup>* d y" by (intro converse_rtranclp_into_rtranclp [of _ d e]) (simp_all add: edge_def)
      then show ?thesis by simp
    next
      case 3
      then show ?thesis using "3.IH"(2) [OF w(1) w(2)] by auto
    qed simp
  qed simp_all
  then show "walk dep k (dep x) = Some T \<Longrightarrow> y \<in> set T \<Longrightarrow> (edge dep)\<^sup>+\<^sup>+ x y"
    by (meson edge_def rtranclp_into_tranclp2)
qed

lemma walk_acyclic: "walk dep k ds = Some T \<Longrightarrow> x \<in> set T \<Longrightarrow> \<not> (edge dep)\<^sup>+\<^sup>+ x x"
proof (induction k arbitrary: ds T x rule: less_induct)
  case (less k)
  obtain us vs where "T = us @ x # vs" using less(3) by (meson split_list)
  then obtain j U where j: "j < k" "walk dep j (dep x) = Some U"
    using walk_follows [OF less(2)] by blast
  then show ?case using less(1) [OF j] walk_reaches [OF j(2)] by blast
qed

text \<open>One source stands before another one in a list.\<close>

definition before :: "nat \<Rightarrow> nat \<Rightarrow> nat list \<Rightarrow> bool" where
  "before x y zs \<longleftrightarrow> (\<exists>us vs. zs = us @ x # vs \<and> y \<in> set vs)"

lemma remdups_before:
  assumes "x \<in> set L" "\<And>us vs. L = us @ x # vs \<Longrightarrow> y \<in> set vs"
  shows "before x y (remdups L)"
proof -
  obtain us vs where L: "L = us @ x # vs" "x \<notin> set vs" using assms(1) by (meson split_list_last)
  then have "remdups L = filter (\<lambda>z. z \<notin> set (x # vs)) (remdups us) @ x # remdups vs"
    by (simp add: remdups_append)
  then show ?thesis using assms(2) [OF L(1)] unfolding before_def by fastforce
qed

section \<open>Invariants of the manager\<close>

abbreviation pathOf :: "source_manager \<Rightarrow> nat \<Rightarrow> string" where
  "pathOf m i \<equiv> si_path (sm_items m ! i)"

abbreviation numItems :: "source_manager \<Rightarrow> nat" where
  "numItems m \<equiv> length (sm_items m)"

text \<open>The paths of the dependencies of a file, if it parses and all of them are in the table.\<close>

definition unitPaths :: "dep_reader \<Rightarrow> (string \<Rightarrow> string option) \<Rightarrow> string \<Rightarrow> string list option" where
  "unitPaths rd paths p =
     (case rd p of None \<Rightarrow> None | Some deps \<Rightarrow> those (map (\<lambda>(loc, name). paths (canonical name)) deps))"

definition loaded :: "dep_reader \<Rightarrow> source_manager \<Rightarrow> nat \<Rightarrow> bool" where
  "loaded rd m i \<longleftrightarrow> unitPaths rd (sm_paths m) (pathOf m i) = Some (map (pathOf m) (dependents m i))"

text \<open>The table and the items agree, and all paths are in a given set.\<close>

definition sm_wf :: "string set \<Rightarrow> source_manager \<Rightarrow> bool" where
  "sm_wf P m \<longleftrightarrow>
     (\<forall>p i. sm_sources m p = Some i \<longleftrightarrow> i < numItems m \<and> pathOf m i = p) \<and>
     (\<forall>i < numItems m. pathOf m i \<in> P \<and> (\<forall>d \<in> set (dependents m i). d < numItems m)) \<and>
     ran (sm_paths m) \<subseteq> P"

text \<open>A change that adds items without dependencies and may extend those of one item.\<close>

definition grows :: "nat \<Rightarrow> source_manager \<Rightarrow> source_manager \<Rightarrow> bool" where
  "grows i m m' \<longleftrightarrow> numItems m \<le> numItems m' \<and> sm_paths m' = sm_paths m \<and> sm_cycle m' = sm_cycle m \<and>
     (\<forall>j < numItems m. pathOf m' j = pathOf m j \<and> (j \<noteq> i \<longrightarrow> dependents m' j = dependents m j)) \<and>
     (\<forall>j. numItems m \<le> j \<and> j < numItems m' \<longrightarrow> dependents m' j = [])"

lemma grows_refl: "grows i m m"
  by (auto simp: grows_def)

lemma grows_trans: "grows i m m1 \<Longrightarrow> grows i m1 m2 \<Longrightarrow> i < numItems m \<Longrightarrow> grows i m m2"
proof -
  assume g: "grows i m m1" "grows i m1 m2" and i: "i < numItems m"
  have "dependents m2 j = []" if "numItems m \<le> j" "j < numItems m2" for j
    using g i that by (cases "j < numItems m1") (auto simp: grows_def)
  then show ?thesis using g by (auto simp: grows_def)
qed

lemma getOrCreate_cases:
  assumes "sm_wf P m" "p \<in> P"
  obtains d m1 where "getOrCreateSourceItem p m = (d, m1)" "sm_wf P m1" "grows i m m1" "d < numItems m1"
    "pathOf m1 d = p" "i < numItems m \<Longrightarrow> dependents m1 i = dependents m i" "sm_events m1 = sm_events m"
proof (cases "sm_sources m p")
  case None
  let ?m1 = "m\<lparr>sm_items := sm_items m @ [\<lparr>si_path = p, si_dependents = [], si_cunit = None\<rparr>],
             sm_sources := (sm_sources m)(p \<mapsto> numItems m)\<rparr>"
  have new: "i < numItems m \<Longrightarrow> pathOf m i \<noteq> p" for i
    using assms(1) None unfolding sm_wf_def by (metis option.distinct(1))
  have "sm_wf P ?m1"
    using assms new by (auto simp: sm_wf_def dependents_def nth_append less_Suc_eq)
  moreover have "grows i m ?m1"
    by (auto simp: grows_def dependents_def nth_append)
  ultimately show ?thesis
    by (intro that [of "numItems m" ?m1])
      (simp_all add: getOrCreateSourceItem_def None dependents_def nth_append Let_def)
next
  case (Some d)
  then have "getOrCreateSourceItem p m = (d, m)" by (simp add: getOrCreateSourceItem_def)
  then show ?thesis
    using assms(1) Some by (intro that [of d m]) (simp_all add: sm_wf_def grows_refl)
qed

lemma addDependency_wf:
  assumes "sm_wf P m" "i < numItems m" "d < numItems m"
  shows "sm_wf P (addDependency i d m)" "grows i m (addDependency i d m)"
    "dependents (addDependency i d m) i = dependents m i @ [d]" "sm_events (addDependency i d m) = sm_events m"
proof -
  have n: "numItems (addDependency i d m) = numItems m" by (simp add: addDependency_def)
  have p: "pathOf (addDependency i d m) j = pathOf m j" if "j < numItems m" for j
    using that assms(2) by (simp add: addDependency_def nth_list_update)
  have e: "dependents (addDependency i d m) j = (if j = i then dependents m i @ [d] else dependents m j)"
    if "j < numItems m" for j
    using that assms(2) by (simp add: addDependency_def dependents_def nth_list_update)
  have s: "sm_sources (addDependency i d m) = sm_sources m" "sm_paths (addDependency i d m) = sm_paths m"
    "sm_cycle (addDependency i d m) = sm_cycle m"
    by (simp_all add: addDependency_def)
  show "sm_wf P (addDependency i d m)" unfolding sm_wf_def n s
    using assms p e unfolding sm_wf_def by auto
  show "grows i m (addDependency i d m)" unfolding grows_def n s using p e by simp
  show "dependents (addDependency i d m) i = dependents m i @ [d]" using e [OF assms(2)] by simp
  show "sm_events (addDependency i d m) = sm_events m" by (simp add: addDependency_def)
qed

lemma smReport_inv: "sm_wf P (smReport e m) = sm_wf P m" "grows i m (smReport e m)" "sm_paths (smReport e m) = sm_paths m"
  by (auto simp: smReport_def sm_wf_def grows_def dependents_def)

lemma locateDependencies_spec:
  assumes "sm_wf P m" "i < numItems m" "locateDependencies i deps m = (ok, m')"
  shows "sm_wf P m' \<and> grows i m m' \<and>
    (case those (map (\<lambda>(loc, name). sm_paths m (canonical name)) deps) of
       None \<Rightarrow> \<not> ok
     | Some ps \<Rightarrow> ok \<and> (\<exists>ds. dependents m' i = dependents m i @ ds \<and> map (pathOf m') ds = ps))"
  using assms
proof (induction i deps m rule: locateDependencies.induct)
  case (1 i m)
  then show ?case by (simp add: grows_refl)
next
  case (2 i loc name deps m)
  show ?case
  proof (cases "sm_paths m (canonical name)")
    case None
    then show ?thesis
      using 2(2,4) smReport_inv by (auto simp: Let_def)
  next
    case (Some p)
    then have "p \<in> P" using 2(2) unfolding sm_wf_def by (blast intro: ranI)
    then obtain d m1 where g: "getOrCreateSourceItem p m = (d, m1)" "sm_wf P m1" "grows i m m1" "d < numItems m1"
      "pathOf m1 d = p" "i < numItems m \<Longrightarrow> dependents m1 i = dependents m i"
      using getOrCreate_cases [OF 2(2)] by metis
    have i: "i < numItems m1" using g(3) 2(3) by (simp add: grows_def)
    note a = addDependency_wf [OF g(2) i g(4)]
    have n: "numItems (addDependency i d m1) = numItems m1" by (simp add: addDependency_def)
    have "locateDependencies i deps (addDependency i d m1) = (ok, m')"
      using 2(4) by (simp add: Some g(1))
    note IH = 2(1) [OF refl Some g(1) [symmetric] refl a(1) _ this]
    have IH: "sm_wf P m'" "grows i (addDependency i d m1) m'"
      "case those (map (\<lambda>(loc, name). sm_paths (addDependency i d m1) (canonical name)) deps) of
       None \<Rightarrow> \<not> ok
     | Some ps \<Rightarrow> ok \<and> (\<exists>ds. dependents m' i = dependents (addDependency i d m1) i @ ds \<and> map (pathOf m') ds = ps)"
      using IH i n by auto
    have g': "grows i m m'" using grows_trans [OF grows_trans [OF g(3) a(2)] IH(2)] 2(3) by simp
    have p: "sm_paths (addDependency i d m1) = sm_paths m" using g(3) by (simp add: addDependency_def grows_def)
    have "pathOf m' d = p" using IH(2) a(2) g(4,5) n by (simp add: grows_def)
    then show ?thesis
      using IH(1,3) g' Some a(3) g(6) [OF 2(3)] unfolding p by (auto split: option.splits)
  qed
qed

text \<open>Every item is either without dependencies or has those of its file; and how such a manager grows.\<close>

definition sm_ok :: "dep_reader \<Rightarrow> string set \<Rightarrow> source_manager \<Rightarrow> bool" where
  "sm_ok rd P m \<longleftrightarrow> sm_wf P m \<and> (\<forall>i < numItems m. dependents m i = [] \<or> loaded rd m i)"

definition extends :: "source_manager \<Rightarrow> source_manager \<Rightarrow> bool" where
  "extends m m' \<longleftrightarrow> numItems m \<le> numItems m' \<and> sm_paths m' = sm_paths m \<and>
     (\<forall>j < numItems m. pathOf m' j = pathOf m j \<and> (dependents m j = [] \<or> dependents m' j = dependents m j))"

lemma extends_m_refl: "extends m m"
  by (simp add: extends_def)

lemma extends_m_trans: "extends m m1 \<Longrightarrow> extends m1 m2 \<Longrightarrow> extends m m2"
  unfolding extends_def by (metis order_less_le_trans order_trans)

lemma loaded_extends:
  assumes "loaded rd m i" "extends m m'" "sm_ok rd P m" "sm_ok rd P m'" "i < numItems m"
  shows "loaded rd m' i" "dependents m' i = dependents m i"
proof -
  have i: "i < numItems m'" "pathOf m' i = pathOf m i" "sm_paths m' = sm_paths m"
    using assms(2,5) by (auto simp: extends_def)
  show d: "dependents m' i = dependents m i"
  proof (cases "dependents m i = []")
    case True
    then have "unitPaths rd (sm_paths m') (pathOf m' i) = Some []" using assms(1) i by (simp add: loaded_def)
    then have "loaded rd m' i \<Longrightarrow> dependents m' i = []" by (simp add: loaded_def)
    then show ?thesis using assms(4) i(1) True by (auto simp: sm_ok_def)
  qed (use assms(2,5) in \<open>auto simp: extends_def\<close>)
  have "d < numItems m" if "d \<in> set (dependents m i)" for d
    using assms(3,5) that by (auto simp: sm_ok_def sm_wf_def)
  then have "map (pathOf m') (dependents m i) = map (pathOf m) (dependents m i)"
    using assms(2) by (intro map_cong) (auto simp: extends_def)
  then show "loaded rd m' i" using assms(1) i d by (simp add: loaded_def)
qed

lemma grows_loaded:
  assumes "grows i m m'" "loaded rd m j" "j < numItems m" "j \<noteq> i" "sm_wf P m"
  shows "loaded rd m' j"
proof -
  have "d < numItems m" if "d \<in> set (dependents m j)" for d using assms(3,5) that by (auto simp: sm_wf_def)
  then have "map (pathOf m') (dependents m j) = map (pathOf m) (dependents m j)"
    using assms(1) by (intro map_cong) (auto simp: grows_def)
  then show ?thesis using assms(1-4) by (simp add: loaded_def grows_def)
qed

lemma loadDependencies_wf:
  assumes "sm_wf P m" "i < numItems m" "loadDependencies rd i m = (ok, m')"
  shows "sm_wf P m'" "grows i m m'"
  using assms locateDependencies_spec [OF assms(1,2), of _ ok m']
  by (auto simp: loadDependencies_def grows_refl split: if_splits option.splits)

lemma loadDependencies_ok:
  assumes "sm_ok rd P m" "i < numItems m" "loadDependencies rd i m = (ok, m')"
  shows "ok \<longleftrightarrow> unitPaths rd (sm_paths m) (pathOf m i) \<noteq> None"
    and "ok \<Longrightarrow> sm_ok rd P m' \<and> loaded rd m' i \<and> extends m m'"
proof -
  have wf: "sm_wf P m" using assms(1) by (simp add: sm_ok_def)
  note w = loadDependencies_wf [OF wf assms(2,3)]
  have p: "pathOf m' i = pathOf m i" "sm_paths m' = sm_paths m" using w(2) assms(2) by (simp_all add: grows_def)
  have r: "(ok \<longleftrightarrow> unitPaths rd (sm_paths m) (pathOf m i) \<noteq> None) \<and> (ok \<longrightarrow> loaded rd m' i) \<and>
    (dependents m i = [] \<or> dependents m' i = dependents m i)"
  proof (cases "dependents m i = []")
    case True
    show ?thesis
    proof (cases "rd (pathOf m i)")
      case None
      then show ?thesis using assms(3) True by (auto simp: loadDependencies_def unitPaths_def)
    next
      case (Some deps)
      then have "locateDependencies i deps m = (ok, m')" using assms(3) True by (simp add: loadDependencies_def)
      from locateDependencies_spec [OF wf assms(2) this] show ?thesis
        using True by (auto simp: unitPaths_def loaded_def p Some split: option.splits)
    qed
  next
    case False
    then have "loaded rd m i" "ok" "m' = m" using assms by (auto simp: sm_ok_def loadDependencies_def)
    then show ?thesis by (simp add: loaded_def)
  qed
  then show "ok \<longleftrightarrow> unitPaths rd (sm_paths m) (pathOf m i) \<noteq> None" by simp
  assume ok
  have "dependents m' j = [] \<or> loaded rd m' j" if "j < numItems m'" for j
  proof (cases "j = i \<or> numItems m \<le> j")
    case True
    then show ?thesis using r \<open>ok\<close> w(2) that by (auto simp: grows_def)
  next
    case False
    then have j: "j < numItems m" "j \<noteq> i" by simp_all
    then have "dependents m' j = dependents m j" using w(2) by (simp add: grows_def)
    then show ?thesis using grows_loaded [OF w(2) _ j wf, of rd] assms(1) j(1) by (auto simp: sm_ok_def)
  qed
  then have "sm_ok rd P m'" using w(1) by (simp add: sm_ok_def)
  moreover have "extends m m'" using w(2) r by (auto simp: extends_def grows_def)
  ultimately show "sm_ok rd P m' \<and> loaded rd m' i \<and> extends m m'" using r \<open>ok\<close> by simp
qed

text \<open>The cycle table does not matter to the invariants.\<close>

lemma cycle_simps [simp]:
  "sm_items (pushCycle i m) = sm_items m" "sm_items (removeCycle i m) = sm_items m"
  "sm_paths (pushCycle i m) = sm_paths m" "sm_paths (removeCycle i m) = sm_paths m"
  "sm_sources (pushCycle i m) = sm_sources m" "sm_sources (removeCycle i m) = sm_sources m"
  "sm_cycle (pushCycle i m) = sm_cycle m @ [i]" "sm_cycle (removeCycle i m) = remove1 i (sm_cycle m)"
  "dependents (pushCycle i m) = dependents m" "dependents (removeCycle i m) = dependents m"
  by (simp_all add: pushCycle_def removeCycle_def dependents_def fun_eq_iff)

lemma cycle_inv [simp]:
  "sm_wf P (pushCycle i m) = sm_wf P m" "sm_wf P (removeCycle i m) = sm_wf P m"
  "loaded rd (pushCycle i m) = loaded rd m" "loaded rd (removeCycle i m) = loaded rd m"
  "sm_ok rd P (pushCycle i m) = sm_ok rd P m" "sm_ok rd P (removeCycle i m) = sm_ok rd P m"
  "extends (pushCycle i m) m' = extends m m'" "extends m (removeCycle i m') = extends m m'"
  "extends (removeCycle i m) m' = extends m m'" "extends m (pushCycle i m') = extends m m'"
  by (simp_all add: sm_wf_def loaded_def sm_ok_def extends_def fun_eq_iff)

lemma getOrCreateSourceItem_cycle: "getOrCreateSourceItem p m = (d, m1) \<Longrightarrow> sm_cycle m1 = sm_cycle m"
  by (auto simp: getOrCreateSourceItem_def Let_def split: option.splits)

lemma addDependency_cycle: "sm_cycle (addDependency i d m) = sm_cycle m"
  by (simp add: addDependency_def)

lemma locateDependencies_cycle: "sm_cycle (snd (locateDependencies i deps m)) = sm_cycle m"
  by (induction i deps m rule: locateDependencies.induct)
    (auto simp: smReport_def addDependency_cycle Let_def dest: getOrCreateSourceItem_cycle
      split: option.splits prod.splits)

lemma loadDependencies_cycle: "sm_cycle (snd (loadDependencies rd i m)) = sm_cycle m"
  by (simp add: loadDependencies_def locateDependencies_cycle split: option.splits)

lemma loadSubDependencies_cycle: "loadSubDependencies rd fuel ds m = Some (ok, m') \<Longrightarrow> sm_cycle m' = sm_cycle m"
proof (induction rd fuel ds m arbitrary: ok m' rule: loadSubDependencies.induct)
  case (2 rd fuel d ds m)
  have r: "sm_cycle m1 = sm_cycle m @ [d]" if "loadDependencies rd d (pushCycle d m) = (b, m1)" for b m1
    using loadDependencies_cycle [of rd d "pushCycle d m"] that by simp
  show ?case
  proof (cases "d \<in> set (sm_cycle m)")
    case True
    then show ?thesis using 2(3) by (auto simp: reportCycleDependencies_def smReport_def Let_def)
  next
    case False
    obtain k where k: "fuel = Suc k" using 2(3) False by (auto split: nat.splits)
    obtain b m1 where l: "loadDependencies rd d (pushCycle d m) = (b, m1)"
      by (cases "loadDependencies rd d (pushCycle d m)")
    show ?thesis
    proof (cases b)
      case True
      then have lT: "loadDependencies rd d (pushCycle d m) = (True, m1)" using l by simp
      obtain b' m2 where sub: "loadSubDependencies rd k (dependents m1 d) m1 = Some (b', m2)"
        using 2(3) False by (auto simp: k lT split: option.splits)
      have c: "sm_cycle (removeCycle d m2) = sm_cycle m"
        using 2(1) [OF False k lT [symmetric] refl sub] r [OF l] False by (simp add: remove1_append)
      show ?thesis
      proof (cases b')
        case True
        then show ?thesis using 2(3) 2(2) [OF False k lT [symmetric] refl sub refl] False sub c by (simp add: k lT)
      qed (use 2(3) False sub c in \<open>simp add: k lT\<close>)
    qed (use 2(3) False r [OF l] in \<open>auto simp: k l remove1_append\<close>)
  qed
qed simp

section \<open>Loading ends\<close>

lemma wf_bound:
  assumes "sm_wf P m" "finite P"
  shows "numItems m \<le> card P"
proof -
  have "inj_on (pathOf m) {..<numItems m}"
    using assms(1) unfolding sm_wf_def inj_on_def by (metis lessThan_iff option.inject)
  moreover have "pathOf m ` {..<numItems m} \<subseteq> P" using assms(1) by (auto simp: sm_wf_def)
  ultimately show ?thesis using assms(2) by (metis card_inj_on_le card_lessThan)
qed

lemma loadSubDependencies_ends:
  assumes "sm_wf P m" "finite P" "distinct (sm_cycle m)" "set (sm_cycle m) \<subseteq> {..<numItems m}"
    and "set ds \<subseteq> {..<numItems m}" "card P \<le> fuel + length (sm_cycle m)"
  shows "\<exists>ok m'. loadSubDependencies rd fuel ds m = Some (ok, m') \<and> sm_wf P m' \<and> sm_cycle m' = sm_cycle m \<and>
    numItems m \<le> numItems m'"
  using assms
proof (induction rd fuel ds m rule: loadSubDependencies.induct)
  case (2 rd fuel d ds m)
  show ?case
  proof (cases "d \<in> set (sm_cycle m)")
    case True
    then show ?thesis using 2(3) by (auto simp: reportCycleDependencies_def smReport_def sm_wf_def dependents_def Let_def)
  next
    case False
    have "insert d (set (sm_cycle m)) \<subseteq> {..<numItems m}" using 2(6,7) by simp
    then have "card (insert d (set (sm_cycle m))) \<le> numItems m"
      by (metis card_lessThan card_mono finite_lessThan)
    then have "length (sm_cycle m) < card P"
      using wf_bound [OF 2(3,4)] False 2(5) by (simp add: distinct_card)
    then obtain k where k: "fuel = Suc k" using 2(8) by (cases fuel) auto
    obtain b m1 where l: "loadDependencies rd d (pushCycle d m) = (b, m1)" by (cases "loadDependencies rd d (pushCycle d m)")
    have d: "d < numItems (pushCycle d m)" using 2(7) by simp
    have w: "sm_wf P m1" "grows d (pushCycle d m) m1"
      using loadDependencies_wf [OF _ d l] 2(3) by simp_all
    have c: "sm_cycle m1 = sm_cycle m @ [d]" "numItems m \<le> numItems m1" using w(2) by (simp_all add: grows_def)
    show ?thesis
    proof (cases b)
      case False
      then show ?thesis using w c \<open>d \<notin> set (sm_cycle m)\<close> by (auto simp: k l remove1_append)
    next
      case True
      then have lT: "loadDependencies rd d (pushCycle d m) = (True, m1)" using l by simp
      have "d < numItems m1" using c d by simp
      then have "set (dependents m1 d) \<subseteq> {..<numItems m1}" using w(1) by (auto simp: sm_wf_def)
      moreover have "set (sm_cycle m1) \<subseteq> {..<numItems m1}" using c d 2(6) by auto
      ultimately obtain b' m2 where s: "loadSubDependencies rd k (dependents m1 d) m1 = Some (b', m2)" "sm_wf P m2"
        "sm_cycle m2 = sm_cycle m1" "numItems m1 \<le> numItems m2"
        using 2(1) [OF False k lT [symmetric] refl w(1) 2(4)] c 2(5,8) False k by auto
      have r: "sm_cycle (removeCycle d m2) = sm_cycle m" using s(3) c(1) False by (simp add: remove1_append)
      show ?thesis
      proof (cases b')
        case False
        then show ?thesis using \<open>d \<notin> set (sm_cycle m)\<close> True s c r by (auto simp: k l)
      next
        case t: True
        have "set ds \<subseteq> {..<numItems (removeCycle d m2)}" "set (sm_cycle (removeCycle d m2)) \<subseteq> {..<numItems (removeCycle d m2)}"
          using 2(6,7) c s r by auto
        then have "\<exists>ok m'. loadSubDependencies rd fuel ds (removeCycle d m2) = Some (ok, m') \<and> sm_wf P m' \<and>
            sm_cycle m' = sm_cycle (removeCycle d m2) \<and> numItems (removeCycle d m2) \<le> numItems m'"
          using 2(2) [OF False k lT [symmetric] refl s(1) [unfolded eqTrueI [OF t]] refl refl] 2(4,5,8) s(2) r by simp
        then show ?thesis using False True t s c r by (auto simp: k l)
      qed
    qed
  qed
qed auto

section \<open>What a finished load means\<close>

lemma loadSubDependencies_loaded:
  assumes "sm_ok rd P m" "set ds \<subseteq> {..<numItems m}" "loadSubDependencies rd fuel ds m = Some (True, m')"
  shows "sm_ok rd P m' \<and> extends m m' \<and>
    (\<exists>T. walk (dependents m') fuel ds = Some T \<and> set T \<subseteq> {i. i < numItems m' \<and> loaded rd m' i})"
  using assms
proof (induction rd fuel ds m arbitrary: m' rule: loadSubDependencies.induct)
  case (1 rd fuel m)
  then show ?case by (simp add: extends_m_refl)
next
  case (2 rd fuel d ds m)
  obtain k m1 m2 where False: "d \<notin> set (sm_cycle m)" and k: "fuel = Suc k"
    and l: "loadDependencies rd d (pushCycle d m) = (True, m1)"
    and sub: "loadSubDependencies rd k (dependents m1 d) m1 = Some (True, m2)"
    and rest: "loadSubDependencies rd fuel ds (removeCycle d m2) = Some (True, m')"
    using 2(5) by (auto split: if_splits nat.splits prod.splits bool.splits option.splits)
  have d: "d < numItems (pushCycle d m)" using 2(4) by simp
  have m1: "sm_ok rd P m1" "loaded rd m1 d" "extends m m1"
    using loadDependencies_ok(2) [OF _ d l, of P] 2(3) by simp_all
  have d1: "d < numItems m1" using m1(3) 2(4) by (auto simp: extends_def)
  then have "set (dependents m1 d) \<subseteq> {..<numItems m1}" using m1(1) by (auto simp: sm_ok_def sm_wf_def)
  then obtain T where T: "sm_ok rd P m2" "extends m1 m2" "walk (dependents m2) k (dependents m1 d) = Some T"
    "set T \<subseteq> {i. i < numItems m2 \<and> loaded rd m2 i}"
    using 2(1) [OF False k l [symmetric] refl m1(1) _ sub] by auto
  have "set ds \<subseteq> {..<numItems (removeCycle d m2)}"
    using 2(4) m1(3) T(2) by (auto simp: extends_def)
  then obtain U where U: "sm_ok rd P m'" "extends m2 m'" "walk (dependents m') fuel ds = Some U"
    "set U \<subseteq> {i. i < numItems m' \<and> loaded rd m' i}"
    using 2(2) [OF False k l [symmetric] refl sub refl refl _ _ rest] T(1) by auto
  have T': "walk (dependents m') k (dependents m1 d) = Some T"
    by (rule walk_cong [OF T(3)]) (use loaded_extends [OF _ U(2) T(1) U(1)] T(4) in auto)
  have "extends m1 m'" by (rule extends_m_trans [OF T(2) U(2)])
  note D = loaded_extends [OF m1(2) this m1(1) U(1) d1]
  have "walk (dependents m') fuel (d # ds) = Some (d # T @ U)"
    using T' U(3) D(2) by (simp add: k)
  moreover have "d < numItems m'" using d1 \<open>extends m1 m'\<close> by (simp add: extends_def)
  moreover have "set T \<subseteq> {i. i < numItems m' \<and> loaded rd m' i}"
    using T(4) loaded_extends(1) [OF _ U(2) T(1) U(1)] U(2) by (auto simp: extends_def)
  ultimately show ?case
    using U(1,4) D(1) extends_m_trans [OF m1(3) \<open>extends m1 m'\<close>] by auto
qed

text \<open>
  The files: one needs another one, and a file is loadable if it parses and its units are found.
\<close>

definition needs :: "dep_reader \<Rightarrow> (string \<Rightarrow> string option) \<Rightarrow> string \<Rightarrow> string \<Rightarrow> bool" where
  "needs rd paths p q \<longleftrightarrow> (\<exists>qs. unitPaths rd paths p = Some qs \<and> q \<in> set qs)"

definition loadable :: "dep_reader \<Rightarrow> (string \<Rightarrow> string option) \<Rightarrow> string \<Rightarrow> bool" where
  "loadable rd paths p \<longleftrightarrow> unitPaths rd paths p \<noteq> None"

lemma loaded_needs: "loaded rd m i \<Longrightarrow> needs rd (sm_paths m) (pathOf m i) q \<longleftrightarrow> q \<in> pathOf m ` set (dependents m i)"
  by (auto simp: needs_def loaded_def)

lemma loadSubDependencies_complete:
  assumes "sm_ok rd P m" "set ds \<subseteq> {..<numItems m}" "loadSubDependencies rd fuel ds m = Some (ok, m')"
    and "\<And>d q. d \<in> set ds \<Longrightarrow> (needs rd (sm_paths m))\<^sup>*\<^sup>* (pathOf m d) q \<Longrightarrow>
      loadable rd (sm_paths m) q \<and> \<not> (needs rd (sm_paths m))\<^sup>+\<^sup>+ q q"
    and "\<And>c d. c \<in> set (sm_cycle m) \<Longrightarrow> d \<in> set ds \<Longrightarrow> (needs rd (sm_paths m))\<^sup>+\<^sup>+ (pathOf m c) (pathOf m d)"
    and "set (sm_cycle m) \<subseteq> {..<numItems m}"
  shows "ok"
  using assms
proof (induction rd fuel ds m arbitrary: ok m' rule: loadSubDependencies.induct)
  case (2 rd fuel d ds m)
  let ?n = "needs rd (sm_paths m)"
  have dl: "loadable rd (sm_paths m) (pathOf m d)" "\<not> ?n\<^sup>+\<^sup>+ (pathOf m d) (pathOf m d)"
    using 2(6) [of d] by simp_all
  then have False: "d \<notin> set (sm_cycle m)" using 2(7) [of d d] by auto
  then obtain k where k: "fuel = Suc k" using 2(5) by (auto split: nat.splits)
  obtain b m1 where l: "loadDependencies rd d (pushCycle d m) = (b, m1)" by (cases "loadDependencies rd d (pushCycle d m)")
  have d: "d < numItems (pushCycle d m)" using 2(4) by simp
  note ld = loadDependencies_ok [OF _ d l, of P]
  have b: b using ld(1) 2(3) dl(1) by (simp add: loadable_def)
  then have lT: "loadDependencies rd d (pushCycle d m) = (True, m1)" using l by simp
  have m1: "sm_ok rd P m1" "loaded rd m1 d" "extends m m1" using ld(2) [OF _ b] 2(3) by simp_all
  have wf: "sm_wf P (pushCycle d m)" using 2(3) by (simp add: sm_ok_def)
  have c1: "sm_cycle m1 = sm_cycle m @ [d]" and g1: "sm_paths m1 = sm_paths m"
    using loadDependencies_wf(2) [OF wf d l] by (simp_all add: grows_def)
  have p1: "pathOf m1 i = pathOf m i" if "i < numItems m" for i using m1(3) that by (simp add: extends_def)
  have d1: "d < numItems m1" "d < numItems m" using m1(3) d by (simp_all add: extends_def)
  have deps: "set (dependents m1 d) \<subseteq> {..<numItems m1}" using m1(1) d1 by (auto simp: sm_ok_def sm_wf_def)
  have n: "?n (pathOf m d) (pathOf m1 e)" if "e \<in> set (dependents m1 d)" for e
    using loaded_needs [OF m1(2)] that p1 [OF d1(2)] by (simp add: g1)
  obtain b' m2 where sub: "loadSubDependencies rd k (dependents m1 d) m1 = Some (b', m2)"
    using 2(5) False by (auto simp: k l b split: option.splits)
  have b': b'
  proof (rule 2(1) [OF False k lT [symmetric] refl m1(1) deps sub])
    fix e q
    assume e: "e \<in> set (dependents m1 d)" "(needs rd (sm_paths m1))\<^sup>*\<^sup>* (pathOf m1 e) q"
    then have "?n\<^sup>*\<^sup>* (pathOf m d) q" using n [OF e(1)] by (auto simp: g1 intro: converse_rtranclp_into_rtranclp)
    then show "loadable rd (sm_paths m1) q \<and> \<not> (needs rd (sm_paths m1))\<^sup>+\<^sup>+ q q" using 2(6) [of d] by (simp add: g1)
  next
    fix c e
    assume c: "c \<in> set (sm_cycle m1)" and e: "e \<in> set (dependents m1 d)"
    have "?n\<^sup>*\<^sup>* (pathOf m c) (pathOf m d)" "c < numItems m"
      using c 2(7) [of c d] 2(8) d1 by (auto simp: c1 tranclp_into_rtranclp)
    then show "(needs rd (sm_paths m1))\<^sup>+\<^sup>+ (pathOf m1 c) (pathOf m1 e)"
      using n [OF e] by (simp add: g1 p1 rtranclp_into_tranclp1)
  qed (use m1(3) d1 2(8) in \<open>auto simp: c1 extends_def\<close>)
  then have sub: "loadSubDependencies rd k (dependents m1 d) m1 = Some (True, m2)" using sub by simp
  have m2: "sm_ok rd P m2" "extends m1 m2" using loadSubDependencies_loaded [OF m1(1) deps sub] by simp_all
  have ex: "extends m m2" by (rule extends_m_trans [OF m1(3) m2(2)])
  have p2: "pathOf m2 i = pathOf m i" if "i < numItems m" for i using ex that by (simp add: extends_def)
  have g2: "sm_paths m2 = sm_paths m" using ex by (simp add: extends_def)
  have c2: "sm_cycle m2 = sm_cycle m1" by (rule loadSubDependencies_cycle [OF sub])
  have ds: "e < numItems m" if "e \<in> set ds" for e using that 2(4) by auto
  have cy: "c < numItems m" if "c \<in> set (sm_cycle m)" for c using that 2(8) by auto
  have r: "loadSubDependencies rd fuel ds (removeCycle d m2) = Some (ok, m')"
    using 2(5) False sub by (simp add: k l b)
  show ?case
    by (rule 2(2) [OF False k lT [symmetric] refl sub refl refl _ _ r])
      (use m2(1) ex 2(6,7) False in
        \<open>auto simp: c2 c1 g2 p2 ds cy remove1_append extends_def dest: ds cy less_le_trans\<close>)
qed simp

section \<open>From a fresh manager\<close>

lemma processDependencies_sub:
  "d \<notin> set (sm_cycle m) \<Longrightarrow> processDependencies rd fuel d m = loadSubDependencies rd (Suc fuel) [d] m"
  by (auto simp: processDependencies_def split: option.split prod.split bool.split)

lemma fold_insertPath_ran:
  "ran (fold (insertPath extension basename) listing table) \<subseteq> ran table \<union> set listing"
proof (induction listing arbitrary: table)
  case (Cons p listing)
  have "ran (insertPath extension basename p table) \<subseteq> insert p (ran table)"
    by (auto simp: insertPath_def Let_def ran_def)
  then show ?case using Cons [of "insertPath extension basename p table"] by auto
qed simp

definition pathTable :: "(string \<Rightarrow> string) \<Rightarrow> (string \<Rightarrow> string) \<Rightarrow> string list \<Rightarrow> string \<Rightarrow> string option" where
  "pathTable extension basename listing = sm_paths (newSourceManager extension basename listing)"

definition withItem :: "source_manager \<Rightarrow> string \<Rightarrow> source_manager" where
  "withItem m path = snd (getOrCreateSourceItem path m)"

lemma fresh_manager:
  fixes extension basename listing path
  defines "m \<equiv> withItem (newSourceManager extension basename listing) path"
  shows "sm_ok rd (insert path (set listing)) m" "sm_cycle m = []" "numItems m = 1" "pathOf m 0 = path"
    "sm_paths m = pathTable extension basename listing"
    "getSourceItem rd fuel path (newSourceManager extension basename listing) =
       map_option (\<lambda>(ok, m2). (if ok then Some 0 else None, m2)) (loadSubDependencies rd (Suc fuel) [0] m)"
proof -
  have m: "m = \<lparr>sm_paths = pathTable extension basename listing, sm_sources = [path \<mapsto> 0],
      sm_items = [\<lparr>si_path = path, si_dependents = [], si_cunit = None\<rparr>], sm_cycle = [], sm_events = []\<rparr>"
    by (simp add: m_def withItem_def getOrCreateSourceItem_def newSourceManager_def pathTable_def)
  have "ran (pathTable extension basename listing) \<subseteq> set listing"
    using fold_insertPath_ran [of extension basename listing "\<lambda>_. None"]
    by (simp add: pathTable_def newSourceManager_def)
  then show "sm_ok rd (insert path (set listing)) m"
    by (auto simp: m sm_ok_def sm_wf_def dependents_def)
  show "sm_cycle m = []" "numItems m = 1" "pathOf m 0 = path" "sm_paths m = pathTable extension basename listing"
    by (simp_all add: m)
  have "getOrCreateSourceItem path (newSourceManager extension basename listing) = (0, m)" "dependents m 0 = []"
    by (simp_all add: m dependents_def getOrCreateSourceItem_def newSourceManager_def pathTable_def)
  then show "getSourceItem rd fuel path (newSourceManager extension basename listing) =
       map_option (\<lambda>(ok, m2). (if ok then Some 0 else None, m2)) (loadSubDependencies rd (Suc fuel) [0] m)"
    using processDependencies_sub [of 0 m rd fuel] by (simp add: getSourceItem_def m)
qed

text \<open>A finished load: the items of the walk are the files that are needed.\<close>

lemma loaded_walk:
  assumes "sm_ok rd P m" "walk (dependents m) (Suc fuel) [r] = Some L" "set L \<subseteq> {i. i < numItems m \<and> loaded rd m i}"
  shows "x \<in> set L \<Longrightarrow> (needs rd (sm_paths m))\<^sup>+\<^sup>+ (pathOf m x) q \<Longrightarrow>
      \<exists>y \<in> set L. q = pathOf m y \<and> (edge (dependents m))\<^sup>+\<^sup>+ x y"
    and "x \<in> set L \<Longrightarrow> (edge (dependents m))\<^sup>+\<^sup>+ x y \<Longrightarrow> y \<in> set L \<and> (needs rd (sm_paths m))\<^sup>+\<^sup>+ (pathOf m x) (pathOf m y)"
proof -
  have one: "y \<in> set L \<and> (edge (dependents m))\<^sup>+\<^sup>+ x y" if "x \<in> set L" "y \<in> set (dependents m x)" for x y
    using walk_step [OF assms(2) that] that(2) by (auto simp: edge_def)
  have n: "needs rd (sm_paths m) (pathOf m x) q \<longleftrightarrow> q \<in> pathOf m ` set (dependents m x)" if "x \<in> set L" for x q
    using assms(3) that by (intro loaded_needs) auto
  show "\<exists>y \<in> set L. q = pathOf m y \<and> (edge (dependents m))\<^sup>+\<^sup>+ x y"
    if "x \<in> set L" "(needs rd (sm_paths m))\<^sup>+\<^sup>+ (pathOf m x) q"
    using that(2)
  proof (induction rule: tranclp_induct)
    case (base q)
    then show ?case using n [OF that(1)] one [OF that(1)] by auto
  next
    case (step q q')
    then obtain y where y: "y \<in> set L" "q = pathOf m y" "(edge (dependents m))\<^sup>+\<^sup>+ x y" by blast
    then obtain z where "z \<in> set (dependents m y)" "q' = pathOf m z" using step(2) n by auto
    then show ?case using one [OF y(1)] y(3)
      by (auto intro: tranclp_trans)
  qed
  show "y \<in> set L \<and> (needs rd (sm_paths m))\<^sup>+\<^sup>+ (pathOf m x) (pathOf m y)"
    if "x \<in> set L" "(edge (dependents m))\<^sup>+\<^sup>+ x y"
    using that(2)
  proof (induction rule: tranclp_induct)
    case (base y)
    then show ?case using n [OF that(1)] one [OF that(1)] by (auto simp: edge_def)
  next
    case (step y z)
    then have "z \<in> set (dependents m y)" by (simp add: edge_def)
    then have "z \<in> set L" "needs rd (sm_paths m) (pathOf m y) (pathOf m z)"
      using step(3) n one by auto
    then show ?case using step(3) by (meson tranclp.trancl_into_trancl)
  qed
qed

lemma fresh_load:
  assumes "getSourceItem rd fuel path (newSourceManager extension basename listing) = Some (Some root, m)"
  obtains T P where "root = 0" "sm_ok rd P m" "walk (dependents m) fuel (dependents m root) = Some T"
    "walk (dependents m) (Suc fuel) [root] = Some (root # T)"
    "set (root # T) \<subseteq> {i. i < numItems m \<and> loaded rd m i}" "pathOf m root = path"
    "sm_paths m = pathTable extension basename listing"
proof -
  note f = fresh_manager [where extension = extension and basename = basename and listing = listing and path = path]
  let ?m = "withItem (newSourceManager extension basename listing) path"
  have r: "root = 0" and l: "loadSubDependencies rd (Suc fuel) [0] ?m = Some (True, m)"
    using assms unfolding f(6) by (auto split: if_splits)
  have "set [0] \<subseteq> {..<numItems ?m}" by (simp add: f(3))
  from loadSubDependencies_loaded [OF f(1) this l] obtain L where m: "sm_ok rd (insert path (set listing)) m"
    "extends ?m m" "walk (dependents m) (Suc fuel) [0] = Some L" "set L \<subseteq> {i. i < numItems m \<and> loaded rd m i}"
    by blast
  obtain T where T: "walk (dependents m) fuel (dependents m 0) = Some T" "L = 0 # T"
    using m(3) by (auto split: option.splits)
  have "pathOf m 0 = path" "sm_paths m = pathTable extension basename listing"
    using m(2) f(3-5) by (auto simp: extends_def)
  then show ?thesis using that [OF r m(1)] m(3,4) T by (simp add: r)
qed

text \<open>
  C27. The source manager answers, for every directory and every contents of its files; with fuel from the
  number of files on it does not run out.  It answers a source item exactly when every file
  that is needed, directly or not, parses and has all its units in the directory, and no needed file
  needs itself.
\<close>

theorem getSourceItem_correct:
  assumes "length listing \<le> fuel"
  shows "\<exists>res m. getSourceItem rd fuel path (newSourceManager extension basename listing) = Some (res, m) \<and>
    (res \<noteq> None \<longleftrightarrow> (\<forall>q. (needs rd (pathTable extension basename listing))\<^sup>*\<^sup>* path q \<longrightarrow>
       loadable rd (pathTable extension basename listing) q \<and>
       \<not> (needs rd (pathTable extension basename listing))\<^sup>+\<^sup>+ q q))"
proof -
  note f = fresh_manager [where extension = extension and basename = basename and listing = listing and path = path]
  let ?m = "withItem (newSourceManager extension basename listing) path" and ?P = "insert path (set listing)"
  let ?n = "needs rd (pathTable extension basename listing)"
  have "card ?P \<le> Suc fuel" using assms card_length [of listing] by (simp add: card_insert_if)
  then obtain ok m where l: "loadSubDependencies rd (Suc fuel) [0] ?m = Some (ok, m)"
    using loadSubDependencies_ends [of ?P ?m "[0]" "Suc fuel" rd] f(1-3) by (auto simp: sm_ok_def)
  then have g: "getSourceItem rd fuel path (newSourceManager extension basename listing) =
      Some (if ok then Some 0 else None, m)"
    by (simp add: f(6))
  have "ok \<longleftrightarrow> (\<forall>q. ?n\<^sup>*\<^sup>* path q \<longrightarrow> loadable rd (pathTable extension basename listing) q \<and> \<not> ?n\<^sup>+\<^sup>+ q q)"
  proof
    assume ok
    then have "getSourceItem rd fuel path (newSourceManager extension basename listing) = Some (Some 0, m)" using g by simp
    then obtain T P where "(0 :: nat) = 0" and w: "sm_ok rd P m" and "walk (dependents m) fuel (dependents m 0) = Some T"
      and w': "walk (dependents m) (Suc fuel) [0] = Some (0 # T)"
      "set (0 # T) \<subseteq> {i. i < numItems m \<and> loaded rd m i}" "pathOf m 0 = path"
      "sm_paths m = pathTable extension basename listing"
      by (rule fresh_load)
    note w = w w'
    note reach = loaded_walk(1) [OF w(1-3), unfolded w(5)]
    show "\<forall>q. ?n\<^sup>*\<^sup>* path q \<longrightarrow> loadable rd (pathTable extension basename listing) q \<and> \<not> ?n\<^sup>+\<^sup>+ q q"
    proof (intro allI impI)
      fix q
      assume "?n\<^sup>*\<^sup>* path q"
      then obtain x where x: "x \<in> set (0 # T)" "q = pathOf m x"
        using reach [of 0 q] w(4) by (auto dest: rtranclpD)
      then have "loadable rd (pathTable extension basename listing) q"
        using w(3,5) by (auto simp: loaded_def loadable_def)
      moreover have "\<not> ?n\<^sup>+\<^sup>+ q q"
      proof
        assume "?n\<^sup>+\<^sup>+ q q"
        then obtain y where y: "y \<in> set (0 # T)" "pathOf m x = pathOf m y" "(edge (dependents m))\<^sup>+\<^sup>+ x y"
          using reach [OF x(1), of q] x(2) by auto
        then have "x = y" using w(1,3) x(1) unfolding sm_ok_def sm_wf_def by (metis mem_Collect_eq option.inject subsetD)
        then show False using walk_acyclic [OF w(2) x(1)] y(3) by simp
      qed
      ultimately show "loadable rd (pathTable extension basename listing) q \<and> \<not> ?n\<^sup>+\<^sup>+ q q" ..
    qed
  next
    assume "\<forall>q. ?n\<^sup>*\<^sup>* path q \<longrightarrow> loadable rd (pathTable extension basename listing) q \<and> \<not> ?n\<^sup>+\<^sup>+ q q"
    then show ok using f(2-5) by (intro loadSubDependencies_complete [OF f(1) _ l]) auto
  qed
  then show ?thesis using g by auto
qed

lemma load_order:
  assumes "getSourceItem rd fuel path (newSourceManager extension basename listing) = Some (Some root, m)"
  shows "\<exists>items. extractDependencies m fuel root = Some items \<and> hd items = root \<and> distinct items \<and>
    pathOf m ` set items = {q. (needs rd (pathTable extension basename listing))\<^sup>*\<^sup>* path q} \<and>
    (\<forall>x \<in> set items. x < numItems m \<and> loaded rd m x \<and> (\<forall>y \<in> set (dependents m x). before x y items))"
proof -
  obtain T P where r: "root = 0" and ok: "sm_ok rd P m" and w: "walk (dependents m) fuel (dependents m root) = Some T"
    "walk (dependents m) (Suc fuel) [root] = Some (root # T)"
    and l: "set (root # T) \<subseteq> {i. i < numItems m \<and> loaded rd m i}" and p: "pathOf m root = path"
    and t: "sm_paths m = pathTable extension basename listing"
    by (rule fresh_load [OF assms])
  let ?items = "remdups (root # T)"
  have e: "extractDependencies m fuel root = Some ?items"
    using insertDependencies_walk [of "[root]" "dependents m" fuel "dependents m root"]
    by (simp add: extractDependencies_def w(1))
  have "root \<notin> set T"
    using walk_acyclic [OF w(2), of root] walk_reached [OF w(1)] by auto
  then have h: "hd ?items = root" by simp
  have "before x y ?items" if "x \<in> set (root # T)" "y \<in> set (dependents m x)" for x y
    by (rule remdups_before [OF that(1)]) (use walk_follows [OF w(2)] that(2) in blast)
  moreover have "pathOf m ` set (root # T) = {q. (needs rd (sm_paths m))\<^sup>*\<^sup>* path q}"
  proof (intro equalityI subsetI)
    fix q
    assume "q \<in> pathOf m ` set (root # T)"
    then obtain x where "q = pathOf m x" "x = root \<or> x \<in> set T" by auto
    then show "q \<in> {q. (needs rd (sm_paths m))\<^sup>*\<^sup>* path q}"
      using loaded_walk(2) [OF ok w(2) l, of root x] walk_reached [OF w(1), of x] p
      by (auto dest: tranclp_into_rtranclp)
  next
    fix q
    assume "q \<in> {q. (needs rd (sm_paths m))\<^sup>*\<^sup>* path q}"
    then show "q \<in> pathOf m ` set (root # T)"
      using loaded_walk(1) [OF ok w(2) l, of root q] p by (auto dest: rtranclpD)
  qed
  ultimately show ?thesis
    using e h l by (intro exI [of _ ?items]) (auto simp del: remdups.simps simp: t)
qed

text \<open>
  C28. The list of sources the driver compiles holds exactly the files that are needed, each once, with the root
  first and every file before all files it needs.
\<close>

theorem extractDependencies_order:
  assumes "getSourceItem rd fuel path (newSourceManager extension basename listing) = Some (Some root, m)"
  shows "\<exists>items. extractDependencies m fuel root = Some items \<and> hd items = root \<and> distinct items \<and>
    pathOf m ` set items = {q. (needs rd (pathTable extension basename listing))\<^sup>*\<^sup>* path q} \<and>
    (\<forall>x \<in> set items. \<forall>y \<in> set (dependents m x). before x y items)"
  using load_order [OF assms] by blast

text \<open>A directory of three files; the main one needs the other two, and one of these the other.\<close>

definition sampleReader :: dep_reader where
  "sampleReader path =
     (if path = ''m'' then Some [(mkLocation 0 5, ''L''), (mkLocation 0 20, ''b'')]
      else if path = ''l'' then Some [(mkLocation 0 5, ''B'')]
      else if path = ''b'' then Some []
      else None)"

definition sampleManager :: source_manager where
  "sampleManager = newSourceManager (\<lambda>_. ''cms'') id
     [''b'', ''l'', ''m'']"

lemma canonical_samples:
  "canonical ''b'' = ''b''" "canonical ''B'' = ''b''" "canonical ''l'' = ''l''" "canonical ''L'' = ''l''"
  "canonical ''m'' = ''m''" "canonical ''M'' = ''m''"
  by code_simp+

definition sampleLoaded :: source_manager where
  "sampleLoaded =
     \<lparr>sm_paths = [''b'' \<mapsto> ''b'', ''l'' \<mapsto> ''l'', ''m'' \<mapsto> ''m''],
      sm_sources = [''m'' \<mapsto> 0, ''l'' \<mapsto> 1, ''b'' \<mapsto> 2],
      sm_items = [\<lparr>si_path = ''m'', si_dependents = [1, 2], si_cunit = None\<rparr>,
        \<lparr>si_path = ''l'', si_dependents = [2], si_cunit = None\<rparr>,
        \<lparr>si_path = ''b'', si_dependents = [], si_cunit = None\<rparr>],
      sm_cycle = [], sm_events = []\<rparr>"

lemma sampleManager: "sampleManager =
    \<lparr>sm_paths = [''b'' \<mapsto> ''b'', ''l'' \<mapsto> ''l'', ''m'' \<mapsto> ''m''], sm_sources = (\<lambda>_. None), sm_items = [],
     sm_cycle = [], sm_events = []\<rparr>"
  by (simp add: sampleManager_def newSourceManager_def insertPath_def canonical_samples Let_def)

lemma sampleLoaded: "getSourceItem sampleReader 3 ''m'' sampleManager = Some (Some 0, sampleLoaded)"
  unfolding sampleManager
  by (simp add: getSourceItem_def getOrCreateSourceItem_def processDependencies_sub dependents_def loadDependencies_def
      sampleReader_def addDependency_def canonical_samples pushCycle_def removeCycle_def Let_def eval_nat_numeral
      sampleLoaded_def)

lemma sampleFacts:
  "extractDependencies sampleLoaded 3 0 = Some [0, 1, 2]" "dependents sampleLoaded 0 = [1, 2]"
  "dependents sampleLoaded 1 = [2]"
  by (simp_all add: extractDependencies_def dependents_def sampleLoaded_def moveToEnd_def eval_nat_numeral)

theorem getSourceItem_correct_witness:
  "\<exists>res m. getSourceItem (\<lambda>_. Some [(mkLocation 0 5, ''M'')]) 3 ''m'' sampleManager = Some (res, m) \<and> res = None"
proof -
  let ?rd = "\<lambda>_. Some [(mkLocation 0 5, ''M'')]" and ?b = "id"
  let ?l = "[''b'', ''l'', ''m'']"
  have "unitPaths ?rd (pathTable (\<lambda>_. ''cms'') ?b ?l) ''m'' = Some [''m'']"
    by (simp add: unitPaths_def pathTable_def newSourceManager_def insertPath_def canonical_samples Let_def)
  then have "needs ?rd (pathTable (\<lambda>_. ''cms'') ?b ?l) ''m'' ''m''" by (simp add: needs_def)
  then show ?thesis
    using getSourceItem_correct [of ?l 3 ?rd "''m''" "\<lambda>_. ''cms''" ?b] unfolding sampleManager_def by auto
qed

theorem extractDependencies_order_witness:
  "extractDependencies sampleLoaded 3 0 = Some [0, 1, 2] \<and> before 0 1 [0, 1, 2] \<and> before 1 2 [0, 1, 2]"
  using extractDependencies_order [OF sampleLoaded [unfolded sampleManager_def]] by (simp add: sampleFacts sampleFacts(3) [unfolded One_nat_def])

section \<open>Compilation in reverse order\<close>

lemma find_same: "findPrincipleDeclaration basename i m = Some (r, m') \<Longrightarrow> sm_items m' = sm_items m"
  by (auto simp: findPrincipleDeclaration_def smReport_def Let_def split: option.splits)

lemma principles_same: "principleDeclarations basename ds m = Some (r, m') \<Longrightarrow> sm_items m' = sm_items m"
  by (induction basename ds m arbitrary: r m' rule: principleDeclarations.induct)
    (auto split: option.splits dest!: find_same)

lemma principles_found:
  "\<forall>d \<in> set ds. si_cunit (sm_items m ! d) \<noteq> None \<Longrightarrow> principleDeclarations basename ds m \<noteq> None"
proof (induction basename ds m rule: principleDeclarations.induct)
  case (2 basename d ds m)
  obtain r m1 where f: "findPrincipleDeclaration basename d m = Some (r, m1)"
    using 2(2) by (cases "findPrincipleDeclaration basename d m")
      (auto simp: findPrincipleDeclaration_def Let_def split: option.splits)
  show ?case
  proof (cases r)
    case (Some name)
    then show ?thesis using 2(1) [OF f [unfolded Some] refl] 2(2) find_same [OF f] by (auto simp: f split: option.splits)
  qed (simp add: f)
qed simp

lemma compileItems_resolved:
  assumes "\<And>us i vs. is = us @ i # vs \<Longrightarrow> i < numItems m \<and> set (dependents m i) \<subseteq> done \<union> set us"
    and "\<forall>d \<in> done. si_cunit (sm_items m ! d) \<noteq> None"
  shows "\<exists>r m'. compileItems basename compile is m = (Compiled r, m') \<and>
    (r \<longrightarrow> (\<forall>i \<in> done \<union> set is. si_cunit (sm_items m' ! i) \<noteq> None))"
  using assms
proof (induction basename compile "is" m arbitrary: "done" rule: compileItems.induct)
  case (2 basename compile i "is" m)
  have i: "i < numItems m" "set (dependents m i) \<subseteq> done" using 2(2) [of "[]" i "is"] by auto
  then obtain r m1 where p: "principleDeclarations basename (dependents m i) m = Some (r, m1)"
    using principles_found [of "dependents m i" m basename] 2(3)
    by (cases "principleDeclarations basename (dependents m i) m") auto
  have same: "sm_items m1 = sm_items m" by (rule principles_same [OF p])
  show ?case
  proof (cases r)
    case None
    then show ?thesis by (auto simp: p)
  next
    case (Some names)
    show ?thesis
    proof (cases "compile (pathOf m1 i) names")
      case None
      then show ?thesis by (auto simp: p Some)
    next
      case c: (Some decls)
      let ?m = "setCompilation i decls m1"
      have n: "numItems ?m = numItems m" "dependents ?m j = dependents m j" for j
        using i(1) by (simp_all add: setCompilation_def dependents_def same nth_list_update)
      have u: "si_cunit (sm_items ?m ! j) = (if j = i then Some decls else si_cunit (sm_items m ! j))" for j
        using i(1) by (simp add: setCompilation_def same nth_list_update)
      have "\<exists>r m'. compileItems basename compile is ?m = (Compiled r, m') \<and>
        (r \<longrightarrow> (\<forall>j \<in> insert i done \<union> set is. si_cunit (sm_items m' ! j) \<noteq> None))"
      proof (rule 2(1) [OF p [unfolded Some] refl refl c])
        fix us j vs
        assume "is = us @ j # vs"
        then show "j < numItems ?m \<and> set (dependents ?m j) \<subseteq> insert i done \<union> set us"
          using 2(2) [of "i # us" j vs] by (simp add: n)
      qed (use 2(3) in \<open>auto simp: u\<close>)
      then show ?thesis by (simp add: p Some c)
    qed
  qed
qed auto

text \<open>
  C29. The driver never meets a dependency that has no compilation unit yet, whatever the compiler does with a
  source; if it succeeds, every needed file has been compiled.
\<close>

theorem compileSourceItem_resolved:
  assumes "getSourceItem rd fuel path (newSourceManager extension basename listing) = Some (Some root, m)"
  shows "\<exists>r m'. compileSourceItem basename compile fuel root m = Some (Compiled r, m') \<and>
    (r \<longrightarrow> (\<forall>i < numItems m. (needs rd (pathTable extension basename listing))\<^sup>*\<^sup>* path (pathOf m i) \<longrightarrow>
       si_cunit (sm_items m' ! i) \<noteq> None))"
proof -
  obtain items where x: "extractDependencies m fuel root = Some items" "distinct items"
    "pathOf m ` set items = {q. (needs rd (pathTable extension basename listing))\<^sup>*\<^sup>* path q}"
    and o: "\<And>x. x \<in> set items \<Longrightarrow> x < numItems m \<and> (\<forall>y \<in> set (dependents m x). before x y items)"
    using load_order [OF assms] by blast
  obtain P where wf: "sm_wf P m" using fresh_load [OF assms] by (metis sm_ok_def)
  have "i < numItems m \<and> set (dependents m i) \<subseteq> {} \<union> set us" if "rev items = us @ i # vs" for us i vs
  proof -
    have items: "items = rev vs @ i # rev us" using that by (metis append.assoc append_Cons append_Nil rev.simps(2) rev_append rev_rev_ident)
    have "y \<in> set us" if "y \<in> set (dependents m i)" for y
    proof -
      have "before i y items" using o [of i] that items by simp
      then obtain as bs where "items = as @ i # bs" "y \<in> set bs" by (auto simp: before_def)
      then have "bs = rev us" using x(2) items by (metis append_Cons_eq_iff distinct.simps(2) distinct_append not_distinct_conv_prefix)
      then show ?thesis using \<open>y \<in> set bs\<close> by simp
    qed
    then show ?thesis using o [of i] items by auto
  qed
  then have "\<exists>r m'. compileItems basename compile (rev items) m = (Compiled r, m') \<and>
    (r \<longrightarrow> (\<forall>i \<in> {} \<union> set (rev items). si_cunit (sm_items m' ! i) \<noteq> None))"
    by (rule compileItems_resolved) simp_all
  then obtain r m' where c: "compileItems basename compile (rev items) m = (Compiled r, m')"
    "r \<Longrightarrow> \<forall>i \<in> set items. si_cunit (sm_items m' ! i) \<noteq> None"
    by auto
  have "i \<in> set items" if "i < numItems m" "(needs rd (pathTable extension basename listing))\<^sup>*\<^sup>* path (pathOf m i)" for i
  proof -
    have "pathOf m i \<in> pathOf m ` set items" using that(2) by (simp add: x(3))
    then obtain j where "j \<in> set items" "pathOf m i = pathOf m j" by auto
    moreover from this have "i = j" using o [of j] wf that(1) unfolding sm_wf_def by (metis option.inject)
    ultimately show ?thesis by simp
  qed
  then show ?thesis using c by (auto simp: compileSourceItem_def x(1))
qed

theorem compileSourceItem_resolved_witness:
  "\<exists>r m'. compileSourceItem id (\<lambda>path _. Some [path]) 3 0 sampleLoaded = Some (Compiled r, m')"
  using compileSourceItem_resolved [OF sampleLoaded [unfolded sampleManager_def]] by blast

end
