(* ===== verification/Scope.thy ===== *)
theory Scope
  imports
    Prelude
    "HOL-Library.Multiset"
begin

text \<open>
  The scopes of the type checker and the lookup of names: \<^verbatim>\<open>lib/typecheck/Scope.cpp\<close>,
  \<^verbatim>\<open>Homonym.h\<close>, \<^verbatim>\<open>Resolver.cpp\<close>, and the comparison of profiles of
  \<^verbatim>\<open>lib/ast/Type.cpp\<close>.

  A declaration is a tree with its identity, as a node is compared by its address; types are
  unique in the program, so that the address of a type is the type.  The list of
  homonyms hangs on the identifiers as metadata, here a map from names.  A set of addresses is a list without
  duplicates, the last one inserted last; where the source walks over the set in the order of
  addresses, the result is shown not to depend on the order.  \<open>None\<close> is a failed \<^verbatim>\<open>assert\<close>.
\<close>

section \<open>Types and declarations\<close>

text \<open>A primary type knows its root type; other types are compared by their address only.\<close>

datatype type_node = PrimaryType (typeId: nat) (rootType: nat) | OtherType (typeId: nat)

datatype subroutine_type =
    FunctionType (argTypes: "type_node list") (returnType: type_node)
  | ProcedureType (argTypes: "type_node list")

definition sameRoot :: "type_node \<Rightarrow> type_node \<Rightarrow> bool" where
  "sameRoot X Y = (case (X, Y) of (PrimaryType _ r, PrimaryType _ s) \<Rightarrow> r = s | _ \<Rightarrow> False)"

definition isProcedureType :: "subroutine_type \<Rightarrow> bool" where
  "isProcedureType X = (case X of ProcedureType _ \<Rightarrow> True | _ \<Rightarrow> False)"

definition compareProfiles :: "subroutine_type \<Rightarrow> subroutine_type \<Rightarrow> bool" where
  "compareProfiles X Y =
     (if length (argTypes X) \<noteq> length (argTypes Y) then False
      else if isProcedureType X \<and> \<not> isProcedureType Y then False
      else if \<not> isProcedureType X \<and> isProcedureType Y then False
      else if \<not> list_all2 (\<lambda>XargTy YargTy. XargTy = YargTy \<or> sameRoot XargTy YargTy) (argTypes X) (argTypes Y)
        then False
      else if isProcedureType X then True
      else returnType X = returnType Y \<or> sameRoot (returnType X) (returnType Y))"

text \<open>The kinds of declarations, in the order of \<^verbatim>\<open>AstKind\<close>.\<close>

datatype decl_kind =
    AST_PackageDecl | AST_BodyDecl
  | AST_AccessDecl | AST_EnumerationDecl | AST_IncompleteTypeDecl | AST_IntegerDecl | AST_ArrayDecl
  | AST_PrivateTypeDecl | AST_RecordDecl
  | AST_PkgInstanceDecl
  | AST_LoopDecl | AST_ObjectDecl | AST_ParamValueDecl | AST_RenamedObjectDecl
  | AST_ProcedureDecl | AST_FunctionDecl | AST_EnumLiteral | AST_PosAD | AST_ValAD
  | AST_UseDecl | AST_ExceptionDecl | AST_ComponentDecl

datatype decl = Decl (declId: nat) (getIdInfo: string) (declKind: decl_kind)
  (declType: "subroutine_type option") (regionDecls: "decl list")

definition denotesTypeDecl :: "decl \<Rightarrow> bool" where
  "denotesTypeDecl d \<longleftrightarrow> declKind d \<in> {AST_AccessDecl, AST_EnumerationDecl, AST_IncompleteTypeDecl,
     AST_IntegerDecl, AST_ArrayDecl, AST_PrivateTypeDecl, AST_RecordDecl}"

definition denotesValueDecl :: "decl \<Rightarrow> bool" where
  "denotesValueDecl d \<longleftrightarrow> declKind d \<in> {AST_LoopDecl, AST_ObjectDecl, AST_ParamValueDecl, AST_RenamedObjectDecl}"

definition denotesSubroutineDecl :: "decl \<Rightarrow> bool" where
  "denotesSubroutineDecl d \<longleftrightarrow> declKind d \<in> {AST_ProcedureDecl, AST_FunctionDecl, AST_EnumLiteral, AST_PosAD, AST_ValAD}"

definition denotesFunctionDecl :: "decl \<Rightarrow> bool" where
  "denotesFunctionDecl d \<longleftrightarrow> declKind d \<in> {AST_FunctionDecl, AST_EnumLiteral, AST_PosAD, AST_ValAD}"

section \<open>Homonyms\<close>

record homonym =
  hm_direct :: "decl list"
  hm_import :: "decl list"

type_synonym homonyms = "string \<Rightarrow> homonym option"

definition newHomonym :: homonym where
  "newHomonym = \<lparr>hm_direct = [], hm_import = []\<rparr>"

definition homonymEmpty :: "homonym \<Rightarrow> bool" where
  "homonymEmpty h \<longleftrightarrow> hm_direct h = [] \<and> hm_import h = []"

definition getOrCreateHomonym :: "string \<Rightarrow> homonyms \<Rightarrow> homonym" where
  "getOrCreateHomonym info hs = (case hs info of Some h \<Rightarrow> h | None \<Rightarrow> newHomonym)"

definition homonymAddDirect :: "decl \<Rightarrow> homonyms \<Rightarrow> homonyms" where
  "homonymAddDirect d hs =
     (let h = getOrCreateHomonym (getIdInfo d) hs in hs(getIdInfo d \<mapsto> h\<lparr>hm_direct := d # hm_direct h\<rparr>))"

definition homonymAddImport :: "decl \<Rightarrow> homonyms \<Rightarrow> homonyms" where
  "homonymAddImport d hs =
     (let h = getOrCreateHomonym (getIdInfo d) hs in hs(getIdInfo d \<mapsto> h\<lparr>hm_import := d # hm_import h\<rparr>))"

definition removeDirectDecl :: "decl \<Rightarrow> homonyms \<Rightarrow> homonyms option" where
  "removeDirectDecl d hs =
     (case hs (getIdInfo d) of
        None \<Rightarrow> None
      | Some h \<Rightarrow>
          if d \<in> set (hm_direct h) then Some (hs(getIdInfo d \<mapsto> h\<lparr>hm_direct := remove1 d (hm_direct h)\<rparr>))
          else None)"

definition removeImportDecl :: "decl \<Rightarrow> homonyms \<Rightarrow> homonyms option" where
  "removeImportDecl d hs =
     (case hs (getIdInfo d) of
        None \<Rightarrow> None
      | Some h \<Rightarrow>
          if d \<in> set (hm_import h) then Some (hs(getIdInfo d \<mapsto> h\<lparr>hm_import := remove1 d (hm_import h)\<rparr>))
          else None)"

section \<open>Declarative regions\<close>

lemma size_region: "size_list size (regionDecls d) < size d"
  by (cases d) simp

function importDeclarativeRegion :: "decl list \<Rightarrow> homonyms \<Rightarrow> homonyms" where
  "importDeclarativeRegion [] hs = hs"
| "importDeclarativeRegion (d # ds) hs =
     (let hs1 = homonymAddImport d hs in
      importDeclarativeRegion ds
        (if declKind d \<in> {AST_ArrayDecl, AST_EnumerationDecl, AST_IntegerDecl, AST_PrivateTypeDecl}
         then importDeclarativeRegion (regionDecls d) hs1 else hs1))"
  by pat_completeness auto
termination
  by (relation "measure (size_list size \<circ> fst)")
    (auto simp: less_Suc_eq_le intro!: trans_le_add1 less_imp_le [OF size_region])

text \<open>\<open>None\<close> is the failure of an assertion in a removal.\<close>

function clearDeclarativeRegion :: "decl list \<Rightarrow> homonyms \<Rightarrow> homonyms option" where
  "clearDeclarativeRegion [] hs = Some hs"
| "clearDeclarativeRegion (d # ds) hs =
     (case removeImportDecl d hs of
        None \<Rightarrow> None
      | Some hs1 \<Rightarrow>
          (case (if declKind d \<in> {AST_EnumerationDecl, AST_IntegerDecl}
                 then clearDeclarativeRegion (regionDecls d) hs1 else Some hs1) of
             None \<Rightarrow> None
           | Some hs2 \<Rightarrow> clearDeclarativeRegion ds hs2))"
  by pat_completeness auto
termination
  by (relation "measure (size_list size \<circ> fst)")
    (auto simp: less_Suc_eq_le intro!: trans_le_add1 less_imp_le [OF size_region])

section \<open>Scopes\<close>

datatype scope_kind = DEAD_SCOPE | BASIC_SCOPE | CUNIT_SCOPE | PACKAGE_SCOPE | SUBROUTINE_SCOPE | RECORD_SCOPE

record scope_entry =
  en_kind :: scope_kind
  en_tag :: nat
  en_direct :: "decl list"
  en_imports :: "decl list"

text \<open>The entries, innermost first; the entries in the cache are empty, so that their number is enough.\<close>

record scope =
  so_entries :: "scope_entry list"
  so_homonyms :: homonyms
  so_cached :: nat

definition pushScope :: "scope_kind \<Rightarrow> scope \<Rightarrow> scope" where
  "pushScope kind s =
     s\<lparr>so_entries := \<lparr>en_kind = kind, en_tag = length (so_entries s) + 1, en_direct = [], en_imports = []\<rparr> # so_entries s,
       so_cached := so_cached s - 1\<rparr>"

definition newScope :: "homonyms \<Rightarrow> scope" where
  "newScope hs = pushScope CUNIT_SCOPE \<lparr>so_entries = [], so_homonyms = hs, so_cached = 0\<rparr>"

definition getScopeKind :: "scope \<Rightarrow> scope_kind" where
  "getScopeKind s = en_kind (hd (so_entries s))"

fun clearImports :: "decl list \<Rightarrow> homonyms \<Rightarrow> homonyms option" where
  "clearImports [] hs = Some hs"
| "clearImports (p # ps) hs =
     (case clearDeclarativeRegion (regionDecls p) hs of None \<Rightarrow> None | Some hs1 \<Rightarrow> clearImports ps hs1)"

text \<open>A walk over declarations that removes each of them from its homonym.\<close>

fun removeDecls :: "(decl \<Rightarrow> homonyms \<Rightarrow> homonyms option) \<Rightarrow> decl list \<Rightarrow> homonyms \<Rightarrow> homonyms option" where
  "removeDecls remove [] hs = Some hs"
| "removeDecls remove (d # ds) hs =
     (case remove d hs of None \<Rightarrow> None | Some hs1 \<Rightarrow> removeDecls remove ds hs1)"

definition clearEntry :: "scope_entry \<Rightarrow> homonyms \<Rightarrow> homonyms option" where
  "clearEntry e hs =
     (case removeDecls removeDirectDecl (en_direct e) hs of None \<Rightarrow> None | Some hs1 \<Rightarrow> clearImports (en_imports e) hs1)"

definition popScope :: "scope \<Rightarrow> scope option" where
  "popScope s =
     (case so_entries s of
        [] \<Rightarrow> None
      | e # es \<Rightarrow>
          (case clearEntry e (so_homonyms s) of
             None \<Rightarrow> None
           | Some hs \<Rightarrow> Some \<lparr>so_entries = es, so_homonyms = hs,
               so_cached = (if so_cached s < 16 then so_cached s + 1 else so_cached s)\<rparr>))"

definition addImport :: "decl \<Rightarrow> scope \<Rightarrow> bool \<times> scope" where
  "addImport package s =
     (if \<exists>e \<in> set (so_entries s). package \<in> set (en_imports e) then (True, s)
      else case so_entries s of
        [] \<Rightarrow> (False, s)
      | e # es \<Rightarrow>
          (False, s\<lparr>so_homonyms := importDeclarativeRegion (regionDecls package) (so_homonyms s),
             so_entries := e\<lparr>en_imports := en_imports e @ [package]\<rparr> # es\<rparr>))"

definition directDeclsConflict :: "decl \<Rightarrow> decl \<Rightarrow> bool" where
  "directDeclsConflict X Y =
     (if getIdInfo X \<noteq> getIdInfo Y then False
      else if denotesSubroutineDecl X \<and> denotesSubroutineDecl Y
        then compareProfiles (the (declType X)) (the (declType Y))
      else True)"

definition findConflictingDirectDecl :: "decl \<Rightarrow> scope \<Rightarrow> decl option" where
  "findConflictingDirectDecl candidate s =
     find (\<lambda>extant. directDeclsConflict extant candidate) (en_direct (hd (so_entries s)))"

definition insertDirectDecl :: "decl \<Rightarrow> scope \<Rightarrow> scope" where
  "insertDirectDecl d s =
     (case so_entries s of
        [] \<Rightarrow> s
      | e # es \<Rightarrow>
          if d \<in> set (en_direct e) then s
          else s\<lparr>so_entries := e\<lparr>en_direct := en_direct e @ [d]\<rparr> # es,
                 so_homonyms := homonymAddDirect d (so_homonyms s)\<rparr>)"

definition addDirectDecl :: "decl \<Rightarrow> scope \<Rightarrow> decl option \<times> scope" where
  "addDirectDecl d s =
     (case findConflictingDirectDecl d s of
        Some conflict \<Rightarrow> (Some conflict, s)
      | None \<Rightarrow> (None, insertDirectDecl d s))"

definition addDirectDeclNoConflicts :: "decl \<Rightarrow> scope \<Rightarrow> scope option" where
  "addDirectDeclNoConflicts d s =
     (if findConflictingDirectDecl d s = None then Some (insertDirectDecl d s) else None)"

section \<open>The resolver\<close>

record resolver =
  rs_idInfo :: string
  rs_directDecl :: "decl option"
  rs_directOverloads :: "decl list"
  rs_indirectValues :: "decl list"
  rs_indirectTypes :: "decl list"
  rs_indirectOverloads :: "decl list"
  rs_indirectExceptions :: "decl list"

definition clearResolver :: resolver where
  "clearResolver = \<lparr>rs_idInfo = [], rs_directDecl = None, rs_directOverloads = [], rs_indirectValues = [],
     rs_indirectTypes = [], rs_indirectOverloads = [], rs_indirectExceptions = []\<rparr>"

text \<open>
  The loop over the overloads found so far: it goes on while the type is the same.  All entries
  are subroutines.
\<close>

fun duplicatedLoop :: "subroutine_type option \<Rightarrow> bool \<Rightarrow> decl list \<Rightarrow> bool" where
  "duplicatedLoop stype duplicated [] = duplicated"
| "duplicatedLoop stype duplicated (t # ts) =
     (if denotesSubroutineDecl t then
        (if stype \<noteq> declType t then False else duplicatedLoop stype True ts)
      else duplicatedLoop stype duplicated ts)"

definition isDirectKind :: "decl \<Rightarrow> bool" where
  "isDirectKind d \<longleftrightarrow> denotesValueDecl d \<or> denotesTypeDecl d \<or>
     declKind d \<in> {AST_PackageDecl, AST_ExceptionDecl, AST_ComponentDecl}"

fun resolveDirectDecls :: "decl list \<Rightarrow> resolver \<Rightarrow> (bool \<times> resolver) option" where
  "resolveDirectDecls [] r = Some (rs_directOverloads r \<noteq> [], r)"
| "resolveDirectDecls (candidate # ds) r =
     (if denotesSubroutineDecl candidate then
        resolveDirectDecls ds
          (if duplicatedLoop (declType candidate) False (rs_directOverloads r) then r
           else r\<lparr>rs_directOverloads := rs_directOverloads r @ [candidate]\<rparr>)
      else if \<not> isDirectKind candidate then None
      else if rs_directOverloads r = [] then Some (True, r\<lparr>rs_directDecl := Some candidate\<rparr>)
      else Some (True, r))"

fun partitionIndirect :: "decl list \<Rightarrow> resolver \<Rightarrow> resolver option" where
  "partitionIndirect [] r = Some r"
| "partitionIndirect (candidate # ds) r =
     (if denotesSubroutineDecl candidate then
        partitionIndirect ds (r\<lparr>rs_indirectOverloads := rs_indirectOverloads r @ [candidate]\<rparr>)
      else if denotesValueDecl candidate then
        partitionIndirect ds (r\<lparr>rs_indirectValues := rs_indirectValues r @ [candidate]\<rparr>)
      else if denotesTypeDecl candidate then
        partitionIndirect ds (r\<lparr>rs_indirectTypes := rs_indirectTypes r @ [candidate]\<rparr>)
      else if declKind candidate = AST_ExceptionDecl then
        partitionIndirect ds (r\<lparr>rs_indirectExceptions := rs_indirectExceptions r @ [candidate]\<rparr>)
      else None)"

definition resolveIndirectDecls :: "homonym \<Rightarrow> resolver \<Rightarrow> (bool \<times> resolver) option" where
  "resolveIndirectDecls h r =
     (if hm_import h = [] then Some (False, r) else map_option (Pair True) (partitionIndirect (hm_import h) r))"

definition resolve :: "string \<Rightarrow> homonyms \<Rightarrow> resolver \<Rightarrow> (bool \<times> resolver) option" where
  "resolve info hs r =
     (case hs info of
        None \<Rightarrow> Some (False, r\<lparr>rs_idInfo := info\<rparr>)
      | Some h \<Rightarrow>
          if homonymEmpty h then Some (False, r\<lparr>rs_idInfo := info\<rparr>)
          else (case resolveDirectDecls (hm_direct h) (r\<lparr>rs_idInfo := info\<rparr>) of
             None \<Rightarrow> None
           | Some (b, r1) \<Rightarrow>
               (case resolveIndirectDecls h r1 of None \<Rightarrow> None | Some (b', r2) \<Rightarrow> Some (b \<or> b', r2))))"

text \<open>The lookup of the type checker: a cleared resolver resolves the name.\<close>

definition lookupName :: "string \<Rightarrow> scope \<Rightarrow> (bool \<times> resolver) option" where
  "lookupName info s = resolve info (so_homonyms s) clearResolver"

definition hasDirectValue :: "resolver \<Rightarrow> bool" where
  "hasDirectValue r \<longleftrightarrow> (case rs_directDecl r of None \<Rightarrow> False | Some d \<Rightarrow> denotesValueDecl d)"

definition hasDirectType :: "resolver \<Rightarrow> bool" where
  "hasDirectType r \<longleftrightarrow> (case rs_directDecl r of None \<Rightarrow> False | Some d \<Rightarrow> denotesTypeDecl d)"

definition hasVisibleIndirectValue :: "resolver \<Rightarrow> bool" where
  "hasVisibleIndirectValue r \<longleftrightarrow> length (rs_indirectValues r) = 1 \<and> rs_indirectOverloads r = [] \<and> rs_indirectTypes r = []"

definition hasVisibleIndirectType :: "resolver \<Rightarrow> bool" where
  "hasVisibleIndirectType r \<longleftrightarrow> length (rs_indirectTypes r) = 1 \<and> rs_indirectValues r = [] \<and> rs_indirectOverloads r = []"

definition hasVisibleIndirectOverloads :: "resolver \<Rightarrow> bool" where
  "hasVisibleIndirectOverloads r \<longleftrightarrow> rs_indirectOverloads r \<noteq> [] \<and> rs_indirectValues r = [] \<and> rs_indirectTypes r = []"

definition numResolvedDecls :: "resolver \<Rightarrow> nat" where
  "numResolvedDecls r = of_bool (hasDirectValue r) + of_bool (hasDirectType r) + length (rs_directOverloads r) +
     length (rs_indirectValues r) + length (rs_indirectTypes r) + length (rs_indirectOverloads r) +
     length (rs_indirectExceptions r)"

definition filterOverloads :: "(decl \<Rightarrow> bool) \<Rightarrow> resolver \<Rightarrow> bool \<times> resolver" where
  "filterOverloads P r =
     (let ds = filter (Not \<circ> P) (rs_directOverloads r); is = filter (Not \<circ> P) (rs_indirectOverloads r) in
      (length ds \<noteq> length (rs_directOverloads r) \<or> length is \<noteq> length (rs_indirectOverloads r),
       r\<lparr>rs_directOverloads := ds, rs_indirectOverloads := is\<rparr>))"

definition getArity :: "decl \<Rightarrow> nat" where
  "getArity d = (case declType d of None \<Rightarrow> 0 | Some t \<Rightarrow> length (argTypes t))"

definition filterOverloadsWRTArity :: "nat \<Rightarrow> resolver \<Rightarrow> bool \<times> resolver" where
  "filterOverloadsWRTArity arity = filterOverloads (\<lambda>d.
     if denotesSubroutineDecl d then getArity d \<noteq> arity
     else if arity = 0 then declKind d \<noteq> AST_EnumLiteral else False)"

definition filterProcedures :: "resolver \<Rightarrow> bool \<times> resolver" where
  "filterProcedures = filterOverloads (\<lambda>d. declKind d = AST_ProcedureDecl)"

definition filterFunctionals :: "resolver \<Rightarrow> bool \<times> resolver" where
  "filterFunctionals r =
     (let (b, r1) = filterOverloads denotesFunctionDecl r in
      if b then (True, r1) else filterOverloads (\<lambda>d. declKind d = AST_EnumLiteral) r1)"

definition filterNullaryOverloads :: "resolver \<Rightarrow> bool \<times> resolver" where
  "filterNullaryOverloads = filterOverloads (\<lambda>d. if denotesSubroutineDecl d then getArity d = 0 else True)"

definition getVisibleSubroutines :: "resolver \<Rightarrow> decl list \<Rightarrow> bool \<times> decl list" where
  "getVisibleSubroutines r srDecls =
     (if hasDirectValue r then (False, srDecls)
      else
        let ds = srDecls @ filter denotesSubroutineDecl (rs_directOverloads r) in
        if rs_indirectValues r \<noteq> [] then (length srDecls \<noteq> length ds, ds)
        else let es = ds @ filter denotesSubroutineDecl (rs_indirectOverloads r) in (length srDecls \<noteq> length es, es))"

section \<open>What is visible\<close>

text \<open>
  The declarations an import brings in, in order, and those its removal goes over.
\<close>

function importedDecls :: "decl list \<Rightarrow> decl list" where
  "importedDecls [] = []"
| "importedDecls (d # ds) =
     d # (if declKind d \<in> {AST_ArrayDecl, AST_EnumerationDecl, AST_IntegerDecl, AST_PrivateTypeDecl}
          then importedDecls (regionDecls d) else []) @ importedDecls ds"
  by pat_completeness auto
termination
  by (relation "measure (size_list size)")
    (auto simp: less_Suc_eq_le intro!: trans_le_add1 less_imp_le [OF size_region])

text \<open>The declarations of a name in the open scopes: the innermost first, and in a scope the latest first.\<close>

definition named :: "string \<Rightarrow> decl list \<Rightarrow> decl list" where
  "named info = filter (\<lambda>d. getIdInfo d = info)"

definition visibleDirect :: "scope_entry list \<Rightarrow> string \<Rightarrow> decl list" where
  "visibleDirect es info = concat (map (\<lambda>e. named info (rev (en_direct e))) es)"

definition entryImports :: "scope_entry \<Rightarrow> decl list" where
  "entryImports e = concat (map (\<lambda>p. importedDecls (regionDecls p)) (en_imports e))"

definition visibleImport :: "scope_entry list \<Rightarrow> string \<Rightarrow> decl list" where
  "visibleImport es info = concat (map (\<lambda>e. named info (rev (entryImports e))) es)"

definition directOf :: "homonyms \<Rightarrow> string \<Rightarrow> decl list" where
  "directOf hs info = hm_direct (getOrCreateHomonym info hs)"

definition importOf :: "homonyms \<Rightarrow> string \<Rightarrow> decl list" where
  "importOf hs info = hm_import (getOrCreateHomonym info hs)"

text \<open>
  The invariant: the homonyms are the visible declarations, and in each scope no declaration is
  in conflict with an earlier one.
\<close>

fun conflictFree :: "decl list \<Rightarrow> bool" where
  "conflictFree [] \<longleftrightarrow> True"
| "conflictFree (d # ds) \<longleftrightarrow> (\<forall>e \<in> set ds. \<not> directDeclsConflict d e) \<and> conflictFree ds"

definition scope_inv :: "scope \<Rightarrow> bool" where
  "scope_inv s \<longleftrightarrow>
     (\<forall>info. directOf (so_homonyms s) info = visibleDirect (so_entries s) info \<and>
        importOf (so_homonyms s) info = visibleImport (so_entries s) info) \<and>
     (\<forall>e \<in> set (so_entries s). conflictFree (en_direct e) \<and> distinct (en_direct e))"

lemma named_simps [simp]:
  "named info [] = []" "named info (d # ds) = (if getIdInfo d = info then d # named info ds else named info ds)"
  "named info (xs @ ys) = named info xs @ named info ys"
  by (simp_all add: named_def)

lemma homonymAdd_of:
  "directOf (homonymAddDirect d hs) info = named info [d] @ directOf hs info"
  "importOf (homonymAddDirect d hs) info = importOf hs info"
  "directOf (homonymAddImport d hs) info = directOf hs info"
  "importOf (homonymAddImport d hs) info = named info [d] @ importOf hs info"
  by (auto simp: directOf_def importOf_def homonymAddDirect_def homonymAddImport_def getOrCreateHomonym_def Let_def)

lemma importDeclarativeRegion_of:
  "directOf (importDeclarativeRegion ds hs) info = directOf hs info"
  "importOf (importDeclarativeRegion ds hs) info = named info (rev (importedDecls ds)) @ importOf hs info"
  by (induction ds hs rule: importDeclarativeRegion.induct) (auto simp: homonymAdd_of Let_def)

lemma removeDirectDecl_of:
  assumes "d \<in> set (directOf hs (getIdInfo d))"
  shows "\<exists>hs'. removeDirectDecl d hs = Some hs' \<and> (\<forall>info.
    directOf hs' info = (if info = getIdInfo d then remove1 d (directOf hs info) else directOf hs info) \<and>
    importOf hs' info = importOf hs info)"
  using assms
  by (auto simp: removeDirectDecl_def directOf_def importOf_def getOrCreateHomonym_def newHomonym_def split: option.splits)

lemma removeImportDecl_of:
  assumes "d \<in> set (importOf hs (getIdInfo d))"
  shows "\<exists>hs'. removeImportDecl d hs = Some hs' \<and> (\<forall>info.
    importOf hs' info = (if info = getIdInfo d then remove1 d (importOf hs info) else importOf hs info) \<and>
    directOf hs' info = directOf hs info)"
  using assms
  by (auto simp: removeImportDecl_def directOf_def importOf_def getOrCreateHomonym_def newHomonym_def split: option.splits)

text \<open>
  The walk takes the declarations away from the front of the lists, in whatever order it goes
  over them.
\<close>

lemma removeDecls_of:
  assumes rm: "\<And>d hs. d \<in> set (f hs (getIdInfo d)) \<Longrightarrow> \<exists>hs'. remove d hs = Some hs' \<and>
      (\<forall>info. f hs' info = (if info = getIdInfo d then remove1 d (f hs info) else f hs info) \<and> g hs' info = g hs info)"
    and "\<And>info. f hs info = seg info @ rest info" "\<And>info. mset (seg info) = mset (named info ds)"
  shows "\<exists>hs'. removeDecls remove ds hs = Some hs' \<and> (\<forall>info. f hs' info = rest info \<and> g hs' info = g hs info)"
  using assms(2,3)
proof (induction ds arbitrary: hs seg)
  case Nil
  then show ?case by simp
next
  case (Cons d ds)
  have d: "d \<in> set (seg (getIdInfo d))" using Cons.prems(2) [of "getIdInfo d"] by (metis list.set_intros(1) named_simps(2) set_mset_mset)
  then obtain hs1 where hs1: "remove d hs = Some hs1"
    "\<And>info. f hs1 info = (if info = getIdInfo d then remove1 d (f hs info) else f hs info)"
    "\<And>info. g hs1 info = g hs info"
    using rm [of d hs] Cons.prems(1) by auto
  have "\<exists>hs'. removeDecls remove ds hs1 = Some hs' \<and> (\<forall>info. f hs' info = rest info \<and> g hs' info = g hs1 info)"
  proof (rule Cons.IH)
    fix info
    let ?seg = "\<lambda>info. if info = getIdInfo d then remove1 d (seg info) else seg info"
    show "f hs1 info = ?seg info @ rest info" using d by (auto simp: hs1(2) Cons.prems(1) remove1_append)
    show "mset (?seg info) = mset (named info ds)" using Cons.prems(2) [of info] d by auto
  qed
  then show ?case by (auto simp: hs1)
qed

lemmas removeDirectDecls_of = removeDecls_of [of directOf removeDirectDecl importOf]
lemmas removeImportDecls_of = removeDecls_of [of importOf removeImportDecl directOf]

text \<open>
  A region is cleanly importable if none of its arrays and private types brings in declarations of its own; for
  such a region the removal goes over exactly what was brought in.
\<close>

definition cleanRegion :: "decl list \<Rightarrow> bool" where
  "cleanRegion ds \<longleftrightarrow>
     (\<forall>d \<in> set (importedDecls ds). declKind d \<in> {AST_ArrayDecl, AST_PrivateTypeDecl} \<longrightarrow> regionDecls d = [])"

lemma cleanRegion_Cons:
  "cleanRegion (d # ds) \<longleftrightarrow> (declKind d \<in> {AST_ArrayDecl, AST_PrivateTypeDecl} \<longrightarrow> regionDecls d = []) \<and>
     (declKind d \<in> {AST_EnumerationDecl, AST_IntegerDecl} \<longrightarrow> cleanRegion (regionDecls d)) \<and> cleanRegion ds"
  by (auto simp: cleanRegion_def)

lemma removeDecls_append:
  "removeDecls remove (xs @ ys) hs = (case removeDecls remove xs hs of None \<Rightarrow> None | Some hs1 \<Rightarrow> removeDecls remove ys hs1)"
  by (induction xs arbitrary: hs) (auto split: option.splits)

lemma clearDeclarativeRegion_removes:
  "cleanRegion ds \<Longrightarrow> clearDeclarativeRegion ds hs = removeDecls removeImportDecl (importedDecls ds) hs"
proof (induction ds hs rule: clearDeclarativeRegion.induct)
  case (2 d ds hs)
  have c: "cleanRegion ds" using 2(3) by (simp add: cleanRegion_Cons)
  show ?case
  proof (cases "removeImportDecl d hs")
    case (Some hs1)
    show ?thesis
    proof (cases "declKind d \<in> {AST_EnumerationDecl, AST_IntegerDecl}")
      case True
      then have "cleanRegion (regionDecls d)" using 2(3) by (simp add: cleanRegion_Cons)
      then show ?thesis using True 2(1) [OF Some True] 2(2) [OF Some _ c]
        by (auto simp: Some removeDecls_append split: option.split)
    next
      case False
      then have "importedDecls (d # ds) = d # importedDecls ds"
        using 2(3) by (auto simp: cleanRegion_Cons)
      then show ?thesis using False 2(2) [OF Some _ c] by (simp add: Some del: importedDecls.simps)
    qed
  qed simp
qed simp

lemma clearImports_removes:
  "list_all (\<lambda>p. cleanRegion (regionDecls p)) ps \<Longrightarrow>
     clearImports ps hs = removeDecls removeImportDecl (concat (map (\<lambda>p. importedDecls (regionDecls p)) ps)) hs"
  by (induction ps arbitrary: hs) (auto simp: clearDeclarativeRegion_removes removeDecls_append split: option.splits)

section \<open>The invariant is kept\<close>

lemma newScope_inv: "(\<And>info. hs info = None) \<Longrightarrow> scope_inv (newScope hs)"
  by (simp add: scope_inv_def newScope_def pushScope_def visibleDirect_def visibleImport_def entryImports_def
      directOf_def importOf_def getOrCreateHomonym_def newHomonym_def)

lemma pushScope_inv: "scope_inv s \<Longrightarrow> scope_inv (pushScope kind s)"
  by (auto simp: scope_inv_def pushScope_def visibleDirect_def visibleImport_def entryImports_def)

lemma conflictFree_snoc:
  "conflictFree (ds @ [d]) \<longleftrightarrow> conflictFree ds \<and> (\<forall>e \<in> set ds. \<not> directDeclsConflict e d)"
  by (induction ds) auto

lemma findConflicting_None:
  "findConflictingDirectDecl d s = None \<longleftrightarrow> (\<forall>e \<in> set (en_direct (hd (so_entries s))). \<not> directDeclsConflict e d)"
  by (auto simp: findConflictingDirectDecl_def find_None_iff)

lemma insertDirectDecl_inv:
  assumes "scope_inv s" "findConflictingDirectDecl d s = None"
  shows "scope_inv (insertDirectDecl d s)"
proof (cases "so_entries s")
  case Nil
  then show ?thesis using assms(1) by (simp add: insertDirectDecl_def)
next
  case (Cons e es)
  then show ?thesis
    using assms
    by (auto simp: insertDirectDecl_def scope_inv_def visibleDirect_def visibleImport_def entryImports_def homonymAdd_of
        conflictFree_snoc findConflicting_None)
qed

lemma addDirectDecl_inv: "scope_inv s \<Longrightarrow> scope_inv (snd (addDirectDecl d s))"
  by (auto simp: addDirectDecl_def insertDirectDecl_inv split: option.splits)

lemma addImport_inv: "scope_inv s \<Longrightarrow> scope_inv (snd (addImport package s))"
  by (cases "so_entries s")
    (auto simp: addImport_def scope_inv_def visibleDirect_def visibleImport_def entryImports_def
      importDeclarativeRegion_of)

lemma popScope_inv:
  assumes "scope_inv s" "so_entries s = e # es" "list_all (\<lambda>p. cleanRegion (regionDecls p)) (en_imports e)"
  shows "\<exists>s'. popScope s = Some s' \<and> so_entries s' = es \<and> scope_inv s'"
proof -
  have v: "directOf (so_homonyms s) info = named info (rev (en_direct e)) @ visibleDirect es info"
    "importOf (so_homonyms s) info = named info (rev (entryImports e)) @ visibleImport es info" for info
    using assms(1,2) by (simp_all add: scope_inv_def visibleDirect_def visibleImport_def)
  have m: "mset (named info (rev xs)) = mset (named info xs)" for info xs by (simp add: named_def)
  have "\<exists>hs1. removeDecls removeDirectDecl (en_direct e) (so_homonyms s) = Some hs1 \<and>
      (\<forall>info. directOf hs1 info = visibleDirect es info \<and> importOf hs1 info = importOf (so_homonyms s) info)"
    by (rule removeDirectDecls_of [OF _ v(1) m]) (rule removeDirectDecl_of)
  then obtain hs1 where h1: "removeDecls removeDirectDecl (en_direct e) (so_homonyms s) = Some hs1"
    "\<And>info. directOf hs1 info = visibleDirect es info"
    "\<And>info. importOf hs1 info = named info (rev (entryImports e)) @ visibleImport es info"
    using v(2) by auto
  have "\<exists>hs2. removeDecls removeImportDecl (entryImports e) hs1 = Some hs2 \<and>
      (\<forall>info. importOf hs2 info = visibleImport es info \<and> directOf hs2 info = directOf hs1 info)"
    by (rule removeImportDecls_of [OF _ h1(3) m]) (rule removeImportDecl_of)
  then obtain hs2 where h2: "removeDecls removeImportDecl (entryImports e) hs1 = Some hs2"
    "\<And>info. importOf hs2 info = visibleImport es info" "\<And>info. directOf hs2 info = visibleDirect es info"
    using h1(2) by auto
  have "clearEntry e (so_homonyms s) = Some hs2"
    using h1(1) h2(1) clearImports_removes [OF assms(3)] by (simp add: clearEntry_def entryImports_def)
  then show ?thesis using assms(1,2) h2(2,3) by (simp add: popScope_def scope_inv_def)
qed

section \<open>Reachable scopes\<close>

text \<open>The steps of a scope while it has an open entry; imported packages are cleanly importable.\<close>

inductive scope_step :: "scope \<Rightarrow> scope \<Rightarrow> bool" where
  step_push: "scope_step s (pushScope kind s)"
| step_pop: "popScope s = Some s' \<Longrightarrow> scope_step s s'"
| step_direct: "so_entries s \<noteq> [] \<Longrightarrow> scope_step s (snd (addDirectDecl d s))"
| step_noConflicts: "so_entries s \<noteq> [] \<Longrightarrow> addDirectDeclNoConflicts d s = Some s' \<Longrightarrow> scope_step s s'"
| step_import: "so_entries s \<noteq> [] \<Longrightarrow> cleanRegion (regionDecls p) \<Longrightarrow> scope_step s (snd (addImport p s))"

definition cleanScope :: "scope \<Rightarrow> bool" where
  "cleanScope s \<longleftrightarrow> (\<forall>e \<in> set (so_entries s). list_all (\<lambda>p. cleanRegion (regionDecls p)) (en_imports e))"

lemma insertDirectDecl_entries:
  "so_entries s = e # es \<Longrightarrow> \<exists>e'. so_entries (insertDirectDecl d s) = e' # es \<and> en_imports e' = en_imports e"
  by (auto simp: insertDirectDecl_def)

lemma addDirectDecl_entries:
  "so_entries s = e # es \<Longrightarrow> \<exists>e'. so_entries (snd (addDirectDecl d s)) = e' # es \<and> en_imports e' = en_imports e"
  using insertDirectDecl_entries [of s e es d] by (auto simp: addDirectDecl_def split: option.split)

lemma addImport_entries:
  "so_entries s = e # es \<Longrightarrow> \<exists>e'. so_entries (snd (addImport p s)) = e' # es \<and>
     set (en_imports e') \<subseteq> insert p (set (en_imports e))"
  by (auto simp: addImport_def)

lemma scope_step_inv:
  assumes "scope_step s s'" "scope_inv s \<and> cleanScope s"
  shows "scope_inv s' \<and> cleanScope s'"
  using assms
proof (induction rule: scope_step.induct)
  case (step_push s kind)
  then show ?case using pushScope_inv [of s kind] by (auto simp: cleanScope_def pushScope_def)
next
  case (step_pop s s')
  then obtain e es where e: "so_entries s = e # es" by (cases "so_entries s") (auto simp: popScope_def)
  then show ?case using popScope_inv [of s e es] step_pop by (auto simp: cleanScope_def)
next
  case (step_direct s d)
  then obtain e es where e: "so_entries s = e # es" by (cases "so_entries s") auto
  then show ?case using addDirectDecl_inv [of s d] addDirectDecl_entries [OF e, of d] step_direct
    by (auto simp: cleanScope_def)
next
  case (step_noConflicts s d s')
  then obtain e es where e: "so_entries s = e # es" by (cases "so_entries s") auto
  then show ?case using insertDirectDecl_inv [of s d] insertDirectDecl_entries [OF e, of d] step_noConflicts
    by (auto simp: cleanScope_def addDirectDeclNoConflicts_def split: if_splits)
next
  case (step_import s p)
  then obtain e es where e: "so_entries s = e # es" by (cases "so_entries s") auto
  then show ?case using addImport_inv [of s p] addImport_entries [OF e, of p] step_import
    by (fastforce simp: cleanScope_def list_all_iff)
qed

lemma reachable_inv: "scope_step\<^sup>*\<^sup>* (newScope (\<lambda>_. None)) s \<Longrightarrow> scope_inv s \<and> cleanScope s"
proof (induction rule: rtranclp_induct)
  case base
  then show ?case using newScope_inv [of "\<lambda>_. None"] by (simp add: cleanScope_def newScope_def pushScope_def)
next
  case (step s s')
  then show ?case using scope_step_inv by blast
qed


definition routine :: "nat \<Rightarrow> nat \<Rightarrow> decl" where
  "routine i t = Decl i ''F'' AST_FunctionDecl (Some (FunctionType [] (OtherType t))) []"

definition sampleScope :: scope where
  "sampleScope = snd (addDirectDecl (routine 1 7) (newScope (\<lambda>_. None)))"

lemma sampleScope_reached: "scope_step\<^sup>*\<^sup>* (newScope (\<lambda>_. None)) sampleScope"
  unfolding sampleScope_def by (intro r_into_rtranclp step_direct) (simp add: newScope_def pushScope_def)

lemma sampleScope_direct: "visibleDirect (so_entries sampleScope) ''F'' = [routine 1 7]"
  "visibleImport (so_entries sampleScope) ''F'' = []"
  by code_simp+


section \<open>A closed scope leaves no trace\<close>

text \<open>Any operations that open and close scopes of their own, within the innermost one.\<close>

inductive bracketed :: "scope \<Rightarrow> scope \<Rightarrow> bool" where
  br_none: "bracketed s s"
| br_direct: "bracketed s s1 \<Longrightarrow> bracketed s (snd (addDirectDecl d s1))"
| br_import: "bracketed s s1 \<Longrightarrow> cleanRegion (regionDecls p) \<Longrightarrow> bracketed s (snd (addImport p s1))"
| br_nest: "bracketed s s1 \<Longrightarrow> bracketed (pushScope kind s1) s2 \<Longrightarrow> popScope s2 = Some s3 \<Longrightarrow> bracketed s s3"

lemma bracketed_keeps:
  assumes "bracketed s s'" "scope_inv s" "so_entries s = e # es" "list_all (\<lambda>p. cleanRegion (regionDecls p)) (en_imports e)"
  shows "scope_inv s' \<and> (\<exists>e'. so_entries s' = e' # es \<and> list_all (\<lambda>p. cleanRegion (regionDecls p)) (en_imports e'))"
  using assms
proof (induction arbitrary: e es rule: bracketed.induct)
  case (br_none s)
  then show ?case by simp
next
  case (br_direct s s1 d)
  obtain e1 where "scope_inv s1" "so_entries s1 = e1 # es" "list_all (\<lambda>p. cleanRegion (regionDecls p)) (en_imports e1)"
    using br_direct.IH [OF br_direct.prems] by blast
  then show ?case using addDirectDecl_inv [of s1 d] addDirectDecl_entries [of s1 e1 es d] by auto
next
  case (br_import s s1 p)
  obtain e1 where "scope_inv s1" "so_entries s1 = e1 # es" "list_all (\<lambda>p. cleanRegion (regionDecls p)) (en_imports e1)"
    using br_import.IH [OF br_import.prems] by blast
  then show ?case using addImport_inv [of s1 p] addImport_entries [of s1 e1 es p] br_import(2)
    by (fastforce simp: list_all_iff)
next
  case (br_nest s s1 kind s2 s3)
  obtain e1 where 1: "scope_inv s1" "so_entries s1 = e1 # es" "list_all (\<lambda>p. cleanRegion (regionDecls p)) (en_imports e1)"
    using br_nest.IH(1) [OF br_nest.prems] by blast
  have p: "so_entries (pushScope kind s1) = \<lparr>en_kind = kind, en_tag = length (so_entries s1) + 1, en_direct = [],
      en_imports = []\<rparr> # e1 # es"
    by (simp add: pushScope_def 1(2))
  obtain e2 where "scope_inv s2" "so_entries s2 = e2 # e1 # es"
    "list_all (\<lambda>p. cleanRegion (regionDecls p)) (en_imports e2)"
    using br_nest.IH(2) [OF pushScope_inv [OF 1(1)] p] by auto
  from popScope_inv [OF this] br_nest(3) 1(3) show ?case by auto
qed

lemma resolve_homonym:
  "resolve info hs r = (let h = getOrCreateHomonym info hs in
      if homonymEmpty h then Some (False, r\<lparr>rs_idInfo := info\<rparr>)
      else (case resolveDirectDecls (hm_direct h) (r\<lparr>rs_idInfo := info\<rparr>) of
             None \<Rightarrow> None
           | Some (b, r1) \<Rightarrow>
               (case resolveIndirectDecls h r1 of None \<Rightarrow> None | Some (b', r2) \<Rightarrow> Some (b \<or> b', r2))))"
  by (simp add: resolve_def getOrCreateHomonym_def newHomonym_def homonymEmpty_def split: option.split)

lemma resolve_of:
  assumes "directOf hs' info = directOf hs info" "importOf hs' info = importOf hs info"
  shows "resolve info hs' r = resolve info hs r"
proof -
  have "getOrCreateHomonym info hs' = getOrCreateHomonym info hs"
    using assms by (simp add: directOf_def importOf_def)
  then show ?thesis unfolding resolve_homonym by simp
qed

lemma bracketed_pop:
  assumes "scope_inv s" "bracketed (pushScope kind s) s'"
  shows "\<exists>s''. popScope s' = Some s'' \<and> so_entries s'' = so_entries s \<and> (\<forall>info. lookupName info s'' = lookupName info s)"
proof -
  have "scope_inv s' \<and> (\<exists>e'. so_entries s' = e' # so_entries s \<and> list_all (\<lambda>p. cleanRegion (regionDecls p)) (en_imports e'))"
    by (rule bracketed_keeps [OF assms(2) pushScope_inv [OF assms(1)]]) (auto simp: pushScope_def)
  then obtain s'' where s: "popScope s' = Some s''" "so_entries s'' = so_entries s" "scope_inv s''"
    using popScope_inv by blast
  have "lookupName info s'' = lookupName info s" for info
    unfolding lookupName_def by (rule resolve_of) (use assms(1) s(2,3) in \<open>simp_all add: scope_inv_def\<close>)
  then show ?thesis using s by blast
qed



section \<open>What a lookup finds\<close>

lemma duplicatedLoop_same:
  assumes "list_all denotesSubroutineDecl ds" "duplicatedLoop t b ds"
  shows "\<forall>d \<in> set ds. declType d = t"
  using assms by (induction ds arbitrary: b) (auto split: if_splits)

lemma duplicatedLoop_type: "list_all denotesSubroutineDecl ds \<Longrightarrow> ds \<noteq> [] \<Longrightarrow> duplicatedLoop t b ds \<Longrightarrow> t \<in> declType ` set ds"
  using duplicatedLoop_same [of ds t b] by (metis imageI list.set_sel(1))

text \<open>The overloads that are kept, and the record the loop ends with.\<close>

fun keptOverloads :: "decl list \<Rightarrow> decl list \<Rightarrow> decl list" where
  "keptOverloads acc [] = acc"
| "keptOverloads acc (d # ds) =
     (if denotesSubroutineDecl d
      then keptOverloads (if duplicatedLoop (declType d) False acc then acc else acc @ [d]) ds
      else acc)"

definition leadingDecl :: "decl list \<Rightarrow> decl option" where
  "leadingDecl ds = (case ds of [] \<Rightarrow> None | d # _ \<Rightarrow> if denotesSubroutineDecl d then None else Some d)"

lemma resolveDirectDecls_eq:
  assumes "list_all (\<lambda>d. denotesSubroutineDecl d \<or> isDirectKind d) ds" "rs_directDecl r = None"
  shows "resolveDirectDecls ds r = Some (rs_directOverloads r \<noteq> [] \<or> ds \<noteq> [],
    r\<lparr>rs_directOverloads := keptOverloads (rs_directOverloads r) ds,
      rs_directDecl := (if rs_directOverloads r = [] then leadingDecl ds else None)\<rparr>)"
  using assms
proof (induction ds r rule: resolveDirectDecls.induct)
  case (1 r)
  then show ?case by (simp add: leadingDecl_def)
next
  case (2 d ds r)
  have "rs_directOverloads r \<noteq> []" if "duplicatedLoop (declType d) False (rs_directOverloads r)"
    using that by (cases "rs_directOverloads r") auto
  then show ?case using 2 by (auto simp: leadingDecl_def)
qed

lemma keptOverloads_spec:
  assumes "list_all denotesSubroutineDecl acc"
  shows "\<exists>new. keptOverloads acc ds = acc @ new \<and> subseq new (takeWhile denotesSubroutineDecl ds) \<and>
    declType ` set (acc @ new) = declType ` set (acc @ takeWhile denotesSubroutineDecl ds) \<and>
    (distinct (map declType (acc @ takeWhile denotesSubroutineDecl ds)) \<longrightarrow> new = takeWhile denotesSubroutineDecl ds)"
  using assms
proof (induction acc ds rule: keptOverloads.induct)
  case (2 acc d ds)
  let ?T = "takeWhile denotesSubroutineDecl ds"
  show ?case
  proof (cases "denotesSubroutineDecl d")
    case True
    show ?thesis
    proof (cases "duplicatedLoop (declType d) False acc")
      case dup: True
      then have "acc \<noteq> []" by auto
      then have t: "declType d \<in> declType ` set acc" using duplicatedLoop_type [OF 2(2) _ dup] by blast
      obtain new where new: "keptOverloads acc ds = acc @ new" "subseq new ?T"
        "declType ` set (acc @ new) = declType ` set (acc @ ?T)"
        using 2(1) [OF True] 2(2) dup by auto
      have "declType ` set (acc @ ?T) = declType ` set (acc @ d # ?T)" using t by auto
      moreover have "\<not> distinct (map declType (acc @ d # ?T))" using t by auto
      ultimately show ?thesis using new True dup by (intro exI [of _ new]) auto
    next
      case nodup: False
      obtain new where new: "keptOverloads (acc @ [d]) ds = (acc @ [d]) @ new" "subseq new ?T"
        "declType ` set ((acc @ [d]) @ new) = declType ` set ((acc @ [d]) @ ?T)"
        "distinct (map declType ((acc @ [d]) @ ?T)) \<longrightarrow> new = ?T"
        using 2(1) [OF True] 2(2) nodup True by auto
      show ?thesis
      proof (intro exI [of _ "d # new"] conjI)
        show "keptOverloads acc (d # ds) = acc @ d # new" using new(1) True nodup by simp
        show "subseq (d # new) (takeWhile denotesSubroutineDecl (d # ds))" using new(2) True by simp
        show "declType ` set (acc @ d # new) = declType ` set (acc @ takeWhile denotesSubroutineDecl (d # ds))"
          using new(3) True by simp
        show "distinct (map declType (acc @ takeWhile denotesSubroutineDecl (d # ds))) \<longrightarrow>
            d # new = takeWhile denotesSubroutineDecl (d # ds)"
          using new(4) True by simp
      qed
    qed
  qed simp
qed simp

definition isIndirectKind :: "decl \<Rightarrow> bool" where
  "isIndirectKind d \<longleftrightarrow> denotesSubroutineDecl d \<or> denotesValueDecl d \<or> denotesTypeDecl d \<or> declKind d = AST_ExceptionDecl"

lemma kinds_disjoint:
  "denotesSubroutineDecl d \<Longrightarrow> \<not> denotesValueDecl d \<and> \<not> denotesTypeDecl d \<and> declKind d \<noteq> AST_ExceptionDecl"
  "denotesValueDecl d \<Longrightarrow> \<not> denotesTypeDecl d \<and> declKind d \<noteq> AST_ExceptionDecl"
  "denotesTypeDecl d \<Longrightarrow> declKind d \<noteq> AST_ExceptionDecl"
  by (auto simp: denotesSubroutineDecl_def denotesValueDecl_def denotesTypeDecl_def)

lemma partitionIndirect_eq:
  assumes "list_all isIndirectKind ds"
  shows "partitionIndirect ds r = Some (r\<lparr>
    rs_indirectOverloads := rs_indirectOverloads r @ filter denotesSubroutineDecl ds,
    rs_indirectValues := rs_indirectValues r @ filter denotesValueDecl ds,
    rs_indirectTypes := rs_indirectTypes r @ filter denotesTypeDecl ds,
    rs_indirectExceptions := rs_indirectExceptions r @ filter (\<lambda>d. declKind d = AST_ExceptionDecl) ds\<rparr>)"
  using assms
proof (induction ds r rule: partitionIndirect.induct)
  case (2 d ds r)
  then show ?case using kinds_disjoint [of d] by (auto simp: isIndirectKind_def)
qed simp



section \<open>Two ways a lookup goes wrong\<close>

text \<open>The operations of a private type stay visible after the scope that imports its package is closed.\<close>

definition equalityOp :: decl where
  "equalityOp = Decl 2 ''='' AST_FunctionDecl (Some (FunctionType [] (OtherType 1))) []"

definition privatePackage :: decl where
  "privatePackage = Decl 0 ''P'' AST_PackageDecl None [Decl 1 ''T'' AST_PrivateTypeDecl None [equalityOp]]"

text \<open>
  The removal of an import does not go into private types: after a scope with the import of a package that
  has one is closed, the operations of the type are still found.
\<close>

theorem closed_import_stays:
  "map_option (\<lambda>s. map_option fst (lookupName ''='' s))
     (popScope (snd (addImport privatePackage (pushScope BASIC_SCOPE (newScope (\<lambda>_. None)))))) = Some (Some True) \<and>
   map_option fst (lookupName ''='' (newScope (\<lambda>_. None))) = Some False"
  by code_simp

text \<open>
  A subroutine that is hidden by one of the same type in an inner scope is found as well when
  the inner scope has another overload: the search for a duplicate ends at the first other type.
\<close>

theorem hidden_overload_found:
  "let s = snd (addDirectDecl (routine 3 8) (snd (addDirectDecl (routine 2 7)
       (pushScope BASIC_SCOPE (snd (addDirectDecl (routine 1 7) (newScope (\<lambda>_. None)))))))) in
   map_option (\<lambda>(b, r). map declId (rs_directOverloads r)) (lookupName ''F'' s) = Some [3, 2, 1]"
  by code_simp

end
