(* ===== verification/ApInt.thy ===== *)
theory ApInt
  imports
    Literal
    "HOL-Library.Monad_Syntax"
begin

unbundle bit_operations_syntax

text \<open>
  Arithmetic that extends its width as needed: the helpers of \<^verbatim>\<open>lib/ast/Eval.cpp\<close>.  The
  numbers are \<^verbatim>\<open>llvm::APInt\<close> of one class, whose operations are a parameter; \<open>sint_laws\<close>
  states their documented behaviour over the signed value of a number.  In this theory and in those that
  build on it \<open>None\<close> is a failed \<^verbatim>\<open>assert\<close>, or a loop that does not end.
\<close>

section \<open>The operations used\<close>

record 'v sint_ops =
  si_getBitWidth :: "'v \<Rightarrow> nat"
  si_zext :: "nat \<Rightarrow> 'v \<Rightarrow> 'v"
  si_sext :: "nat \<Rightarrow> 'v \<Rightarrow> 'v"
  si_trunc :: "nat \<Rightarrow> 'v \<Rightarrow> 'v"
  si_sextOrTrunc :: "nat \<Rightarrow> 'v \<Rightarrow> 'v"
  si_zextOrTrunc :: "nat \<Rightarrow> 'v \<Rightarrow> 'v"
  si_isMinSignedValue :: "'v \<Rightarrow> bool"
  si_isNonNegative :: "'v \<Rightarrow> bool"
  si_flip :: "'v \<Rightarrow> 'v"
  si_inc :: "'v \<Rightarrow> 'v"
  si_dec :: "'v \<Rightarrow> 'v"
  si_add :: "'v \<Rightarrow> 'v \<Rightarrow> 'v"
  si_sub :: "'v \<Rightarrow> 'v \<Rightarrow> 'v"
  si_mul :: "'v \<Rightarrow> 'v \<Rightarrow> 'v"
  si_slt :: "'v \<Rightarrow> 'v \<Rightarrow> bool"
  si_sgt :: "'v \<Rightarrow> 'v \<Rightarrow> bool"
  si_sle :: "'v \<Rightarrow> 'v \<Rightarrow> bool"
  si_ult :: "'v \<Rightarrow> 'v \<Rightarrow> bool"
  si_ule :: "'v \<Rightarrow> 'v \<Rightarrow> bool"
  si_getMinSignedBits :: "'v \<Rightarrow> nat"
  si_getActiveBits :: "'v \<Rightarrow> nat"
  si_assign :: "nat \<Rightarrow> 'v \<Rightarrow> 'v"
  si_eqNat :: "'v \<Rightarrow> nat \<Rightarrow> bool"
  si_ofNat :: "nat \<Rightarrow> nat \<Rightarrow> 'v"
  si_getSignedMinValue :: "nat \<Rightarrow> 'v"
  si_getSignedMaxValue :: "nat \<Rightarrow> 'v"
  si_getMinValue :: "nat \<Rightarrow> 'v"
  si_getMaxValue :: "nat \<Rightarrow> 'v"
  si_getSExtValue :: "'v \<Rightarrow> 64 word"
  si_getZExtValue :: "'v \<Rightarrow> 64 word"
  si_Log2_64_Ceil :: "nat \<Rightarrow> nat"

text \<open>The least width of two's complement that holds a number.\<close>

definition signedBits :: "int \<Rightarrow> nat" where
  "signedBits z = Suc (bitLength (nat (if z < 0 then - z - 1 else z)))"

definition fitsS :: "nat \<Rightarrow> int \<Rightarrow> bool" where
  "fitsS w z \<longleftrightarrow> - (2 ^ (w - 1)) \<le> z \<and> z < 2 ^ (w - 1)"

abbreviation wrapS :: "nat \<Rightarrow> int \<Rightarrow> int" where
  "wrapS w z \<equiv> signed_take_bit (w - 1) z"

definition sint_laws :: "'v sint_ops \<Rightarrow> ('v \<Rightarrow> int) \<Rightarrow> bool" where
  "sint_laws ops sval \<longleftrightarrow>
     (let W = si_getBitWidth ops in
      (\<forall>v. 0 < W v \<and> fitsS (W v) (sval v)) \<and>
      (\<forall>w v. W v < w \<longrightarrow> W (si_zext ops w v) = w \<and> sval (si_zext ops w v) = take_bit (W v) (sval v)) \<and>
      (\<forall>w v. W v < w \<longrightarrow> W (si_sext ops w v) = w \<and> sval (si_sext ops w v) = sval v) \<and>
      (\<forall>w v. 0 < w \<longrightarrow> w < W v \<longrightarrow> W (si_trunc ops w v) = w \<and> sval (si_trunc ops w v) = wrapS w (sval v)) \<and>
      (\<forall>w v. 0 < w \<longrightarrow> W (si_sextOrTrunc ops w v) = w \<and> sval (si_sextOrTrunc ops w v) = wrapS w (sval v)) \<and>
      (\<forall>w v. 0 < w \<longrightarrow> W (si_zextOrTrunc ops w v) = w \<and>
         sval (si_zextOrTrunc ops w v) = wrapS w (take_bit (W v) (sval v))) \<and>
      (\<forall>v. si_isMinSignedValue ops v \<longleftrightarrow> sval v = - (2 ^ (W v - 1))) \<and>
      (\<forall>v. si_isNonNegative ops v \<longleftrightarrow> 0 \<le> sval v) \<and>
      (\<forall>v. W (si_flip ops v) = W v \<and> sval (si_flip ops v) = NOT (sval v)) \<and>
      (\<forall>v. W (si_inc ops v) = W v \<and> sval (si_inc ops v) = wrapS (W v) (sval v + 1)) \<and>
      (\<forall>v. W (si_dec ops v) = W v \<and> sval (si_dec ops v) = wrapS (W v) (sval v - 1)) \<and>
      (\<forall>x y. W x = W y \<longrightarrow>
         W (si_add ops x y) = W x \<and> sval (si_add ops x y) = wrapS (W x) (sval x + sval y) \<and>
         W (si_sub ops x y) = W x \<and> sval (si_sub ops x y) = wrapS (W x) (sval x - sval y) \<and>
         W (si_mul ops x y) = W x \<and> sval (si_mul ops x y) = wrapS (W x) (sval x * sval y) \<and>
         (si_slt ops x y \<longleftrightarrow> sval x < sval y) \<and> (si_sgt ops x y \<longleftrightarrow> sval y < sval x) \<and>
         (si_sle ops x y \<longleftrightarrow> sval x \<le> sval y) \<and>
         (si_ult ops x y \<longleftrightarrow> take_bit (W x) (sval x) < take_bit (W x) (sval y)) \<and>
         (si_ule ops x y \<longleftrightarrow> take_bit (W x) (sval x) \<le> take_bit (W x) (sval y))) \<and>
      (\<forall>v. si_getMinSignedBits ops v = signedBits (sval v)) \<and>
      (\<forall>v. si_getActiveBits ops v = bitLength (nat (take_bit (W v) (sval v)))) \<and>
      (\<forall>n v. int n < 2 ^ W v \<longrightarrow> W (si_assign ops n v) = W v \<and> sval (si_assign ops n v) = wrapS (W v) (int n)) \<and>
      (\<forall>v n. si_eqNat ops v n \<longleftrightarrow> take_bit (W v) (sval v) = int n) \<and>
      (\<forall>w n. 0 < w \<longrightarrow> int n < 2 ^ w \<longrightarrow> W (si_ofNat ops w n) = w \<and> sval (si_ofNat ops w n) = wrapS w (int n)) \<and>
      (\<forall>w. 0 < w \<longrightarrow>
         W (si_getSignedMinValue ops w) = w \<and> sval (si_getSignedMinValue ops w) = - (2 ^ (w - 1)) \<and>
         W (si_getSignedMaxValue ops w) = w \<and> sval (si_getSignedMaxValue ops w) = 2 ^ (w - 1) - 1 \<and>
         W (si_getMinValue ops w) = w \<and> sval (si_getMinValue ops w) = 0 \<and>
         W (si_getMaxValue ops w) = w \<and> sval (si_getMaxValue ops w) = - 1) \<and>
      (\<forall>v. W v \<le> 64 \<longrightarrow> sint (si_getSExtValue ops v) = sval v \<and>
         uint (si_getZExtValue ops v) = take_bit (W v) (sval v)) \<and>
      (\<forall>n. 0 < n \<longrightarrow> si_Log2_64_Ceil ops n = bitLength (n - 1)))"

section \<open>The helpers of the evaluation\<close>

definition zeroExtend :: "'v sint_ops \<Rightarrow> 'v \<Rightarrow> 'v" where
  "zeroExtend ops x = si_zext ops (si_getBitWidth ops x + 1) x"

definition negate :: "'v sint_ops \<Rightarrow> 'v \<Rightarrow> 'v" where
  "negate ops x = (if si_isMinSignedValue ops x then zeroExtend ops x else si_inc ops (si_flip ops x))"

text \<open>A truncation has to make the number narrower.\<close>

definition minimizeWidth :: "'v sint_ops \<Rightarrow> 'v \<Rightarrow> 'v option" where
  "minimizeWidth ops x =
     (if si_getMinSignedBits ops x < si_getBitWidth ops x then Some (si_trunc ops (si_getMinSignedBits ops x) x)
      else None)"

definition signExtend :: "'v sint_ops \<Rightarrow> 'v \<Rightarrow> 'v \<Rightarrow> 'v \<times> 'v" where
  "signExtend ops x y =
     (let xWidth = si_getBitWidth ops x; yWidth = si_getBitWidth ops y; target = max xWidth yWidth in
      if xWidth < yWidth then (si_sext ops target x, y)
      else if yWidth < xWidth then (x, si_sext ops target y)
      else (x, y))"

definition addExtending :: "'v sint_ops \<Rightarrow> 'v \<Rightarrow> 'v \<Rightarrow> 'v" where
  "addExtending ops x y =
     (if si_isNonNegative ops y then
        let (x', y') = signExtend ops x y; result = si_add ops x' y' in
        if si_slt ops result x' then zeroExtend ops result else result
      else
        let (x', y') = signExtend ops x (negate ops y); result = si_sub ops x' y' in
        if si_sgt ops result x' then zeroExtend ops result else result)"

definition subtractExtending :: "'v sint_ops \<Rightarrow> 'v \<Rightarrow> 'v \<Rightarrow> 'v" where
  "subtractExtending ops x y = addExtending ops x (negate ops y)"

definition multiplyExtending :: "'v sint_ops \<Rightarrow> 'v \<Rightarrow> 'v \<Rightarrow> 'v option" where
  "multiplyExtending ops x y =
     (let target = 2 * max (si_getBitWidth ops x) (si_getBitWidth ops y) in
      minimizeWidth ops (si_mul ops (si_sext ops target x) (si_sext ops target y)))"

text \<open>The loop \<^verbatim>\<open>while (--y != 0)\<close>, its first decrement done; it also ends when an assertion failed.\<close>

definition exponentiateLoop :: "'v sint_ops \<Rightarrow> 'v \<Rightarrow> 'v \<Rightarrow> 'v option" where
  "exponentiateLoop ops x y =
     (case while_option (\<lambda>(y, result). \<not> si_eqNat ops y 0 \<and> result \<noteq> None)
        (\<lambda>(y, result). (si_dec ops y, Option.bind result (\<lambda>r. multiplyExtending ops r x)))
        (si_dec ops y, Some x) of
        None \<Rightarrow> None
      | Some (_, result) \<Rightarrow> result)"

definition exponentiate :: "'v sint_ops \<Rightarrow> 'v \<Rightarrow> 'v \<Rightarrow> 'v option" where
  "exponentiate ops x y =
     (if \<not> si_isNonNegative ops y then None
      else if si_eqNat ops y 0 then minimizeWidth ops (si_assign ops 1 x)
      else exponentiateLoop ops x y)"

section \<open>Numbers in two's complement\<close>

lemma fitsS_wrapS: "0 < w \<Longrightarrow> fitsS w z \<Longrightarrow> wrapS w z = z"
  by (auto simp: fitsS_def intro: signed_take_bit_int_eq_self)

lemma bitLength_le_iff: "bitLength n \<le> w \<longleftrightarrow> n < 2 ^ w"
  using bitLength_bound [of n] bitLength_least [of n w]
  by (metis le_antisym less_le_trans nat_le_linear one_le_numeral power_increasing)

lemma fitsS_signedBits: "0 < w \<Longrightarrow> signedBits z \<le> w \<longleftrightarrow> fitsS w z"
proof -
  assume "0 < w"
  then have "signedBits z \<le> w \<longleftrightarrow> bitLength (nat (if z < 0 then - z - 1 else z)) \<le> w - 1"
    by (auto simp: signedBits_def)
  also have "\<dots> \<longleftrightarrow> (if z < 0 then - z - 1 else z) < 2 ^ (w - 1)"
    unfolding bitLength_le_iff by (auto simp: nat_less_iff)
  also have "\<dots> \<longleftrightarrow> fitsS w z"
    using zero_less_power [of "2 :: int" "w - 1"] by (auto simp: fitsS_def split: if_splits)
  finally show ?thesis .
qed

lemma signedBits_pos [simp]: "0 < signedBits z"
  by (simp add: signedBits_def)

lemma fitsS_own [simp]: "fitsS (signedBits z) z"
  using fitsS_signedBits [of "signedBits z" z] by simp

lemma fitsS_mono:
  assumes "fitsS w z" "w \<le> v"
  shows "fitsS v z"
proof -
  have "(2 :: int) ^ (w - 1) \<le> 2 ^ (v - 1)" using assms(2) by (intro power_increasing) auto
  then show ?thesis using assms(1) unfolding fitsS_def by linarith
qed

lemma double_power: "0 < w \<Longrightarrow> (2 :: int) ^ w = 2 * 2 ^ (w - 1)"
  by (cases w) auto

lemma wrapS_shift:
  assumes "0 < w" "fitsS w (z + k * 2 ^ w)"
  shows "wrapS w z = z + k * 2 ^ w"
proof -
  have "take_bit w z = take_bit w (z + k * 2 ^ w)" by (simp add: take_bit_eq_mod)
  then have "wrapS w z = wrapS w (z + k * 2 ^ w)"
    using assms(1) signed_take_bit_eq_iff_take_bit_eq [of "w - 1" z "z + k * 2 ^ w"] by simp
  then show ?thesis using fitsS_wrapS [OF assms] by simp
qed

lemma take_bit_fitsS: "0 < w \<Longrightarrow> fitsS w z \<Longrightarrow> take_bit w z = (if z < 0 then z + 2 ^ w else z)"
proof -
  assume a: "0 < w" "fitsS w z"
  note p = double_power [OF a(1)]
  show "take_bit w z = (if z < 0 then z + 2 ^ w else z)"
  proof (cases "z < 0")
    case True
    have "take_bit w z = (z + 2 ^ w) mod 2 ^ w" by (simp add: take_bit_eq_mod)
    also have "\<dots> = z + 2 ^ w" by (rule mod_pos_pos_trivial) (use True a p in \<open>auto simp: fitsS_def\<close>)
    finally show ?thesis using True by simp
  next
    case False
    then show ?thesis using a p by (auto simp: take_bit_eq_mod fitsS_def intro!: mod_pos_pos_trivial)
  qed
qed

lemma sint_lawsD:
  assumes "sint_laws ops sval"
  shows "0 < si_getBitWidth ops v" "fitsS (si_getBitWidth ops v) (sval v)"
    "si_getBitWidth ops v < w \<Longrightarrow> si_getBitWidth ops (si_zext ops w v) = w"
    "si_getBitWidth ops v < w \<Longrightarrow> sval (si_zext ops w v) = take_bit (si_getBitWidth ops v) (sval v)"
    "si_getBitWidth ops v < w \<Longrightarrow> si_getBitWidth ops (si_sext ops w v) = w"
    "si_getBitWidth ops v < w \<Longrightarrow> sval (si_sext ops w v) = sval v"
    "0 < w \<Longrightarrow> w < si_getBitWidth ops v \<Longrightarrow> si_getBitWidth ops (si_trunc ops w v) = w"
    "0 < w \<Longrightarrow> w < si_getBitWidth ops v \<Longrightarrow> sval (si_trunc ops w v) = wrapS w (sval v)"
    "si_isMinSignedValue ops v \<longleftrightarrow> sval v = - (2 ^ (si_getBitWidth ops v - 1))"
    "si_isNonNegative ops v \<longleftrightarrow> 0 \<le> sval v"
    "si_getBitWidth ops (si_flip ops v) = si_getBitWidth ops v" "sval (si_flip ops v) = NOT (sval v)"
    "si_getBitWidth ops (si_inc ops v) = si_getBitWidth ops v"
    "sval (si_inc ops v) = wrapS (si_getBitWidth ops v) (sval v + 1)"
    "si_getBitWidth ops (si_dec ops v) = si_getBitWidth ops v"
    "sval (si_dec ops v) = wrapS (si_getBitWidth ops v) (sval v - 1)"
    "si_getMinSignedBits ops v = signedBits (sval v)"
    "si_getActiveBits ops v = bitLength (nat (take_bit (si_getBitWidth ops v) (sval v)))"
    "int n < 2 ^ si_getBitWidth ops v \<Longrightarrow> si_getBitWidth ops (si_assign ops n v) = si_getBitWidth ops v"
    "int n < 2 ^ si_getBitWidth ops v \<Longrightarrow> sval (si_assign ops n v) = wrapS (si_getBitWidth ops v) (int n)"
    "si_eqNat ops v n \<longleftrightarrow> take_bit (si_getBitWidth ops v) (sval v) = int n"
  using assms by (simp_all add: sint_laws_def Let_def)

lemma sint_laws_binary:
  assumes "sint_laws ops sval" "si_getBitWidth ops x = si_getBitWidth ops y"
  shows "si_getBitWidth ops (si_add ops x y) = si_getBitWidth ops x"
    "sval (si_add ops x y) = wrapS (si_getBitWidth ops x) (sval x + sval y)"
    "si_getBitWidth ops (si_sub ops x y) = si_getBitWidth ops x"
    "sval (si_sub ops x y) = wrapS (si_getBitWidth ops x) (sval x - sval y)"
    "si_getBitWidth ops (si_mul ops x y) = si_getBitWidth ops x"
    "sval (si_mul ops x y) = wrapS (si_getBitWidth ops x) (sval x * sval y)"
    "si_slt ops x y \<longleftrightarrow> sval x < sval y" "si_sgt ops x y \<longleftrightarrow> sval y < sval x" "si_sle ops x y \<longleftrightarrow> sval x \<le> sval y"
    "si_ult ops x y \<longleftrightarrow> take_bit (si_getBitWidth ops x) (sval x) < take_bit (si_getBitWidth ops x) (sval y)"
    "si_ule ops x y \<longleftrightarrow> take_bit (si_getBitWidth ops x) (sval x) \<le> take_bit (si_getBitWidth ops x) (sval y)"
  using assms by (simp_all add: sint_laws_def Let_def)

lemma sint_laws_types:
  assumes "sint_laws ops sval" "0 < w"
  shows "si_getBitWidth ops (si_sextOrTrunc ops w v) = w" "sval (si_sextOrTrunc ops w v) = wrapS w (sval v)"
    "si_getBitWidth ops (si_zextOrTrunc ops w v) = w"
    "sval (si_zextOrTrunc ops w v) = wrapS w (take_bit (si_getBitWidth ops v) (sval v))"
    "int n < 2 ^ w \<Longrightarrow> si_getBitWidth ops (si_ofNat ops w n) = w"
    "int n < 2 ^ w \<Longrightarrow> sval (si_ofNat ops w n) = wrapS w (int n)"
    "si_getBitWidth ops (si_getSignedMinValue ops w) = w" "sval (si_getSignedMinValue ops w) = - (2 ^ (w - 1))"
    "si_getBitWidth ops (si_getSignedMaxValue ops w) = w" "sval (si_getSignedMaxValue ops w) = 2 ^ (w - 1) - 1"
    "si_getBitWidth ops (si_getMinValue ops w) = w" "sval (si_getMinValue ops w) = 0"
    "si_getBitWidth ops (si_getMaxValue ops w) = w" "sval (si_getMaxValue ops w) = - 1"
    "si_getBitWidth ops v \<le> 64 \<Longrightarrow> sint (si_getSExtValue ops v) = sval v"
    "si_getBitWidth ops v \<le> 64 \<Longrightarrow> uint (si_getZExtValue ops v) = take_bit (si_getBitWidth ops v) (sval v)"
    "0 < n \<Longrightarrow> si_Log2_64_Ceil ops n = bitLength (n - 1)"
  using assms by (simp_all add: sint_laws_def Let_def)

section \<open>The arithmetic is exact, with one exception\<close>

lemma zeroExtend_sval:
  assumes "sint_laws ops sval"
  shows "si_getBitWidth ops (zeroExtend ops x) = si_getBitWidth ops x + 1"
    "sval (zeroExtend ops x) = (if sval x < 0 then sval x + 2 ^ si_getBitWidth ops x else sval x)"
  using sint_lawsD(1-4) [OF assms] take_bit_fitsS by (simp_all add: zeroExtend_def)

lemma negate_sval:
  assumes "sint_laws ops sval"
  shows "sval (negate ops x) = - sval x"
    "si_getBitWidth ops (negate ops x) =
       (if sval x = - (2 ^ (si_getBitWidth ops x - 1)) then si_getBitWidth ops x + 1 else si_getBitWidth ops x)"
proof -
  note l = sint_lawsD [OF assms]
  let ?w = "si_getBitWidth ops x"
  note p = double_power [OF l(1) [of x]]
  show "sval (negate ops x) = - sval x"
  proof (cases "sval x = - (2 ^ (?w - 1))")
    case True
    then show ?thesis using zeroExtend_sval(2) [OF assms, of x] p by (simp add: negate_def l(9))
  next
    case False
    then have "wrapS ?w (NOT (sval x) + 1) = - sval x"
      using l(2) [of x] by (subst fitsS_wrapS) (auto simp: fitsS_def not_int_def l(1))
    then show ?thesis using False by (simp add: negate_def l(9,11-14))
  qed
  show "si_getBitWidth ops (negate ops x) = (if sval x = - (2 ^ (?w - 1)) then ?w + 1 else ?w)"
    using zeroExtend_sval(1) [OF assms, of x] by (simp add: negate_def l(9,11-14))
qed

lemma signExtend_sval:
  assumes "sint_laws ops sval" "signExtend ops x y = (x', y')"
  shows "sval x' = sval x" "sval y' = sval y"
    "si_getBitWidth ops x' = max (si_getBitWidth ops x) (si_getBitWidth ops y)"
    "si_getBitWidth ops y' = max (si_getBitWidth ops x) (si_getBitWidth ops y)"
  using assms(2) sint_lawsD(5,6) [OF assms(1)] by (auto simp: signExtend_def Let_def split: if_splits)

text \<open>The width at which a sum is computed.\<close>

definition sumWidth :: "'v sint_ops \<Rightarrow> 'v \<Rightarrow> 'v \<Rightarrow> nat" where
  "sumWidth ops x y =
     max (si_getBitWidth ops x) (si_getBitWidth ops (if si_isNonNegative ops y then y else negate ops y))"

lemma addExtending_nonneg:
  assumes "sint_laws ops sval" "0 \<le> sval y"
  shows "sval (addExtending ops x y) = sval x + sval y"
proof -
  note l = sint_lawsD [OF assms(1)]
  obtain x' y' where e: "signExtend ops x y = (x', y')" by (cases "signExtend ops x y")
  note s = signExtend_sval [OF assms(1) e]
  let ?w = "max (si_getBitWidth ops x) (si_getBitWidth ops y)"
  have w: "0 < ?w" using l(1) [of x] by simp
  note p = double_power [OF w]
  have f: "fitsS ?w (sval x)" "fitsS ?w (sval y)" using l(2) fitsS_mono by (meson max.cobounded1 max.cobounded2)+
  note b = sint_laws_binary [OF assms(1), of x' y']
  have r: "sval (si_add ops x' y') = wrapS ?w (sval x + sval y)" "si_getBitWidth ops (si_add ops x' y') = ?w"
    "si_slt ops (si_add ops x' y') x' \<longleftrightarrow> sval (si_add ops x' y') < sval x"
    using b(1,2) sint_laws_binary(7) [OF assms(1), of "si_add ops x' y'" x'] s by simp_all
  show ?thesis
  proof (cases "fitsS ?w (sval x + sval y)")
    case True
    then have "wrapS ?w (sval x + sval y) = sval x + sval y" by (rule fitsS_wrapS [OF w])
    then show ?thesis using r e assms(2) by (simp add: addExtending_def l(10))
  next
    case False
    then have "wrapS ?w (sval x + sval y) = sval x + sval y + (- 1) * 2 ^ ?w"
      by (intro wrapS_shift [OF w]) (use f p assms(2) in \<open>auto simp: fitsS_def\<close>)
    then show ?thesis using r e assms(2) f p False zeroExtend_sval(2) [OF assms(1), of "si_add ops x' y'"]
      by (auto simp: addExtending_def l(10) fitsS_def)
  qed
qed

lemma addExtending_neg:
  assumes "sint_laws ops sval" "sval y < 0"
  shows "sval (addExtending ops x y) =
    (if fitsS (sumWidth ops x y) (sval x + sval y) then sval x + sval y
     else sval x + sval y + 2 ^ sumWidth ops x y)"
proof -
  note l = sint_lawsD [OF assms(1)]
  obtain x' y' where e: "signExtend ops x (negate ops y) = (x', y')" by (cases "signExtend ops x (negate ops y)")
  note s = signExtend_sval [OF assms(1) e]
  let ?w = "max (si_getBitWidth ops x) (si_getBitWidth ops (negate ops y))"
  have W: "sumWidth ops x y = ?w" using assms(2) by (simp add: sumWidth_def l(10))
  have w: "0 < ?w" using l(1) [of x] by simp
  note p = double_power [OF w]
  have f: "fitsS ?w (sval x)" "fitsS ?w (sval (negate ops y))"
    using l(2) fitsS_mono by (meson max.cobounded1 max.cobounded2)+
  note n = negate_sval(1) [OF assms(1), of y]
  have r: "sval (si_sub ops x' y') = wrapS ?w (sval x + sval y)" "si_getBitWidth ops (si_sub ops x' y') = ?w"
    "si_sgt ops (si_sub ops x' y') x' \<longleftrightarrow> sval x < sval (si_sub ops x' y')"
    using sint_laws_binary(3,4) [OF assms(1), of x' y'] sint_laws_binary(8) [OF assms(1), of "si_sub ops x' y'" x'] s n
    by simp_all
  show ?thesis
  proof (cases "fitsS ?w (sval x + sval y)")
    case True
    then have "wrapS ?w (sval x + sval y) = sval x + sval y" by (rule fitsS_wrapS [OF w])
    then show ?thesis using r e assms(2) True by (simp add: addExtending_def l(10) W)
  next
    case False
    then have "wrapS ?w (sval x + sval y) = sval x + sval y + 1 * 2 ^ ?w"
      by (intro wrapS_shift [OF w]) (use f p assms(2) n in \<open>auto simp: fitsS_def\<close>)
    then show ?thesis using r e assms(2) f p False n zeroExtend_sval(2) [OF assms(1), of "si_sub ops x' y'"]
      by (auto simp: addExtending_def l(10) W fitsS_def)
  qed
qed

lemma abs_fitsS: "0 < w \<Longrightarrow> fitsS w z \<Longrightarrow> \<bar>z\<bar> \<le> 2 ^ (w - 1)"
  by (auto simp: fitsS_def)

lemma fitsS_mult:
  assumes "0 < w" "fitsS w x" "fitsS w y"
  shows "fitsS (2 * w) (x * y)"
    "fitsS (2 * w - 1) (x * y) \<longleftrightarrow> \<not> (x = - (2 ^ (w - 1)) \<and> y = - (2 ^ (w - 1)))"
proof -
  let ?b = "2 ^ (w - 1) :: int"
  have a: "\<bar>x\<bar> \<le> ?b" "\<bar>y\<bar> \<le> ?b" using abs_fitsS assms by blast+
  then have m: "\<bar>x * y\<bar> \<le> ?b * ?b" unfolding abs_mult by (intro mult_mono) auto
  have q: "2 * w - 1 - 1 = (w - 1) + (w - 1)" "2 * w - 1 = Suc ((w - 1) + (w - 1))" using assms(1) by auto
  then have bb: "2 ^ (2 * w - 1 - 1) = ?b * ?b" "2 ^ (2 * w - 1) = 2 * (?b * ?b)"
    by (simp_all only: q power_add power_Suc)
  have pos: "0 < ?b * ?b" by simp
  show "fitsS (2 * w) (x * y)" using m pos unfolding fitsS_def bb by linarith
  show "fitsS (2 * w - 1) (x * y) \<longleftrightarrow> \<not> (x = - ?b \<and> y = - ?b)"
  proof
    assume "fitsS (2 * w - 1) (x * y)"
    then show "\<not> (x = - ?b \<and> y = - ?b)" unfolding fitsS_def bb by auto
  next
    assume n: "\<not> (x = - ?b \<and> y = - ?b)"
    have "x * y < ?b * ?b"
    proof (cases "\<bar>x\<bar> = ?b \<and> \<bar>y\<bar> = ?b")
      case True
      then have "x = - ?b \<and> y = ?b \<or> x = ?b" using n by (auto simp: abs_if split: if_splits)
      then have "x = - ?b \<and> y = ?b" using assms(2) by (auto simp: fitsS_def)
      moreover from this have False using assms(3) by (auto simp: fitsS_def)
      ultimately show ?thesis by blast
    next
      case False
      then have "\<bar>x\<bar> < ?b \<or> \<bar>y\<bar> < ?b" using a by auto
      then have "\<bar>x\<bar> * \<bar>y\<bar> < ?b * ?b"
      proof
        assume "\<bar>x\<bar> < ?b"
        then have "\<bar>x\<bar> * \<bar>y\<bar> \<le> \<bar>x\<bar> * ?b" "\<bar>x\<bar> * ?b < ?b * ?b" using a by (auto intro: mult_left_mono mult_strict_right_mono)
        then show ?thesis by linarith
      next
        assume "\<bar>y\<bar> < ?b"
        then have "\<bar>x\<bar> * \<bar>y\<bar> \<le> ?b * \<bar>y\<bar>" "?b * \<bar>y\<bar> < ?b * ?b" using a by (auto intro: mult_right_mono mult_strict_left_mono)
        then show ?thesis by linarith
      qed
      then show ?thesis using abs_le_iff abs_mult by (metis abs_ge_self order_le_less_trans)
    qed
    then show "fitsS (2 * w - 1) (x * y)" using m unfolding fitsS_def bb by linarith
  qed
qed

lemma minimizeWidth_sval:
  assumes "sint_laws ops sval"
  shows "minimizeWidth ops x = None \<longleftrightarrow> \<not> signedBits (sval x) < si_getBitWidth ops x"
    "minimizeWidth ops x = Some v \<Longrightarrow> sval v = sval x \<and> si_getBitWidth ops v = signedBits (sval x)"
  using sint_lawsD(7,8,17) [OF assms] fitsS_wrapS [OF signedBits_pos fitsS_own]
  by (auto simp: minimizeWidth_def split: if_splits)

lemma multiplyExtending_sval:
  assumes "sint_laws ops sval"
  defines "m \<equiv> \<lambda>x y. max (si_getBitWidth ops x) (si_getBitWidth ops y)"
  shows "multiplyExtending ops x y = None \<longleftrightarrow> sval x = - (2 ^ (m x y - 1)) \<and> sval y = - (2 ^ (m x y - 1))"
    "multiplyExtending ops x y = Some v \<Longrightarrow> sval v = sval x * sval y \<and> si_getBitWidth ops v = signedBits (sval x * sval y)"
proof -
  note l = sint_lawsD [OF assms(1)]
  let ?m = "m x y" and ?x = "si_sext ops (2 * m x y) x" and ?y = "si_sext ops (2 * m x y) y"
  have w: "0 < ?m" "si_getBitWidth ops x < 2 * ?m" "si_getBitWidth ops y < 2 * ?m"
    using l(1) [of x] l(1) [of y] by (auto simp: m_def)
  have f: "fitsS ?m (sval x)" "fitsS ?m (sval y)"
    using l(2) fitsS_mono unfolding m_def by (meson max.cobounded1 max.cobounded2)+
  have p: "sval (si_mul ops ?x ?y) = sval x * sval y" "si_getBitWidth ops (si_mul ops ?x ?y) = 2 * ?m"
    using sint_laws_binary(5,6) [OF assms(1), of ?x ?y] w l(5,6) fitsS_wrapS [OF _ fitsS_mult(1) [OF w(1) f]] by simp_all
  have u: "multiplyExtending ops x y = minimizeWidth ops (si_mul ops ?x ?y)"
    by (simp add: multiplyExtending_def m_def Let_def)
  have "signedBits (sval x * sval y) < 2 * ?m \<longleftrightarrow> signedBits (sval x * sval y) \<le> 2 * ?m - 1" using w(1) by auto
  then show "multiplyExtending ops x y = None \<longleftrightarrow> sval x = - (2 ^ (?m - 1)) \<and> sval y = - (2 ^ (?m - 1))"
    using w(1) fitsS_mult(2) [OF w(1) f] fitsS_signedBits [of "2 * ?m - 1"] minimizeWidth_sval(1) [OF assms(1)] p u
    by auto
  show "multiplyExtending ops x y = Some v \<Longrightarrow> sval v = sval x * sval y \<and> si_getBitWidth ops v = signedBits (sval x * sval y)"
    using minimizeWidth_sval(2) [OF assms(1), of "si_mul ops ?x ?y" v] p(1) u by simp
qed

definition isMin :: "'v sint_ops \<Rightarrow> ('v \<Rightarrow> int) \<Rightarrow> 'v \<Rightarrow> bool" where
  "isMin ops sval x \<longleftrightarrow> sval x = - (2 ^ (si_getBitWidth ops x - 1))"

lemma multiplyExtending_notMin:
  assumes "sint_laws ops sval" "\<not> isMin ops sval y"
  shows "\<exists>v. multiplyExtending ops x y = Some v \<and> sval v = sval x * sval y"
proof -
  let ?m = "max (si_getBitWidth ops x) (si_getBitWidth ops y)"
  have "sval y \<noteq> - (2 ^ (?m - 1))"
  proof (cases "?m = si_getBitWidth ops y")
    case False
    then have "si_getBitWidth ops y - 1 < ?m - 1" using sint_lawsD(1) [OF assms(1), of y] by auto
    then have "(2 :: int) ^ (si_getBitWidth ops y - 1) < 2 ^ (?m - 1)" by simp
    then show ?thesis using sint_lawsD(2) [OF assms(1), of y] by (auto simp: fitsS_def)
  qed (use assms(2) in \<open>simp add: isMin_def\<close>)
  then have "multiplyExtending ops x y \<noteq> None" unfolding multiplyExtending_sval(1) [OF assms(1)] by blast
  then show ?thesis using multiplyExtending_sval(2) [OF assms(1)] by blast
qed

lemma dec_sval:
  assumes "sint_laws ops sval" "0 < sval y"
  shows "sval (si_dec ops y) = sval y - 1"
  using sint_lawsD(1,2,16) [OF assms(1), of y] assms(2) fitsS_wrapS [of "si_getBitWidth ops y" "sval y - 1"]
  by (simp add: fitsS_def)

lemma eqNat_sval:
  assumes "sint_laws ops sval" "0 \<le> sval y"
  shows "si_eqNat ops y n \<longleftrightarrow> sval y = int n"
  using sint_lawsD(21) [OF assms(1), of y n] take_bit_fitsS [OF sint_lawsD(1,2) [OF assms(1)], of y] assms(2) by simp

lemma exponentiate_loop:
  assumes "sint_laws ops sval" "\<not> isMin ops sval x" "sval y = int n"
  shows "\<exists>y' v. while_option (\<lambda>(y, result). \<not> si_eqNat ops y 0 \<and> result \<noteq> None)
        (\<lambda>(y, result). (si_dec ops y, Option.bind result (\<lambda>r. multiplyExtending ops r x))) (y, Some r) =
      Some (y', Some v) \<and> sval v = sval r * sval x ^ n"
  using assms(3)
proof (induction n arbitrary: y r)
  case 0
  then show ?case using eqNat_sval [OF assms(1), of y 0] by (subst while_option_unfold) simp
next
  case (Suc n)
  obtain v where v: "multiplyExtending ops r x = Some v" "sval v = sval r * sval x"
    using multiplyExtending_notMin [OF assms(1,2)] by blast
  have "sval (si_dec ops y) = int n" using dec_sval [OF assms(1), of y] Suc(2) by simp
  from Suc(1) [OF this, of v] obtain y' u where u: "while_option (\<lambda>(y, result). \<not> si_eqNat ops y 0 \<and> result \<noteq> None)
        (\<lambda>(y, result). (si_dec ops y, Option.bind result (\<lambda>r. multiplyExtending ops r x))) (si_dec ops y, Some v) =
      Some (y', Some u)" "sval u = sval v * sval x ^ n" by blast
  show ?case using u v Suc(2) eqNat_sval [OF assms(1), of y 0]
    by (subst while_option_unfold) (simp add: mult.assoc)
qed

lemma exponentiate_sval:
  assumes "sint_laws ops sval" "0 < sval y" "sval y = 1 \<or> \<not> isMin ops sval x"
  shows "\<exists>v. exponentiate ops x y = Some v \<and> sval v = sval x ^ nat (sval y)"
proof -
  have d: "sval (si_dec ops y) = int (nat (sval y) - 1)" using dec_sval [OF assms(1,2)] assms(2) by simp
  have n: "nat (sval y) = Suc (nat (sval y) - 1)" using assms(2) by simp
  have u: "exponentiate ops x y = exponentiateLoop ops x y"
    using assms(2) eqNat_sval [OF assms(1), of y 0] sint_lawsD(10) [OF assms(1)] by (simp add: exponentiate_def)
  from assms(3) show ?thesis
  proof
    assume y: "sval y = 1"
    then have "si_eqNat ops (si_dec ops y) 0" using d eqNat_sval [OF assms(1), of "si_dec ops y" 0] by simp
    then show ?thesis using y u by (simp add: exponentiateLoop_def) (subst while_option_unfold, simp)
  next
    assume "\<not> isMin ops sval x"
    from exponentiate_loop [OF assms(1) this d, of x] show ?thesis
      using n by (auto simp: u exponentiateLoop_def simp flip: power_Suc)
  qed
qed

lemma exponentiate_zero:
  assumes "sint_laws ops sval" "sval y = 0" "2 < si_getBitWidth ops x"
  shows "\<exists>v. exponentiate ops x y = Some v \<and> sval v = 1"
proof -
  have p: "(2 :: int) ^ 2 \<le> 2 ^ (si_getBitWidth ops x - 1)" using assms(3) by (intro power_increasing) auto
  have a: "sval (si_assign ops 1 x) = 1" "si_getBitWidth ops (si_assign ops 1 x) = si_getBitWidth ops x"
    using sint_lawsD(19,20) [OF assms(1), of 1 x] fitsS_wrapS [of "si_getBitWidth ops x" 1] assms(3) p
    by (simp_all add: fitsS_def)
  have "signedBits 1 = 2" by (simp add: signedBits_def bitLength.simps)
  then have "minimizeWidth ops (si_assign ops 1 x) \<noteq> None"
    using minimizeWidth_sval(1) [OF assms(1)] a assms(3) by simp
  moreover have "exponentiate ops x y = minimizeWidth ops (si_assign ops 1 x)"
    using assms(2) eqNat_sval [OF assms(1), of y 0] sint_lawsD(10) [OF assms(1)] by (simp add: exponentiate_def)
  ultimately show ?thesis using minimizeWidth_sval(2) [OF assms(1)] a by fastforce
qed

section \<open>The assumptions can be met\<close>

text \<open>Numbers as pairs of their width less one and an integer whose low bits count.\<close>

definition pairVal :: "nat \<times> int \<Rightarrow> int" where
  "pairVal v = signed_take_bit (fst v) (snd v)"

definition pairNum :: "nat \<Rightarrow> int \<Rightarrow> nat \<times> int" where
  "pairNum w z = (w - 1, wrapS w z)"

definition pairBits :: "nat \<times> int \<Rightarrow> int" where
  "pairBits v = take_bit (Suc (fst v)) (snd v)"

definition pairSint :: "(nat \<times> int) sint_ops" where
  "pairSint = \<lparr>
     si_getBitWidth = \<lambda>v. Suc (fst v),
     si_zext = \<lambda>w v. pairNum w (pairBits v),
     si_sext = \<lambda>w v. pairNum w (pairVal v),
     si_trunc = \<lambda>w v. pairNum w (pairVal v),
     si_sextOrTrunc = \<lambda>w v. pairNum w (pairVal v),
     si_zextOrTrunc = \<lambda>w v. pairNum w (pairBits v),
     si_isMinSignedValue = \<lambda>v. pairVal v = - (2 ^ fst v),
     si_isNonNegative = \<lambda>v. 0 \<le> pairVal v,
     si_flip = \<lambda>v. (fst v, NOT (pairVal v)),
     si_inc = \<lambda>v. (fst v, pairVal v + 1),
     si_dec = \<lambda>v. (fst v, pairVal v - 1),
     si_add = \<lambda>x y. (fst x, pairVal x + pairVal y),
     si_sub = \<lambda>x y. (fst x, pairVal x - pairVal y),
     si_mul = \<lambda>x y. (fst x, pairVal x * pairVal y),
     si_slt = \<lambda>x y. pairVal x < pairVal y,
     si_sgt = \<lambda>x y. pairVal y < pairVal x,
     si_sle = \<lambda>x y. pairVal x \<le> pairVal y,
     si_ult = \<lambda>x y. pairBits x < pairBits y,
     si_ule = \<lambda>x y. pairBits x \<le> pairBits y,
     si_getMinSignedBits = \<lambda>v. signedBits (pairVal v),
     si_getActiveBits = \<lambda>v. bitLength (nat (pairBits v)),
     si_assign = \<lambda>n v. (fst v, int n),
     si_eqNat = \<lambda>v n. pairBits v = int n,
     si_ofNat = \<lambda>w n. pairNum w (int n),
     si_getSignedMinValue = \<lambda>w. pairNum w (- (2 ^ (w - 1))),
     si_getSignedMaxValue = \<lambda>w. pairNum w (2 ^ (w - 1) - 1),
     si_getMinValue = \<lambda>w. pairNum w 0,
     si_getMaxValue = \<lambda>w. pairNum w (- 1),
     si_getSExtValue = \<lambda>v. word_of_int (pairVal v),
     si_getZExtValue = \<lambda>v. word_of_int (pairBits v),
     si_Log2_64_Ceil = \<lambda>n. bitLength (n - 1)\<rparr>"

lemma pairVal_fits: "fitsS (Suc (fst v)) (pairVal v)"
  by (simp add: fitsS_def pairVal_def signed_take_bit_int_less_exp signed_take_bit_int_greater_eq_minus_exp)

lemma pairVal_num: "pairVal (pairNum w z) = wrapS w z"
  by (simp add: pairVal_def pairNum_def)

lemma pairBits_val: "pairBits v = take_bit (Suc (fst v)) (pairVal v)"
  by (simp add: pairBits_def pairVal_def take_bit_signed_take_bit)

lemma wrapS_take_bit: "wrapS w (take_bit w z) = wrapS w z" if "0 < w"
  using that by (cases w) (simp_all add: signed_take_bit_take_bit)

lemma pairSint_laws: "sint_laws pairSint pairVal"
proof -
  have fst_num: "0 < w \<Longrightarrow> Suc (fst (pairNum w z)) = w" for w z by (simp add: pairNum_def)
  have sext: "Suc (fst v) < w \<Longrightarrow> wrapS w (pairVal v) = pairVal v" for v w
    using fitsS_wrapS [OF _ fitsS_mono [OF pairVal_fits [of v], of w]] by simp
  have zext: "Suc (fst v) < w \<Longrightarrow> wrapS w (pairBits v) = pairBits v" for v w
  proof -
    assume w: "Suc (fst v) < w"
    have "pairBits v < 2 ^ Suc (fst v)" unfolding pairBits_def by (rule take_bit_int_less_exp)
    also have "(2 :: int) ^ Suc (fst v) \<le> 2 ^ (w - 1)" using w by (intro power_increasing) auto
    finally have "fitsS w (pairBits v)" by (auto simp: fitsS_def pairBits_def intro: order_trans [of _ 0])
    then show ?thesis using w by (intro fitsS_wrapS) auto
  qed
  have bits: "pairBits y = take_bit (Suc (fst x)) (pairVal y)" if "fst x = fst y" for x y
    using that by (simp add: pairBits_val)
  have words: "Suc (fst v) \<le> 64 \<Longrightarrow> sint (word_of_int (pairVal v) :: 64 word) = pairVal v"
    "Suc (fst v) \<le> 64 \<Longrightarrow> uint (word_of_int (pairBits v) :: 64 word) = pairBits v" for v
  proof -
    assume v: "Suc (fst v) \<le> 64"
    show "sint (word_of_int (pairVal v) :: 64 word) = pairVal v"
      using fitsS_wrapS [OF _ fitsS_mono [OF pairVal_fits v]] by (simp add: sint_sbintrunc')
    have "pairBits v < 2 ^ Suc (fst v)" unfolding pairBits_def by (rule take_bit_int_less_exp)
    also have "(2 :: int) ^ Suc (fst v) \<le> 2 ^ 64" using v by (intro power_increasing) auto
    finally show "uint (word_of_int (pairBits v) :: 64 word) = pairBits v"
      by (simp add: uint_word_of_int pairBits_def)
  qed
  have limits: "0 < w \<Longrightarrow> wrapS w (- (2 ^ (w - 1))) = - (2 ^ (w - 1))"
    "0 < w \<Longrightarrow> wrapS w (2 ^ (w - 1) - 1) = 2 ^ (w - 1) - 1" for w
    by (rule fitsS_wrapS; simp add: fitsS_def)+
  have flip: "signed_take_bit (fst v) (NOT (pairVal v)) = NOT (pairVal v)" for v
    using fitsS_wrapS [of "Suc (fst v)" "NOT (pairVal v)"] pairVal_fits [of v] by (simp add: fitsS_def not_int_def)
  show ?thesis
    unfolding sint_laws_def Let_def pairSint_def
    using flip pairVal_fits words limits sext zext bits
    by (simp add: pairVal_num fst_num pairBits_val [symmetric]) (auto simp: pairVal_def)
qed

end
