(* ===== verification/DiscreteTypes.thy ===== *)
theory DiscreteTypes
  imports ApInt Tables
begin

text \<open>
  Static evaluation, ranges and discrete types: \<^verbatim>\<open>lib/ast/Eval.cpp\<close>,
  \<^verbatim>\<open>lib/ast/Range.cpp\<close>, the discrete types of \<^verbatim>\<open>lib/ast/Type.cpp\<close>, the
  declarations of integer types of \<^verbatim>\<open>lib/ast/Decl.cpp\<close>, and the resolution of integer literals of
  \<^verbatim>\<open>lib/typecheck/CheckExpr.cpp\<close>.

  An outer \<open>None\<close> is a failed assertion, an inner one an expression that is not
  static.  Expressions of other kinds than those evaluated are all alike here.
\<close>

section \<open>Expressions, ranges and types\<close>

text \<open>A root type: an enumeration with the number of its literals, or an integer type with its limits.\<close>

datatype 'v root_type =
    RootEnumType (numLiterals: nat)
  | RootIntegerType (isModular: bool) (rootLower: 'v) (rootUpper: 'v)

text \<open>
  A range keeps its static bounds once they are computed, \<open>None\<close> for a dynamic one.  Of its type it uses
  the size and the signedness, which are those of the root.
\<close>

datatype 'v expr =
    IntegerLiteral 'v
  | FunctionCallExpr "'v connective" "'v expr list"
  | ConversionExpr "'v expr"
  | FirstAE "'v discrete_type"
  | LastAE "'v discrete_type"
  | OtherExpr
and 'v connective =
    AmbiguousCall
  | FunctionDecl primitiveID
  | EnumLiteral (literalIndex: nat) (literalEnum: nat)
  | PosAD "'v discrete_type"
  | ValAD "'v discrete_type"
and 'v discrete_type =
    DiscreteType (typeAddr: nat) (getRootType: "'v root_type") (getConstraint: "'v range option")
and 'v range =
    Range (getLowerBound: "'v expr") (getUpperBound: "'v expr") (staticLower: "'v option") (staticUpper: "'v option")
      (rangeTy: "'v root_type option")

section \<open>Root types\<close>

definition getPreferredSize :: "nat \<Rightarrow> nat option" where
  "getPreferredSize bits =
     (if bits \<le> 1 then Some 1
      else if bits \<le> 8 then Some 8
      else if bits \<le> 16 then Some 16
      else if bits \<le> 32 then Some 32
      else if bits \<le> 64 then Some 64
      else None)"

definition rootSize :: "'v sint_ops \<Rightarrow> 'v root_type \<Rightarrow> nat option" where
  "rootSize ops root =
     (case root of
        RootEnumType n \<Rightarrow> getPreferredSize (si_Log2_64_Ceil ops n)
      | RootIntegerType _ lower _ \<Rightarrow> Some (si_getBitWidth ops lower))"

definition isSigned :: "'v root_type \<Rightarrow> bool" where
  "isSigned root = (case root of RootEnumType _ \<Rightarrow> False | RootIntegerType modular _ _ \<Rightarrow> \<not> modular)"

definition getLowerLimit :: "'v sint_ops \<Rightarrow> 'v root_type \<Rightarrow> 'v option" where
  "getLowerLimit ops root =
     (case root of
        RootEnumType n \<Rightarrow> map_option (\<lambda>w. si_ofNat ops w 0) (rootSize ops root)
      | RootIntegerType _ lower _ \<Rightarrow> Some lower)"

definition getUpperLimit :: "'v sint_ops \<Rightarrow> 'v root_type \<Rightarrow> 'v option" where
  "getUpperLimit ops root =
     (case root of
        RootEnumType n \<Rightarrow> map_option (\<lambda>w. si_ofNat ops w (n - 1)) (rootSize ops root)
      | RootIntegerType _ _ upper \<Rightarrow> Some upper)"

text \<open>The constructor of an integer type, with its bounds.\<close>

definition newRootInteger :: "'v sint_ops \<Rightarrow> bool \<Rightarrow> 'v \<Rightarrow> 'v \<Rightarrow> 'v root_type option" where
  "newRootInteger ops modular low high =
     (if \<not> modular then do {
        preferredWidth \<leftarrow> getPreferredSize (max (si_getMinSignedBits ops low) (si_getMinSignedBits ops high));
        Some (RootIntegerType modular (si_getSignedMinValue ops preferredWidth) (si_getSignedMaxValue ops preferredWidth))
      } else do {
        preferredWidth \<leftarrow> getPreferredSize (max (si_getActiveBits ops low) (si_getActiveBits ops high));
        Some (RootIntegerType modular (si_getMinValue ops preferredWidth) (si_getMaxValue ops preferredWidth))
      })"

section \<open>Static evaluation\<close>

definition getCallPrimitive :: "'v connective \<Rightarrow> primitiveID" where
  "getCallPrimitive call =
     (case call of FunctionDecl ID \<Rightarrow> ID | EnumLiteral _ _ \<Rightarrow> ENUM_op | _ \<Rightarrow> NotPrimitive)"

definition staticDiscreteUnaryValue :: "'v sint_ops \<Rightarrow> primitiveID \<Rightarrow> 'v \<Rightarrow> 'v option option" where
  "staticDiscreteUnaryValue ops ID result =
     (case ID of
        NEG_op \<Rightarrow> Some (Some (negate ops result))
      | POS_op \<Rightarrow> Some (Some result)
      | _ \<Rightarrow> None)"

definition staticDiscreteBinaryValue :: "'v sint_ops \<Rightarrow> primitiveID \<Rightarrow> 'v \<Rightarrow> 'v \<Rightarrow> 'v option option" where
  "staticDiscreteBinaryValue ops ID LHS RHS =
     (case ID of
        ADD_op \<Rightarrow> Some (Some (addExtending ops LHS RHS))
      | SUB_op \<Rightarrow> Some (Some (subtractExtending ops LHS RHS))
      | MUL_op \<Rightarrow> map_option Some (multiplyExtending ops LHS RHS)
      | POW_op \<Rightarrow> map_option Some (exponentiate ops LHS RHS)
      | _ \<Rightarrow> Some None)"

text \<open>The lower bound of a prefix: its constraint if that is static, otherwise the limit of its root.\<close>

definition prefixLower :: "'v sint_ops \<Rightarrow> 'v discrete_type \<Rightarrow> 'v option option" where
  "prefixLower ops pre =
     (case getConstraint pre of
        Some constraint \<Rightarrow> Some (staticLower constraint)
      | None \<Rightarrow> map_option Some (getLowerLimit ops (getRootType pre)))"

definition prefixUpper :: "'v sint_ops \<Rightarrow> 'v discrete_type \<Rightarrow> 'v option option" where
  "prefixUpper ops pre =
     (case getConstraint pre of
        Some constraint \<Rightarrow> Some (staticUpper constraint)
      | None \<Rightarrow> map_option Some (getUpperLimit ops (getRootType pre)))"

definition ifStatic :: "('v \<Rightarrow> 'v option option) \<Rightarrow> 'v option option \<Rightarrow> 'v option option" where
  "ifStatic f r = do { r' \<leftarrow> r; case r' of None \<Rightarrow> Some None | Some x \<Rightarrow> f x }"

definition bothStatic :: "('v \<Rightarrow> 'v \<Rightarrow> 'v option option) \<Rightarrow> 'v option option \<Rightarrow> 'v option option \<Rightarrow> 'v option option" where
  "bothStatic f l r = ifStatic (\<lambda>x. ifStatic (f x) r) l"

definition enumLiteralValue :: "'v sint_ops \<Rightarrow> 'v connective \<Rightarrow> 'v option option" where
  "enumLiteralValue ops call =
     (case call of
        EnumLiteral idx n \<Rightarrow> map_option (\<lambda>w. Some (si_ofNat ops w idx)) (rootSize ops (RootEnumType n))
      | _ \<Rightarrow> None)"

fun staticDiscreteValue :: "'v sint_ops \<Rightarrow> 'v expr \<Rightarrow> 'v option option" where
  "staticDiscreteValue ops (IntegerLiteral v) = Some (Some v)"
| "staticDiscreteValue ops (FunctionCallExpr call args) =
     (let ID = getCallPrimitive call in
      if ID = NotPrimitive then
        (case (call, args) of
           (PosAD pre, arg # _) \<Rightarrow>
             bothStatic (\<lambda>lower pos. Some (Some (subtractExtending ops pos lower)))
               (prefixLower ops pre) (staticDiscreteValue ops arg)
         | (ValAD pre, arg # _) \<Rightarrow>
             bothStatic (\<lambda>lower val. Some (Some (addExtending ops val lower)))
               (prefixLower ops pre) (staticDiscreteValue ops arg)
         | (PosAD _, []) \<Rightarrow> None
         | (ValAD _, []) \<Rightarrow> None
         | _ \<Rightarrow> Some None)
      else if denotesUnaryOpID ID then
        (case args of
           [arg] \<Rightarrow> ifStatic (staticDiscreteUnaryValue ops ID) (staticDiscreteValue ops arg)
         | _ \<Rightarrow> None)
      else if denotesBinaryOpID ID then
        (case args of
           [lhs, rhs] \<Rightarrow> bothStatic (staticDiscreteBinaryValue ops ID) (staticDiscreteValue ops lhs)
             (staticDiscreteValue ops rhs)
         | _ \<Rightarrow> None)
      else if ID = ENUM_op then enumLiteralValue ops call
      else Some None)"
| "staticDiscreteValue ops (ConversionExpr operand) = staticDiscreteValue ops operand"
| "staticDiscreteValue ops (FirstAE ty) = prefixLower ops ty"
| "staticDiscreteValue ops (LastAE ty) = prefixUpper ops ty"
| "staticDiscreteValue ops OtherExpr = Some None"

section \<open>Ranges\<close>

definition adjustLimit :: "'v sint_ops \<Rightarrow> bool \<Rightarrow> nat \<Rightarrow> 'v option \<Rightarrow> 'v option option" where
  "adjustLimit ops sgnd width limit =
     (case limit of
        None \<Rightarrow> Some None
      | Some v \<Rightarrow>
          if sgnd then
            (if si_getMinSignedBits ops v \<le> width then Some (Some (si_sextOrTrunc ops width v)) else None)
          else
            (if si_getActiveBits ops v \<le> width then Some (Some (si_zextOrTrunc ops width v)) else None))"

definition checkAndAdjustLimits :: "'v sint_ops \<Rightarrow> 'v range \<Rightarrow> 'v range option" where
  "checkAndAdjustLimits ops r = do {
     ty \<leftarrow> rangeTy r;
     width \<leftarrow> rootSize ops ty;
     lo \<leftarrow> adjustLimit ops (isSigned ty) width (staticLower r);
     hi \<leftarrow> adjustLimit ops (isSigned ty) width (staticUpper r);
     Some (Range (getLowerBound r) (getUpperBound r) lo hi (Some ty)) }"

definition newRange :: "'v sint_ops \<Rightarrow> 'v expr \<Rightarrow> 'v expr \<Rightarrow> 'v root_type option \<Rightarrow> 'v range option" where
  "newRange ops lower upper ty = do {
     lo \<leftarrow> staticDiscreteValue ops lower;
     hi \<leftarrow> staticDiscreteValue ops upper;
     let r = Range lower upper lo hi ty in
     if ty \<noteq> None then checkAndAdjustLimits ops r else Some r }"

definition setRangeType :: "'v sint_ops \<Rightarrow> 'v root_type \<Rightarrow> 'v range \<Rightarrow> 'v range option" where
  "setRangeType ops ty r =
     (if rangeTy r \<noteq> None then None
      else checkAndAdjustLimits ops (Range (getLowerBound r) (getUpperBound r) (staticLower r) (staticUpper r) (Some ty)))"

text \<open>After a new bound the other one is adjusted as well, if the new one is static.\<close>

definition setLowerBound :: "'v sint_ops \<Rightarrow> 'v expr \<Rightarrow> 'v range \<Rightarrow> 'v range option" where
  "setLowerBound ops e r = do {
     lo \<leftarrow> staticDiscreteValue ops e;
     let r' = Range e (getUpperBound r) lo (staticUpper r) (rangeTy r) in
     if lo \<noteq> None \<and> rangeTy r \<noteq> None then checkAndAdjustLimits ops r' else Some r' }"

definition setUpperBound :: "'v sint_ops \<Rightarrow> 'v expr \<Rightarrow> 'v range \<Rightarrow> 'v range option" where
  "setUpperBound ops e r = do {
     hi \<leftarrow> staticDiscreteValue ops e;
     let r' = Range (getLowerBound r) e (staticLower r) hi (rangeTy r) in
     if hi \<noteq> None \<and> rangeTy r \<noteq> None then checkAndAdjustLimits ops r' else Some r' }"

definition isStatic :: "'v range \<Rightarrow> bool" where
  "isStatic r \<longleftrightarrow> staticLower r \<noteq> None \<and> staticUpper r \<noteq> None"

definition rangeIsNull :: "'v sint_ops \<Rightarrow> 'v range \<Rightarrow> bool option" where
  "rangeIsNull ops r =
     (if \<not> isStatic r then Some False
      else do {
        lower \<leftarrow> staticLower r;
        upper \<leftarrow> staticUpper r;
        ty \<leftarrow> rangeTy r;
        Some (if isSigned ty then si_slt ops upper lower else si_ult ops upper lower) })"

definition fitCandidate :: "'v sint_ops \<Rightarrow> nat \<Rightarrow> 'v \<Rightarrow> 'v" where
  "fitCandidate ops rangeWidth value =
     (if rangeWidth < si_getBitWidth ops value then si_trunc ops rangeWidth value
      else if si_getBitWidth ops value < rangeWidth then si_sext ops rangeWidth value
      else value)"

definition rangeContains :: "'v sint_ops \<Rightarrow> 'v \<Rightarrow> 'v range \<Rightarrow> bool option" where
  "rangeContains ops value r = do {
     lower \<leftarrow> staticLower r;
     upper \<leftarrow> staticUpper r;
     null \<leftarrow> rangeIsNull ops r;
     if null then Some False
     else do {
       ty \<leftarrow> rangeTy r;
       rangeWidth \<leftarrow> rootSize ops ty;
       if rangeWidth < si_getMinSignedBits ops value then Some False
       else let candidate = fitCandidate ops rangeWidth value in
            Some (si_sle ops lower candidate \<and> si_sle ops candidate upper) } }"

text \<open>
  The number of values between two 64-bit bounds, which the lengths of ranges and of types share.  The
  arithmetic is modulo two to the 64; where the source negates the least signed number, this is the
  value that two's complement gives.
\<close>

definition boundsLength :: "64 word \<Rightarrow> 64 word \<Rightarrow> 64 word" where
  "boundsLength lower upper =
     (if sint lower < 0 then
        (let lowElems = - lower in
         if 0 \<le> sint upper then upper + lowElems + 1
         else let upElems = - upper in lowElems - upElems + 1)
      else (upper - lower) + 1)"

definition extractBound :: "'v sint_ops \<Rightarrow> 'v root_type \<Rightarrow> 'v \<Rightarrow> 64 word" where
  "extractBound ops ty v = (if isSigned ty then si_getSExtValue ops v else si_getZExtValue ops v)"

definition rangeLength :: "'v sint_ops \<Rightarrow> 'v range \<Rightarrow> 64 word option" where
  "rangeLength ops r = do {
     lower \<leftarrow> staticLower r;
     upper \<leftarrow> staticUpper r;
     null \<leftarrow> rangeIsNull ops r;
     if null then Some 0
     else do {
       ty \<leftarrow> rangeTy r;
       Some (boundsLength (extractBound ops ty lower) (extractBound ops ty upper)) } }"

section \<open>Discrete types\<close>

datatype containment = Is_Contained | Not_Contained | Maybe_Contained

definition discreteSize :: "'v sint_ops \<Rightarrow> 'v discrete_type \<Rightarrow> nat option" where
  "discreteSize ops ty = rootSize ops (getRootType ty)"

definition newConstrainedType :: "'v sint_ops \<Rightarrow> nat \<Rightarrow> 'v root_type \<Rightarrow> 'v expr \<Rightarrow> 'v expr \<Rightarrow> 'v discrete_type option" where
  "newConstrainedType ops addr base lower upper =
     map_option (\<lambda>r. DiscreteType addr base (Some r)) (newRange ops lower upper (Some base))"

definition isEnumRoot :: "'v root_type \<Rightarrow> bool" where
  "isEnumRoot root = (case root of RootEnumType _ \<Rightarrow> True | RootIntegerType _ _ _ \<Rightarrow> False)"

text \<open>The representational limits, when a constraint does not give the bounds.\<close>

definition typeLimits :: "'v sint_ops \<Rightarrow> 'v discrete_type \<Rightarrow> ('v \<times> 'v) option" where
  "typeLimits ops ty = do {
     lower \<leftarrow> getLowerLimit ops (getRootType ty);
     upper \<leftarrow> getUpperLimit ops (getRootType ty);
     Some (lower, upper) }"

definition staticBounds :: "'v range \<Rightarrow> ('v \<times> 'v) option" where
  "staticBounds r = do { lower \<leftarrow> staticLower r; upper \<leftarrow> staticUpper r; Some (lower, upper) }"

definition compareBounds ::
    "'v sint_ops \<Rightarrow> 'v discrete_type \<Rightarrow> 'v discrete_type \<Rightarrow> 'v \<times> 'v \<Rightarrow> 'v \<times> 'v \<Rightarrow> containment option" where
  "compareBounds ops this target own others = do {
     w1 \<leftarrow> discreteSize ops this;
     w2 \<leftarrow> discreteSize ops target;
     let width = max w1 w2; fit = si_sextOrTrunc ops width in
     if si_sle ops (fit (fst own)) (fit (fst others)) \<and> si_sle ops (fit (snd others)) (fit (snd own))
     then Some Is_Contained else Some Not_Contained }"

definition typeContainsType :: "'v sint_ops \<Rightarrow> 'v discrete_type \<Rightarrow> 'v discrete_type \<Rightarrow> containment option" where
  "typeContainsType ops this target =
     (if typeAddr this = typeAddr target then Some Is_Contained
      else if isEnumRoot (getRootType this) \<noteq> isEnumRoot (getRootType target) then Some Not_Contained
      else
        let rest = (\<lambda>own.
          case getConstraint target of
            Some c \<Rightarrow>
              (if isStatic c then do {
                 null \<leftarrow> rangeIsNull ops c;
                 if null then Some Is_Contained
                 else do { others \<leftarrow> staticBounds c; compareBounds ops this target own others } }
               else do { others \<leftarrow> typeLimits ops target; compareBounds ops this target own others })
          | None \<Rightarrow> do { others \<leftarrow> typeLimits ops target; compareBounds ops this target own others }) in
        case getConstraint this of
          Some c \<Rightarrow>
            (if \<not> isStatic c then Some Maybe_Contained
             else do {
               null \<leftarrow> rangeIsNull ops c;
               if null then Some Not_Contained
               else do { own \<leftarrow> staticBounds c; rest own } })
        | None \<Rightarrow> do { own \<leftarrow> typeLimits ops this; rest own })"

definition typeContains :: "'v sint_ops \<Rightarrow> 'v \<Rightarrow> 'v discrete_type \<Rightarrow> containment option" where
  "typeContains ops value ty =
     (case getConstraint ty of
        Some c \<Rightarrow>
          (if isStatic c then map_option (\<lambda>b. if b then Is_Contained else Not_Contained) (rangeContains ops value c)
           else Some Maybe_Contained)
      | None \<Rightarrow> do {
          (lower, upper) \<leftarrow> typeLimits ops ty;
          size \<leftarrow> discreteSize ops ty;
          let width = max size (si_getBitWidth ops value) in
          Some (if isSigned (getRootType ty)
            then (let fit = si_sextOrTrunc ops width in
              if si_sle ops (fit lower) (fit value) \<and> si_sle ops (fit value) (fit upper) then Is_Contained else Not_Contained)
            else (let fit = si_zextOrTrunc ops width in
              if si_ule ops (fit lower) (fit value) \<and> si_ule ops (fit value) (fit upper) then Is_Contained
              else Not_Contained)) })"

definition typeLength :: "'v sint_ops \<Rightarrow> 'v discrete_type \<Rightarrow> 64 word option" where
  "typeLength ops ty =
     (case getConstraint ty of
        Some r \<Rightarrow> rangeLength ops r
      | None \<Rightarrow> do {
          (lower, upper) \<leftarrow> typeLimits ops ty;
          let lo = extractBound ops (getRootType ty) lower; hi = extractBound ops (getRootType ty) upper in
          if sint hi < sint lo then Some 0 else Some (boundsLength lo hi) })"

text \<open>An extension has to make a number wider, and a comparison is of numbers of one width.\<close>

definition baseContains :: "'v sint_ops \<Rightarrow> 'v \<Rightarrow> 'v discrete_type \<Rightarrow> bool option" where
  "baseContains ops value ty = do {
     width \<leftarrow> discreteSize ops ty;
     let activeBits = si_getMinSignedBits ops value in
     if width < activeBits then Some False
     else do {
       (lower, upper) \<leftarrow> typeLimits ops ty;
       if si_slt ops upper lower then Some False
       else if activeBits < width \<and> width \<le> si_getBitWidth ops value then None
       else let candidate = (if activeBits < width then si_sext ops width value else value) in
         if si_getBitWidth ops candidate \<noteq> width then None
         else Some (si_sle ops lower candidate \<and> si_sle ops candidate upper) } }"

section \<open>Declarations of integer types\<close>

text \<open>The types of a declaration: its first subtype, of the given address.\<close>

definition newIntegerDecl :: "'v sint_ops \<Rightarrow> nat \<Rightarrow> 'v expr \<Rightarrow> 'v expr \<Rightarrow> 'v discrete_type option" where
  "newIntegerDecl ops addr lower upper = do {
     lo \<leftarrow> staticDiscreteValue ops lower;
     hi \<leftarrow> staticDiscreteValue ops upper;
     lowVal \<leftarrow> lo;
     highVal \<leftarrow> hi;
     base \<leftarrow> newRootInteger ops False lowVal highVal;
     newConstrainedType ops addr base (IntegerLiteral lowVal) (IntegerLiteral highVal) }"

definition newModularDecl :: "'v sint_ops \<Rightarrow> nat \<Rightarrow> bool \<Rightarrow> 'v expr \<Rightarrow> 'v discrete_type option" where
  "newModularDecl ops addr modulusSigned modulus = do {
     m \<leftarrow> staticDiscreteValue ops modulus;
     highVal \<leftarrow> m;
     let lowVal = si_getMinValue ops (si_getBitWidth ops highVal) in
     if \<not> (if modulusSigned then si_sgt ops highVal lowVal else si_ult ops lowVal highVal) then None
     else do {
       let highVal = si_dec ops highVal;
       base \<leftarrow> newRootInteger ops True lowVal highVal;
       newConstrainedType ops addr base (IntegerLiteral lowVal) (IntegerLiteral highVal) } }"

section \<open>Integer literals in a context\<close>

text \<open>The diagnostics these checks post.\<close>

datatype check_kind = INCOMPATIBLE_TYPES | VALUE_NOT_IN_RANGE_FOR_TYPE

datatype 'v literal_result =
    LiteralTyped 'v nat
  | LiteralConverted 'v nat nat
  | LiteralRejected check_kind

text \<open>A literal of the parser is made a signed number.\<close>

definition acceptIntegerLiteral :: "'v sint_ops \<Rightarrow> 'v \<Rightarrow> 'v expr" where
  "acceptIntegerLiteral ops value =
     IntegerLiteral (if si_eqNat ops value 0 then value else si_zext ops (si_getBitWidth ops value + 1) value)"

definition resolveUniversalLiteral ::
    "'v sint_ops \<Rightarrow> 'v discrete_type \<Rightarrow> 'v \<Rightarrow> 'v discrete_type option \<Rightarrow> 'v literal_result option" where
  "resolveUniversalLiteral ops rootTy lit context =
     (case context of
        None \<Rightarrow> Some (LiteralRejected INCOMPATIBLE_TYPES)
      | Some subtype \<Rightarrow>
          if isEnumRoot (getRootType subtype) then Some (LiteralRejected INCOMPATIBLE_TYPES)
          else do {
            targetWidth \<leftarrow> discreteSize ops subtype;
            let literalWidth = si_getBitWidth ops lit;
                litValue = (if literalWidth < targetWidth then si_sext ops targetWidth lit else lit) in
            if targetWidth < literalWidth then Some (LiteralRejected VALUE_NOT_IN_RANGE_FOR_TYPE)
            else do {
              containment \<leftarrow> typeContains ops litValue subtype;
              case containment of
                Is_Contained \<Rightarrow> Some (LiteralTyped litValue (typeAddr subtype))
              | Not_Contained \<Rightarrow> Some (LiteralRejected VALUE_NOT_IN_RANGE_FOR_TYPE)
              | Maybe_Contained \<Rightarrow> do {
                  containment \<leftarrow> typeContains ops litValue rootTy;
                  if containment = Not_Contained then Some (LiteralRejected VALUE_NOT_IN_RANGE_FOR_TYPE)
                  else Some (LiteralConverted litValue (typeAddr rootTy) (typeAddr subtype)) } } })"

section \<open>Adjusted ranges\<close>

lemma getPreferredSize_bounds: "getPreferredSize bits = Some w \<Longrightarrow> bits \<le> w \<and> 0 < w \<and> w \<le> 64"
  by (auto simp: getPreferredSize_def split: if_splits)

text \<open>The value of a number of a type: signed, or unsigned for enumerations and modular types.\<close>

definition numVal :: "'v sint_ops \<Rightarrow> ('v \<Rightarrow> int) \<Rightarrow> 'v root_type \<Rightarrow> 'v \<Rightarrow> int" where
  "numVal ops sval ty v = (if isSigned ty then sval v else take_bit (si_getBitWidth ops v) (sval v))"

text \<open>A static bound is of the size of the type of its range.\<close>

definition boundOk :: "'v sint_ops \<Rightarrow> nat \<Rightarrow> 'v option \<Rightarrow> bool" where
  "boundOk ops w b \<longleftrightarrow> (\<forall>v. b = Some v \<longrightarrow> si_getBitWidth ops v = w)"

definition rangeOk :: "'v sint_ops \<Rightarrow> 'v range \<Rightarrow> bool" where
  "rangeOk ops r \<longleftrightarrow> (\<forall>ty. rangeTy r = Some ty \<longrightarrow>
     (\<exists>w. rootSize ops ty = Some w \<and> 0 < w \<and> boundOk ops w (staticLower r) \<and> boundOk ops w (staticUpper r)))"

lemma bitLength_take_bit:
  assumes "bitLength (nat (take_bit n z)) \<le> w"
  shows "take_bit n z < 2 ^ w"
  using assms by (simp add: bitLength_le_iff nat_less_iff)

lemma take_bit_wrapS: "0 < w \<Longrightarrow> take_bit w (wrapS w z) = take_bit w z"
  by (cases w) (simp_all add: take_bit_signed_take_bit)

lemma wrapS_take_bit_le: "0 < w \<Longrightarrow> 0 \<le> z \<Longrightarrow> z < 2 ^ w \<Longrightarrow> take_bit w (wrapS w z) = z"
  using take_bit_wrapS [of w z] take_bit_int_eq_self [of z w] by simp

lemma adjustLimit_val:
  assumes "sint_laws ops sval" "0 < w" "adjustLimit ops (isSigned ty) w l = Some l'"
  shows "boundOk ops w l'" "map_option (numVal ops sval ty) l' = map_option (numVal ops sval ty) l"
    "l = None \<longleftrightarrow> l' = None"
proof -
  note t = sint_laws_types [OF assms(1,2)] and l = sint_lawsD [OF assms(1)]
  have "l' = None" if "l = None" using that assms(3) by (simp add: adjustLimit_def)
  moreover have "\<exists>v'. l' = Some v' \<and> si_getBitWidth ops v' = w \<and> numVal ops sval ty v' = numVal ops sval ty v"
    if "l = Some v" for v
  proof (cases "isSigned ty")
    case True
    then have "signedBits (sval v) \<le> w" "l' = Some (si_sextOrTrunc ops w v)"
      using assms(3) that by (auto simp: adjustLimit_def l(17) split: if_splits)
    then show ?thesis using t(1,2) [of v] fitsS_signedBits [OF assms(2), of "sval v"] fitsS_wrapS [OF assms(2)] True
      by (simp add: numVal_def)
  next
    case False
    then have b: "bitLength (nat (take_bit (si_getBitWidth ops v) (sval v))) \<le> w" "l' = Some (si_zextOrTrunc ops w v)"
      using assms(3) that by (auto simp: adjustLimit_def l(18) split: if_splits)
    then show ?thesis
      using t(3,4) [of v] False wrapS_take_bit_le [OF assms(2) _ bitLength_take_bit [OF b(1)]] by (simp add: numVal_def)
  qed
  ultimately show "boundOk ops w l'" "map_option (numVal ops sval ty) l' = map_option (numVal ops sval ty) l"
    "l = None \<longleftrightarrow> l' = None"
    by (cases l; auto simp: boundOk_def)+
qed

lemma checkAndAdjustLimits_ok:
  assumes "sint_laws ops sval" "checkAndAdjustLimits ops r = Some r'" "\<And>ty. rangeTy r = Some ty \<Longrightarrow> rootSize ops ty \<noteq> Some 0"
  shows "rangeOk ops r' \<and> rangeTy r' = rangeTy r \<and> getLowerBound r' = getLowerBound r \<and> getUpperBound r' = getUpperBound r \<and>
    (\<forall>ty. rangeTy r = Some ty \<longrightarrow>
      map_option (numVal ops sval ty) (staticLower r') = map_option (numVal ops sval ty) (staticLower r) \<and>
      map_option (numVal ops sval ty) (staticUpper r') = map_option (numVal ops sval ty) (staticUpper r))"
  using assms adjustLimit_val [OF assms(1)] by (fastforce simp: checkAndAdjustLimits_def rangeOk_def bind_eq_Some_conv)

lemma newRange_ok:
  assumes "sint_laws ops sval" "newRange ops lower upper (Some ty) = Some r" "rootSize ops ty \<noteq> Some 0"
  shows "rangeOk ops r" "rangeTy r = Some ty"
    "\<exists>lo hi. staticDiscreteValue ops lower = Some lo \<and> staticDiscreteValue ops upper = Some hi \<and>
       map_option (numVal ops sval ty) (staticLower r) = map_option (numVal ops sval ty) lo \<and>
       map_option (numVal ops sval ty) (staticUpper r) = map_option (numVal ops sval ty) hi"
  using assms(2,3) checkAndAdjustLimits_ok [OF assms(1)]
  by (auto simp: newRange_def bind_eq_Some_conv Let_def) fastforce+

section \<open>Containment\<close>

lemma sle_val:
  assumes "sint_laws ops sval" "si_getBitWidth ops x = si_getBitWidth ops y"
  shows "si_sle ops x y \<longleftrightarrow> sval x \<le> sval y"
  using sint_laws_binary(9) [OF assms] .

lemma fitCandidate_width:
  assumes "sint_laws ops sval" "0 < w"
  shows "si_getBitWidth ops (fitCandidate ops w v) = w"
  using sint_lawsD(5,7) [OF assms(1), where v = v and w = w] assms(2) by (auto simp: fitCandidate_def)

definition signedRange :: "'v sint_ops \<Rightarrow> 'v range \<Rightarrow> 'v \<Rightarrow> 'v \<Rightarrow> bool" where
  "signedRange ops r lo hi \<longleftrightarrow> rangeOk ops r \<and> staticLower r = Some lo \<and> staticUpper r = Some hi \<and>
     (\<exists>ty. rangeTy r = Some ty \<and> isSigned ty)"

lemma rangeIsNull_signed:
  assumes "sint_laws ops sval" "signedRange ops r lo hi"
  shows "rangeIsNull ops r = Some (sval hi < sval lo)"
  using assms sint_laws_binary(7) [OF assms(1), of hi lo]
  by (auto simp: signedRange_def rangeIsNull_def isStatic_def rangeOk_def boundOk_def)

lemma rangeContains_signed:
  assumes "sint_laws ops sval" "signedRange ops r lo hi"
  shows "rangeContains ops v r = Some (sval lo \<le> sval v \<and> sval v \<le> sval hi)"
proof -
  note l = sint_lawsD [OF assms(1)]
  obtain ty w where r: "rangeTy r = Some ty" "isSigned ty" "rootSize ops ty = Some w" "0 < w"
    "staticLower r = Some lo" "staticUpper r = Some hi" "si_getBitWidth ops lo = w" "si_getBitWidth ops hi = w"
    using assms(2) by (auto simp: signedRange_def rangeOk_def boundOk_def)
  show ?thesis
  proof (cases "sval hi < sval lo")
    case True
    then show ?thesis using rangeIsNull_signed [OF assms] r by (auto simp: rangeContains_def)
  next
    case False
    show ?thesis
    proof (cases "w < signedBits (sval v)")
      case True
      then have "\<not> fitsS w (sval v)" using fitsS_signedBits [OF r(4), of "sval v"] by simp
      moreover have "fitsS w (sval lo)" "fitsS w (sval hi)" using l(2) [of lo] l(2) [of hi] r by auto
      ultimately have "\<not> (sval lo \<le> sval v \<and> sval v \<le> sval hi)" by (auto simp: fitsS_def)
      then show ?thesis using True False rangeIsNull_signed [OF assms] r by (simp add: rangeContains_def l(17))
    next
      case fit: False
      have "sval (fitCandidate ops w v) = sval v"
        using fitsS_wrapS [OF r(4)] fitsS_signedBits [OF r(4), of "sval v"] fit l(5-8) [where v = v and w = w] r(4)
        by (auto simp: fitCandidate_def)
      then show ?thesis
        using False fit rangeIsNull_signed [OF assms] r sle_val [OF assms(1)] fitCandidate_width [OF assms(1) r(4), of v]
        by (simp add: rangeContains_def l(17))
    qed
  qed
qed

section \<open>Lengths\<close>

lemma word64_minus: "sint (x :: 64 word) < 0 \<Longrightarrow> of_int (sint x) = x"
  by simp

lemma boundsLength_signed: "boundsLength lower upper = word_of_int (sint upper - sint lower + 1)"
  by (simp add: boundsLength_def Let_def)

lemma boundsLength_unsigned: "boundsLength lower upper = word_of_int (uint upper - uint lower + 1)"
proof -
  have "boundsLength lower upper = upper - lower + 1" by (simp add: boundsLength_def Let_def)
  then show ?thesis by simp
qed

lemma rangeLength_signed:
  assumes "sint_laws ops sval" "signedRange ops r lo hi" "si_getBitWidth ops lo \<le> 64"
  shows "rangeLength ops r = Some (word_of_int (max 0 (sval hi - sval lo + 1)))"
proof -
  obtain ty w where r: "rangeTy r = Some ty" "isSigned ty" "staticLower r = Some lo" "staticUpper r = Some hi"
    "si_getBitWidth ops hi \<le> 64"
    using assms(2,3) by (auto simp: signedRange_def rangeOk_def boundOk_def)
  have "sint (si_getSExtValue ops lo) = sval lo" "sint (si_getSExtValue ops hi) = sval hi"
    using sint_laws_types(15) [OF assms(1), of 1] r(5) assms(3) by simp_all
  then have l: "rangeLength ops r = Some (if sval hi < sval lo then 0 else word_of_int (sval hi - sval lo + 1))"
    using rangeIsNull_signed [OF assms(1,2)] r boundsLength_signed [of "si_getSExtValue ops lo" "si_getSExtValue ops hi"]
    by (simp add: rangeLength_def extractBound_def)
  show ?thesis
  proof (cases "sval hi < sval lo")
    case True
    then have "max 0 (sval hi - sval lo + 1) = 0" by simp
    then show ?thesis using l True by simp
  next
    case False
    then have "max 0 (sval hi - sval lo + 1) = sval hi - sval lo + 1" by simp
    then show ?thesis using l False by simp
  qed
qed

section \<open>Declared integer types\<close>

lemma newRootInteger_signed:
  assumes "sint_laws ops sval" "newRootInteger ops False low high = Some base"
  shows "\<exists>w. getPreferredSize (max (signedBits (sval low)) (signedBits (sval high))) = Some w \<and>
    rootSize ops base = Some w \<and> isSigned base \<and> 0 < w \<and> w \<le> 64 \<and>
    signedBits (sval low) \<le> w \<and> signedBits (sval high) \<le> w \<and>
    base = RootIntegerType False (si_getSignedMinValue ops w) (si_getSignedMaxValue ops w)"
  using assms(2) getPreferredSize_bounds sint_laws_types(7) [OF assms(1)]
  by (fastforce simp: newRootInteger_def bind_eq_Some_conv sint_lawsD(17) [OF assms(1)] rootSize_def isSigned_def)

lemma newRange_literals:
  assumes "sint_laws ops sval" "rootSize ops base = Some w" "0 < w" "isSigned base"
    "signedBits (sval low) \<le> w" "signedBits (sval high) \<le> w"
  shows "\<exists>r lo hi. newRange ops (IntegerLiteral low) (IntegerLiteral high) (Some base) = Some r \<and>
    signedRange ops r lo hi \<and> sval lo = sval low \<and> sval hi = sval high \<and> si_getBitWidth ops lo = w"
  using assms(2-6) sint_laws_types(1,2) [OF assms(1,3)] fitsS_wrapS [OF assms(3)] fitsS_signedBits [OF assms(3)]
  by (simp add: newRange_def checkAndAdjustLimits_def adjustLimit_def sint_lawsD(17) [OF assms(1)] signedRange_def
      rangeOk_def boundOk_def)

lemma newIntegerDecl_contained:
  assumes "sint_laws ops sval" "staticDiscreteValue ops lower = Some (Some low)"
    "staticDiscreteValue ops upper = Some (Some high)" "signedBits (sval low) \<le> 64" "signedBits (sval high) \<le> 64"
  shows "\<exists>ty. newIntegerDecl ops addr lower upper = Some ty \<and>
    discreteSize ops ty = getPreferredSize (max (signedBits (sval low)) (signedBits (sval high))) \<and>
    (\<forall>v. typeContains ops v ty = Some (if sval low \<le> sval v \<and> sval v \<le> sval high then Is_Contained else Not_Contained)) \<and>
    typeLength ops ty = Some (word_of_int (max 0 (sval high - sval low + 1)))"
proof -
  have "getPreferredSize (max (signedBits (sval low)) (signedBits (sval high))) \<noteq> None"
    using assms(4,5) by (auto simp: getPreferredSize_def)
  then obtain base where b: "newRootInteger ops False low high = Some base"
    by (auto simp: newRootInteger_def sint_lawsD(17) [OF assms(1)])
  obtain w where w: "getPreferredSize (max (signedBits (sval low)) (signedBits (sval high))) = Some w"
    "rootSize ops base = Some w" "isSigned base" "0 < w" "w \<le> 64"
    "signedBits (sval low) \<le> w" "signedBits (sval high) \<le> w"
    using newRootInteger_signed [OF assms(1) b] by blast
  obtain r lo hi where r: "newRange ops (IntegerLiteral low) (IntegerLiteral high) (Some base) = Some r"
    "signedRange ops r lo hi" "sval lo = sval low" "sval hi = sval high" "si_getBitWidth ops lo = w"
    using newRange_literals [OF assms(1) w(2,4,3,6,7)] by blast
  have "newIntegerDecl ops addr lower upper = Some (DiscreteType addr base (Some r))"
    using assms(2,3) b r(1) by (simp add: newIntegerDecl_def newConstrainedType_def)
  moreover have "isStatic r" using r(2) by (auto simp: signedRange_def isStatic_def)
  ultimately show ?thesis
    using w r(3-5) rangeContains_signed [OF assms(1) r(2)] rangeLength_signed [OF assms(1) r(2)]
    by (auto simp: discreteSize_def typeContains_def typeLength_def)
qed



section \<open>Modular types\<close>

lemma newRange_modular:
  assumes "sint_laws ops sval" "newRange ops (IntegerLiteral low) (IntegerLiteral high) (Some base) = Some r"
    "\<not> isSigned base" "rootSize ops base = Some w" "0 < w" "sval low = 0"
    "2 ^ (w - 1) \<le> take_bit (si_getBitWidth ops high) (sval high)"
  shows "\<exists>lo hi. staticLower r = Some lo \<and> staticUpper r = Some hi \<and> rangeTy r = Some base \<and>
    si_getBitWidth ops lo = w \<and> si_getBitWidth ops hi = w \<and> sval lo = 0 \<and> sval hi < 0"
proof -
  note t = sint_laws_types [OF assms(1,5)]
  let ?h = "take_bit (si_getBitWidth ops high) (sval high)"
  have r: "bitLength (nat ?h) \<le> w" "r = Range (IntegerLiteral low) (IntegerLiteral high)
      (Some (si_zextOrTrunc ops w low)) (Some (si_zextOrTrunc ops w high)) (Some base)"
    using assms(2-4) sint_lawsD(18) [OF assms(1)]
    by (auto simp: newRange_def checkAndAdjustLimits_def adjustLimit_def bind_eq_Some_conv split: if_splits)
  have "?h < 2 ^ w" by (rule bitLength_take_bit [OF r(1)])
  then have "wrapS w ?h = ?h + (- 1) * 2 ^ w"
    using assms(7) double_power [OF assms(5)] by (intro wrapS_shift [OF assms(5)]) (auto simp: fitsS_def)
  then have "wrapS w ?h < 0" using \<open>?h < 2 ^ w\<close> by simp
  then show ?thesis using r(2) t(3,4) assms(6) by simp
qed

text \<open>
  A modular type whose modulus is more than half of what its size holds contains no number: the bounds
  of its range are compared as signed numbers, and the upper one is negative then.
\<close>

theorem newModularDecl_contains_none:
  assumes "sint_laws ops sval" "staticDiscreteValue ops modulus = Some (Some m)"
    "newModularDecl ops addr True modulus = Some ty" "discreteSize ops ty = Some w" "2 ^ (w - 1) < sval m"
  shows "typeContains ops v ty = Some Not_Contained"
proof -
  note l = sint_lawsD [OF assms(1)]
  let ?low = "si_getMinValue ops (si_getBitWidth ops m)" and ?high = "si_dec ops m"
  obtain base r where b: "newRootInteger ops True ?low ?high = Some base"
    "newRange ops (IntegerLiteral ?low) (IntegerLiteral ?high) (Some base) = Some r" "ty = DiscreteType addr base (Some r)"
    using assms(2,3) by (auto simp: newModularDecl_def newConstrainedType_def bind_eq_Some_conv Let_def split: if_splits)
  have base: "\<not> isSigned base" "rootSize ops base = Some w" "0 < w"
    using b(1,3) assms(4) getPreferredSize_bounds sint_laws_types(11) [OF assms(1)]
    by (fastforce simp: newRootInteger_def isSigned_def rootSize_def bind_eq_Some_conv discreteSize_def)+
  have m: "0 < sval m" using assms(5) by (meson less_trans zero_less_numeral zero_less_power)
  have h: "sval ?high = sval m - 1" "0 \<le> sval ?high" using dec_sval [OF assms(1) m] m by simp_all
  then have "2 ^ (w - 1) \<le> take_bit (si_getBitWidth ops ?high) (sval ?high)"
    using assms(5) take_bit_fitsS [OF l(1,2), of ?high] by simp
  then obtain lo hi where r: "staticLower r = Some lo" "staticUpper r = Some hi" "rangeTy r = Some base"
    "si_getBitWidth ops lo = w" "si_getBitWidth ops hi = w" "sval lo = 0" "sval hi < 0"
    using newRange_modular [OF assms(1) b(2) base] sint_laws_types(12) [OF assms(1) l(1)] by blast
  have c: "si_getBitWidth ops (fitCandidate ops w v) = w" by (rule fitCandidate_width [OF assms(1) base(3)])
  have "\<not> (si_sle ops lo (fitCandidate ops w v) \<and> si_sle ops (fitCandidate ops w v) hi)"
    using c r sle_val [OF assms(1), of lo "fitCandidate ops w v"] sle_val [OF assms(1), of "fitCandidate ops w v" hi]
    by simp
  then have "rangeContains ops v r = Some False"
    using r base by (simp add: rangeContains_def rangeIsNull_def isStatic_def Let_def)
  moreover have "isStatic r" using r by (simp add: isStatic_def)
  ultimately show ?thesis using b(3) by (simp add: typeContains_def)
qed

definition sampleModular :: "(nat \<times> int) discrete_type" where
  "sampleModular = the (newModularDecl pairSint 1 True (IntegerLiteral (9, 256)))"

lemma sampleModular: "newModularDecl pairSint 1 True (IntegerLiteral (9, 256)) = Some sampleModular"
  "discreteSize pairSint sampleModular = Some 8"
  by code_simp+

theorem newModularDecl_contains_none_witness: "typeContains pairSint (3, 5) sampleModular = Some Not_Contained"
proof -
  have "pairVal (9, 256) = 256" by (simp add: pairVal_def)
  then show ?thesis
    using newModularDecl_contains_none [OF pairSint_laws _ sampleModular, of "(9, 256)" "(3, 5)"] by simp
qed

section \<open>Static evaluation is exact\<close>

text \<open>The mathematical value of an expression; \<open>None\<close> if it is not static.\<close>

definition mathFirst :: "('v \<Rightarrow> int) \<Rightarrow> 'v discrete_type \<Rightarrow> int option" where
  "mathFirst sval ty =
     (case getConstraint ty of
        Some r \<Rightarrow> map_option sval (staticLower r)
      | None \<Rightarrow> (case getRootType ty of RootEnumType _ \<Rightarrow> Some 0 | RootIntegerType _ lower _ \<Rightarrow> Some (sval lower)))"

definition mathLast :: "('v \<Rightarrow> int) \<Rightarrow> 'v discrete_type \<Rightarrow> int option" where
  "mathLast sval ty =
     (case getConstraint ty of
        Some r \<Rightarrow> map_option sval (staticUpper r)
      | None \<Rightarrow>
          (case getRootType ty of RootEnumType n \<Rightarrow> Some (int (n - 1)) | RootIntegerType _ _ upper \<Rightarrow> Some (sval upper)))"

definition mathBinary :: "primitiveID \<Rightarrow> int \<Rightarrow> int \<Rightarrow> int option" where
  "mathBinary ID x y =
     (case ID of
        ADD_op \<Rightarrow> Some (x + y)
      | SUB_op \<Rightarrow> Some (x - y)
      | MUL_op \<Rightarrow> Some (x * y)
      | POW_op \<Rightarrow> Some (x ^ nat y)
      | _ \<Rightarrow> None)"

fun mathValue :: "('v \<Rightarrow> int) \<Rightarrow> 'v expr \<Rightarrow> int option" where
  "mathValue sval (IntegerLiteral v) = Some (sval v)"
| "mathValue sval (FunctionCallExpr (FunctionDecl ID) [arg]) =
     (if denotesUnaryOpID ID then map_option (\<lambda>x. if ID = NEG_op then - x else x) (mathValue sval arg) else None)"
| "mathValue sval (FunctionCallExpr (FunctionDecl ID) [lhs, rhs]) =
     (if denotesBinaryOpID ID then
        do { x \<leftarrow> mathValue sval lhs; y \<leftarrow> mathValue sval rhs; mathBinary ID x y }
      else None)"
| "mathValue sval (FunctionCallExpr (EnumLiteral idx n) args) = Some (int idx)"
| "mathValue sval (FunctionCallExpr (PosAD ty) (arg # _)) =
     do { l \<leftarrow> mathFirst sval ty; x \<leftarrow> mathValue sval arg; Some (x - l) }"
| "mathValue sval (FunctionCallExpr (ValAD ty) (arg # _)) =
     do { l \<leftarrow> mathFirst sval ty; x \<leftarrow> mathValue sval arg; Some (x + l) }"
| "mathValue sval (FunctionCallExpr _ _) = None"
| "mathValue sval (ConversionExpr e) = mathValue sval e"
| "mathValue sval (FirstAE ty) = mathFirst sval ty"
| "mathValue sval (LastAE ty) = mathLast sval ty"
| "mathValue sval OtherExpr = None"

text \<open>
  What the evaluation of an expression needs to be exact: every sum with a negative number fits in the width it
  is computed at; no product is of two least numbers; a power has an exponent that is not negative, a base
  of three bits if the exponent is zero and no least number as base if it is above one; no negation of
  a truth value; and the literals of an enumeration fit in its size with the high bit clear.
\<close>

definition addFits :: "'v sint_ops \<Rightarrow> ('v \<Rightarrow> int) \<Rightarrow> 'v \<Rightarrow> 'v \<Rightarrow> bool" where
  "addFits ops sval x y \<longleftrightarrow> (sval y < 0 \<longrightarrow> fitsS (sumWidth ops x y) (sval x + sval y))"

definition binaryFits :: "'v sint_ops \<Rightarrow> ('v \<Rightarrow> int) \<Rightarrow> primitiveID \<Rightarrow> 'v \<Rightarrow> 'v \<Rightarrow> bool" where
  "binaryFits ops sval ID x y =
     (case ID of
        ADD_op \<Rightarrow> addFits ops sval x y
      | SUB_op \<Rightarrow> addFits ops sval x (negate ops y)
      | MUL_op \<Rightarrow> \<not> isMin ops sval x \<or> \<not> isMin ops sval y \<or> si_getBitWidth ops x \<noteq> si_getBitWidth ops y
      | POW_op \<Rightarrow> 0 \<le> sval y \<and> (sval y = 0 \<longrightarrow> 2 < si_getBitWidth ops x) \<and> (1 < sval y \<longrightarrow> \<not> isMin ops sval x)
      | _ \<Rightarrow> True)"

definition enumFits :: "'v sint_ops \<Rightarrow> nat \<Rightarrow> bool" where
  "enumFits ops n \<longleftrightarrow> 0 < n \<and>
     (case rootSize ops (RootEnumType n) of None \<Rightarrow> False | Some w \<Rightarrow> n \<le> 2 ^ (w - 1))"

definition prefixFits :: "'v sint_ops \<Rightarrow> 'v discrete_type \<Rightarrow> bool" where
  "prefixFits ops ty \<longleftrightarrow> getConstraint ty = None \<longrightarrow>
     (case getRootType ty of RootEnumType n \<Rightarrow> enumFits ops n | RootIntegerType _ _ _ \<Rightarrow> True)"

text \<open>A condition on two static values, which holds if one of them is not static.\<close>

definition onStatic :: "('v \<Rightarrow> 'v \<Rightarrow> bool) \<Rightarrow> 'v option option \<Rightarrow> 'v option option \<Rightarrow> bool" where
  "onStatic P l r = (case (l, r) of (Some (Some x), Some (Some y)) \<Rightarrow> P x y | _ \<Rightarrow> True)"

fun evaluable :: "'v sint_ops \<Rightarrow> ('v \<Rightarrow> int) \<Rightarrow> 'v expr \<Rightarrow> bool" where
  "evaluable ops sval (FunctionCallExpr (FunctionDecl ID) [arg]) \<longleftrightarrow>
     evaluable ops sval arg \<and> ID \<noteq> LNOT_op \<and> \<not> denotesBinaryOpID ID \<and> ID \<noteq> ENUM_op"
| "evaluable ops sval (FunctionCallExpr (FunctionDecl ID) [lhs, rhs]) \<longleftrightarrow>
     evaluable ops sval lhs \<and> evaluable ops sval rhs \<and> \<not> denotesUnaryOpID ID \<and> ID \<noteq> ENUM_op \<and>
     onStatic (binaryFits ops sval ID) (staticDiscreteValue ops lhs) (staticDiscreteValue ops rhs)"
| "evaluable ops sval (FunctionCallExpr (FunctionDecl ID) args) \<longleftrightarrow> ID = NotPrimitive"
| "evaluable ops sval (FunctionCallExpr (EnumLiteral idx n) args) \<longleftrightarrow> enumFits ops n \<and> idx < n"
| "evaluable ops sval (FunctionCallExpr (PosAD ty) args) \<longleftrightarrow>
     (case args of [] \<Rightarrow> False
      | arg # _ \<Rightarrow> evaluable ops sval arg \<and> prefixFits ops ty \<and>
          onStatic (\<lambda>l x. addFits ops sval x (negate ops l)) (prefixLower ops ty) (staticDiscreteValue ops arg))"
| "evaluable ops sval (FunctionCallExpr (ValAD ty) args) \<longleftrightarrow>
     (case args of [] \<Rightarrow> False
      | arg # _ \<Rightarrow> evaluable ops sval arg \<and> prefixFits ops ty \<and>
          onStatic (\<lambda>l x. addFits ops sval x l) (prefixLower ops ty) (staticDiscreteValue ops arg))"
| "evaluable ops sval (ConversionExpr e) \<longleftrightarrow> evaluable ops sval e"
| "evaluable ops sval (FirstAE ty) \<longleftrightarrow> prefixFits ops ty"
| "evaluable ops sval (LastAE ty) \<longleftrightarrow> prefixFits ops ty"
| "evaluable ops sval _ \<longleftrightarrow> True"

lemma addFits_sval:
  "sint_laws ops sval \<Longrightarrow> addFits ops sval x y \<Longrightarrow> sval (addExtending ops x y) = sval x + sval y"
  using addExtending_nonneg [of ops sval y x] addExtending_neg [of ops sval y x] by (cases "sval y < 0") (auto simp: addFits_def)

lemma min_of_max:
  assumes "sint_laws ops sval" "sval x = - (2 ^ (m - 1))" "si_getBitWidth ops x \<le> m"
  shows "si_getBitWidth ops x = m"
proof (rule ccontr)
  assume n: "si_getBitWidth ops x \<noteq> m"
  then have "(2 :: int) ^ (si_getBitWidth ops x - 1) < 2 ^ (m - 1)"
    using assms(3) sint_lawsD(1) [OF assms(1), of x] by (intro power_strict_increasing) auto
  then show False using sint_lawsD(2) [OF assms(1), of x] assms(2) by (simp add: fitsS_def)
qed

lemma multiplyExtending_fits:
  assumes "sint_laws ops sval"
    "\<not> isMin ops sval x \<or> \<not> isMin ops sval y \<or> si_getBitWidth ops x \<noteq> si_getBitWidth ops y"
  shows "\<exists>v. multiplyExtending ops x y = Some v \<and> sval v = sval x * sval y"
proof -
  have "multiplyExtending ops x y \<noteq> None"
    using assms(2) min_of_max [OF assms(1), of x] min_of_max [OF assms(1), of y]
    unfolding multiplyExtending_sval(1) [OF assms(1)] isMin_def by (metis max.cobounded1 max.cobounded2)
  then show ?thesis using multiplyExtending_sval(2) [OF assms(1)] by blast
qed

lemma binaryFits_sval:
  assumes "sint_laws ops sval" "binaryFits ops sval ID x y"
  shows "\<exists>r. staticDiscreteBinaryValue ops ID x y = Some r \<and> map_option sval r = mathBinary ID (sval x) (sval y)"
proof (cases "ID = POW_op")
  case True
  then consider "sval y = 0" "2 < si_getBitWidth ops x" | "0 < sval y" "sval y = 1 \<or> \<not> isMin ops sval x"
    using assms(2) by (fastforce simp: binaryFits_def)
  then have "\<exists>v. exponentiate ops x y = Some v \<and> sval v = sval x ^ nat (sval y)"
    using exponentiate_zero [OF assms(1), of y x] exponentiate_sval [OF assms(1), of y x] by cases auto
  then show ?thesis using True by (auto simp: staticDiscreteBinaryValue_def mathBinary_def)
next
  case False
  then show ?thesis
    using assms(2) addFits_sval [OF assms(1), of x y] addFits_sval [OF assms(1), of x "negate ops y"]
      negate_sval(1) [OF assms(1), of y] multiplyExtending_fits [OF assms(1), of x y]
    by (cases ID) (auto simp: binaryFits_def staticDiscreteBinaryValue_def mathBinary_def subtractExtending_def)
qed

text \<open>The value of a result, as far as it is static.\<close>

definition agrees :: "('v \<Rightarrow> int) \<Rightarrow> 'v option option \<Rightarrow> int option \<Rightarrow> bool" where
  "agrees sval r z \<longleftrightarrow> (\<exists>v. r = Some v \<and> map_option sval v = z)"

lemma ofNat_sval:
  assumes "sint_laws ops sval" "0 < w" "k < 2 ^ (w - 1)"
  shows "sval (si_ofNat ops w k) = int k"
proof -
  have "(2 :: nat) ^ (w - 1) \<le> 2 ^ w" by (intro power_increasing) auto
  then have "k < 2 ^ w" by (rule less_le_trans [OF assms(3)])
  moreover have "fitsS w (int k)"
    unfolding fitsS_def using assms(3) by (auto intro: order_trans [of _ 0])
  ultimately show ?thesis using sint_laws_types(6) [OF assms(1,2), of k] fitsS_wrapS [OF assms(2), of "int k"] by simp
qed

lemma prefix_agrees:
  assumes "sint_laws ops sval" "prefixFits ops ty"
  shows "agrees sval (prefixLower ops ty) (mathFirst sval ty)" "agrees sval (prefixUpper ops ty) (mathLast sval ty)"
proof -
  note e = ofNat_sval [OF assms(1)]
  have "agrees sval (prefixLower ops ty) (mathFirst sval ty) \<and> agrees sval (prefixUpper ops ty) (mathLast sval ty)"
  proof (cases "getConstraint ty")
    case None
    show ?thesis
    proof (cases "getRootType ty")
      case (RootEnumType n)
      then obtain w where w: "0 < n" "rootSize ops (RootEnumType n) = Some w" "n \<le> 2 ^ (w - 1)"
        using assms(2) None by (auto simp: prefixFits_def enumFits_def split: option.splits)
      have "0 < w" using w(2) getPreferredSize_bounds by (fastforce simp: rootSize_def)
      moreover from w have "n - 1 < 2 ^ (w - 1)" by simp
      ultimately show ?thesis using None RootEnumType w e [of w 0] e [of w "n - 1"]
        by (simp add: agrees_def prefixLower_def prefixUpper_def mathFirst_def mathLast_def getLowerLimit_def getUpperLimit_def)
    qed (simp add: None agrees_def prefixLower_def prefixUpper_def mathFirst_def mathLast_def getLowerLimit_def getUpperLimit_def)
  qed (simp add: agrees_def prefixLower_def prefixUpper_def mathFirst_def mathLast_def)
  then show "agrees sval (prefixLower ops ty) (mathFirst sval ty)" "agrees sval (prefixUpper ops ty) (mathLast sval ty)"
    by blast+
qed

lemma agrees_literal:
  assumes "sint_laws ops sval" "enumFits ops n" "idx < n"
  shows "agrees sval (enumLiteralValue ops (EnumLiteral idx n)) (Some (int idx))"
proof -
  obtain w where w: "rootSize ops (RootEnumType n) = Some w" "n \<le> 2 ^ (w - 1)"
    using assms(2) by (auto simp: enumFits_def split: option.splits)
  have "0 < w" using w(1) getPreferredSize_bounds by (fastforce simp: rootSize_def)
  moreover have "idx < 2 ^ (w - 1)" using w(2) assms(3) by simp
  ultimately show ?thesis using w(1) ofNat_sval [OF assms(1), of w idx] by (simp add: agrees_def enumLiteralValue_def)
qed

lemma bothStatic_agrees:
  assumes "agrees sval l a" "agrees sval r b" "onStatic P l r"
    "\<And>x y. P x y \<Longrightarrow> agrees sval (f x y) (g (sval x) (sval y))"
  shows "agrees sval (bothStatic f l r) (Option.bind a (\<lambda>x. Option.bind b (g x)))"
  using assms unfolding agrees_def onStatic_def bothStatic_def ifStatic_def
  by (force split: option.splits)

lemma ifStatic_agrees:
  assumes "agrees sval r a" "\<And>x. agrees sval (f x) (g (sval x))"
  shows "agrees sval (ifStatic f r) (Option.bind a g)"
  using assms unfolding agrees_def ifStatic_def by (force split: option.splits)

lemma operator_cases:
  "denotesUnaryOpID ID \<longleftrightarrow> ID = LNOT_op \<or> ID = POS_op \<or> ID = NEG_op"
  "\<not> (denotesUnaryOpID ID \<and> denotesBinaryOpID ID)" "\<not> denotesUnaryOpID NotPrimitive" "\<not> denotesBinaryOpID NotPrimitive"
  "\<not> denotesUnaryOpID ENUM_op" "\<not> denotesBinaryOpID ENUM_op"
  by (cases ID; simp add: denotesUnaryOpID_def denotesBinaryOpID_def; code_simp)+

lemma size_arg: "e \<in> set args \<Longrightarrow> size e < size (FunctionCallExpr call args)"
  using size_list_estimation' [of e args "size e" size] by (auto simp: less_Suc_eq_le)

lemma unary_agrees:
  "ID \<noteq> LNOT_op \<Longrightarrow> denotesUnaryOpID ID \<Longrightarrow> sint_laws ops sval \<Longrightarrow>
    agrees sval (staticDiscreteUnaryValue ops ID x) (Some (if ID = NEG_op then - sval x else sval x))"
  using negate_sval(1) [of ops sval x] by (auto simp: operator_cases(1) agrees_def staticDiscreteUnaryValue_def)

lemma call_agrees:
  assumes "sint_laws ops sval" "evaluable ops sval (FunctionCallExpr (FunctionDecl ID) args)"
    "\<And>a. a \<in> set args \<Longrightarrow> evaluable ops sval a \<Longrightarrow> agrees sval (staticDiscreteValue ops a) (mathValue sval a)"
  shows "agrees sval (staticDiscreteValue ops (FunctionCallExpr (FunctionDecl ID) args))
    (mathValue sval (FunctionCallExpr (FunctionDecl ID) args))"
proof (cases "ID = NotPrimitive")
  case True
  then show ?thesis using operator_cases
    by (cases "(sval, FunctionCallExpr (FunctionDecl ID) args)" rule: mathValue.cases) (auto simp: agrees_def getCallPrimitive_def)
next
  case np: False
  then consider a where "args = [a]" | a b where "args = [a, b]"
    using assms(2) by (cases "(ops, sval, FunctionCallExpr (FunctionDecl ID) args)" rule: evaluable.cases) auto
  then show ?thesis
  proof cases
    case (1 a)
    have a: "agrees sval (staticDiscreteValue ops a) (mathValue sval a)" using assms(2,3) 1 by simp
    show ?thesis
    proof (cases "denotesUnaryOpID ID")
      case True
      have "agrees sval (ifStatic (staticDiscreteUnaryValue ops ID) (staticDiscreteValue ops a))
          (Option.bind (mathValue sval a) (\<lambda>x. Some (if ID = NEG_op then - x else x)))"
        using assms(2) 1 True by (intro ifStatic_agrees [OF a] unary_agrees) (auto simp: assms(1))
      then show ?thesis using 1 True np by (cases "mathValue sval a") (simp_all add: getCallPrimitive_def)
    qed (use 1 assms(2) np in \<open>simp add: agrees_def getCallPrimitive_def\<close>)
  next
    case (2 a b)
    have ab: "agrees sval (staticDiscreteValue ops a) (mathValue sval a)"
      "agrees sval (staticDiscreteValue ops b) (mathValue sval b)" using assms(2,3) 2 by simp_all
    show ?thesis
    proof (cases "denotesBinaryOpID ID")
      case True
      have "agrees sval (bothStatic (staticDiscreteBinaryValue ops ID) (staticDiscreteValue ops a) (staticDiscreteValue ops b))
          (Option.bind (mathValue sval a) (\<lambda>x. Option.bind (mathValue sval b) (mathBinary ID x)))"
        using assms(2) 2 binaryFits_sval [OF assms(1)]
        by (intro bothStatic_agrees [OF ab, where P = "binaryFits ops sval ID"]) (auto simp: agrees_def)
      then show ?thesis using 2 True np assms(2) by (simp add: getCallPrimitive_def)
    qed (use 2 assms(2) np in \<open>simp add: agrees_def getCallPrimitive_def\<close>)
  qed
qed

text \<open>
  C21. The static evaluation of an expression whose intermediate values keep within the stated limits never fails an
  assertion, finds it static exactly when it has a mathematical value, and computes that value.
\<close>

theorem staticDiscreteValue_exact:
  assumes "sint_laws ops sval" "evaluable ops sval e"
  shows "\<exists>r. staticDiscreteValue ops e = Some r \<and> map_option sval r = mathValue sval e"
proof -
  have "agrees sval (staticDiscreteValue ops e) (mathValue sval e)"
    using assms(2)
  proof (induction "size e" arbitrary: e rule: less_induct)
    case less
    show ?case
    proof (cases e)
      case (FunctionCallExpr call args)
      have IH: "agrees sval (staticDiscreteValue ops a) (mathValue sval a)" if "a \<in> set args" "evaluable ops sval a" for a
        using less(1) [OF _ that(2)] size_arg [OF that(1)] FunctionCallExpr by simp
      show ?thesis
      proof (cases call)
        case (FunctionDecl ID)
        show ?thesis using call_agrees [OF assms(1), of ID args] IH less(2) FunctionCallExpr FunctionDecl by simp
      next
        case (PosAD ty)
        then obtain a rest where a: "args = a # rest" using less(2) FunctionCallExpr by (cases args) auto
        have "agrees sval (bothStatic (\<lambda>l x. Some (Some (subtractExtending ops x l))) (prefixLower ops ty)
            (staticDiscreteValue ops a)) (Option.bind (mathFirst sval ty) (\<lambda>l. Option.bind (mathValue sval a) (\<lambda>x. Some (x - l))))"
          using less(2) FunctionCallExpr PosAD a IH [of a] prefix_agrees(1) [OF assms(1)] addFits_sval [OF assms(1)]
            negate_sval(1) [OF assms(1)]
          by (intro bothStatic_agrees [where P = "\<lambda>l x. addFits ops sval x (negate ops l)"])
            (auto simp: agrees_def subtractExtending_def)
        then show ?thesis using FunctionCallExpr PosAD a by (simp add: getCallPrimitive_def)
      next
        case (ValAD ty)
        then obtain a rest where a: "args = a # rest" using less(2) FunctionCallExpr by (cases args) auto
        have "agrees sval (bothStatic (\<lambda>l x. Some (Some (addExtending ops x l))) (prefixLower ops ty)
            (staticDiscreteValue ops a)) (Option.bind (mathFirst sval ty) (\<lambda>l. Option.bind (mathValue sval a) (\<lambda>x. Some (x + l))))"
          using less(2) FunctionCallExpr ValAD a IH [of a] prefix_agrees(1) [OF assms(1)] addFits_sval [OF assms(1)]
          by (intro bothStatic_agrees [where P = "\<lambda>l x. addFits ops sval x l"]) (auto simp: agrees_def)
        then show ?thesis using FunctionCallExpr ValAD a by (simp add: getCallPrimitive_def)
      next
        case (EnumLiteral idx n)
        then show ?thesis using less(2) agrees_literal [OF assms(1)] FunctionCallExpr operator_cases
          by (simp add: getCallPrimitive_def)
      qed (simp_all add: FunctionCallExpr agrees_def getCallPrimitive_def)
    qed (use less prefix_agrees [OF assms(1)] in \<open>auto simp: agrees_def\<close>)
  qed
  then show ?thesis by (simp add: agrees_def)
qed

definition callOf :: "primitiveID \<Rightarrow> 'v expr list \<Rightarrow> 'v expr" where
  "callOf ID args = FunctionCallExpr (FunctionDecl ID) args"

text \<open>The expression \<^verbatim>\<open>(2 ** 3 - 4) * 3\<close>, with literals as the parser makes them.\<close>

definition sampleExpr :: "(nat \<times> int) expr" where
  "sampleExpr = callOf MUL_op [callOf SUB_op [callOf POW_op [IntegerLiteral (2, 2), IntegerLiteral (2, 3)],
     IntegerLiteral (3, 4)], IntegerLiteral (2, 3)]"

theorem staticDiscreteValue_exact_witness:
  "\<exists>r. staticDiscreteValue pairSint sampleExpr = Some r \<and> map_option pairVal r = Some 12"
proof -
  have "evaluable pairSint pairVal sampleExpr" by code_simp
  moreover have "mathValue pairVal sampleExpr = Some 12" by code_simp
  ultimately show ?thesis using staticDiscreteValue_exact [OF pairSint_laws, of sampleExpr] by simp
qed

text \<open>
  C26. A sum is exact, except for one with a negative number that falls below what the common width holds: its
  result is extended with zeros, and is too great by two to that width.
\<close>

theorem addExtending_exact:
  assumes "sint_laws ops sval"
  shows "sval (addExtending ops x y) =
    (if 0 \<le> sval y \<or> fitsS (sumWidth ops x y) (sval x + sval y) then sval x + sval y
     else sval x + sval y + 2 ^ sumWidth ops x y)"
proof (cases "0 \<le> sval y")
  case True
  then show ?thesis using addExtending_nonneg [OF assms] by simp
next
  case False
  then show ?thesis using addExtending_neg [OF assms, of y x] by simp
qed

theorem addExtending_exact_witness:
  "pairVal (addExtending pairSint (6, 50) (6, 60)) = 110 \<and> pairVal (addExtending pairSint (7, - 100) (7, - 100)) = 56"
proof -
  have v: "pairVal (6, 50) = 50" "pairVal (6, 60) = 60" "pairVal (7, - 100) = - 100" by (simp_all add: pairVal_def)
  have "\<not> fitsS (sumWidth pairSint (7, - 100) (7, - 100)) (- 200)" "sumWidth pairSint (7, - 100) (7, - 100) = 8"
    by code_simp+
  then show ?thesis
    using addExtending_exact [OF pairSint_laws, of "(6, 50)" "(6, 60)"] v
      addExtending_exact [OF pairSint_laws, of "(7, - 100)" "(7, - 100)"] by simp
qed

lemma static_underflow:
  "map_option (map_option pairVal) (staticDiscreteValue pairSint
     (callOf SUB_op [callOf NEG_op [IntegerLiteral (7, 100)], IntegerLiteral (7, 100)])) = Some (Some 56)"
  by code_simp

section \<open>Integer literals\<close>

lemma acceptIntegerLiteral_sval:
  assumes "sint_laws ops sval" "int n = take_bit (si_getBitWidth ops v) (sval v)"
    "si_getBitWidth ops v = max 1 (bitLength n)"
  obtains lit where "acceptIntegerLiteral ops v = IntegerLiteral lit" "sval lit = int n"
    "si_getBitWidth ops lit = signedBits (int n)"
proof -
  note l = sint_lawsD [OF assms(1)]
  have e: "si_eqNat ops v 0 \<longleftrightarrow> n = 0" using l(21) [of v 0] unfolding assms(2) [symmetric] by simp
  show ?thesis
  proof (cases "n = 0")
    case True
    have "sval v = 0" using assms(2) True take_bit_fitsS [OF l(1,2), of v] l(2) [of v] double_power [OF l(1), of v]
      by (auto simp: fitsS_def split: if_splits)
    then show ?thesis using that [of v] e True assms(3) by (simp add: acceptIntegerLiteral_def signedBits_def bitLength.simps)
  next
    case False
    then have "0 < bitLength n" by (subst bitLength.simps) simp
    then have "si_getBitWidth ops v + 1 = signedBits (int n)" using assms(3) by (simp add: signedBits_def)
    then show ?thesis using that [of "si_zext ops (si_getBitWidth ops v + 1) v"] e False l(3,4) assms(2)
      by (simp add: acceptIntegerLiteral_def)
  qed
qed

text \<open>
  C25. A literal that the parser hands over at its least width, used where a declared integer type is
  expected, gets that type and keeps its value, extended to the size of the type, if it lies between the
  bounds of the declaration; otherwise it is reported as out of range.
\<close>

theorem resolveUniversalLiteral_declared:
  assumes "sint_laws ops sval" "int n = take_bit (si_getBitWidth ops v) (sval v)"
    "si_getBitWidth ops v = max 1 (bitLength n)"
    "staticDiscreteValue ops lower = Some (Some low)" "staticDiscreteValue ops upper = Some (Some high)"
    "newIntegerDecl ops addr lower upper = Some ty" "acceptIntegerLiteral ops v = IntegerLiteral lit"
  shows "if sval low \<le> int n \<and> int n \<le> sval high
    then \<exists>v'. resolveUniversalLiteral ops rootTy lit (Some ty) = Some (LiteralTyped v' addr) \<and> sval v' = int n \<and>
      discreteSize ops ty = Some (si_getBitWidth ops v')
    else resolveUniversalLiteral ops rootTy lit (Some ty) = Some (LiteralRejected VALUE_NOT_IN_RANGE_FOR_TYPE)"
proof -
  note l = sint_lawsD [OF assms(1)]
  have lit: "sval lit = int n" "si_getBitWidth ops lit = signedBits (int n)"
    using acceptIntegerLiteral_sval [OF assms(1-3)] assms(7) by auto
  obtain base r where b: "newRootInteger ops False low high = Some base" "ty = DiscreteType addr base (Some r)"
    using assms(4-6) by (auto simp: newIntegerDecl_def newConstrainedType_def bind_eq_Some_conv)
  obtain w where w: "rootSize ops base = Some w" "isSigned base" "0 < w" "w \<le> 64"
    "signedBits (sval low) \<le> w" "signedBits (sval high) \<le> w" "\<not> isEnumRoot base"
    using newRootInteger_signed [OF assms(1) b(1)] by (auto simp: isEnumRoot_def)
  have c: "typeContains ops u ty = Some (if sval low \<le> sval u \<and> sval u \<le> sval high then Is_Contained else Not_Contained)" for u
  proof -
    have "signedBits (sval low) \<le> 64" "signedBits (sval high) \<le> 64" using w(4-6) by linarith+
    from newIntegerDecl_contained [OF assms(1,4,5) this, of addr] show ?thesis using assms(6) by auto
  qed
  show ?thesis
  proof (cases "w < signedBits (int n)")
    case True
    then have "\<not> fitsS w (int n)" using fitsS_signedBits [OF w(3), of "int n"] by simp
    moreover have "fitsS w (sval high)" using fitsS_signedBits [OF w(3), of "sval high"] w(6) by simp
    ultimately have "\<not> int n \<le> sval high"
      using zero_le_power [of "2 :: int" "w - 1"] unfolding fitsS_def by linarith
    then show ?thesis using True w b(2) lit(2) by (simp add: resolveUniversalLiteral_def discreteSize_def Let_def)
  next
    case False
    define u where "u = (if si_getBitWidth ops lit < w then si_sext ops w lit else lit)"
    have u: "sval u = int n" "si_getBitWidth ops u = w"
      using False lit l(5,6) [where v = lit and w = w] by (auto simp: u_def)
    have "resolveUniversalLiteral ops rootTy lit (Some ty) =
        (if sval low \<le> int n \<and> int n \<le> sval high then Some (LiteralTyped u addr)
         else Some (LiteralRejected VALUE_NOT_IN_RANGE_FOR_TYPE))"
      using False w b(2) lit(2) c [of u] u(1) unfolding resolveUniversalLiteral_def u_def
      by (simp add: discreteSize_def Let_def)
    then show ?thesis using u w(1) b(2) by (simp add: discreteSize_def)
  qed
qed

definition sampleInteger :: "(nat \<times> int) discrete_type" where
  "sampleInteger = the (newIntegerDecl pairSint 1 (IntegerLiteral (4, -5)) (IntegerLiteral (7, 100)))"

theorem resolveUniversalLiteral_declared_witness:
  "\<exists>v'. resolveUniversalLiteral pairSint sampleInteger (6, 60) (Some sampleInteger) = Some (LiteralTyped v' 1) \<and> pairVal v' = 60"
proof -
  have "newIntegerDecl pairSint 1 (IntegerLiteral (4, -5)) (IntegerLiteral (7, 100)) = Some sampleInteger"
    "acceptIntegerLiteral pairSint (5, 60) = IntegerLiteral (6, 60)" by code_simp+
  moreover have "pairVal (4, -5) = -5" "pairVal (7, 100) = 100" "bitLength 60 = 6" "take_bit 6 (pairVal (5, 60)) = 60"
    "si_getBitWidth pairSint (5, 60) = 6" by code_simp+
  ultimately show ?thesis
    using resolveUniversalLiteral_declared [OF pairSint_laws, of 60 "(5, 60)" "IntegerLiteral (4, -5)" "(4, -5)"
        "IntegerLiteral (7, 100)" "(7, 100)" 1 sampleInteger "(6, 60)" sampleInteger] by (simp del: split_paired_Ex) blast
qed

section \<open>Truth values as signed numbers\<close>

text \<open>
  An enumeration of two literals has one bit, so that its last literal counts as minus one when types are compared: it
  does not contain the subtype of its first literal.
\<close>

lemma boolean_not_contained:
  "Option.bind (newConstrainedType pairSint 1 (RootEnumType 2) (FunctionCallExpr (EnumLiteral 0 2) [])
       (FunctionCallExpr (EnumLiteral 0 2) []))
     (typeContainsType pairSint (DiscreteType 0 (RootEnumType 2) None)) = Some Not_Contained"
  by code_simp

end
