(* ===== verification/TypeStore.thy ===== *)
theory TypeStore
  imports Prelude "HOL-Library.Monad_Syntax"
begin

text \<open>
  Types as the type checker compares them: the classifications and the chains of subtypes of
  \<^verbatim>\<open>lib/ast/Type.cpp\<close> and \<^verbatim>\<open>Type.h\<close>, the visibility of completions of
  \<^verbatim>\<open>lib/ast/Decl.cpp\<close>, and coverage, conversions and implicit dereferences of
  \<^verbatim>\<open>lib/typecheck/TypeCheck.cpp\<close>.

  Types refer to each other in cycles, through access types and completions, so they live in a store and
  are compared by their addresses.  \<open>None\<close> is a failed assertion, a null pointer that is followed, or a
  loop that does not end.
\<close>

section \<open>The store\<close>

datatype universal = Universal_Integer | Universal_Access | Universal_Fixed | Universal_Real

text \<open>
  What a primary type holds besides its chain: an access type its target, an array its index types and
  its component type, an enumeration whether it is a character type, and incomplete and private types the
  declaration their root belongs to.
\<close>

datatype primary_kind =
    AccessType (targetType: nat)
  | ArrayType (indexTypes: "nat list") (componentType: nat)
  | EnumerationType (characterType: bool)
  | IncompleteType (incompleteDecl: nat)
  | IntegerType
  | PrivateType (privateDecl: nat)
  | RecordType

text \<open>The constraint of a discrete type or an array.\<close>

datatype constraint = Unconstrained | StaticConstraint | DynamicConstraint

datatype type_obj =
    UniversalType universal
  | FunctionType (argumentTypes: "nat list") (resultType: nat)
  | ProcedureType (argumentTypes: "nat list")
  | PrimaryType (primaryKind: primary_kind) (typeChain: "nat option") (subtypeBit: bool) (typeConstraint: constraint)

text \<open>A declaration of an incomplete or private type: its region and the type of its completion.\<close>

record completable =
  cd_region :: nat
  cd_completion :: "nat option"

record tstore =
  ts_type :: "nat \<Rightarrow> type_obj"
  ts_incomplete :: "nat \<Rightarrow> completable"
  ts_private :: "nat \<Rightarrow> completable"
  ts_parent :: "nat \<Rightarrow> nat option"

section \<open>Kinds and chains\<close>

fun objKind :: "type_obj \<Rightarrow> nat" where
  "objKind (UniversalType _) = 0"
| "objKind (FunctionType _ _) = 1"
| "objKind (ProcedureType _) = 2"
| "objKind (PrimaryType k _ _ _) =
     (case k of AccessType _ \<Rightarrow> 3 | ArrayType _ _ \<Rightarrow> 4 | EnumerationType _ \<Rightarrow> 5 | IncompleteType _ \<Rightarrow> 6
      | IntegerType \<Rightarrow> 7 | PrivateType _ \<Rightarrow> 8 | RecordType \<Rightarrow> 9)"

definition getKind :: "tstore \<Rightarrow> nat \<Rightarrow> nat" where
  "getKind st a = objKind (ts_type st a)"

definition isPrimary :: "tstore \<Rightarrow> nat \<Rightarrow> bool" where
  "isPrimary st a = (case ts_type st a of PrimaryType _ _ _ _ \<Rightarrow> True | _ \<Rightarrow> False)"

definition isSubtype :: "tstore \<Rightarrow> nat \<Rightarrow> bool" where
  "isSubtype st a = (case ts_type st a of PrimaryType _ _ b _ \<Rightarrow> b | _ \<Rightarrow> False)"

definition getAncestorType :: "tstore \<Rightarrow> nat \<Rightarrow> nat option" where
  "getAncestorType st a = (case ts_type st a of PrimaryType _ c _ _ \<Rightarrow> c | _ \<Rightarrow> None)"

partial_function (option) getRootType :: "tstore \<Rightarrow> nat \<Rightarrow> nat option" where
  "getRootType st a =
     (if isSubtype st a
      then (case getAncestorType st a of None \<Rightarrow> None | Some c \<Rightarrow> getRootType st c)
      else Some a)"

declare getRootType.simps [code]

definition isUniversal :: "universal \<Rightarrow> tstore \<Rightarrow> nat \<Rightarrow> bool" where
  "isUniversal u st a \<longleftrightarrow> ts_type st a = UniversalType u"

definition isAnyUniversal :: "tstore \<Rightarrow> nat \<Rightarrow> bool" where
  "isAnyUniversal st a = (case ts_type st a of UniversalType _ \<Rightarrow> True | _ \<Rightarrow> False)"

definition primaryKindOf :: "tstore \<Rightarrow> nat \<Rightarrow> primary_kind option" where
  "primaryKindOf st a = (case ts_type st a of PrimaryType k _ _ _ \<Rightarrow> Some k | _ \<Rightarrow> None)"

definition isIntegerType :: "tstore \<Rightarrow> nat \<Rightarrow> bool" where
  "isIntegerType st a \<longleftrightarrow> primaryKindOf st a = Some IntegerType"

definition isEnumType :: "tstore \<Rightarrow> nat \<Rightarrow> bool" where
  "isEnumType st a = (case primaryKindOf st a of Some (EnumerationType _) \<Rightarrow> True | _ \<Rightarrow> False)"

definition isDiscreteType :: "tstore \<Rightarrow> nat \<Rightarrow> bool" where
  "isDiscreteType st a \<longleftrightarrow> isIntegerType st a \<or> isEnumType st a"

definition isScalarType :: "tstore \<Rightarrow> nat \<Rightarrow> bool" where
  "isScalarType st a \<longleftrightarrow> isDiscreteType st a"

definition isArrayType :: "tstore \<Rightarrow> nat \<Rightarrow> bool" where
  "isArrayType st a = (case primaryKindOf st a of Some (ArrayType _ _) \<Rightarrow> True | _ \<Rightarrow> False)"

definition isRecordType :: "tstore \<Rightarrow> nat \<Rightarrow> bool" where
  "isRecordType st a \<longleftrightarrow> primaryKindOf st a = Some RecordType"

definition isCompositeType :: "tstore \<Rightarrow> nat \<Rightarrow> bool" where
  "isCompositeType st a \<longleftrightarrow> isArrayType st a \<or> isRecordType st a"

definition isStringType :: "tstore \<Rightarrow> nat \<Rightarrow> bool" where
  "isStringType st a =
     (case primaryKindOf st a of
        Some (ArrayType indices component) \<Rightarrow>
          length indices = 1 \<and>
          (case primaryKindOf st component of Some (EnumerationType char) \<Rightarrow> char | _ \<Rightarrow> False)
      | _ \<Rightarrow> False)"

definition isAccessType :: "tstore \<Rightarrow> nat \<Rightarrow> bool" where
  "isAccessType st a = (case primaryKindOf st a of Some (AccessType _) \<Rightarrow> True | _ \<Rightarrow> False)"

definition isConstrained :: "tstore \<Rightarrow> nat \<Rightarrow> bool" where
  "isConstrained st a =
     (case ts_type st a of
        PrimaryType k _ _ c \<Rightarrow>
          (case k of
             RecordType \<Rightarrow> True
           | AccessType _ \<Rightarrow> False
           | IncompleteType _ \<Rightarrow> False
           | PrivateType _ \<Rightarrow> False
           | _ \<Rightarrow> c \<noteq> Unconstrained)
      | _ \<Rightarrow> False)"

text \<open>A discrete type with static bounds, and an array all of whose indices have them.\<close>

definition discreteStaticallyConstrained :: "tstore \<Rightarrow> nat \<Rightarrow> bool" where
  "discreteStaticallyConstrained st a =
     (case ts_type st a of PrimaryType _ _ _ c \<Rightarrow> c = StaticConstraint | _ \<Rightarrow> False)"

definition arrayStaticallyConstrained :: "tstore \<Rightarrow> nat \<Rightarrow> bool" where
  "arrayStaticallyConstrained st a =
     (if \<not> isConstrained st a then False
      else (case primaryKindOf st a of
              Some (ArrayType indices _) \<Rightarrow> list_all (discreteStaticallyConstrained st) indices
            | _ \<Rightarrow> False))"

definition isIndefiniteType :: "tstore \<Rightarrow> nat \<Rightarrow> bool" where
  "isIndefiniteType st a =
     (if isArrayType st a then \<not> isConstrained st a \<or> \<not> arrayStaticallyConstrained st a else False)"

definition isFatAccessType :: "tstore \<Rightarrow> nat \<Rightarrow> bool" where
  "isFatAccessType st a = (case primaryKindOf st a of Some (AccessType t) \<Rightarrow> isIndefiniteType st t | _ \<Rightarrow> False)"

definition isThinAccessType :: "tstore \<Rightarrow> nat \<Rightarrow> bool" where
  "isThinAccessType st a = (case primaryKindOf st a of Some (AccessType t) \<Rightarrow> \<not> isIndefiniteType st t | _ \<Rightarrow> False)"

datatype classification =
    CLASS_Scalar | CLASS_Discrete | CLASS_Enum | CLASS_Integer | CLASS_Composite | CLASS_Array | CLASS_String
  | CLASS_Access | CLASS_Record

fun memberOf :: "classification \<Rightarrow> tstore \<Rightarrow> nat \<Rightarrow> bool" where
  "memberOf CLASS_Scalar st a = isScalarType st a"
| "memberOf CLASS_Discrete st a = isDiscreteType st a"
| "memberOf CLASS_Enum st a = isEnumType st a"
| "memberOf CLASS_Integer st a = (isIntegerType st a \<or> isUniversal Universal_Integer st a)"
| "memberOf CLASS_Composite st a = isCompositeType st a"
| "memberOf CLASS_Array st a = isArrayType st a"
| "memberOf CLASS_String st a = isStringType st a"
| "memberOf CLASS_Access st a = (isAccessType st a \<or> isUniversal Universal_Access st a)"
| "memberOf CLASS_Record st a = isRecordType st a"

definition isUniversalTypeOf :: "tstore \<Rightarrow> nat \<Rightarrow> nat \<Rightarrow> bool option" where
  "isUniversalTypeOf st this type =
     (if isUniversal Universal_Integer st type then Some (memberOf CLASS_Integer st type)
      else if isUniversal Universal_Access st type then Some (memberOf CLASS_Access st type)
      else if isUniversal Universal_Fixed st type \<or> isUniversal Universal_Real st type then None
      else Some False)"

text \<open>The walk of \<^verbatim>\<open>isSubtypeOf\<close> up the chain of ancestors.\<close>

partial_function (option) ancestorWalk :: "tstore \<Rightarrow> nat \<Rightarrow> nat \<Rightarrow> bool option" where
  "ancestorWalk st cursor type =
     (if isSubtype st cursor then
        (if cursor = type then Some True
         else (case getAncestorType st cursor of None \<Rightarrow> None | Some c \<Rightarrow> ancestorWalk st c type))
      else Some (cursor = type))"

declare ancestorWalk.simps [code]

definition isSubtypeOf :: "tstore \<Rightarrow> nat \<Rightarrow> nat \<Rightarrow> bool option" where
  "isSubtypeOf st this type =
     (if this = type then Some True
      else if getKind st this \<noteq> getKind st type then Some False
      else if isPrimary st this then ancestorWalk st this type
      else Some False)"

section \<open>Completions\<close>

partial_function (option) regionWalk :: "tstore \<Rightarrow> nat \<Rightarrow> nat \<Rightarrow> bool option" where
  "regionWalk st target region =
     (if target = region then Some True
      else (case ts_parent st region of None \<Rightarrow> Some False | Some p \<Rightarrow> regionWalk st target p))"

declare regionWalk.simps [code]

definition incompleteCompletionVisible :: "tstore \<Rightarrow> nat \<Rightarrow> nat \<Rightarrow> bool option" where
  "incompleteCompletionVisible st d region =
     (if cd_completion (ts_incomplete st d) = None then Some False
      else regionWalk st (cd_region (ts_incomplete st d)) region)"

definition privateCompletionVisible :: "tstore \<Rightarrow> nat \<Rightarrow> nat \<Rightarrow> bool option" where
  "privateCompletionVisible st d region = regionWalk st (cd_region (ts_private st d)) region"

definition getIncompleteDecl :: "tstore \<Rightarrow> nat \<Rightarrow> nat option" where
  "getIncompleteDecl st a = do {
     r \<leftarrow> getRootType st a;
     case primaryKindOf st r of Some (IncompleteType d) \<Rightarrow> Some d | _ \<Rightarrow> None }"

definition getPrivateDecl :: "tstore \<Rightarrow> nat \<Rightarrow> nat option" where
  "getPrivateDecl st a = do {
     r \<leftarrow> getRootType st a;
     case primaryKindOf st r of Some (PrivateType d) \<Rightarrow> Some d | _ \<Rightarrow> None }"

definition isIncomplete :: "tstore \<Rightarrow> nat \<Rightarrow> bool" where
  "isIncomplete st a = (case primaryKindOf st a of Some (IncompleteType _) \<Rightarrow> True | _ \<Rightarrow> False)"

definition isPrivate :: "tstore \<Rightarrow> nat \<Rightarrow> bool" where
  "isPrivate st a = (case primaryKindOf st a of Some (PrivateType _) \<Rightarrow> True | _ \<Rightarrow> False)"

text \<open>The completion of a private type, if it has one that is visible in the region.\<close>

definition visiblePrivate :: "tstore \<Rightarrow> nat \<Rightarrow> nat \<Rightarrow> nat option option" where
  "visiblePrivate st region a =
     (if isPrivate st a then do {
        d \<leftarrow> getPrivateDecl st a;
        visible \<leftarrow> privateCompletionVisible st d region;
        Some (if visible then cd_completion (ts_private st d) else None) }
      else Some None)"

definition visibleIncomplete :: "tstore \<Rightarrow> nat \<Rightarrow> nat \<Rightarrow> nat option option" where
  "visibleIncomplete st region a =
     (if isIncomplete st a then do {
        d \<leftarrow> getIncompleteDecl st a;
        visible \<leftarrow> incompleteCompletionVisible st d region;
        Some (if visible then cd_completion (ts_incomplete st d) else None) }
      else Some None)"

partial_function (option) resolveType :: "tstore \<Rightarrow> nat \<Rightarrow> nat \<Rightarrow> nat option" where
  "resolveType st region a =
     (if isIncomplete st a then
        (case visibleIncomplete st region a of
           None \<Rightarrow> None | Some None \<Rightarrow> Some a | Some (Some c) \<Rightarrow> resolveType st region c)
      else
        (case visiblePrivate st region a of
           None \<Rightarrow> None | Some None \<Rightarrow> Some a | Some (Some c) \<Rightarrow> resolveType st region c))"

declare resolveType.simps [code]

section \<open>Coverage, conversion, dereference\<close>

definition rootOrSelf :: "tstore \<Rightarrow> nat \<Rightarrow> nat option" where
  "rootOrSelf st a = (if isPrimary st a then getRootType st a else Some a)"

definition eitherUniversal :: "tstore \<Rightarrow> nat \<Rightarrow> nat \<Rightarrow> bool option" where
  "eitherUniversal st A B = do { u \<leftarrow> isUniversalTypeOf st A B; if u then Some True else isUniversalTypeOf st B A }"

partial_function (option) covers :: "tstore \<Rightarrow> nat \<Rightarrow> nat \<Rightarrow> nat \<Rightarrow> bool option" where
  "covers st region A B =
     (if A = B then Some True
      else (case eitherUniversal st A B of
        None \<Rightarrow> None
      | Some u \<Rightarrow>
          if u then Some True
          else (case visiblePrivate st region A of
             None \<Rightarrow> None
           | Some (Some c) \<Rightarrow> covers st region c B
           | Some None \<Rightarrow>
               (case visiblePrivate st region B of
                  None \<Rightarrow> None
                | Some (Some c) \<Rightarrow> covers st region A c
                | Some None \<Rightarrow> do { a \<leftarrow> rootOrSelf st A; b \<leftarrow> rootOrSelf st B; Some (a = b) }))))"

declare covers.simps [code]

text \<open>The completion of an incomplete type, visible or not.\<close>

definition completeIncomplete :: "tstore \<Rightarrow> nat \<Rightarrow> nat option" where
  "completeIncomplete st a =
     (if isIncomplete st a
      then do { d \<leftarrow> getIncompleteDecl st a; Some (case cd_completion (ts_incomplete st d) of Some c \<Rightarrow> c | None \<Rightarrow> a) }
      else Some a)"

definition conversionRequired :: "tstore \<Rightarrow> nat \<Rightarrow> nat \<Rightarrow> nat \<Rightarrow> bool option" where
  "conversionRequired st region source target = do {
     sourceTy \<leftarrow> resolveType st region source;
     targetTy \<leftarrow> resolveType st region target;
     if sourceTy = targetTy then Some False
     else if isUniversal Universal_Integer st sourceTy then Some True
     else do {
       src \<leftarrow> completeIncomplete st sourceTy;
       tgt \<leftarrow> completeIncomplete st targetTy;
       if \<not> (isPrimary st src \<and> isPrimary st tgt) then Some False
       else do {
         sub \<leftarrow> isSubtypeOf st src tgt;
         if sub then Some False
         else do {
           a \<leftarrow> getRootType st src;
           b \<leftarrow> getRootType st tgt;
           Some (\<not> (a = b \<and> \<not> isConstrained st tgt)) } } } }"

partial_function (option) getCoveringDereference :: "tstore \<Rightarrow> nat \<Rightarrow> nat \<Rightarrow> nat \<Rightarrow> nat option option" where
  "getCoveringDereference st region source target =
     (case primaryKindOf st source of
        Some (AccessType t) \<Rightarrow>
          (case resolveType st region t of
             None \<Rightarrow> None
           | Some s \<Rightarrow>
               (case covers st region s target of
                  None \<Rightarrow> None
                | Some c \<Rightarrow> if c then Some (Some s) else getCoveringDereference st region s target))
      | _ \<Rightarrow> Some None)"

declare getCoveringDereference.simps [code]

partial_function (option) getClassDereference :: "tstore \<Rightarrow> nat \<Rightarrow> nat \<Rightarrow> classification \<Rightarrow> nat option option" where
  "getClassDereference st region source ID =
     (case primaryKindOf st source of
        Some (AccessType t) \<Rightarrow>
          (case resolveType st region t of
             None \<Rightarrow> None
           | Some s \<Rightarrow> if memberOf ID st s then Some (Some s) else getClassDereference st region s ID)
      | _ \<Rightarrow> Some None)"

declare getClassDereference.simps [code]

section \<open>Well-formed stores\<close>

text \<open>
  In a store that the program builds an ancestor is made before its subtypes and the completion of a private type is
  no view of that type again: some rank falls along chains, completions of private types and regions.  The
  chain of a subtype goes on, and stays within its kind; a completion is a primary type.
\<close>

definition wellFormed :: "(nat \<Rightarrow> nat) \<Rightarrow> (nat \<Rightarrow> nat) \<Rightarrow> tstore \<Rightarrow> bool" where
  "wellFormed rank depth st \<longleftrightarrow>
     (\<forall>a. isSubtype st a \<longrightarrow> (\<exists>c. getAncestorType st a = Some c \<and> rank c < rank a \<and> getKind st c = getKind st a)) \<and>
     (\<forall>r p. ts_parent st r = Some p \<longrightarrow> depth p < depth r) \<and>
     (\<forall>a d c. isPrivate st a \<longrightarrow> getPrivateDecl st a = Some d \<longrightarrow> cd_completion (ts_private st d) = Some c \<longrightarrow>
        rank c < rank a \<and> isPrimary st c)"

lemma wellFormedD:
  assumes "wellFormed rank depth st"
  shows "isSubtype st a \<Longrightarrow> \<exists>c. getAncestorType st a = Some c \<and> rank c < rank a \<and> getKind st c = getKind st a"
    "ts_parent st r = Some p \<Longrightarrow> depth p < depth r"
    "isPrivate st a \<Longrightarrow> getPrivateDecl st a = Some d \<Longrightarrow> cd_completion (ts_private st d) = Some c \<Longrightarrow>
       rank c < rank a \<and> isPrimary st c"
  using assms by (auto simp: wellFormed_def)

lemma getKind_primary: "getKind st a = getKind st b \<Longrightarrow> isPrimary st a = isPrimary st b"
  by (auto simp: getKind_def isPrimary_def split: type_obj.splits primary_kind.splits)

lemma getRootType_total:
  assumes "wellFormed rank depth st"
  shows "\<exists>r. getRootType st a = Some r \<and> \<not> isSubtype st r \<and> getKind st r = getKind st a \<and> rank r \<le> rank a"
proof (induction "rank a" arbitrary: a rule: less_induct)
  case less
  show ?case
  proof (cases "isSubtype st a")
    case True
    then obtain c where c: "getAncestorType st a = Some c" "rank c < rank a" "getKind st c = getKind st a"
      using wellFormedD(1) [OF assms] by blast
    from less [OF c(2)] show ?thesis using True c by (subst getRootType.simps) auto
  next
    case False
    then show ?thesis by (subst getRootType.simps) simp
  qed
qed

lemma regionWalk_total:
  assumes "wellFormed rank depth st"
  shows "\<exists>b. regionWalk st target region = Some b"
proof (induction "depth region" arbitrary: region rule: less_induct)
  case less
  then show ?case using wellFormedD(2) [OF assms, of region]
    by (subst regionWalk.simps) (auto split: option.split)
qed

lemma privateKind: "isPrivate st a \<longleftrightarrow> getKind st a = 8"
  by (auto simp: isPrivate_def primaryKindOf_def getKind_def split: type_obj.splits primary_kind.splits)

lemma visiblePrivate_total:
  assumes "wellFormed rank depth st"
  shows "\<exists>v. visiblePrivate st region a = Some v \<and> (\<forall>c. v = Some c \<longrightarrow> rank c < rank a \<and> isPrimary st c)"
proof (cases "isPrivate st a")
  case True
  obtain r where r: "getRootType st a = Some r" "getKind st r = getKind st a"
    using getRootType_total [OF assms] by blast
  then have "isPrivate st r" using True privateKind by simp
  then obtain d where d: "getPrivateDecl st a = Some d"
    using r by (auto simp: getPrivateDecl_def isPrivate_def split: option.splits primary_kind.splits)
  then show ?thesis
    using True wellFormedD(3) [OF assms True d] regionWalk_total [OF assms, of "cd_region (ts_private st d)" region]
    by (auto simp: visiblePrivate_def privateCompletionVisible_def)
qed (simp add: visiblePrivate_def)

text \<open>The root of the full view of a type in a region.\<close>

partial_function (option) viewRoot :: "tstore \<Rightarrow> nat \<Rightarrow> nat \<Rightarrow> nat option" where
  "viewRoot st region a =
     (case visiblePrivate st region a of
        None \<Rightarrow> None
      | Some (Some c) \<Rightarrow> viewRoot st region c
      | Some None \<Rightarrow> rootOrSelf st a)"

lemma viewRoot_total:
  assumes "wellFormed rank depth st"
  shows "\<exists>r. viewRoot st region a = Some r"
proof (induction "rank a" arbitrary: a rule: less_induct)
  case less
  obtain v where v: "visiblePrivate st region a = Some v" "\<forall>c. v = Some c \<longrightarrow> rank c < rank a \<and> isPrimary st c"
    using visiblePrivate_total [OF assms] by blast
  show ?case
  proof (cases v)
    case None
    then show ?thesis using v getRootType_total [OF assms, of a] by (subst viewRoot.simps) (auto simp: rootOrSelf_def)
  next
    case (Some c)
    then show ?thesis using v less [of c] by (subst viewRoot.simps) auto
  qed
qed

lemma isPrimary_no_universal: "isPrimary st a \<Longrightarrow> isUniversalTypeOf st b a = Some False"
  by (auto simp: isPrimary_def isUniversalTypeOf_def isUniversal_def split: type_obj.splits)

lemma covers_viewRoot:
  assumes "wellFormed rank depth st" "isPrimary st A" "isPrimary st B"
  shows "covers st region A B = Some (viewRoot st region A = viewRoot st region B)"
  using assms(2,3)
proof (induction "rank A + rank B" arbitrary: A B rule: less_induct)
  case less
  note u = isPrimary_no_universal [OF less(2)] isPrimary_no_universal [OF less(3)]
  obtain v where v: "visiblePrivate st region A = Some v" "\<forall>c. v = Some c \<longrightarrow> rank c < rank A \<and> isPrimary st c"
    using visiblePrivate_total [OF assms(1)] by blast
  obtain w where w: "visiblePrivate st region B = Some w" "\<forall>c. w = Some c \<longrightarrow> rank c < rank B \<and> isPrimary st c"
    using visiblePrivate_total [OF assms(1)] by blast
  have e: "eitherUniversal st A B = Some False" by (simp add: eitherUniversal_def u)
  show ?case
  proof (cases "A = B")
    case True
    then show ?thesis by (subst covers.simps) simp
  next
    case ne: False
    show ?thesis
    proof (cases v)
      case (Some c)
      then have c: "rank c < rank A" "isPrimary st c" "viewRoot st region A = viewRoot st region c"
        using v by (auto simp: viewRoot.simps [of st region A])
      then have "covers st region c B = Some (viewRoot st region c = viewRoot st region B)"
        using less(1) [of c B] less(3) by simp
      then show ?thesis using ne e v(1) Some c(3) by (subst covers.simps) simp
    next
      case None
      show ?thesis
      proof (cases w)
        case (Some c)
        then have c: "rank c < rank B" "isPrimary st c" "viewRoot st region B = viewRoot st region c"
          using w by (auto simp: viewRoot.simps [of st region B])
        then have "covers st region A c = Some (viewRoot st region A = viewRoot st region c)"
          using less(1) [of A c] less(2) by simp
        then show ?thesis using ne e v(1) w(1) \<open>v = None\<close> Some c(3) by (subst covers.simps) simp
      next
        case w0: None
        obtain a b where r: "rootOrSelf st A = Some a" "rootOrSelf st B = Some b"
          using getRootType_total [OF assms(1)] unfolding rootOrSelf_def by (metis option.distinct(1))
        then have "viewRoot st region A = Some a" "viewRoot st region B = Some b"
          using v(1) w(1) None w0 by (simp_all add: viewRoot.simps [of st region A] viewRoot.simps [of st region B])
        then show ?thesis using ne e v(1) w(1) None w0 r by (subst covers.simps) simp
      qed
    qed
  qed
qed

text \<open>
  C23. In a well-formed store coverage of two primary types is always decided, and is the equality of the roots of
  their full views: it is reflexive, symmetric and transitive.
\<close>

theorem covers_equivalence:
  assumes "wellFormed rank depth st" "isPrimary st A" "isPrimary st B"
  shows "\<exists>a b. viewRoot st region A = Some a \<and> viewRoot st region B = Some b \<and> covers st region A B = Some (a = b)"
proof -
  obtain a where a: "viewRoot st region A = Some a" using viewRoot_total [OF assms(1)] by blast
  obtain b where b: "viewRoot st region B = Some b" using viewRoot_total [OF assms(1)] by blast
  show ?thesis using covers_viewRoot [OF assms, of region] a b by simp
qed

section \<open>Subtypes\<close>

lemma viewRoot_same:
  assumes "getRootType st a = getRootType st b" "getKind st a = getKind st b"
  shows "viewRoot st region a = viewRoot st region b"
proof -
  have "isPrivate st a = isPrivate st b" using assms(2) by (simp add: privateKind)
  moreover have "getPrivateDecl st a = getPrivateDecl st b" using assms(1) by (simp add: getPrivateDecl_def)
  ultimately have "visiblePrivate st region a = visiblePrivate st region b" by (simp add: visiblePrivate_def)
  moreover have "rootOrSelf st a = rootOrSelf st b" if "isPrimary st a"
    using assms(1) getKind_primary [OF assms(2)] that by (simp add: rootOrSelf_def)
  moreover have "a = b" if "\<not> isPrimary st a"
  proof -
    have "\<not> isPrimary st b" using that getKind_primary [OF assms(2)] by simp
    then have "\<not> isSubtype st a" "\<not> isSubtype st b"
      using that by (auto simp: isPrimary_def isSubtype_def split: type_obj.splits)
    then show ?thesis using assms(1) by (simp add: getRootType.simps)
  qed
  ultimately show ?thesis
    by (cases "isPrimary st a") (auto simp: viewRoot.simps [of st region a] viewRoot.simps [of st region b] split: option.split)
qed

lemma ancestorWalk_root:
  assumes "wellFormed rank depth st" "ancestorWalk st a b = Some True"
  shows "getRootType st a = getRootType st b \<and> getKind st a = getKind st b"
  using assms(2)
proof (induction "rank a" arbitrary: a rule: less_induct)
  case less
  show ?case
  proof (cases "isSubtype st a \<and> a \<noteq> b")
    case True
    then obtain c where c: "getAncestorType st a = Some c" "rank c < rank a" "getKind st c = getKind st a"
      using wellFormedD(1) [OF assms(1)] by blast
    have "ancestorWalk st c b = Some True" using less(2) True c(1) by (subst (asm) ancestorWalk.simps) simp
    from less(1) [OF c(2) this] show ?thesis using True c by (simp add: getRootType.simps [of st a])
  next
    case False
    then have "a = b" using less(2) by (subst (asm) ancestorWalk.simps) (auto split: if_splits)
    then show ?thesis by simp
  qed
qed

lemma isSubtypeOf_root:
  assumes "wellFormed rank depth st" "isSubtypeOf st a b = Some True"
  shows "getRootType st a = getRootType st b \<and> getKind st a = getKind st b"
  using assms(2) ancestorWalk_root [OF assms(1), of a b] by (auto simp: isSubtypeOf_def split: if_splits)

text \<open>
  A subtype of a type covers it, whatever completions are visible.
\<close>

theorem isSubtypeOf_covers:
  assumes "wellFormed rank depth st" "isPrimary st A" "isSubtypeOf st A B = Some True"
  shows "covers st region A B = Some True"
proof -
  have r: "getRootType st A = getRootType st B" "getKind st A = getKind st B"
    using isSubtypeOf_root [OF assms(1,3)] by auto
  then have "isPrimary st B" using getKind_primary assms(2) by blast
  then show ?thesis using covers_viewRoot [OF assms(1,2), of B region] viewRoot_same [OF r] by simp
qed

text \<open>
  C24. A conversion is left out only between types that cover each other: if the resolved types of source and target are
  primary and complete and no conversion is required, one covers the other.
\<close>

theorem conversion_omitted:
  assumes "wellFormed rank depth st" "conversionRequired st region source target = Some False"
    "resolveType st region source = Some A" "resolveType st region target = Some B"
    "isPrimary st A" "isPrimary st B" "\<not> isIncomplete st A" "\<not> isIncomplete st B"
  shows "covers st region A B = Some True"
proof -
  have u: "\<not> isUniversal Universal_Integer st A" using assms(5) by (auto simp: isPrimary_def isUniversal_def)
  consider "A = B" | "isSubtypeOf st A B = Some True" | "getRootType st A = getRootType st B" "isSubtypeOf st A B = Some False"
    using assms(2-8) u
    by (auto simp: conversionRequired_def completeIncomplete_def bind_eq_Some_conv split: if_splits)
  then show ?thesis
  proof cases
    case 1
    then show ?thesis by (simp add: covers.simps)
  next
    case 2
    then show ?thesis using isSubtypeOf_covers [OF assms(1,5)] by simp
  next
    case 3
    have "getKind st A = getKind st B"
      using getRootType_total [OF assms(1), of A] getRootType_total [OF assms(1), of B] 3(1) by auto
    then show ?thesis using covers_viewRoot [OF assms(1,5,6)] viewRoot_same [OF 3(1)] by simp
  qed
qed

section \<open>Implicit dereferences\<close>

text \<open>The type of the n-th implicit dereference of a value.\<close>

fun derefs :: "tstore \<Rightarrow> nat \<Rightarrow> nat \<Rightarrow> nat \<Rightarrow> nat option" where
  "derefs st region 0 source = Some source"
| "derefs st region (Suc n) source =
     (case primaryKindOf st source of
        Some (AccessType t) \<Rightarrow> Option.bind (resolveType st region t) (derefs st region n)
      | _ \<Rightarrow> None)"

declare derefs.simps [simp del]

lemma derefs_0 [simp]: "derefs st region 0 source = Some source"
  by (simp add: derefs.simps)

lemma derefs_Suc: "derefs st region (Suc n) source = Some s \<longleftrightarrow>
    (\<exists>t r. primaryKindOf st source = Some (AccessType t) \<and> resolveType st region t = Some r \<and> derefs st region n r = Some s)"
  by (auto simp: derefs.simps bind_eq_Some_conv split: option.splits primary_kind.splits)

text \<open>
  The search for an implicit dereference answers the first type along the chain of access types that covers
  the target.
\<close>

theorem getCoveringDereference_first:
  assumes "derefs st region (Suc n) source = Some s" "covers st region s target = Some True"
    "\<forall>k < n. \<exists>t. derefs st region (Suc k) source = Some t \<and> covers st region t target = Some False"
  shows "getCoveringDereference st region source target = Some (Some s)"
  using assms
proof (induction n arbitrary: source)
  case 0
  then obtain t where "primaryKindOf st source = Some (AccessType t)" "resolveType st region t = Some s"
    by (auto simp: derefs_Suc)
  then show ?case using 0(2) by (subst getCoveringDereference.simps) simp
next
  case (Suc n)
  obtain t r where t: "primaryKindOf st source = Some (AccessType t)" "resolveType st region t = Some r"
    "derefs st region (Suc n) r = Some s"
    using Suc(2) derefs_Suc [of st region "Suc n" source s] by blast
  have d: "derefs st region (Suc k) source = Some u \<longleftrightarrow> derefs st region k r = Some u" for k u
    using t by (auto simp: derefs_Suc [of st region k source])
  have "covers st region r target = Some False" using Suc(4) [rule_format, of 0] d by simp
  moreover have "\<forall>k < n. \<exists>u. derefs st region (Suc k) r = Some u \<and> covers st region u target = Some False"
    using Suc(4) d by auto
  ultimately show ?case using Suc.IH [OF t(3) Suc(3)] t by (subst getCoveringDereference.simps) simp
qed

text \<open>
  For an access type whose target is completed by the type itself, as in
  \<^verbatim>\<open>type T; type T is access T;\<close>, the search does not end when the target is not covered.
\<close>

theorem dereference_loops:
  assumes "primaryKindOf st a = Some (AccessType t)" "resolveType st region t = Some a" "covers st region a target = Some False"
  shows "getCoveringDereference st region a target = None"
proof -
  let ?P = "\<lambda>st' region' x target' y. st' = st \<and> region' = region \<and> target' = target \<longrightarrow> x \<noteq> a"
  have "?P st region a target y" if "getCoveringDereference st region a target = Some y" for y
  proof (rule getCoveringDereference.raw_induct [where P = ?P, OF _ that], intro impI notI)
    fix f st' region' x target' y'
    assume IH: "\<And>st' region' x target' y. f st' region' x target' = Some y \<Longrightarrow> ?P st' region' x target' y"
      and body: "(case primaryKindOf st' x of
        Some (AccessType t) \<Rightarrow>
          (case resolveType st' region' t of
             None \<Rightarrow> None
           | Some s \<Rightarrow>
               (case covers st' region' s target' of
                  None \<Rightarrow> None
                | Some c \<Rightarrow> if c then Some (Some s) else f st' region' s target'))
      | _ \<Rightarrow> Some None) = Some y'"
      and e: "st' = st \<and> region' = region \<and> target' = target" "x = a"
    have "f st region a target = Some y'" using body e assms by simp
    from IH [OF this] show False by simp
  qed
  then show ?thesis by (cases "getCoveringDereference st region a target") blast+
qed

section \<open>An example\<close>

text \<open>
  The root 0 and a subtype 1 of an integer type, a private type 2 that 1 completes, visible in region 7; an incomplete type 3 with
  an access type 4 to it that completes it.
\<close>

definition sampleStore :: tstore where
  "sampleStore = \<lparr>
     ts_type = (\<lambda>a.
       if a = 0 then PrimaryType IntegerType None False Unconstrained
       else if a = 1 then PrimaryType IntegerType (Some 0) True StaticConstraint
       else if a = 2 then PrimaryType (PrivateType 0) None False Unconstrained
       else if a = 3 then PrimaryType (IncompleteType 0) None False Unconstrained
       else if a = 4 then PrimaryType (AccessType 3) None False Unconstrained
       else UniversalType Universal_Integer),
     ts_incomplete = (\<lambda>_. \<lparr>cd_region = 7, cd_completion = Some 4\<rparr>),
     ts_private = (\<lambda>_. \<lparr>cd_region = 7, cd_completion = Some 1\<rparr>),
     ts_parent = (\<lambda>_. None)\<rparr>"

lemma sampleStore_wellFormed: "wellFormed (\<lambda>a. a) (\<lambda>_. 0) sampleStore"
  by (auto simp: wellFormed_def sampleStore_def isSubtype_def getAncestorType_def getKind_def isPrivate_def isPrimary_def
      primaryKindOf_def getPrivateDecl_def split: if_splits)

lemma sampleStore_primary: "isPrimary sampleStore 0" "isPrimary sampleStore 1" "isPrimary sampleStore 2"
  by (simp_all add: sampleStore_def isPrimary_def)

lemma sampleStore_view: "viewRoot sampleStore 7 0 = Some 0" "viewRoot sampleStore 7 2 = Some 0" "viewRoot sampleStore 8 2 = Some 2"
proof -
  have v: "visiblePrivate sampleStore 7 2 = Some (Some 1)" "visiblePrivate sampleStore 8 2 = Some None"
    "visiblePrivate sampleStore r 0 = Some None" "visiblePrivate sampleStore r 1 = Some None" for r
    by (simp_all add: visiblePrivate_def isPrivate_def primaryKindOf_def sampleStore_def getPrivateDecl_def
        getRootType.simps isSubtype_def privateCompletionVisible_def regionWalk.simps)
  have r: "rootOrSelf sampleStore 0 = Some 0" "rootOrSelf sampleStore 1 = Some 0" "rootOrSelf sampleStore 2 = Some 2"
    using sampleStore_primary
    by (simp_all add: rootOrSelf_def sampleStore_def isSubtype_def getAncestorType_def getRootType.simps)
  show "viewRoot sampleStore 7 0 = Some 0" "viewRoot sampleStore 7 2 = Some 0" "viewRoot sampleStore 8 2 = Some 2"
    using v r by (simp_all add: viewRoot.simps)
qed

theorem covers_equivalence_witness: "covers sampleStore 7 0 2 = Some True \<and> covers sampleStore 8 2 0 = Some False"
proof -
  have "viewRoot sampleStore 8 0 = Some 0"
    using viewRoot_same [of sampleStore 0 0 8]
    by (simp add: viewRoot.simps visiblePrivate_def isPrivate_def primaryKindOf_def rootOrSelf_def isPrimary_def
        getRootType.simps isSubtype_def) (simp add: sampleStore_def)
  then show ?thesis
    using covers_equivalence [OF sampleStore_wellFormed sampleStore_primary(1,3), of 7]
      covers_equivalence [OF sampleStore_wellFormed sampleStore_primary(3,1), of 8] sampleStore_view by simp
qed

lemma sampleStore_subtype: "isSubtypeOf sampleStore 1 0 = Some True"
  by (simp add: isSubtypeOf_def sampleStore_def getKind_def isPrimary_def ancestorWalk.simps isSubtype_def getAncestorType_def)

theorem isSubtypeOf_covers_witness: "covers sampleStore 7 1 0 = Some True"
  using isSubtypeOf_covers [OF sampleStore_wellFormed sampleStore_primary(2) sampleStore_subtype] .

lemma sampleStore_resolve: "resolveType sampleStore 7 0 = Some 0" "resolveType sampleStore 7 1 = Some 1"
  "resolveType sampleStore 7 3 = Some 4"
proof -
  have "resolveType sampleStore 7 4 = Some 4"
    by (simp add: resolveType.simps sampleStore_def isIncomplete_def primaryKindOf_def visiblePrivate_def isPrivate_def)
  moreover have "visibleIncomplete sampleStore 7 3 = Some (Some 4)" "isIncomplete sampleStore 3"
    by (simp_all add: visibleIncomplete_def isIncomplete_def primaryKindOf_def sampleStore_def getIncompleteDecl_def
        getRootType.simps isSubtype_def incompleteCompletionVisible_def regionWalk.simps)
  ultimately show "resolveType sampleStore 7 3 = Some 4" by (simp add: resolveType.simps [of sampleStore 7 3])
  show "resolveType sampleStore 7 0 = Some 0" "resolveType sampleStore 7 1 = Some 1"
    by (simp_all add: resolveType.simps sampleStore_def isIncomplete_def primaryKindOf_def visiblePrivate_def isPrivate_def)
qed

lemma sampleStore_kinds: "\<not> isIncomplete sampleStore 0" "\<not> isIncomplete sampleStore 1"
  "primaryKindOf sampleStore 4 = Some (AccessType 3)"
  by (simp_all add: sampleStore_def isIncomplete_def primaryKindOf_def)

theorem conversion_omitted_witness:
  "conversionRequired sampleStore 7 1 0 = Some False \<and> covers sampleStore 7 1 0 = Some True"
proof -
  have "conversionRequired sampleStore 7 1 0 = Some False"
    using sampleStore_resolve sampleStore_primary sampleStore_kinds sampleStore_subtype
    by (simp add: conversionRequired_def completeIncomplete_def) (simp add: sampleStore_def isUniversal_def)
  then show ?thesis
    using conversion_omitted [OF sampleStore_wellFormed _ sampleStore_resolve(2,1) sampleStore_primary(2,1) sampleStore_kinds(2,1)]
    by simp
qed

lemma sampleStore_view4: "viewRoot sampleStore 7 4 = Some 4" "isPrimary sampleStore 4"
  by (simp_all add: viewRoot.simps visiblePrivate_def isPrivate_def primaryKindOf_def rootOrSelf_def isPrimary_def
      getRootType.simps isSubtype_def sampleStore_def)

theorem getCoveringDereference_first_witness: "getCoveringDereference sampleStore 7 4 4 = Some (Some 4)"
  using getCoveringDereference_first [of sampleStore 7 0 4 4 4] sampleStore_kinds(3) sampleStore_resolve(3)
  by (simp add: derefs_Suc covers.simps)

theorem dereference_loops_witness: "getCoveringDereference sampleStore 7 4 0 = None"
proof -
  have "covers sampleStore 7 4 0 = Some False"
    using covers_viewRoot [OF sampleStore_wellFormed sampleStore_view4(2) sampleStore_primary(1), of 7]
      sampleStore_view sampleStore_view4 by simp
  then show ?thesis using dereference_loops [OF sampleStore_kinds(3) sampleStore_resolve(3)] by simp
qed

section \<open>Universal types\<close>

text \<open>
  The test for a universal type that covers another one never looks at its first operand: every type is taken to be
  covered by \<^verbatim>\<open>universal_integer\<close>.
\<close>

lemma universal_covers_all: "isUniversal Universal_Integer st B \<Longrightarrow> covers st region A B = Some True"
  by (simp add: covers.simps eitherUniversal_def isUniversalTypeOf_def)

end
