(* ===== verification/Packages.thy ===== *)
theory Packages
  imports Scope Tables
begin

text \<open>
  Packages and subroutines in the type checker: the declarative regions and the callbacks of
  \<^verbatim>\<open>lib/typecheck/CheckPackage.cpp\<close> and
  \<^verbatim>\<open>CheckSubroutine.cpp\<close>, with the declarations of subroutines and packages of
  \<^verbatim>\<open>lib/ast/Decl.cpp\<close> and the regions of
  \<^verbatim>\<open>lib/ast/DeclRegion.cpp\<close>.

  Declarations live in a store, as the link between a declaration and its completion goes both ways; a scope holds
  the nodes of \<open>Scope\<close> with the same addresses.  Of the declarations of a region only subroutines are
  modelled.  \<open>None\<close> is a failed assertion or a null pointer that is followed.
\<close>

section \<open>Regions and declarations\<close>

text \<open>
  A region is named by the package or subroutine it belongs to: the public part, the private part, the body and the
  instance of a package, a subroutine and the block that is its body.
\<close>

datatype region =
    PackageRegion nat | PrivateRegion nat | BodyRegion nat | InstanceRegion nat
  | SubroutineRegion nat | BlockRegion nat

text \<open>The tagged pointer \<^verbatim>\<open>declarationLink\<close>.\<close>

datatype decl_link = NullLink | ForwardLink nat | DefinitionLink nat

record param_decl =
  pv_decl :: nat
  pv_name :: string
  pv_mode :: parameterMode
  pv_type :: type_node

record subroutine =
  sd_name :: string
  sd_function :: bool
  sd_type :: subroutine_type
  sd_params :: "param_decl list"
  sd_region :: "region option"
  sd_link :: decl_link
  sd_origin :: "nat option"
  sd_import :: "string option"
  sd_body :: bool

record package =
  pk_name :: string
  pk_private :: bool
  pk_body :: bool
  pk_instance :: bool

datatype region_diag =
    OUT_MODE_IN_FUNCTION | DUPLICATE_FORMAL_PARAM string | CONFLICTING_DECLARATION string
  | OPERATOR_ARITY_MISMATCH string | SUBROUTINE_REDECLARATION string | NAME_NOT_VISIBLE string
  | NOT_A_PACKAGE string | WRONG_LEVEL_FOR_PACKAGE_BODY | PACKAGE_BODY_ALREADY_DEFINED string
  | MISSING_EXPORT string string | OVERLOADED_IMPORT_NOT_SUPPORTED | DUPLICATE_IMPORT_PRAGMAS string
  | UNKNOWN_CONVENTION string

datatype stencil_kind = UNKNOWN_Stencil | FUNCTION_Stencil | PROCEDURE_Stencil

record stencil =
  st_valid :: bool
  st_kind :: stencil_kind
  st_name :: string
  st_params :: "param_decl list"
  st_return :: "type_node option"

record checker =
  tc_scope :: scope
  tc_subs :: "nat \<Rightarrow> subroutine option"
  tc_packages :: "nat \<Rightarrow> package option"
  tc_regions :: "region \<Rightarrow> nat list"
  tc_next :: nat
  tc_region :: "region option"
  tc_current :: "nat option"
  tc_unit :: "nat list"
  tc_stencil :: stencil
  tc_diags :: "region_diag list"

definition reportRegion :: "region_diag \<Rightarrow> checker \<Rightarrow> checker" where
  "reportRegion d c = c\<lparr>tc_diags := tc_diags c @ [d]\<rparr>"

text \<open>The region around a region.\<close>

definition getParent :: "checker \<Rightarrow> region \<Rightarrow> region option" where
  "getParent c r =
     (case r of
        PackageRegion p \<Rightarrow> None
      | PrivateRegion p \<Rightarrow> Some (PackageRegion p)
      | BodyRegion p \<Rightarrow> Some (case tc_packages c p of
            Some k \<Rightarrow> if pk_private k then PrivateRegion p else PackageRegion p | None \<Rightarrow> PackageRegion p)
      | InstanceRegion p \<Rightarrow> Some (PackageRegion p)
      | SubroutineRegion d \<Rightarrow> (case tc_subs c d of Some s \<Rightarrow> sd_region s | None \<Rightarrow> None)
      | BlockRegion d \<Rightarrow> Some (SubroutineRegion d))"

definition addDecl :: "region \<Rightarrow> nat \<Rightarrow> checker \<Rightarrow> checker" where
  "addDecl r d c = c\<lparr>tc_regions := (tc_regions c)(r := tc_regions c r @ [d])\<rparr>"

definition isDeclaredIn :: "region option \<Rightarrow> subroutine \<Rightarrow> bool" where
  "isDeclaredIn r s \<longleftrightarrow> r = sd_region s"

text \<open>The node of a declaration in a scope.\<close>

definition subNode :: "nat \<Rightarrow> subroutine \<Rightarrow> decl" where
  "subNode d s = Decl d (sd_name s) (if sd_function s then AST_FunctionDecl else AST_ProcedureDecl) (Some (sd_type s)) []"

definition paramNode :: "param_decl \<Rightarrow> decl" where
  "paramNode p = Decl (pv_decl p) (pv_name p) AST_ParamValueDecl None []"

definition packageNode :: "nat \<Rightarrow> package \<Rightarrow> decl" where
  "packageNode p k = Decl p (pk_name k) AST_PackageDecl None []"

section \<open>Subroutine declarations\<close>

definition getParameterMode :: "param_decl \<Rightarrow> parameterMode" where
  "getParameterMode p = (if pv_mode p = MODE_DEFAULT then MODE_IN else pv_mode p)"

definition paramModesMatch :: "subroutine \<Rightarrow> subroutine \<Rightarrow> bool" where
  "paramModesMatch X Y \<longleftrightarrow> map getParameterMode (sd_params X) = map getParameterMode (sd_params Y)"

definition keywordsMatch :: "subroutine \<Rightarrow> subroutine \<Rightarrow> bool" where
  "keywordsMatch X Y \<longleftrightarrow> map pv_name (sd_params X) = map pv_name (sd_params Y)"

definition compatibleSubroutineDecls :: "subroutine \<Rightarrow> subroutine \<Rightarrow> bool" where
  "compatibleSubroutineDecls X Y =
     (if sd_name X \<noteq> sd_name Y then False
      else if sd_type X \<noteq> sd_type Y then False
      else if \<not> paramModesMatch X Y then False
      else keywordsMatch X Y)"

definition getDefiningDeclaration :: "subroutine \<Rightarrow> nat option" where
  "getDefiningDeclaration s = (case sd_link s of DefinitionLink d \<Rightarrow> Some d | _ \<Rightarrow> None)"

definition getForwardDeclaration :: "subroutine \<Rightarrow> nat option" where
  "getForwardDeclaration s = (case sd_link s of ForwardLink d \<Rightarrow> Some d | _ \<Rightarrow> None)"

definition setDefiningDeclaration :: "nat \<Rightarrow> nat \<Rightarrow> checker \<Rightarrow> checker option" where
  "setDefiningDeclaration d e c =
     (case (tc_subs c d, tc_subs c e) of
        (Some s, Some t) \<Rightarrow>
          if sd_link s \<noteq> NullLink \<or> sd_function s \<noteq> sd_function t \<or> sd_link t \<noteq> NullLink then None
          else Some (c\<lparr>tc_subs := (tc_subs c)(d \<mapsto> s\<lparr>sd_link := DefinitionLink e\<rparr>, e \<mapsto> t\<lparr>sd_link := ForwardLink d\<rparr>)\<rparr>)
      | _ \<Rightarrow> None)"

definition hasBody :: "subroutine \<Rightarrow> bool" where
  "hasBody s \<longleftrightarrow> sd_body s \<or> getDefiningDeclaration s \<noteq> None"

section \<open>The stencil of a declaration\<close>

definition resetStencil :: stencil where
  "resetStencil = \<lparr>st_valid = True, st_kind = UNKNOWN_Stencil, st_name = [], st_params = [], st_return = None\<rparr>"

definition beginSubroutineDeclaration :: "stencil_kind \<Rightarrow> string \<Rightarrow> checker \<Rightarrow> checker" where
  "beginSubroutineDeclaration kind name c = c\<lparr>tc_stencil := (tc_stencil c)\<lparr>st_name := name, st_kind := kind\<rparr>\<rparr>"

definition markInvalid :: "checker \<Rightarrow> checker" where
  "markInvalid c = c\<lparr>tc_stencil := (tc_stencil c)\<lparr>st_valid := False\<rparr>\<rparr>"

text \<open>The type is that of the declaration the node denotes, \<open>None\<close> if it denotes no complete type.\<close>

definition acceptSubroutineParameter :: "string \<Rightarrow> type_node option \<Rightarrow> parameterMode \<Rightarrow> checker \<Rightarrow> checker" where
  "acceptSubroutineParameter formal tyDecl mode c =
     (let st = tc_stencil c in
      case tyDecl of
        None \<Rightarrow> markInvalid c
      | Some paramTy \<Rightarrow>
          if st_kind st = FUNCTION_Stencil \<and> mode \<noteq> MODE_IN \<and> mode \<noteq> MODE_DEFAULT
            then markInvalid (reportRegion OUT_MODE_IN_FUNCTION c)
          else if formal \<in> pv_name ` set (st_params st)
            then markInvalid (reportRegion (DUPLICATE_FORMAL_PARAM formal) c)
          else if formal = st_name st
            then markInvalid (reportRegion (CONFLICTING_DECLARATION formal) c)
          else c\<lparr>tc_stencil := st\<lparr>st_params := st_params st @
                    [\<lparr>pv_decl = tc_next c, pv_name = formal, pv_mode = mode, pv_type = paramTy\<rparr>]\<rparr>,
                 tc_next := tc_next c + 1\<rparr>)"

definition acceptFunctionReturnType :: "type_node option \<Rightarrow> checker \<Rightarrow> checker option" where
  "acceptFunctionReturnType returnDecl c =
     (if st_kind (tc_stencil c) \<noteq> FUNCTION_Stencil then None
      else case returnDecl of
        None \<Rightarrow> Some (markInvalid c)
      | Some t \<Rightarrow> Some (c\<lparr>tc_stencil := (tc_stencil c)\<lparr>st_return := Some t\<rparr>\<rparr>))"

definition operatorArityOK :: "string \<Rightarrow> nat \<Rightarrow> bool" where
  "operatorArityOK name numParams =
     (let namesUnary = denotesUnaryOp name; namesBinary = denotesBinaryOp name in
      if namesUnary \<or> namesBinary then
        if namesUnary \<and> namesBinary then numParams = 1 \<or> numParams = 2
        else if namesUnary then numParams = 1
        else numParams = 2
      else True)"

definition newSubroutine :: "stencil \<Rightarrow> region option \<Rightarrow> subroutine option" where
  "newSubroutine st region =
     (let types = map pv_type (st_params st);
          mk = (\<lambda>ty. \<lparr>sd_name = st_name st, sd_function = (st_kind st = FUNCTION_Stencil), sd_type = ty,
                 sd_params = st_params st, sd_region = region, sd_link = NullLink, sd_origin = None, sd_import = None,
                 sd_body = False\<rparr>) in
      if st_kind st = FUNCTION_Stencil
      then (case st_return st of None \<Rightarrow> None | Some t \<Rightarrow> Some (mk (FunctionType types t)))
      else Some (mk (ProcedureType types)))"

text \<open>
  The conflict of the new declaration: if it is a subroutine that can be completed, the new declaration becomes its
  completion, which is listed in the region only if the first one is not.
\<close>

definition completeSubroutine :: "nat \<Rightarrow> nat \<Rightarrow> region option \<Rightarrow> checker \<Rightarrow> (nat option \<times> checker) option" where
  "completeSubroutine fwdDecl routineDecl region c =
     (case tc_subs c fwdDecl of
        None \<Rightarrow> None
      | Some f \<Rightarrow>
          if getDefiningDeclaration f \<noteq> None then Some (None, reportRegion (SUBROUTINE_REDECLARATION (sd_name f)) c)
          else (case setDefiningDeclaration fwdDecl routineDecl c of
             None \<Rightarrow> None
           | Some c1 \<Rightarrow>
               if isDeclaredIn region f then Some (Some routineDecl, c1)
               else (case region of None \<Rightarrow> None | Some r \<Rightarrow> Some (Some routineDecl, addDecl r routineDecl c1))))"

definition enterSubroutine :: "bool \<Rightarrow> subroutine \<Rightarrow> checker \<Rightarrow> (nat option \<times> checker) option" where
  "enterSubroutine definitionFollows s c0 =
     (let d = tc_next c0; region = tc_region c0;
          c = c0\<lparr>tc_subs := (tc_subs c0)(d \<mapsto> s), tc_next := d + 1\<rparr> in
      case addDirectDecl (subNode d s) (tc_scope c) of
        (Some conflict, _) \<Rightarrow>
          if denotesSubroutineDecl conflict \<and> definitionFollows \<and>
             (case tc_subs c (declId conflict) of Some f \<Rightarrow> compatibleSubroutineDecls f s | None \<Rightarrow> False)
          then completeSubroutine (declId conflict) d region c
          else Some (None, reportRegion (CONFLICTING_DECLARATION (sd_name s)) c)
      | (None, scope) \<Rightarrow>
          (case region of
             None \<Rightarrow> None
           | Some r \<Rightarrow> Some (Some d, addDecl r d (c\<lparr>tc_scope := scope\<rparr>))))"

definition endSubroutineDeclaration :: "bool \<Rightarrow> checker \<Rightarrow> (nat option \<times> checker) option" where
  "endSubroutineDeclaration definitionFollows c0 =
     (let st = tc_stencil c0; name = st_name st; c = c0\<lparr>tc_stencil := resetStencil\<rparr> in
      if \<not> st_valid st then Some (None, c)
      else if st_kind st = FUNCTION_Stencil \<and> \<not> operatorArityOK name (length (st_params st))
        then Some (None, reportRegion (OPERATOR_ARITY_MISMATCH name) c)
      else (case newSubroutine st (tc_region c) of
        None \<Rightarrow> None
      | Some s \<Rightarrow> enterSubroutine definitionFollows s c))"

section \<open>Subroutine definitions\<close>

fun addParamNodes :: "param_decl list \<Rightarrow> scope \<Rightarrow> scope option" where
  "addParamNodes [] s = Some s"
| "addParamNodes (p # ps) s =
     (case addDirectDeclNoConflicts (paramNode p) s of None \<Rightarrow> None | Some s1 \<Rightarrow> addParamNodes ps s1)"

definition pushSubroutineScope :: "nat \<Rightarrow> subroutine \<Rightarrow> scope \<Rightarrow> scope option" where
  "pushSubroutineScope d s sc =
     (case addDirectDeclNoConflicts (subNode d s) (pushScope SUBROUTINE_SCOPE sc) of
        None \<Rightarrow> None
      | Some sc1 \<Rightarrow> addParamNodes (sd_params s) sc1)"

definition beginSubroutineDefinition :: "nat \<Rightarrow> checker \<Rightarrow> checker option" where
  "beginSubroutineDefinition d c =
     (case tc_subs c d of
        None \<Rightarrow> None
      | Some s \<Rightarrow>
          (case pushSubroutineScope d s (tc_scope c) of
             None \<Rightarrow> None
           | Some sc \<Rightarrow>
               if hasBody s then None
               else Some (c\<lparr>tc_scope := sc, tc_subs := (tc_subs c)(d \<mapsto> s\<lparr>sd_body := True\<rparr>),
                  tc_region := Some (BlockRegion d)\<rparr>)))"

definition popDeclarativeRegion :: "checker \<Rightarrow> checker option" where
  "popDeclarativeRegion c =
     (case tc_region c of None \<Rightarrow> None | Some r \<Rightarrow> Some (c\<lparr>tc_region := getParent c r\<rparr>))"

definition endSubroutineBody :: "checker \<Rightarrow> checker option" where
  "endSubroutineBody c =
     (case popDeclarativeRegion c of
        None \<Rightarrow> None
      | Some c1 \<Rightarrow>
          (case (popScope (tc_scope c1), tc_region c1) of
             (Some sc, Some (SubroutineRegion d)) \<Rightarrow>
               (case tc_subs c1 d of
                  None \<Rightarrow> None
                | Some s \<Rightarrow> map_option (\<lambda>sc1. c1\<lparr>tc_scope := sc1\<rparr>) (pushSubroutineScope d s sc))
           | _ \<Rightarrow> None))"

definition endSubroutineDefinition :: "checker \<Rightarrow> checker option" where
  "endSubroutineDefinition c =
     (if getScopeKind (tc_scope c) \<noteq> SUBROUTINE_SCOPE then None
      else case popDeclarativeRegion c of
        None \<Rightarrow> None
      | Some c1 \<Rightarrow> map_option (\<lambda>sc. c1\<lparr>tc_scope := sc\<rparr>) (popScope (tc_scope c1)))"

section \<open>Packages\<close>

definition beginPackageSpec :: "string \<Rightarrow> checker \<Rightarrow> checker option" where
  "beginPackageSpec name c =
     (let p = tc_next c; k = \<lparr>pk_name = name, pk_private = False, pk_body = False, pk_instance = False\<rparr> in
      case addDirectDeclNoConflicts (packageNode p k) (pushScope PACKAGE_SCOPE (tc_scope c)) of
        None \<Rightarrow> None
      | Some sc \<Rightarrow> Some (c\<lparr>tc_packages := (tc_packages c)(p \<mapsto> k), tc_next := p + 1, tc_scope := sc,
                     tc_current := Some p, tc_region := Some (PackageRegion p)\<rparr>))"

definition beginPackagePrivatePart :: "checker \<Rightarrow> checker option" where
  "beginPackagePrivatePart c =
     (if getScopeKind (tc_scope c) \<noteq> PACKAGE_SCOPE then None
      else case tc_current c of
        None \<Rightarrow> None
      | Some p \<Rightarrow>
          (case tc_packages c p of
             None \<Rightarrow> None
           | Some k \<Rightarrow>
               if pk_private k then None
               else Some (c\<lparr>tc_packages := (tc_packages c)(p \<mapsto> k\<lparr>pk_private := True\<rparr>),
                      tc_region := Some (PrivateRegion p)\<rparr>)))"

text \<open>A region that is a package names the current package.\<close>

definition packageOf :: "region option \<Rightarrow> nat option" where
  "packageOf r = (case r of Some (PackageRegion p) \<Rightarrow> Some p | _ \<Rightarrow> None)"

definition endPackageSpec :: "checker \<Rightarrow> checker option" where
  "endPackageSpec c =
     (if getScopeKind (tc_scope c) \<noteq> PACKAGE_SCOPE then None
      else case (popScope (tc_scope c), tc_current c) of
        (Some sc, Some p) \<Rightarrow>
          (case tc_packages c p of
             None \<Rightarrow> None
           | Some k \<Rightarrow>
               let c1 = (case addDirectDecl (packageNode p k) sc of
                           (Some conflict, _) \<Rightarrow> reportRegion (CONFLICTING_DECLARATION (pk_name k)) (c\<lparr>tc_scope := sc\<rparr>)
                         | (None, sc1) \<Rightarrow> c\<lparr>tc_scope := sc1, tc_unit := tc_unit c @ [p]\<rparr>);
                   region = getParent c1 (PackageRegion p) in
               Some (c1\<lparr>tc_region := region, tc_current := packageOf region\<rparr>))
      | _ \<Rightarrow> None)"

text \<open>The declarations of a region are brought into scope again; a conflict is not expected.\<close>

fun introduceDecls :: "nat list \<Rightarrow> checker \<Rightarrow> checker option" where
  "introduceDecls [] c = Some c"
| "introduceDecls (d # ds) c =
     (case tc_subs c d of
        None \<Rightarrow> None
      | Some s \<Rightarrow>
          (case addDirectDecl (subNode d s) (tc_scope c) of
             (Some conflict, _) \<Rightarrow> None
           | (None, sc) \<Rightarrow> introduceDecls ds (c\<lparr>tc_scope := sc\<rparr>)))"

definition introduceDeclRegion :: "region \<Rightarrow> checker \<Rightarrow> checker option" where
  "introduceDeclRegion r c = introduceDecls (tc_regions c r) c"

definition getDirectPackage :: "resolver \<Rightarrow> nat option" where
  "getDirectPackage r =
     (case rs_directDecl r of
        Some d \<Rightarrow> if declKind d = AST_PackageDecl then Some (declId d) else None
      | None \<Rightarrow> None)"

definition enterPackageBody :: "nat \<Rightarrow> package \<Rightarrow> checker \<Rightarrow> checker option" where
  "enterPackageBody p k c =
     (case introduceDeclRegion (PackageRegion p)
             (c\<lparr>tc_packages := (tc_packages c)(p \<mapsto> k\<lparr>pk_body := True\<rparr>),
               tc_scope := pushScope PACKAGE_SCOPE (tc_scope c), tc_current := Some p,
               tc_region := Some (BodyRegion p)\<rparr>) of
        None \<Rightarrow> None
      | Some c1 \<Rightarrow> if pk_private k then introduceDeclRegion (PrivateRegion p) c1 else Some c1)"

definition beginPackageBody :: "string \<Rightarrow> checker \<Rightarrow> (bool \<times> checker) option" where
  "beginPackageBody name c =
     (case lookupName name (tc_scope c) of
        None \<Rightarrow> None
      | Some (found, r) \<Rightarrow>
          if \<not> found then Some (False, reportRegion (NAME_NOT_VISIBLE name) c)
          else (case getDirectPackage r of
             None \<Rightarrow> Some (False, reportRegion (NOT_A_PACKAGE name) c)
           | Some p \<Rightarrow>
               if tc_region c \<noteq> None then Some (False, reportRegion WRONG_LEVEL_FOR_PACKAGE_BODY c)
               else (case tc_packages c p of
                  None \<Rightarrow> None
                | Some k \<Rightarrow>
                    if pk_body k then Some (False, reportRegion (PACKAGE_BODY_ALREADY_DEFINED name) c)
                    else map_option (Pair True) (enterPackageBody p k c))))"

text \<open>Every subroutine of the package needs a completion.\<close>

fun missingExports :: "checker \<Rightarrow> string \<Rightarrow> nat list \<Rightarrow> region_diag list" where
  "missingExports c packageName [] = []"
| "missingExports c packageName (d # ds) =
     (case tc_subs c d of
        Some s \<Rightarrow> if getDefiningDeclaration s = None then [MISSING_EXPORT packageName (sd_name s)] else []
      | None \<Rightarrow> []) @ missingExports c packageName ds"

definition ensureExportConstraints :: "nat \<Rightarrow> package \<Rightarrow> checker \<Rightarrow> bool \<times> checker" where
  "ensureExportConstraints p k c =
     (let es = missingExports c (pk_name k) (tc_regions c (PackageRegion p)) in
      (es = [], c\<lparr>tc_diags := tc_diags c @ es\<rparr>))"

definition endPackageBody :: "checker \<Rightarrow> checker option" where
  "endPackageBody c =
     (if getScopeKind (tc_scope c) \<noteq> PACKAGE_SCOPE then None
      else case tc_region c of
        Some (BodyRegion p) \<Rightarrow>
          (case (tc_packages c p, getParent c (BodyRegion p), popScope (tc_scope c)) of
             (Some k, Some r, Some sc) \<Rightarrow>
               let region = getParent c r in
               Some ((snd (ensureExportConstraints p k c))\<lparr>tc_region := region, tc_current := packageOf region,
                  tc_scope := sc\<rparr>)
           | _ \<Rightarrow> None)
      | _ \<Rightarrow> None)"

section \<open>Imported subroutines\<close>

partial_function (option) findPragma :: "checker \<Rightarrow> nat \<Rightarrow> string option option" where
  "findPragma c d =
     (case tc_subs c d of
        None \<Rightarrow> None
      | Some s \<Rightarrow>
          if sd_import s \<noteq> None then Some (sd_import s)
          else (case sd_link s of
             ForwardLink f \<Rightarrow> map_option sd_import (tc_subs c f)
           | DefinitionLink e \<Rightarrow> map_option sd_import (tc_subs c e)
           | NullLink \<Rightarrow> (case sd_origin s of None \<Rightarrow> Some None | Some orig \<Rightarrow> findPragma c orig)))"

declare findPragma.simps [code]

definition getConventionID :: "string \<Rightarrow> bool" where
  "getConventionID ref \<longleftrightarrow> length ref = 1 \<and> ref ! 0 = CHR ''c''"

text \<open>The external name is the value of the static string the node denotes, \<open>None\<close> if it was rejected.\<close>

definition acceptPragmaImport :: "string \<Rightarrow> string \<Rightarrow> string option \<Rightarrow> checker \<Rightarrow> checker option" where
  "acceptPragmaImport convention entity externalName c =
     (if \<not> getConventionID convention then Some (reportRegion (UNKNOWN_CONVENTION convention) c)
      else case lookupName entity (tc_scope c) of
        None \<Rightarrow> None
      | Some (found, r) \<Rightarrow>
          if \<not> found \<or> rs_directOverloads r = [] then Some (reportRegion (NAME_NOT_VISIBLE entity) c)
          else if length (rs_directOverloads r) \<noteq> 1 then Some (reportRegion OVERLOADED_IMPORT_NOT_SUPPORTED c)
          else (case externalName of
             None \<Rightarrow> Some c
           | Some name \<Rightarrow>
               let d = declId (rs_directOverloads r ! 0) in
               (case (tc_subs c d, findPragma c d) of
                  (Some s, Some pragma) \<Rightarrow>
                    if pragma \<noteq> None then Some (reportRegion (DUPLICATE_IMPORT_PRAGMAS entity) c)
                    else Some (c\<lparr>tc_subs := (tc_subs c)(d \<mapsto> s\<lparr>sd_import := Some name\<rparr>)\<rparr>)
                | _ \<Rightarrow> None)))"

section \<open>The instance of a package\<close>

text \<open>
  The instance holds a copy of each declaration the package has when it is first asked for.  Types the package
  declares are not modelled, so that a copy keeps its type.
\<close>

definition rewriteDecl :: "nat \<Rightarrow> nat \<Rightarrow> checker \<Rightarrow> checker option" where
  "rewriteDecl p d c =
     (case tc_subs c d of
        None \<Rightarrow> None
      | Some s \<Rightarrow>
          Some (c\<lparr>tc_subs := (tc_subs c)(tc_next c \<mapsto>
                  s\<lparr>sd_region := Some (InstanceRegion p), sd_link := NullLink, sd_origin := Some d, sd_import := None,
                    sd_body := False\<rparr>),
                tc_regions := (tc_regions c)(InstanceRegion p := tc_regions c (InstanceRegion p) @ [tc_next c]),
                tc_next := tc_next c + 1\<rparr>))"

fun addDeclarationsUsingRewrites :: "nat \<Rightarrow> nat list \<Rightarrow> checker \<Rightarrow> checker option" where
  "addDeclarationsUsingRewrites p [] c = Some c"
| "addDeclarationsUsingRewrites p (d # ds) c =
     (case rewriteDecl p d c of None \<Rightarrow> None | Some c1 \<Rightarrow> addDeclarationsUsingRewrites p ds c1)"

definition getInstance :: "nat \<Rightarrow> checker \<Rightarrow> checker option" where
  "getInstance p c =
     (case tc_packages c p of
        None \<Rightarrow> None
      | Some k \<Rightarrow>
          if pk_instance k then Some c
          else addDeclarationsUsingRewrites p (tc_regions c (PackageRegion p))
                 (c\<lparr>tc_packages := (tc_packages c)(p \<mapsto> k\<lparr>pk_instance := True\<rparr>)\<rparr>))"

section \<open>Compilation units\<close>

text \<open>What the parser hands over for a unit: the calls are made in the order of the items.\<close>

record sub_spec =
  ss_function :: bool
  ss_name :: string
  ss_params :: "(string \<times> type_node option \<times> parameterMode) list"
  ss_return :: "type_node option"

text \<open>
  A package specification only has declarations; the flag tells that a definition seems to follow.  A reference is a name of
  a package, which asks for its instance.
\<close>

datatype spec_item = SpecDeclaration bool sub_spec | SpecReference nat

datatype item =
    Declaration bool sub_spec
  | Definition sub_spec "item list"
  | Import string string "string option"
  | Reference nat

datatype toplevel = PackageSpec string "spec_item list" "spec_item list option" | PackageBody string "item list"

fun acceptParameters :: "(string \<times> type_node option \<times> parameterMode) list \<Rightarrow> checker \<Rightarrow> checker" where
  "acceptParameters [] c = c"
| "acceptParameters ((formal, ty, mode) # ps) c = acceptParameters ps (acceptSubroutineParameter formal ty mode c)"

definition declareSubroutine :: "bool \<Rightarrow> sub_spec \<Rightarrow> checker \<Rightarrow> (nat option \<times> checker) option" where
  "declareSubroutine definitionFollows sp c =
     (let c1 = acceptParameters (ss_params sp)
                 (beginSubroutineDeclaration (if ss_function sp then FUNCTION_Stencil else PROCEDURE_Stencil) (ss_name sp) c) in
      case (if ss_function sp then acceptFunctionReturnType (ss_return sp) c1 else Some c1) of
        None \<Rightarrow> None
      | Some c2 \<Rightarrow> endSubroutineDeclaration definitionFollows c2)"

definition referToPackage :: "nat \<Rightarrow> checker \<Rightarrow> checker option" where
  "referToPackage p c = (if tc_packages c p = None then Some c else getInstance p c)"

fun runSpecItems :: "spec_item list \<Rightarrow> checker \<Rightarrow> checker option" where
  "runSpecItems [] c = Some c"
| "runSpecItems (SpecDeclaration definitionFollows sp # is) c =
     (case declareSubroutine definitionFollows sp c of None \<Rightarrow> None | Some (_, c1) \<Rightarrow> runSpecItems is c1)"
| "runSpecItems (SpecReference p # is) c =
     (case referToPackage p c of None \<Rightarrow> None | Some c1 \<Rightarrow> runSpecItems is c1)"

text \<open>A definition whose declaration is rejected is skipped.\<close>

function runItems :: "item list \<Rightarrow> checker \<Rightarrow> checker option" where
  "runItems [] c = Some c"
| "runItems (Declaration definitionFollows sp # is) c =
     (case declareSubroutine definitionFollows sp c of None \<Rightarrow> None | Some (_, c1) \<Rightarrow> runItems is c1)"
| "runItems (Definition sp body # is) c =
     (case declareSubroutine True sp c of
        None \<Rightarrow> None
      | Some (None, c1) \<Rightarrow> runItems is c1
      | Some (Some d, c1) \<Rightarrow>
          (case beginSubroutineDefinition d c1 of
             None \<Rightarrow> None
           | Some c2 \<Rightarrow>
               (case runItems body c2 of
                  None \<Rightarrow> None
                | Some c3 \<Rightarrow>
                    (case endSubroutineBody c3 of
                       None \<Rightarrow> None
                     | Some c4 \<Rightarrow>
                         (case endSubroutineDefinition c4 of None \<Rightarrow> None | Some c5 \<Rightarrow> runItems is c5)))))"
| "runItems (Import convention entity name # is) c =
     (case acceptPragmaImport convention entity name c of None \<Rightarrow> None | Some c1 \<Rightarrow> runItems is c1)"
| "runItems (Reference p # is) c =
     (case referToPackage p c of None \<Rightarrow> None | Some c1 \<Rightarrow> runItems is c1)"
  by pat_completeness auto
termination by (relation "measure (\<lambda>(is, c). size_list size is)") auto

definition runToplevel :: "toplevel \<Rightarrow> checker \<Rightarrow> checker option" where
  "runToplevel t c =
     (case t of
        PackageSpec name public private \<Rightarrow>
          (case beginPackageSpec name c of
             None \<Rightarrow> None
           | Some c1 \<Rightarrow>
               (case runSpecItems public c1 of
                  None \<Rightarrow> None
                | Some c2 \<Rightarrow>
                    (case private of
                       None \<Rightarrow> endPackageSpec c2
                     | Some is \<Rightarrow>
                         (case beginPackagePrivatePart c2 of
                            None \<Rightarrow> None
                          | Some c3 \<Rightarrow> (case runSpecItems is c3 of None \<Rightarrow> None | Some c4 \<Rightarrow> endPackageSpec c4)))))
      | PackageBody name is \<Rightarrow>
          (case beginPackageBody name c of
             None \<Rightarrow> None
           | Some (False, c1) \<Rightarrow> Some c1
           | Some (True, c1) \<Rightarrow> (case runItems is c1 of None \<Rightarrow> None | Some c2 \<Rightarrow> endPackageBody c2)))"

fun runUnit :: "toplevel list \<Rightarrow> checker \<Rightarrow> checker option" where
  "runUnit [] c = Some c"
| "runUnit (t # ts) c = (case runToplevel t c of None \<Rightarrow> None | Some c1 \<Rightarrow> runUnit ts c1)"

text \<open>The checker at the start; the declarations of the language are types, which are not modelled here.\<close>

definition newChecker :: checker where
  "newChecker = \<lparr>tc_scope = newScope (\<lambda>_. None), tc_subs = (\<lambda>_. None), tc_packages = (\<lambda>_. None),
     tc_regions = (\<lambda>_. []), tc_next = 0, tc_region = None, tc_current = None, tc_unit = [],
     tc_stencil = resetStencil, tc_diags = []\<rparr>"

end
