(* ===== verification/PackagesSpec.thy ===== *)
theory PackagesSpec
  imports Packages
begin

text \<open>
  What holds of the declarations of a checked unit: links between declarations and completions go both ways and join
  declarations that agree, regions list their own declarations once, the public part of a package lists no
  completions, and an instance copies the declarations of its package.
\<close>

section \<open>The invariant\<close>

definition matching :: "subroutine \<Rightarrow> subroutine \<Rightarrow> bool" where
  "matching s t \<longleftrightarrow> compatibleSubroutineDecls s t \<and> sd_function s = sd_function t"

definition links_inv :: "(nat \<Rightarrow> subroutine option) \<Rightarrow> bool" where
  "links_inv subs \<longleftrightarrow>
     (\<forall>d s e. subs d = Some s \<longrightarrow> sd_link s = DefinitionLink e \<longrightarrow>
        (\<exists>t. subs e = Some t \<and> sd_link t = ForwardLink d \<and> matching s t)) \<and>
     (\<forall>d s f. subs d = Some s \<longrightarrow> sd_link s = ForwardLink f \<longrightarrow>
        (\<exists>t. subs f = Some t \<and> sd_link t = DefinitionLink d))"

definition regions_inv :: "(nat \<Rightarrow> subroutine option) \<Rightarrow> (region \<Rightarrow> nat list) \<Rightarrow> bool" where
  "regions_inv subs regions \<longleftrightarrow>
     (\<forall>r. distinct (regions r)) \<and>
     (\<forall>r. \<forall>d \<in> set (regions r). \<exists>s. subs d = Some s \<and> sd_region s = Some r) \<and>
     (\<forall>p. \<forall>d \<in> set (regions (PackageRegion p)). \<forall>s. subs d = Some s \<longrightarrow> getForwardDeclaration s = None)"

definition instances_inv :: "(nat \<Rightarrow> subroutine option) \<Rightarrow> (region \<Rightarrow> nat list) \<Rightarrow> bool" where
  "instances_inv subs regions \<longleftrightarrow>
     (\<forall>d s. subs d = Some s \<longrightarrow> (sd_origin s = None) = (\<nexists>p. sd_region s = Some (InstanceRegion p))) \<and>
     (\<forall>d s p. subs d = Some s \<longrightarrow> sd_region s = Some (InstanceRegion p) \<longrightarrow> sd_link s = NullLink \<and>
        (\<exists>e t. sd_origin s = Some e \<and> subs e = Some t \<and> e \<in> set (regions (PackageRegion p)) \<and> sd_name s = sd_name t)) \<and>
     (\<forall>p. distinct (map (\<lambda>d. sd_origin (the (subs d))) (regions (InstanceRegion p))))"

definition nodes_inv :: "(nat \<Rightarrow> subroutine option) \<Rightarrow> scope_entry list \<Rightarrow> bool" where
  "nodes_inv subs es \<longleftrightarrow>
     (\<forall>e \<in> set es. \<forall>n \<in> set (en_direct e). denotesSubroutineDecl n \<longrightarrow>
        (\<exists>s. subs (declId n) = Some s \<and> n = subNode (declId n) s \<and> sd_origin s = None))"

definition checker_inv :: "checker \<Rightarrow> bool" where
  "checker_inv c \<longleftrightarrow>
     (\<forall>d s. tc_subs c d = Some s \<longrightarrow> d < tc_next c) \<and> links_inv (tc_subs c) \<and>
     regions_inv (tc_subs c) (tc_regions c) \<and> instances_inv (tc_subs c) (tc_regions c) \<and>
     nodes_inv (tc_subs c) (so_entries (tc_scope c)) \<and> so_entries (tc_scope c) \<noteq> []"

text \<open>What no operation changes of a declaration.\<close>

definition sameDecl :: "subroutine \<Rightarrow> subroutine \<Rightarrow> bool" where
  "sameDecl s t \<longleftrightarrow> sd_name t = sd_name s \<and> sd_function t = sd_function s \<and> sd_type t = sd_type s \<and>
     sd_params t = sd_params s \<and> sd_region t = sd_region s \<and> sd_origin t = sd_origin s"

definition keepsDecls :: "checker \<Rightarrow> checker \<Rightarrow> bool" where
  "keepsDecls c c' \<longleftrightarrow> (\<forall>d s. tc_subs c d = Some s \<longrightarrow> (\<exists>t. tc_subs c' d = Some t \<and> sameDecl s t))"

lemma keepsDecls_refl [simp]: "keepsDecls c c"
  by (simp add: keepsDecls_def sameDecl_def)

lemma sameDecl_trans: "sameDecl s t \<Longrightarrow> sameDecl t u \<Longrightarrow> sameDecl s u"
  by (simp add: sameDecl_def)

lemma keepsDecls_trans: "keepsDecls c c1 \<Longrightarrow> keepsDecls c1 c2 \<Longrightarrow> keepsDecls c c2"
  unfolding keepsDecls_def using sameDecl_trans by blast

lemma keepsDecls_same: "tc_subs c' = tc_subs c \<Longrightarrow> keepsDecls c c'"
  by (simp add: keepsDecls_def sameDecl_def)

lemma compatible_iff:
  "compatibleSubroutineDecls X Y \<longleftrightarrow> sd_name X = sd_name Y \<and> sd_type X = sd_type Y \<and> paramModesMatch X Y \<and> keywordsMatch X Y"
  by (simp add: compatibleSubroutineDecls_def)

lemma matching_sameDecl: "matching s t \<Longrightarrow> sameDecl s s' \<Longrightarrow> sameDecl t t' \<Longrightarrow> matching s' t'"
  by (simp add: matching_def sameDecl_def compatible_iff paramModesMatch_def keywordsMatch_def)

section \<open>Changes of one declaration\<close>

text \<open>A change that keeps the links, names and regions: of the body flag or the pragma.\<close>

definition sameLinks :: "subroutine \<Rightarrow> subroutine \<Rightarrow> bool" where
  "sameLinks s t \<longleftrightarrow> sameDecl s t \<and> sd_link t = sd_link s"

lemma subNode_same: "sameDecl s t \<Longrightarrow> subNode d t = subNode d s"
  by (simp add: subNode_def sameDecl_def)

lemma nodes_inv_keeps:
  assumes "nodes_inv subs es" "\<And>d s. subs d = Some s \<Longrightarrow> \<exists>t. subs' d = Some t \<and> sameDecl s t"
  shows "nodes_inv subs' es"
  unfolding nodes_inv_def
proof (intro ballI impI)
  fix e n assume "e \<in> set es" "n \<in> set (en_direct e)" "denotesSubroutineDecl n"
  then obtain s where s: "subs (declId n) = Some s" "n = subNode (declId n) s" "sd_origin s = None"
    using assms(1) unfolding nodes_inv_def by blast
  with assms(2) obtain t where "subs' (declId n) = Some t" "sameDecl s t" by blast
  with s show "\<exists>s. subs' (declId n) = Some s \<and> n = subNode (declId n) s \<and> sd_origin s = None"
    using subNode_same [of s t "declId n"] by (auto simp: sameDecl_def)
qed

lemma links_invD:
  assumes "links_inv subs" "subs d = Some s"
  shows "sd_link s = DefinitionLink e \<Longrightarrow> \<exists>t. subs e = Some t \<and> sd_link t = ForwardLink d \<and> matching s t"
    "sd_link s = ForwardLink f \<Longrightarrow> \<exists>t. subs f = Some t \<and> sd_link t = DefinitionLink d"
  using assms unfolding links_inv_def by blast+

lemma regions_invD:
  assumes "regions_inv subs regions"
  shows "distinct (regions r)" "d \<in> set (regions r) \<Longrightarrow> \<exists>s. subs d = Some s \<and> sd_region s = Some r"
    "d \<in> set (regions (PackageRegion p)) \<Longrightarrow> subs d = Some s \<Longrightarrow> getForwardDeclaration s = None"
    "d \<in> set (regions r) \<Longrightarrow> subs d = Some s \<Longrightarrow> sd_region s = Some r"
  using assms unfolding regions_inv_def by (blast, blast, blast, fastforce)

lemma instances_invD:
  assumes "instances_inv subs regions"
  shows "subs d = Some s \<Longrightarrow> (sd_origin s = None) = (\<nexists>p. sd_region s = Some (InstanceRegion p))"
    "subs d = Some s \<Longrightarrow> sd_region s = Some (InstanceRegion p) \<Longrightarrow> sd_link s = NullLink \<and>
        (\<exists>e t. sd_origin s = Some e \<and> subs e = Some t \<and> e \<in> set (regions (PackageRegion p)) \<and> sd_name s = sd_name t)"
    "distinct (map (\<lambda>d. sd_origin (the (subs d))) (regions (InstanceRegion p)))"
  using assms unfolding instances_inv_def by blast+

lemma checker_invD:
  assumes "checker_inv c"
  shows "tc_subs c d = Some s \<Longrightarrow> d < tc_next c" "links_inv (tc_subs c)" "regions_inv (tc_subs c) (tc_regions c)"
    "instances_inv (tc_subs c) (tc_regions c)" "nodes_inv (tc_subs c) (so_entries (tc_scope c))"
    "so_entries (tc_scope c) \<noteq> []"
  using assms unfolding checker_inv_def by blast+

lemma sameLinks_update:
  assumes "checker_inv c" "tc_subs c d = Some s" "sameLinks s t"
  shows "checker_inv (c\<lparr>tc_subs := (tc_subs c)(d \<mapsto> t)\<rparr>)"
proof -
  note i = checker_invD [OF assms(1)]
  let ?subs = "(tc_subs c)(d \<mapsto> t)"
  have sd: "sameDecl s t" "sd_link t = sd_link s" using assms(3) by (auto simp: sameLinks_def)
  have fwd: "\<exists>v. ?subs a = Some v \<and> sameLinks u v" if "tc_subs c a = Some u" for a u
    using that assms(2,3) by (auto simp: sameLinks_def sameDecl_def)
  have bwd: "\<exists>u. tc_subs c a = Some u \<and> sameLinks u v" if "?subs a = Some v" for a v
    using that assms(2,3) by (auto simp: sameLinks_def sameDecl_def split: if_splits)
  have links: "links_inv ?subs"
    unfolding links_inv_def
  proof (intro conjI allI impI)
    fix a v e assume v: "?subs a = Some v" "sd_link v = DefinitionLink e"
    obtain u where u: "tc_subs c a = Some u" "sameLinks u v" using bwd [OF v(1)] by blast
    then have "sd_link u = DefinitionLink e" using v(2) by (simp add: sameLinks_def)
    then obtain w where w: "tc_subs c e = Some w" "sd_link w = ForwardLink a" "matching u w"
      using links_invD(1) [OF i(2) u(1)] by blast
    obtain x where "?subs e = Some x" "sameLinks w x" using fwd [OF w(1)] by blast
    then show "\<exists>t. ?subs e = Some t \<and> sd_link t = ForwardLink a \<and> matching v t"
      using w u(2) matching_sameDecl [of u w v x] by (auto simp: sameLinks_def)
  next
    fix a v f assume v: "?subs a = Some v" "sd_link v = ForwardLink f"
    obtain u where u: "tc_subs c a = Some u" "sameLinks u v" using bwd [OF v(1)] by blast
    then have "sd_link u = ForwardLink f" using v(2) by (simp add: sameLinks_def)
    then obtain w where w: "tc_subs c f = Some w" "sd_link w = DefinitionLink a"
      using links_invD(2) [OF i(2) u(1)] by blast
    obtain x where "?subs f = Some x" "sameLinks w x" using fwd [OF w(1)] by blast
    then show "\<exists>t. ?subs f = Some t \<and> sd_link t = DefinitionLink a" using w by (auto simp: sameLinks_def)
  qed
  have region: "sd_region t = sd_region s" "sd_origin t = sd_origin s" "sd_name t = sd_name s" "getForwardDeclaration t = getForwardDeclaration s"
    using sd by (simp_all add: sameDecl_def getForwardDeclaration_def)
  have regions: "regions_inv ?subs (tc_regions c)"
    unfolding regions_inv_def
    using regions_invD(1,2,3) [OF i(3)] regions_invD(4) [OF i(3), where d = d and s = s] assms(2) region
    by (auto split: if_splits)
  have origins: "map (\<lambda>a. sd_origin (the (?subs a))) xs = map (\<lambda>a. sd_origin (the (tc_subs c a))) xs" for xs
    using assms(2) region by simp
  have inst: "instances_inv ?subs (tc_regions c)"
    unfolding instances_inv_def
  proof (intro conjI allI impI)
    fix a v assume "?subs a = Some v"
    then show "(sd_origin v = None) = (\<nexists>p. sd_region v = Some (InstanceRegion p))"
      using instances_invD(1) [OF i(4)] assms(2) region by (auto split: if_splits)
  next
    fix a v p assume v: "?subs a = Some v" "sd_region v = Some (InstanceRegion p)"
    obtain u where u: "tc_subs c a = Some u" "sameLinks u v" using bwd [OF v(1)] by blast
    then have ui: "sd_region u = Some (InstanceRegion p)" using v(2) by (auto simp: sameLinks_def sameDecl_def)
    from instances_invD(2) [OF i(4) u(1) ui] obtain e w where w: "sd_link u = NullLink"
      "sd_origin u = Some e" "tc_subs c e = Some w" "e \<in> set (tc_regions c (PackageRegion p))" "sd_name u = sd_name w" by blast
    have "sd_link v = NullLink" "sd_origin v = Some e" "sd_name v = sd_name u"
      using u(2) w by (auto simp: sameLinks_def sameDecl_def)
    moreover have "\<exists>x. ?subs e = Some x \<and> sd_name x = sd_name w"
      using fwd [OF w(3)] by (auto simp: sameLinks_def sameDecl_def)
    ultimately show "sd_link v = NullLink"
      "\<exists>e t. sd_origin v = Some e \<and> ?subs e = Some t \<and> e \<in> set (tc_regions c (PackageRegion p)) \<and> sd_name v = sd_name t"
      using w by auto
  next
    fix p show "distinct (map (\<lambda>a. sd_origin (the (?subs a))) (tc_regions c (InstanceRegion p)))"
      unfolding origins by (rule instances_invD(3) [OF i(4)])
  qed
  have nodes: "nodes_inv ?subs (so_entries (tc_scope c))"
    by (rule nodes_inv_keeps [OF i(5)]) (use fwd in \<open>unfold sameLinks_def, blast\<close>)
  show ?thesis using links regions inst nodes i(1) i(6) assms(2) unfolding checker_inv_def by auto
qed

lemma sameLinks_keeps:
  "tc_subs c d = Some s \<Longrightarrow> sameLinks s t \<Longrightarrow> keepsDecls c (c\<lparr>tc_subs := (tc_subs c)(d \<mapsto> t)\<rparr>)"
  by (auto simp: keepsDecls_def sameLinks_def sameDecl_def)

text \<open>Only the scope, the stencil and the diagnostics change.\<close>

lemma checker_inv_frame:
  assumes "checker_inv c" "tc_subs c' = tc_subs c" "tc_regions c' = tc_regions c" "tc_next c \<le> tc_next c'"
    "nodes_inv (tc_subs c) (so_entries (tc_scope c'))" "so_entries (tc_scope c') \<noteq> []"
  shows "checker_inv c'"
  using assms by (auto simp: checker_inv_def intro: less_le_trans)

lemma nodes_inv_subset: "nodes_inv subs es \<Longrightarrow> set es' \<subseteq> set es \<Longrightarrow> nodes_inv subs es'"
  unfolding nodes_inv_def by blast

lemma nodes_inv_Cons [simp]:
  "nodes_inv subs [] = True"
  "nodes_inv subs (e # es) \<longleftrightarrow> (\<forall>n \<in> set (en_direct e). denotesSubroutineDecl n \<longrightarrow>
      (\<exists>s. subs (declId n) = Some s \<and> n = subNode (declId n) s \<and> sd_origin s = None)) \<and> nodes_inv subs es"
  by (auto simp: nodes_inv_def)

text \<open>A new declaration, not linked and not listed yet.\<close>

lemma new_declaration_inv:
  assumes "checker_inv c" "sd_link s = NullLink" "(sd_origin s = None) = (\<nexists>p. sd_region s = Some (InstanceRegion p))"
    "\<And>p. sd_region s = Some (InstanceRegion p) \<Longrightarrow>
       (\<exists>e t. sd_origin s = Some e \<and> tc_subs c e = Some t \<and> e \<in> set (tc_regions c (PackageRegion p)) \<and> sd_name s = sd_name t)"
  shows "checker_inv (c\<lparr>tc_subs := (tc_subs c)(tc_next c \<mapsto> s), tc_next := tc_next c + 1\<rparr>)"
proof -
  note i = checker_invD [OF assms(1)]
  let ?n = "tc_next c"
  let ?subs = "(tc_subs c)(?n \<mapsto> s)"
  have fresh: "tc_subs c ?n = None" using i(1) [of ?n] by (cases "tc_subs c ?n") auto
  have listed: "d \<noteq> ?n" if "d \<in> set (tc_regions c r)" for d r
    using regions_invD(2) [OF i(3) that] fresh by auto
  have links: "links_inv ?subs"
    unfolding links_inv_def
  proof (intro conjI allI impI)
    fix a v e assume v: "?subs a = Some v" "sd_link v = DefinitionLink e"
    then have a: "tc_subs c a = Some v" "a \<noteq> ?n" using assms(2) by (auto split: if_splits)
    from links_invD(1) [OF i(2) a(1) v(2)] show "\<exists>t. ?subs e = Some t \<and> sd_link t = ForwardLink a \<and> matching v t"
      using fresh by auto
  next
    fix a v f assume v: "?subs a = Some v" "sd_link v = ForwardLink f"
    then have a: "tc_subs c a = Some v" "a \<noteq> ?n" using assms(2) by (auto split: if_splits)
    from links_invD(2) [OF i(2) a(1) v(2)] show "\<exists>t. ?subs f = Some t \<and> sd_link t = DefinitionLink a"
      using fresh by auto
  qed
  have regions: "regions_inv ?subs (tc_regions c)"
    unfolding regions_inv_def using regions_invD [OF i(3)] listed by (auto split: if_splits)
  have inst: "instances_inv ?subs (tc_regions c)"
    unfolding instances_inv_def
  proof (intro conjI allI impI)
    fix a v assume "?subs a = Some v"
    then show "(sd_origin v = None) = (\<nexists>p. sd_region v = Some (InstanceRegion p))"
      using instances_invD(1) [OF i(4)] assms(3) by (auto split: if_splits)
  next
    fix a v p assume v: "?subs a = Some v" "sd_region v = Some (InstanceRegion p)"
    have old: "sd_link v = NullLink \<and>
      (\<exists>e t. sd_origin v = Some e \<and> tc_subs c e = Some t \<and> e \<in> set (tc_regions c (PackageRegion p)) \<and> sd_name v = sd_name t)"
    proof (cases "a = ?n")
      case True
      then have "v = s" using v(1) by simp
      then show ?thesis using assms(2) assms(4) [of p] v(2) by simp
    next
      case False
      then show ?thesis using instances_invD(2) [OF i(4) _ v(2), of a] v(1) by simp
    qed
    show "sd_link v = NullLink" using old by blast
    from old obtain e t where e: "sd_origin v = Some e" "tc_subs c e = Some t" "e \<in> set (tc_regions c (PackageRegion p))"
      "sd_name v = sd_name t" by blast
    then have "?subs e = Some t" using listed by auto
    then show "\<exists>e t. sd_origin v = Some e \<and> ?subs e = Some t \<and> e \<in> set (tc_regions c (PackageRegion p)) \<and> sd_name v = sd_name t"
      using e by blast
  next
    fix p
    have eq: "map (\<lambda>a. sd_origin (the (?subs a))) (tc_regions c (InstanceRegion p)) =
      map (\<lambda>a. sd_origin (the (tc_subs c a))) (tc_regions c (InstanceRegion p))" using listed by auto
    show "distinct (map (\<lambda>a. sd_origin (the (?subs a))) (tc_regions c (InstanceRegion p)))"
      unfolding eq by (rule instances_invD(3) [OF i(4)])
  qed
  have nodes: "nodes_inv ?subs (so_entries (tc_scope c))"
    by (rule nodes_inv_keeps [OF i(5)]) (use fresh in \<open>auto simp: sameDecl_def\<close>)
  show ?thesis using links regions inst nodes i(1,6) unfolding checker_inv_def by (auto split: if_splits intro: less_SucI)
qed

text \<open>A declaration is listed in its region.\<close>

lemma addDecl_inv:
  assumes "checker_inv c" "tc_subs c d = Some s" "sd_region s = Some r" "d \<notin> set (tc_regions c r)"
    "\<And>p. r = PackageRegion p \<Longrightarrow> getForwardDeclaration s = None"
    "\<And>p. r = InstanceRegion p \<Longrightarrow> sd_origin s \<notin> (\<lambda>a. sd_origin (the (tc_subs c a))) ` set (tc_regions c r)"
  shows "checker_inv (addDecl r d c)"
proof -
  note i = checker_invD [OF assms(1)]
  have "regions_inv (tc_subs c) ((tc_regions c)(r := tc_regions c r @ [d]))"
    unfolding regions_inv_def using regions_invD [OF i(3)] assms(2-5) by auto
  moreover have "instances_inv (tc_subs c) ((tc_regions c)(r := tc_regions c r @ [d]))"
    unfolding instances_inv_def
  proof (intro conjI allI impI)
    fix a v assume "tc_subs c a = Some v"
    then show "(sd_origin v = None) = (\<nexists>p. sd_region v = Some (InstanceRegion p))" using instances_invD(1) [OF i(4)] by blast
  next
    fix a v p assume v: "tc_subs c a = Some v" "sd_region v = Some (InstanceRegion p)"
    from instances_invD(2) [OF i(4) v]
    show "sd_link v = NullLink"
      "\<exists>e t. sd_origin v = Some e \<and> tc_subs c e = Some t \<and> e \<in> set (((tc_regions c)(r := tc_regions c r @ [d])) (PackageRegion p)) \<and>
         sd_name v = sd_name t" by auto
  next
    fix p show "distinct (map (\<lambda>a. sd_origin (the (tc_subs c a))) (((tc_regions c)(r := tc_regions c r @ [d])) (InstanceRegion p)))"
      using instances_invD(3) [OF i(4)] assms(2,6) by auto
  qed
  ultimately show ?thesis using i(1,2,5,6) by (simp add: checker_inv_def addDecl_def)
qed

text \<open>A completion is linked before it is listed.\<close>

lemma setDefiningDeclaration_inv:
  assumes "checker_inv c" "setDefiningDeclaration d e c = Some c'" "tc_subs c d = Some s" "tc_subs c e = Some t"
    "compatibleSubroutineDecls s t" "d \<noteq> e" "sd_origin s = None" "sd_origin t = None"
    "\<And>r. e \<notin> set (tc_regions c r)"
  shows "checker_inv c' \<and> keepsDecls c c' \<and> tc_regions c' = tc_regions c \<and> tc_scope c' = tc_scope c \<and>
    tc_region c' = tc_region c \<and> tc_next c' = tc_next c \<and> tc_packages c' = tc_packages c \<and> tc_current c' = tc_current c \<and>
    tc_subs c' e = Some (t\<lparr>sd_link := ForwardLink d\<rparr>)"
proof -
  note i = checker_invD [OF assms(1)]
  let ?s = "s\<lparr>sd_link := DefinitionLink e\<rparr>" and ?t = "t\<lparr>sd_link := ForwardLink d\<rparr>"
  let ?subs = "(tc_subs c)(d \<mapsto> ?s, e \<mapsto> ?t)"
  have null: "sd_link s = NullLink" "sd_link t = NullLink" "sd_function s = sd_function t"
    and c': "c' = c\<lparr>tc_subs := ?subs\<rparr>"
    using assms(2-4) by (auto simp: setDefiningDeclaration_def split: if_splits)
  have fwd: "\<exists>v. ?subs a = Some v \<and> sameDecl u v \<and> (sd_link u \<noteq> NullLink \<longrightarrow> v = u)"
    if "tc_subs c a = Some u" for a u
    using that assms(3,4) null by (auto simp: sameDecl_def)
  have links: "links_inv ?subs"
    unfolding links_inv_def
  proof (intro conjI allI impI)
    fix a v b assume v: "?subs a = Some v" "sd_link v = DefinitionLink b"
    show "\<exists>t. ?subs b = Some t \<and> sd_link t = ForwardLink a \<and> matching v t"
    proof (cases "a = d")
      case True
      then have "b = e" "v = ?s" using v assms(6) by auto
      moreover have "matching ?s ?t"
        using assms(5) null by (simp add: matching_def compatible_iff paramModesMatch_def keywordsMatch_def)
      ultimately show ?thesis using True by simp
    next
      case False
      then have a: "tc_subs c a = Some v" "a \<noteq> e" using v by (auto split: if_splits)
      from links_invD(1) [OF i(2) a(1) v(2)] obtain w where w: "tc_subs c b = Some w" "sd_link w = ForwardLink a" "matching v w" by blast
      then have "b \<noteq> d" "b \<noteq> e" using null assms(3,4) by auto
      then show ?thesis using w by simp
    qed
  next
    fix a v f assume v: "?subs a = Some v" "sd_link v = ForwardLink f"
    show "\<exists>t. ?subs f = Some t \<and> sd_link t = DefinitionLink a"
    proof (cases "a = e")
      case True
      then show ?thesis using v assms(6) by auto
    next
      case False
      then have a: "tc_subs c a = Some v" "a \<noteq> d" using v by (auto split: if_splits)
      from links_invD(2) [OF i(2) a(1) v(2)] obtain w where w: "tc_subs c f = Some w" "sd_link w = DefinitionLink a" by blast
      then have "f \<noteq> d" "f \<noteq> e" using null assms(3,4) by auto
      then show ?thesis using w by simp
    qed
  qed
  have regions: "regions_inv ?subs (tc_regions c)"
    unfolding regions_inv_def
  proof (intro conjI allI ballI impI)
    show "distinct (tc_regions c r)" for r by (rule regions_invD(1) [OF i(3)])
  next
    fix r a assume "a \<in> set (tc_regions c r)"
    from regions_invD(2) [OF i(3) this] obtain u where "tc_subs c a = Some u" "sd_region u = Some r" by blast
    with fwd [of a u] show "\<exists>s. ?subs a = Some s \<and> sd_region s = Some r" by (auto simp: sameDecl_def)
  next
    fix p a v assume a: "a \<in> set (tc_regions c (PackageRegion p))" "?subs a = Some v"
    have "a \<noteq> e" using a(1) assms(9) by blast
    then show "getForwardDeclaration v = None"
      using a regions_invD(3) [OF i(3) a(1)] by (auto simp: getForwardDeclaration_def split: if_splits)
  qed
  have noinst: "sd_region s \<noteq> Some (InstanceRegion p)" "sd_region t \<noteq> Some (InstanceRegion p)" for p
    using instances_invD(1) [OF i(4)] assms(3,4,7,8) by auto
  have inst: "instances_inv ?subs (tc_regions c)"
    unfolding instances_inv_def
  proof (intro conjI allI impI)
    fix a v assume "?subs a = Some v"
    then show "(sd_origin v = None) = (\<nexists>p. sd_region v = Some (InstanceRegion p))"
      using instances_invD(1) [OF i(4)] assms(3,4) by (auto split: if_splits)
  next
    fix a v p assume v: "?subs a = Some v" "sd_region v = Some (InstanceRegion p)"
    then have a: "tc_subs c a = Some v" using noinst by (auto split: if_splits)
    from instances_invD(2) [OF i(4) a v(2)] obtain b w where w: "sd_link v = NullLink"
      "sd_origin v = Some b" "tc_subs c b = Some w" "b \<in> set (tc_regions c (PackageRegion p))" "sd_name v = sd_name w" by blast
    then show "sd_link v = NullLink"
      "\<exists>e t. sd_origin v = Some e \<and> ?subs e = Some t \<and> e \<in> set (tc_regions c (PackageRegion p)) \<and> sd_name v = sd_name t"
      using fwd [OF w(3)] by (auto simp: sameDecl_def)
  next
    fix p
    have eq: "map (\<lambda>a. sd_origin (the (?subs a))) (tc_regions c (InstanceRegion p)) =
      map (\<lambda>a. sd_origin (the (tc_subs c a))) (tc_regions c (InstanceRegion p))" using assms(3,4) by auto
    show "distinct (map (\<lambda>a. sd_origin (the (?subs a))) (tc_regions c (InstanceRegion p)))"
      unfolding eq by (rule instances_invD(3) [OF i(4)])
  qed
  have "nodes_inv ?subs (so_entries (tc_scope c))" by (rule nodes_inv_keeps [OF i(5)]) (use fwd in blast)
  then have "checker_inv c'" using links regions inst i(1,6) assms(3,4) unfolding checker_inv_def c' by auto
  moreover have "keepsDecls c c'" using fwd unfolding keepsDecls_def c' by (auto simp del: fun_upd_apply)
  ultimately show ?thesis by (simp add: c')
qed

section \<open>Declarations of subroutines\<close>

text \<open>While the public part of a package is declared, the innermost scope holds its declarations only.\<close>

definition publicHead :: "checker \<Rightarrow> bool" where
  "publicHead c \<longleftrightarrow> (\<forall>p. tc_region c = Some (PackageRegion p) \<longrightarrow>
     (\<forall>n \<in> set (en_direct (hd (so_entries (tc_scope c)))). denotesSubroutineDecl n \<longrightarrow>
        (\<exists>s. tc_subs c (declId n) = Some s \<and> sd_region s = Some (PackageRegion p))))"

text \<open>What an operation within a region leaves as it was.\<close>

definition withinRegion :: "checker \<Rightarrow> checker \<Rightarrow> bool" where
  "withinRegion c c' \<longleftrightarrow> tc_region c' = tc_region c \<and> keepsDecls c c' \<and> tc_next c \<le> tc_next c' \<and>
     tl (so_entries (tc_scope c')) = tl (so_entries (tc_scope c)) \<and> tc_current c' = tc_current c \<and>
     en_kind (hd (so_entries (tc_scope c'))) = en_kind (hd (so_entries (tc_scope c))) \<and>
     (\<forall>p k. tc_packages c p = Some k \<longrightarrow> (\<exists>k'. tc_packages c' p = Some k' \<and> pk_name k' = pk_name k \<and> pk_private k' = pk_private k))"

lemma withinRegion_refl [simp]: "withinRegion c c"
  by (simp add: withinRegion_def)

lemma withinRegion_trans: "withinRegion c c1 \<Longrightarrow> withinRegion c1 c2 \<Longrightarrow> withinRegion c c2"
  unfolding withinRegion_def using keepsDecls_trans [of c c1 c2] by (auto intro: le_trans) (metis (no_types, lifting))+

lemma find_member: "find P xs = Some x \<Longrightarrow> x \<in> set xs \<and> P x"
  by (metis find_Some_iff nth_mem)

lemma addDirectDecl_conflict:
  "fst (addDirectDecl n sc) = Some conflict \<Longrightarrow> conflict \<in> set (en_direct (hd (so_entries sc))) \<and> snd (addDirectDecl n sc) = sc"
  by (auto simp: addDirectDecl_def findConflictingDirectDecl_def dest!: find_member split: option.splits)

lemma addDirectDecl_added:
  assumes "fst (addDirectDecl n sc) = None" "so_entries sc \<noteq> []"
  shows "\<exists>e. so_entries (snd (addDirectDecl n sc)) = e # tl (so_entries sc) \<and> en_kind e = en_kind (hd (so_entries sc)) \<and>
    set (en_direct e) = insert n (set (en_direct (hd (so_entries sc))))"
  using assms by (cases "so_entries sc")
    (auto simp: addDirectDecl_def insertDirectDecl_def insert_absorb split: option.splits)

lemma nodes_inv_added:
  assumes "nodes_inv subs (so_entries sc)" "so_entries sc \<noteq> []" "fst (addDirectDecl n sc) = None"
    "denotesSubroutineDecl n \<Longrightarrow> \<exists>s. subs (declId n) = Some s \<and> n = subNode (declId n) s \<and> sd_origin s = None"
  shows "nodes_inv subs (so_entries (snd (addDirectDecl n sc)))"
  using addDirectDecl_added [OF assms(3,2)] assms(1,2,4) by (cases "so_entries sc") auto

lemma subNode_subroutine [simp]: "denotesSubroutineDecl (subNode d s)" "declId (subNode d s) = d"
  by (simp_all add: subNode_def denotesSubroutineDecl_def)

lemma paramNode_no_subroutine [simp]: "\<not> denotesSubroutineDecl (paramNode p)" "\<not> denotesSubroutineDecl (packageNode q k)"
  by (simp_all add: paramNode_def packageNode_def denotesSubroutineDecl_def)

lemma newSubroutine_fields:
  "newSubroutine st region = Some s \<Longrightarrow> sd_link s = NullLink \<and> sd_origin s = None \<and> sd_region s = region \<and> sd_name s = st_name st"
  by (auto simp: newSubroutine_def Let_def split: if_splits option.splits)

definition declared_in :: "checker \<Rightarrow> checker \<Rightarrow> region \<Rightarrow> nat option \<Rightarrow> bool" where
  "declared_in c c' r res \<longleftrightarrow> checker_inv c' \<and> withinRegion c c' \<and> publicHead c' \<and> tc_packages c' = tc_packages c \<and>
     (\<forall>q. q \<noteq> r \<longrightarrow> tc_regions c' q = tc_regions c q) \<and>
     (\<forall>d. res = Some d \<longrightarrow> (\<exists>s. tc_subs c' d = Some s \<and> sd_region s = Some r \<and> sd_origin s = None))"

lemma declared_in_frame:
  assumes "checker_inv c" "publicHead c" "tc_subs c' = tc_subs c" "tc_regions c' = tc_regions c" "tc_next c \<le> tc_next c'"
    "tc_scope c' = tc_scope c" "tc_region c' = tc_region c" "tc_packages c' = tc_packages c" "tc_current c' = tc_current c"
  shows "declared_in c c' r None"
proof -
  have "checker_inv c'" using assms checker_invD(5,6) [OF assms(1)] by (intro checker_inv_frame [OF assms(1)]) auto
  then show ?thesis using assms by (auto simp: declared_in_def withinRegion_def publicHead_def intro: keepsDecls_same)
qed

lemma completeSubroutine_declared:
  assumes i1: "checker_inv c" and comp: "completeSubroutine f d (Some r) c = Some (res, c')"
    and "tc_subs c d = Some s" "tc_subs c f = Some u" "compatibleSubroutineDecls u s" "f \<noteq> d" "sd_origin u = None"
    "sd_origin s = None" "sd_region s = Some r" and unlisted: "\<And>q. d \<notin> set (tc_regions c q)"
    and head: "publicHead c" and "\<And>p. r \<noteq> InstanceRegion p" "\<And>p. r = PackageRegion p \<Longrightarrow> sd_region u = Some r"
    and "tc_region c = Some r"
  shows "declared_in c c' r res \<or> (res = None \<and> (\<exists>x. c' = reportRegion x c))"
proof (cases "getDefiningDeclaration u = None")
  case False
  then show ?thesis using comp assms(4) by (auto simp: completeSubroutine_def)
next
  case def_none: True
  then obtain c2 where c2: "setDefiningDeclaration f d c = Some c2"
    using comp assms(4) by (auto simp: completeSubroutine_def split: option.splits)
  note l = setDefiningDeclaration_inv [OF i1 c2 assms(4,3,5,6,7,8) unlisted]
  have within: "withinRegion c c2" using l by (simp add: withinRegion_def)
  have head2: "publicHead c2"
    unfolding publicHead_def
  proof (intro allI impI ballI)
    fix p n assume "tc_region c2 = Some (PackageRegion p)" "n \<in> set (en_direct (hd (so_entries (tc_scope c2))))"
      "denotesSubroutineDecl n"
    then obtain v where "tc_subs c (declId n) = Some v" "sd_region v = Some (PackageRegion p)"
      using head l by (auto simp: publicHead_def)
    then show "\<exists>s. tc_subs c2 (declId n) = Some s \<and> sd_region s = Some (PackageRegion p)"
      using l unfolding keepsDecls_def sameDecl_def by metis
  qed
  show ?thesis
  proof (cases "isDeclaredIn (Some r) u")
    case True
    then have "res = Some d" "c' = c2" using comp assms(4) c2 def_none by (auto simp: completeSubroutine_def)
    then show ?thesis using l within head2 assms(8,9) by (auto simp: declared_in_def)
  next
    case False
    then have c': "res = Some d" "c' = addDecl r d c2" using comp assms(4) c2 def_none by (auto simp: completeSubroutine_def)
    have nopkg: "r \<noteq> PackageRegion p" for p using assms(13) False by (auto simp: isDeclaredIn_def)
    have "checker_inv c'"
      unfolding c'(2) by (rule addDecl_inv [where s = "s\<lparr>sd_link := ForwardLink f\<rparr>"])
        (use l assms(9,12) unlisted nopkg in auto)
    then show ?thesis using c' l within head2 assms(8,9)
      by (auto simp: declared_in_def withinRegion_def publicHead_def addDecl_def keepsDecls_def)
  qed
qed

lemma enterSubroutine_declared:
  assumes i0: "checker_inv c" and "tc_region c = Some r" "\<And>p. r \<noteq> InstanceRegion p" "publicHead c"
    and sf: "sd_link s = NullLink" "sd_origin s = None" "sd_region s = Some r"
    and "enterSubroutine definitionFollows s c = Some (res, c')"
  shows "declared_in c c' r res"
proof -
  define d where "d = tc_next c"
  define c1 where "c1 = c\<lparr>tc_subs := (tc_subs c)(d \<mapsto> s), tc_next := d + 1\<rparr>"
  have i1: "checker_inv c1"
    unfolding c1_def d_def by (rule new_declaration_inv [OF i0]) (use sf assms(3) in auto)
  note j = checker_invD [OF i1]
  have fresh: "tc_subs c d = None" using checker_invD(1) [OF i0, of d] by (cases "tc_subs c d") (auto simp: d_def)
  have unlisted: "d \<notin> set (tc_regions c1 q)" for q
    using regions_invD(2) [OF checker_invD(3) [OF i0], of d q] fresh by (auto simp: c1_def)
  have k1: "keepsDecls c c1" using fresh by (auto simp: keepsDecls_def c1_def sameDecl_def)
  have within1: "withinRegion c c1" using k1 by (auto simp: withinRegion_def c1_def d_def)
  have head1: "publicHead c1" using assms(4) fresh by (fastforce simp: publicHead_def c1_def)
  have sub1: "tc_subs c1 d = Some s" "tc_region c1 = Some r" by (simp_all add: c1_def assms(2))
  have eq: "(case addDirectDecl (subNode d s) (tc_scope c1) of
             (Some conflict, _) \<Rightarrow>
               if denotesSubroutineDecl conflict \<and> definitionFollows \<and>
                  (case tc_subs c1 (declId conflict) of Some f \<Rightarrow> compatibleSubroutineDecls f s | None \<Rightarrow> False)
               then completeSubroutine (declId conflict) d (Some r) c1
               else Some (None, reportRegion (CONFLICTING_DECLARATION (sd_name s)) c1)
           | (None, scope) \<Rightarrow> Some (Some d, addDecl r d (c1\<lparr>tc_scope := scope\<rparr>))) = Some (res, c')"
    using assms(8) unfolding enterSubroutine_def Let_def c1_def d_def assms(2) option.case .
  show ?thesis
  proof (cases "fst (addDirectDecl (subNode d s) (tc_scope c1))")
    case None
    obtain sc where sc: "addDirectDecl (subNode d s) (tc_scope c1) = (None, sc)" using None by (metis prod.collapse)
    define c2 where "c2 = c1\<lparr>tc_scope := sc\<rparr>"
    have c': "res = Some d" "c' = addDecl r d c2" using eq sc by (auto simp: c2_def)
    obtain e where e: "so_entries sc = e # tl (so_entries (tc_scope c1))" "en_kind e = en_kind (hd (so_entries (tc_scope c1)))"
      "set (en_direct e) = insert (subNode d s) (set (en_direct (hd (so_entries (tc_scope c1)))))"
      using addDirectDecl_added [OF None j(6)] sc by auto
    have "nodes_inv (tc_subs c1) (so_entries sc)"
      using nodes_inv_added [OF j(5,6) None] sc sub1 sf by simp
    then have i2: "checker_inv c2" using e by (intro checker_inv_frame [OF i1]) (auto simp: c2_def)
    have "checker_inv c'"
      unfolding c'(2) by (rule addDecl_inv [OF i2]) (use sub1 sf unlisted assms(3) in \<open>auto simp: c2_def getForwardDeclaration_def\<close>)
    moreover have "withinRegion c c'" using within1 e unfolding c'(2) by (simp add: withinRegion_def addDecl_def c2_def keepsDecls_def)
    moreover have "publicHead c'"
      using head1 e sub1 sf unfolding c'(2) by (auto simp: publicHead_def addDecl_def c2_def)
    ultimately show ?thesis using c' sub1 sf by (auto simp: declared_in_def addDecl_def c2_def c1_def)
  next
    case (Some conflict)
    have conf: "conflict \<in> set (en_direct (hd (so_entries (tc_scope c1))))" using addDirectDecl_conflict [OF Some] by simp
    have eq2: "(if denotesSubroutineDecl conflict \<and> definitionFollows \<and>
                (case tc_subs c1 (declId conflict) of Some f \<Rightarrow> compatibleSubroutineDecls f s | None \<Rightarrow> False)
             then completeSubroutine (declId conflict) d (Some r) c1
             else Some (None, reportRegion (CONFLICTING_DECLARATION (sd_name s)) c1)) = Some (res, c')"
      using eq Some by (cases "addDirectDecl (subNode d s) (tc_scope c1)") simp
    have rep: "declared_in c (reportRegion x c1) r None" for x
    proof -
      have "checker_inv (reportRegion x c1)" using j(5,6) by (intro checker_inv_frame [OF i1]) (auto simp: reportRegion_def)
      then show ?thesis using within1 head1
        by (simp add: declared_in_def withinRegion_def publicHead_def reportRegion_def keepsDecls_def c1_def)
    qed
    show ?thesis
    proof (cases "denotesSubroutineDecl conflict \<and> definitionFollows \<and>
                (case tc_subs c1 (declId conflict) of Some f \<Rightarrow> compatibleSubroutineDecls f s | None \<Rightarrow> False)")
      case False
      then have "res = None" "c' = reportRegion (CONFLICTING_DECLARATION (sd_name s)) c1" using eq2 by auto
      then show ?thesis using rep by simp
    next
      case True
      define f where "f = declId conflict"
      obtain u where u: "tc_subs c1 f = Some u" "compatibleSubroutineDecls u s" using True by (auto simp: f_def split: option.splits)
      have origin: "sd_origin u = None"
        using j(5,6) conf True u by (cases "so_entries (tc_scope c1)") (auto simp: f_def)
      have "\<exists>s. tc_subs c f = Some s"
        using checker_invD(5,6) [OF i0] conf True by (cases "so_entries (tc_scope c)") (auto simp: f_def c1_def)
      then have "f \<noteq> d" using fresh by auto
      have public: "r = PackageRegion p \<Longrightarrow> sd_region u = Some r" for p
        using head1 conf True u sub1 by (auto simp: publicHead_def f_def)
      have comp: "completeSubroutine f d (Some r) c1 = Some (res, c')" using eq2 True by (simp add: f_def)
      have "declared_in c1 c' r res \<or> (res = None \<and> (\<exists>x. c' = reportRegion x c1))"
        by (rule completeSubroutine_declared [OF i1 comp sub1(1) u \<open>f \<noteq> d\<close> origin sf(2,3) unlisted head1 assms(3) public sub1(2)])
      then show ?thesis
      proof
        assume "declared_in c1 c' r res"
        then show ?thesis using withinRegion_trans [OF within1, of c'] by (auto simp: declared_in_def c1_def)
      qed (use rep in auto)
    qed
  qed
qed

lemma endSubroutineDeclaration_declared:
  assumes "checker_inv c" "tc_region c = Some r" "\<And>p. r \<noteq> InstanceRegion p" "publicHead c"
    "endSubroutineDeclaration definitionFollows c = Some (res, c')"
  shows "declared_in c c' r res"
proof -
  define c0 where "c0 = c\<lparr>tc_stencil := resetStencil\<rparr>"
  have frame: "declared_in c c2 r None" if "c2 = c0 \<or> (\<exists>x. c2 = reportRegion x c0)" for c2
    by (rule declared_in_frame [OF assms(1,4)]) (use that in \<open>auto simp: c0_def reportRegion_def\<close>)
  consider "res = None" "c' = c0 \<or> (\<exists>x. c' = reportRegion x c0)"
    | s where "newSubroutine (tc_stencil c) (Some r) = Some s" "enterSubroutine definitionFollows s c0 = Some (res, c')"
    using assms(2,5) by (auto simp: endSubroutineDeclaration_def Let_def c0_def split: if_splits option.splits)
  then show ?thesis
  proof cases
    case 1
    then show ?thesis using frame by simp
  next
    case 2
    have d0: "declared_in c c0 r None" using frame by simp
    then have "declared_in c0 c' r res"
      using newSubroutine_fields [OF 2(1)] assms(2)
      by (intro enterSubroutine_declared [OF _ _ assms(3) _ _ _ _ 2(2)]) (auto simp: declared_in_def c0_def)
    then show ?thesis using d0 withinRegion_trans [of c c0 c'] by (auto simp: declared_in_def)
  qed
qed

section \<open>Runs\<close>

lemma acceptSubroutineParameter_frame:
  "declared_in c (acceptSubroutineParameter formal ty mode c) r None" if "checker_inv c" "publicHead c"
  by (rule declared_in_frame [OF that])
    (auto simp: acceptSubroutineParameter_def Let_def markInvalid_def reportRegion_def split: option.split)

lemma declared_in_trans:
  "declared_in c c1 r x \<Longrightarrow> declared_in c1 c2 r y \<Longrightarrow> declared_in c c2 r y"
  using withinRegion_trans [of c c1 c2] by (auto simp: declared_in_def)

lemma acceptParameters_frame:
  "checker_inv c \<Longrightarrow> publicHead c \<Longrightarrow> declared_in c (acceptParameters ps c) r None"
proof (induction ps c rule: acceptParameters.induct)
  case (1 c)
  then show ?case by (simp add: declared_in_def)
next
  case (2 formal ty mode ps c)
  then have a: "declared_in c (acceptSubroutineParameter formal ty mode c) r None" using acceptSubroutineParameter_frame by blast
  then have "declared_in (acceptSubroutineParameter formal ty mode c) (acceptParameters ((formal, ty, mode) # ps) c) r None"
    using 2(1) by (simp add: declared_in_def)
  with a show ?case by (rule declared_in_trans)
qed

lemma declareSubroutine_declared:
  assumes "checker_inv c" "tc_region c = Some r" "\<And>p. r \<noteq> InstanceRegion p" "publicHead c"
    "declareSubroutine definitionFollows sp c = Some (res, c')"
  shows "declared_in c c' r res"
proof -
  define c0 where "c0 = beginSubroutineDeclaration (if ss_function sp then FUNCTION_Stencil else PROCEDURE_Stencil) (ss_name sp) c"
  define c1 where "c1 = acceptParameters (ss_params sp) c0"
  have "declared_in c c0 r None"
    by (rule declared_in_frame [OF assms(1,4)]) (simp_all add: c0_def beginSubroutineDeclaration_def)
  moreover from this have "declared_in c0 c1 r None"
    unfolding c1_def by (intro acceptParameters_frame) (auto simp: declared_in_def)
  ultimately have d1: "declared_in c c1 r None" by (rule declared_in_trans)
  obtain c2 where c2: "(if ss_function sp then acceptFunctionReturnType (ss_return sp) c1 else Some c1) = Some c2"
    "endSubroutineDeclaration definitionFollows c2 = Some (res, c')"
    using assms(5) unfolding declareSubroutine_def Let_def c0_def [symmetric] c1_def [symmetric] by (auto split: option.splits)
  have "declared_in c1 c2 r None"
    by (rule declared_in_frame) (use d1 c2(1) in \<open>auto simp: declared_in_def acceptFunctionReturnType_def markInvalid_def
      split: if_splits option.splits\<close>)
  with d1 have d2: "declared_in c c2 r None" by (rule declared_in_trans)
  have "declared_in c2 c' r res"
    by (rule endSubroutineDeclaration_declared [OF _ _ assms(3) _ c2(2)])
      (use d2 assms(2) in \<open>auto simp: declared_in_def withinRegion_def\<close>)
  with d2 show ?thesis by (rule declared_in_trans)
qed

end
