(* ===== verification/PackagesRun.thy ===== *)
theory PackagesRun
  imports PackagesSpec
begin

text \<open>
  Runs of the type checker over the items of packages: every call keeps the invariant, a body leaves its region as it
  was, and so the invariant holds after every sequence of compilation units.
\<close>

section \<open>The invariant of a run\<close>

text \<open>Addresses of packages are in use, and an instance is filled when it is created.\<close>

definition packages_inv :: "checker \<Rightarrow> bool" where
  "packages_inv c \<longleftrightarrow> (\<forall>p k. tc_packages c p = Some k \<longrightarrow> p < tc_next c) \<and>
     (\<forall>p. (\<forall>k. tc_packages c p = Some k \<longrightarrow> \<not> pk_instance k) \<longrightarrow> tc_regions c (InstanceRegion p) = [])"

definition run_inv :: "checker \<Rightarrow> bool" where
  "run_inv c \<longleftrightarrow> checker_inv c \<and> publicHead c \<and> packages_inv c"

definition run_within :: "checker \<Rightarrow> checker \<Rightarrow> bool" where
  "run_within c c' \<longleftrightarrow> run_inv c' \<and> withinRegion c c'"

lemma run_within_trans: "run_within c c1 \<Longrightarrow> run_within c1 c2 \<Longrightarrow> run_within c c2"
  unfolding run_within_def using withinRegion_trans by blast

lemma run_within_refl: "run_inv c \<Longrightarrow> run_within c c"
  by (simp add: run_within_def)

lemma packages_inv_same:
  assumes "packages_inv c" "tc_packages c' = tc_packages c" "tc_next c \<le> tc_next c'"
    "\<And>p. tc_regions c' (InstanceRegion p) = tc_regions c (InstanceRegion p)"
  shows "packages_inv c'"
  using assms unfolding packages_inv_def by (auto intro: less_le_trans)

lemma declared_within:
  assumes "run_inv c" "declared_in c c' r res" "\<And>p. r \<noteq> InstanceRegion p"
  shows "run_within c c'"
proof -
  have keep: "tc_regions c' (InstanceRegion p) = tc_regions c (InstanceRegion p)" for p
    using assms(2) assms(3) [of p, symmetric] by (simp add: declared_in_def)
  have old: "packages_inv c" "tc_packages c' = tc_packages c" "tc_next c \<le> tc_next c'"
    using assms(1,2) by (simp_all add: run_inv_def declared_in_def withinRegion_def)
  have "packages_inv c'" by (rule packages_inv_same [OF old keep])
  then show ?thesis using assms(2) by (simp add: run_within_def run_inv_def declared_in_def)
qed

lemma declareSubroutine_within:
  assumes "run_inv c" "tc_region c = Some r" "\<And>p. r \<noteq> InstanceRegion p"
    "declareSubroutine definitionFollows sp c = Some (res, c')"
  shows "run_within c c'" "res = Some d \<Longrightarrow> \<exists>s. tc_subs c' d = Some s \<and> sd_region s = Some r \<and> sd_origin s = None"
proof -
  have d: "declared_in c c' r res"
    by (rule declareSubroutine_declared [OF _ assms(2,3) _ assms(4)]) (use assms(1) in \<open>auto simp: run_inv_def\<close>)
  show "run_within c c'" by (rule declared_within [OF assms(1) d assms(3)])
  show "res = Some d \<Longrightarrow> \<exists>s. tc_subs c' d = Some s \<and> sd_region s = Some r \<and> sd_origin s = None"
    using d by (simp add: declared_in_def)
qed

section \<open>Instances\<close>

lemma rewriteDecl_inv:
  assumes "checker_inv c" "d \<in> set (tc_regions c (PackageRegion p))"
    "Some d \<notin> (\<lambda>a. sd_origin (the (tc_subs c a))) ` set (tc_regions c (InstanceRegion p))"
    "rewriteDecl p d c = Some c'"
  shows "checker_inv c' \<and> keepsDecls c c' \<and> tc_scope c' = tc_scope c \<and> tc_region c' = tc_region c \<and>
    tc_packages c' = tc_packages c \<and> tc_current c' = tc_current c \<and> tc_next c' = tc_next c + 1 \<and>
    (\<forall>r. r \<noteq> InstanceRegion p \<longrightarrow> tc_regions c' r = tc_regions c r) \<and>
    (\<lambda>a. sd_origin (the (tc_subs c' a))) ` set (tc_regions c' (InstanceRegion p)) =
      insert (Some d) ((\<lambda>a. sd_origin (the (tc_subs c a))) ` set (tc_regions c (InstanceRegion p)))"
proof -
  note i = checker_invD [OF assms(1)]
  obtain s where s: "tc_subs c d = Some s" using assms(4) by (auto simp: rewriteDecl_def split: option.splits)
  define t where "t = s\<lparr>sd_region := Some (InstanceRegion p), sd_link := NullLink, sd_origin := Some d, sd_import := None,
    sd_body := False\<rparr>"
  define c1 where "c1 = c\<lparr>tc_subs := (tc_subs c)(tc_next c \<mapsto> t), tc_next := tc_next c + 1\<rparr>"
  have c': "c' = addDecl (InstanceRegion p) (tc_next c) c1"
    using assms(4) s by (intro checker.equality) (auto simp: rewriteDecl_def addDecl_def c1_def t_def)
  have fresh: "tc_subs c (tc_next c) = None" using i(1) [of "tc_next c"] by (cases "tc_subs c (tc_next c)") auto
  have unlisted: "tc_next c \<notin> set (tc_regions c r)" for r using regions_invD(2) [OF i(3), of "tc_next c" r] fresh by auto
  have i1: "checker_inv c1"
    unfolding c1_def by (rule new_declaration_inv [OF assms(1)]) (use s assms(2) in \<open>auto simp: t_def\<close>)
  have origins: "(\<lambda>a. sd_origin (the (tc_subs c1 a))) ` set (tc_regions c (InstanceRegion p)) =
    (\<lambda>a. sd_origin (the (tc_subs c a))) ` set (tc_regions c (InstanceRegion p))"
    using unlisted by (intro image_cong) (auto simp: c1_def)
  have "checker_inv c'"
    unfolding c'
  proof (rule addDecl_inv [OF i1, where s = t])
    show "sd_origin t \<notin> (\<lambda>a. sd_origin (the (tc_subs c1 a))) ` set (tc_regions c1 (InstanceRegion p))" if "InstanceRegion p = InstanceRegion q" for q
      using assms(3) origins by (simp add: c1_def t_def)
  qed (use unlisted in \<open>auto simp: c1_def t_def\<close>)
  moreover have "keepsDecls c c'" using fresh by (auto simp: keepsDecls_def c' c1_def addDecl_def sameDecl_def)
  moreover have "sd_origin (the (tc_subs c1 (tc_next c))) = Some d" by (simp add: c1_def t_def)
  ultimately show ?thesis using origins by (simp add: c' addDecl_def c1_def)
qed

lemma addDeclarationsUsingRewrites_inv:
  assumes "addDeclarationsUsingRewrites p ds c = Some c'" "checker_inv c" "set ds \<subseteq> set (tc_regions c (PackageRegion p))"
    "distinct ds" "Some ` set ds \<inter> (\<lambda>a. sd_origin (the (tc_subs c a))) ` set (tc_regions c (InstanceRegion p)) = {}"
  shows "checker_inv c' \<and> keepsDecls c c' \<and> tc_scope c' = tc_scope c \<and> tc_region c' = tc_region c \<and>
    tc_packages c' = tc_packages c \<and> tc_current c' = tc_current c \<and> tc_next c \<le> tc_next c' \<and>
    (\<forall>r. r \<noteq> InstanceRegion p \<longrightarrow> tc_regions c' r = tc_regions c r)"
  using assms
proof (induction p ds c rule: addDeclarationsUsingRewrites.induct)
  case (1 p c)
  then show ?case by simp
next
  case (2 p d ds c)
  obtain c1 where c1: "rewriteDecl p d c = Some c1" "addDeclarationsUsingRewrites p ds c1 = Some c'"
    using 2(2) by (auto split: option.splits)
  have "Some d \<notin> (\<lambda>a. sd_origin (the (tc_subs c a))) ` set (tc_regions c (InstanceRegion p))"
    using 2(6) by auto
  note l = rewriteDecl_inv [OF 2(3) _ this c1(1)]
  have r: "tc_regions c1 (PackageRegion p) = tc_regions c (PackageRegion p)" using l 2(4) by auto
  have disj: "Some ` set ds \<inter> (\<lambda>a. sd_origin (the (tc_subs c1 a))) ` set (tc_regions c1 (InstanceRegion p)) = {}"
    using l 2(4,5,6) by auto
  note m = 2(1) [OF c1 _ _ _ disj]
  show ?case using l m r 2(4,5) keepsDecls_trans [of c c1 c'] by auto
qed

lemma getInstance_within:
  assumes "run_inv c" "getInstance p c = Some c'"
  shows "run_within c c'"
proof -
  obtain k where k: "tc_packages c p = Some k" using assms(2) by (auto simp: getInstance_def split: option.splits)
  show ?thesis
  proof (cases "pk_instance k")
    case True
    then show ?thesis using assms k by (simp add: getInstance_def run_within_refl)
  next
    case False
    define c0 where "c0 = c\<lparr>tc_packages := (tc_packages c)(p \<mapsto> k\<lparr>pk_instance := True\<rparr>)\<rparr>"
    have i: "checker_inv c" "packages_inv c" "publicHead c" using assms(1) by (simp_all add: run_inv_def)
    have i0: "checker_inv c0" using checker_invD(5,6) [OF i(1)] by (intro checker_inv_frame [OF i(1)]) (auto simp: c0_def)
    have none: "tc_regions c (InstanceRegion p) = []" using i(2) k False by (simp add: packages_inv_def)
    have run: "addDeclarationsUsingRewrites p (tc_regions c (PackageRegion p)) c0 = Some c'"
      using assms(2) k False by (simp add: getInstance_def c0_def)
    have l: "checker_inv c'" "keepsDecls c0 c'" "tc_scope c' = tc_scope c" "tc_region c' = tc_region c"
      "tc_packages c' = (tc_packages c)(p \<mapsto> k\<lparr>pk_instance := True\<rparr>)" "tc_current c' = tc_current c" "tc_next c \<le> tc_next c'"
      "\<And>r. r \<noteq> InstanceRegion p \<Longrightarrow> tc_regions c' r = tc_regions c r"
      using addDeclarationsUsingRewrites_inv [OF run i0] regions_invD(1) [OF checker_invD(3) [OF i(1)]] none
      by (auto simp: c0_def)
    have keeps: "keepsDecls c c'" using l(2) by (simp add: c0_def keepsDecls_def)
    have "withinRegion c c'" using l k keeps by (auto simp: withinRegion_def)
    moreover have "publicHead c'"
      using i(3) l(3,4) keeps unfolding publicHead_def keepsDecls_def sameDecl_def by (metis (no_types, lifting))
    moreover have "packages_inv c'"
      unfolding packages_inv_def
    proof (intro conjI allI impI)
      fix q k' assume "tc_packages c' q = Some k'"
      then show "q < tc_next c'" using i(2) k l(5,7) by (auto simp: packages_inv_def split: if_splits intro: less_le_trans)
    next
      fix q assume q: "\<forall>k'. tc_packages c' q = Some k' \<longrightarrow> \<not> pk_instance k'"
      then have "q \<noteq> p" using l(5) by auto
      then show "tc_regions c' (InstanceRegion q) = []" using i(2) q l(5,8) by (auto simp: packages_inv_def)
    qed
    ultimately show ?thesis using l(1) by (simp add: run_within_def run_inv_def)
  qed
qed

lemma referToPackage_within: "run_inv c \<Longrightarrow> referToPackage p c = Some c' \<Longrightarrow> run_within c c'"
  by (auto simp: referToPackage_def getInstance_within run_within_refl split: if_splits)

section \<open>Bodies of subroutines\<close>

lemma addDirectDeclNoConflicts_added:
  assumes "addDirectDeclNoConflicts n sc = Some sc'" "nodes_inv subs (so_entries sc)" "so_entries sc \<noteq> []"
    "denotesSubroutineDecl n \<Longrightarrow> \<exists>s. subs (declId n) = Some s \<and> n = subNode (declId n) s \<and> sd_origin s = None"
  shows "nodes_inv subs (so_entries sc')" "so_entries sc' \<noteq> []" "tl (so_entries sc') = tl (so_entries sc)"
    "set (en_direct (hd (so_entries sc'))) = insert n (set (en_direct (hd (so_entries sc))))"
proof -
  have a: "fst (addDirectDecl n sc) = None" "sc' = snd (addDirectDecl n sc)"
    using assms(1) by (auto simp: addDirectDeclNoConflicts_def addDirectDecl_def split: if_splits)
  obtain e where e: "so_entries sc' = e # tl (so_entries sc)" "set (en_direct e) = insert n (set (en_direct (hd (so_entries sc))))"
    using addDirectDecl_added [OF a(1) assms(3)] unfolding a(2) by blast
  show "nodes_inv subs (so_entries sc')" using nodes_inv_added [OF assms(2,3) a(1) assms(4)] unfolding a(2) .
  show "so_entries sc' \<noteq> []" "tl (so_entries sc') = tl (so_entries sc)"
    "set (en_direct (hd (so_entries sc'))) = insert n (set (en_direct (hd (so_entries sc))))"
    by (simp_all add: e)
qed

lemma addParamNodes_added:
  assumes "addParamNodes ps sc = Some sc'" "nodes_inv subs (so_entries sc)" "so_entries sc \<noteq> []"
  shows "nodes_inv subs (so_entries sc') \<and> so_entries sc' \<noteq> [] \<and> tl (so_entries sc') = tl (so_entries sc)"
  using assms
proof (induction ps sc rule: addParamNodes.induct)
  case (1 s)
  then show ?case by simp
next
  case (2 p ps s)
  obtain s1 where s1: "addDirectDeclNoConflicts (paramNode p) s = Some s1" "addParamNodes ps s1 = Some sc'"
    using 2(2) by (auto split: option.splits)
  note l = addDirectDeclNoConflicts_added [OF s1(1) 2(3,4)]
  have "nodes_inv subs (so_entries sc') \<and> so_entries sc' \<noteq> [] \<and> tl (so_entries sc') = tl (so_entries s1)"
    by (rule 2(1) [OF s1]) (use l in auto)
  then show ?case using l by auto
qed

lemma pushSubroutineScope_added:
  assumes "pushSubroutineScope d s sc = Some sc'" "nodes_inv subs (so_entries sc)" "subs d = Some s" "sd_origin s = None"
  shows "nodes_inv subs (so_entries sc') \<and> so_entries sc' \<noteq> [] \<and> tl (so_entries sc') = so_entries sc"
proof -
  obtain sc1 where sc1: "addDirectDeclNoConflicts (subNode d s) (pushScope SUBROUTINE_SCOPE sc) = Some sc1"
    "addParamNodes (sd_params s) sc1 = Some sc'"
    using assms(1) by (auto simp: pushSubroutineScope_def split: option.splits)
  have p: "nodes_inv subs (so_entries (pushScope SUBROUTINE_SCOPE sc))" "so_entries (pushScope SUBROUTINE_SCOPE sc) \<noteq> []"
    "tl (so_entries (pushScope SUBROUTINE_SCOPE sc)) = so_entries sc"
    using assms(2) by (simp_all add: pushScope_def)
  note l = addDirectDeclNoConflicts_added [OF sc1(1) p(1,2)]
  show ?thesis using addParamNodes_added [OF sc1(2) l(1,2)] l(3) p(3) assms(3,4) by auto
qed

lemma popScope_entries: "popScope sc = Some sc' \<Longrightarrow> so_entries sc' = tl (so_entries sc)"
  by (auto simp: popScope_def split: list.splits option.splits)

lemma run_inv_frame:
  assumes "run_inv c" "checker_inv c'" "tc_packages c' = tc_packages c" "tc_regions c' = tc_regions c" "tc_next c \<le> tc_next c'"
    "publicHead c'"
  shows "run_inv c'"
  using assms packages_inv_same [of c c'] by (simp add: run_inv_def)

lemma publicHead_keeps:
  assumes "publicHead c" "keepsDecls c c'" "tc_region c' = tc_region c" "tc_scope c' = tc_scope c"
  shows "publicHead c'"
  unfolding publicHead_def
proof (intro allI impI ballI)
  fix p n assume "tc_region c' = Some (PackageRegion p)" "n \<in> set (en_direct (hd (so_entries (tc_scope c'))))"
    "denotesSubroutineDecl n"
  then obtain s where "tc_subs c (declId n) = Some s" "sd_region s = Some (PackageRegion p)"
    using assms(1,3,4) by (auto simp: publicHead_def)
  then show "\<exists>s. tc_subs c' (declId n) = Some s \<and> sd_region s = Some (PackageRegion p)"
    using assms(2) by (fastforce simp: keepsDecls_def sameDecl_def)
qed

lemma publicHead_vacuous: "(\<And>p. tc_region c \<noteq> Some (PackageRegion p)) \<Longrightarrow> publicHead c"
  by (simp add: publicHead_def)

lemma nodes_inv_tl: "nodes_inv subs es \<Longrightarrow> nodes_inv subs (tl es)"
  by (cases es) auto

text \<open>The body of a subroutine is entered.\<close>

lemma beginSubroutineDefinition_inv:
  assumes "run_inv c" "beginSubroutineDefinition d c = Some c'" "tc_subs c d = Some s" "sd_origin s = None"
  shows "run_inv c' \<and> keepsDecls c c' \<and> tc_region c' = Some (BlockRegion d) \<and> tl (so_entries (tc_scope c')) = so_entries (tc_scope c) \<and>
    tc_packages c' = tc_packages c \<and> tc_current c' = tc_current c \<and> tc_next c' = tc_next c"
proof -
  obtain sc where sc: "pushSubroutineScope d s (tc_scope c) = Some sc"
    and c': "c' = c\<lparr>tc_scope := sc, tc_subs := (tc_subs c)(d \<mapsto> s\<lparr>sd_body := True\<rparr>), tc_region := Some (BlockRegion d)\<rparr>"
    using assms(2,3) by (auto simp: beginSubroutineDefinition_def split: option.splits if_splits)
  have i: "checker_inv c" using assms(1) by (simp add: run_inv_def)
  have same: "sameLinks s (s\<lparr>sd_body := True\<rparr>)" by (simp add: sameLinks_def sameDecl_def)
  define c1 where "c1 = c\<lparr>tc_subs := (tc_subs c)(d \<mapsto> s\<lparr>sd_body := True\<rparr>)\<rparr>"
  have i1: "checker_inv c1" and k1: "keepsDecls c c1"
    unfolding c1_def by (rule sameLinks_update [OF i assms(3) same]) (rule sameLinks_keeps [OF assms(3) same])
  have sc2: "nodes_inv (tc_subs c) (so_entries sc)" "so_entries sc \<noteq> []" "tl (so_entries sc) = so_entries (tc_scope c)"
    using pushSubroutineScope_added [OF sc checker_invD(5) [OF i] assms(3,4)] by simp_all
  have "nodes_inv (tc_subs c1) (so_entries sc)"
    by (rule nodes_inv_keeps [OF sc2(1)]) (use k1 in \<open>auto simp: keepsDecls_def\<close>)
  then have i': "checker_inv c'" using sc2 by (intro checker_inv_frame [OF i1]) (auto simp: c' c1_def)
  have "run_inv c'" by (rule run_inv_frame [OF assms(1) i']) (simp_all add: c' publicHead_vacuous)
  moreover have "keepsDecls c c'" using k1 by (simp add: keepsDecls_def c' c1_def)
  ultimately show ?thesis using sc2 by (simp add: c')
qed

text \<open>The body is left: the region is the one the declaration is in, the scopes are those of before.\<close>

lemma endSubroutine_inv:
  assumes "run_inv c" "tc_region c = Some (BlockRegion d)" "endSubroutineBody c = Some c1" "endSubroutineDefinition c1 = Some c'"
    "tc_subs c d = Some s" "sd_origin s = None" "sd_region s = Some r" "\<And>p. r \<noteq> PackageRegion p"
    "tl (so_entries (tc_scope c)) \<noteq> []"
  shows "run_inv c' \<and> tc_subs c' = tc_subs c \<and> tc_region c' = Some r \<and> so_entries (tc_scope c') = tl (so_entries (tc_scope c)) \<and>
    tc_packages c' = tc_packages c \<and> tc_current c' = tc_current c \<and> tc_next c' = tc_next c"
proof -
  have i: "checker_inv c" using assms(1) by (simp add: run_inv_def)
  obtain sc sc1 where sc: "popScope (tc_scope c) = Some sc" "pushSubroutineScope d s sc = Some sc1"
    and c1: "c1 = c\<lparr>tc_region := Some (SubroutineRegion d), tc_scope := sc1\<rparr>"
    using assms(2,3,5) by (auto simp: endSubroutineBody_def popDeclarativeRegion_def getParent_def split: option.splits)
  obtain sc2 where sc2: "popScope sc1 = Some sc2" and c': "c' = c1\<lparr>tc_region := Some r, tc_scope := sc2\<rparr>"
    using assms(4,5,7) by (auto simp: endSubroutineDefinition_def popDeclarativeRegion_def getParent_def c1 split: if_splits option.splits)
  have n: "nodes_inv (tc_subs c) (so_entries sc)"
    using popScope_entries [OF sc(1)] nodes_inv_tl [OF checker_invD(5) [OF i]] by simp
  have "tl (so_entries sc1) = so_entries sc" using pushSubroutineScope_added [OF sc(2) n assms(5,6)] by simp
  then have e: "so_entries sc2 = tl (so_entries (tc_scope c))" using popScope_entries [OF sc(1)] popScope_entries [OF sc2] by simp
  have i': "checker_inv c'"
    using e nodes_inv_tl [OF checker_invD(5) [OF i]] assms(9) by (intro checker_inv_frame [OF i]) (auto simp: c' c1)
  have "run_inv c'" by (rule run_inv_frame [OF assms(1) i']) (use assms(8) in \<open>simp_all add: c' c1 publicHead_vacuous\<close>)
  then show ?thesis using e by (simp add: c' c1)
qed

section \<open>Lists of items\<close>

lemma acceptPragmaImport_cases:
  assumes "acceptPragmaImport convention entity name c = Some c'"
  shows "(\<exists>x. c' = reportRegion x c) \<or> c' = c \<or>
    (\<exists>d s n. tc_subs c d = Some s \<and> c' = c\<lparr>tc_subs := (tc_subs c)(d \<mapsto> s\<lparr>sd_import := Some n\<rparr>)\<rparr>)"
  using assms unfolding acceptPragmaImport_def Let_def by (simp split: if_splits option.splits prod.splits) blast+

lemma acceptPragmaImport_within:
  assumes "run_inv c" "acceptPragmaImport convention entity name c = Some c'"
  shows "run_within c c'"
proof -
  have i: "checker_inv c" using assms(1) by (simp add: run_inv_def)
  have rep: "run_within c (reportRegion x c)" for x
  proof -
    have "checker_inv (reportRegion x c)" using checker_invD(5,6) [OF i] by (intro checker_inv_frame [OF i]) (auto simp: reportRegion_def)
    then have "run_inv (reportRegion x c)"
      using assms(1) by (intro run_inv_frame [OF assms(1)]) (auto simp: run_inv_def publicHead_def reportRegion_def)
    then show ?thesis by (simp add: run_within_def withinRegion_def reportRegion_def keepsDecls_same)
  qed
  from acceptPragmaImport_cases [OF assms(2)] consider x where "c' = reportRegion x c" | "c' = c"
    | d s n where "tc_subs c d = Some s" "c' = c\<lparr>tc_subs := (tc_subs c)(d \<mapsto> s\<lparr>sd_import := Some n\<rparr>)\<rparr>"
    by blast
  then show ?thesis
  proof cases
    case (3 d s n)
    have same: "sameLinks s (s\<lparr>sd_import := Some n\<rparr>)" by (simp add: sameLinks_def sameDecl_def)
    have i': "checker_inv c'" and k: "keepsDecls c c'"
      unfolding 3(2) by (rule sameLinks_update [OF i 3(1) same]) (rule sameLinks_keeps [OF 3(1) same])
    have "publicHead c'"
      by (rule publicHead_keeps [of c]) (use assms(1) k in \<open>simp_all add: run_inv_def 3(2)\<close>)
    then have "run_inv c'" by (intro run_inv_frame [OF assms(1) i']) (simp_all add: 3(2))
    then show ?thesis using k by (simp add: run_within_def withinRegion_def 3(2))
  qed (use rep assms(1) run_within_refl in auto)
qed

lemma runSpecItems_within:
  assumes "runSpecItems is c = Some c'" "run_inv c" "tc_region c = Some r" "\<And>p. r \<noteq> InstanceRegion p"
  shows "run_within c c'"
  using assms
proof (induction "is" c rule: runSpecItems.induct)
  case (1 c)
  then show ?case by (simp add: run_within_refl)
next
  case (2 definitionFollows sp "is" c)
  obtain res c1 where c1: "declareSubroutine definitionFollows sp c = Some (res, c1)" "runSpecItems is c1 = Some c'"
    using 2(2) by (auto split: option.splits)
  have w: "run_within c c1" by (rule declareSubroutine_within(1) [OF 2(3-5) c1(1)])
  have "run_within c1 c'"
    using 2(1) [OF c1(1) refl c1(2)] w 2(4,5) by (auto simp: run_within_def withinRegion_def)
  with w show ?case by (rule run_within_trans)
next
  case (3 p "is" c)
  obtain c1 where c1: "referToPackage p c = Some c1" "runSpecItems is c1 = Some c'"
    using 3(2) by (auto split: option.splits)
  have w: "run_within c c1" by (rule referToPackage_within [OF 3(3) c1(1)])
  have "run_within c1 c'"
    using 3(1) [OF c1] w 3(4,5) by (auto simp: run_within_def withinRegion_def)
  with w show ?case by (rule run_within_trans)
qed

text \<open>The private part and the bodies: the declarations are not those of the public part.\<close>

definition bodyRegion :: "region \<Rightarrow> bool" where
  "bodyRegion r \<longleftrightarrow> (case r of PackageRegion p \<Rightarrow> False | InstanceRegion p \<Rightarrow> False | _ \<Rightarrow> True)"

lemma bodyRegionD: "bodyRegion r \<Longrightarrow> r \<noteq> PackageRegion p" "bodyRegion r \<Longrightarrow> r \<noteq> InstanceRegion p"
  by (auto simp: bodyRegion_def)

lemma runItems_within:
  assumes "runItems is c = Some c'" "run_inv c" "tc_region c = Some r" "bodyRegion r"
  shows "run_within c c'"
  using assms
proof (induction "is" c arbitrary: r c' rule: runItems.induct)
  case (1 c)
  then show ?case by (simp add: run_within_refl)
next
  case (2 definitionFollows sp "is" c)
  obtain res c1 where c1: "declareSubroutine definitionFollows sp c = Some (res, c1)" "runItems is c1 = Some c'"
    using 2(2) by (auto split: option.splits)
  have w: "run_within c c1" by (rule declareSubroutine_within(1) [OF 2(3,4) bodyRegionD(2) [OF 2(5)] c1(1)])
  have "run_within c1 c'"
    using 2(1) [OF c1(1) refl c1(2)] w 2(4,5) by (auto simp: run_within_def withinRegion_def)
  with w show ?case by (rule run_within_trans)
next
  case (3 sp body "is" c)
  obtain res c1 where c1: "declareSubroutine True sp c = Some (res, c1)" using 3(4) by (auto split: option.splits)
  note w = declareSubroutine_within [OF 3(5,6) bodyRegionD(2) [OF 3(7)] c1]
  have r1: "run_inv c1" "tc_region c1 = Some r" using w(1) 3(6) by (auto simp: run_within_def withinRegion_def)
  show ?case
  proof (cases res)
    case None
    then have "runItems is c1 = Some c'" using 3(4) c1 by simp
    then show ?thesis using 3(1) [OF c1 refl None _ r1 3(7)] run_within_trans [OF w(1)] by blast
  next
    case (Some d)
    obtain c2 c3 c4 c5 where s: "beginSubroutineDefinition d c1 = Some c2" "runItems body c2 = Some c3"
      "endSubroutineBody c3 = Some c4" "endSubroutineDefinition c4 = Some c5" "runItems is c5 = Some c'"
      using 3(4) c1 Some by (auto split: option.splits)
    obtain u where u: "tc_subs c1 d = Some u" "sd_region u = Some r" "sd_origin u = None" using w(2) [OF Some] by blast
    note b = beginSubroutineDefinition_inv [OF r1(1) s(1) u(1,3)]
    have w3: "run_within c2 c3"
      by (rule 3(2) [OF c1 refl Some s(1,2)]) (use b in \<open>auto simp: bodyRegion_def\<close>)
    have k3: "keepsDecls c1 c3" using b w3 keepsDecls_trans [of c1 c2 c3] by (auto simp: run_within_def withinRegion_def)
    obtain v where v: "tc_subs c3 d = Some v" "sameDecl u v" using k3 u(1) by (auto simp: keepsDecls_def)
    have e3: "tl (so_entries (tc_scope c3)) = so_entries (tc_scope c1)" using b w3 by (simp add: run_within_def withinRegion_def)
    have ne: "so_entries (tc_scope c1) \<noteq> []" using r1(1) by (simp add: run_inv_def checker_inv_def)
    have e: "run_inv c5 \<and> tc_subs c5 = tc_subs c3 \<and> tc_region c5 = Some r \<and> so_entries (tc_scope c5) = tl (so_entries (tc_scope c3)) \<and>
        tc_packages c5 = tc_packages c3 \<and> tc_current c5 = tc_current c3 \<and> tc_next c5 = tc_next c3"
    proof (rule endSubroutine_inv [OF _ _ s(3,4) v(1)])
      show "run_inv c3" "tc_region c3 = Some (BlockRegion d)" using b w3 by (auto simp: run_within_def withinRegion_def)
      show "sd_origin v = None" "sd_region v = Some r" using u v(2) by (simp_all add: sameDecl_def)
      show "r \<noteq> PackageRegion p" for p using bodyRegionD(1) [OF 3(7)] .
      show "tl (so_entries (tc_scope c3)) \<noteq> []" using e3 ne by simp
    qed
    have k5: "keepsDecls c1 c5" using k3 e by (simp add: keepsDecls_def)
    have "withinRegion c1 c5"
      unfolding withinRegion_def
    proof (intro conjI)
      show "\<forall>p k. tc_packages c1 p = Some k \<longrightarrow> (\<exists>k'. tc_packages c5 p = Some k' \<and> pk_name k' = pk_name k \<and> pk_private k' = pk_private k)"
        using e b w3 by (simp add: run_within_def withinRegion_def)
      show "tc_next c1 \<le> tc_next c5" "tc_current c5 = tc_current c1" using e b w3 by (simp_all add: run_within_def withinRegion_def)
    qed (use k5 e e3 r1(2) in simp_all)
    then have "run_within c1 c5" using e by (simp add: run_within_def)
    moreover have "run_within c5 c'"
      using 3(3) [OF c1 refl Some s _ _ 3(7)] e by blast
    ultimately show ?thesis using w(1) run_within_trans by blast
  qed
next
  case (4 convention entity name "is" c)
  obtain c1 where c1: "acceptPragmaImport convention entity name c = Some c1" "runItems is c1 = Some c'"
    using 4(2) by (auto split: option.splits)
  have w: "run_within c c1" by (rule acceptPragmaImport_within [OF 4(3) c1(1)])
  have "run_within c1 c'"
    using 4(1) [OF c1] w 4(4,5) by (auto simp: run_within_def withinRegion_def)
  with w show ?case by (rule run_within_trans)
next
  case (5 p "is" c)
  obtain c1 where c1: "referToPackage p c = Some c1" "runItems is c1 = Some c'"
    using 5(2) by (auto split: option.splits)
  have w: "run_within c c1" by (rule referToPackage_within [OF 5(3) c1(1)])
  have "run_within c1 c'"
    using 5(1) [OF c1] w 5(4,5) by (auto simp: run_within_def withinRegion_def)
  with w show ?case by (rule run_within_trans)
qed

end
