(* ===== verification/PackageUnits.thy ===== *)
theory PackageUnits
  imports PackagesRun
begin

text \<open>
  Packages and compilation units: the invariant of \<open>PackagesSpec\<close> holds after every run of the checker, what an
  accepted body guarantees, and what happens to later bodies.
\<close>

section \<open>Package specifications\<close>

text \<open>Between packages only the outermost scope is open, and it has no subroutines.\<close>

definition top_inv :: "checker \<Rightarrow> bool" where
  "top_inv c \<longleftrightarrow> checker_inv c \<and> packages_inv c \<and> tl (so_entries (tc_scope c)) = [] \<and>
     (\<forall>n \<in> set (en_direct (hd (so_entries (tc_scope c)))). \<not> denotesSubroutineDecl n)"

lemma top_inv_run: "top_inv c \<Longrightarrow> run_inv c"
  by (simp add: top_inv_def run_inv_def publicHead_def)

lemma top_inv_frame:
  assumes "run_inv c" "tc_subs c' = tc_subs c" "tc_regions c' = tc_regions c" "tc_packages c' = tc_packages c" "tc_next c' = tc_next c"
    "so_entries (tc_scope c') = [e]" "\<forall>n \<in> set (en_direct e). \<not> denotesSubroutineDecl n"
  shows "top_inv c'"
proof -
  have i: "checker_inv c" "packages_inv c" using assms(1) by (simp_all add: run_inv_def)
  have "checker_inv c'" using assms by (intro checker_inv_frame [OF i(1)]) auto
  then show ?thesis using i(2) assms by (simp add: top_inv_def packages_inv_def)
qed

lemma beginPackageSpec_inv:
  assumes "top_inv c" "beginPackageSpec name c = Some c'"
  shows "run_inv c' \<and> tc_region c' = Some (PackageRegion (tc_next c)) \<and> tc_current c' = Some (tc_next c) \<and>
    tl (so_entries (tc_scope c')) = so_entries (tc_scope c) \<and> keepsDecls c c'"
proof -
  let ?p = "tc_next c"
  define k where "k = \<lparr>pk_name = name, pk_private = False, pk_body = False, pk_instance = False\<rparr>"
  obtain sc where sc: "addDirectDeclNoConflicts (packageNode ?p k) (pushScope PACKAGE_SCOPE (tc_scope c)) = Some sc"
    and c': "c' = c\<lparr>tc_packages := (tc_packages c)(?p \<mapsto> k), tc_next := ?p + 1, tc_scope := sc,
      tc_current := Some ?p, tc_region := Some (PackageRegion ?p)\<rparr>"
    using assms(2) unfolding beginPackageSpec_def Let_def k_def [symmetric] by (auto split: option.splits)
  have i: "checker_inv c" "packages_inv c" using assms(1) by (simp_all add: top_inv_def)
  have p: "nodes_inv (tc_subs c) (so_entries (pushScope PACKAGE_SCOPE (tc_scope c)))"
    "so_entries (pushScope PACKAGE_SCOPE (tc_scope c)) \<noteq> []"
    using checker_invD(5) [OF i(1)] by (simp_all add: pushScope_def)
  note l = addDirectDeclNoConflicts_added [OF sc p]
  have n: "nodes_inv (tc_subs c) (so_entries sc)" "so_entries sc \<noteq> []" "tl (so_entries sc) = so_entries (tc_scope c)"
    "set (en_direct (hd (so_entries sc))) = {packageNode ?p k}"
    using l by (simp_all add: pushScope_def)
  have "checker_inv c'" using n by (intro checker_inv_frame [OF i(1)]) (auto simp: c')
  moreover have "tc_packages c ?p = None" using i(2) unfolding packages_inv_def by (cases "tc_packages c ?p") auto
  then have "packages_inv c'" using i(2) by (auto simp: packages_inv_def c' k_def intro: less_SucI)
  moreover have "publicHead c'" using n(4) by (simp add: publicHead_def c')
  ultimately show ?thesis using n(3) by (simp add: run_inv_def c' keepsDecls_same)
qed

lemma beginPackagePrivatePart_inv:
  assumes "run_inv c" "beginPackagePrivatePart c = Some c'" "tc_current c = Some p"
  shows "run_inv c' \<and> tc_region c' = Some (PrivateRegion p) \<and> tc_current c' = Some p \<and> tc_scope c' = tc_scope c \<and> tc_subs c' = tc_subs c \<and>
    tc_regions c' = tc_regions c"
proof -
  obtain k where k: "tc_packages c p = Some k"
    and c': "c' = c\<lparr>tc_packages := (tc_packages c)(p \<mapsto> k\<lparr>pk_private := True\<rparr>), tc_region := Some (PrivateRegion p)\<rparr>"
    using assms(2,3) by (auto simp: beginPackagePrivatePart_def split: option.splits if_splits)
  have i: "checker_inv c" "packages_inv c" using assms(1) by (simp_all add: run_inv_def)
  have "checker_inv c'" using checker_invD(5,6) [OF i(1)] by (intro checker_inv_frame [OF i(1)]) (auto simp: c')
  moreover have "packages_inv c'" using i(2) k by (auto simp: packages_inv_def c')
  ultimately show ?thesis using assms(3) by (simp add: run_inv_def c' publicHead_def)
qed

lemma endPackageSpec_inv:
  assumes "run_inv c" "endPackageSpec c = Some c'" "tl (so_entries (tc_scope c)) = [e]"
    "\<forall>n \<in> set (en_direct e). \<not> denotesSubroutineDecl n"
  shows "top_inv c' \<and> tc_region c' = None \<and> tc_subs c' = tc_subs c \<and> tc_regions c' = tc_regions c"
proof -
  obtain sc p k where sc: "popScope (tc_scope c) = Some sc" "tc_current c = Some p" "tc_packages c p = Some k"
    and c': "c' = (case addDirectDecl (packageNode p k) sc of
         (Some conflict, _) \<Rightarrow> reportRegion (CONFLICTING_DECLARATION (pk_name k)) (c\<lparr>tc_scope := sc\<rparr>)
       | (None, sc1) \<Rightarrow> c\<lparr>tc_scope := sc1, tc_unit := tc_unit c @ [p]\<rparr>)\<lparr>tc_region := None, tc_current := None\<rparr>"
    using assms(2) by (auto simp: endPackageSpec_def getParent_def packageOf_def Let_def split: option.splits if_splits prod.splits)
  have e: "so_entries sc = [e]" using popScope_entries [OF sc(1)] assms(3) by simp
  have "\<exists>e'. so_entries (tc_scope c') = [e'] \<and> set (en_direct e') \<subseteq> insert (packageNode p k) (set (en_direct e)) \<and>
    tc_subs c' = tc_subs c \<and> tc_regions c' = tc_regions c \<and> tc_packages c' = tc_packages c \<and> tc_next c' = tc_next c \<and> tc_region c' = None"
  proof (cases "fst (addDirectDecl (packageNode p k) sc)")
    case None
    obtain e' where "so_entries (snd (addDirectDecl (packageNode p k) sc)) = e' # []" "set (en_direct e') = insert (packageNode p k) (set (en_direct e))"
      using addDirectDecl_added [OF None] e by auto
    then show ?thesis using None unfolding c' by (cases "addDirectDecl (packageNode p k) sc") auto
  next
    case (Some conflict)
    then show ?thesis using e unfolding c' by (cases "addDirectDecl (packageNode p k) sc") (auto simp: reportRegion_def)
  qed
  then obtain e' where e': "so_entries (tc_scope c') = [e']" "set (en_direct e') \<subseteq> insert (packageNode p k) (set (en_direct e))"
    "tc_subs c' = tc_subs c" "tc_regions c' = tc_regions c" "tc_packages c' = tc_packages c" "tc_next c' = tc_next c" "tc_region c' = None"
    by blast
  have "top_inv c'" by (rule top_inv_frame [OF assms(1) e'(3-6,1)]) (use e'(2) assms(4) in auto)
  then show ?thesis using e' by simp
qed

section \<open>Package bodies\<close>

lemma introduceDecls_inv:
  assumes "introduceDecls ds c = Some c'" "checker_inv c"
    "\<And>d. d \<in> set ds \<Longrightarrow> \<exists>s. tc_subs c d = Some s \<and> sd_origin s = None"
  shows "checker_inv c' \<and> (\<exists>sc. c' = c\<lparr>tc_scope := sc\<rparr>) \<and> tl (so_entries (tc_scope c')) = tl (so_entries (tc_scope c))"
  using assms
proof (induction ds c rule: introduceDecls.induct)
  case (1 c)
  then show ?case by (auto intro: exI [of _ "tc_scope c"])
next
  case (2 d ds c)
  obtain s where s: "tc_subs c d = Some s" "sd_origin s = None" using 2(4) by auto
  obtain sc where sc: "addDirectDecl (subNode d s) (tc_scope c) = (None, sc)" "introduceDecls ds (c\<lparr>tc_scope := sc\<rparr>) = Some c'"
    using 2(2) s by (auto split: option.splits prod.splits)
  have none: "fst (addDirectDecl (subNode d s) (tc_scope c)) = None" using sc by simp
  obtain e where e: "so_entries sc = e # tl (so_entries (tc_scope c))"
    using addDirectDecl_added [OF none checker_invD(6) [OF 2(3)]] sc by auto
  have "nodes_inv (tc_subs c) (so_entries sc)"
    using nodes_inv_added [OF checker_invD(5,6) [OF 2(3)] none] sc s by simp
  then have i: "checker_inv (c\<lparr>tc_scope := sc\<rparr>)" using e by (intro checker_inv_frame [OF 2(3)]) auto
  have "checker_inv c' \<and> (\<exists>sc2. c' = (c\<lparr>tc_scope := sc\<rparr>)\<lparr>tc_scope := sc2\<rparr>) \<and> tl (so_entries (tc_scope c')) = tl (so_entries sc)"
    using 2(1) [OF s(1) sc(1) [symmetric] refl sc(2) i] 2(4) by simp
  then show ?case using e by auto
qed

lemma introduceDeclRegion_inv:
  assumes "introduceDeclRegion r c = Some c'" "checker_inv c" "\<And>p. r \<noteq> InstanceRegion p"
  shows "checker_inv c' \<and> (\<exists>sc. c' = c\<lparr>tc_scope := sc\<rparr>) \<and> tl (so_entries (tc_scope c')) = tl (so_entries (tc_scope c))"
proof (rule introduceDecls_inv [OF _ assms(2)])
  show "introduceDecls (tc_regions c r) c = Some c'" using assms(1) by (simp add: introduceDeclRegion_def)
  fix d assume "d \<in> set (tc_regions c r)"
  then obtain s where "tc_subs c d = Some s" "sd_region s = Some r" using regions_invD(2) [OF checker_invD(3) [OF assms(2)]] by blast
  then show "\<exists>s. tc_subs c d = Some s \<and> sd_origin s = None"
    using instances_invD(1) [OF checker_invD(4) [OF assms(2)], of d s] assms(3) by simp
qed

lemma enterPackageBody_inv:
  assumes "enterPackageBody p k c = Some c'" "top_inv c" "tc_packages c p = Some k"
  shows "run_inv c' \<and> (\<exists>sc. c' = c\<lparr>tc_packages := (tc_packages c)(p \<mapsto> k\<lparr>pk_body := True\<rparr>), tc_current := Some p,
      tc_region := Some (BodyRegion p), tc_scope := sc\<rparr>) \<and> tl (so_entries (tc_scope c')) = so_entries (tc_scope c)"
proof -
  have i: "checker_inv c" "packages_inv c" using assms(2) by (simp_all add: top_inv_def)
  define c0 where "c0 = c\<lparr>tc_packages := (tc_packages c)(p \<mapsto> k\<lparr>pk_body := True\<rparr>),
               tc_scope := pushScope PACKAGE_SCOPE (tc_scope c), tc_current := Some p, tc_region := Some (BodyRegion p)\<rparr>"
  have i0: "checker_inv c0"
    using checker_invD(5) [OF i(1)] by (intro checker_inv_frame [OF i(1)]) (auto simp: c0_def pushScope_def)
  obtain c1 where c1: "introduceDeclRegion (PackageRegion p) c0 = Some c1"
    "(if pk_private k then introduceDeclRegion (PrivateRegion p) c1 else Some c1) = Some c'"
    using assms(1) unfolding enterPackageBody_def c0_def [symmetric] by (auto split: option.splits)
  have l1: "checker_inv c1 \<and> (\<exists>sc. c1 = c0\<lparr>tc_scope := sc\<rparr>) \<and> tl (so_entries (tc_scope c1)) = tl (so_entries (tc_scope c0))"
    by (rule introduceDeclRegion_inv [OF c1(1) i0]) simp
  have "checker_inv c' \<and> (\<exists>sc. c' = c1\<lparr>tc_scope := sc\<rparr>) \<and> tl (so_entries (tc_scope c')) = tl (so_entries (tc_scope c1))"
  proof (cases "pk_private k")
    case True
    then show ?thesis using introduceDeclRegion_inv [of "PrivateRegion p" c1 c'] c1(2) l1 by simp
  next
    case False
    then show ?thesis using c1(2) l1 by (auto intro: exI [of _ "tc_scope c1"])
  qed
  then obtain sc where l2: "checker_inv c'" "c' = c0\<lparr>tc_scope := sc\<rparr>" "tl (so_entries (tc_scope c')) = so_entries (tc_scope c)"
    using l1 by (auto simp: c0_def pushScope_def)
  have "packages_inv c'" using i(2) assms(3) unfolding l2(2) c0_def by (auto simp: packages_inv_def)
  moreover have "publicHead c'" unfolding l2(2) c0_def by (simp add: publicHead_def)
  ultimately show ?thesis using l2 unfolding run_inv_def c0_def by auto
qed

lemma beginPackageBody_inv:
  assumes "beginPackageBody name c = Some (res, c')" "top_inv c"
  shows "if res then run_inv c' \<and> (\<exists>p k sc. tc_packages c p = Some k \<and> \<not> pk_body k \<and> tc_region c = None \<and>
      c' = c\<lparr>tc_packages := (tc_packages c)(p \<mapsto> k\<lparr>pk_body := True\<rparr>), tc_current := Some p,
        tc_region := Some (BodyRegion p), tc_scope := sc\<rparr>) \<and> tl (so_entries (tc_scope c')) = so_entries (tc_scope c)
    else \<exists>x. c' = reportRegion x c"
proof -
  from assms(1) consider (rep) x where "res = False" "c' = reportRegion x c"
    | (enter) p k where "res = True" "tc_packages c p = Some k" "\<not> pk_body k" "tc_region c = None" "enterPackageBody p k c = Some c'"
    unfolding beginPackageBody_def by (simp split: option.splits prod.splits if_splits) blast+
  then show ?thesis
  proof cases
    case (enter p k)
    then show ?thesis using enterPackageBody_inv [OF enter(5) assms(2) enter(2)] by auto
  qed auto
qed

lemma getParent_package: "getParent c (BodyRegion p) = Some r \<Longrightarrow> r = PrivateRegion p \<or> r = PackageRegion p"
  by (auto simp: getParent_def split: option.splits if_splits)

lemma endPackageBody_inv:
  assumes "run_inv c" "endPackageBody c = Some c'" "tc_region c = Some (BodyRegion p)" "tl (so_entries (tc_scope c)) = [e]"
    "\<forall>n \<in> set (en_direct e). \<not> denotesSubroutineDecl n"
  shows "top_inv c' \<and> tc_subs c' = tc_subs c \<and> tc_regions c' = tc_regions c \<and> tc_packages c' = tc_packages c \<and>
    (\<exists>k. tc_packages c p = Some k \<and> tc_region c' = (if pk_private k then Some (PackageRegion p) else None) \<and>
      tc_diags c' = tc_diags c @ missingExports c (pk_name k) (tc_regions c (PackageRegion p)))"
proof -
  obtain k r sc where k: "tc_packages c p = Some k" "getParent c (BodyRegion p) = Some r" "popScope (tc_scope c) = Some sc"
    and c': "c' = (snd (ensureExportConstraints p k c))\<lparr>tc_region := getParent c r, tc_current := packageOf (getParent c r), tc_scope := sc\<rparr>"
    using assms(2,3) by (auto simp: endPackageBody_def Let_def split: option.splits if_splits)
  have e: "so_entries sc = [e]" using popScope_entries [OF k(3)] assms(4) by simp
  have "top_inv c'"
    by (rule top_inv_frame [OF assms(1)]) (use e assms(5) in \<open>simp_all add: c' ensureExportConstraints_def Let_def\<close>)
  moreover have "getParent c r = (if pk_private k then Some (PackageRegion p) else None)"
    using k(1,2) by (auto simp: getParent_def)
  ultimately show ?thesis using k(1) by (simp add: c' ensureExportConstraints_def Let_def)
qed

section \<open>Compilation units\<close>

lemma top_entries:
  assumes "top_inv c"
  obtains e where "so_entries (tc_scope c) = [e]" "\<forall>n \<in> set (en_direct e). \<not> denotesSubroutineDecl n"
  using assms by (cases "so_entries (tc_scope c)") (auto simp: top_inv_def checker_inv_def)

lemma within_entries: "run_within c c' \<Longrightarrow> tl (so_entries (tc_scope c')) = tl (so_entries (tc_scope c)) \<and> tc_region c' = tc_region c \<and>
    tc_current c' = tc_current c \<and> keepsDecls c c' \<and> run_inv c'"
  by (simp add: run_within_def withinRegion_def)

lemma keepsDecls_reported [simp]: "keepsDecls c (reportRegion x c)"
  by (simp add: keepsDecls_def reportRegion_def sameDecl_def)

lemma top_inv_reported:
  assumes "top_inv c"
  shows "top_inv (reportRegion x c)"
proof -
  obtain e where "so_entries (tc_scope c) = [e]" "\<forall>n \<in> set (en_direct e). \<not> denotesSubroutineDecl n"
    using top_entries [OF assms] by blast
  then show ?thesis by (intro top_inv_frame [OF top_inv_run [OF assms]]) (simp_all add: reportRegion_def)
qed

lemma packageSpec_top:
  assumes "top_inv c" "runToplevel (PackageSpec name public private) c = Some c'"
  shows "top_inv c' \<and> keepsDecls c c'"
proof -
  obtain e where e: "so_entries (tc_scope c) = [e]" "\<forall>n \<in> set (en_direct e). \<not> denotesSubroutineDecl n"
    using top_entries [OF assms(1)] by blast
  obtain c1 c2 where s: "beginPackageSpec name c = Some c1" "runSpecItems public c1 = Some c2"
    using assms(2) by (auto simp: runToplevel_def split: option.splits)
  note b = beginPackageSpec_inv [OF assms(1) s(1)]
  have w: "run_within c1 c2" by (rule runSpecItems_within [OF s(2)]) (use b in auto)
  note w2 = within_entries [OF w]
  have k2: "keepsDecls c c2" using b w2 keepsDecls_trans by blast
  show ?thesis
  proof (cases "private")
    case None
    then have "endPackageSpec c2 = Some c'" using assms(2) s by (simp add: runToplevel_def)
    from endPackageSpec_inv [OF _ this, of e] w2 b e k2 show ?thesis by (simp add: keepsDecls_def)
  next
    case (Some "is")
    obtain c3 c4 where t: "beginPackagePrivatePart c2 = Some c3" "runSpecItems is c3 = Some c4" "endPackageSpec c4 = Some c'"
      using assms(2) s Some by (auto simp: runToplevel_def split: option.splits)
    have cur: "tc_current c2 = Some (tc_next c)" using w2 b by simp
    note p = beginPackagePrivatePart_inv [OF _ t(1) cur]
    have w4: "run_within c3 c4" by (rule runSpecItems_within [OF t(2)]) (use p w2 in auto)
    note w5 = within_entries [OF w4]
    have k4: "keepsDecls c c4"
      by (rule keepsDecls_trans [OF k2]) (use p w2 w5 in \<open>simp add: keepsDecls_def\<close>)
    show ?thesis using endPackageSpec_inv [OF _ t(3), of e] w5 p w2 b e k4 by (simp add: keepsDecls_def)
  qed
qed

lemma packageBody_top:
  assumes "top_inv c" "runToplevel (PackageBody name is) c = Some c'"
  shows "top_inv c' \<and> keepsDecls c c'"
proof -
  obtain e where e: "so_entries (tc_scope c) = [e]" "\<forall>n \<in> set (en_direct e). \<not> denotesSubroutineDecl n"
    using top_entries [OF assms(1)] by blast
  obtain res c1 where s: "beginPackageBody name c = Some (res, c1)"
    using assms(2) by (auto simp: runToplevel_def split: option.splits)
  note b = beginPackageBody_inv [OF s assms(1)]
  show ?thesis
  proof (cases res)
    case False
    then show ?thesis using assms b s top_inv_reported by (auto simp: runToplevel_def)
  next
    case True
    obtain p k sc where p: "run_inv c1" "tc_packages c p = Some k" "c1 = c\<lparr>tc_packages := (tc_packages c)(p \<mapsto> k\<lparr>pk_body := True\<rparr>),
        tc_current := Some p, tc_region := Some (BodyRegion p), tc_scope := sc\<rparr>" "tl (so_entries sc) = so_entries (tc_scope c)"
      using b True by auto
    obtain c2 where c2: "runItems is c1 = Some c2" "endPackageBody c2 = Some c'"
      using assms(2) s True by (auto simp: runToplevel_def split: option.splits)
    have "tc_region c1 = Some (BodyRegion p)" "bodyRegion (BodyRegion p)" by (simp_all add: p(3) bodyRegion_def)
    with p(1) have w: "run_within c1 c2" by (intro runItems_within [OF c2(1)])
    note w2 = within_entries [OF w]
    have "keepsDecls c c1" by (simp add: p(3) keepsDecls_same)
    then have k2: "keepsDecls c c2" using w2 keepsDecls_trans by blast
    have "top_inv c' \<and> tc_subs c' = tc_subs c2"
      using endPackageBody_inv [OF _ c2(2), of p e] w2 p e by simp
    then show ?thesis using k2 by (simp add: keepsDecls_def)
  qed
qed

lemma runUnit_top:
  assumes "runUnit ts c = Some c'" "top_inv c"
  shows "top_inv c' \<and> keepsDecls c c'"
  using assms
proof (induction ts c rule: runUnit.induct)
  case (1 c)
  then show ?case by simp
next
  case (2 t ts c)
  obtain c1 where c1: "runToplevel t c = Some c1" "runUnit ts c1 = Some c'" using 2(2) by (auto split: option.splits)
  have "top_inv c1 \<and> keepsDecls c c1"
    using packageSpec_top [OF 2(3)] packageBody_top [OF 2(3)] c1(1) by (cases t) auto
  then show ?case using 2(1) [OF c1] keepsDecls_trans by blast
qed

lemma newChecker_top: "top_inv newChecker"
  by (auto simp: top_inv_def newChecker_def checker_inv_def links_inv_def regions_inv_def instances_inv_def packages_inv_def
      newScope_def pushScope_def)

lemma missingExports_reported:
  "d \<in> set ds \<Longrightarrow> tc_subs c d = Some s \<Longrightarrow> getDefiningDeclaration s = None \<Longrightarrow>
     MISSING_EXPORT x (sd_name s) \<in> set (missingExports c x ds)"
  by (induction ds) auto

section \<open>Properties\<close>

text \<open>
  C11. After every run of the type checker over compilation units, a declaration and its completion point at each
  other and agree in name, profile, parameter modes and keywords; a region lists its own declarations, each once;
  the public part of a package lists no completion; and a declaration of an instance names the declaration of the
  package it copies, no two the same one.
\<close>

theorem checked_declarations:
  assumes "runUnit ts newChecker = Some c"
  shows "(\<forall>d s e. tc_subs c d = Some s \<longrightarrow> sd_link s = DefinitionLink e \<longrightarrow>
      (\<exists>t. tc_subs c e = Some t \<and> sd_link t = ForwardLink d \<and> compatibleSubroutineDecls s t \<and> sd_function s = sd_function t)) \<and>
    (\<forall>d s f. tc_subs c d = Some s \<longrightarrow> sd_link s = ForwardLink f \<longrightarrow> (\<exists>t. tc_subs c f = Some t \<and> sd_link t = DefinitionLink d)) \<and>
    (\<forall>r. distinct (tc_regions c r) \<and> (\<forall>d \<in> set (tc_regions c r). \<exists>s. tc_subs c d = Some s \<and> sd_region s = Some r)) \<and>
    (\<forall>p d s. d \<in> set (tc_regions c (PackageRegion p)) \<longrightarrow> tc_subs c d = Some s \<longrightarrow> getForwardDeclaration s = None) \<and>
    (\<forall>p. distinct (map (\<lambda>d. sd_origin (the (tc_subs c d))) (tc_regions c (InstanceRegion p)))) \<and>
    (\<forall>p d s. d \<in> set (tc_regions c (InstanceRegion p)) \<longrightarrow> tc_subs c d = Some s \<longrightarrow>
      (\<exists>e t. sd_origin s = Some e \<and> tc_subs c e = Some t \<and> e \<in> set (tc_regions c (PackageRegion p)) \<and> sd_name s = sd_name t))"
proof -
  have i: "checker_inv c" using runUnit_top [OF assms newChecker_top] by (simp add: top_inv_def)
  note l = links_invD [OF checker_invD(2) [OF i]] and r = regions_invD [OF checker_invD(3) [OF i]]
    and n = instances_invD [OF checker_invD(4) [OF i]]
  show ?thesis
    using l(1) l(2) r(1) r(2) r(3) n(3) n(2) [OF _ r(4)] unfolding matching_def by blast
qed

definition sampleSub :: "string \<Rightarrow> sub_spec" where
  "sampleSub name = \<lparr>ss_function = False, ss_name = name, ss_params = [(''X'', Some (OtherType 7), MODE_IN)], ss_return = None\<rparr>"

definition sampleUnit :: "toplevel list" where
  "sampleUnit = [PackageSpec ''A'' [SpecDeclaration False (sampleSub ''F'')] None,
     PackageSpec ''B'' [SpecReference 0] None,
     PackageBody ''A'' [Definition (sampleSub ''F'') [], Declaration False (sampleSub ''G'')]]"

lemma sampleUnit_runs: "runUnit sampleUnit newChecker \<noteq> None"
  by code_simp

theorem checked_declarations_witness:
  "\<exists>c. runUnit sampleUnit newChecker = Some c \<and>
     (\<forall>r. distinct (tc_regions c r) \<and> (\<forall>d \<in> set (tc_regions c r). \<exists>s. tc_subs c d = Some s \<and> sd_region s = Some r))"
  using sampleUnit_runs checked_declarations [of sampleUnit] by blast

text \<open>
  C12. A package body that is checked without a missing export completes every subroutine of the public part: each has a
  definition of its name, profile, modes and keywords that points back at it.
\<close>

theorem accepted_body_complete:
  assumes "runUnit ts newChecker = Some c" "beginPackageBody name c = Some (True, c1)" "runItems is c1 = Some c2"
    "endPackageBody c2 = Some c3" "tc_region c1 = Some (BodyRegion p)" "\<And>n m. MISSING_EXPORT n m \<notin> set (tc_diags c3)"
    "d \<in> set (tc_regions c3 (PackageRegion p))"
  shows "\<exists>s e t. tc_subs c3 d = Some s \<and> sd_link s = DefinitionLink e \<and> tc_subs c3 e = Some t \<and> sd_link t = ForwardLink d \<and>
    compatibleSubroutineDecls s t \<and> sd_function s = sd_function t"
proof -
  have top: "top_inv c" using runUnit_top [OF assms(1) newChecker_top] by simp
  obtain e where e: "so_entries (tc_scope c) = [e]" "\<forall>n \<in> set (en_direct e). \<not> denotesSubroutineDecl n"
    using top_entries [OF top] by blast
  have b: "run_inv c1" "tl (so_entries (tc_scope c1)) = so_entries (tc_scope c)"
    using beginPackageBody_inv [OF assms(2) top] by auto
  have w: "run_within c1 c2" by (rule runItems_within [OF assms(3) b(1) assms(5)]) (simp add: bodyRegion_def)
  note w2 = within_entries [OF w]
  have "run_inv c2" "tc_region c2 = Some (BodyRegion p)" "tl (so_entries (tc_scope c2)) = [e]" using w2 assms(5) b(2) e by simp_all
  note m = endPackageBody_inv [OF this(1) assms(4) this(2,3) e(2)]
  obtain x where k: "tc_diags c3 = tc_diags c2 @ missingExports c2 x (tc_regions c2 (PackageRegion p))"
    "tc_subs c3 = tc_subs c2" "tc_regions c3 = tc_regions c2" "top_inv c3" using m by blast
  have i: "checker_inv c3" using k(4) by (simp add: top_inv_def)
  obtain s where s: "tc_subs c3 d = Some s" using regions_invD(2) [OF checker_invD(3) [OF i] assms(7)] by blast
  have "getDefiningDeclaration s \<noteq> None"
    using missingExports_reported [of d "tc_regions c2 (PackageRegion p)" c2 s x] assms(6,7) k s by auto
  then obtain f where f: "sd_link s = DefinitionLink f" by (auto simp: getDefiningDeclaration_def split: decl_link.splits)
  from links_invD(1) [OF checker_invD(2) [OF i] s f] f s show ?thesis unfolding matching_def by blast
qed

definition bodyStates :: "toplevel list \<Rightarrow> string \<Rightarrow> item list \<Rightarrow> (checker \<times> checker \<times> checker \<times> checker) option" where
  "bodyStates ts name is =
     (case runUnit ts newChecker of
        None \<Rightarrow> None
      | Some c \<Rightarrow>
          (case beginPackageBody name c of
             Some (True, c1) \<Rightarrow>
               (case runItems is c1 of
                  None \<Rightarrow> None
                | Some c2 \<Rightarrow> (case endPackageBody c2 of None \<Rightarrow> None | Some c3 \<Rightarrow> Some (c, c1, c2, c3)))
           | _ \<Rightarrow> None))"

lemma bodyStatesE:
  assumes "case bodyStates ts name is of None \<Rightarrow> False | Some (c, c1, c2, c3) \<Rightarrow> P c c1 c2 c3"
  obtains c c1 c2 c3 where "runUnit ts newChecker = Some c" "beginPackageBody name c = Some (True, c1)"
    "runItems is c1 = Some c2" "endPackageBody c2 = Some c3" "P c c1 c2 c3"
  using assms by (auto simp: bodyStates_def split: option.splits bool.splits prod.splits)

lemma sampleBody:
  "case bodyStates [PackageSpec ''A'' [SpecDeclaration False (sampleSub ''F'')] None] ''A'' [Definition (sampleSub ''F'') []] of
     None \<Rightarrow> False
   | Some (c, c1, c2, c3) \<Rightarrow> tc_region c1 = Some (BodyRegion 0) \<and> tc_diags c3 = [] \<and> tc_regions c3 (PackageRegion 0) = [2] \<and>
       map_option sd_name (tc_subs c3 2) = Some ''F''"
  by code_simp

theorem accepted_body_complete_witness:
  "\<exists>(c3 :: checker) s e t. tc_subs c3 2 = Some s \<and> sd_name s = ''F'' \<and> sd_link s = DefinitionLink e \<and> tc_subs c3 e = Some t \<and>
     sd_link t = ForwardLink 2 \<and> compatibleSubroutineDecls s t"
proof -
  from sampleBody obtain c c1 c2 c3 where r:
    "runUnit [PackageSpec ''A'' [SpecDeclaration False (sampleSub ''F'')] None] newChecker = Some c"
    "beginPackageBody ''A'' c = Some (True, c1)" "runItems [Definition (sampleSub ''F'') []] c1 = Some c2"
    "endPackageBody c2 = Some c3" and q: "tc_region c1 = Some (BodyRegion 0) \<and> tc_diags c3 = [] \<and> tc_regions c3 (PackageRegion 0) = [2] \<and>
       map_option sd_name (tc_subs c3 2) = Some ''F''" by (rule bodyStatesE)
  have "\<exists>s e t. tc_subs c3 2 = Some s \<and> sd_link s = DefinitionLink e \<and> tc_subs c3 e = Some t \<and> sd_link t = ForwardLink 2 \<and>
    compatibleSubroutineDecls s t \<and> sd_function s = sd_function t"
    by (rule accepted_body_complete [OF r]) (use q in auto)
  moreover have "sd_name s = ''F''" if "tc_subs c3 2 = Some s" for s using q that by simp
  ultimately show ?thesis by blast
qed

text \<open>
  A body of a package that has a private part leaves the region of the package current: the next package body of the
  unit is rejected whatever it is, since bodies are only accepted at the level of the unit.
\<close>

theorem body_after_private_rejected:
  assumes "runUnit ts newChecker = Some c" "beginPackageBody name c = Some (True, c1)" "runItems is c1 = Some c2"
    "endPackageBody c2 = Some c3" "tc_region c1 = Some (BodyRegion p)" "tc_packages c1 p = Some k" "pk_private k"
    "beginPackageBody other c3 = Some (res, c4)"
  shows "tc_region c3 = Some (PackageRegion p) \<and> \<not> res \<and>
    (\<exists>x \<in> {NAME_NOT_VISIBLE other, NOT_A_PACKAGE other, WRONG_LEVEL_FOR_PACKAGE_BODY}. c4 = reportRegion x c3)"
proof -
  have top: "top_inv c" using runUnit_top [OF assms(1) newChecker_top] by simp
  obtain e where e: "so_entries (tc_scope c) = [e]" "\<forall>n \<in> set (en_direct e). \<not> denotesSubroutineDecl n"
    using top_entries [OF top] by blast
  have b: "run_inv c1" "tl (so_entries (tc_scope c1)) = so_entries (tc_scope c)"
    using beginPackageBody_inv [OF assms(2) top] by auto
  have w: "run_within c1 c2" by (rule runItems_within [OF assms(3) b(1) assms(5)]) (simp add: bodyRegion_def)
  note w2 = within_entries [OF w]
  have "run_inv c2" "tc_region c2 = Some (BodyRegion p)" "tl (so_entries (tc_scope c2)) = [e]" using w2 assms(5) b(2) e by simp_all
  note n = endPackageBody_inv [OF this(1) assms(4) this(2,3) e(2)]
  obtain k2 where "tc_packages c2 p = Some k2" "pk_private k2" using w assms(6,7) by (auto simp: run_within_def withinRegion_def)
  then have r: "tc_region c3 = Some (PackageRegion p)" using n by auto
  then show ?thesis using assms(8) unfolding beginPackageBody_def by (auto split: option.splits prod.splits if_splits)
qed

definition privateUnit :: "toplevel list" where
  "privateUnit = [PackageSpec ''A'' [] (Some []), PackageSpec ''B'' [] None]"

lemma privateBody:
  "case bodyStates privateUnit ''A'' [] of
     None \<Rightarrow> False
   | Some (c, c1, c2, c3) \<Rightarrow> tc_region c1 = Some (BodyRegion 0) \<and> map_option pk_private (tc_packages c1 0) = Some True \<and>
       beginPackageBody ''B'' c3 \<noteq> None"
  by code_simp

theorem body_after_private_rejected_witness:
  "\<exists>(c3 :: checker) c4. tc_region c3 = Some (PackageRegion 0) \<and> beginPackageBody ''B'' c3 = Some (False, c4)"
proof -
  from privateBody obtain c c1 c2 c3 where r: "runUnit privateUnit newChecker = Some c"
    "beginPackageBody ''A'' c = Some (True, c1)" "runItems [] c1 = Some c2"
    "endPackageBody c2 = Some c3" and q: "tc_region c1 = Some (BodyRegion 0) \<and> map_option pk_private (tc_packages c1 0) = Some True \<and>
       beginPackageBody ''B'' c3 \<noteq> None" by (rule bodyStatesE)
  from q obtain k where k: "tc_packages c1 0 = Some k" "pk_private k" by auto
  from q obtain res c4 where b: "beginPackageBody ''B'' c3 = Some (res, c4)" by auto
  then show ?thesis using body_after_private_rejected [OF r _ k b] q by auto
qed

section \<open>Redefinitions\<close>

text \<open>A second body for the same subroutine is taken as the completion of the first.\<close>

lemma second_body_accepted:
  "map_option tc_diags (runUnit [PackageSpec ''A'' [] None,
     PackageBody ''A'' [Definition (sampleSub ''F'') [], Definition (sampleSub ''F'') []]] newChecker) = Some []"
  by code_simp

text \<open>
  A subroutine within its namesake is taken as its completion; if the outer one completes a declaration itself, the
  assertion of \<open>setDefiningDeclaration\<close> fails.
\<close>

lemma nested_namesake_completes:
  "map_option tc_diags (runUnit [PackageSpec ''A'' [] None,
     PackageBody ''A'' [Definition (sampleSub ''F'') [Definition (sampleSub ''F'') []]]] newChecker) = Some []"
  "runUnit [PackageSpec ''A'' [SpecDeclaration False (sampleSub ''F'')] None,
     PackageBody ''A'' [Definition (sampleSub ''F'') [Definition (sampleSub ''F'') []]]] newChecker = None"
  by code_simp+

text \<open>A subroutine of the public part that is imported is reported as missing.\<close>

lemma imported_export_reported:
  "map_option tc_diags (runUnit [PackageSpec ''A'' [SpecDeclaration False (sampleSub ''F'')] None,
     PackageBody ''A'' [Import ''c'' ''F'' (Some ''f'')]] newChecker) = Some [MISSING_EXPORT ''A'' ''F'']"
  by code_simp

end
