(* ===== verification/LinkNames.thy ===== *)
theory LinkNames
  imports PackageUnits Diagnostics
begin

text \<open>
  The names of subroutines in the object code and the tables of the code generator:
  \<^verbatim>\<open>lib/codegen/Mangle.cpp\<close>, \<^verbatim>\<open>InstanceInfo.cpp\<close> and the order in which \<^verbatim>\<open>CodeGen.cpp\<close> emits
  packages, over the declarations of \<open>Packages\<close>.  A package and its instance have the same address.
\<close>

section \<open>Link names\<close>

definition longNames :: "(string \<times> string) list" where
  "longNames =
     [(''!'', ''0bang''), (''&'', ''0amper''), (''#'', ''0hash''), (''*'', ''0multiply''), (''+'', ''0plus''), (''-'', ''0minus''),
      (''<'', ''0less''), (''='', ''0equal''), (''>'', ''0great''), (''@'', ''0at''), ([CHR 0x5C], ''0bslash''), (''^'', ''0hat''),
      ([CHR 0x60], ''0grave''), (''|'', ''0bar''), (''/'', ''0fslash''), (''~'', ''0tilde''),
      (''<='', ''0leq''), (''<>'', ''0diamond''), (''<<'', ''0dless''), (''=='', ''0dequal''), (''>='', ''0geq''), (''>>'', ''0dgreat''),
      (''||'', ''0dbar''), (''/='', ''0nequal'')]"

definition getSubroutineName :: "string \<Rightarrow> string" where
  "getSubroutineName name = (case map_of longNames name of Some n \<Rightarrow> n | None \<Rightarrow> name)"

text \<open>The number of declarations of the name in front of the target, which may be missing.\<close>

fun getRegionIndex :: "checker \<Rightarrow> nat list \<Rightarrow> string \<Rightarrow> nat option \<Rightarrow> nat \<Rightarrow> bool \<times> nat" where
  "getRegionIndex c [] idInfo target index = (False, index)"
| "getRegionIndex c (candidate # ds) idInfo target index =
     (case tc_subs c candidate of
        None \<Rightarrow> getRegionIndex c ds idInfo target index
      | Some s \<Rightarrow>
          if idInfo = sd_name s then
            if target = Some candidate then (True, index)
            else if getForwardDeclaration s \<noteq> None then getRegionIndex c ds idInfo target index
            else getRegionIndex c ds idInfo target (index + 1)
          else getRegionIndex c ds idInfo target index)"

definition getPublicRegion :: "checker \<Rightarrow> nat \<Rightarrow> (nat \<times> nat option) option" where
  "getPublicRegion c d =
     (case tc_subs c d of
        None \<Rightarrow> None
      | Some s \<Rightarrow>
          (case sd_region s of
             Some (PackageRegion p) \<Rightarrow> Some (p, Some d)
           | Some (InstanceRegion p) \<Rightarrow>
               (case sd_origin s of
                  None \<Rightarrow> None
                | Some target \<Rightarrow>
                    (case tc_subs c target of
                       None \<Rightarrow> None
                     | Some t \<Rightarrow> (case sd_region t of Some (PackageRegion q) \<Rightarrow> Some (q, Some target) | _ \<Rightarrow> None)))
           | Some (PrivateRegion p) \<Rightarrow> Some (p, None)
           | Some (BodyRegion p) \<Rightarrow> Some (p, getForwardDeclaration s)
           | _ \<Rightarrow> None))"

definition hasPrivatePart :: "checker \<Rightarrow> nat \<Rightarrow> bool" where
  "hasPrivatePart c p \<longleftrightarrow> (case tc_packages c p of Some k \<Rightarrow> pk_private k | None \<Rightarrow> False)"

definition bodyIndex :: "checker \<Rightarrow> subroutine \<Rightarrow> nat \<Rightarrow> nat \<Rightarrow> nat option" where
  "bodyIndex c s d index =
     (case sd_region s of
        Some (BodyRegion p) \<Rightarrow>
          (case getRegionIndex c (tc_regions c (BodyRegion p)) (sd_name s) (Some d) index of
             (True, i) \<Rightarrow> Some i
           | (False, i) \<Rightarrow> None)
      | _ \<Rightarrow> None)"

definition getOverloadIndex :: "checker \<Rightarrow> nat \<Rightarrow> nat option" where
  "getOverloadIndex c d =
     (case (tc_subs c d, getPublicRegion c d) of
        (Some s, Some (package, target)) \<Rightarrow>
          (let (found, index) = (if target = None then (False, 0)
                 else getRegionIndex c (tc_regions c (PackageRegion package)) (sd_name s) target 0) in
           if found then Some index
           else if hasPrivatePart c package then
             (case getRegionIndex c (tc_regions c (PrivateRegion package)) (sd_name s) (Some d) index of
                (True, i) \<Rightarrow> Some i
              | (False, i) \<Rightarrow> bodyIndex c s d i)
           else bodyIndex c s d index)
      | _ \<Rightarrow> None)"

definition getLinkName :: "checker \<Rightarrow> nat \<Rightarrow> nat \<Rightarrow> string option" where
  "getLinkName c instance_of d =
     (case findPragma c d of
        None \<Rightarrow> None
      | Some (Some externalName) \<Rightarrow> Some externalName
      | Some None \<Rightarrow>
          (case (tc_packages c instance_of, tc_subs c d, getOverloadIndex c d) of
             (Some k, Some s, Some index) \<Rightarrow>
               Some (pk_name k @ ''__'' @ getSubroutineName (sd_name s) @ (if index \<noteq> 0 then ''__'' @ showNat index else []))
           | _ \<Rightarrow> None))"

text \<open>An exception of a region.\<close>

definition getExceptionLinkName :: "checker \<Rightarrow> region \<Rightarrow> string \<Rightarrow> string option" where
  "getExceptionLinkName c r name =
     (case (case r of BodyRegion p \<Rightarrow> getParent c r | _ \<Rightarrow> Some r) of
        Some (PackageRegion p) \<Rightarrow> map_option (\<lambda>k. pk_name k @ ''__'' @ name) (tc_packages c p)
      | Some (InstanceRegion p) \<Rightarrow> map_option (\<lambda>k. pk_name k @ ''__'' @ name) (tc_packages c p)
      | _ \<Rightarrow> None)"

section \<open>The table of an instance\<close>

definition getKeySRDecl :: "checker \<Rightarrow> nat \<Rightarrow> nat option" where
  "getKeySRDecl c d0 =
     (case tc_subs c d0 of
        None \<Rightarrow> None
      | Some s0 \<Rightarrow>
          (case (case sd_region s0 of Some (InstanceRegion p) \<Rightarrow> sd_origin s0 | _ \<Rightarrow> Some d0) of
             None \<Rightarrow> None
           | Some d \<Rightarrow>
               (case tc_subs c d of
                  None \<Rightarrow> None
                | Some s \<Rightarrow>
                    if (case sd_region s of Some (BodyRegion p) \<Rightarrow> True | Some (PackageRegion p) \<Rightarrow> True | Some (PrivateRegion p) \<Rightarrow> True
                        | _ \<Rightarrow> False)
                    then Some (case getDefiningDeclaration s of Some e \<Rightarrow> e | None \<Rightarrow> d)
                    else None)))"

text \<open>The entry of a key is the name of the function.\<close>

type_synonym info_table = "nat \<Rightarrow> string option"

fun addPublicInfos :: "checker \<Rightarrow> nat \<Rightarrow> nat list \<Rightarrow> info_table \<Rightarrow> info_table option" where
  "addPublicInfos c p [] tab = Some tab"
| "addPublicInfos c p (d # ds) tab =
     (case getKeySRDecl c d of
        None \<Rightarrow> None
      | Some key \<Rightarrow>
          if tab key \<noteq> None then None
          else (case getLinkName c p d of None \<Rightarrow> None | Some n \<Rightarrow> addPublicInfos c p ds (tab(key \<mapsto> n))))"

fun addPrivateInfos :: "checker \<Rightarrow> nat \<Rightarrow> nat list \<Rightarrow> info_table \<Rightarrow> info_table option" where
  "addPrivateInfos c p [] tab = Some tab"
| "addPrivateInfos c p (d # ds) tab =
     (case getKeySRDecl c d of
        None \<Rightarrow> None
      | Some key \<Rightarrow>
          if tab key \<noteq> None then addPrivateInfos c p ds tab
          else (case getLinkName c p d of None \<Rightarrow> None | Some n \<Rightarrow> addPrivateInfos c p ds (tab(key \<mapsto> n))))"

definition populateInfoTable :: "checker \<Rightarrow> nat \<Rightarrow> info_table option" where
  "populateInfoTable c p =
     (case addPublicInfos c p (tc_regions c (InstanceRegion p)) (\<lambda>_. None) of
        None \<Rightarrow> None
      | Some tab1 \<Rightarrow>
          (case (if hasPrivatePart c p then addPrivateInfos c p (tc_regions c (PrivateRegion p)) tab1 else Some tab1) of
             None \<Rightarrow> None
           | Some tab2 \<Rightarrow>
               if (case tc_packages c p of Some k \<Rightarrow> pk_body k | None \<Rightarrow> False)
               then addPrivateInfos c p (tc_regions c (BodyRegion p)) tab2 else Some tab2))"

definition lookupSRInfo :: "checker \<Rightarrow> info_table \<Rightarrow> nat \<Rightarrow> string option" where
  "lookupSRInfo c tab d = (case getKeySRDecl c d of None \<Rightarrow> None | Some key \<Rightarrow> tab key)"

end
