(* ===== verification/LinkNameSpec.thy ===== *)
theory LinkNameSpec
  imports LinkNames
begin

text \<open>
  Link names of the public subroutines of checked units are unique, all views of a subroutine lead to the same entry of
  the table of its instance, and the tables are filled without a failed assertion.
\<close>

section \<open>Names\<close>

fun doubleUnderscore :: "string \<Rightarrow> bool" where
  "doubleUnderscore (a # b # w) = (a = CHR ''_'' \<and> b = CHR ''_'' \<or> doubleUnderscore (b # w))"
| "doubleUnderscore w = False"

definition plainName :: "string \<Rightarrow> bool" where
  "plainName w \<longleftrightarrow> w \<noteq> [] \<and> hd w \<noteq> CHR ''0'' \<and> last w \<noteq> CHR ''_'' \<and> \<not> doubleUnderscore w"

definition subroutineName :: "string \<Rightarrow> bool" where
  "subroutineName w \<longleftrightarrow> (plainName w \<and> w \<notin> fst ` set longNames) \<or> w \<in> fst ` set longNames"

lemma doubleUnderscore_middle: "doubleUnderscore (xs @ ''__'' @ ys)"
proof (induction xs)
  case (Cons a xs)
  then show ?case by (cases "xs @ ''__'' @ ys") auto
qed simp

lemma separator_left:
  assumes "P @ ''__'' @ X = Q @ ''__'' @ Y" "P = Q @ us" "\<not> doubleUnderscore P" "last P \<noteq> CHR ''_'' \<or> P = []"
  shows "P = Q \<and> X = Y"
proof (cases us)
  case Nil
  then show ?thesis using assms by simp
next
  case (Cons a vs)
  then have eq: "a # vs @ ''__'' @ X = ''__'' @ Y" using assms(1,2) by simp
  then have a: "a = CHR ''_''" by simp
  show ?thesis
  proof (cases vs)
    case Nil
    then show ?thesis using assms(2,4) Cons a by simp
  next
    case (Cons b ws)
    then have "P = Q @ ''__'' @ ws" using assms(2) \<open>us = a # vs\<close> eq a by simp
    then show ?thesis using assms(3) doubleUnderscore_middle by metis
  qed
qed

lemma separator:
  assumes "P @ ''__'' @ X = Q @ ''__'' @ Y" "\<not> doubleUnderscore P" "\<not> doubleUnderscore Q"
    "last P \<noteq> CHR ''_'' \<or> P = []" "last Q \<noteq> CHR ''_'' \<or> Q = []"
  shows "P = Q \<and> X = Y"
proof -
  obtain us where "P = Q @ us \<or> Q = P @ us" using assms(1) by (auto simp: append_eq_append_conv2)
  then show ?thesis
  proof
    assume "P = Q @ us"
    then show ?thesis using separator_left [OF assms(1)] assms(2,4) by blast
  next
    assume "Q = P @ us"
    then show ?thesis using separator_left [OF assms(1) [symmetric]] assms(3,5) by blast
  qed
qed

lemma showNat_nonempty [simp]: "showNat n \<noteq> []" "[] \<noteq> showNat n"
  by (subst showNat.simps, simp)+

lemma showNat_inj: "showNat n = showNat m \<Longrightarrow> n = m"
proof (induction n arbitrary: m rule: less_induct)
  case (less n)
  have digit: "char_of (48 + a :: nat) = (char_of (48 + b) :: char) \<Longrightarrow> a = b" if "a < 10" "b < 10" for a b :: nat
    using that arg_cong [where f = "of_char :: char \<Rightarrow> nat", of "char_of (48 + a)" "char_of (48 + b)"] by simp
  show ?case
  proof (cases "n < 10")
    case True
    then have "m < 10" using less(2) by (subst (asm) showNat.simps, subst (asm) (2) showNat.simps) (auto split: if_splits)
    then show ?thesis using True less(2) digit [of n m] by (simp add: showNat.simps [of n] showNat.simps [of m])
  next
    case n: False
    have m: "\<not> m < 10"
    proof
      assume "m < 10"
      then show False using less(2) n by (simp add: showNat.simps [of n] showNat.simps [of m])
    qed
    have "showNat (n div 10) = showNat (m div 10)" "char_of (48 + n mod 10) = (char_of (48 + m mod 10) :: char)"
      using less(2) n m by (simp_all add: showNat.simps [of n] showNat.simps [of m])
    then have "n div 10 = m div 10" "n mod 10 = m mod 10" using less(1) [of "n div 10"] n digit by auto
    then show ?thesis by (metis div_mult_mod_eq)
  qed
qed

lemma longNames_values: "\<forall>n \<in> snd ` set longNames. hd n = CHR ''0'' \<and> \<not> doubleUnderscore n \<and> last n \<noteq> CHR ''_'' \<and> n \<noteq> []"
  by (simp add: longNames_def)

lemma longNames_inj: "distinct (map fst longNames)" "distinct (map snd longNames)"
  by (simp_all add: longNames_def)

lemma getSubroutineName_long:
  assumes "w \<in> fst ` set longNames"
  shows "(w, getSubroutineName w) \<in> set longNames"
proof -
  obtain n where "map_of longNames w = Some n" using assms by (metis domIff dom_map_of_conv_image_fst option.exhaust)
  then show ?thesis by (simp add: getSubroutineName_def map_of_SomeD)
qed

lemma getSubroutineName_plain: "w \<notin> fst ` set longNames \<Longrightarrow> getSubroutineName w = w"
  by (simp add: getSubroutineName_def map_of_eq_None_iff [THEN iffD2])

lemma getSubroutineName_form:
  assumes "subroutineName w"
  shows "\<not> doubleUnderscore (getSubroutineName w)" "last (getSubroutineName w) \<noteq> CHR ''_''"
    "(hd (getSubroutineName w) = CHR ''0'') = (w \<in> fst ` set longNames)"
proof -
  have "\<not> doubleUnderscore (getSubroutineName w) \<and> last (getSubroutineName w) \<noteq> CHR ''_'' \<and>
    (hd (getSubroutineName w) = CHR ''0'') = (w \<in> fst ` set longNames)"
  proof (cases "w \<in> fst ` set longNames")
    case True
    then have "getSubroutineName w \<in> snd ` set longNames" using getSubroutineName_long by force
    then show ?thesis using True longNames_values by blast
  next
    case False
    then show ?thesis using assms getSubroutineName_plain by (auto simp: subroutineName_def plainName_def)
  qed
  then show "\<not> doubleUnderscore (getSubroutineName w)" "last (getSubroutineName w) \<noteq> CHR ''_''"
    "(hd (getSubroutineName w) = CHR ''0'') = (w \<in> fst ` set longNames)" by blast+
qed

lemma distinct_snd_fst: "distinct (map snd xs) \<Longrightarrow> (a, n) \<in> set xs \<Longrightarrow> (b, n) \<in> set xs \<Longrightarrow> a = b"
  by (induction xs) force+

lemma getSubroutineName_inj:
  assumes "subroutineName v" "subroutineName w" "getSubroutineName v = getSubroutineName w"
  shows "v = w"
proof (cases "v \<in> fst ` set longNames")
  case True
  then have "w \<in> fst ` set longNames" using getSubroutineName_form(3) assms by metis
  then show ?thesis
    using distinct_snd_fst [OF longNames_inj(2)] getSubroutineName_long [OF True] getSubroutineName_long [of w] assms(3) by metis
next
  case False
  then have "w \<notin> fst ` set longNames" using getSubroutineName_form(3) assms by metis
  then show ?thesis using getSubroutineName_plain False assms(3) by metis
qed

text \<open>The parts of a link name can be read off.\<close>

definition linkNameOf :: "string \<Rightarrow> string \<Rightarrow> nat \<Rightarrow> string" where
  "linkNameOf package name index =
     package @ ''__'' @ getSubroutineName name @ (if index \<noteq> 0 then ''__'' @ showNat index else [])"

lemma linkNameOf_inj:
  assumes "linkNameOf P v i = linkNameOf Q w j" "plainName P" "plainName Q" "subroutineName v" "subroutineName w"
  shows "P = Q \<and> v = w \<and> i = j"
proof -
  let ?tail = "\<lambda>w i. getSubroutineName w @ (if i \<noteq> 0 then ''__'' @ showNat i else [])"
  note fv = getSubroutineName_form [OF assms(4)] and fw = getSubroutineName_form [OF assms(5)]
  have PQ: "P = Q \<and> ?tail v i = ?tail w j"
    by (rule separator) (use assms in \<open>auto simp: linkNameOf_def plainName_def\<close>)
  have both: "getSubroutineName v = getSubroutineName w \<and> i = j"
  proof (cases "i = 0 \<or> j = 0")
    case True
    then consider "i = 0" "j = 0" | "i = 0" "j \<noteq> 0" | "i \<noteq> 0" "j = 0" by blast
    then show ?thesis
    proof cases
      case 2
      then have "getSubroutineName v = getSubroutineName w @ ''__'' @ showNat j" using PQ by simp
      then show ?thesis using fv(1) doubleUnderscore_middle by metis
    next
      case 3
      then have "getSubroutineName w = getSubroutineName v @ ''__'' @ showNat i" using PQ by simp
      then show ?thesis using fw(1) doubleUnderscore_middle by metis
    qed (use PQ in simp)
  next
    case False
    then have eq: "getSubroutineName v @ ''__'' @ showNat i = getSubroutineName w @ ''__'' @ showNat j" using PQ by simp
    have "getSubroutineName v = getSubroutineName w \<and> showNat i = showNat j" by (rule separator [OF eq]) (use fv fw in auto)
    then show ?thesis using showNat_inj by blast
  qed
  then show ?thesis using PQ getSubroutineName_inj [OF assms(4,5)] by blast
qed

section \<open>Overload indices\<close>

definition counted :: "checker \<Rightarrow> string \<Rightarrow> nat \<Rightarrow> bool" where
  "counted c name d \<longleftrightarrow> (case tc_subs c d of Some s \<Rightarrow> sd_name s = name \<and> getForwardDeclaration s = None | None \<Rightarrow> False)"

lemma getRegionIndex_missing:
  "(\<forall>t. target = Some t \<longrightarrow> t \<notin> set ds) \<Longrightarrow> getRegionIndex c ds name target i = (False, i + length (filter (counted c name) ds))"
  by (induction ds arbitrary: i) (auto simp: counted_def split: option.split)

lemma getRegionIndex_found:
  assumes "d \<notin> set xs" "tc_subs c d = Some s" "sd_name s = name"
  shows "getRegionIndex c (xs @ d # ys) name (Some d) i = (True, i + length (filter (counted c name) xs))"
  using assms by (induction xs arbitrary: i) (auto simp: counted_def split: option.split)

lemma getRegionIndex_total:
  assumes "d \<in> set ds" "tc_subs c d = Some s" "sd_name s = name"
  shows "\<exists>j. getRegionIndex c ds name (Some d) i = (True, j)"
proof -
  obtain xs ys where "ds = xs @ d # ys" "d \<notin> set xs" using assms(1) by (metis split_list_first)
  then show ?thesis using getRegionIndex_found [OF _ assms(2,3)] by blast
qed

text \<open>Of two declarations of a name that have no forward declaration the first has the lesser index.\<close>

lemma getRegionIndex_less:
  assumes "ds = xs @ d # ys" "d \<notin> set xs" "e \<in> set ys" "e \<notin> set xs" "e \<noteq> d"
    "tc_subs c d = Some s" "sd_name s = name" "getForwardDeclaration s = None" "tc_subs c e = Some t" "sd_name t = name"
  shows "snd (getRegionIndex c ds name (Some d) i) < snd (getRegionIndex c ds name (Some e) i)"
proof -
  obtain us vs where y: "ys = us @ e # vs" "e \<notin> set us" using assms(3) by (metis split_list_first)
  have "ds = (xs @ d # us) @ e # vs" "e \<notin> set (xs @ d # us)" using assms(1,4,5) y by auto
  then have "getRegionIndex c ds name (Some e) i = (True, i + length (filter (counted c name) (xs @ d # us)))"
    using getRegionIndex_found [OF _ assms(9,10)] by blast
  moreover have "counted c name d" using assms(6-8) by (simp add: counted_def)
  ultimately show ?thesis using getRegionIndex_found [OF assms(2,6,7)] assms(1) by simp
qed

lemma getRegionIndex_inj:
  assumes "d \<in> set ds" "e \<in> set ds" "tc_subs c d = Some s" "sd_name s = name" "getForwardDeclaration s = None"
    "tc_subs c e = Some t" "sd_name t = name" "getForwardDeclaration t = None"
    "snd (getRegionIndex c ds name (Some d) i) = snd (getRegionIndex c ds name (Some e) i)"
  shows "d = e"
proof (rule ccontr)
  assume ne: "d \<noteq> e"
  obtain xs ys where d: "ds = xs @ d # ys" "d \<notin> set xs" using assms(1) by (metis split_list_first)
  obtain us vs where e: "ds = us @ e # vs" "e \<notin> set us" using assms(2) by (metis split_list_first)
  show False
  proof (cases "e \<in> set xs")
    case False
    then have "e \<in> set ys" using assms(2) d(1) ne by auto
    then show False using getRegionIndex_less [OF d _ False _ assms(3,4,5,6,7)] ne assms(9) by (metis less_irrefl)
  next
    case True
    have "d \<notin> set us"
    proof
      assume "d \<in> set us"
      then obtain as bs where "us = as @ d # bs" by (metis split_list)
      then have "ds = as @ d # (bs @ e # vs)" using e(1) by simp
      moreover from True obtain ps qs where "xs = ps @ e # qs" by (metis split_list)
      ultimately have "as @ d # (bs @ e # vs) = ps @ e # (qs @ d # ys)" using d(1) by simp
      moreover have "e \<notin> set as" "d \<notin> set ps" using \<open>us = as @ d # bs\<close> \<open>xs = ps @ e # qs\<close> e(2) d(2) by auto
      ultimately show False using ne by (auto simp: append_eq_append_conv2 append_eq_Cons_conv Cons_eq_append_conv)
    qed
    then have "d \<in> set vs" using assms(1) e(1) ne by auto
    then show False using getRegionIndex_less [OF e _ \<open>d \<notin> set us\<close> ne assms(6-8,3,4)] assms(9) by (metis less_irrefl)
  qed
qed

section \<open>The views of a subroutine\<close>

lemma public_decl:
  assumes "checker_inv c" "d \<in> set (tc_regions c (PackageRegion p))"
  obtains s where "tc_subs c d = Some s" "sd_region s = Some (PackageRegion p)" "sd_origin s = None" "getForwardDeclaration s = None"
proof -
  obtain s where s: "tc_subs c d = Some s" "sd_region s = Some (PackageRegion p)"
    using regions_invD(2) [OF checker_invD(3) [OF assms(1)] assms(2)] by blast
  then show ?thesis
    using that [OF s] instances_invD(1) [OF checker_invD(4) [OF assms(1)] s(1)] regions_invD(3) [OF checker_invD(3) [OF assms(1)] assms(2) s(1)]
    by simp
qed

lemma instance_decl:
  assumes "checker_inv c" "i \<in> set (tc_regions c (InstanceRegion p))"
  obtains s d t where "tc_subs c i = Some s" "sd_region s = Some (InstanceRegion p)" "sd_link s = NullLink" "sd_origin s = Some d"
    "d \<in> set (tc_regions c (PackageRegion p))" "tc_subs c d = Some t" "sd_name s = sd_name t"
proof -
  obtain s where s: "tc_subs c i = Some s" "sd_region s = Some (InstanceRegion p)"
    using regions_invD(2) [OF checker_invD(3) [OF assms(1)] assms(2)] by blast
  then show ?thesis using that [OF s] instances_invD(2) [OF checker_invD(4) [OF assms(1)] s] by blast
qed

definition publicIndex :: "checker \<Rightarrow> nat \<Rightarrow> string \<Rightarrow> nat \<Rightarrow> nat" where
  "publicIndex c p name d = snd (getRegionIndex c (tc_regions c (PackageRegion p)) name (Some d) 0)"

lemma getOverloadIndex_target:
  assumes "checker_inv c" "d \<in> set (tc_regions c (PackageRegion p))" "tc_subs c a = Some s" "getPublicRegion c a = Some (p, Some d)"
    "tc_subs c d = Some t" "sd_name s = sd_name t"
  shows "getOverloadIndex c a = Some (publicIndex c p (sd_name t) d)"
proof -
  obtain j where "getRegionIndex c (tc_regions c (PackageRegion p)) (sd_name t) (Some d) 0 = (True, j)"
    using getRegionIndex_total [OF assms(2,5) refl] by blast
  then show ?thesis using assms(3,4,6) by (simp add: getOverloadIndex_def publicIndex_def)
qed

lemma getOverloadIndex_public:
  assumes "checker_inv c" "d \<in> set (tc_regions c (PackageRegion p))" "tc_subs c d = Some t"
  shows "getOverloadIndex c d = Some (publicIndex c p (sd_name t) d)"
proof -
  have "sd_region t = Some (PackageRegion p)" using public_decl [OF assms(1,2)] assms(3) by (metis option.inject)
  then have "getPublicRegion c d = Some (p, Some d)" using assms(3) by (simp add: getPublicRegion_def)
  then show ?thesis using getOverloadIndex_target [OF assms(1,2,3) _ assms(3)] by simp
qed

lemma getOverloadIndex_instance:
  assumes "checker_inv c" "i \<in> set (tc_regions c (InstanceRegion p))" "tc_subs c i = Some s" "sd_origin s = Some d" "tc_subs c d = Some t"
  shows "getOverloadIndex c i = Some (publicIndex c p (sd_name t) d) \<and> d \<in> set (tc_regions c (PackageRegion p)) \<and> sd_name s = sd_name t"
proof -
  from instance_decl [OF assms(1,2)] assms(3-5)
  have f: "sd_region s = Some (InstanceRegion p)" "d \<in> set (tc_regions c (PackageRegion p))" "sd_name s = sd_name t"
    by (metis option.inject)+
  have "sd_region t = Some (PackageRegion p)" using public_decl [OF assms(1) f(2)] assms(5) by (metis option.inject)
  then have "getPublicRegion c i = Some (p, Some d)" using assms(3-5) f(1) by (simp add: getPublicRegion_def)
  then show ?thesis using getOverloadIndex_target [OF assms(1) f(2) assms(3) _ assms(5)] f by simp
qed

lemma getOverloadIndex_completion:
  assumes "checker_inv c" "d \<in> set (tc_regions c (PackageRegion p))" "tc_subs c d = Some t" "sd_link t = DefinitionLink e"
    "tc_subs c e = Some u" "sd_region u = Some (BodyRegion p)"
  shows "getOverloadIndex c e = Some (publicIndex c p (sd_name t) d) \<and> sd_name u = sd_name t \<and> sd_link u = ForwardLink d"
proof -
  from links_invD(1) [OF checker_invD(2) [OF assms(1)] assms(3,4)] assms(5)
  have u: "sd_link u = ForwardLink d" "sd_name u = sd_name t" by (auto simp: matching_def compatible_iff)
  then have "getPublicRegion c e = Some (p, Some d)" using assms(5,6) by (simp add: getPublicRegion_def getForwardDeclaration_def)
  then show ?thesis using getOverloadIndex_target [OF assms(1,2,5) _ assms(3)] u by simp
qed

subsection \<open>Imports\<close>

lemma findPragma_linked:
  assumes "checker_inv c" "tc_subs c d = Some s" "sd_origin s = None"
  shows "findPragma c d = Some (if sd_import s \<noteq> None then sd_import s else
    case sd_link s of NullLink \<Rightarrow> None | ForwardLink f \<Rightarrow> sd_import (the (tc_subs c f)) | DefinitionLink e \<Rightarrow> sd_import (the (tc_subs c e)))"
  using assms(2,3) links_invD [OF checker_invD(2) [OF assms(1)] assms(2)]
  by (subst findPragma.simps) (cases "sd_link s", auto)

lemma findPragma_instance:
  assumes "tc_subs c i = Some s" "sd_link s = NullLink" "sd_origin s = Some d"
  shows "findPragma c i = (if sd_import s \<noteq> None then Some (sd_import s) else findPragma c d)"
  using assms by (subst findPragma.simps) simp

lemma findPragma_total:
  assumes "checker_inv c" "tc_subs c d = Some s"
  shows "findPragma c d \<noteq> None"
proof (cases "sd_origin s")
  case None
  then show ?thesis using findPragma_linked [OF assms] by simp
next
  case (Some orig)
  then obtain p where p: "sd_region s = Some (InstanceRegion p)" using instances_invD(1) [OF checker_invD(4) [OF assms(1)] assms(2)] by auto
  from instances_invD(2) [OF checker_invD(4) [OF assms(1)] assms(2) p] Some
  obtain t where t: "sd_link s = NullLink" "tc_subs c orig = Some t" "orig \<in> set (tc_regions c (PackageRegion p))" by auto
  have "sd_origin t = None" using public_decl [OF assms(1) t(3)] t(2) by (metis option.inject)
  then show ?thesis using findPragma_instance [OF assms(2) t(1) Some] findPragma_linked [OF assms(1) t(2)] by simp
qed

lemma findPragma_completion:
  assumes "checker_inv c" "findPragma c d = Some None" "tc_subs c d = Some t" "sd_origin t = None" "sd_link t = DefinitionLink e"
    "tc_subs c e = Some u" "sd_link u = ForwardLink d" "sd_origin u = None"
  shows "findPragma c e = Some None"
  using assms findPragma_linked [OF assms(1,3,4)] findPragma_linked [OF assms(1,6,8)] by (auto split: if_splits)

lemma getLinkName_plain:
  assumes "findPragma c d = Some None" "tc_packages c p = Some k" "tc_subs c d = Some s" "getOverloadIndex c d = Some j"
  shows "getLinkName c p d = Some (linkNameOf (pk_name k) (sd_name s) j)"
  using assms by (simp add: getLinkName_def linkNameOf_def)

lemma getLinkName_plainD:
  assumes "findPragma c d = Some None" "getLinkName c p d = Some n"
  obtains k s j where "tc_packages c p = Some k" "tc_subs c d = Some s" "getOverloadIndex c d = Some j"
    "n = linkNameOf (pk_name k) (sd_name s) j"
  using assms by (auto simp: getLinkName_def linkNameOf_def split: option.splits)

section \<open>The tables of the instances\<close>

definition keyOf :: "checker \<Rightarrow> nat \<Rightarrow> nat" where
  "keyOf c d = (case tc_subs c d of Some s \<Rightarrow> (case getDefiningDeclaration s of Some e \<Rightarrow> e | None \<Rightarrow> d) | None \<Rightarrow> d)"

lemma getKeySRDecl_listed:
  assumes "checker_inv c" "d \<in> set (tc_regions c r)" "r \<in> {PackageRegion p, PrivateRegion p, BodyRegion p}"
  shows "getKeySRDecl c d = Some (keyOf c d)"
proof -
  obtain s where s: "tc_subs c d = Some s" "sd_region s = Some r"
    using regions_invD(2) [OF checker_invD(3) [OF assms(1)] assms(2)] by blast
  then show ?thesis using assms(3) by (auto simp: getKeySRDecl_def keyOf_def)
qed

lemma getKeySRDecl_instance:
  assumes "checker_inv c" "i \<in> set (tc_regions c (InstanceRegion p))" "tc_subs c i = Some s" "sd_origin s = Some d"
  shows "getKeySRDecl c i = Some (keyOf c d)"
proof -
  from instance_decl [OF assms(1,2)] assms(3,4)
  obtain t where t: "sd_region s = Some (InstanceRegion p)" "d \<in> set (tc_regions c (PackageRegion p))" "tc_subs c d = Some t"
    by (metis option.inject)
  have "sd_region t = Some (PackageRegion p)" using public_decl [OF assms(1) t(2)] t(3) by (metis option.inject)
  then show ?thesis using assms(3,4) t by (simp add: getKeySRDecl_def keyOf_def)
qed

lemma getKeySRDecl_completion:
  assumes "checker_inv c" "tc_subs c d = Some t" "sd_link t = DefinitionLink e" "tc_subs c e = Some u" "sd_region u = Some (BodyRegion p)"
  shows "getKeySRDecl c e = Some (keyOf c d)"
proof -
  have "sd_link u = ForwardLink d" using links_invD(1) [OF checker_invD(2) [OF assms(1)] assms(2,3)] assms(4) by simp
  then show ?thesis using assms(2-5) by (simp add: getKeySRDecl_def keyOf_def getDefiningDeclaration_def)
qed

lemma keyOf_inj:
  assumes "checker_inv c" "d \<in> set (tc_regions c (PackageRegion p))" "e \<in> set (tc_regions c (PackageRegion q))" "keyOf c d = keyOf c e"
  shows "d = e"
proof -
  obtain s where s: "tc_subs c d = Some s" "getForwardDeclaration s = None" using public_decl [OF assms(1,2)] by metis
  obtain t where t: "tc_subs c e = Some t" "getForwardDeclaration t = None" using public_decl [OF assms(1,3)] by metis
  note l = links_invD(1) [OF checker_invD(2) [OF assms(1)] s(1)] links_invD(1) [OF checker_invD(2) [OF assms(1)] t(1)]
  show ?thesis
    using l assms(4) s t
    by (cases "sd_link s"; cases "sd_link t")
      (fastforce simp: keyOf_def getDefiningDeclaration_def getForwardDeclaration_def)+
qed

lemma addPublicInfos_spec:
  assumes "list_all (\<lambda>d. \<exists>k n. getKeySRDecl c d = Some k \<and> tab k = None \<and> getLinkName c p d = Some n) ds"
    "distinct (map (getKeySRDecl c) ds)"
  shows "\<exists>tab'. addPublicInfos c p ds tab = Some tab' \<and> tab \<subseteq>\<^sub>m tab' \<and> (\<forall>d \<in> set ds. tab' (the (getKeySRDecl c d)) = getLinkName c p d)"
  using assms
proof (induction ds arbitrary: tab)
  case Nil
  then show ?case by simp
next
  case (Cons d ds)
  from Cons(2) obtain k n where d: "getKeySRDecl c d = Some k" "tab k = None" "getLinkName c p d = Some n" by auto
  have "list_all (\<lambda>a. \<exists>k' m. getKeySRDecl c a = Some k' \<and> (tab(k \<mapsto> n)) k' = None \<and> getLinkName c p a = Some m) ds"
    unfolding list_all_iff
  proof
    fix a assume a: "a \<in> set ds"
    then obtain k' m where k': "getKeySRDecl c a = Some k'" "tab k' = None" "getLinkName c p a = Some m"
      using Cons(2) by (auto simp: list_all_iff)
    have "getKeySRDecl c d \<notin> getKeySRDecl c ` set ds" using Cons(3) by simp
    then have "getKeySRDecl c a \<noteq> getKeySRDecl c d" using a by (metis imageI)
    then show "\<exists>k' m. getKeySRDecl c a = Some k' \<and> (tab(k \<mapsto> n)) k' = None \<and> getLinkName c p a = Some m"
      using k' d(1) by simp
  qed
  moreover have "distinct (map (getKeySRDecl c) ds)" using Cons(3) by simp
  ultimately obtain tab' where t: "addPublicInfos c p ds (tab(k \<mapsto> n)) = Some tab'" "tab(k \<mapsto> n) \<subseteq>\<^sub>m tab'"
    "\<forall>d \<in> set ds. tab' (the (getKeySRDecl c d)) = getLinkName c p d" using Cons(1) by blast
  have "tab' k = Some n" using t(2) by (metis domI fun_upd_same map_le_def)
  moreover have "tab \<subseteq>\<^sub>m tab'" using t(2) d(2) by (force simp: map_le_def dom_def split: if_splits)
  ultimately show ?case using t(1,3) d by auto
qed

lemma addPrivateInfos_spec:
  assumes "list_all (\<lambda>d. getKeySRDecl c d \<noteq> None \<and> getLinkName c p d \<noteq> None) ds"
  shows "\<exists>tab'. addPrivateInfos c p ds tab = Some tab' \<and> tab \<subseteq>\<^sub>m tab' \<and> (\<forall>d \<in> set ds. tab' (the (getKeySRDecl c d)) \<noteq> None)"
  using assms
proof (induction ds arbitrary: tab)
  case Nil
  then show ?case by simp
next
  case (Cons d ds)
  from Cons(2) obtain k n where d: "getKeySRDecl c d = Some k" "getLinkName c p d = Some n" by auto
  define tab1 where "tab1 = (if tab k \<noteq> None then tab else tab(k \<mapsto> n))"
  have step: "addPrivateInfos c p (d # ds) tab = addPrivateInfos c p ds tab1" using d by (simp add: tab1_def)
  have le: "tab \<subseteq>\<^sub>m tab1" "tab1 k \<noteq> None" by (auto simp: tab1_def map_le_def)
  from Cons(1) [of tab1] Cons(2) obtain tab' where t: "addPrivateInfos c p ds tab1 = Some tab'" "tab1 \<subseteq>\<^sub>m tab'"
    "\<forall>d \<in> set ds. tab' (the (getKeySRDecl c d)) \<noteq> None" by auto
  have "tab' k \<noteq> None" using t(2) le(2) by (metis domIff map_le_def)
  then show ?case using step t d map_le_trans [OF le(1) t(2)] by auto
qed

lemma getOverloadIndex_private:
  assumes "checker_inv c" "hasPrivatePart c p" "d \<in> set (tc_regions c (PrivateRegion p))"
  shows "getOverloadIndex c d \<noteq> None"
proof -
  obtain s where s: "tc_subs c d = Some s" "sd_region s = Some (PrivateRegion p)"
    using regions_invD(2) [OF checker_invD(3) [OF assms(1)] assms(3)] by blast
  obtain j where "getRegionIndex c (tc_regions c (PrivateRegion p)) (sd_name s) (Some d) 0 = (True, j)"
    using getRegionIndex_total [OF assms(3) s(1) refl] by blast
  then show ?thesis using s assms(2) by (simp add: getOverloadIndex_def getPublicRegion_def)
qed

lemma getOverloadIndex_body:
  assumes "checker_inv c" "d \<in> set (tc_regions c (BodyRegion p))"
  shows "getOverloadIndex c d \<noteq> None"
proof -
  obtain s where s: "tc_subs c d = Some s" "sd_region s = Some (BodyRegion p)"
    using regions_invD(2) [OF checker_invD(3) [OF assms(1)] assms(2)] by blast
  have body: "bodyIndex c s d j \<noteq> None" for j
  proof -
    obtain m where "getRegionIndex c (tc_regions c (BodyRegion p)) (sd_name s) (Some d) j = (True, m)"
      using getRegionIndex_total [OF assms(2) s(1) refl] by blast
    then show ?thesis using s(2) by (simp add: bodyIndex_def)
  qed
  have "getPublicRegion c d = Some (p, getForwardDeclaration s)" using s by (simp add: getPublicRegion_def)
  then show ?thesis using s(1) body by (auto simp: getOverloadIndex_def Let_def split: prod.splits bool.splits)
qed

lemma instance_infos:
  assumes "checker_inv c" "tc_packages c p = Some k"
  shows "list_all (\<lambda>i. \<exists>key n. getKeySRDecl c i = Some key \<and> getLinkName c p i = Some n) (tc_regions c (InstanceRegion p))"
    "distinct (map (getKeySRDecl c) (tc_regions c (InstanceRegion p)))"
proof -
  have one: "\<exists>s d t. tc_subs c i = Some s \<and> sd_origin s = Some d \<and> tc_subs c d = Some t \<and> d \<in> set (tc_regions c (PackageRegion p))"
    if "i \<in> set (tc_regions c (InstanceRegion p))" for i
    using instance_decl [OF assms(1) that] by metis
  show "list_all (\<lambda>i. \<exists>key n. getKeySRDecl c i = Some key \<and> getLinkName c p i = Some n) (tc_regions c (InstanceRegion p))"
    unfolding list_all_iff
  proof
    fix i assume i: "i \<in> set (tc_regions c (InstanceRegion p))"
    then obtain s d t where s: "tc_subs c i = Some s" "sd_origin s = Some d" "tc_subs c d = Some t" using one by blast
    obtain x where "findPragma c i = Some x" using findPragma_total [OF assms(1) s(1)] by auto
    then have "getLinkName c p i \<noteq> None"
      using assms(2) s(1) getOverloadIndex_instance [OF assms(1) i s] by (cases x) (auto simp: getLinkName_def)
    then show "\<exists>key n. getKeySRDecl c i = Some key \<and> getLinkName c p i = Some n"
      using getKeySRDecl_instance [OF assms(1) i s(1,2)] by auto
  qed
  have "i = j" if ij: "i \<in> set (tc_regions c (InstanceRegion p))" "j \<in> set (tc_regions c (InstanceRegion p))"
    "getKeySRDecl c i = getKeySRDecl c j" for i j
  proof -
    obtain s d where s: "tc_subs c i = Some s" "sd_origin s = Some d" "d \<in> set (tc_regions c (PackageRegion p))" using one [OF ij(1)] by blast
    obtain t e where t: "tc_subs c j = Some t" "sd_origin t = Some e" "e \<in> set (tc_regions c (PackageRegion p))" using one [OF ij(2)] by blast
    have "keyOf c d = keyOf c e"
      using getKeySRDecl_instance [OF assms(1) ij(1) s(1,2)] getKeySRDecl_instance [OF assms(1) ij(2) t(1,2)] ij(3) by simp
    then have "d = e" using keyOf_inj [OF assms(1) s(3) t(3)] by blast
    then have "sd_origin (the (tc_subs c i)) = sd_origin (the (tc_subs c j))" using s t by simp
    then show ?thesis
      using instances_invD(3) [OF checker_invD(4) [OF assms(1)]] ij(1,2) by (auto simp: distinct_map inj_on_def)
  qed
  then show "distinct (map (getKeySRDecl c) (tc_regions c (InstanceRegion p)))"
    using regions_invD(1) [OF checker_invD(3) [OF assms(1)]] by (auto simp: distinct_map inj_on_def)
qed

lemma private_infos:
  assumes "checker_inv c" "tc_packages c p = Some k" "r \<in> {PrivateRegion p, BodyRegion p}" "r = PrivateRegion p \<Longrightarrow> hasPrivatePart c p"
  shows "list_all (\<lambda>d. getKeySRDecl c d \<noteq> None \<and> getLinkName c p d \<noteq> None) (tc_regions c r)"
  unfolding list_all_iff
proof
  fix d assume d: "d \<in> set (tc_regions c r)"
  obtain s where s: "tc_subs c d = Some s" using regions_invD(2) [OF checker_invD(3) [OF assms(1)] d] by blast
  obtain x where x: "findPragma c d = Some x" using findPragma_total [OF assms(1) s] by auto
  have "getOverloadIndex c d \<noteq> None"
    using getOverloadIndex_private [OF assms(1)] getOverloadIndex_body [OF assms(1)] assms(3,4) d by blast
  then have "getLinkName c p d \<noteq> None" using assms(2) s x by (cases x) (auto simp: getLinkName_def)
  moreover have "getKeySRDecl c d \<noteq> None" using getKeySRDecl_listed [OF assms(1) d, of p] assms(3) by auto
  ultimately show "getKeySRDecl c d \<noteq> None \<and> getLinkName c p d \<noteq> None" by blast
qed

lemma populateInfoTable_spec:
  assumes "checker_inv c" "tc_packages c p = Some k"
  shows "\<exists>tab. populateInfoTable c p = Some tab \<and>
    (\<forall>i \<in> set (tc_regions c (InstanceRegion p)). lookupSRInfo c tab i = getLinkName c p i \<and> getLinkName c p i \<noteq> None) \<and>
    (pk_body k \<longrightarrow> (\<forall>d \<in> set (tc_regions c (BodyRegion p)). lookupSRInfo c tab d \<noteq> None))"
proof -
  note infos = instance_infos [OF assms]
  obtain tab1 where t1: "addPublicInfos c p (tc_regions c (InstanceRegion p)) (\<lambda>_. None) = Some tab1"
    "\<forall>d \<in> set (tc_regions c (InstanceRegion p)). tab1 (the (getKeySRDecl c d)) = getLinkName c p d"
    using addPublicInfos_spec [of c "\<lambda>_. None" p "tc_regions c (InstanceRegion p)"] infos by auto
  have "\<exists>tab2. (if hasPrivatePart c p then addPrivateInfos c p (tc_regions c (PrivateRegion p)) tab1 else Some tab1) = Some tab2 \<and> tab1 \<subseteq>\<^sub>m tab2"
    using addPrivateInfos_spec [OF private_infos [OF assms, of "PrivateRegion p"], of tab1] by auto
  then obtain tab2 where t2: "(if hasPrivatePart c p then addPrivateInfos c p (tc_regions c (PrivateRegion p)) tab1 else Some tab1) = Some tab2"
    "tab1 \<subseteq>\<^sub>m tab2" by blast
  have "list_all (\<lambda>d. getKeySRDecl c d \<noteq> None \<and> getLinkName c p d \<noteq> None) (tc_regions c (BodyRegion p))"
    by (rule private_infos [OF assms]) simp_all
  from addPrivateInfos_spec [OF this, of tab2] obtain tab3 where t3:
    "(if pk_body k then addPrivateInfos c p (tc_regions c (BodyRegion p)) tab2 else Some tab2) = Some tab3" "tab2 \<subseteq>\<^sub>m tab3"
    "pk_body k \<longrightarrow> (\<forall>d \<in> set (tc_regions c (BodyRegion p)). tab3 (the (getKeySRDecl c d)) \<noteq> None)" by (cases "pk_body k") auto
  have pop: "populateInfoTable c p = Some tab3" using t1(1) t2(1) t3(1) assms(2) by (simp add: populateInfoTable_def)
  have "lookupSRInfo c tab3 i = getLinkName c p i \<and> getLinkName c p i \<noteq> None" if i: "i \<in> set (tc_regions c (InstanceRegion p))" for i
  proof -
    obtain key n where key: "getKeySRDecl c i = Some key" "getLinkName c p i = Some n" using infos(1) i by (auto simp: list_all_iff)
    then have "tab1 key = Some n" using t1(2) i by force
    then have "tab3 key = Some n" using t2(2) t3(2) by (metis domI map_le_def)
    then show ?thesis using key by (simp add: lookupSRInfo_def)
  qed
  moreover have "lookupSRInfo c tab3 d \<noteq> None" if "pk_body k" "d \<in> set (tc_regions c (BodyRegion p))" for d
    using t3(3) that private_infos [OF assms, of "BodyRegion p"] by (fastforce simp: lookupSRInfo_def list_all_iff)
  ultimately show ?thesis using pop by blast
qed

section \<open>Properties\<close>

lemma runUnit_inv: "runUnit ts newChecker = Some c \<Longrightarrow> checker_inv c \<and> packages_inv c"
  using runUnit_top [OF _ newChecker_top] by (simp add: top_inv_def)

text \<open>
  C13. Two public subroutines of the packages of checked units that are not imported have different link names, as long as
  the names of packages and subroutines have no two underscores in a row, end in none and do not start with the digit that marks
  an operator: equal link names belong to packages of one name, and within a package to one subroutine.
\<close>

theorem link_names_distinct:
  assumes "runUnit ts newChecker = Some c" "i \<in> set (tc_regions c (InstanceRegion p))" "j \<in> set (tc_regions c (InstanceRegion q))"
    "getLinkName c p i = Some n" "getLinkName c q j = Some n" "findPragma c i = Some None" "findPragma c j = Some None"
    "\<And>r k. tc_packages c r = Some k \<Longrightarrow> plainName (pk_name k)" "\<And>d s. tc_subs c d = Some s \<Longrightarrow> subroutineName (sd_name s)"
  shows "map_option pk_name (tc_packages c p) = map_option pk_name (tc_packages c q) \<and>
    map_option sd_name (tc_subs c i) = map_option sd_name (tc_subs c j) \<and> (p = q \<longrightarrow> i = j)"
proof -
  have inv: "checker_inv c" using runUnit_inv [OF assms(1)] by blast
  obtain s d t where s: "tc_subs c i = Some s" "sd_origin s = Some d" "tc_subs c d = Some t" "d \<in> set (tc_regions c (PackageRegion p))" "sd_name s = sd_name t"
    using instance_decl [OF inv assms(2)] by metis
  obtain u e v where u: "tc_subs c j = Some u" "sd_origin u = Some e" "tc_subs c e = Some v" "e \<in> set (tc_regions c (PackageRegion q))" "sd_name u = sd_name v"
    using instance_decl [OF inv assms(3)] by metis
  obtain k where k: "tc_packages c p = Some k" "n = linkNameOf (pk_name k) (sd_name s) (publicIndex c p (sd_name t) d)"
    using getLinkName_plainD [OF assms(6,4)] getOverloadIndex_instance [OF inv assms(2) s(1-3)] s(1) by (metis option.inject)
  obtain l where l: "tc_packages c q = Some l" "n = linkNameOf (pk_name l) (sd_name u) (publicIndex c q (sd_name v) e)"
    using getLinkName_plainD [OF assms(7,5)] getOverloadIndex_instance [OF inv assms(3) u(1-3)] u(1) by (metis option.inject)
  have eq: "pk_name k = pk_name l \<and> sd_name s = sd_name u \<and> publicIndex c p (sd_name t) d = publicIndex c q (sd_name v) e"
    by (rule linkNameOf_inj) (use k l assms(8,9) s(1) u(1) in auto)
  have "i = j" if "p = q"
  proof -
    have "d = e"
      using getRegionIndex_inj [OF s(4) _ s(3) refl _ u(3), of 0] u(4) eq s(5) u(5) that public_decl [OF inv s(4)] s(3) public_decl [OF inv u(4)] u(3)
      unfolding publicIndex_def by (metis option.inject)
    then have "sd_origin (the (tc_subs c i)) = sd_origin (the (tc_subs c j))" using s u by simp
    then show ?thesis
      using instances_invD(3) [OF checker_invD(4) [OF inv]] assms(2,3) that by (auto simp: distinct_map inj_on_def)
  qed
  then show ?thesis using eq k(1) l(1) s(1) u(1) by simp
qed

definition linkUnit :: "toplevel list" where
  "linkUnit = [PackageSpec ''A'' [SpecDeclaration False (sampleSub ''F''),
       SpecDeclaration False \<lparr>ss_function = False, ss_name = ''F'', ss_params = [(''X'', Some (OtherType 8), MODE_IN)], ss_return = None\<rparr>,
       SpecReference 0] None,
     PackageBody ''A'' [Definition (sampleSub ''F'') []]]"

lemma linkUnit_facts:
  "case runUnit linkUnit newChecker of None \<Rightarrow> False | Some c \<Rightarrow>
     tc_regions c (InstanceRegion 0) = [5, 6] \<and> findPragma c 5 = Some None \<and> findPragma c 6 = Some None \<and>
     getLinkName c 0 5 = Some ''A__F'' \<and> map_option sd_origin (tc_subs c 5) = Some (Some 2) \<and>
     list_all (\<lambda>d. case tc_subs c d of Some s \<Rightarrow> subroutineName (sd_name s) | None \<Rightarrow> True) [0..<tc_next c] \<and>
     list_all (\<lambda>r. case tc_packages c r of Some k \<Rightarrow> plainName (pk_name k) | None \<Rightarrow> True) [0..<tc_next c]"
  by code_simp

theorem link_names_distinct_witness:
  "\<exists>c. runUnit linkUnit newChecker = Some c \<and> getLinkName c 0 5 \<noteq> getLinkName c 0 6"
proof -
  obtain c where c: "runUnit linkUnit newChecker = Some c" using linkUnit_facts by (auto split: option.splits)
  note f = linkUnit_facts [unfolded c option.case]
  have inv: "checker_inv c \<and> packages_inv c" by (rule runUnit_inv [OF c])
  have pk: "plainName (pk_name k)" if "tc_packages c r = Some k" for r k
    using f that inv by (force simp: list_all_iff packages_inv_def)
  have sb: "subroutineName (sd_name s)" if "tc_subs c d = Some s" for d s
    using f that checker_invD(1) [of c d s] inv by (force simp: list_all_iff)
  have "getLinkName c 0 6 \<noteq> Some ''A__F''"
  proof
    assume "getLinkName c 0 6 = Some ''A__F''"
    from link_names_distinct [OF c _ _ _ this _ _ pk sb, of 5 0] f show False by auto
  qed
  then show ?thesis using c f by auto
qed



text \<open>There is no link name for an exception of a body whose package has a private part.\<close>

lemma private_exception_name:
  "tc_packages c p = Some k \<Longrightarrow> pk_private k \<Longrightarrow> getExceptionLinkName c (BodyRegion p) name = None"
  by (simp add: getExceptionLinkName_def getParent_def)

lemma private_name_collides:
  "map_option (\<lambda>c. (getLinkName c 0 2, getLinkName c 0 6)) (runUnit [PackageSpec ''A'' [SpecDeclaration False (sampleSub ''F'')] None,
     PackageBody ''A'' [Definition (sampleSub ''F'') [],
       Definition \<lparr>ss_function = False, ss_name = ''F'', ss_params = [(''X'', Some (OtherType 8), MODE_IN)], ss_return = None\<rparr> []]] newChecker) =
     Some (Some ''A__F'', Some ''A__F'')"
  by code_simp


end
