(* ===== verification/Emission.thy ===== *)
theory Emission
  imports Prelude
begin

text \<open>
  The order in which \<^verbatim>\<open>lib/codegen/CodeGen.cpp\<close> emits packages.  The table of instances grows while
  bodies are emitted, as direct calls (\<^verbatim>\<open>CodeGenCall.cpp\<close>) ask for the instances of their packages.

  Parameters: the calls a body makes to other packages, in the order of emission, and the order in which the hash table
  of instances is walked.  \<open>None\<close> is a failed assertion or a loop that does not end.
\<close>

section \<open>The table of instances\<close>

datatype package_call = DirectCall nat | ForeignCall nat

record emitter =
  em_table :: "(nat \<times> bool) list"
  em_current :: "nat option"
  em_log :: "nat list"

definition lookupInstanceInfo :: "nat \<Rightarrow> emitter \<Rightarrow> bool option" where
  "lookupInstanceInfo p e = map_of (em_table e) p"

definition createInstanceInfo :: "nat \<Rightarrow> emitter \<Rightarrow> emitter option" where
  "createInstanceInfo p e =
     (if lookupInstanceInfo p e \<noteq> None then None else Some (e\<lparr>em_table := (p, False) # em_table e\<rparr>))"

definition markAsCompiled :: "nat \<Rightarrow> emitter \<Rightarrow> emitter" where
  "markAsCompiled p e = e\<lparr>em_table := map (\<lambda>(q, b). (q, b \<or> q = p)) (em_table e)\<rparr>"

definition extendWorklist :: "nat \<Rightarrow> emitter \<Rightarrow> emitter option" where
  "extendWorklist p e = (if lookupInstanceInfo p e \<noteq> None then Some e else createInstanceInfo p e)"

text \<open>A direct call makes sure that there is an instance, a foreign call expects one.\<close>

definition prepareCall :: "package_call \<Rightarrow> emitter \<Rightarrow> emitter option" where
  "prepareCall call e =
     (case call of
        DirectCall q \<Rightarrow> extendWorklist q e
      | ForeignCall q \<Rightarrow> (if lookupInstanceInfo q e = None then None else Some e))"

fun emitCalls :: "package_call list \<Rightarrow> emitter \<Rightarrow> emitter option" where
  "emitCalls [] e = Some e"
| "emitCalls (call # cs) e = (case prepareCall call e of None \<Rightarrow> None | Some e1 \<Rightarrow> emitCalls cs e1)"

section \<open>Emission\<close>

definition emitPackage :: "(nat \<Rightarrow> package_call list) \<Rightarrow> nat \<Rightarrow> emitter \<Rightarrow> emitter option" where
  "emitPackage calls p e =
     (case emitCalls (calls p) (e\<lparr>em_current := Some p\<rparr>) of
        None \<Rightarrow> None
      | Some e1 \<Rightarrow> Some ((markAsCompiled p e1)\<lparr>em_current := None, em_log := em_log e @ [p]\<rparr>))"

definition instancesPending :: "((nat \<times> bool) list \<Rightarrow> (nat \<times> bool) list) \<Rightarrow> emitter \<Rightarrow> bool" where
  "instancesPending order e \<longleftrightarrow> list_ex (\<lambda>(p, compiled). \<not> compiled) (order (em_table e))"

definition emitNextInstance ::
    "(nat \<Rightarrow> package_call list) \<Rightarrow> ((nat \<times> bool) list \<Rightarrow> (nat \<times> bool) list) \<Rightarrow> emitter \<Rightarrow> emitter option" where
  "emitNextInstance calls order e =
     (case find (\<lambda>(p, compiled). \<not> compiled) (order (em_table e)) of
        None \<Rightarrow> Some e
      | Some (p, compiled) \<Rightarrow> emitPackage calls p e)"

partial_function (option) emitPending ::
    "(nat \<Rightarrow> package_call list) \<Rightarrow> ((nat \<times> bool) list \<Rightarrow> (nat \<times> bool) list) \<Rightarrow> emitter \<Rightarrow> emitter option" where
  "emitPending calls order e =
     (if instancesPending order e
      then (case emitNextInstance calls order e of None \<Rightarrow> None | Some e1 \<Rightarrow> emitPending calls order e1)
      else Some e)"

declare emitPending.simps [code]

definition emitToplevelDecl ::
    "(nat \<Rightarrow> package_call list) \<Rightarrow> ((nat \<times> bool) list \<Rightarrow> (nat \<times> bool) list) \<Rightarrow> nat \<Rightarrow> emitter \<Rightarrow> emitter option" where
  "emitToplevelDecl calls order p e =
     (case createInstanceInfo p e of
        None \<Rightarrow> None
      | Some e1 \<Rightarrow> (case emitPackage calls p e1 of None \<Rightarrow> None | Some e2 \<Rightarrow> emitPending calls order e2))"

fun addDependencies :: "nat list \<Rightarrow> emitter \<Rightarrow> emitter option" where
  "addDependencies [] e = Some e"
| "addDependencies (p # ps) e =
     (case createInstanceInfo p e of None \<Rightarrow> None | Some e1 \<Rightarrow> addDependencies ps (markAsCompiled p e1))"

fun emitDeclarations ::
    "(nat \<Rightarrow> package_call list) \<Rightarrow> ((nat \<times> bool) list \<Rightarrow> (nat \<times> bool) list) \<Rightarrow> nat list \<Rightarrow> emitter \<Rightarrow> emitter option" where
  "emitDeclarations calls order [] e = Some e"
| "emitDeclarations calls order (p # ps) e =
     (case emitToplevelDecl calls order p e of None \<Rightarrow> None | Some e1 \<Rightarrow> emitDeclarations calls order ps e1)"

definition newEmitter :: emitter where
  "newEmitter = \<lparr>em_table = [], em_current = None, em_log = []\<rparr>"

definition emitCompilationUnit ::
    "(nat \<Rightarrow> package_call list) \<Rightarrow> ((nat \<times> bool) list \<Rightarrow> (nat \<times> bool) list) \<Rightarrow> nat list \<Rightarrow> nat list \<Rightarrow> emitter option" where
  "emitCompilationUnit calls order deps decls =
     (case addDependencies deps newEmitter of None \<Rightarrow> None | Some e \<Rightarrow> emitDeclarations calls order decls e)"

section \<open>The packages a unit needs\<close>

text \<open>A package is needed when it is declared or called directly from a needed one, unless another unit emits it.\<close>

inductive needed :: "(nat \<Rightarrow> package_call list) \<Rightarrow> nat set \<Rightarrow> nat set \<Rightarrow> nat \<Rightarrow> bool" for calls deps decls where
  needed_declared: "p \<in> decls \<Longrightarrow> needed calls deps decls p"
| needed_called: "needed calls deps decls p \<Longrightarrow> DirectCall q \<in> set (calls p) \<Longrightarrow> q \<notin> deps \<Longrightarrow> needed calls deps decls q"

definition tableKeys :: "emitter \<Rightarrow> nat set" where
  "tableKeys e = fst ` set (em_table e)"

definition compiledKeys :: "emitter \<Rightarrow> nat set" where
  "compiledKeys e = {p. (p, True) \<in> set (em_table e)}"

definition directCalls :: "package_call list \<Rightarrow> nat set" where
  "directCalls cs = {q. DirectCall q \<in> set cs}"

lemma directCalls_simps [simp]:
  "directCalls [] = {}" "directCalls (DirectCall q # cs) = insert q (directCalls cs)" "directCalls (ForeignCall q # cs) = directCalls cs"
  by (auto simp: directCalls_def)

lemma lookupInstanceInfo_None: "lookupInstanceInfo p e = None \<longleftrightarrow> p \<notin> tableKeys e"
  by (simp add: lookupInstanceInfo_def tableKeys_def map_of_eq_None_iff)

lemma markAsCompiled_keys [simp]:
  "tableKeys (markAsCompiled p e) = tableKeys e" "em_log (markAsCompiled p e) = em_log e"
  "distinct (map fst (em_table (markAsCompiled p e))) = distinct (map fst (em_table e))"
  by (force simp: markAsCompiled_def tableKeys_def, simp add: markAsCompiled_def, simp add: markAsCompiled_def case_prod_beta comp_def)

lemma markAsCompiled_compiled:
  "compiledKeys (markAsCompiled p e) = compiledKeys e \<union> ({p} \<inter> tableKeys e)"
  by (force simp: markAsCompiled_def tableKeys_def compiledKeys_def)

lemma createInstanceInfo_spec:
  "createInstanceInfo p e = (if p \<in> tableKeys e then None else Some (e\<lparr>em_table := (p, False) # em_table e\<rparr>))"
  using lookupInstanceInfo_None [of p e] by (auto simp: createInstanceInfo_def)

text \<open>The calls of a body only add instances that are not compiled.\<close>

lemma emitCalls_spec:
  assumes "emitCalls cs e = Some e'" "distinct (map fst (em_table e))"
  shows "tableKeys e' = tableKeys e \<union> directCalls cs \<and> compiledKeys e' = compiledKeys e \<and> distinct (map fst (em_table e')) \<and> em_log e' = em_log e"
  using assms
proof (induction cs e rule: emitCalls.induct)
  case (1 e)
  then show ?case by simp
next
  case (2 call cs e)
  obtain e1 where e1: "prepareCall call e = Some e1" "emitCalls cs e1 = Some e'" using 2(2) by (auto split: option.splits)
  have s: "tableKeys e1 = tableKeys e \<union> directCalls [call] \<and> compiledKeys e1 = compiledKeys e \<and> distinct (map fst (em_table e1)) \<and> em_log e1 = em_log e"
    using e1(1) 2(3) lookupInstanceInfo_None [of _ e]
    by (cases call) (auto simp: prepareCall_def extendWorklist_def createInstanceInfo_spec tableKeys_def compiledKeys_def split: if_splits)
  from 2(1) [OF e1] s have "tableKeys e' = tableKeys e1 \<union> directCalls cs \<and> compiledKeys e' = compiledKeys e1 \<and>
    distinct (map fst (em_table e')) \<and> em_log e' = em_log e1" by blast
  then show ?case using s by (cases call) auto
qed

lemma emitCalls_total: "(\<And>q. ForeignCall q \<notin> set cs) \<Longrightarrow> emitCalls cs e \<noteq> None"
proof (induction cs arbitrary: e)
  case (Cons call cs)
  obtain q where q: "call = DirectCall q" using Cons(2) by (cases call) auto
  have "prepareCall call e \<noteq> None"
    using lookupInstanceInfo_None [of q e] by (simp add: q prepareCall_def extendWorklist_def createInstanceInfo_spec)
  then show ?case using Cons by auto
qed simp

section \<open>The invariant of the loop\<close>

definition worklist_inv :: "(nat \<Rightarrow> package_call list) \<Rightarrow> nat set \<Rightarrow> nat set \<Rightarrow> emitter \<Rightarrow> bool" where
  "worklist_inv calls deps decls e \<longleftrightarrow> distinct (map fst (em_table e)) \<and> distinct (em_log e) \<and>
     compiledKeys e = deps \<union> set (em_log e) \<and> deps \<inter> set (em_log e) = {} \<and>
     (\<forall>p \<in> set (em_log e). directCalls (calls p) \<subseteq> tableKeys e) \<and>
     decls \<subseteq> tableKeys e \<and> deps \<inter> decls = {} \<and> tableKeys e \<subseteq> deps \<union> Collect (needed calls deps decls)"

lemma compiled_sub: "compiledKeys e \<subseteq> tableKeys e"
  by (force simp: compiledKeys_def tableKeys_def)

lemma emitPackage_inv:
  assumes "worklist_inv calls deps decls e" "p \<in> tableKeys e" "p \<notin> compiledKeys e" "emitPackage calls p e = Some e'"
  shows "worklist_inv calls deps decls e' \<and> compiledKeys e' = insert p (compiledKeys e)"
proof -
  obtain e1 where e1: "emitCalls (calls p) (e\<lparr>em_current := Some p\<rparr>) = Some e1"
    and e': "e' = (markAsCompiled p e1)\<lparr>em_current := None, em_log := em_log e @ [p]\<rparr>"
    using assms(4) by (auto simp: emitPackage_def split: option.splits)
  have i: "distinct (map fst (em_table (e\<lparr>em_current := Some p\<rparr>)))" using assms(1) by (simp add: worklist_inv_def)
  have s: "tableKeys e1 = tableKeys e \<union> directCalls (calls p)" "compiledKeys e1 = compiledKeys e" "distinct (map fst (em_table e1))"
    using emitCalls_spec [OF e1 i] by (simp_all add: tableKeys_def compiledKeys_def)
  have k: "tableKeys e' = tableKeys e \<union> directCalls (calls p)" "compiledKeys e' = insert p (compiledKeys e)"
    "distinct (map fst (em_table e'))" "em_log e' = em_log e @ [p]"
    using markAsCompiled_keys [of p e1] markAsCompiled_compiled [of p e1] s assms(2) unfolding e' by (auto simp: tableKeys_def compiledKeys_def)
  have "needed calls deps decls p" using assms(1-3) by (auto simp: worklist_inv_def)
  then have "directCalls (calls p) \<subseteq> deps \<union> Collect (needed calls deps decls)"
    by (auto simp: directCalls_def intro: needed_called)
  then show ?thesis using assms(1-3) k by (auto simp: worklist_inv_def)
qed

text \<open>When nothing is pending, what was emitted is what is needed.\<close>

lemma worklist_done:
  assumes "worklist_inv calls deps decls e" "compiledKeys e = tableKeys e"
  shows "set (em_log e) = Collect (needed calls deps decls)"
proof
  show "set (em_log e) \<subseteq> Collect (needed calls deps decls)"
    using assms compiled_sub [of e] by (auto simp: worklist_inv_def)
  have "needed calls deps decls p \<Longrightarrow> p \<in> set (em_log e)" for p
  proof (induction rule: needed.induct)
    case (needed_declared p)
    then show ?case using assms by (auto simp: worklist_inv_def)
  next
    case (needed_called p q)
    then have "q \<in> tableKeys e" using assms(1) unfolding worklist_inv_def directCalls_def by blast
    then show ?case using assms needed_called(3) by (simp add: worklist_inv_def)
  qed
  then show "Collect (needed calls deps decls) \<subseteq> set (em_log e)" by blast
qed

definition walks :: "((nat \<times> bool) list \<Rightarrow> (nat \<times> bool) list) \<Rightarrow> bool" where
  "walks order \<longleftrightarrow> (\<forall>xs. set (order xs) = set xs)"

lemma instancesPending_iff:
  assumes "walks order" "distinct (map fst (em_table e))"
  shows "instancesPending order e \<longleftrightarrow> compiledKeys e \<noteq> tableKeys e"
proof -
  have "instancesPending order e \<longleftrightarrow> (\<exists>p. (p, False) \<in> set (em_table e))"
    using assms(1) by (force simp: instancesPending_def list_ex_iff walks_def)
  also have "\<dots> \<longleftrightarrow> compiledKeys e \<noteq> tableKeys e"
  proof
    assume "\<exists>p. (p, False) \<in> set (em_table e)"
    then obtain p where p: "(p, False) \<in> set (em_table e)" by blast
    then have "(p, True) \<notin> set (em_table e)" using assms(2) by (metis eq_key_imp_eq_value)
    then show "compiledKeys e \<noteq> tableKeys e" using p by (force simp: compiledKeys_def tableKeys_def)
  next
    assume "compiledKeys e \<noteq> tableKeys e"
    then obtain p b where "(p, b) \<in> set (em_table e)" "(p, True) \<notin> set (em_table e)"
      by (force simp: compiledKeys_def tableKeys_def)
    then show "\<exists>p. (p, False) \<in> set (em_table e)" by (cases b) auto
  qed
  finally show ?thesis .
qed

lemma emitNextInstance_spec:
  fixes e :: emitter
  assumes "walks order" "distinct (map fst (em_table e))" "instancesPending order e"
  obtains p where "p \<in> tableKeys e" "p \<notin> compiledKeys e" "emitNextInstance calls order e = emitPackage calls p e"
proof -
  obtain x where x: "find (\<lambda>(p, compiled). \<not> compiled) (order (em_table e)) = Some x"
    using assms(3) by (cases "find (\<lambda>(p, compiled). \<not> compiled) (order (em_table e))")
      (auto simp: instancesPending_def list_ex_iff find_None_iff)
  then have m: "x \<in> set (order (em_table e))" "\<not> snd x" by (auto simp: find_Some_iff case_prod_beta)
  then have "x \<in> set (em_table e)" using assms(1) by (simp add: walks_def)
  then have "(fst x, False) \<in> set (em_table e)" using m(2) by (metis (full_types) prod.collapse)
  moreover from this have "(fst x, True) \<notin> set (em_table e)" using assms(2) by (metis eq_key_imp_eq_value)
  moreover have "emitNextInstance calls order e = emitPackage calls (fst x) e" using x by (cases x) (simp add: emitNextInstance_def)
  ultimately have "fst x \<in> tableKeys e" "fst x \<notin> compiledKeys e" "emitNextInstance calls order e = emitPackage calls (fst x) e"
    using imageI [of "(fst x, False)" "set (em_table e)" fst] by (simp_all add: tableKeys_def compiledKeys_def)
  then show ?thesis by (rule that)
qed

lemma emitPending_done:
  assumes "walks order" "worklist_inv calls deps decls e" "finite U" "deps \<union> Collect (needed calls deps decls) \<subseteq> U"
    "\<And>p q. needed calls deps decls p \<Longrightarrow> ForeignCall q \<notin> set (calls p)"
  shows "\<exists>e'. emitPending calls order e = Some e' \<and> worklist_inv calls deps decls e' \<and> compiledKeys e' = tableKeys e'"
  using assms(2)
proof (induction "card (U - compiledKeys e)" arbitrary: e rule: less_induct)
  case less
  have d: "distinct (map fst (em_table e))" using less(2) by (simp add: worklist_inv_def)
  show ?case
  proof (cases "instancesPending order e")
    case False
    then show ?thesis using less(2) instancesPending_iff [OF assms(1) d] by (simp add: emitPending.simps)
  next
    case True
    obtain p where p: "p \<in> tableKeys e" "p \<notin> compiledKeys e" "emitNextInstance calls order e = emitPackage calls p e"
      using emitNextInstance_spec [OF assms(1) d True] by blast
    have need: "needed calls deps decls p" using less(2) p(1,2) by (auto simp: worklist_inv_def)
    obtain e1 where e1: "emitPackage calls p e = Some e1"
      using emitCalls_total [OF assms(5) [OF need], of "e\<lparr>em_current := Some p\<rparr>"] by (auto simp: emitPackage_def split: option.splits)
    note i = emitPackage_inv [OF less(2) p(1,2) e1]
    have "p \<in> U" using need assms(4) by blast
    then have "card (U - compiledKeys e1) < card (U - compiledKeys e)"
      using i p(2) assms(3) by (intro psubset_card_mono) auto
    from less(1) [OF this] i p(3) e1 True show ?thesis by (simp add: emitPending.simps [of calls order e])
  qed
qed

section \<open>Dependencies and declarations\<close>

lemma addDependencies_spec:
  assumes "distinct ps" "set ps \<inter> tableKeys e = {}" "compiledKeys e = tableKeys e" "distinct (map fst (em_table e))" "em_log e = []"
  shows "\<exists>e'. addDependencies ps e = Some e' \<and> tableKeys e' = tableKeys e \<union> set ps \<and> compiledKeys e' = tableKeys e' \<and>
    distinct (map fst (em_table e')) \<and> em_log e' = []"
  using assms
proof (induction ps arbitrary: e)
  case (Cons p ps)
  define e1 where "e1 = e\<lparr>em_table := (p, False) # em_table e\<rparr>"
  have c: "createInstanceInfo p e = Some e1" using Cons(3) by (simp add: createInstanceInfo_spec e1_def)
  have k: "tableKeys e1 = insert p (tableKeys e)" "compiledKeys e1 = compiledKeys e" "distinct (map fst (em_table e1))"
    using Cons(3,5) by (auto simp: e1_def tableKeys_def compiledKeys_def)
  have "\<exists>e'. addDependencies ps (markAsCompiled p e1) = Some e' \<and> tableKeys e' = tableKeys (markAsCompiled p e1) \<union> set ps \<and>
    compiledKeys e' = tableKeys e' \<and> distinct (map fst (em_table e')) \<and> em_log e' = []"
    by (rule Cons(1)) (use Cons(2-6) k markAsCompiled_compiled [of p e1] in \<open>auto simp: e1_def\<close>)
  then show ?case using c k(1) by auto
qed auto

lemma needed_mono: "needed calls deps ds p \<Longrightarrow> ds \<subseteq> ds' \<Longrightarrow> needed calls deps ds' p"
  by (induction rule: needed.induct) (auto intro: needed.intros)

lemma emitToplevelDecl_spec:
  assumes "walks order" "worklist_inv calls deps decls e" "compiledKeys e = tableKeys e"
    "finite U" "deps \<union> Collect (needed calls deps (insert d decls)) \<subseteq> U"
    "\<And>p q. needed calls deps (insert d decls) p \<Longrightarrow> ForeignCall q \<notin> set (calls p)"
  shows "if d \<in> deps \<or> needed calls deps decls d then emitToplevelDecl calls order d e = None
    else \<exists>e'. emitToplevelDecl calls order d e = Some e' \<and> worklist_inv calls deps (insert d decls) e' \<and> compiledKeys e' = tableKeys e'"
proof (cases "d \<in> tableKeys e")
  case True
  then have "d \<in> deps \<or> needed calls deps decls d" using assms(2) by (auto simp: worklist_inv_def)
  then show ?thesis using True by (simp add: emitToplevelDecl_def createInstanceInfo_spec)
next
  case False
  have "tableKeys e = deps \<union> Collect (needed calls deps decls)"
    using worklist_done [OF assms(2,3)] assms(2,3) by (simp add: worklist_inv_def)
  then have fresh: "\<not> (d \<in> deps \<or> needed calls deps decls d)" using False by blast
  define e1 where "e1 = e\<lparr>em_table := (d, False) # em_table e\<rparr>"
  have k: "tableKeys e1 = insert d (tableKeys e)" "compiledKeys e1 = compiledKeys e" by (auto simp: e1_def tableKeys_def compiledKeys_def)
  have mono: "needed calls deps decls p \<Longrightarrow> needed calls deps (insert d decls) p" for p by (rule needed_mono) auto
  have dd: "needed calls deps (insert d decls) d" by (rule needed_declared) simp
  have "d \<notin> set (map fst (em_table e))" using False by (simp add: tableKeys_def)
  moreover have "\<forall>p \<in> set (em_log e). directCalls (calls p) \<subseteq> insert d (tableKeys e)" using assms(2) unfolding worklist_inv_def by blast
  moreover have "tableKeys e \<subseteq> deps \<union> Collect (needed calls deps (insert d decls))" using assms(2) mono unfolding worklist_inv_def by blast
  ultimately have i1: "worklist_inv calls deps (insert d decls) e1"
    using assms(2) fresh k dd by (auto simp: worklist_inv_def e1_def)
  have p: "d \<in> tableKeys e1" "d \<notin> compiledKeys e1" using k False compiled_sub [of e] by auto
  obtain e2 where e2: "emitPackage calls d e1 = Some e2"
    using emitCalls_total [OF assms(6) [OF dd], of "e1\<lparr>em_current := Some d\<rparr>"] by (auto simp: emitPackage_def split: option.splits)
  note i2 = emitPackage_inv [OF i1 p e2]
  obtain e3 where "emitPending calls order e2 = Some e3" "worklist_inv calls deps (insert d decls) e3" "compiledKeys e3 = tableKeys e3"
    using emitPending_done [OF assms(1) conjunct1 [OF i2] assms(4,5,6)] by blast
  moreover have "createInstanceInfo d e = Some e1" using False by (simp add: createInstanceInfo_spec e1_def)
  ultimately show ?thesis using fresh e2 by (simp add: emitToplevelDecl_def)
qed

lemma emitDeclarations_spec:
  assumes "walks order" "worklist_inv calls deps decls e" "compiledKeys e = tableKeys e"
    "finite U" "deps \<union> Collect (needed calls deps (decls \<union> set ds)) \<subseteq> U"
    "\<And>p q. needed calls deps (decls \<union> set ds) p \<Longrightarrow> ForeignCall q \<notin> set (calls p)"
  shows "case emitDeclarations calls order ds e of
      None \<Rightarrow> \<exists>xs d ys. ds = xs @ d # ys \<and> (d \<in> deps \<or> needed calls deps (decls \<union> set xs) d)
    | Some e' \<Rightarrow> worklist_inv calls deps (decls \<union> set ds) e' \<and> compiledKeys e' = tableKeys e' \<and>
        (\<forall>xs d ys. ds = xs @ d # ys \<longrightarrow> \<not> (d \<in> deps \<or> needed calls deps (decls \<union> set xs) d))"
  using assms(2,3,5,6)
proof (induction ds arbitrary: e decls)
  case Nil
  then show ?case by simp
next
  case (Cons d ds)
  have sub: "needed calls deps (insert d decls) p \<Longrightarrow> needed calls deps (decls \<union> set (d # ds)) p" for p by (rule needed_mono) auto
  have one: "if d \<in> deps \<or> needed calls deps decls d then emitToplevelDecl calls order d e = None
    else \<exists>e'. emitToplevelDecl calls order d e = Some e' \<and> worklist_inv calls deps (insert d decls) e' \<and> compiledKeys e' = tableKeys e'"
    by (rule emitToplevelDecl_spec [OF assms(1) Cons(2,3) assms(4)]) (use Cons(4,5) sub in blast)+
  show ?case
  proof (cases "d \<in> deps \<or> needed calls deps decls d")
    case True
    then have "emitDeclarations calls order (d # ds) e = None" using one by simp
    moreover have "\<exists>xs a ys. d # ds = xs @ a # ys \<and> (a \<in> deps \<or> needed calls deps (decls \<union> set xs) a)"
      by (rule exI [of _ "[]"]) (use True in auto)
    ultimately show ?thesis by simp
  next
    case False
    then obtain e1 where e1: "emitToplevelDecl calls order d e = Some e1" "worklist_inv calls deps (insert d decls) e1" "compiledKeys e1 = tableKeys e1"
      using one by auto
    have u: "insert d decls \<union> set ds = decls \<union> set (d # ds)" by auto
    have ih: "case emitDeclarations calls order ds e1 of
      None \<Rightarrow> \<exists>xs a ys. ds = xs @ a # ys \<and> (a \<in> deps \<or> needed calls deps (insert d decls \<union> set xs) a)
    | Some e' \<Rightarrow> worklist_inv calls deps (insert d decls \<union> set ds) e' \<and> compiledKeys e' = tableKeys e' \<and>
        (\<forall>xs a ys. ds = xs @ a # ys \<longrightarrow> \<not> (a \<in> deps \<or> needed calls deps (insert d decls \<union> set xs) a))"
      by (rule Cons(1) [OF e1(2,3)]) (use Cons(4,5) in \<open>unfold u, blast+\<close>)
    have step: "emitDeclarations calls order (d # ds) e = emitDeclarations calls order ds e1" using e1(1) by simp
    show ?thesis
    proof (cases "emitDeclarations calls order ds e1")
      case None
      then obtain xs a ys where x: "ds = xs @ a # ys" "a \<in> deps \<or> needed calls deps (insert d decls \<union> set xs) a" using ih by auto
      then have "d # ds = (d # xs) @ a # ys \<and> (a \<in> deps \<or> needed calls deps (decls \<union> set (d # xs)) a)" by simp
      then show ?thesis unfolding step None option.case by blast
    next
      case (Some e')
      have "\<not> (a \<in> deps \<or> needed calls deps (decls \<union> set xs) a)" if "d # ds = xs @ a # ys" for xs a ys
        using that False ih Some by (cases xs) auto
      moreover have "worklist_inv calls deps (decls \<union> set (d # ds)) e' \<and> compiledKeys e' = tableKeys e'" using ih Some unfolding u by simp
      ultimately show ?thesis unfolding step Some option.case by blast
    qed
  qed
qed

section \<open>Properties\<close>

text \<open>
  C19. When the packages a unit needs are finitely many and no body makes a foreign call, emission ends, in whatever order the table
  is walked: it fails an assertion exactly if a declaration of the unit is a dependency or is needed by those in front of
  it, and otherwise it emits exactly the needed packages, each of them once.
\<close>

theorem emission_complete:
  assumes "walks order" "distinct deps" "finite {p. needed calls (set deps) (set decls) p}"
    "\<And>p q. needed calls (set deps) (set decls) p \<Longrightarrow> ForeignCall q \<notin> set (calls p)"
  shows "case emitCompilationUnit calls order deps decls of
      None \<Rightarrow> \<exists>xs d ys. decls = xs @ d # ys \<and> (d \<in> set deps \<or> needed calls (set deps) (set xs) d)
    | Some e \<Rightarrow> distinct (em_log e) \<and> set (em_log e) = {p. needed calls (set deps) (set decls) p} \<and>
        (\<forall>xs d ys. decls = xs @ d # ys \<longrightarrow> d \<notin> set deps \<and> \<not> needed calls (set deps) (set xs) d)"
proof -
  obtain e0 where e0: "addDependencies deps newEmitter = Some e0" "tableKeys e0 = set deps" "compiledKeys e0 = tableKeys e0"
    "distinct (map fst (em_table e0))" "em_log e0 = []"
    using addDependencies_spec [OF assms(2), of newEmitter] by (auto simp: newEmitter_def tableKeys_def compiledKeys_def)
  have i: "worklist_inv calls (set deps) {} e0" using e0 by (auto simp: worklist_inv_def)
  have "case emitDeclarations calls order decls e0 of
      None \<Rightarrow> \<exists>xs d ys. decls = xs @ d # ys \<and> (d \<in> set deps \<or> needed calls (set deps) ({} \<union> set xs) d)
    | Some e' \<Rightarrow> worklist_inv calls (set deps) ({} \<union> set decls) e' \<and> compiledKeys e' = tableKeys e' \<and>
        (\<forall>xs d ys. decls = xs @ d # ys \<longrightarrow> \<not> (d \<in> set deps \<or> needed calls (set deps) ({} \<union> set xs) d))"
    by (rule emitDeclarations_spec [OF assms(1) i e0(3), where U = "set deps \<union> {p. needed calls (set deps) (set decls) p}"])
      (use assms(3,4) in auto)
  then have run: "case emitDeclarations calls order decls e0 of
      None \<Rightarrow> \<exists>xs d ys. decls = xs @ d # ys \<and> (d \<in> set deps \<or> needed calls (set deps) (set xs) d)
    | Some e' \<Rightarrow> worklist_inv calls (set deps) (set decls) e' \<and> compiledKeys e' = tableKeys e' \<and>
        (\<forall>xs d ys. decls = xs @ d # ys \<longrightarrow> \<not> (d \<in> set deps \<or> needed calls (set deps) (set xs) d))" unfolding Un_empty_left .
  have eq: "emitCompilationUnit calls order deps decls = emitDeclarations calls order decls e0" using e0(1) by (simp add: emitCompilationUnit_def)
  show ?thesis
  proof (cases "emitDeclarations calls order decls e0")
    case None
    then show ?thesis using run unfolding eq by simp
  next
    case (Some e')
    then have i': "worklist_inv calls (set deps) (set decls) e'" "compiledKeys e' = tableKeys e'" using run by simp_all
    show ?thesis using run Some worklist_done [OF i'] i'(1) unfolding eq by (simp add: worklist_inv_def)
  qed
qed

theorem emission_complete_witness:
  "\<exists>e. emitCompilationUnit (\<lambda>p. if p = 1 then [DirectCall 2, DirectCall 0] else if p = 2 then [DirectCall 1] else []) rev [0] [1] = Some e \<and>
     set (em_log e) = {1, 2}"
proof -
  let ?calls = "\<lambda>p. if p = 1 then [DirectCall 2, DirectCall 0] else if p = 2 then [DirectCall 1] else []"
  have n: "needed ?calls {0} {1} p \<Longrightarrow> p \<in> {1, 2}" for p
    by (induction rule: needed.induct) (auto split: if_splits)
  have "needed ?calls {0} {1} 2" by (rule needed_called [OF needed_declared [of 1]]) auto
  then have eq: "{p. needed ?calls {0} {1} p} = {1, 2}" using n by (auto intro: needed_declared)
  have empty: "\<not> needed ?calls {0} {} p" for p
  proof
    assume "needed ?calls {0} {} p" then show False by (induction rule: needed.induct) auto
  qed
  have "case emitCompilationUnit ?calls rev [0] [1] of
      None \<Rightarrow> \<exists>xs d ys. [1] = xs @ d # ys \<and> (d \<in> set [0] \<or> needed ?calls (set [0]) (set xs) d)
    | Some e \<Rightarrow> distinct (em_log e) \<and> set (em_log e) = {p. needed ?calls (set [0]) (set [1]) p} \<and>
        (\<forall>xs d ys. [1] = xs @ d # ys \<longrightarrow> d \<notin> set [0] \<and> \<not> needed ?calls (set [0]) (set xs) d)"
    by (rule emission_complete) (use eq in \<open>auto simp: walks_def split: if_splits\<close>)
  then show ?thesis using eq empty by (auto simp: Cons_eq_append_conv split: option.splits)
qed

text \<open>A package that calls a later one of its unit makes the emission of the later one fail.\<close>

lemma call_of_later_package: "emitCompilationUnit (\<lambda>p. if p = 1 then [DirectCall 2] else []) id [] [1, 2] = None"
  by code_simp

text \<open>An imported subroutine of a package is called without an instance of the package.\<close>

lemma foreign_call_fails: "emitCompilationUnit (\<lambda>p. if p = 1 then [ForeignCall 2] else []) id [] [1, 2] = None"
  by code_simp

end
