(* ===== verification/Exprs.thy ===== *)
theory Exprs
  imports DiscreteTypes TypeStore
begin

text \<open>
  Expressions and calls: \<^verbatim>\<open>ast/Expr.h\<close>, \<^verbatim>\<open>AttribExpr.h\<close>, \<^verbatim>\<open>SubroutineRef.h\<close>,
  \<^verbatim>\<open>SubroutineCall.h\<close> with \<^verbatim>\<open>lib/ast/Expr.cpp\<close>, \<^verbatim>\<open>SubroutineCall.cpp\<close> and the end of
  \<^verbatim>\<open>Ast.cpp\<close>, and the conversions and dereferences \<^verbatim>\<open>TypeCheck.cpp\<close> inserts.

  A node is a tree, and a function that changes one in place returns the changed tree.  Types are
  addresses into the store of \<open>TypeStore\<close>; a location is a number.  Aggregates and
  string literals are not among the expressions.  \<open>None\<close> is a failed assertion, a null pointer, an
  access outside an array or a loop that does not end.
\<close>

section \<open>Subroutines\<close>

datatype param_mode = MODE_DEFAULT | MODE_IN | MODE_OUT | MODE_IN_OUT

text \<open>A parameter has its keyword, its type and its explicit mode.\<close>

record subroutine =
  sr_id :: nat
  sr_name :: string
  sr_isFunction :: bool
  sr_params :: "(string \<times> nat \<times> param_mode) list"
  sr_return :: nat
  sr_primitive :: bool
  sr_region :: nat

definition getParameterMode :: "param_mode \<Rightarrow> param_mode" where
  "getParameterMode m = (if m = MODE_DEFAULT then MODE_IN else m)"

definition getParamType :: "subroutine \<Rightarrow> nat \<Rightarrow> nat option" where
  "getParamType d i = (if i < length (sr_params d) then Some (fst (snd (sr_params d ! i))) else None)"

definition getParamMode :: "subroutine \<Rightarrow> nat \<Rightarrow> param_mode option" where
  "getParamMode d i =
     (if i < length (sr_params d) then Some (getParameterMode (snd (snd (sr_params d ! i)))) else None)"

fun keywordIndexFrom :: "nat \<Rightarrow> (string \<times> nat \<times> param_mode) list \<Rightarrow> string \<Rightarrow> nat option" where
  "keywordIndexFrom i [] key = None"
| "keywordIndexFrom i (p # ps) key = (if fst p = key then Some i else keywordIndexFrom (Suc i) ps key)"

definition getKeywordIndex :: "subroutine \<Rightarrow> string \<Rightarrow> nat option" where
  "getKeywordIndex d key = keywordIndexFrom 0 (sr_params d) key"

record subroutine_ref =
  ref_loc :: nat
  ref_decls :: "subroutine list"

definition isResolved :: "subroutine_ref \<Rightarrow> bool" where
  "isResolved ref \<longleftrightarrow> length (ref_decls ref) = 1"

definition referencesFunctions :: "subroutine_ref \<Rightarrow> bool" where
  "referencesFunctions ref = (case ref_decls ref of [] \<Rightarrow> False | d # _ \<Rightarrow> sr_isFunction d)"

definition referencesProcedures :: "subroutine_ref \<Rightarrow> bool" where
  "referencesProcedures ref = (case ref_decls ref of [] \<Rightarrow> False | d # _ \<Rightarrow> \<not> sr_isFunction d)"

text \<open>The declarations of a reference have one name and are of one kind.\<close>

definition verifyRef :: "subroutine_ref \<Rightarrow> subroutine_ref option" where
  "verifyRef ref =
     (case ref_decls ref of
        [] \<Rightarrow> None
      | d # ds \<Rightarrow>
          if list_all (\<lambda>x. sr_name x = sr_name d \<and> sr_isFunction x = sr_isFunction d) ds then Some ref else None)"

definition addDeclaration :: "subroutine \<Rightarrow> subroutine_ref \<Rightarrow> subroutine_ref option" where
  "addDeclaration d ref =
     (case ref_decls ref of
        [] \<Rightarrow> Some (ref\<lparr>ref_decls := [d]\<rparr>)
      | c # _ \<Rightarrow>
          if sr_name d = sr_name c \<and> sr_isFunction d = sr_isFunction c
          then Some (ref\<lparr>ref_decls := ref_decls ref @ [d]\<rparr>) else None)"

fun addDeclarations :: "subroutine list \<Rightarrow> subroutine_ref \<Rightarrow> subroutine_ref option" where
  "addDeclarations [] ref = Some ref"
| "addDeclarations (d # ds) ref = Option.bind (addDeclaration d ref) (addDeclarations ds)"

definition keepSubroutinesWithArity :: "nat \<Rightarrow> subroutine_ref \<Rightarrow> bool \<times> subroutine_ref" where
  "keepSubroutinesWithArity n ref =
     (let kept = filter (\<lambda>d. length (sr_params d) = n) (ref_decls ref) in (kept \<noteq> [], ref\<lparr>ref_decls := kept\<rparr>))"

section \<open>Calls\<close>

datatype 'e selector = KeywordSelector (keyword: string) (keyLoc: nat) (selected: 'e)

text \<open>
  A call has its reference, the number of its positional arguments, the vector of arguments, null where a keyed argument
  is not placed yet, and the keyed arguments as they were given.
\<close>

datatype 'e sub_call =
    SubroutineCall (callRef: subroutine_ref) (numPositional: nat) (arguments: "'e option list") (keyedArgs: "'e selector list")

definition isUnambiguous :: "'e sub_call \<Rightarrow> bool" where
  "isUnambiguous call \<longleftrightarrow> length (ref_decls (callRef call)) = 1"

definition getConnective :: "'e sub_call \<Rightarrow> subroutine option" where
  "getConnective call = (case ref_decls (callRef call) of [d] \<Rightarrow> Some d | _ \<Rightarrow> None)"

definition getNumArgs :: "'e sub_call \<Rightarrow> nat" where
  "getNumArgs call = numPositional call + length (keyedArgs call)"

fun placeKeyed :: "subroutine \<Rightarrow> nat \<Rightarrow> 'e selector list \<Rightarrow> 'e option list \<Rightarrow> 'e option list option" where
  "placeKeyed d n [] args = Some args"
| "placeKeyed d n (k # ks) args =
     (case getKeywordIndex d (keyword k) of
        None \<Rightarrow> None
      | Some i \<Rightarrow>
          if i < n \<or> length args \<le> i \<or> \<not> Option.is_none (args ! i) then None
          else placeKeyed d n ks (args[i := Some (selected k)]))"

definition propagateKeyedArguments :: "'e sub_call \<Rightarrow> 'e sub_call option" where
  "propagateKeyedArguments call = do {
     d \<leftarrow> getConnective call;
     args \<leftarrow> placeKeyed d (numPositional call) (keyedArgs call) (arguments call);
     Some (SubroutineCall (callRef call) (numPositional call) args (keyedArgs call)) }"

definition newSubroutineCall :: "subroutine_ref \<Rightarrow> 'e list \<Rightarrow> 'e selector list \<Rightarrow> 'e sub_call option" where
  "newSubroutineCall ref pos keys =
     (let call = SubroutineCall ref (length pos) (map Some pos @ replicate (length keys) None) keys in
      if isUnambiguous call then propagateKeyedArguments call else Some call)"

text \<open>The call is one of functions, or of procedures.\<close>

definition resolveConnective :: "bool \<Rightarrow> subroutine \<Rightarrow> 'e sub_call \<Rightarrow> 'e sub_call option" where
  "resolveConnective isaFunctionCall d call =
     (if sr_isFunction d \<noteq> isaFunctionCall \<or> length (sr_params d) \<noteq> getNumArgs call then None
      else propagateKeyedArguments
        (SubroutineCall ((callRef call)\<lparr>ref_decls := [d]\<rparr>) (numPositional call) (arguments call) (keyedArgs call)))"

section \<open>Expressions\<close>

text \<open>
  The type of an expression is optional where a node can be made without one.  A selected component is the name
  until it is resolved, then the component's address.  The dimension of an array attribute is the first, as no other is
  ever made.
\<close>

datatype 'v typed_expr =
    DeclRefExpr nat "'v value_decl"
  | LiteralExpr nat nat 'v
  | NullExpr nat "nat option"
  | CallExpr nat "nat option" "'v typed_expr sub_call"
  | IndexedArrayExpr nat "nat option" "'v typed_expr" "'v typed_expr list"
  | SelectedExpr nat "nat option" "'v typed_expr" string "nat option"
  | QualifiedExpr nat nat "'v typed_expr"
  | DereferenceExpr nat nat "'v typed_expr" bool
  | ConvertedExpr nat nat "'v typed_expr" bool
  | AllocatorExpr nat "nat option" "'v typed_expr + nat"
  | DiamondExpr nat "nat option"
  | ScalarBoundAE nat "nat option" bool
  | ArrayBoundAE nat nat "'v typed_expr" bool
  | LengthAE nat nat "'v typed_expr"
and 'v value_decl =
    ObjectDecl nat
  | ParamValueDecl nat param_mode
  | RenamedObjectDecl nat "'v typed_expr"
  | LoopDecl nat

primrec valueType :: "'v value_decl \<Rightarrow> nat" where
  "valueType (ObjectDecl t) = t"
| "valueType (ParamValueDecl t m) = t"
| "valueType (RenamedObjectDecl t e) = t"
| "valueType (LoopDecl t) = t"

primrec exprType :: "'v typed_expr \<Rightarrow> nat option" where
  "exprType (DeclRefExpr l d) = Some (valueType d)"
| "exprType (LiteralExpr l t v) = Some t"
| "exprType (NullExpr l t) = t"
| "exprType (CallExpr l t c) = t"
| "exprType (IndexedArrayExpr l t e xs) = t"
| "exprType (SelectedExpr l t e s c) = t"
| "exprType (QualifiedExpr l t e) = Some t"
| "exprType (DereferenceExpr l t e b) = Some t"
| "exprType (ConvertedExpr l t e b) = Some t"
| "exprType (AllocatorExpr l t e) = t"
| "exprType (DiamondExpr l t) = t"
| "exprType (ScalarBoundAE l t b) = t"
| "exprType (ArrayBoundAE l t e b) = Some t"
| "exprType (LengthAE l t e) = Some t"

primrec exprLoc :: "'v typed_expr \<Rightarrow> nat" where
  "exprLoc (DeclRefExpr l d) = l"
| "exprLoc (LiteralExpr l t v) = l"
| "exprLoc (NullExpr l t) = l"
| "exprLoc (CallExpr l t c) = l"
| "exprLoc (IndexedArrayExpr l t e xs) = l"
| "exprLoc (SelectedExpr l t e s c) = l"
| "exprLoc (QualifiedExpr l t e) = l"
| "exprLoc (DereferenceExpr l t e b) = l"
| "exprLoc (ConvertedExpr l t e b) = l"
| "exprLoc (AllocatorExpr l t e) = l"
| "exprLoc (DiamondExpr l t) = l"
| "exprLoc (ScalarBoundAE l t b) = l"
| "exprLoc (ArrayBoundAE l t e b) = l"
| "exprLoc (LengthAE l t e) = l"

definition hasResolvedType :: "tstore \<Rightarrow> 'v typed_expr \<Rightarrow> bool" where
  "hasResolvedType st e = (case exprType e of None \<Rightarrow> False | Some t \<Rightarrow> \<not> isAnyUniversal st t)"

text \<open>The first subexpression that forbids a change, nothing for a mutable expression.\<close>

fun immutablePart :: "'v typed_expr \<Rightarrow> 'v typed_expr option" where
  "immutablePart (DeclRefExpr l (ObjectDecl t)) = None"
| "immutablePart (DeclRefExpr l (ParamValueDecl t m)) =
     (if getParameterMode m = MODE_IN then Some (DeclRefExpr l (ParamValueDecl t m)) else None)"
| "immutablePart (DeclRefExpr l (RenamedObjectDecl t e)) = immutablePart e"
| "immutablePart (SelectedExpr l t e s c) = immutablePart e"
| "immutablePart (IndexedArrayExpr l t e xs) = immutablePart e"
| "immutablePart (DereferenceExpr l t e b) = immutablePart e"
| "immutablePart e = Some e"

definition callDenotesOperator :: "'e sub_call \<Rightarrow> bool" where
  "callDenotesOperator call = (case getConnective call of None \<Rightarrow> False | Some d \<Rightarrow> denotesOperator (sr_name d))"

fun denotesName :: "'v typed_expr \<Rightarrow> bool" where
  "denotesName (DeclRefExpr l d) = True"
| "denotesName (SelectedExpr l t e s c) = True"
| "denotesName (IndexedArrayExpr l t e xs) = True"
| "denotesName (ConvertedExpr l t e b) = True"
| "denotesName (DereferenceExpr l t e b) = True"
| "denotesName (CallExpr l t c) = (\<not> callDenotesOperator c)"
| "denotesName (ScalarBoundAE l t b) = True"
| "denotesName (ArrayBoundAE l t e b) = True"
| "denotesName (LengthAE l t e) = True"
| "denotesName e = False"

text \<open>A function call has the type of its connective once there is one.\<close>

definition setTypeForConnective :: "nat \<Rightarrow> nat option \<Rightarrow> 'v typed_expr sub_call \<Rightarrow> 'v typed_expr option" where
  "setTypeForConnective loc t call =
     (if isUnambiguous call then do {
        d \<leftarrow> getConnective call;
        if sr_isFunction d then Some (CallExpr loc (Some (sr_return d)) call) else None }
      else Some (CallExpr loc t call))"

definition newFunctionCall ::
    "subroutine_ref \<Rightarrow> 'v typed_expr list \<Rightarrow> 'v typed_expr selector list \<Rightarrow> 'v typed_expr option" where
  "newFunctionCall ref pos keys = do {
     call \<leftarrow> newSubroutineCall ref pos keys;
     setTypeForConnective (ref_loc ref) None call }"

definition resolveFunctionConnective ::
    "subroutine \<Rightarrow> nat \<Rightarrow> nat option \<Rightarrow> 'v typed_expr sub_call \<Rightarrow> 'v typed_expr option" where
  "resolveFunctionConnective d loc t call = do {
     call \<leftarrow> resolveConnective True d call;
     setTypeForConnective loc t call }"

definition newIndexedArray :: "tstore \<Rightarrow> 'v typed_expr \<Rightarrow> 'v typed_expr list \<Rightarrow> 'v typed_expr option" where
  "newIndexedArray st arr indices =
     (if indices = [] then None
      else (case exprType arr of
              None \<Rightarrow> Some (IndexedArrayExpr (exprLoc arr) None arr indices)
            | Some t \<Rightarrow>
                (case primaryKindOf st t of
                   Some (ArrayType is c) \<Rightarrow> Some (IndexedArrayExpr (exprLoc arr) (Some c) arr indices)
                 | _ \<Rightarrow> None)))"

text \<open>The prefix of a dereference is read through the completions of private types, visible or not.\<close>

partial_function (option) completePrivate :: "tstore \<Rightarrow> nat \<Rightarrow> nat option" where
  "completePrivate st a =
     (if isPrivate st a
      then (case Option.bind (getPrivateDecl st a) (\<lambda>d. cd_completion (ts_private st d)) of
              None \<Rightarrow> None | Some c \<Rightarrow> completePrivate st c)
      else Some a)"

declare completePrivate.simps [code]

definition newDereference :: "tstore \<Rightarrow> 'v typed_expr \<Rightarrow> nat \<Rightarrow> bool \<Rightarrow> 'v typed_expr option" where
  "newDereference st prfx loc implicit = do {
     t \<leftarrow> exprType prfx;
     p \<leftarrow> completePrivate st t;
     case primaryKindOf st p of
       Some (AccessType target) \<Rightarrow> Some (DereferenceExpr loc target prfx implicit)
     | _ \<Rightarrow> None }"

section \<open>Conversions and implicit dereferences\<close>

definition convertIfNeeded :: "tstore \<Rightarrow> nat \<Rightarrow> 'v typed_expr \<Rightarrow> nat \<Rightarrow> 'v typed_expr option" where
  "convertIfNeeded st region e target = do {
     t \<leftarrow> exprType e;
     needed \<leftarrow> conversionRequired st region t target;
     Some (if needed then ConvertedExpr (exprLoc e) target e True else e) }"

definition resolveExprType :: "tstore \<Rightarrow> nat \<Rightarrow> 'v typed_expr \<Rightarrow> nat option" where
  "resolveExprType st region e = Option.bind (exprType e) (resolveType st region)"

partial_function (option) dereferenceUntil ::
    "tstore \<Rightarrow> nat \<Rightarrow> (nat \<Rightarrow> bool option) \<Rightarrow> 'v typed_expr \<Rightarrow> 'v typed_expr option" where
  "dereferenceUntil st region found e =
     (case resolveExprType st region e of
        None \<Rightarrow> None
      | Some source \<Rightarrow>
          if isAccessType st source then
            (case newDereference st e (exprLoc e) True of
               None \<Rightarrow> None
             | Some e' \<Rightarrow>
                 (case Option.bind (resolveExprType st region e') found of
                    None \<Rightarrow> None
                  | Some ok \<Rightarrow> if ok then Some e' else dereferenceUntil st region found e'))
          else None)"

declare dereferenceUntil.simps [code]

definition implicitlyDereference :: "tstore \<Rightarrow> nat \<Rightarrow> 'v typed_expr \<Rightarrow> nat \<Rightarrow> 'v typed_expr option" where
  "implicitlyDereference st region e target = dereferenceUntil st region (\<lambda>s. covers st region s target) e"

definition implicitlyDereferenceClass ::
    "tstore \<Rightarrow> nat \<Rightarrow> 'v typed_expr \<Rightarrow> classification \<Rightarrow> 'v typed_expr option" where
  "implicitlyDereferenceClass st region e ID = dereferenceUntil st region (\<lambda>s. Some (memberOf ID st s)) e"

end
