(* ===== verification/ExprCheck.thy ===== *)
theory ExprCheck
  imports Exprs
begin

text \<open>
  The check of an expression against the type its context expects, which resolves overloaded calls on
  the way: \<^verbatim>\<open>checkExprInContext\<close> and what it calls in \<^verbatim>\<open>lib/typecheck/CheckExpr.cpp\<close>,
  \<^verbatim>\<open>CheckCall.cpp\<close> and \<^verbatim>\<open>CheckAttrib.cpp\<close>.

  A check returns the reports it posts and the node it accepts, or no node; an outer \<open>None\<close>
  is a failed assertion.  Steps that check subexpressions take the check itself as an argument, and the recursion of
  \<open>checkExprInContext\<close> is on the size of the expression.
\<close>

section \<open>Checks\<close>

datatype report_kind =
    DISCRETE_CHECK check_kind
  | AMBIGUOUS_EXPRESSION
  | CANDIDATE_NOTE nat
  | WRONG_NUM_ARGS_FOR_SUBROUTINE string
  | LOOP_PARAM_NOT_VARIABLE
  | EXPRESSION_NOT_MODE_COMPATIBLE param_mode
  | SUBROUTINE_HAS_NO_SUCH_KEYWORD string string
  | PARAM_PROVIDED_POSITIONALLY string
  | DUPLICATE_KEYWORD string
  | EXPECTED_ARRAY_FOR_INDEX
  | WRONG_NUM_SUBSCRIPTS_FOR_ARRAY
  | INVALID_ARRAY_INDEX
  | TYPE_FOUND_EXPECTED_EXPRESSION
  | EXCEPTION_CANNOT_DENOTE_VALUE
  | TYPE_CANNOT_DENOTE_VALUE
  | INVALID_CONTEXT_FOR_PROCEDURE
  | NOT_AN_EXPRESSION
  | CANNOT_ALLOC_UNCONSTRAINED_TYPE_WITHOUT_INIT
  | INVALID_CONTEXT_FOR_INCOMPLETE_TYPE
  | NOT_A_TYPE
  | WRONG_NUM_ARGS_FOR_CONVERSION
  | INVALID_CONVERSION nat nat
  | INVALID_PREFIX_FOR_COMPONENT string
  | UNKNOWN_SELECTED_COMPONENT string
  | NAME_NOT_VISIBLE string
  | INVALID_ATTRIB_PREFIX
  | ATTRIB_OF_NON_ARRAY
  | EXPECTED_DISCRETE_SUBTYPE
  | EXPECTED_PROCEDURE_CALL
  | NONEMPTY_RETURN_IN_PROCEDURE
  | EMPTY_RETURN_IN_FUNCTION
  | INVALID_TARGET_FOR_ASSIGNMENT
  | UNREACHABLE_STATEMENT
  | EXIT_OUTSIDE_LOOP_CONTEXT
  | NONEXISTENT_LOOP_TAG string
  | NOT_AN_EXCEPTION

type_synonym reports = "(nat \<times> report_kind) list"
type_synonym 'a chk = "(reports \<times> 'a option) option"

definition yields :: "'a \<Rightarrow> 'a chk" where
  "yields a = Some ([], Some a)"

definition fails :: "reports \<Rightarrow> 'a chk" where
  "fails ds = Some (ds, None)"

definition rejects :: "nat \<Rightarrow> report_kind \<Rightarrow> 'a chk" where
  "rejects loc kind = fails [(loc, kind)]"

text \<open>A check followed by another one, if it accepts.\<close>

definition andThen :: "'a chk \<Rightarrow> ('a \<Rightarrow> 'b chk) \<Rightarrow> 'b chk" where
  "andThen m f =
     (case m of
        None \<Rightarrow> None
      | Some (ds, r) \<Rightarrow>
          (case r of
             None \<Rightarrow> Some (ds, None)
           | Some a \<Rightarrow> (case f a of None \<Rightarrow> None | Some (es, r') \<Rightarrow> Some (ds @ es, r'))))"

text \<open>The checks of a list: up to the first that fails, or all of them.\<close>

fun checkUntil :: "('a \<Rightarrow> 'b chk) \<Rightarrow> 'a list \<Rightarrow> 'b list chk" where
  "checkUntil f [] = yields []"
| "checkUntil f (x # xs) = andThen (f x) (\<lambda>y. andThen (checkUntil f xs) (\<lambda>ys. yields (y # ys)))"

fun checkEach :: "('a \<Rightarrow> 'b chk) \<Rightarrow> 'a list \<Rightarrow> 'b list chk" where
  "checkEach f [] = yields []"
| "checkEach f (x # xs) =
     (case f x of
        None \<Rightarrow> None
      | Some (ds, r) \<Rightarrow>
          (case checkEach f xs of
             None \<Rightarrow> None
           | Some (es, rs) \<Rightarrow>
               Some (ds @ es, (case r of None \<Rightarrow> None | Some y \<Rightarrow> (case rs of None \<Rightarrow> None | Some ys \<Rightarrow> Some (y # ys))))))"

fun mapAll :: "('a \<Rightarrow> 'b option) \<Rightarrow> 'a list \<Rightarrow> 'b list option" where
  "mapAll f [] = Some []"
| "mapAll f (x # xs) = do { y \<leftarrow> f x; ys \<leftarrow> mapAll f xs; Some (y # ys) }"

fun anyOf :: "('a \<Rightarrow> bool option) \<Rightarrow> 'a list \<Rightarrow> bool option" where
  "anyOf f [] = Some False"
| "anyOf f (x # xs) = do { b \<leftarrow> f x; if b then Some True else anyOf f xs }"

fun allOf :: "('a \<Rightarrow> bool option) \<Rightarrow> 'a list \<Rightarrow> bool option" where
  "allOf f [] = Some True"
| "allOf f (x # xs) = do { b \<leftarrow> f x; if b then allOf f xs else Some False }"

fun keepOnly :: "('a \<Rightarrow> bool option) \<Rightarrow> 'a list \<Rightarrow> 'a list option" where
  "keepOnly f [] = Some []"
| "keepOnly f (x # xs) = do { b \<leftarrow> f x; ys \<leftarrow> keepOnly f xs; Some (if b then x # ys else ys) }"

section \<open>The environment\<close>

text \<open>
  What the type checker knows: the types and the current region, the operations on numbers, the integer type at an
  address, the type and the declaration of \<^verbatim>\<open>root_integer\<close>, the type
  \<^verbatim>\<open>universal_integer\<close>, and the components of a record type: name, address and type.
\<close>

record 'v check_env =
  ce_store :: tstore
  ce_region :: nat
  ce_ops :: "'v sint_ops"
  ce_integer :: "nat \<Rightarrow> 'v discrete_type"
  ce_rootType :: "'v discrete_type"
  ce_rootDecl :: nat
  ce_universal :: nat
  ce_components :: "nat \<Rightarrow> (string \<times> nat \<times> nat) list"

definition integerAt :: "'v check_env \<Rightarrow> nat \<Rightarrow> 'v discrete_type option" where
  "integerAt E a = (if isIntegerType (ce_store E) a then Some (ce_integer E a) else None)"

definition getComponent :: "'v check_env \<Rightarrow> nat \<Rightarrow> string \<Rightarrow> (nat \<times> nat) option" where
  "getComponent E a name = map_option snd (List.find (\<lambda>c. fst c = name) (ce_components E a))"

definition getClassification :: "universal \<Rightarrow> classification option" where
  "getClassification u =
     (case u of Universal_Integer \<Rightarrow> Some CLASS_Integer | Universal_Access \<Rightarrow> Some CLASS_Access | _ \<Rightarrow> None)"

abbreviation coversIn :: "'v check_env \<Rightarrow> nat \<Rightarrow> nat \<Rightarrow> bool option" where
  "coversIn E a b \<equiv> covers (ce_store E) (ce_region E) a b"

abbreviation resolveIn :: "'v check_env \<Rightarrow> nat \<Rightarrow> nat option" where
  "resolveIn E a \<equiv> resolveType (ce_store E) (ce_region E) a"

abbreviation convertIn :: "'v check_env \<Rightarrow> 'v typed_expr \<Rightarrow> nat \<Rightarrow> 'v typed_expr option" where
  "convertIn E e target \<equiv> convertIfNeeded (ce_store E) (ce_region E) e target"

section \<open>Leaves\<close>

definition checkExprAndDereferenceInContext :: "'v check_env \<Rightarrow> 'v typed_expr \<Rightarrow> nat \<Rightarrow> 'v typed_expr chk" where
  "checkExprAndDereferenceInContext E e context = do {
     t \<leftarrow> resolveExprType (ce_store E) (ce_region E) e;
     c \<leftarrow> coversIn E t context;
     if c then do { e' \<leftarrow> convertIn E e context; yields e' }
     else do {
       d \<leftarrow> getCoveringDereference (ce_store E) (ce_region E) t context;
       if d \<noteq> None \<and> denotesName e then do {
         e1 \<leftarrow> implicitlyDereference (ce_store E) (ce_region E) e context;
         e2 \<leftarrow> convertIn E e1 context;
         yields e2 }
       else rejects (exprLoc e) (DISCRETE_CHECK INCOMPATIBLE_TYPES) } }"

definition resolveDiamondExpr :: "'v check_env \<Rightarrow> nat \<Rightarrow> nat option \<Rightarrow> nat \<Rightarrow> 'v typed_expr chk" where
  "resolveDiamondExpr E loc t context =
     (case t of
        Some a \<Rightarrow> do { c \<leftarrow> coversIn E a context; if c then yields (DiamondExpr loc t) else None }
      | None \<Rightarrow> yields (DiamondExpr loc (Some context)))"

definition resolveNullExpr :: "'v check_env \<Rightarrow> nat \<Rightarrow> nat option \<Rightarrow> nat \<Rightarrow> 'v typed_expr chk" where
  "resolveNullExpr E loc t context =
     (if hasResolvedType (ce_store E) (NullExpr loc t :: 'v typed_expr) then do {
        a \<leftarrow> t;
        c \<leftarrow> coversIn E a context;
        if c then yields (NullExpr loc t) else None }
      else if isAccessType (ce_store E) context then yields (NullExpr loc (Some context))
      else rejects loc (DISCRETE_CHECK INCOMPATIBLE_TYPES))"

text \<open>A literal in a class of types becomes one of root integer.\<close>

definition resolveLiteralClass :: "'v check_env \<Rightarrow> nat \<Rightarrow> nat \<Rightarrow> 'v \<Rightarrow> classification \<Rightarrow> 'v typed_expr chk" where
  "resolveLiteralClass E loc t v ID =
     (if isAnyUniversal (ce_store E) t then
        if \<not> memberOf ID (ce_store E) (typeAddr (ce_rootType E)) then rejects loc (DISCRETE_CHECK INCOMPATIBLE_TYPES)
        else do {
          inside \<leftarrow> baseContains (ce_ops E) v (ce_rootType E);
          if inside then yields (LiteralExpr loc (typeAddr (ce_rootType E)) v)
          else rejects loc (DISCRETE_CHECK VALUE_NOT_IN_RANGE_FOR_TYPE) }
      else if memberOf ID (ce_store E) t then yields (LiteralExpr loc t v)
      else rejects loc (DISCRETE_CHECK INCOMPATIBLE_TYPES))"

definition resolveIntegerLiteral :: "'v check_env \<Rightarrow> nat \<Rightarrow> nat \<Rightarrow> 'v \<Rightarrow> nat \<Rightarrow> 'v typed_expr chk" where
  "resolveIntegerLiteral E loc t v context =
     (if \<not> isAnyUniversal (ce_store E) t then
        if t = context then yields (LiteralExpr loc t v) else None
      else do {
        r \<leftarrow> resolveUniversalLiteral (ce_ops E) (ce_rootType E) v (integerAt E context);
        case r of
          LiteralTyped v' a \<Rightarrow> yields (LiteralExpr loc a v')
        | LiteralConverted v' a b \<Rightarrow> yields (ConvertedExpr loc b (LiteralExpr loc a v') True)
        | LiteralRejected k \<Rightarrow> rejects loc (DISCRETE_CHECK k) })"

text \<open>
  A \<^verbatim>\<open>Length\<close> attribute of universal type is treated like the literal of its dimension, which is zero.
\<close>

definition resolveAttribute :: "'v check_env \<Rightarrow> 'v typed_expr \<Rightarrow> nat \<Rightarrow> 'v typed_expr chk" where
  "resolveAttribute E e context =
     (if hasResolvedType (ce_store E) e then do {
        t \<leftarrow> exprType e;
        c \<leftarrow> coversIn E t context;
        if c then yields e else None }
      else (case e of
        LengthAE loc t p \<Rightarrow> do {
          r \<leftarrow> resolveUniversalLiteral (ce_ops E) (ce_rootType E) (si_ofNat (ce_ops E) 1 0) (integerAt E context);
          case r of
            LiteralTyped v a \<Rightarrow> yields (LengthAE loc a p)
          | LiteralConverted v a b \<Rightarrow> yields (ConvertedExpr loc b (LengthAE loc a p) True)
          | LiteralRejected k \<Rightarrow> rejects loc (DISCRETE_CHECK k) }
      | _ \<Rightarrow> None))"

section \<open>Overloaded calls\<close>

definition callFunctions :: "'e sub_call \<Rightarrow> subroutine list" where
  "callFunctions call = (if referencesFunctions (callRef call) then ref_decls (callRef call) else [])"

definition resolvePreferredOperator :: "'v check_env \<Rightarrow> subroutine list \<Rightarrow> subroutine option option" where
  "resolvePreferredOperator E decls =
     (case filter (\<lambda>d. sr_primitive d \<and> sr_region d = ce_rootDecl E) decls of
        [] \<Rightarrow> Some None
      | [d] \<Rightarrow> Some (Some d)
      | _ \<Rightarrow> None)"

definition preferredOf :: "'v check_env \<Rightarrow> subroutine list \<Rightarrow> subroutine option option" where
  "preferredOf E candidates =
     (case candidates of [] \<Rightarrow> Some None | [d] \<Rightarrow> Some (Some d) | _ \<Rightarrow> resolvePreferredOperator E candidates)"

definition resolvePreferredConnective :: "'v check_env \<Rightarrow> 'v typed_expr sub_call \<Rightarrow> nat \<Rightarrow> subroutine option option" where
  "resolvePreferredConnective E call target = do {
     candidates \<leftarrow> keepOnly (\<lambda>d. coversIn E (sr_return d) target) (callFunctions call);
     preferredOf E candidates }"

definition modeReport :: "'v typed_expr \<Rightarrow> param_mode \<Rightarrow> nat \<times> report_kind" where
  "modeReport e mode =
     (case e of
        DeclRefExpr loc (LoopDecl t) \<Rightarrow> (loc, LOOP_PARAM_NOT_VARIABLE)
      | _ \<Rightarrow> (exprLoc e, EXPRESSION_NOT_MODE_COMPATIBLE mode))"

definition checkSubroutineArgument ::
    "('v typed_expr \<Rightarrow> nat \<Rightarrow> 'v typed_expr chk) \<Rightarrow> 'v typed_expr \<Rightarrow> nat \<Rightarrow> param_mode \<Rightarrow> 'v typed_expr chk" where
  "checkSubroutineArgument check arg target mode =
     (if mode = MODE_OUT \<or> mode = MODE_IN_OUT then
        (case immutablePart arg of Some e \<Rightarrow> fails [modeReport e mode] | None \<Rightarrow> check arg target)
      else check arg target)"

definition checkSubroutineCallArguments ::
    "('v typed_expr \<Rightarrow> nat \<Rightarrow> 'v typed_expr chk) \<Rightarrow> 'v typed_expr sub_call \<Rightarrow> 'v typed_expr sub_call chk" where
  "checkSubroutineCallArguments check call = do {
     d \<leftarrow> getConnective call;
     andThen
       (checkEach (\<lambda>(i, a). do {
           mode \<leftarrow> getParamMode d i;
           target \<leftarrow> getParamType d i;
           arg \<leftarrow> a;
           checkSubroutineArgument check arg target mode }) (List.enumerate 0 (arguments call)))
       (\<lambda>args. yields (SubroutineCall (callRef call) (numPositional call) (map Some args) (keyedArgs call))) }"

definition convertSubroutineCallArguments ::
    "'v check_env \<Rightarrow> 'v typed_expr sub_call \<Rightarrow> 'v typed_expr sub_call option" where
  "convertSubroutineCallArguments E call = do {
     d \<leftarrow> getConnective call;
     args \<leftarrow> mapAll (\<lambda>(i, a). do { arg \<leftarrow> a; target \<leftarrow> getParamType d i; convertIn E arg target })
               (List.enumerate 0 (arguments call));
     Some (SubroutineCall (callRef call) (numPositional call) (map Some args) (keyedArgs call)) }"

text \<open>The common end of the three resolutions: fix the connective, check the arguments, convert them.\<close>

definition resolveCallWith ::
    "'v check_env \<Rightarrow> ('v typed_expr \<Rightarrow> nat \<Rightarrow> 'v typed_expr chk) \<Rightarrow> subroutine \<Rightarrow> nat \<Rightarrow> nat option
      \<Rightarrow> 'v typed_expr sub_call \<Rightarrow> 'v typed_expr chk" where
  "resolveCallWith E check d loc t call = do {
     e \<leftarrow> resolveFunctionConnective d loc t call;
     case e of
       CallExpr l t' c \<Rightarrow>
         andThen (checkSubroutineCallArguments check c)
           (\<lambda>c1. do { c2 \<leftarrow> convertSubroutineCallArguments E c1; yields (CallExpr l t' c2) })
     | _ \<Rightarrow> None }"

definition ambiguousReports :: "nat \<Rightarrow> nat \<Rightarrow> subroutine list \<Rightarrow> reports" where
  "ambiguousReports loc noteLoc ds = (loc, AMBIGUOUS_EXPRESSION) # map (\<lambda>d. (noteLoc, CANDIDATE_NOTE (sr_id d))) ds"

definition resolveCallInContext ::
    "'v check_env \<Rightarrow> ('v typed_expr \<Rightarrow> nat \<Rightarrow> 'v typed_expr chk) \<Rightarrow> nat \<Rightarrow> nat option \<Rightarrow> 'v typed_expr sub_call
      \<Rightarrow> nat \<Rightarrow> 'v typed_expr chk" where
  "resolveCallInContext E check loc t call target =
     (if isUnambiguous call then checkExprAndDereferenceInContext E (CallExpr loc t call) target
      else do {
        preference \<leftarrow> resolvePreferredConnective E call target;
        case preference of
          None \<Rightarrow> fails (ambiguousReports loc loc (ref_decls (callRef call)))
        | Some d \<Rightarrow>
            andThen (resolveCallWith E check d loc t call) (\<lambda>e. do { e' \<leftarrow> convertIn E e target; yields e' }) })"

definition resolveCallInClass ::
    "'v check_env \<Rightarrow> ('v typed_expr \<Rightarrow> nat \<Rightarrow> 'v typed_expr chk) \<Rightarrow> nat \<Rightarrow> nat option \<Rightarrow> 'v typed_expr sub_call
      \<Rightarrow> classification \<Rightarrow> 'v typed_expr chk" where
  "resolveCallInClass E check loc t call ID =
     (if isUnambiguous call then do {
        a \<leftarrow> t;
        if memberOf ID (ce_store E) a then yields (CallExpr loc t call)
        else rejects loc (DISCRETE_CHECK INCOMPATIBLE_TYPES) }
      else do {
        let candidates = filter (\<lambda>d. memberOf ID (ce_store E) (sr_return d)) (callFunctions call);
        preference \<leftarrow> preferredOf E candidates;
        case preference of
          None \<Rightarrow> fails (ambiguousReports loc 0 candidates)
        | Some d \<Rightarrow> resolveCallWith E check d loc t call })"

definition resolveCallForComponent ::
    "'v check_env \<Rightarrow> ('v typed_expr \<Rightarrow> nat \<Rightarrow> 'v typed_expr chk) \<Rightarrow> nat \<Rightarrow> nat option \<Rightarrow> 'v typed_expr sub_call
      \<Rightarrow> string \<Rightarrow> nat \<Rightarrow> 'v typed_expr chk" where
  "resolveCallForComponent E check loc t call selector target =
     (if isUnambiguous call then None
      else do {
        candidates \<leftarrow> keepOnly (\<lambda>d. do {
            r \<leftarrow> resolveIn E (sr_return d);
            if isRecordType (ce_store E) r then
              (case getComponent E r selector of None \<Rightarrow> Some False | Some c \<Rightarrow> coversIn E (snd c) target)
            else Some False }) (callFunctions call);
        case candidates of
          [d] \<Rightarrow> resolveCallWith E check d loc t call
        | _ \<Rightarrow> fails (ambiguousReports loc loc candidates) })"

section \<open>An expression in its context\<close>

definition resolveAllocatorExpr ::
    "'v check_env \<Rightarrow> ('v typed_expr \<Rightarrow> nat \<Rightarrow> 'v typed_expr chk) \<Rightarrow> nat \<Rightarrow> nat option \<Rightarrow> 'v typed_expr + nat
      \<Rightarrow> nat \<Rightarrow> 'v typed_expr chk" where
  "resolveAllocatorExpr E check loc t operand context =
     (if hasResolvedType (ce_store E) (AllocatorExpr loc t operand) then do {
        a \<leftarrow> t;
        c \<leftarrow> coversIn E a context;
        if c then yields (AllocatorExpr loc t operand) else None }
      else (case primaryKindOf (ce_store E) context of
        Some (AccessType target) \<Rightarrow>
          (case operand of
             Inl e \<Rightarrow> andThen (check e target) (\<lambda>e'. yields (AllocatorExpr loc (Some context) (Inl e')))
           | Inr a \<Rightarrow> do {
               c \<leftarrow> coversIn E a target;
               if c then yields (AllocatorExpr loc (Some context) operand)
               else rejects loc (DISCRETE_CHECK INCOMPATIBLE_TYPES) })
      | _ \<Rightarrow> rejects loc (DISCRETE_CHECK INCOMPATIBLE_TYPES)))"

definition resolveSelectedExpr ::
    "'v check_env \<Rightarrow> ('v typed_expr \<Rightarrow> nat \<Rightarrow> 'v typed_expr chk) \<Rightarrow> nat \<Rightarrow> nat option \<Rightarrow> 'v typed_expr
      \<Rightarrow> string \<Rightarrow> nat option \<Rightarrow> nat \<Rightarrow> 'v typed_expr chk" where
  "resolveSelectedExpr E check loc t prfx selector component context =
     (if hasResolvedType (ce_store E) (SelectedExpr loc t prfx selector component)
      then checkExprAndDereferenceInContext E (SelectedExpr loc t prfx selector component) context
      else (case prfx of
        CallExpr l t' call \<Rightarrow>
          andThen (resolveCallForComponent E check l t' call selector context)
            (\<lambda>p. do {
               a \<leftarrow> exprType p;
               if isRecordType (ce_store E) a \<and> component = None then do {
                 c \<leftarrow> getComponent E a selector;
                 e \<leftarrow> convertIn E (SelectedExpr loc (Some (snd c)) p selector (Some (fst c))) context;
                 yields e }
               else None })
      | _ \<Rightarrow> None))"

definition checkExprInClass ::
    "'v check_env \<Rightarrow> ('v typed_expr \<Rightarrow> nat \<Rightarrow> 'v typed_expr chk) \<Rightarrow> 'v typed_expr \<Rightarrow> classification
      \<Rightarrow> 'v typed_expr chk" where
  "checkExprInClass E check e ID =
     (case e of
        CallExpr loc t call \<Rightarrow> resolveCallInClass E check loc t call ID
      | LiteralExpr loc t v \<Rightarrow> resolveLiteralClass E loc t v ID
      | _ \<Rightarrow> do {
          t \<leftarrow> resolveExprType (ce_store E) (ce_region E) e;
          if memberOf ID (ce_store E) t then yields e
          else rejects (exprLoc e) (DISCRETE_CHECK INCOMPATIBLE_TYPES) })"

text \<open>One level of the check, with the check of the arguments of calls and operands of allocators left open.\<close>

definition checkStep ::
    "'v check_env \<Rightarrow> ('v typed_expr \<Rightarrow> nat \<Rightarrow> 'v typed_expr chk) \<Rightarrow> 'v typed_expr \<Rightarrow> nat \<Rightarrow> 'v typed_expr chk" where
  "checkStep E check e context = do {
     ctx \<leftarrow> resolveIn E context;
     case ts_type (ce_store E) ctx of
       UniversalType u \<Rightarrow> do { ID \<leftarrow> getClassification u; checkExprInClass E check e ID }
     | _ \<Rightarrow>
         (case e of
            CallExpr loc t call \<Rightarrow> resolveCallInContext E check loc t call ctx
          | LiteralExpr loc t v \<Rightarrow> resolveIntegerLiteral E loc t v ctx
          | NullExpr loc t \<Rightarrow> resolveNullExpr E loc t ctx
          | AllocatorExpr loc t operand \<Rightarrow> resolveAllocatorExpr E check loc t operand ctx
          | SelectedExpr loc t p s c \<Rightarrow> resolveSelectedExpr E check loc t p s c ctx
          | DiamondExpr loc t \<Rightarrow> resolveDiamondExpr E loc t ctx
          | ScalarBoundAE loc t b \<Rightarrow> resolveAttribute E e ctx
          | ArrayBoundAE loc t p b \<Rightarrow> resolveAttribute E e ctx
          | LengthAE loc t p \<Rightarrow> resolveAttribute E e ctx
          | _ \<Rightarrow> if hasResolvedType (ce_store E) e then checkExprAndDereferenceInContext E e ctx else None) }"

section \<open>The recursion\<close>

definition callArgs :: "'e sub_call \<Rightarrow> 'e set" where
  "callArgs call = {e. Some e \<in> set (arguments call)} \<union> selected ` set (keyedArgs call)"

definition recArgs :: "'v typed_expr \<Rightarrow> 'v typed_expr set" where
  "recArgs e =
     (case e of
        CallExpr loc t call \<Rightarrow> callArgs call
      | SelectedExpr loc t (CallExpr l t' call) s c \<Rightarrow> callArgs call
      | AllocatorExpr loc t (Inl e) \<Rightarrow> {e}
      | _ \<Rightarrow> {})"

lemma placeKeyed_args:
  "placeKeyed d n keys args = Some args' \<Longrightarrow> Some e \<in> set args' \<Longrightarrow> Some e \<in> set args \<or> e \<in> selected ` set keys"
proof (induction keys arbitrary: args)
  case (Cons k ks)
  obtain i where i: "placeKeyed d n ks (args[i := Some (selected k)]) = Some args'"
    using Cons.prems(1) by (auto split: option.splits if_splits)
  have "Some e \<in> set (args[i := Some (selected k)]) \<Longrightarrow> Some e \<in> set args \<or> e = selected k"
    using set_update_subset_insert [of args i "Some (selected k)"] by auto
  then show ?case using Cons.IH [OF i Cons.prems(2)] by auto
qed simp

lemma resolveFunctionConnective_args:
  assumes "resolveFunctionConnective d loc t call = Some (CallExpr l t' c)" "Some e \<in> set (arguments c)"
  shows "e \<in> callArgs call"
proof -
  obtain args where "placeKeyed d (numPositional call) (keyedArgs call) (arguments call) = Some args" "arguments c = args"
    using assms(1)
    by (auto simp: resolveFunctionConnective_def resolveConnective_def setTypeForConnective_def propagateKeyedArguments_def
        getConnective_def bind_eq_Some_conv split: if_splits)
  then show ?thesis using placeKeyed_args assms(2) by (fastforce simp: callArgs_def)
qed

lemma andThen_cong [fundef_cong]:
  "m = m' \<Longrightarrow> (\<And>ds a. m' = Some (ds, Some a) \<Longrightarrow> f a = g a) \<Longrightarrow> andThen m f = andThen m' g"
  by (auto simp: andThen_def split: option.splits)

lemma checkEach_cong [fundef_cong]:
  "xs = ys \<Longrightarrow> (\<And>x. x \<in> set ys \<Longrightarrow> f x = g x) \<Longrightarrow> checkEach f xs = checkEach g ys"
  by (induction xs arbitrary: ys) (auto cong: option.case_cong prod.case_cong)

lemma checkUntil_cong [fundef_cong]:
  "xs = ys \<Longrightarrow> (\<And>x. x \<in> set ys \<Longrightarrow> f x = g x) \<Longrightarrow> checkUntil f xs = checkUntil g ys"
  by (induction xs arbitrary: ys) (auto intro: andThen_cong)

lemma checkSubroutineCallArguments_cong:
  assumes "\<And>a t. Some a \<in> set (arguments call) \<Longrightarrow> f a t = g a t"
  shows "checkSubroutineCallArguments f call = checkSubroutineCallArguments g call"
proof -
  have "checkSubroutineArgument f a t m = checkSubroutineArgument g a t m" if "Some a \<in> set (arguments call)" for a t m
    using assms [OF that] by (auto simp: checkSubroutineArgument_def split: option.split)
  then show ?thesis
    unfolding checkSubroutineCallArguments_def
    by (intro Option.bind_cong andThen_cong checkEach_cong refl)
      (auto simp: in_set_enumerate_eq split: prod.splits intro!: Option.bind_cong dest: nth_mem)
qed

lemma resolveCallWith_cong:
  assumes "\<And>a t. a \<in> callArgs call \<Longrightarrow> f a t = g a t"
  shows "resolveCallWith E f d loc t call = resolveCallWith E g d loc t call"
proof -
  have "checkSubroutineCallArguments f c = checkSubroutineCallArguments g c"
    if "resolveFunctionConnective d loc t call = Some (CallExpr l t' c)" for l t' c
    using resolveFunctionConnective_args [OF that] assms by (intro checkSubroutineCallArguments_cong) blast
  then show ?thesis
    unfolding resolveCallWith_def by (intro Option.bind_cong refl) (auto split: typed_expr.split)
qed

lemma checkExprInClass_cong:
  assumes "\<And>a t. a \<in> recArgs e \<Longrightarrow> f a t = g a t"
  shows "checkExprInClass E f e ID = checkExprInClass E g e ID"
  using assms
  by (auto simp: checkExprInClass_def resolveCallInClass_def recArgs_def Let_def split: typed_expr.splits option.split
      intro!: Option.bind_cong resolveCallWith_cong)

lemma resolveCallForComponent_cong:
  assumes "\<And>a t. a \<in> callArgs call \<Longrightarrow> f a t = g a t"
  shows "resolveCallForComponent E f loc t call s target = resolveCallForComponent E g loc t call s target"
proof -
  have "resolveCallWith E f d loc t call = resolveCallWith E g d loc t call" for d
    by (rule resolveCallWith_cong) (rule assms)
  note e = this
  show ?thesis unfolding resolveCallForComponent_def e by (rule refl)
qed

lemma checkStep_cong [fundef_cong]:
  assumes "E = E'" "e = e'" "c = c'" "\<And>a t. a \<in> recArgs e' \<Longrightarrow> f a t = g a t"
  shows "checkStep E f e c = checkStep E' g e' c'"
proof -
  have r: "f a t = g a t" if "a \<in> recArgs e" for a t using assms that by simp
  have a: "resolveCallInContext E f loc t call ctx = resolveCallInContext E g loc t call ctx"
    if "e = CallExpr loc t call" for loc t call ctx
  proof -
    have "resolveCallWith E f d loc t call = resolveCallWith E g d loc t call" for d
      using r that by (intro resolveCallWith_cong) (simp add: recArgs_def)
    then show ?thesis unfolding resolveCallInContext_def by simp
  qed
  have b: "resolveAllocatorExpr E f loc t x ctx = resolveAllocatorExpr E g loc t x ctx"
    if "e = AllocatorExpr loc t x" for loc t x ctx
    using r that by (auto simp: resolveAllocatorExpr_def recArgs_def split: sum.split option.split primary_kind.split)
  have c: "resolveSelectedExpr E f loc t p s k ctx = resolveSelectedExpr E g loc t p s k ctx"
    if "e = SelectedExpr loc t p s k" for loc t p s k ctx
  proof (cases p)
    case (CallExpr l t' call)
    then have "resolveCallForComponent E f l t' call s ctx = resolveCallForComponent E g l t' call s ctx"
      using r that by (intro resolveCallForComponent_cong) (simp add: recArgs_def)
    then show ?thesis using CallExpr by (simp add: resolveSelectedExpr_def)
  qed (simp_all add: resolveSelectedExpr_def)
  have d: "checkExprInClass E f e = checkExprInClass E g e"
    using r by (intro ext checkExprInClass_cong) blast
  show ?thesis unfolding checkStep_def assms(1-3) [symmetric] d
    by (intro Option.bind_cong refl) (auto simp: a b c split: type_obj.split typed_expr.split)
qed

lemma size_callArgs: "a \<in> callArgs call \<Longrightarrow> size a < size_sub_call size call"
proof (cases call)
  case (SubroutineCall r n args keys)
  assume a: "a \<in> callArgs call"
  then consider "Some a \<in> set args" | k where "k \<in> set keys" "a = selected k"
    using SubroutineCall by (auto simp: callArgs_def)
  then show ?thesis
  proof cases
    case 1
    then have "size_option size (Some a) \<le> size_list (size_option size) args" by (rule size_list_estimation') simp
    then show ?thesis using SubroutineCall by simp
  next
    case 2
    then have "size_selector size k \<le> size_list (size_selector size) keys" by (intro size_list_estimation' [OF 2(1)]) simp
    moreover have "size a < size_selector size k" unfolding 2(2) by (cases k) simp
    ultimately show ?thesis using SubroutineCall by simp
  qed
qed

lemma size_recArgs: "a \<in> recArgs e \<Longrightarrow> size a < size e"
  by (auto simp: recArgs_def split: typed_expr.splits sum.splits dest!: size_callArgs)

function checkExprInContext :: "'v check_env \<Rightarrow> 'v typed_expr \<Rightarrow> nat \<Rightarrow> 'v typed_expr chk" where
  "checkExprInContext E e context = checkStep E (checkExprInContext E) e context"
  by pat_completeness auto

termination
  by (relation "measure (\<lambda>(E, e, context). size e)") (auto dest: size_recArgs)

declare checkExprInContext.simps [simp del]

text \<open>The check in a class of types.\<close>

definition checkExprClass :: "'v check_env \<Rightarrow> 'v typed_expr \<Rightarrow> classification \<Rightarrow> 'v typed_expr chk" where
  "checkExprClass E e ID = checkExprInClass E (checkExprInContext E) e ID"

end
