(* ===== verification/ExprCheckSpec.thy ===== *)
theory ExprCheckSpec
  imports ExprCheck
begin

text \<open>
  What the check of an expression promises: it rejects with a report and accepts without one, and what it
  accepts is a tree without open choices, each of whose operands has the type its place asks for.
\<close>

section \<open>Rejections are reported\<close>

named_theorems coherent_intros \<open>a check reports exactly when it rejects\<close>

definition coherent :: "'a chk \<Rightarrow> bool" where
  "coherent m \<longleftrightarrow> (\<forall>ds r. m = Some (ds, r) \<longrightarrow> (r = None \<longleftrightarrow> ds \<noteq> []))"

lemma coherent_basic [coherent_intros, simp]:
  "coherent None" "coherent (yields a)" "coherent (rejects loc k)" "ds \<noteq> [] \<Longrightarrow> coherent (fails ds)"
  by (auto simp: coherent_def yields_def rejects_def fails_def)

lemma coherent_andThen [coherent_intros]: "coherent m \<Longrightarrow> (\<And>a. coherent (f a)) \<Longrightarrow> coherent (andThen m f)"
  by (fastforce simp: coherent_def andThen_def split: option.splits)

lemma coherent_bind [coherent_intros]: "(\<And>x. coherent (f x)) \<Longrightarrow> coherent (Option.bind m f)"
  by (cases m) auto

lemma coherent_if [coherent_intros]: "coherent x \<Longrightarrow> coherent y \<Longrightarrow> coherent (if b then x else y)"
  by simp

lemma coherent_option [coherent_intros]:
  "coherent x \<Longrightarrow> (\<And>a. coherent (f a)) \<Longrightarrow> coherent (case z of None \<Rightarrow> x | Some a \<Rightarrow> f a)"
  by (cases z) auto

lemma coherent_checkEach [coherent_intros]: "(\<And>x. coherent (f x)) \<Longrightarrow> coherent (checkEach f xs)"
proof (induction xs)
  case (Cons x xs)
  then have "coherent (f x)" "coherent (checkEach f xs)" by auto
  then show ?case by (auto simp: coherent_def split: option.splits)
qed simp

lemma coherent_checkUntil [coherent_intros]: "(\<And>x. coherent (f x)) \<Longrightarrow> coherent (checkUntil f xs)"
  by (induction xs) (auto intro: coherent_intros)

lemma ambiguousReports_Cons [simp]: "ambiguousReports l m ds \<noteq> []"
  by (simp add: ambiguousReports_def)

lemma coherent_dereference [coherent_intros]: "coherent (checkExprAndDereferenceInContext E e t)"
  by (auto simp: checkExprAndDereferenceInContext_def intro!: coherent_intros)

lemma coherent_callWith: "(\<And>a t. coherent (check a t)) \<Longrightarrow> coherent (resolveCallWith E check d loc t call)"
  by (auto simp: resolveCallWith_def checkSubroutineCallArguments_def checkSubroutineArgument_def
      split: typed_expr.split option.split intro!: coherent_intros)

lemma coherent_class: "(\<And>a t. coherent (check a t)) \<Longrightarrow> coherent (checkExprInClass E check e ID)"
  by (auto simp: checkExprInClass_def resolveCallInClass_def resolveLiteralClass_def Let_def split: typed_expr.split option.split
      intro!: coherent_intros coherent_callWith)

lemma coherent_step:
  assumes "\<And>a t. coherent (check a t)"
  shows "coherent (checkStep E check e context)"
proof -
  note c = coherent_class [of check, OF assms] coherent_callWith [of check, OF assms]
  have a: "coherent (resolveCallInContext E check loc t call ctx)" for loc t call ctx
    by (auto simp: resolveCallInContext_def split: option.split intro!: coherent_intros c)
  have b: "coherent (resolveAllocatorExpr E check loc t x ctx)" for loc t x ctx
    using assms by (auto simp: resolveAllocatorExpr_def split: option.split primary_kind.split sum.split intro!: coherent_intros)
  have p: "coherent (resolveCallForComponent E check loc t call s ctx)" for loc t call s ctx
    by (auto simp: resolveCallForComponent_def split: list.split intro!: coherent_intros c)
  have d: "coherent (resolveSelectedExpr E check loc t q s k ctx)" for loc t q s k ctx
    using p by (auto simp: resolveSelectedExpr_def split: typed_expr.split intro!: coherent_intros)
  have l: "coherent (resolveIntegerLiteral E loc t v ctx)" "coherent (resolveNullExpr E loc u ctx :: 'a typed_expr chk)"
    "coherent (resolveDiamondExpr E loc u ctx :: 'a typed_expr chk)" "coherent (resolveAttribute E e ctx)" for loc t u v e ctx
    by (auto simp: resolveIntegerLiteral_def resolveNullExpr_def resolveDiamondExpr_def resolveAttribute_def
        split: literal_result.split option.split typed_expr.split intro!: coherent_intros)
  show ?thesis
    unfolding checkStep_def
    by (auto split: type_obj.split typed_expr.split intro!: coherent_intros c a b d l)
qed

lemma checkExprInContext_coherent: "coherent (checkExprInContext E e tx)"
proof (induction E e tx rule: checkExprInContext.induct)
  case (1 E e tx)
  let ?check = "\<lambda>a t. if a \<in> recArgs e then checkExprInContext E a t else None"
  have eq: "checkExprInContext E e tx = checkStep E ?check e tx"
    unfolding checkExprInContext.simps [of E e] by (rule checkStep_cong) auto
  have "coherent (?check a t)" for a t using 1 by auto
  then show ?case unfolding eq by (rule coherent_step)
qed

section \<open>Postconditions of checks\<close>

named_theorems ensures_intros \<open>the node a check accepts\<close>

definition ensures :: "'a chk \<Rightarrow> ('a \<Rightarrow> bool) \<Rightarrow> bool" where
  "ensures m P \<longleftrightarrow> (\<forall>ds a. m = Some (ds, Some a) \<longrightarrow> P a)"

lemma ensuresD: "ensures m P \<Longrightarrow> m = Some (ds, Some a) \<Longrightarrow> P a"
  by (auto simp: ensures_def)

lemma ensures_basic [simp]:
  "ensures None P" "ensures (yields a) P \<longleftrightarrow> P a" "ensures (rejects loc k) P" "ensures (fails ds) P"
  by (auto simp: ensures_def yields_def rejects_def fails_def)

lemma ensures_andThen [ensures_intros]: "ensures m (\<lambda>a. ensures (f a) P) \<Longrightarrow> ensures (andThen m f) P"
  by (fastforce simp: ensures_def andThen_def split: option.splits)

lemma ensures_bind [ensures_intros]: "(\<And>x. m = Some x \<Longrightarrow> ensures (f x) P) \<Longrightarrow> ensures (Option.bind m f) P"
  by (cases m) auto

lemma ensures_if [ensures_intros]: "(b \<Longrightarrow> ensures x P) \<Longrightarrow> (\<not> b \<Longrightarrow> ensures y P) \<Longrightarrow> ensures (if b then x else y) P"
  by simp

lemma ensures_option [ensures_intros]:
  "(z = None \<Longrightarrow> ensures x P) \<Longrightarrow> (\<And>a. z = Some a \<Longrightarrow> ensures (f a) P) \<Longrightarrow>
    ensures (case z of None \<Rightarrow> x | Some a \<Rightarrow> f a) P"
  by (cases z) auto

lemma ensures_mono: "ensures m P \<Longrightarrow> (\<And>a. P a \<Longrightarrow> Q a) \<Longrightarrow> ensures m Q"
  by (auto simp: ensures_def)

lemma ensures_checkEach:
  "(\<And>x. x \<in> set xs \<Longrightarrow> ensures (f x) (P x)) \<Longrightarrow> ensures (checkEach f xs) (list_all2 P xs)"
proof (induction xs)
  case (Cons x xs)
  then have "ensures (f x) (P x)" "ensures (checkEach f xs) (list_all2 P xs)" by auto
  then show ?case by (auto simp: ensures_def split: option.splits)
qed simp

lemma ensures_checkUntil:
  "(\<And>x. x \<in> set xs \<Longrightarrow> ensures (f x) (P x)) \<Longrightarrow> ensures (checkUntil f xs) (list_all2 P xs)"
proof (induction xs)
  case (Cons x xs)
  then have "ensures (f x) (P x)" "ensures (checkUntil f xs) (list_all2 P xs)" by auto
  then show ?case by (auto intro!: ensures_andThen elim!: ensures_mono)
qed simp

lemma mapAll_Some: "mapAll f xs = Some ys \<longleftrightarrow> list_all2 (\<lambda>x y. f x = Some y) xs ys"
  by (induction xs arbitrary: ys) (auto simp: bind_eq_Some_conv list_all2_Cons1)

lemma keepOnly_Some: "keepOnly f xs = Some ys \<Longrightarrow> ys = filter (\<lambda>x. f x = Some True) xs \<and> (\<forall>x\<in>set xs. f x \<noteq> None)"
  by (induction xs arbitrary: ys) (auto simp: bind_eq_Some_conv split: if_splits)

lemma anyOf_Some: "anyOf f xs = Some True \<Longrightarrow> \<exists>x\<in>set xs. f x = Some True"
  by (induction xs) (auto simp: bind_eq_Some_conv split: if_splits)

lemma allOf_Some: "allOf f xs = Some True \<longleftrightarrow> (\<forall>x\<in>set xs. f x = Some True)"
  by (induction xs) (auto simp: bind_eq_Some_conv split: if_splits)

end
