(* ===== verification/ExprTyping.thy ===== *)
theory ExprTyping
  imports ExprCheckSpec
begin

text \<open>
  The typing of expressions.  \<open>built\<close> are the trees the callbacks of the parser make, in which calls, selections,
  allocators and literals may still wait for a context; \<open>checked\<close> are those without open choices.  The
  check turns the former into the latter, of a type the context covers.
\<close>

section \<open>Types that fit\<close>

text \<open>
  A type fits a resolved context that is universal if it is in the class, and any other if it is the context or
  covers it, before or after its completion is looked up.
\<close>

definition coveredBy :: "'v check_env \<Rightarrow> nat \<Rightarrow> nat \<Rightarrow> bool" where
  "coveredBy E ctx a \<longleftrightarrow>
     (case ts_type (ce_store E) ctx of
        UniversalType u \<Rightarrow>
          (\<exists>ID. getClassification u = Some ID \<and> (\<exists>r. (r = a \<or> resolveIn E a = Some r) \<and> memberOf ID (ce_store E) r))
      | _ \<Rightarrow> (\<exists>r. (r = a \<or> resolveIn E a = Some r) \<and> coversIn E r ctx = Some True))"

definition typeFits :: "'v check_env \<Rightarrow> nat \<Rightarrow> 'v typed_expr \<Rightarrow> bool" where
  "typeFits E t e \<longleftrightarrow> (\<exists>a ctx. exprType e = Some a \<and> resolveIn E t = Some ctx \<and> coveredBy E ctx a)"

definition converted :: "'v check_env \<Rightarrow> nat \<Rightarrow> 'v typed_expr \<Rightarrow> bool" where
  "converted E t e \<longleftrightarrow> (\<exists>a. exprType e = Some a \<and> conversionRequired (ce_store E) (ce_region E) a t = Some False)"

text \<open>The expression under the conversions the type checker put around it.\<close>

fun unconverted :: "'v typed_expr \<Rightarrow> 'v typed_expr" where
  "unconverted (ConvertedExpr l t e True) = unconverted e"
| "unconverted e = e"

text \<open>An argument is of its parameter's type, needs no conversion, and is a variable if the parameter is written.\<close>

definition argumentFits :: "'v check_env \<Rightarrow> string \<times> nat \<times> param_mode \<Rightarrow> 'v typed_expr \<Rightarrow> bool" where
  "argumentFits E p e \<longleftrightarrow>
     typeFits E (fst (snd p)) e \<and> converted E (fst (snd p)) e \<and>
     (getParameterMode (snd (snd p)) \<noteq> MODE_IN \<longrightarrow> immutablePart (unconverted e) = None)"

section \<open>Checked expressions\<close>

definition isLiteral :: "'v typed_expr \<Rightarrow> bool" where
  "isLiteral e = (case e of LiteralExpr l t v \<Rightarrow> True | _ \<Rightarrow> False)"

text \<open>The indices are of the index types of an array type that the prefix is covered by.\<close>

inductive checked :: "'v check_env \<Rightarrow> 'v typed_expr \<Rightarrow> bool" for E where
  checked_ref: "checked E (DeclRefExpr l d)"
| checked_literal: "\<not> isAnyUniversal (ce_store E) t \<Longrightarrow> checked E (LiteralExpr l t v)"
| checked_null: "isAccessType (ce_store E) t \<Longrightarrow> checked E (NullExpr l (Some t))"
| checked_call:
    "getConnective c = Some d \<Longrightarrow> sr_isFunction d \<Longrightarrow>
     list_all2 (\<lambda>p a. \<exists>e. a = Some e \<and> checked E e \<and> argumentFits E p e) (sr_params d) (arguments c) \<Longrightarrow>
     checked E (CallExpr l (Some (sr_return d)) c)"
| checked_indexed:
    "checked E arr \<Longrightarrow> exprType arr = Some t \<Longrightarrow> primaryKindOf (ce_store E) t = Some (ArrayType is c) \<Longrightarrow>
     primaryKindOf (ce_store E) u = Some (ArrayType js k) \<Longrightarrow> coversIn E t u = Some True \<Longrightarrow>
     list_all2 (\<lambda>i e. checked E e \<and> typeFits E i e) js es \<Longrightarrow> checked E (IndexedArrayExpr l (Some c) arr es)"
| checked_selected:
    "checked E p \<Longrightarrow> exprType p = Some a \<Longrightarrow> r = a \<or> resolveIn E a = Some r \<Longrightarrow> isRecordType (ce_store E) r \<Longrightarrow>
     getComponent E r s = Some (c, t) \<Longrightarrow> checked E (SelectedExpr l (Some t) p s (Some c))"
| checked_qualified: "checked E e \<Longrightarrow> typeFits E t e \<Longrightarrow> checked E (QualifiedExpr l t e)"
| checked_dereference:
    "checked E p \<Longrightarrow> exprType p = Some a \<Longrightarrow> completePrivate (ce_store E) a = Some b \<Longrightarrow>
     primaryKindOf (ce_store E) b = Some (AccessType t) \<Longrightarrow> checked E (DereferenceExpr l t p i)"
| checked_converted: "checked E e \<or> isLiteral e \<and> \<not> i \<Longrightarrow> checked E (ConvertedExpr l t e i)"
| checked_initialized:
    "checked E e \<Longrightarrow> primaryKindOf (ce_store E) t = Some (AccessType target) \<Longrightarrow> typeFits E target e \<Longrightarrow>
     checked E (AllocatorExpr l (Some t) (Inl e))"
| checked_uninitialized:
    "primaryKindOf (ce_store E) t = Some (AccessType target) \<Longrightarrow> coversIn E a target = Some True \<Longrightarrow>
     checked E (AllocatorExpr l (Some t) (Inr a))"
| checked_diamond: "checked E (DiamondExpr l (Some t))"
| checked_scalar: "checked E (ScalarBoundAE l (Some t) b)"
| checked_bound:
    "checked E p \<Longrightarrow> exprType p = Some a \<Longrightarrow> primaryKindOf (ce_store E) a = Some (ArrayType (i # is) c) \<Longrightarrow>
     checked E (ArrayBoundAE l i p b)"
| checked_length:
    "checked E p \<Longrightarrow> exprType p = Some a \<Longrightarrow> isArrayType (ce_store E) a \<Longrightarrow> checked E (LengthAE l t p)"

text \<open>Expressions that wait for their context, and those that do not.\<close>

inductive built :: "'v check_env \<Rightarrow> 'v typed_expr \<Rightarrow> bool" for E where
  built_checked: "checked E e \<Longrightarrow> built E e"
| built_literal: "built E (LiteralExpr l t v)"
| built_null: "built E (NullExpr l None)"
| built_call:
    "\<not> isUnambiguous c \<Longrightarrow> arguments c = map Some pos @ replicate (length (keyedArgs c)) None \<Longrightarrow>
     numPositional c = length pos \<Longrightarrow> (\<forall>e \<in> callArgs c. built E e) \<Longrightarrow> built E (CallExpr l None c)"
| built_indexed: "\<not> hasResolvedType (ce_store E) arr \<Longrightarrow> built E arr \<Longrightarrow> (\<forall>e \<in> set es. built E e) \<Longrightarrow>
     built E (IndexedArrayExpr l None arr es)"
| built_selected: "built E p \<Longrightarrow> built E (SelectedExpr l None p s None)"
| built_allocator: "(\<forall>e. x = Inl e \<longrightarrow> built E e) \<Longrightarrow> built E (AllocatorExpr l None x)"
| built_diamond: "built E (DiamondExpr l None)"
| built_scalar: "built E (ScalarBoundAE l None b)"

inductive_cases checked_callE: "checked E (CallExpr l t c)"
inductive_cases built_callE: "built E (CallExpr l t c)"
inductive_cases built_selectedE: "built E (SelectedExpr l t p s c)"
inductive_cases built_allocatorE: "built E (AllocatorExpr l t x)"
inductive_cases built_indexedE: "built E (IndexedArrayExpr l t a es)"
inductive_cases built_lengthE: "built E (LengthAE l t p)"
inductive_cases built_boundE: "built E (ArrayBoundAE l t p b)"
inductive_cases built_scalarE: "built E (ScalarBoundAE l t b)"
inductive_cases built_nullE: "built E (NullExpr l t)"
inductive_cases built_diamondE: "built E (DiamondExpr l t)"
inductive_cases checked_nullE: "checked E (NullExpr l t)"
inductive_cases checked_diamondE: "checked E (DiamondExpr l t)"
inductive_cases checked_scalarE: "checked E (ScalarBoundAE l t b)"
inductive_cases checked_selectedE: "checked E (SelectedExpr l t p s c)"
inductive_cases checked_indexedE: "checked E (IndexedArrayExpr l t a es)"
inductive_cases checked_allocatorE: "checked E (AllocatorExpr l t x)"
inductive_cases checked_literalE: "checked E (LiteralExpr l t v)"

lemma checked_typed: "checked E e \<Longrightarrow> exprType e \<noteq> None"
  by (induction rule: checked.induct) auto

text \<open>A tree of another kind than those that can wait is checked.\<close>

lemma built_other:
  assumes "built E e"
  shows "case e of DeclRefExpr l d \<Rightarrow> checked E e | QualifiedExpr l t x \<Rightarrow> checked E e | DereferenceExpr l t x i \<Rightarrow> checked E e
    | ConvertedExpr l t x i \<Rightarrow> checked E e | ArrayBoundAE l t x b \<Rightarrow> checked E e | LengthAE l t x \<Rightarrow> checked E e
    | IndexedArrayExpr l (Some t) x es \<Rightarrow> checked E e | SelectedExpr l (Some t) x s c \<Rightarrow> checked E e
    | CallExpr l (Some t) c \<Rightarrow> checked E e | NullExpr l (Some t) \<Rightarrow> checked E e | AllocatorExpr l (Some t) x \<Rightarrow> checked E e
    | DiamondExpr l (Some t) \<Rightarrow> checked E e | ScalarBoundAE l (Some t) b \<Rightarrow> checked E e | _ \<Rightarrow> True"
  using assms by cases (auto split: typed_expr.split option.split)

section \<open>Resolution is idempotent\<close>

lemma resolveType_idem:
  assumes "resolveType st region a = Some b"
  shows "resolveType st region b = Some b"
proof (rule resolveType.raw_induct [where P = "\<lambda>st region a b. resolveType st region b = Some b", OF _ assms])
  fix f st region a b
  assume IH: "\<And>st region a b. f st region a = Some b \<Longrightarrow> resolveType st region b = Some b"
    and body: "(if isIncomplete st a then
        (case visibleIncomplete st region a of
           None \<Rightarrow> None | Some None \<Rightarrow> Some a | Some (Some c) \<Rightarrow> f st region c)
      else
        (case visiblePrivate st region a of
           None \<Rightarrow> None | Some None \<Rightarrow> Some a | Some (Some c) \<Rightarrow> f st region c)) = Some b"
  have "(\<exists>c. f st region c = Some b) \<or> a = b \<and> resolveType st region a = Some a"
    using body by (auto split: if_splits option.splits simp: resolveType.simps [of st region a])
  then show "resolveType st region b = Some b" using IH by auto
qed

lemma conversion_self: "resolveType st region a = Some b \<Longrightarrow> conversionRequired st region a a = Some False"
  by (simp add: conversionRequired_def)

lemma ensures_True [simp]: "ensures m (\<lambda>a. True)"
  by (simp add: ensures_def)

definition universalType :: "'v check_env \<Rightarrow> nat \<Rightarrow> bool" where
  "universalType E ctx \<longleftrightarrow> isAnyUniversal (ce_store E) ctx"

lemma coveredBy_typed: "\<not> universalType E ctx \<Longrightarrow>
    coveredBy E ctx a \<longleftrightarrow> (\<exists>r. (r = a \<or> resolveIn E a = Some r) \<and> coversIn E r ctx = Some True)"
  by (auto simp: coveredBy_def universalType_def isAnyUniversal_def split: type_obj.splits)

lemma covers_refl [simp]: "covers st region a a = Some True"
  by (simp add: covers.simps)

lemma coveredBy_self: "\<not> universalType E ctx \<Longrightarrow> coveredBy E ctx ctx"
  using covers_refl by (auto simp: coveredBy_typed)

lemma mutable_unconverted: "immutablePart e = None \<Longrightarrow> unconverted e = e"
  by (cases e rule: unconverted.cases) auto

section \<open>Conversions and dereferences keep the typing\<close>

text \<open>What the check makes of an expression in a resolved context, and in any.\<close>

definition typedIn :: "'v check_env \<Rightarrow> 'v typed_expr \<Rightarrow> nat \<Rightarrow> 'v typed_expr \<Rightarrow> bool" where
  "typedIn E e ctx e' \<longleftrightarrow>
     checked E e' \<and> (\<exists>a. exprType e' = Some a \<and> coveredBy E ctx a) \<and>
     (immutablePart e = None \<longrightarrow> immutablePart (unconverted e') = None)"

definition accepted :: "'v check_env \<Rightarrow> 'v typed_expr \<Rightarrow> nat \<Rightarrow> 'v typed_expr \<Rightarrow> bool" where
  "accepted E e t e' \<longleftrightarrow>
     checked E e' \<and> typeFits E t e' \<and> (immutablePart e = None \<longrightarrow> immutablePart (unconverted e') = None)"

lemma convertIn_typed:
  assumes "convertIn E e ctx = Some e'" "checked E e" "exprType e = Some a" "coveredBy E ctx a" "\<not> universalType E ctx"
  shows "checked E e' \<and> (\<exists>b. exprType e' = Some b \<and> coveredBy E ctx b) \<and> unconverted e' = unconverted e"
  using assms coveredBy_self [OF assms(5)]
  by (auto simp: convertIfNeeded_def bind_eq_Some_conv intro: checked_converted)

lemma newDereference_Some:
  assumes "newDereference st e l i = Some e1"
  shows "\<exists>t p target. exprType e = Some t \<and> completePrivate st t = Some p \<and>
    primaryKindOf st p = Some (AccessType target) \<and> e1 = DereferenceExpr l target e i"
proof -
  obtain t p where t: "exprType e = Some t" "completePrivate st t = Some p"
    and k: "(case primaryKindOf st p of Some (AccessType target) \<Rightarrow> Some (DereferenceExpr l target e i) | _ \<Rightarrow> None) = Some e1"
    using assms unfolding newDereference_def bind_eq_Some_conv by blast
  from k obtain target where "primaryKindOf st p = Some (AccessType target)" "e1 = DereferenceExpr l target e i"
    by (cases "primaryKindOf st p" rule: option.exhaust; cases "the (primaryKindOf st p)") auto
  then show ?thesis using t by blast
qed

lemma dereferenceUntil_typed:
  assumes "dereferenceUntil st region found e = Some e'" "st = ce_store E" "checked E e"
  shows "checked E e' \<and> (\<exists>a r. exprType e' = Some a \<and> resolveType st region a = Some r \<and> found r = Some True) \<and>
    immutablePart e' = immutablePart e \<and> unconverted e' = e'"
proof -
  let ?P = "\<lambda>st region found e e'. st = ce_store E \<and> checked E e \<longrightarrow>
    checked E e' \<and> (\<exists>a r. exprType e' = Some a \<and> resolveType st region a = Some r \<and> found r = Some True) \<and>
    immutablePart e' = immutablePart e \<and> unconverted e' = e'"
  have "?P st region found e e'"
  proof (rule dereferenceUntil.raw_induct [where P = ?P, OF _ assms(1)], intro impI)
    fix f st region found e and e' :: "'a typed_expr"
    assume IH: "\<And>st region found e e'. f st region found e = Some e' \<Longrightarrow> ?P st region found e e'"
      and c: "st = ce_store E \<and> checked E e"
      and body: "(case resolveExprType st region e of
        None \<Rightarrow> None
      | Some source \<Rightarrow>
          if isAccessType st source then
            (case newDereference st e (exprLoc e) True of
               None \<Rightarrow> None
             | Some e1 \<Rightarrow>
                 (case Option.bind (resolveExprType st region e1) found of
                    None \<Rightarrow> None
                  | Some ok \<Rightarrow> if ok then Some e1 else f st region found e1))
          else None) = Some e'"
    obtain e1 ok where e1: "newDereference st e (exprLoc e) True = Some e1"
      "Option.bind (resolveExprType st region e1) found = Some ok" "(if ok then Some e1 else f st region found e1) = Some e'"
    proof -
      obtain source where s: "resolveExprType st region e = Some source" using body by (cases "resolveExprType st region e") auto
      then have acc: "isAccessType st source" using body by (auto split: if_splits)
      obtain e1 where e1: "newDereference st e (exprLoc e) True = Some e1"
        using body s acc by (cases "newDereference st e (exprLoc e) True") auto
      obtain ok where ok: "Option.bind (resolveExprType st region e1) found = Some ok"
        using body s acc e1 by (cases "Option.bind (resolveExprType st region e1) found") auto
      show ?thesis using that [OF e1 ok] body s acc e1 ok by simp
    qed
    obtain l t i where n: "e1 = DereferenceExpr l t e i" "checked E e1"
    proof -
      obtain t p target where t: "exprType e = Some t" "completePrivate st t = Some p"
        "primaryKindOf st p = Some (AccessType target)" "e1 = DereferenceExpr (exprLoc e) target e True"
        using newDereference_Some [OF e1(1)] by blast
      have "checked E e1" unfolding t(4)
        by (rule checked_dereference) (use t c in auto)
      then show ?thesis using that t(4) by blast
    qed
    show "checked E e' \<and> (\<exists>a r. exprType e' = Some a \<and> resolveType st region a = Some r \<and> found r = Some True) \<and>
        immutablePart e' = immutablePart e \<and> unconverted e' = e'"
    proof (cases ok)
      case True
      then have "e' = e1" using e1(3) by simp
      then show ?thesis using n e1(2) True by (auto simp: resolveExprType_def bind_eq_Some_conv)
    next
      case False
      then show ?thesis using IH [of st region found e1 e'] e1(3) n c by simp
    qed
  qed
  then show ?thesis using assms by simp
qed

lemma checkExprAndDereference_typed:
  assumes "checked E e" "\<not> universalType E ctx"
  shows "ensures (checkExprAndDereferenceInContext E e ctx) (typedIn E e ctx)"
  unfolding checkExprAndDereferenceInContext_def
proof (intro ensures_intros, goal_cases)
  case (1 t c e')
  obtain a where a: "exprType e = Some a" "resolveIn E a = Some t"
    using 1(1) by (auto simp: resolveExprType_def bind_eq_Some_conv)
  have "coveredBy E ctx a" using a(2) 1 assms(2) by (auto simp: coveredBy_typed)
  from convertIn_typed [OF 1(4) assms(1) a(1) this assms(2)] show ?case
    using mutable_unconverted [of e] by (auto simp: typedIn_def)
next
  case (2 t c d e1 e2)
  have d: "checked E e1" "\<exists>a r. exprType e1 = Some a \<and> resolveIn E a = Some r \<and> coversIn E r ctx = Some True"
    "immutablePart e1 = immutablePart e" "unconverted e1 = e1"
    using dereferenceUntil_typed [OF 2(6) [unfolded implicitlyDereference_def] refl assms(1)] by auto
  then obtain a where a: "exprType e1 = Some a" "coveredBy E ctx a" using assms(2) by (auto simp: coveredBy_typed)
  from convertIn_typed [OF 2(7) d(1) a assms(2)] show ?case
    using d by (auto simp: typedIn_def)
qed simp

section \<open>The arguments of a call\<close>

lemma placeKeyed_length: "placeKeyed d n keys args = Some args' \<Longrightarrow> length args' = length args"
  by (induction keys arbitrary: args) (auto split: option.splits if_splits)

lemma filter_update:
  assumes "i < length xs" "P (xs ! i)" "\<not> P x"
  shows "Suc (length (filter P (xs[i := x]))) = length (filter P xs)"
  using assms by (induction xs arbitrary: i) (auto split: nat.splits)

lemma placeKeyed_Cons:
  assumes "placeKeyed d n (k # ks) args = Some args'"
  shows "\<exists>i. getKeywordIndex d (keyword k) = Some i \<and> i < length args \<and> n \<le> i \<and> Option.is_none (args ! i) \<and>
    placeKeyed d n ks (args[i := Some (selected k)]) = Some args'"
  using assms by (auto split: option.splits if_splits)

lemma placeKeyed_count:
  "placeKeyed d n keys args = Some args' \<Longrightarrow>
    length (filter Option.is_none args') + length keys = length (filter Option.is_none args)"
proof (induction keys arbitrary: args)
  case (Cons k ks)
  obtain i where i: "i < length args" "Option.is_none (args ! i)"
    "placeKeyed d n ks (args[i := Some (selected k)]) = Some args'"
    using placeKeyed_Cons [OF Cons.prems] by blast
  show ?case using Cons.IH [OF i(3)] filter_update [of i args Option.is_none "Some (selected k)"] i(1,2) by simp
qed simp

lemma placeKeyed_at:
  assumes "placeKeyed d n keys args = Some args'" "i < length args"
  shows "args' ! i = args ! i \<or>
    (\<exists>k \<in> set keys. getKeywordIndex d (keyword k) = Some i \<and> args' ! i = Some (selected k))"
  using assms
proof (induction keys arbitrary: args)
  case (Cons k ks)
  obtain j where j: "getKeywordIndex d (keyword k) = Some j" "j < length args" "n \<le> j"
    "placeKeyed d n ks (args[j := Some (selected k)]) = Some args'"
    using placeKeyed_Cons [OF Cons.prems(1)] by blast
  have "args' ! i = args[j := Some (selected k)] ! i \<or>
    (\<exists>k \<in> set ks. getKeywordIndex d (keyword k) = Some i \<and> args' ! i = Some (selected k))"
    using Cons.IH [OF j(4)] Cons.prems by simp
  then show ?case using j Cons.prems by (cases "i = j") auto
qed simp

lemma none_free: "filter Option.is_none xs = [] \<Longrightarrow> x \<in> set xs \<Longrightarrow> \<exists>y. x = Some y"
  by (auto simp: filter_empty_conv Option.is_none_def)

text \<open>A call that is resolved has every argument, of the number its connective takes.\<close>

lemma resolveConnective_full:
  assumes "resolveConnective f d call = Some c"
    "arguments call = map Some pos @ replicate (length (keyedArgs call)) None" "numPositional call = length pos"
  shows "getConnective c = Some d \<and> isUnambiguous c \<and> length (arguments c) = length (sr_params d) \<and>
    (\<forall>a \<in> set (arguments c). \<exists>e \<in> callArgs call. a = Some e)"
proof -
  obtain args where a: "placeKeyed d (numPositional call) (keyedArgs call) (arguments call) = Some args"
    "c = SubroutineCall ((callRef call)\<lparr>ref_decls := [d]\<rparr>) (numPositional call) args (keyedArgs call)"
    "length (sr_params d) = getNumArgs call"
    using assms(1)
    by (auto simp: resolveConnective_def propagateKeyedArguments_def getConnective_def bind_eq_Some_conv split: if_splits)
  have "length (filter Option.is_none args) = 0"
    using placeKeyed_count [OF a(1)] assms(2) by simp
  then have "\<exists>e. x = Some e" if "x \<in> set args" for x using none_free [OF _ that] by simp
  moreover have "e \<in> callArgs call" if "Some e \<in> set args" for e
    using placeKeyed_args [OF a(1) that] by (auto simp: callArgs_def)
  moreover have "length args = length (sr_params d)"
    using placeKeyed_length [OF a(1)] a(3) assms(2,3) by (simp add: getNumArgs_def)
  ultimately show ?thesis using a(2) by (fastforce simp: getConnective_def isUnambiguous_def)
qed

definition soundOn :: "'v check_env \<Rightarrow> ('v typed_expr \<Rightarrow> nat \<Rightarrow> 'v typed_expr chk) \<Rightarrow> 'v typed_expr set \<Rightarrow> bool" where
  "soundOn E check A \<longleftrightarrow> (\<forall>a \<in> A. built E a \<longrightarrow> (\<forall>t. ensures (check a t) (accepted E a t)))"

lemma checkSubroutineArgument_typed:
  assumes "soundOn E check A" "a \<in> A" "built E a"
  shows "ensures (checkSubroutineArgument check a t (getParameterMode m))
    (\<lambda>e. checked E e \<and> typeFits E t e \<and> (getParameterMode m \<noteq> MODE_IN \<longrightarrow> immutablePart (unconverted e) = None))"
proof -
  have c: "ensures (check a t) (accepted E a t)" using assms by (auto simp: soundOn_def)
  have "getParameterMode m \<noteq> MODE_IN \<Longrightarrow> getParameterMode m = MODE_OUT \<or> getParameterMode m = MODE_IN_OUT"
    by (cases m) (auto simp: getParameterMode_def)
  then show ?thesis
    unfolding checkSubroutineArgument_def
    by (intro ensures_intros) (auto intro: ensures_mono [OF c] simp: accepted_def)
qed

lemma checkSubroutineCallArguments_typed:
  assumes "soundOn E check A" "getConnective c = Some d" "length (arguments c) = length (sr_params d)"
    "\<forall>a \<in> set (arguments c). \<exists>e \<in> A. a = Some e \<and> built E e"
  shows "ensures (checkSubroutineCallArguments check c) (\<lambda>c1. callRef c1 = callRef c \<and>
    list_all2 (\<lambda>p a. \<exists>e. a = Some e \<and> checked E e \<and> typeFits E (fst (snd p)) e \<and>
       (getParameterMode (snd (snd p)) \<noteq> MODE_IN \<longrightarrow> immutablePart (unconverted e) = None)) (sr_params d) (arguments c1))"
proof -
  let ?ok = "\<lambda>p e. checked E e \<and> typeFits E (fst (snd p)) e \<and>
       (getParameterMode (snd (snd p)) \<noteq> MODE_IN \<longrightarrow> immutablePart (unconverted e) = None)"
  let ?P = "\<lambda>(i, a) e. ?ok (sr_params d ! i) e"
  have "ensures (do { mode \<leftarrow> getParamMode d i; target \<leftarrow> getParamType d i; arg \<leftarrow> a; checkSubroutineArgument check arg target mode })
      (?ok (sr_params d ! i))" if "(i, a) \<in> set (List.enumerate 0 (arguments c))" for i a
  proof -
    have "i < length (arguments c)" "a \<in> set (arguments c)" using that by (auto simp: in_set_enumerate_eq)
    then obtain e where "e \<in> A" "a = Some e" "built E e" using assms(4) by blast
    then show ?thesis using checkSubroutineArgument_typed [OF assms(1)]
      by (auto simp: getParamMode_def getParamType_def)
  qed
  then have "ensures (checkEach (\<lambda>(i, a). do { mode \<leftarrow> getParamMode d i; target \<leftarrow> getParamType d i; arg \<leftarrow> a;
      checkSubroutineArgument check arg target mode }) (List.enumerate 0 (arguments c)))
      (list_all2 ?P (List.enumerate 0 (arguments c)))"
    by (intro ensures_checkEach) auto
  then show ?thesis
    unfolding checkSubroutineCallArguments_def using assms(2,3)
    by (auto intro!: ensures_intros elim!: ensures_mono simp: list_all2_conv_all_nth nth_enumerate_eq)
qed

lemma universal_member: "ts_type st ctx = UniversalType u \<Longrightarrow> getClassification u = Some ID \<Longrightarrow> memberOf ID st ctx"
  by (cases u) (auto simp: getClassification_def isUniversal_def)

lemma convertIn_argument:
  assumes "convertIn E e t = Some e'" "checked E e" "typeFits E t e"
  shows "checked E e' \<and> typeFits E t e' \<and> converted E t e' \<and> unconverted e' = unconverted e"
proof -
  obtain a ctx where a: "exprType e = Some a" "resolveIn E t = Some ctx" "coveredBy E ctx a"
    using assms(3) by (auto simp: typeFits_def)
  obtain b where b: "conversionRequired (ce_store E) (ce_region E) a t = Some b"
    "e' = (if b then ConvertedExpr (exprLoc e) t e True else e)"
    using assms(1) a(1) by (auto simp: convertIfNeeded_def bind_eq_Some_conv)
  show ?thesis
  proof (cases b)
    case False
    then show ?thesis using assms a b by (auto simp: converted_def)
  next
    case True
    have "coveredBy E ctx t"
      using a(2,3) universal_member [of "ce_store E" ctx]
      by (fastforce simp: coveredBy_def split: type_obj.splits)
    then show ?thesis
      using True b(2) a(2) assms(2) conversion_self [OF a(2)]
      by (auto simp: typeFits_def converted_def intro: checked_converted)
  qed
qed

lemma convertSubroutineCallArguments_typed:
  assumes "convertSubroutineCallArguments E c1 = Some c2" "getConnective c1 = Some d"
    "list_all2 (\<lambda>p a. \<exists>e. a = Some e \<and> checked E e \<and> typeFits E (fst (snd p)) e \<and>
       (getParameterMode (snd (snd p)) \<noteq> MODE_IN \<longrightarrow> immutablePart (unconverted e) = None)) (sr_params d) (arguments c1)"
  shows "callRef c2 = callRef c1 \<and>
    list_all2 (\<lambda>p a. \<exists>e. a = Some e \<and> checked E e \<and> argumentFits E p e) (sr_params d) (arguments c2)"
proof -
  let ?xs = "List.enumerate 0 (arguments c1)"
  obtain args where args: "mapAll (\<lambda>(i, a). do { arg \<leftarrow> a; target \<leftarrow> getParamType d i; convertIn E arg target }) ?xs = Some args"
    "c2 = SubroutineCall (callRef c1) (numPositional c1) (map Some args) (keyedArgs c1)"
    using assms(1,2) by (auto simp: convertSubroutineCallArguments_def bind_eq_Some_conv)
  have l: "length args = length (arguments c1)" "length (arguments c1) = length (sr_params d)"
    using args(1) assms(3) by (auto simp: mapAll_Some dest: list_all2_lengthD)
  have "checked E (args ! i) \<and> argumentFits E (sr_params d ! i) (args ! i)" if i: "i < length args" for i
  proof -
    obtain e where e: "arguments c1 ! i = Some e" "checked E e" "typeFits E (fst (snd (sr_params d ! i))) e"
      "getParameterMode (snd (snd (sr_params d ! i))) \<noteq> MODE_IN \<longrightarrow> immutablePart (unconverted e) = None"
      using assms(3) i l by (auto simp: list_all2_conv_all_nth)
    have "convertIn E e (fst (snd (sr_params d ! i))) = Some (args ! i)"
      using args(1) i l e(1)
      by (auto simp: mapAll_Some list_all2_conv_all_nth nth_enumerate_eq getParamType_def dest!: spec [of _ i])
    from convertIn_argument [OF this e(2,3)] show ?thesis using e(4) by (auto simp: argumentFits_def)
  qed
  then show ?thesis using args(2) l by (auto simp: list_all2_conv_all_nth)
qed

lemma resolveFunctionConnective_Some:
  assumes "resolveFunctionConnective d loc t call = Some e"
  shows "\<exists>c. resolveConnective True d call = Some c \<and> e = CallExpr loc (Some (sr_return d)) c \<and> sr_isFunction d"
proof -
  obtain c where c: "resolveConnective True d call = Some c" "setTypeForConnective loc t c = Some e"
    using assms by (auto simp: resolveFunctionConnective_def bind_eq_Some_conv)
  have u: "getConnective c = Some d" "isUnambiguous c" "sr_isFunction d"
    using c(1) by (auto simp: resolveConnective_def propagateKeyedArguments_def getConnective_def isUnambiguous_def
        bind_eq_Some_conv split: if_splits)
  then show ?thesis using c by (auto simp: setTypeForConnective_def)
qed

lemma resolveCallWith_typed:
  assumes "soundOn E check (callArgs call)" "\<forall>e \<in> callArgs call. built E e"
    "arguments call = map Some pos @ replicate (length (keyedArgs call)) None" "numPositional call = length pos"
  shows "ensures (resolveCallWith E check d loc t call)
    (\<lambda>e. checked E e \<and> exprType e = Some (sr_return d) \<and> (\<exists>l u c. e = CallExpr l u c))"
  unfolding resolveCallWith_def
proof (intro ensures_bind, goal_cases)
  case (1 e)
  obtain c where c: "resolveConnective True d call = Some c" "e = CallExpr loc (Some (sr_return d)) c" "sr_isFunction d"
    using resolveFunctionConnective_Some [OF 1] by blast
  have f: "getConnective c = Some d" "length (arguments c) = length (sr_params d)"
    "\<forall>a \<in> set (arguments c). \<exists>e \<in> callArgs call. a = Some e \<and> built E e"
    using resolveConnective_full [OF c(1) assms(3,4)] assms(2) by auto
  show ?case
    unfolding c(2) typed_expr.case
  proof (intro ensures_andThen ensures_mono [OF checkSubroutineCallArguments_typed [OF assms(1) f]] ensures_bind, goal_cases)
    case (1 c1 c2)
    then have g: "getConnective c1 = Some d" using f(1) by (simp add: getConnective_def)
    have "callRef c2 = callRef c1 \<and>
      list_all2 (\<lambda>p a. \<exists>e. a = Some e \<and> checked E e \<and> argumentFits E p e) (sr_params d) (arguments c2)"
      using convertSubroutineCallArguments_typed [OF 1(2) g] 1(1) by blast
    moreover have "getConnective c2 = Some d" using calculation g by (simp add: getConnective_def)
    ultimately show ?case using c(3) by (auto intro: checked_call)
  qed
qed

definition okEnv :: "'v check_env \<Rightarrow> bool" where
  "okEnv E \<longleftrightarrow>
     isIntegerType (ce_store E) (typeAddr (ce_rootType E)) \<and>
     (\<forall>a. isIntegerType (ce_store E) a \<longrightarrow> typeAddr (ce_integer E a) = a) \<and>
     ts_type (ce_store E) (ce_universal E) = UniversalType Universal_Integer"

lemma primary_not_universal: "primaryKindOf st a \<noteq> None \<Longrightarrow> \<not> isAnyUniversal st a"
  by (auto simp: primaryKindOf_def isAnyUniversal_def split: type_obj.splits)

lemma okEnv_root: "okEnv E \<Longrightarrow> \<not> isAnyUniversal (ce_store E) (typeAddr (ce_rootType E))"
  using primary_not_universal [of "ce_store E"] by (auto simp: okEnv_def isIntegerType_def)

lemma built_typed:
  assumes "built E e" "exprType e = Some a" "\<not> isLiteral e"
  shows "checked E e"
  using assms by cases (auto simp: isLiteral_def)

lemma literal_result:
  assumes "resolveUniversalLiteral ops root lit ctx = Some res"
  shows "case res of
      LiteralTyped v a \<Rightarrow> (\<exists>sub. ctx = Some sub \<and> a = typeAddr sub)
    | LiteralConverted v a b \<Rightarrow> (\<exists>sub. ctx = Some sub \<and> a = typeAddr root \<and> b = typeAddr sub)
    | LiteralRejected k \<Rightarrow> True"
  using assms
  by (auto simp: resolveUniversalLiteral_def Let_def bind_eq_Some_conv split: option.splits if_splits containment.splits)
    (metis containment.exhaust)+

lemma preferredOf_member: "preferredOf E ds = Some (Some d) \<Longrightarrow> d \<in> set ds"
proof -
  assume p: "preferredOf E ds = Some (Some d)"
  have m: "d \<in> set xs" if "resolvePreferredOperator E xs = Some (Some d)" for xs
  proof -
    have "filter (\<lambda>d. sr_primitive d \<and> sr_region d = ce_rootDecl E) xs = [d]"
      using that by (auto simp: resolvePreferredOperator_def split: list.splits)
    then have "d \<in> set (filter (\<lambda>d. sr_primitive d \<and> sr_region d = ce_rootDecl E) xs)" by (simp only: list.set_intros)
    then show ?thesis by (simp only: set_filter mem_Collect_eq)
  qed
  show ?thesis using p m [of ds] by (auto simp: preferredOf_def split: list.splits)
qed

lemma ambiguous_shape:
  assumes "built E (CallExpr l t c)" "\<not> isUnambiguous c"
  shows "t = None \<and> (\<forall>e \<in> callArgs c. built E e) \<and>
    (\<exists>pos. arguments c = map Some pos @ replicate (length (keyedArgs c)) None \<and> numPositional c = length pos)"
  using assms
  by (auto elim!: built_callE checked_callE simp: getConnective_def isUnambiguous_def split: list.splits)

lemma unambiguous_checked: "built E (CallExpr l t c) \<Longrightarrow> isUnambiguous c \<Longrightarrow> checked E (CallExpr l t c)"
  by (auto elim: built_callE)

section \<open>One level of the check\<close>

lemma resolveCallInContext_typed:
  assumes "built E (CallExpr l t c)" "soundOn E check (callArgs c)" "\<not> universalType E ctx"
  shows "ensures (resolveCallInContext E check l t c ctx) (typedIn E (CallExpr l t c) ctx)"
proof (cases "isUnambiguous c")
  case True
  then show ?thesis
    using checkExprAndDereference_typed [OF unambiguous_checked [OF assms(1)] assms(3)] by (simp add: resolveCallInContext_def)
next
  case False
  obtain pos where sh: "\<forall>e \<in> callArgs c. built E e"
    "arguments c = map Some pos @ replicate (length (keyedArgs c)) None" "numPositional c = length pos"
    using ambiguous_shape [OF assms(1) False] by blast
  have "ensures (andThen (resolveCallWith E check d l t c) (\<lambda>e. do { e' \<leftarrow> convertIn E e ctx; yields e' }))
      (typedIn E (CallExpr l t c) ctx)" if p: "resolvePreferredConnective E c ctx = Some (Some d)" for d
  proof -
    obtain ds where "keepOnly (\<lambda>d. coversIn E (sr_return d) ctx) (callFunctions c) = Some ds" "preferredOf E ds = Some (Some d)"
      using p by (auto simp: resolvePreferredConnective_def bind_eq_Some_conv)
    then have "coversIn E (sr_return d) ctx = Some True"
      using keepOnly_Some preferredOf_member by fastforce
    then have cov: "coveredBy E ctx (sr_return d)" using assms(3) by (auto simp: coveredBy_typed)
    show ?thesis
    proof (intro ensures_andThen ensures_mono [OF resolveCallWith_typed [OF assms(2) sh]] ensures_bind, goal_cases)
      case (1 e e')
      then show ?case using convertIn_typed [OF 1(2) _ _ cov assms(3)] by (auto simp: typedIn_def)
    qed
  qed
  then show ?thesis
    unfolding resolveCallInContext_def using False by (auto intro!: ensures_bind ensures_option)
qed

definition classTyped :: "'v check_env \<Rightarrow> 'v typed_expr \<Rightarrow> classification \<Rightarrow> 'v typed_expr \<Rightarrow> bool" where
  "classTyped E e ID e' \<longleftrightarrow>
     checked E e' \<and> (\<exists>a r. exprType e' = Some a \<and> (r = a \<or> resolveIn E a = Some r) \<and> memberOf ID (ce_store E) r) \<and>
     (immutablePart e = None \<longrightarrow> immutablePart (unconverted e') = None)"

lemma resolveCallInClass_typed:
  assumes "built E (CallExpr l t c)" "soundOn E check (callArgs c)"
  shows "ensures (resolveCallInClass E check l t c ID) (classTyped E (CallExpr l t c) ID)"
proof (cases "isUnambiguous c")
  case True
  show ?thesis
    using True unambiguous_checked [OF assms(1) True]
    by (auto simp: resolveCallInClass_def classTyped_def intro!: ensures_intros)
next
  case False
  obtain pos where sh: "\<forall>e \<in> callArgs c. built E e"
    "arguments c = map Some pos @ replicate (length (keyedArgs c)) None" "numPositional c = length pos"
    using ambiguous_shape [OF assms(1) False] by blast
  have "ensures (resolveCallWith E check d l t c) (classTyped E (CallExpr l t c) ID)"
    if "preferredOf E (filter (\<lambda>d. memberOf ID (ce_store E) (sr_return d)) (callFunctions c)) = Some (Some d)" for d
    using preferredOf_member [OF that]
    by (auto simp: classTyped_def intro!: ensures_mono [OF resolveCallWith_typed [OF assms(2) sh]])
  then show ?thesis
    unfolding resolveCallInClass_def Let_def using False by (auto intro!: ensures_intros)
qed

lemma resolveLiteralClass_typed:
  "okEnv E \<Longrightarrow> ensures (resolveLiteralClass E l t v ID) (classTyped E (LiteralExpr l t v) ID)"
  using okEnv_root [of E]
  by (auto simp: resolveLiteralClass_def classTyped_def intro!: ensures_intros checked_literal)

lemma checkExprInClass_typed:
  assumes "okEnv E" "built E e" "soundOn E check (recArgs e)"
  shows "ensures (checkExprInClass E check e ID) (classTyped E e ID)"
proof -
  have other: "ensures (do {
          t \<leftarrow> resolveExprType (ce_store E) (ce_region E) e;
          if memberOf ID (ce_store E) t then yields e else rejects (exprLoc e) (DISCRETE_CHECK INCOMPATIBLE_TYPES) })
      (classTyped E e ID)" if "\<not> isLiteral e"
    using built_typed [OF assms(2) _ that]
    by (auto simp: resolveExprType_def classTyped_def bind_eq_Some_conv mutable_unconverted intro!: ensures_intros)
  show ?thesis
    using assms(2,3) other resolveCallInClass_typed resolveLiteralClass_typed [OF assms(1)]
    by (cases e) (auto simp: checkExprInClass_def recArgs_def isLiteral_def)
qed

lemma resolveIntegerLiteral_typed:
  assumes "okEnv E" "\<not> universalType E ctx"
  shows "ensures (resolveIntegerLiteral E l t v ctx) (typedIn E (LiteralExpr l t v) ctx)"
proof -
  have "ensures (case res of LiteralTyped v' a \<Rightarrow> yields (LiteralExpr l a v')
        | LiteralConverted v' a b \<Rightarrow> yields (ConvertedExpr l b (LiteralExpr l a v') True)
        | LiteralRejected k \<Rightarrow> rejects l (DISCRETE_CHECK k)) (typedIn E (LiteralExpr l t v) ctx)"
    if "resolveUniversalLiteral (ce_ops E) (ce_rootType E) v (integerAt E ctx) = Some res" for res
    using literal_result [OF that] assms okEnv_root [OF assms(1)] coveredBy_self [OF assms(2)]
    by (auto simp: typedIn_def integerAt_def okEnv_def universalType_def split: literal_result.splits if_splits
        intro: checked_literal checked_converted)
  then show ?thesis
    using assms coveredBy_self [OF assms(2)]
    by (auto simp: resolveIntegerLiteral_def typedIn_def universalType_def intro!: ensures_intros checked_literal)
qed

lemma resolveAttribute_typed:
  assumes "okEnv E" "\<not> universalType E ctx" "built E e"
    "case e of ScalarBoundAE l t b \<Rightarrow> True | ArrayBoundAE l t p b \<Rightarrow> True | LengthAE l t p \<Rightarrow> True | _ \<Rightarrow> False"
  shows "ensures (resolveAttribute E e ctx) (typedIn E e ctx)"
proof -
  have imm: "immutablePart e = Some e" "\<not> isLiteral e"
    using assms(4) by (auto simp: isLiteral_def split: typed_expr.splits)
  have "ensures (case res of LiteralTyped v' a \<Rightarrow> yields (LengthAE l a p)
        | LiteralConverted v' a b \<Rightarrow> yields (ConvertedExpr l b (LengthAE l a p) True)
        | LiteralRejected k \<Rightarrow> rejects l (DISCRETE_CHECK k)) (typedIn E e ctx)"
    if "resolveUniversalLiteral (ce_ops E) (ce_rootType E) z (integerAt E ctx) = Some res" "e = LengthAE l t p" for res l t p z
  proof -
    have "checked E (LengthAE l a p)" for a
      using assms(3) that(2) by (auto elim!: built_lengthE elim: checked.cases intro: checked_length)
    then show ?thesis
      using literal_result [OF that(1)] assms(1) imm coveredBy_self [OF assms(2)]
      by (auto simp: typedIn_def integerAt_def okEnv_def split: literal_result.splits if_splits intro: checked_converted)
  qed
  then show ?thesis
    using built_typed [OF assms(3) _ imm(2)] imm assms(2)
    by (auto simp: resolveAttribute_def typedIn_def coveredBy_typed split: typed_expr.split intro!: ensures_intros)
qed

lemma resolveType_record: "isRecordType st a \<Longrightarrow> resolveType st region a = Some a"
  by (auto simp: resolveType.simps isRecordType_def isIncomplete_def visiblePrivate_def isPrivate_def)

lemma resolveCallForComponent_typed:
  assumes "built E (CallExpr l t c)" "soundOn E check (callArgs c)"
  shows "ensures (resolveCallForComponent E check l t c s ctx)
    (\<lambda>e. checked E e \<and> (\<exists>l u c. e = CallExpr l u c) \<and> (\<exists>a r k. exprType e = Some a \<and> resolveIn E a = Some r \<and>
       getComponent E r s = Some k \<and> coversIn E (snd k) ctx = Some True))"
proof (cases "isUnambiguous c")
  case True
  then show ?thesis by (simp add: resolveCallForComponent_def)
next
  case False
  obtain pos where sh: "\<forall>e \<in> callArgs c. built E e"
    "arguments c = map Some pos @ replicate (length (keyedArgs c)) None" "numPositional c = length pos"
    using ambiguous_shape [OF assms(1) False] by blast
  let ?P = "\<lambda>d. do {
            r \<leftarrow> resolveIn E (sr_return d);
            if isRecordType (ce_store E) r then
              (case getComponent E r s of None \<Rightarrow> Some False | Some c \<Rightarrow> coversIn E (snd c) ctx)
            else Some False }"
  have "ensures (resolveCallWith E check d l t c) (\<lambda>e. checked E e \<and> (\<exists>l u c. e = CallExpr l u c) \<and>
      (\<exists>a r k. exprType e = Some a \<and> resolveIn E a = Some r \<and>
       getComponent E r s = Some k \<and> coversIn E (snd k) ctx = Some True))"
    if "keepOnly ?P (callFunctions c) = Some [d]" for d
  proof -
    have "d \<in> set (filter (\<lambda>x. ?P x = Some True) (callFunctions c))"
      using keepOnly_Some [OF that] by (metis list.set_intros(1))
    then have "?P d = Some True" by simp
    then obtain r i u where "resolveIn E (sr_return d) = Some r" "getComponent E r s = Some (i, u)" "coversIn E u ctx = Some True"
      by (auto simp: bind_eq_Some_conv split: if_splits option.splits)
    then show ?thesis by (intro ensures_mono [OF resolveCallWith_typed [OF assms(2) sh]]) auto
  qed
  then show ?thesis
    unfolding resolveCallForComponent_def using False by (auto intro!: ensures_bind split: list.split)
qed

lemma resolveSelectedExpr_typed:
  assumes "built E (SelectedExpr l t p s k)" "soundOn E check (recArgs (SelectedExpr l t p s k))" "\<not> universalType E ctx"
  shows "ensures (resolveSelectedExpr E check l t p s k ctx) (typedIn E (SelectedExpr l t p s k) ctx)"
proof (cases t)
  case (Some a)
  have c: "checked E (SelectedExpr l t p s k)"
    using built_typed [OF assms(1), of a] Some by (simp add: isLiteral_def)
  then have "k \<noteq> None" by (auto elim: checked_selectedE)
  then show ?thesis
    using checkExprAndDereference_typed [OF c assms(3)] Some
    by (cases p) (auto simp: resolveSelectedExpr_def intro!: ensures_if ensures_andThen)
next
  case None
  have b: "built E p" "k = None" using assms(1) None by (auto elim!: built_selectedE elim: checked_selectedE)
  show ?thesis
  proof (cases p)
    case (CallExpr l' t' c)
    have step: "typedIn E (SelectedExpr l t p s k) ctx e'"
      if "checked E q" "resolveIn E a = Some r" "getComponent E r s = Some j" "coversIn E (snd j) ctx = Some True"
        "exprType q = Some a" "isRecordType (ce_store E) a" "getComponent E a s = Some j'"
        "convertIn E (SelectedExpr l (Some (snd j')) q s (Some (fst j'))) ctx = Some e'" for q a r j j' e'
    proof -
      have "r = a" "j' = j" using that(2,3,6,7) resolveType_record [OF that(6)] by auto
      then have "checked E (SelectedExpr l (Some (snd j')) q s (Some (fst j')))"
        using that by (auto intro: checked_selected)
      moreover have "coveredBy E ctx (snd j')" using that(4) \<open>j' = j\<close> assms(3) by (auto simp: coveredBy_typed)
      ultimately show ?thesis
        using convertIn_typed [OF that(8) _ _ _ assms(3)] CallExpr by (auto simp: typedIn_def)
    qed
    have "soundOn E check (callArgs c)" using assms(2) CallExpr by (simp add: recArgs_def)
    from resolveCallForComponent_typed [OF b(1) [unfolded CallExpr] this]
    have p: "ensures (resolveCallForComponent E check l' t' c s ctx)
    (\<lambda>e. checked E e \<and> (\<exists>l u c. e = CallExpr l u c) \<and> (\<exists>a r k. exprType e = Some a \<and> resolveIn E a = Some r \<and>
       getComponent E r s = Some k \<and> coversIn E (snd k) ctx = Some True))" .
    show ?thesis
      using None CallExpr
      by (auto simp: resolveSelectedExpr_def hasResolvedType_def
          intro!: ensures_andThen ensures_mono [OF p] ensures_bind ensures_if dest: step)
  qed (use None in \<open>auto simp: resolveSelectedExpr_def hasResolvedType_def\<close>)
qed

lemma resolveAllocatorExpr_typed:
  assumes "built E (AllocatorExpr l t x)" "soundOn E check (recArgs (AllocatorExpr l t x))" "\<not> universalType E ctx"
  shows "ensures (resolveAllocatorExpr E check l t x ctx) (typedIn E (AllocatorExpr l t x) ctx)"
proof (cases "hasResolvedType (ce_store E) (AllocatorExpr l t x)")
  case True
  then obtain a where a: "t = Some a" by (auto simp: hasResolvedType_def split: option.splits)
  have "checked E (AllocatorExpr l t x)" using built_typed [OF assms(1), of a] a by (simp add: isLiteral_def)
  then show ?thesis
    using True a assms(3) by (auto simp: resolveAllocatorExpr_def typedIn_def coveredBy_typed intro!: ensures_bind ensures_if)
next
  case False
  have b: "built E e" if "x = Inl e" for e
    using assms(1) that False
    by (auto simp: hasResolvedType_def elim!: built_allocatorE checked_allocatorE intro: built_checked)
  have c: "ensures (check e target) (accepted E e target)" if "x = Inl e" for e target
    using assms(2) b [OF that] that by (auto simp: soundOn_def recArgs_def)
  show ?thesis
  proof (cases x)
    case (Inl e)
    show ?thesis
      using False coveredBy_self [OF assms(3)] Inl
      by (auto simp: resolveAllocatorExpr_def typedIn_def accepted_def split: option.split primary_kind.split
          intro!: ensures_andThen ensures_mono [OF c] checked_initialized)
  next
    case (Inr a)
    show ?thesis
      using False coveredBy_self [OF assms(3)] Inr
      by (auto simp: resolveAllocatorExpr_def typedIn_def split: option.split primary_kind.split
          intro!: ensures_bind ensures_if checked_uninitialized)
  qed
qed

lemma resolveNullExpr_typed:
  assumes "built E (NullExpr l t)" "\<not> universalType E ctx"
  shows "ensures (resolveNullExpr E l t ctx) (typedIn E (NullExpr l t) ctx)"
  using assms coveredBy_self [OF assms(2)]
  by (auto simp: resolveNullExpr_def typedIn_def coveredBy_typed hasResolvedType_def split: option.splits
      intro!: ensures_bind ensures_if checked_null elim!: built_nullE)

lemma resolveDiamondExpr_typed:
  assumes "built E (DiamondExpr l t)" "\<not> universalType E ctx"
  shows "ensures (resolveDiamondExpr E l t ctx) (typedIn E (DiamondExpr l t) ctx)"
  using assms coveredBy_self [OF assms(2)]
  by (auto simp: resolveDiamondExpr_def typedIn_def coveredBy_typed split: option.split
      intro!: ensures_bind ensures_if checked_diamond)

lemma typedIn_accepted:
  "resolveIn E t = Some ctx \<Longrightarrow> typedIn E e ctx e' \<Longrightarrow> accepted E e t e'"
  by (auto simp: typedIn_def accepted_def typeFits_def)

lemma checkStep_typed:
  assumes "okEnv E" "built E e" "soundOn E check (recArgs e)"
  shows "ensures (checkStep E check e t) (accepted E e t)"
  unfolding checkStep_def
proof (intro ensures_bind, goal_cases)
  case (1 ctx)
  show ?case
  proof (cases "\<exists>u. ts_type (ce_store E) ctx = UniversalType u")
    case True
    then obtain u where u: "ts_type (ce_store E) ctx = UniversalType u" by blast
    have "ensures (checkExprInClass E check e ID) (accepted E e t)" if "getClassification u = Some ID" for ID
      using 1 u that by (intro ensures_mono [OF checkExprInClass_typed [OF assms]])
        (fastforce simp: classTyped_def accepted_def typeFits_def coveredBy_def)
    then show ?thesis using u by (auto intro!: ensures_bind)
  next
    case False
    then have n: "\<not> universalType E ctx" by (auto simp: universalType_def isAnyUniversal_def split: type_obj.splits)
    note typed = typedIn_accepted [OF 1, of e]
    have "ensures (case e of
            CallExpr loc t call \<Rightarrow> resolveCallInContext E check loc t call ctx
          | LiteralExpr loc t v \<Rightarrow> resolveIntegerLiteral E loc t v ctx
          | NullExpr loc t \<Rightarrow> resolveNullExpr E loc t ctx
          | AllocatorExpr loc t operand \<Rightarrow> resolveAllocatorExpr E check loc t operand ctx
          | SelectedExpr loc t p s c \<Rightarrow> resolveSelectedExpr E check loc t p s c ctx
          | DiamondExpr loc t \<Rightarrow> resolveDiamondExpr E loc t ctx
          | ScalarBoundAE loc t b \<Rightarrow> resolveAttribute E e ctx
          | ArrayBoundAE loc t p b \<Rightarrow> resolveAttribute E e ctx
          | LengthAE loc t p \<Rightarrow> resolveAttribute E e ctx
          | _ \<Rightarrow> if hasResolvedType (ce_store E) e then checkExprAndDereferenceInContext E e ctx else None)
        (typedIn E e ctx)"
    proof (cases e)
      case (CallExpr l t c)
      then show ?thesis using resolveCallInContext_typed [of E l t c check ctx] assms(2,3) n by (simp add: recArgs_def)
    next
      case (LiteralExpr l t v)
      then show ?thesis using resolveIntegerLiteral_typed [OF assms(1) n] by simp
    next
      case (NullExpr l t)
      then show ?thesis using resolveNullExpr_typed [of E l t ctx] assms(2) n by simp
    next
      case (AllocatorExpr l t x)
      then show ?thesis using resolveAllocatorExpr_typed [of E l t x check ctx] assms(2,3) n by simp
    next
      case (SelectedExpr l t p s k)
      then show ?thesis using resolveSelectedExpr_typed [of E l t p s k check ctx] assms(2,3) n by simp
    next
      case (DiamondExpr l t)
      then show ?thesis using resolveDiamondExpr_typed [of E l t ctx] assms(2) n by simp
    next
      case (ScalarBoundAE l t b)
      then show ?thesis using resolveAttribute_typed [OF assms(1) n assms(2)] by simp
    next
      case (ArrayBoundAE l t p b)
      then show ?thesis using resolveAttribute_typed [OF assms(1) n assms(2)] by simp
    next
      case (LengthAE l t p)
      then show ?thesis using resolveAttribute_typed [OF assms(1) n assms(2)] by simp
    qed (use built_typed [OF assms(2)] checkExprAndDereference_typed [OF _ n] in
        \<open>auto simp: isLiteral_def hasResolvedType_def split: option.split\<close>)
    from ensures_mono [OF this typed] show ?thesis using False
      by (cases "ts_type (ce_store E) ctx") simp_all
  qed
qed

section \<open>Accepted expressions\<close>

lemma checkExprInContext_accepted:
  assumes "okEnv E"
  shows "built E e \<longrightarrow> ensures (checkExprInContext E e t) (accepted E e t)"
  using assms
proof (induction E e t rule: checkExprInContext.induct)
  case (1 E e t)
  then have "soundOn E (checkExprInContext E) (recArgs e)" by (auto simp: soundOn_def)
  then show ?case using checkStep_typed [OF 1(2)] by (simp add: checkExprInContext.simps [of E e t])
qed

end
