(* ===== verification/CallCheck.thy ===== *)
theory CallCheck
  imports ExprCheck
begin

text \<open>
  The nodes the parser's callbacks make of names, applications and operands:
  \<^verbatim>\<open>acceptSubroutineCall\<close> and the checks of arguments in \<^verbatim>\<open>lib/typecheck/CheckCall.cpp\<close>, the
  applications of \<^verbatim>\<open>CheckName.cpp\<close>, the operands of \<^verbatim>\<open>CheckExpr.cpp\<close> and the
  attributes of \<^verbatim>\<open>CheckAttrib.cpp\<close>.

  A check that accepts returns the node that replaces those it consumed.
\<close>

section \<open>Nodes\<close>

text \<open>
  A type declaration has its address, its type, whether it is incomplete, with the completion's declaration
  if that is visible, and its attributes.
\<close>

datatype type_decl =
    CompleteTypeDecl (declaredType: nat) (posAttribute: "subroutine option") (valAttribute: "subroutine option")
  | IncompleteTypeDecl (declaredType: nat) (visibleCompletion: "type_decl option")

datatype 'v node =
    ExprNode "'v typed_expr"
  | ProcedureCallNode nat "'v typed_expr sub_call"
  | SubroutineRefNode subroutine_ref
  | TypeRefNode nat type_decl
  | ExceptionRefNode nat nat
  | PackageRefNode nat
  | SelectorNode string nat "'v typed_expr + nat \<times> type_decl"
  | IndicationNode nat nat
  | RangeNode nat

definition makeSubroutineCall ::
    "subroutine_ref \<Rightarrow> 'v typed_expr list \<Rightarrow> 'v typed_expr selector list \<Rightarrow> 'v node option" where
  "makeSubroutineCall ref pos keys =
     (if ref_decls ref = [] then None
      else if referencesFunctions ref then map_option ExprNode (newFunctionCall ref pos keys)
      else map_option (ProcedureCallNode (ref_loc ref)) (newSubroutineCall ref pos keys))"

section \<open>The arguments of a resolved reference\<close>

definition setRHS :: "'e \<Rightarrow> 'e selector \<Rightarrow> 'e selector" where
  "setRHS e k = KeywordSelector (keyword k) (keyLoc k) e"

definition convertSubroutineArguments ::
    "'v check_env \<Rightarrow> subroutine \<Rightarrow> 'v typed_expr list \<Rightarrow> 'v typed_expr selector list
      \<Rightarrow> ('v typed_expr list \<times> 'v typed_expr selector list) option" where
  "convertSubroutineArguments E d pos keys = do {
     ps \<leftarrow> mapAll (\<lambda>(i, arg). do { target \<leftarrow> getParamType d i; convertIn E arg target }) (List.enumerate 0 pos);
     ks \<leftarrow> mapAll (\<lambda>k. do {
         i \<leftarrow> getKeywordIndex d (keyword k);
         target \<leftarrow> getParamType d i;
         e \<leftarrow> convertIn E (selected k) target;
         Some (setRHS e k) }) keys;
     Some (ps, ks) }"

definition checkPositional ::
    "'v check_env \<Rightarrow> subroutine \<Rightarrow> nat \<times> 'v typed_expr \<Rightarrow> 'v typed_expr chk" where
  "checkPositional E d = (\<lambda>(i, arg). do {
     target \<leftarrow> getParamType d i;
     mode \<leftarrow> getParamMode d i;
     checkSubroutineArgument (checkExprInContext E) arg target mode })"

text \<open>A keyed argument is checked against the keywords before it.\<close>

definition checkKeyed ::
    "'v check_env \<Rightarrow> subroutine \<Rightarrow> nat \<Rightarrow> string list \<Rightarrow> 'v typed_expr selector \<Rightarrow> 'v typed_expr selector chk" where
  "checkKeyed E d numPos before k =
     (case getKeywordIndex d (keyword k) of
        None \<Rightarrow> rejects (keyLoc k) (SUBROUTINE_HAS_NO_SUCH_KEYWORD (keyword k) (sr_name d))
      | Some i \<Rightarrow>
          if i < numPos then rejects (keyLoc k) (PARAM_PROVIDED_POSITIONALLY (keyword k))
          else if keyword k \<in> set before then rejects (keyLoc k) (DUPLICATE_KEYWORD (keyword k))
          else do {
            target \<leftarrow> getParamType d i;
            mode \<leftarrow> getParamMode d i;
            andThen (checkSubroutineArgument (checkExprInContext E) (selected k) target mode) (\<lambda>e. yields (setRHS e k)) })"

definition checkKeyedArguments ::
    "'v check_env \<Rightarrow> subroutine \<Rightarrow> nat \<Rightarrow> 'v typed_expr selector list \<Rightarrow> 'v typed_expr selector list chk" where
  "checkKeyedArguments E d numPos keys =
     checkUntil (\<lambda>(j, k). checkKeyed E d numPos (map keyword (take j keys)) k) (List.enumerate 0 keys)"

definition checkSubroutineArguments ::
    "'v check_env \<Rightarrow> subroutine \<Rightarrow> 'v typed_expr list \<Rightarrow> 'v typed_expr selector list
      \<Rightarrow> ('v typed_expr list \<times> 'v typed_expr selector list) chk" where
  "checkSubroutineArguments E d pos keys =
     andThen (checkUntil (checkPositional E d) (List.enumerate 0 pos))
       (\<lambda>ps. andThen (checkKeyedArguments E d (length pos) keys) (\<lambda>ks. yields (ps, ks)))"

definition checkSubroutineCall ::
    "'v check_env \<Rightarrow> subroutine_ref \<Rightarrow> 'v typed_expr list \<Rightarrow> 'v typed_expr selector list \<Rightarrow> 'v node chk" where
  "checkSubroutineCall E ref pos keys =
     (case ref_decls ref of
        [d] \<Rightarrow>
          if length (sr_params d) \<noteq> length pos + length keys
          then rejects (ref_loc ref) (WRONG_NUM_ARGS_FOR_SUBROUTINE (sr_name d))
          else andThen (checkSubroutineArguments E d pos keys) (\<lambda>(ps, ks). do {
            (ps', ks') \<leftarrow> convertSubroutineArguments E d ps ks;
            n \<leftarrow> makeSubroutineCall ref ps' ks';
            yields n })
      | _ \<Rightarrow> None)"

section \<open>Overloaded references\<close>

definition routineAcceptsKeywords :: "subroutine \<Rightarrow> nat \<Rightarrow> 'e selector list \<Rightarrow> bool" where
  "routineAcceptsKeywords d numPos keys \<longleftrightarrow>
     list_all (\<lambda>k. case getKeywordIndex d (keyword k) of None \<Rightarrow> False | Some i \<Rightarrow> numPos \<le> i) keys"

definition checkApplicableArgument :: "'v check_env \<Rightarrow> 'v typed_expr \<Rightarrow> nat \<Rightarrow> bool option" where
  "checkApplicableArgument E arg target =
     (let st = ce_store E;
          other = (case arg of
             NullExpr loc t \<Rightarrow> Some (isAccessType st target)
           | CallExpr loc t call \<Rightarrow> anyOf (\<lambda>d. coversIn E (sr_return d) target) (callFunctions call)
           | _ \<Rightarrow> None) in
      case exprType arg of
        Some t \<Rightarrow>
          if \<not> isAnyUniversal st t then coversIn E t target
          else if isUniversal Universal_Integer st t then Some (isIntegerType st target)
          else other
      | None \<Rightarrow> other)"

definition routineAcceptsArgs :: "'v check_env \<Rightarrow> subroutine \<Rightarrow> 'v typed_expr list \<Rightarrow> bool option" where
  "routineAcceptsArgs E d args =
     allOf (\<lambda>(i, arg). do { target \<leftarrow> getParamType d i; checkApplicableArgument E arg target }) (List.enumerate 0 args)"

definition routineAcceptsKeyedArgs :: "'v check_env \<Rightarrow> subroutine \<Rightarrow> 'v typed_expr selector list \<Rightarrow> bool option" where
  "routineAcceptsKeyedArgs E d keys =
     allOf (\<lambda>k. do {
        i \<leftarrow> getKeywordIndex d (keyword k);
        target \<leftarrow> getParamType d i;
        checkApplicableArgument E (selected k) target }) keys"

definition acceptsTypes ::
    "'v check_env \<Rightarrow> 'v typed_expr list \<Rightarrow> 'v typed_expr selector list \<Rightarrow> subroutine \<Rightarrow> bool option" where
  "acceptsTypes E pos keys d = do {
     p \<leftarrow> routineAcceptsArgs E d pos;
     if p then routineAcceptsKeyedArgs E d keys else Some False }"

definition acceptSubroutineCall ::
    "'v check_env \<Rightarrow> subroutine_ref \<Rightarrow> 'v typed_expr list \<Rightarrow> 'v typed_expr selector list \<Rightarrow> 'v node chk" where
  "acceptSubroutineCall E ref pos keys =
     (if isResolved ref then checkSubroutineCall E ref pos keys
      else
        let ds = filter (\<lambda>d. routineAcceptsKeywords d (length pos) keys) (ref_decls ref) in
        if ds = [] then rejects (ref_loc ref) AMBIGUOUS_EXPRESSION
        else do {
          es \<leftarrow> keepOnly (acceptsTypes E pos keys) ds;
          let ref' = ref\<lparr>ref_decls := es\<rparr>;
          if es = [] then rejects (ref_loc ref) AMBIGUOUS_EXPRESSION
          else if isResolved ref' then checkSubroutineCall E ref' pos keys
          else if referencesProcedures ref' then fails (ambiguousReports (ref_loc ref) (ref_loc ref) es)
          else do { n \<leftarrow> makeSubroutineCall ref' pos keys; yields n } })"

section \<open>Applications\<close>

text \<open>Leading expressions are positional, the selectors of expressions behind them are keyed, and anything else is reported.\<close>

fun leadingExprs :: "'v node list \<Rightarrow> 'v typed_expr list \<times> 'v node list" where
  "leadingExprs (ExprNode e # ns) = (let (es, rest) = leadingExprs ns in (e # es, rest))"
| "leadingExprs ns = ([], ns)"

fun leadingSelectors :: "'v node list \<Rightarrow> 'v typed_expr selector list \<times> 'v node list" where
  "leadingSelectors (SelectorNode key loc (Inl e) # ns) =
     (let (ks, rest) = leadingSelectors ns in (KeywordSelector key loc e # ks, rest))"
| "leadingSelectors ns = ([], ns)"

fun nodeLoc :: "'v node \<Rightarrow> nat" where
  "nodeLoc (ExprNode e) = exprLoc e"
| "nodeLoc (ProcedureCallNode loc c) = loc"
| "nodeLoc (SubroutineRefNode ref) = ref_loc ref"
| "nodeLoc (TypeRefNode loc t) = loc"
| "nodeLoc (ExceptionRefNode loc x) = loc"
| "nodeLoc (PackageRefNode loc) = loc"
| "nodeLoc (SelectorNode key loc rhs) = loc"
| "nodeLoc (IndicationNode loc t) = loc"
| "nodeLoc (RangeNode loc) = loc"

fun argumentReport :: "'v node \<Rightarrow> nat \<times> report_kind" where
  "argumentReport (ProcedureCallNode loc c) = (loc, INVALID_CONTEXT_FOR_PROCEDURE)"
| "argumentReport (TypeRefNode loc t) = (loc, TYPE_CANNOT_DENOTE_VALUE)"
| "argumentReport (SelectorNode key loc (Inr (tloc, t))) = (tloc, TYPE_CANNOT_DENOTE_VALUE)"
| "argumentReport (ExceptionRefNode loc x) = (loc, EXCEPTION_CANNOT_DENOTE_VALUE)"
| "argumentReport n = (nodeLoc n, NOT_AN_EXPRESSION)"

text \<open>An expression behind a selector is none of the kinds asked for, a selector there has to be one of a type.\<close>

definition checkSubroutineArgumentNodes ::
    "'v node list \<Rightarrow> ('v typed_expr list \<times> 'v typed_expr selector list) chk" where
  "checkSubroutineArgumentNodes ns =
     (let (pos, rest) = leadingExprs ns; (keys, rest') = leadingSelectors rest in
      case rest' of [] \<Rightarrow> yields (pos, keys) | n # _ \<Rightarrow> fails [argumentReport n])"

definition checkIndices ::
    "'v check_env \<Rightarrow> nat list \<Rightarrow> 'v typed_expr list \<Rightarrow> 'v typed_expr list chk" where
  "checkIndices E indexTys indices = checkEach (\<lambda>(e, t). checkExprInContext E e t) (zip indices indexTys)"

definition acceptIndexedArray :: "'v check_env \<Rightarrow> 'v typed_expr \<Rightarrow> 'v typed_expr list \<Rightarrow> 'v typed_expr chk" where
  "acceptIndexedArray E e indices =
     (let st = ce_store E in
      if \<not> hasResolvedType st e then do { a \<leftarrow> newIndexedArray st e indices; yields a }
      else do {
        t \<leftarrow> exprType e;
        arr \<leftarrow> (if isArrayType st t then Some (Some t) else getClassDereference st (ce_region E) t CLASS_Array);
        case arr of
          None \<Rightarrow> rejects (exprLoc e) EXPECTED_ARRAY_FOR_INDEX
        | Some arrTy \<Rightarrow>
            (case primaryKindOf st arrTy of
               Some (ArrayType indexTys component) \<Rightarrow>
                 if length indices \<noteq> length indexTys then rejects (exprLoc e) WRONG_NUM_SUBSCRIPTS_FOR_ARRAY
                 else andThen (checkIndices E indexTys indices) (\<lambda>is. do {
                   e' \<leftarrow> (if isArrayType st t then Some e else implicitlyDereference st (ce_region E) e arrTy);
                   a \<leftarrow> newIndexedArray st e' is;
                   yields a })
             | _ \<Rightarrow> None) })"

fun arrayIndexNodes :: "'v node list \<Rightarrow> 'v typed_expr list chk" where
  "arrayIndexNodes [] = yields []"
| "arrayIndexNodes (n # ns) =
     (case n of
        ExprNode e \<Rightarrow> andThen (arrayIndexNodes ns) (\<lambda>es. yields (e # es))
      | SelectorNode key loc rhs \<Rightarrow> rejects loc INVALID_ARRAY_INDEX
      | TypeRefNode loc t \<Rightarrow> rejects loc INVALID_ARRAY_INDEX
      | _ \<Rightarrow> None)"

text \<open>The nullary functions of a reference that return an array of so many dimensions.\<close>

definition arrayInterpretations :: "'v check_env \<Rightarrow> nat \<Rightarrow> subroutine_ref \<Rightarrow> subroutine list" where
  "arrayInterpretations E n ref =
     filter (\<lambda>d. sr_params d = [] \<and>
       (case primaryKindOf (ce_store E) (sr_return d) of Some (ArrayType is c) \<Rightarrow> length is = n | _ \<Rightarrow> False)) (ref_decls ref)"

definition acceptSubroutineApplication :: "'v check_env \<Rightarrow> subroutine_ref \<Rightarrow> 'v node list \<Rightarrow> 'v node chk" where
  "acceptSubroutineApplication E ref ns =
     (case ref_decls ref of
        [] \<Rightarrow> None
      | d0 # _ \<Rightarrow>
          andThen (checkSubroutineArgumentNodes ns) (\<lambda>(pos, keys).
            let (kept, ref1) = keepSubroutinesWithArity (length ns) ref in
            if kept then acceptSubroutineCall E ref1 pos keys
            else if referencesFunctions ref \<and> keys = [] then
              (case arrayInterpretations E (length pos) ref of
                 [] \<Rightarrow> rejects (ref_loc ref) (WRONG_NUM_ARGS_FOR_SUBROUTINE (sr_name d0))
               | [d] \<Rightarrow> do {
                   ref2 \<leftarrow> addDeclaration d ref1;
                   call \<leftarrow> newFunctionCall ref2 [] [];
                   andThen (acceptIndexedArray E call pos) (\<lambda>e. yields (ExprNode e)) }
               | ds \<Rightarrow> do {
                   ref2 \<leftarrow> addDeclarations ds ref1;
                   call \<leftarrow> newFunctionCall ref2 [] [];
                   e \<leftarrow> newIndexedArray (ce_store E) call pos;
                   yields (ExprNode e) })
            else rejects (ref_loc ref) (WRONG_NUM_ARGS_FOR_SUBROUTINE (sr_name d0))))"

definition ensureExpr :: "'v node \<Rightarrow> 'v typed_expr chk" where
  "ensureExpr n =
     (case n of
        ExprNode e \<Rightarrow> yields e
      | TypeRefNode loc t \<Rightarrow> rejects loc TYPE_FOUND_EXPECTED_EXPRESSION
      | ExceptionRefNode loc x \<Rightarrow> rejects loc EXCEPTION_CANNOT_DENOTE_VALUE
      | _ \<Rightarrow> None)"

definition acceptConversionExpr :: "'v check_env \<Rightarrow> nat \<Rightarrow> type_decl \<Rightarrow> 'v node list \<Rightarrow> 'v typed_expr chk" where
  "acceptConversionExpr E loc target args =
     (case args of
        [n] \<Rightarrow>
          andThen (ensureExpr n) (\<lambda>arg.
            case exprType arg of
              None \<Rightarrow> rejects (exprLoc arg) AMBIGUOUS_EXPRESSION
            | Some t \<Rightarrow> do {
                sourceTy \<leftarrow> resolveIn E t;
                targetTy \<leftarrow> resolveIn E (declaredType target);
                c \<leftarrow> coversIn E sourceTy targetTy;
                let st = ce_store E;
                if c \<or> (isIntegerType st sourceTy \<and> isIntegerType st targetTy) \<or>
                   (isAccessType st sourceTy \<and> isAccessType st targetTy)
                then yields (ConvertedExpr loc targetTy arg False)
                else rejects loc (INVALID_CONVERSION sourceTy targetTy) })
      | _ \<Rightarrow> rejects loc WRONG_NUM_ARGS_FOR_CONVERSION)"

definition acceptApplication :: "'v check_env \<Rightarrow> 'v node \<Rightarrow> 'v node list \<Rightarrow> 'v node chk" where
  "acceptApplication E prfx ns =
     (case prfx of
        SubroutineRefNode ref \<Rightarrow> acceptSubroutineApplication E ref ns
      | TypeRefNode loc t \<Rightarrow> andThen (acceptConversionExpr E loc t ns) (\<lambda>e. yields (ExprNode e))
      | ExprNode e \<Rightarrow>
          andThen (arrayIndexNodes ns) (\<lambda>is. andThen (acceptIndexedArray E e is) (\<lambda>a. yields (ExprNode a)))
      | _ \<Rightarrow> None)"

definition acceptParameterAssociation :: "string \<Rightarrow> nat \<Rightarrow> 'v node \<Rightarrow> 'v node chk" where
  "acceptParameterAssociation key loc rhs =
     (case rhs of
        ExprNode e \<Rightarrow> yields (SelectorNode key loc (Inl e))
      | TypeRefNode tloc t \<Rightarrow> yields (SelectorNode key loc (Inr (tloc, t)))
      | ProcedureCallNode cloc c \<Rightarrow> rejects cloc INVALID_CONTEXT_FOR_PROCEDURE
      | _ \<Rightarrow> None)"

section \<open>Names\<close>

definition processSelectedComponent :: "'v check_env \<Rightarrow> 'v typed_expr \<Rightarrow> string \<Rightarrow> nat \<Rightarrow> 'v typed_expr chk" where
  "processSelectedComponent E e name loc =
     (let st = ce_store E in
      if \<not> hasResolvedType st e then yields (SelectedExpr (exprLoc e) None e name None)
      else do {
        t \<leftarrow> resolveExprType st (ce_region E) e;
        rec \<leftarrow> (if isRecordType st t then Some (Some t) else getClassDereference st (ce_region E) t CLASS_Record);
        case rec of
          None \<Rightarrow> rejects (exprLoc e) (INVALID_PREFIX_FOR_COMPONENT name)
        | Some r \<Rightarrow>
            (case getComponent E r name of
               None \<Rightarrow> rejects loc (UNKNOWN_SELECTED_COMPONENT name)
             | Some c \<Rightarrow> do {
                 e' \<leftarrow> (if isRecordType st t then Some e else implicitlyDereference st (ce_region E) e r);
                 yields (SelectedExpr (exprLoc e') (Some (snd c)) e' name (Some (fst c))) }) })"

text \<open>
  The name behind a type or a package: the first type of that name ends the search if no subroutine was found before
  it; literals of enumerations of other names are found too.
\<close>

datatype region_item =
    TypeItem string type_decl "subroutine list"
  | RoutineItem subroutine
  | OtherItem string

fun expandedName :: "region_item list \<Rightarrow> string \<Rightarrow> bool \<Rightarrow> subroutine list \<Rightarrow> (type_decl + subroutine list) option" where
  "expandedName [] name forStatement found = Some (Inr found)"
| "expandedName (OtherItem n # is) name forStatement found = expandedName is name forStatement found"
| "expandedName (RoutineItem d # is) name forStatement found =
     expandedName is name forStatement
       (if sr_name d = name \<and> (forStatement \<or> sr_isFunction d) then found @ [d] else found)"
| "expandedName (TypeItem n t literals # is) name forStatement found =
     (if n = name then (if found = [] then Some (Inl t) else None)
      else (case List.find (\<lambda>d. sr_name d = name) literals of
              None \<Rightarrow> expandedName is name forStatement found
            | Some d \<Rightarrow> expandedName is name forStatement (found @ [d])))"

definition processExpandedName :: "region_item list \<Rightarrow> string \<Rightarrow> nat \<Rightarrow> bool \<Rightarrow> 'v node chk" where
  "processExpandedName items name loc forStatement = do {
     r \<leftarrow> expandedName items name forStatement [];
     case r of
       Inl t \<Rightarrow> yields (TypeRefNode loc t)
     | Inr ds \<Rightarrow>
         if ds = [] then rejects loc (NAME_NOT_VISIBLE name)
         else do { ref \<leftarrow> verifyRef \<lparr>ref_loc = loc, ref_decls = ds\<rparr>; yields (SubroutineRefNode ref) } }"

text \<open>The declarations behind the prefix, for a type or a package, are an argument.\<close>

definition acceptSelectedComponent ::
    "'v check_env \<Rightarrow> region_item list \<Rightarrow> 'v node \<Rightarrow> string \<Rightarrow> nat \<Rightarrow> bool \<Rightarrow> 'v node chk" where
  "acceptSelectedComponent E items prfx name loc forStatement =
     (case prfx of
        TypeRefNode tloc t \<Rightarrow> processExpandedName items name loc forStatement
      | PackageRefNode ploc \<Rightarrow> processExpandedName items name loc forStatement
      | ExprNode e \<Rightarrow> andThen (processSelectedComponent E e name loc) (\<lambda>x. yields (ExprNode x))
      | _ \<Rightarrow> rejects loc (INVALID_PREFIX_FOR_COMPONENT name))"

definition finishSubroutineRef :: "subroutine_ref \<Rightarrow> 'v node chk" where
  "finishSubroutineRef ref =
     (case ref_decls ref of
        [] \<Rightarrow> None
      | d0 # _ \<Rightarrow>
          let (kept, ref1) = keepSubroutinesWithArity 0 ref in
          if \<not> kept then rejects (ref_loc ref) (NAME_NOT_VISIBLE (sr_name d0))
          else if referencesFunctions ref1 then do { e \<leftarrow> newFunctionCall ref1 [] []; yields (ExprNode e) }
          else if isResolved ref1 then do {
            c \<leftarrow> newSubroutineCall ref1 [] []; yields (ProcedureCallNode (ref_loc ref1) c) }
          else fails (ambiguousReports (ref_loc ref) (ref_loc ref) (ref_decls ref1)))"

definition finishName :: "'v node \<Rightarrow> 'v node chk" where
  "finishName n = (case n of SubroutineRefNode ref \<Rightarrow> finishSubroutineRef ref | _ \<Rightarrow> yields n)"

section \<open>Operands\<close>

definition ensureCompleteTypeDecl :: "'v node \<Rightarrow> type_decl chk" where
  "ensureCompleteTypeDecl n =
     (case n of
        TypeRefNode loc (CompleteTypeDecl t p v) \<Rightarrow> yields (CompleteTypeDecl t p v)
      | TypeRefNode loc (IncompleteTypeDecl t c) \<Rightarrow>
          (case c of None \<Rightarrow> rejects loc INVALID_CONTEXT_FOR_INCOMPLETE_TYPE | Some d \<Rightarrow> yields d)
      | _ \<Rightarrow> rejects (nodeLoc n) NOT_A_TYPE)"

text \<open>Both operands of a qualified expression are looked at before either is missed.\<close>

definition acceptQualifiedExpr :: "'v check_env \<Rightarrow> 'v node \<Rightarrow> 'v node \<Rightarrow> 'v typed_expr chk" where
  "acceptQualifiedExpr E qualifier operand =
     (case ensureCompleteTypeDecl qualifier of
        None \<Rightarrow> None
      | Some (ds, p) \<Rightarrow>
          (case ensureExpr operand of
             None \<Rightarrow> None
           | Some (es, x) \<Rightarrow>
               (case (p, x) of
                  (Some t, Some e) \<Rightarrow>
                    andThen (Some (ds @ es, Some e)) (\<lambda>e.
                      andThen (checkExprInContext E e (declaredType t))
                        (\<lambda>e'. yields (QualifiedExpr (nodeLoc qualifier) (declaredType t) e')))
                | _ \<Rightarrow> fails (ds @ es))))"

definition acceptDereference :: "'v check_env \<Rightarrow> 'v node \<Rightarrow> nat \<Rightarrow> 'v typed_expr chk" where
  "acceptDereference E prfx loc =
     andThen (ensureExpr prfx) (\<lambda>e.
       andThen (checkExprClass E e CLASS_Access) (\<lambda>e'. do { d \<leftarrow> newDereference (ce_store E) e' loc False; yields d }))"

definition acceptNullExpr :: "nat \<Rightarrow> 'v typed_expr" where
  "acceptNullExpr loc = NullExpr loc None"

text \<open>A literal is of \<^verbatim>\<open>universal_integer\<close>; the parser gives it no leading zero bits.\<close>

definition acceptLiteral :: "'v check_env \<Rightarrow> 'v \<Rightarrow> nat \<Rightarrow> 'v typed_expr option" where
  "acceptLiteral E v loc =
     (if si_eqNat (ce_ops E) v 0 then Some (LiteralExpr loc (ce_universal E) v)
      else if si_getActiveBits (ce_ops E) v \<noteq> si_getBitWidth (ce_ops E) v then None
      else Some (LiteralExpr loc (ce_universal E) (si_zext (ce_ops E) (si_getBitWidth (ce_ops E) v + 1) v)))"

definition acceptAllocatorExpr :: "'v check_env \<Rightarrow> 'v node \<Rightarrow> nat \<Rightarrow> 'v typed_expr chk" where
  "acceptAllocatorExpr E operand loc =
     (case operand of
        ExprNode (QualifiedExpr l t e) \<Rightarrow> yields (AllocatorExpr loc None (Inl (QualifiedExpr l t e)))
      | IndicationNode iloc t \<Rightarrow>
          if \<not> isConstrained (ce_store E) t then rejects iloc CANNOT_ALLOC_UNCONSTRAINED_TYPE_WITHOUT_INIT
          else yields (AllocatorExpr loc None (Inr t))
      | _ \<Rightarrow> None)"

section \<open>Attributes\<close>

definition resolveArrayPrefix :: "'v check_env \<Rightarrow> 'v typed_expr \<Rightarrow> nat \<Rightarrow> 'v typed_expr chk" where
  "resolveArrayPrefix E e loc =
     andThen (if hasResolvedType (ce_store E) e then yields e else checkExprClass E e CLASS_Array) (\<lambda>e. do {
       t \<leftarrow> exprType e;
       if isArrayType (ce_store E) t then yields e
       else do {
         d \<leftarrow> getClassDereference (ce_store E) (ce_region E) t CLASS_Array;
         case d of
           None \<Rightarrow> rejects loc ATTRIB_OF_NON_ARRAY
         | Some a \<Rightarrow> do { e' \<leftarrow> implicitlyDereference (ce_store E) (ce_region E) e a; yields e' } } })"

text \<open>A bound of a type that is not discrete is made with a null type.\<close>

definition checkScalarBound :: "'v check_env \<Rightarrow> bool \<Rightarrow> type_decl \<Rightarrow> nat \<Rightarrow> 'v typed_expr chk" where
  "checkScalarBound E isFirst prfx loc =
     yields (ScalarBoundAE loc
       (if isDiscreteType (ce_store E) (declaredType prfx) then Some (declaredType prfx) else None) isFirst)"

definition checkArrayBound :: "'v check_env \<Rightarrow> bool \<Rightarrow> 'v typed_expr \<Rightarrow> nat \<Rightarrow> 'v typed_expr chk" where
  "checkArrayBound E isFirst prfx loc =
     andThen (resolveArrayPrefix E prfx loc) (\<lambda>e. do {
       t \<leftarrow> exprType e;
       case primaryKindOf (ce_store E) t of
         Some (ArrayType (i # is) c) \<Rightarrow> yields (ArrayBoundAE loc i e isFirst)
       | _ \<Rightarrow> None })"

definition checkBound :: "'v check_env \<Rightarrow> bool \<Rightarrow> 'v node \<Rightarrow> nat \<Rightarrow> 'v node chk" where
  "checkBound E isFirst prfx loc =
     (case prfx of
        TypeRefNode tloc t \<Rightarrow> andThen (checkScalarBound E isFirst t loc) (\<lambda>e. yields (ExprNode e))
      | ExprNode e \<Rightarrow> andThen (checkArrayBound E isFirst e loc) (\<lambda>e. yields (ExprNode e))
      | _ \<Rightarrow> rejects loc INVALID_ATTRIB_PREFIX)"

definition checkRange :: "'v check_env \<Rightarrow> 'v node \<Rightarrow> nat \<Rightarrow> 'v node chk" where
  "checkRange E prfx loc =
     (case prfx of
        ExprNode e \<Rightarrow> andThen (resolveArrayPrefix E e loc) (\<lambda>e. yields (RangeNode loc))
      | TypeRefNode tloc t \<Rightarrow>
          if isDiscreteType (ce_store E) (declaredType t) then yields (RangeNode loc) else rejects loc INVALID_ATTRIB_PREFIX
      | _ \<Rightarrow> rejects loc INVALID_ATTRIB_PREFIX)"

definition checkPosVal :: "bool \<Rightarrow> 'v node \<Rightarrow> nat \<Rightarrow> 'v node chk" where
  "checkPosVal isPos prfx loc =
     (case prfx of
        TypeRefNode tloc (CompleteTypeDecl t p v) \<Rightarrow>
          (case (if isPos then p else v) of
             None \<Rightarrow> rejects tloc EXPECTED_DISCRETE_SUBTYPE
           | Some d \<Rightarrow> yields (SubroutineRefNode \<lparr>ref_loc = loc, ref_decls = [d]\<rparr>))
      | _ \<Rightarrow> rejects (nodeLoc prfx) EXPECTED_DISCRETE_SUBTYPE)"

definition checkLength :: "'v check_env \<Rightarrow> 'v node \<Rightarrow> nat \<Rightarrow> 'v node chk" where
  "checkLength E prfx loc =
     andThen (ensureExpr prfx) (\<lambda>e.
       andThen (resolveArrayPrefix E e loc) (\<lambda>e. do {
         t \<leftarrow> exprType e;
         if isArrayType (ce_store E) t then yields (ExprNode (LengthAE loc (ce_universal E) e)) else None }))"

datatype attribute = AttrFirst | AttrLast | AttrPos | AttrVal | AttrRange | AttrLength

definition checkAttribute :: "'v check_env \<Rightarrow> attribute \<Rightarrow> 'v node \<Rightarrow> nat \<Rightarrow> 'v node chk" where
  "checkAttribute E a prfx loc =
     (case a of
        AttrFirst \<Rightarrow> checkBound E True prfx loc
      | AttrLast \<Rightarrow> checkBound E False prfx loc
      | AttrPos \<Rightarrow> checkPosVal True prfx loc
      | AttrVal \<Rightarrow> checkPosVal False prfx loc
      | AttrRange \<Rightarrow> checkRange E prfx loc
      | AttrLength \<Rightarrow> checkLength E prfx loc)"

end
