(* ===== verification/CallTyping.thy ===== *)
theory CallTyping
  imports ExprTyping CallCheck
begin

text \<open>
  What the callbacks for names, applications and operands promise: they reject with a report, the nodes they
  make are trees the check accepts, and a resolved call has arguments of the types of its parameters.
\<close>

section \<open>Rejections are reported\<close>

lemma coherent_check [simp]: "coherent (checkExprInContext E e t)" "coherent (checkExprClass E e ID)"
  by (auto simp: checkExprClass_def intro: checkExprInContext_coherent coherent_class)

lemma coherent_argument [simp]: "coherent (checkSubroutineArgument (checkExprInContext E) a t m)"
  by (auto simp: checkSubroutineArgument_def intro!: coherent_intros)

lemma coherent_checkSubroutineArguments: "coherent (checkSubroutineArguments E d pos keys)"
  by (auto simp: checkSubroutineArguments_def checkPositional_def checkKeyedArguments_def checkKeyed_def
      split: option.split intro!: coherent_intros)

lemma coherent_checkSubroutineCall: "coherent (checkSubroutineCall E ref pos keys)"
  by (auto simp: checkSubroutineCall_def split: list.split prod.split
      intro!: coherent_intros coherent_checkSubroutineArguments)

lemma coherent_acceptSubroutineCall: "coherent (acceptSubroutineCall E ref pos keys)"
  unfolding acceptSubroutineCall_def Let_def
  by (intro coherent_intros coherent_checkSubroutineCall) auto

lemma coherent_acceptIndexedArray: "coherent (acceptIndexedArray E e is)"
  by (auto simp: acceptIndexedArray_def checkIndices_def Let_def split: option.split primary_kind.split
      intro!: coherent_intros)

lemma coherent_arrayIndexNodes: "coherent (arrayIndexNodes ns)"
  by (induction ns) (auto split: node.split intro!: coherent_intros)

lemma coherent_argumentNodes: "coherent (checkSubroutineArgumentNodes ns)"
  by (auto simp: checkSubroutineArgumentNodes_def split: prod.split list.split)

lemma coherent_acceptSubroutineApplication: "coherent (acceptSubroutineApplication E ref ns)"
  by (auto simp: acceptSubroutineApplication_def split: list.split prod.split
      intro!: coherent_intros coherent_argumentNodes coherent_acceptSubroutineCall coherent_acceptIndexedArray)

lemma coherent_ensureExpr [simp]: "coherent (ensureExpr n)"
  by (auto simp: ensureExpr_def split: node.split)

lemma coherent_acceptConversionExpr: "coherent (acceptConversionExpr E l t ns)"
  by (auto simp: acceptConversionExpr_def Let_def split: list.split intro!: coherent_intros)

lemma acceptApplication_coherent: "coherent (acceptApplication E prfx ns)"
  by (auto simp: acceptApplication_def split: node.split
      intro!: coherent_intros coherent_acceptSubroutineApplication coherent_acceptConversionExpr coherent_arrayIndexNodes
        coherent_acceptIndexedArray)

section \<open>The nodes that are made\<close>

definition callChecked :: "'v check_env \<Rightarrow> 'v typed_expr sub_call \<Rightarrow> bool" where
  "callChecked E c \<longleftrightarrow>
     (\<exists>d. getConnective c = Some d \<and>
        list_all2 (\<lambda>p a. \<exists>e. a = Some e \<and> checked E e \<and> argumentFits E p e) (sr_params d) (arguments c))"

fun nodeBuilt :: "'v check_env \<Rightarrow> 'v node \<Rightarrow> bool" where
  "nodeBuilt E (ExprNode e) = built E e"
| "nodeBuilt E (ProcedureCallNode l c) = callChecked E c"
| "nodeBuilt E (SelectorNode key l (Inl e)) = built E e"
| "nodeBuilt E n = True"

definition argumentOk :: "'v check_env \<Rightarrow> string \<times> nat \<times> param_mode \<Rightarrow> 'v typed_expr \<Rightarrow> bool" where
  "argumentOk E p e \<longleftrightarrow> checked E e \<and> typeFits E (fst (snd p)) e \<and>
     (getParameterMode (snd (snd p)) \<noteq> MODE_IN \<longrightarrow> immutablePart (unconverted e) = None)"

lemma resolved_checked: "built E e \<Longrightarrow> hasResolvedType (ce_store E) e \<Longrightarrow> checked E e"
  by (cases rule: built.cases) (auto simp: hasResolvedType_def intro: checked_literal)

lemma convertIn_fits: "convertIn E e (fst (snd p)) = Some e' \<Longrightarrow> argumentOk E p e \<Longrightarrow> checked E e' \<and> argumentFits E p e'"
  using convertIn_argument [of E e "fst (snd p)" e'] by (auto simp: argumentOk_def argumentFits_def)

lemma soundOn_check: "okEnv E \<Longrightarrow> soundOn E (checkExprInContext E) A"
  using checkExprInContext_accepted by (auto simp: soundOn_def)

lemma checkArgument_ok:
  assumes "okEnv E" "built E a"
  shows "ensures (checkSubroutineArgument (checkExprInContext E) a (fst (snd p)) (getParameterMode (snd (snd p)))) (argumentOk E p)"
  using checkSubroutineArgument_typed [OF soundOn_check [OF assms(1), of UNIV] UNIV_I assms(2), of "fst (snd p)" "snd (snd p)"]
  by (auto simp: argumentOk_def elim: ensures_mono)

lemma checkPositional_ok:
  assumes "okEnv E" "built E a"
  shows "ensures (checkPositional E d (i, a)) (\<lambda>e. i < length (sr_params d) \<and> argumentOk E (sr_params d ! i) e)"
  using checkArgument_ok [OF assms, of "sr_params d ! i"]
  by (auto simp: checkPositional_def getParamType_def getParamMode_def elim: ensures_mono)

definition keyedOk :: "'v check_env \<Rightarrow> subroutine \<Rightarrow> ('v typed_expr \<Rightarrow> (string \<times> nat \<times> param_mode) \<Rightarrow> bool) \<Rightarrow> 'v typed_expr selector \<Rightarrow> bool" where
  "keyedOk E d P k \<longleftrightarrow>
     (\<exists>i. getKeywordIndex d (keyword k) = Some i \<and> i < length (sr_params d) \<and> P (selected k) (sr_params d ! i))"

lemma checkKeyed_ok:
  assumes "okEnv E" "built E (selected k)"
  shows "ensures (checkKeyed E d n before k) (\<lambda>k'. keyedOk E d (\<lambda>e p. argumentOk E p e) k')"
proof -
  have "ensures (do {
            target \<leftarrow> getParamType d i;
            mode \<leftarrow> getParamMode d i;
            andThen (checkSubroutineArgument (checkExprInContext E) (selected k) target mode) (\<lambda>e. yields (setRHS e k)) })
      (\<lambda>k'. keyedOk E d (\<lambda>e p. argumentOk E p e) k')" if "getKeywordIndex d (keyword k) = Some i" for i
    using that
    by (auto simp: getParamType_def getParamMode_def keyedOk_def setRHS_def
        intro!: ensures_andThen ensures_mono [OF checkArgument_ok [OF assms]])
  then show ?thesis by (auto simp: checkKeyed_def split: option.split)
qed

lemma enumerate_member: "x \<in> set (List.enumerate 0 xs) \<Longrightarrow> snd x \<in> set xs"
  by (simp add: in_set_enumerate_eq) (metis nth_mem)

lemma checkSubroutineArguments_ok:
  assumes "okEnv E" "\<forall>a \<in> set pos. built E a" "\<forall>k \<in> set keys. built E (selected k)"
  shows "ensures (checkSubroutineArguments E d pos keys) (\<lambda>(ps, ks).
    list_all2 (\<lambda>(i, a) e. i < length (sr_params d) \<and> argumentOk E (sr_params d ! i) e) (List.enumerate 0 pos) ps \<and>
    list_all (keyedOk E d (\<lambda>e p. argumentOk E p e)) ks \<and> length ks = length keys)"
proof -
  have p: "ensures (checkUntil (checkPositional E d) (List.enumerate 0 pos))
    (list_all2 (\<lambda>(i, a) e. i < length (sr_params d) \<and> argumentOk E (sr_params d ! i) e) (List.enumerate 0 pos))"
  proof (rule ensures_checkUntil)
    fix x
    assume "x \<in> set (List.enumerate 0 pos)"
    then obtain i a where "x = (i, a)" "a \<in> set pos" using enumerate_member [of x pos] by (metis prod.collapse)
    then show "ensures (checkPositional E d x) ((\<lambda>(i, a) e. i < length (sr_params d) \<and> argumentOk E (sr_params d ! i) e) x)"
      using checkPositional_ok [OF assms(1)] assms(2) by auto
  qed
  have k: "ensures (checkKeyedArguments E d n keys)
    (list_all2 (\<lambda>x. keyedOk E d (\<lambda>e p. argumentOk E p e)) (List.enumerate 0 keys))" for n
    unfolding checkKeyedArguments_def
  proof (rule ensures_checkUntil)
    fix x
    assume "x \<in> set (List.enumerate 0 keys)"
    then obtain j k where "x = (j, k)" "k \<in> set keys" using enumerate_member [of x keys] by (metis prod.collapse)
    then show "ensures ((\<lambda>(j, k). checkKeyed E d n (map keyword (take j keys)) k) x) (keyedOk E d (\<lambda>e p. argumentOk E p e))"
      using checkKeyed_ok [OF assms(1)] assms(3) by auto
  qed
  have l: "list_all P ys \<and> length ys = length keys" if "list_all2 (\<lambda>x. P) (List.enumerate 0 keys) ys" for P ys
    using that by (auto simp: list_all2_conv_all_nth list_all_length)
  show ?thesis
    unfolding checkSubroutineArguments_def
    by (intro ensures_andThen ensures_mono [OF p] ensures_mono [OF k]) (auto dest: l)
qed

lemma convertSubroutineArguments_ok:
  assumes "convertSubroutineArguments E d ps ks = Some (ps', ks')"
    "list_all2 (\<lambda>(i, a) e. i < length (sr_params d) \<and> argumentOk E (sr_params d ! i) e) (List.enumerate 0 pos) ps"
    "list_all (keyedOk E d (\<lambda>e p. argumentOk E p e)) ks"
  shows "length ps' = length pos \<and> length ks' = length ks \<and>
    (\<forall>i < length ps'. i < length (sr_params d) \<and> checked E (ps' ! i) \<and> argumentFits E (sr_params d ! i) (ps' ! i)) \<and>
    list_all (keyedOk E d (\<lambda>e p. checked E e \<and> argumentFits E p e)) ks'"
proof -
  have p: "list_all2 (\<lambda>x y. (\<lambda>(i, arg). do { target \<leftarrow> getParamType d i; convertIn E arg target }) x = Some y) (List.enumerate 0 ps) ps'"
    and k: "list_all2 (\<lambda>k y. do {
         i \<leftarrow> getKeywordIndex d (keyword k);
         target \<leftarrow> getParamType d i;
         e \<leftarrow> convertIn E (selected k) target;
         Some (setRHS e k) } = Some y) ks ks'"
    using assms(1) by (auto simp: convertSubroutineArguments_def bind_eq_Some_conv mapAll_Some)
  have l: "length ps' = length ps" "length ps = length pos" "length ks' = length ks"
    using p k assms(2) by (auto dest: list_all2_lengthD)
  have "i < length (sr_params d) \<and> checked E (ps' ! i) \<and> argumentFits E (sr_params d ! i) (ps' ! i)" if i: "i < length ps'" for i
  proof -
    have o: "i < length (sr_params d)" "argumentOk E (sr_params d ! i) (ps ! i)"
      using assms(2) i l by (auto simp: list_all2_conv_all_nth nth_enumerate_eq)
    have "convertIn E (ps ! i) (fst (snd (sr_params d ! i))) = Some (ps' ! i)"
      using p i l o(1) by (auto simp: list_all2_conv_all_nth nth_enumerate_eq getParamType_def dest!: spec [of _ i])
    from convertIn_fits [OF this o(2)] show ?thesis using o(1) by simp
  qed
  moreover have "keyedOk E d (\<lambda>e p. checked E e \<and> argumentFits E p e) (ks' ! j)" if j: "j < length ks'" for j
  proof -
    obtain i where i: "getKeywordIndex d (keyword (ks ! j)) = Some i" "i < length (sr_params d)"
      "argumentOk E (sr_params d ! i) (selected (ks ! j))"
      using assms(3) j l by (auto simp: list_all_length keyedOk_def)
    obtain e where "convertIn E (selected (ks ! j)) (fst (snd (sr_params d ! i))) = Some e" "ks' ! j = setRHS e (ks ! j)"
      using k j l i by (auto simp: list_all2_conv_all_nth getParamType_def bind_eq_Some_conv dest!: spec [of _ j])
    then show ?thesis using convertIn_fits [OF _ i(3)] i by (auto simp: keyedOk_def setRHS_def)
  qed
  ultimately show ?thesis using l by (auto simp: list_all_length)
qed

lemma keywordIndexFrom_less: "keywordIndexFrom i ps key = Some j \<Longrightarrow> i \<le> j \<and> j < i + length ps"
  by (induction ps arbitrary: i) (fastforce split: if_splits)+

lemma newSubroutineCall_ok:
  assumes "newSubroutineCall ref ps ks = Some c" "ref_decls ref = [d]" "length (sr_params d) = length ps + length ks"
    "\<forall>i < length ps. checked E (ps ! i) \<and> argumentFits E (sr_params d ! i) (ps ! i)"
    "list_all (keyedOk E d (\<lambda>e p. checked E e \<and> argumentFits E p e)) ks"
  shows "callChecked E c \<and> getConnective c = Some d \<and> isUnambiguous c"
proof -
  let ?xs = "map Some ps @ replicate (length ks) None"
  obtain args where a: "placeKeyed d (length ps) ks ?xs = Some args" "c = SubroutineCall ref (length ps) args ks"
    using assms(1,2)
    by (auto simp: newSubroutineCall_def propagateKeyedArguments_def getConnective_def isUnambiguous_def bind_eq_Some_conv Let_def)
  have g: "getConnective c = Some d" "isUnambiguous c" using a(2) assms(2) by (auto simp: getConnective_def isUnambiguous_def)
  have l: "length args = length (sr_params d)" using placeKeyed_length [OF a(1)] assms(3) by simp
  have none: "filter Option.is_none args = []" using placeKeyed_count [OF a(1)] by simp
  have "\<exists>e. args ! i = Some e \<and> checked E e \<and> argumentFits E (sr_params d ! i) e" if i: "i < length args" for i
  proof -
    obtain e where e: "args ! i = Some e" using none_free [OF none, of "args ! i"] i by auto
    have "i < length ?xs" using i l assms(3) by simp
    from placeKeyed_at [OF a(1) this] consider "?xs ! i = Some e"
      | k where "k \<in> set ks" "getKeywordIndex d (keyword k) = Some i" "e = selected k" using e by auto
    then show ?thesis
    proof cases
      case 1
      then have "i < length ps" "ps ! i = e" using i l assms(3) by (auto simp: nth_append split: if_splits)
      then show ?thesis using assms(4) e by auto
    next
      case 2
      then show ?thesis using assms(5) e by (auto simp: list_all_iff keyedOk_def)
    qed
  qed
  then have "list_all2 (\<lambda>p a. \<exists>e. a = Some e \<and> checked E e \<and> argumentFits E p e) (sr_params d) (arguments c)"
    using a(2) l by (auto simp: list_all2_conv_all_nth)
  then show ?thesis using g by (auto simp: callChecked_def)
qed

lemma checkSubroutineCall_ok:
  assumes "okEnv E" "\<forall>a \<in> set pos. built E a" "\<forall>k \<in> set keys. built E (selected k)"
  shows "ensures (checkSubroutineCall E ref pos keys) (nodeBuilt E)"
proof (cases "\<exists>d. ref_decls ref = [d] \<and> length (sr_params d) = length pos + length keys")
  case True
  then obtain d where d: "ref_decls ref = [d]" "length (sr_params d) = length pos + length keys" by blast
  have "nodeBuilt E n"
    if o: "list_all2 (\<lambda>(i, a) e. i < length (sr_params d) \<and> argumentOk E (sr_params d ! i) e) (List.enumerate 0 pos) ps"
      "list_all (keyedOk E d (\<lambda>e p. argumentOk E p e)) ks" "length ks = length keys"
      "convertSubroutineArguments E d ps ks = Some (ps', ks')" "makeSubroutineCall ref ps' ks' = Some n" for ps ks ps' ks' n
  proof -
    note c = convertSubroutineArguments_ok [OF o(4,1,2)]
    have l: "length (sr_params d) = length ps' + length ks'" using c d(2) o(3) by simp
    have new: "callChecked E x \<and> getConnective x = Some d \<and> isUnambiguous x" if "newSubroutineCall ref ps' ks' = Some x" for x
      using newSubroutineCall_ok [OF that d(1) l] c by blast
    show ?thesis
    proof (cases "sr_isFunction d")
      case True
      then obtain e where e: "n = ExprNode e" "newFunctionCall ref ps' ks' = Some e"
        using o(5) d(1) by (auto simp: makeSubroutineCall_def referencesFunctions_def)
      then obtain x where x: "newSubroutineCall ref ps' ks' = Some x" "setTypeForConnective (ref_loc ref) None x = Some e"
        by (auto simp: newFunctionCall_def bind_eq_Some_conv)
      then have "e = CallExpr (ref_loc ref) (Some (sr_return d)) x"
        using new [OF x(1)] True by (auto simp: setTypeForConnective_def)
      then show ?thesis
        using new [OF x(1)] True e(1) by (auto simp: callChecked_def intro!: built_checked checked_call)
    next
      case False
      then show ?thesis using o(5) d(1) new by (auto simp: makeSubroutineCall_def referencesFunctions_def)
    qed
  qed
  then show ?thesis
    unfolding checkSubroutineCall_def using d
    by (auto intro!: ensures_andThen ensures_mono [OF checkSubroutineArguments_ok [OF assms]] ensures_bind split: prod.split)
next
  case False
  then show ?thesis by (auto simp: checkSubroutineCall_def split: list.split)
qed

lemma newFunctionCall_ambiguous:
  assumes "newFunctionCall ref pos keys = Some e" "length (ref_decls ref) \<noteq> 1"
    "\<forall>a \<in> set pos. built E a" "\<forall>k \<in> set keys. built E (selected k)"
  shows "built E e"
proof -
  have "e = CallExpr (ref_loc ref) None (SubroutineCall ref (length pos) (map Some pos @ replicate (length keys) None) keys)"
    using assms(1,2) by (auto simp: newFunctionCall_def newSubroutineCall_def setTypeForConnective_def isUnambiguous_def
        Let_def bind_eq_Some_conv)
  then show ?thesis
    using assms(2-4) by (auto simp: isUnambiguous_def callArgs_def intro!: built_call [where pos = pos])
qed

lemma acceptSubroutineCall_ok:
  assumes "okEnv E" "\<forall>a \<in> set pos. built E a" "\<forall>k \<in> set keys. built E (selected k)"
  shows "ensures (acceptSubroutineCall E ref pos keys) (nodeBuilt E)"
proof -
  have m: "nodeBuilt E n" if p: "makeSubroutineCall r pos keys = Some n" "\<not> isResolved r" "\<not> referencesProcedures r" for r n
  proof -
    have "ref_decls r \<noteq> []" "referencesFunctions r"
      using p by (auto simp: makeSubroutineCall_def referencesFunctions_def referencesProcedures_def split: if_splits list.splits)
    then obtain e where "n = ExprNode e" "newFunctionCall r pos keys = Some e"
      using p(1) by (auto simp: makeSubroutineCall_def)
    then show ?thesis using newFunctionCall_ambiguous [OF _ _ assms(2,3)] p(2) by (auto simp: isResolved_def)
  qed
  show ?thesis
    unfolding acceptSubroutineCall_def Let_def
    by (auto intro!: ensures_if ensures_bind checkSubroutineCall_ok [OF assms] dest: m)
qed

lemma acceptIndexedArray_ok:
  assumes "okEnv E" "built E e" "\<forall>x \<in> set is. built E x"
  shows "ensures (acceptIndexedArray E e is) (built E)"
proof (cases "hasResolvedType (ce_store E) e")
  case False
  have "built E a" if "newIndexedArray (ce_store E) e is = Some a" for a
    using that False assms(2,3) primary_not_universal [of "ce_store E"]
    by (auto simp: newIndexedArray_def hasResolvedType_def split: if_splits option.splits primary_kind.splits intro!: built_indexed)
  then show ?thesis using False by (auto simp: acceptIndexedArray_def Let_def intro!: ensures_bind)
next
  case True
  have c: "checked E e" using resolved_checked [OF assms(2) True] .
  have idx: "ensures (checkIndices E ts is) (list_all2 (\<lambda>i e. checked E e \<and> typeFits E i e) ts)" if l: "length is = length ts" for ts
  proof -
    have "ensures (checkIndices E ts is) (list_all2 (\<lambda>(e, t). accepted E e t) (zip is ts))"
      unfolding checkIndices_def using checkExprInContext_accepted [OF assms(1)] assms(3)
      by (intro ensures_checkEach) (auto dest: set_zip_leftD)
    then show ?thesis using l by (auto simp: list_all2_conv_all_nth accepted_def elim!: ensures_mono)
  qed
  have new: "built E a"
    if n: "newIndexedArray (ce_store E) e' xs = Some a" "checked E e'" "exprType e' = Some b" "coversIn E b u = Some True \<or>
        (\<exists>r. resolveIn E b = Some r \<and> coversIn E r u = Some True)"
      "primaryKindOf (ce_store E) u = Some (ArrayType js k)" "list_all2 (\<lambda>i e. checked E e \<and> typeFits E i e) js xs" for e' xs a b u js k
  proof -
    obtain ys c where a: "primaryKindOf (ce_store E) b = Some (ArrayType ys c)" "a = IndexedArrayExpr (exprLoc e') (Some c) e' xs"
      using n(1,3) by (auto simp: newIndexedArray_def split: if_splits option.splits primary_kind.splits)
    have "resolveIn E b = Some b" using a(1) by (auto simp: resolveType.simps isIncomplete_def visiblePrivate_def isPrivate_def)
    then have "coversIn E b u = Some True" using n(4) by auto
    from checked_indexed [OF n(2,3) a(1) n(5) this n(6)] show ?thesis unfolding a(2) by (rule built_checked)
  qed
  show ?thesis
    unfolding acceptIndexedArray_def Let_def using True
  proof (clarsimp, intro ensures_bind ensures_option, goal_cases)
    case (1 t arr)
    then show ?case by simp
  next
    case (2 t arr u)
    then show ?case by simp
  next
    case (3 t arr u pk)
    show ?case
      proof (cases pk)
        case (ArrayType ts k)
        then have u: "primaryKindOf (ce_store E) u = Some (ArrayType ts k)" using 3 by simp
        have "built E a"
          if "list_all2 (\<lambda>i e. checked E e \<and> typeFits E i e) ts xs"
            "(if isArrayType (ce_store E) t then Some e else implicitlyDereference (ce_store E) (ce_region E) e u) = Some e'"
            "newIndexedArray (ce_store E) e' xs = Some a" for xs e' a
        proof (cases "isArrayType (ce_store E) t")
          case True
          then have "e' = e" "u = t" using that 3 by auto
          then show ?thesis using new [OF that(3) _ _ _ u that(1)] c 3 by auto
        next
          case False
          then have d: "dereferenceUntil (ce_store E) (ce_region E) (\<lambda>s. coversIn E s u) e = Some e'"
            using that(2) by (simp add: implicitlyDereference_def)
          from dereferenceUntil_typed [OF d refl c] show ?thesis using new [OF that(3) _ _ _ u that(1)] by auto
        qed
        then show ?thesis
          using ArrayType by (auto intro!: ensures_if ensures_andThen ensures_mono [OF idx] ensures_bind)
      qed simp_all
  qed
qed

lemma leadingExprs_built: "leadingExprs ns = (es, rest) \<Longrightarrow> list_all (nodeBuilt E) ns \<Longrightarrow>
    (\<forall>e \<in> set es. built E e) \<and> list_all (nodeBuilt E) rest"
  by (induction ns arbitrary: es rest rule: leadingExprs.induct) (auto split: prod.splits)

lemma leadingSelectors_built: "leadingSelectors ns = (ks, rest) \<Longrightarrow> list_all (nodeBuilt E) ns \<Longrightarrow>
    (\<forall>k \<in> set ks. built E (selected k))"
  by (induction ns arbitrary: ks rest rule: leadingSelectors.induct) (auto split: prod.splits)

lemma argumentNodes_ok:
  assumes "list_all (nodeBuilt E) ns"
  shows "ensures (checkSubroutineArgumentNodes ns) (\<lambda>(pos, keys).
    (\<forall>a \<in> set pos. built E a) \<and> (\<forall>k \<in> set keys. built E (selected k)))"
proof -
  obtain pos rest keys rest' where n: "leadingExprs ns = (pos, rest)" "leadingSelectors rest = (keys, rest')"
    by (metis surj_pair)
  show ?thesis
    using leadingExprs_built [OF n(1) assms] leadingSelectors_built [OF n(2)] n
    by (auto simp: checkSubroutineArgumentNodes_def split: list.split)
qed

lemma arrayIndexNodes_ok: "list_all (nodeBuilt E) ns \<Longrightarrow> ensures (arrayIndexNodes ns) (\<lambda>es. \<forall>e \<in> set es. built E e)"
  by (induction ns) (auto split: node.split intro!: ensures_andThen elim!: ensures_mono)

lemma newFunctionCall_nullary:
  assumes "newFunctionCall ref [] [] = Some e" "list_all (\<lambda>d. sr_params d = []) (ref_decls ref)"
  shows "built E e"
proof (cases "length (ref_decls ref) = 1")
  case True
  then obtain d where d: "ref_decls ref = [d]" by (cases "ref_decls ref") auto
  then have "e = CallExpr (ref_loc ref) (Some (sr_return d)) (SubroutineCall ref 0 [] [])" "sr_isFunction d"
    using assms(1) by (auto simp: newFunctionCall_def newSubroutineCall_def setTypeForConnective_def isUnambiguous_def
        propagateKeyedArguments_def getConnective_def Let_def bind_eq_Some_conv split: if_splits)
  then show ?thesis using d assms(2) by (auto intro!: built_checked checked_call simp: getConnective_def)
qed (use newFunctionCall_ambiguous [OF assms(1)] in auto)

lemma addDeclarations_decls: "addDeclarations ds ref = Some ref' \<Longrightarrow> ref_decls ref' = ref_decls ref @ ds"
  by (induction ds arbitrary: ref) (fastforce simp: addDeclaration_def bind_eq_Some_conv split: list.splits if_splits)+

lemma acceptSubroutineApplication_ok:
  assumes "okEnv E" "list_all (nodeBuilt E) ns"
  shows "ensures (acceptSubroutineApplication E ref ns) (nodeBuilt E)"
proof -
  let ?ref1 = "ref\<lparr>ref_decls := []\<rparr>"
  have nullary: "built E e"
    if "newFunctionCall ref2 [] [] = Some e" "addDeclarations ds ?ref1 = Some ref2" "set ds \<subseteq> set (arrayInterpretations E n ref)"
    for ref2 e ds n
    using newFunctionCall_nullary [OF that(1)] addDeclarations_decls [OF that(2)] that(3)
    by (auto simp: list_all_iff arrayInterpretations_def)
  have one: "addDeclarations [d] r = addDeclaration d r" for d r by (cases "addDeclaration d r") auto
  have step: "ensures
       (let (kept, ref1) = keepSubroutinesWithArity (length ns) ref in
            if kept then acceptSubroutineCall E ref1 pos keys
            else if referencesFunctions ref \<and> keys = [] then
              (case arrayInterpretations E (length pos) ref of
                 [] \<Rightarrow> rejects (ref_loc ref) (WRONG_NUM_ARGS_FOR_SUBROUTINE (sr_name d0))
               | [d] \<Rightarrow> do {
                   ref2 \<leftarrow> addDeclaration d ref1;
                   call \<leftarrow> newFunctionCall ref2 [] [];
                   andThen (acceptIndexedArray E call pos) (\<lambda>e. yields (ExprNode e)) }
               | ds \<Rightarrow> do {
                   ref2 \<leftarrow> addDeclarations ds ref1;
                   call \<leftarrow> newFunctionCall ref2 [] [];
                   e \<leftarrow> newIndexedArray (ce_store E) call pos;
                   yields (ExprNode e) })
            else rejects (ref_loc ref) (WRONG_NUM_ARGS_FOR_SUBROUTINE (sr_name d0))) (nodeBuilt E)"
    if b: "\<forall>a \<in> set pos. built E a" "\<forall>k \<in> set keys. built E (selected k)" for pos keys d0
  proof (cases "filter (\<lambda>d. length (sr_params d) = length ns) (ref_decls ref) = []")
    case False
    then show ?thesis using acceptSubroutineCall_ok [OF assms(1) b] by (auto simp: keepSubroutinesWithArity_def)
  next
    case True
    have single: "ensures (acceptIndexedArray E call pos) (built E)"
      if "newFunctionCall ref2 [] [] = Some call" "addDeclaration d ?ref1 = Some ref2" "arrayInterpretations E (length pos) ref = [d]"
      for call d ref2
      using acceptIndexedArray_ok [OF assms(1) nullary [OF that(1), of "[d]" "length pos"] b(1)] that one by auto
    have many: "built E e"
      if "newFunctionCall ref2 [] [] = Some call" "addDeclarations (d # d' # ds) ?ref1 = Some ref2"
        "arrayInterpretations E (length pos) ref = d # d' # ds" "newIndexedArray (ce_store E) call pos = Some e"
      for call d d' ds ref2 e
    proof -
      have c: "built E call" using nullary [OF that(1,2), of "length pos"] that(3) by auto
      have "exprType call = None"
        using that(1) addDeclarations_decls [OF that(2)]
        by (auto simp: newFunctionCall_def newSubroutineCall_def setTypeForConnective_def isUnambiguous_def Let_def bind_eq_Some_conv)
      then show ?thesis
        using that(4) c b(1) by (auto simp: newIndexedArray_def hasResolvedType_def split: if_splits intro!: built_indexed)
    qed
    show ?thesis
      using True single many
      by (auto simp: keepSubroutinesWithArity_def simp del: addDeclarations.simps split: list.split
          intro!: ensures_bind ensures_andThen ensures_mono [OF single])
  qed
  show ?thesis
    unfolding acceptSubroutineApplication_def
    by (auto split: list.split prod.split intro!: ensures_andThen ensures_mono [OF argumentNodes_ok [OF assms(2)]]
        dest: step [rotated -1])
qed

lemma acceptConversionExpr_ok:
  assumes "list_all (nodeBuilt E) ns"
  shows "ensures (acceptConversionExpr E l t ns) (built E)"
proof -
  have "ensures (case exprType arg of
              None \<Rightarrow> rejects (exprLoc arg) AMBIGUOUS_EXPRESSION
            | Some a \<Rightarrow> do {
                sourceTy \<leftarrow> resolveIn E a;
                targetTy \<leftarrow> resolveIn E (declaredType t);
                c \<leftarrow> coversIn E sourceTy targetTy;
                let st = ce_store E;
                if c \<or> (isIntegerType st sourceTy \<and> isIntegerType st targetTy) \<or>
                   (isAccessType st sourceTy \<and> isAccessType st targetTy)
                then yields (ConvertedExpr l targetTy arg False)
                else rejects l (INVALID_CONVERSION sourceTy targetTy) }) (built E)" if b: "built E arg" for arg
  proof -
    have "built E (ConvertedExpr l u arg False)" if "exprType arg = Some a" for a u
      using built_typed [OF b that] by (intro built_checked checked_converted) auto
    then show ?thesis by (auto simp: Let_def split: option.split intro!: ensures_bind)
  qed
  then show ?thesis
    using assms
    by (auto simp: acceptConversionExpr_def ensureExpr_def split: list.split node.split intro!: ensures_andThen)
qed

end
