(* ===== verification/CallChoice.thy ===== *)
theory CallChoice
  imports CallTyping
begin

text \<open>
  The choice among overloaded functions, examples of checked calls, and the inputs on which an assertion of
  the checks fails.
\<close>

section \<open>An environment\<close>

text \<open>
  The types: root integer 0 with a subtype 2, universal integer 1, an enumeration 3, a record 4 with an access type 5.
\<close>

definition callTypes :: tstore where
  "callTypes = \<lparr>
     ts_type = (\<lambda>a.
       if a = 0 then PrimaryType IntegerType None False Unconstrained
       else if a = 1 then UniversalType Universal_Integer
       else if a = 2 then PrimaryType IntegerType (Some 0) True StaticConstraint
       else if a = 3 then PrimaryType (EnumerationType False) None False Unconstrained
       else if a = 4 then PrimaryType RecordType None False Unconstrained
       else if a = 5 then PrimaryType (AccessType 4) None False Unconstrained
       else UniversalType Universal_Access),
     ts_incomplete = (\<lambda>_. \<lparr>cd_region = 7, cd_completion = None\<rparr>),
     ts_private = (\<lambda>_. \<lparr>cd_region = 7, cd_completion = None\<rparr>),
     ts_parent = (\<lambda>_. None)\<rparr>"

definition callEnv :: "(nat \<times> int) check_env" where
  "callEnv = \<lparr>ce_store = callTypes, ce_region = 7, ce_ops = pairSint,
     ce_integer = (\<lambda>a. DiscreteType a (RootIntegerType False (8, -100) (8, 100)) None),
     ce_rootType = DiscreteType 0 (RootIntegerType False (8, -100) (8, 100)) None, ce_rootDecl = 20, ce_universal = 1,
     ce_components = (\<lambda>a. [(''c'', 30, 0)])\<rparr>"

definition sampleFunction :: "nat \<Rightarrow> nat \<Rightarrow> subroutine" where
  "sampleFunction i t = \<lparr>sr_id = i, sr_name = ''f'', sr_isFunction = True, sr_params = [(''x'', 0, MODE_DEFAULT)], sr_return = t,
     sr_primitive = False, sr_region = 21\<rparr>"

definition sampleRef :: subroutine_ref where
  "sampleRef = \<lparr>ref_loc = 7, ref_decls = [sampleFunction 10 0, sampleFunction 11 3]\<rparr>"

definition sampleVar :: "(nat \<times> int) typed_expr" where
  "sampleVar = DeclRefExpr 8 (ObjectDecl 2)"

definition sampleCall :: "(nat \<times> int) typed_expr" where
  "sampleCall = CallExpr 7 None (SubroutineCall sampleRef 1 [Some sampleVar] [])"

lemma sampleApplication:
  "acceptApplication callEnv (SubroutineRefNode sampleRef) [ExprNode sampleVar] = Some ([], Some (ExprNode sampleCall))"
  by code_simp

lemma sampleCheck:
  "checkExprInContext callEnv sampleCall 2 =
     Some ([], Some (ConvertedExpr 7 2 (CallExpr 7 (Some 0)
       (SubroutineCall \<lparr>ref_loc = 7, ref_decls = [sampleFunction 10 0]\<rparr> 1 [Some sampleVar] [])) True))"
  by code_simp

lemma sampleReject: "checkExprInContext callEnv sampleVar 3 = Some ([(8, DISCRETE_CHECK INCOMPATIBLE_TYPES)], None)"
  by code_simp
section \<open>The choice of a connective\<close>

definition eligible ::
    "'v check_env \<Rightarrow> subroutine_ref \<Rightarrow> 'v typed_expr list \<Rightarrow> 'v typed_expr selector list \<Rightarrow> nat \<Rightarrow> subroutine \<Rightarrow> bool" where
  "eligible E ref pos keys ctx d \<longleftrightarrow>
     d \<in> set (ref_decls ref) \<and> routineAcceptsKeywords d (length pos) keys \<and> acceptsTypes E pos keys d = Some True \<and>
     coversIn E (sr_return d) ctx = Some True"

definition rootOperator :: "'v check_env \<Rightarrow> subroutine \<Rightarrow> bool" where
  "rootOperator E d \<longleftrightarrow> sr_primitive d \<and> sr_region d = ce_rootDecl E"

lemma checkSubroutineCall_typed:
  assumes "checkSubroutineCall E ref pos keys = Some (ds, Some (ExprNode e))"
  shows "exprType e \<noteq> None"
proof -
  obtain d where d: "ref_decls ref = [d]" using assms by (auto simp: checkSubroutineCall_def split: list.splits)
  obtain ps ks where "makeSubroutineCall ref ps ks = Some (ExprNode e)"
    using assms d by (auto simp: checkSubroutineCall_def andThen_def rejects_def fails_def yields_def bind_eq_Some_conv
        split: if_splits option.splits prod.splits)
  then show ?thesis
    using d by (auto simp: makeSubroutineCall_def newFunctionCall_def newSubroutineCall_def setTypeForConnective_def
        propagateKeyedArguments_def getConnective_def isUnambiguous_def Let_def bind_eq_Some_conv split: if_splits)
qed

lemma acceptSubroutineCall_waits:
  assumes "acceptSubroutineCall E ref pos keys = Some (ds, Some (ExprNode e))" "exprType e = None"
  shows "\<exists>l call. e = CallExpr l None call \<and> \<not> isUnambiguous call \<and>
    callFunctions call = filter (\<lambda>d. routineAcceptsKeywords d (length pos) keys \<and> acceptsTypes E pos keys d = Some True) (ref_decls ref)"
proof -
  let ?ds = "filter (\<lambda>d. routineAcceptsKeywords d (length pos) keys) (ref_decls ref)"
  obtain es where es: "keepOnly (acceptsTypes E pos keys) ?ds = Some es"
    "\<not> isResolved (ref\<lparr>ref_decls := es\<rparr>)" "\<not> referencesProcedures (ref\<lparr>ref_decls := es\<rparr>)" "es \<noteq> []"
    "makeSubroutineCall (ref\<lparr>ref_decls := es\<rparr>) pos keys = Some (ExprNode e)"
    using assms checkSubroutineCall_typed [of E _ pos keys ds e]
    by (auto simp: acceptSubroutineCall_def Let_def rejects_def fails_def yields_def bind_eq_Some_conv split: if_splits)
  have f: "referencesFunctions (ref\<lparr>ref_decls := es\<rparr>)"
    using es(3,4) by (auto simp: referencesFunctions_def referencesProcedures_def split: list.splits)
  have "es = filter (\<lambda>d. routineAcceptsKeywords d (length pos) keys \<and> acceptsTypes E pos keys d = Some True) (ref_decls ref)"
    using keepOnly_Some [OF es(1)] by (simp add: conj_commute)
  moreover obtain l call where c: "e = CallExpr l None call" "callRef call = ref\<lparr>ref_decls := es\<rparr>"
    using es(2,4,5) f by (auto simp: makeSubroutineCall_def newFunctionCall_def newSubroutineCall_def setTypeForConnective_def
        isUnambiguous_def isResolved_def Let_def bind_eq_Some_conv)
  moreover have "\<not> isUnambiguous call" using c(2) es(2) by (simp add: isUnambiguous_def isResolved_def)
  moreover have "callFunctions call = es" using c(2) f by (simp add: callFunctions_def)
  ultimately show ?thesis by blast
qed

lemma resolveCallWith_connective:
  assumes "resolveCallWith E check d l t call = Some (ds, Some e)"
  shows "\<exists>k c. e = CallExpr k (Some (sr_return d)) c \<and> getConnective c = Some d"
proof -
  have "ensures (resolveCallWith E check d l t call) (\<lambda>e. \<exists>k c. e = CallExpr k (Some (sr_return d)) c \<and> getConnective c = Some d)"
    unfolding resolveCallWith_def
  proof (intro ensures_bind, goal_cases)
    case (1 e)
    obtain c where c: "resolveConnective True d call = Some c" "e = CallExpr l (Some (sr_return d)) c"
      using resolveFunctionConnective_Some [OF 1] by blast
    have g: "getConnective c = Some d"
      using c(1) by (auto simp: resolveConnective_def propagateKeyedArguments_def getConnective_def bind_eq_Some_conv split: if_splits)
    have "ensures (checkSubroutineCallArguments check c) (\<lambda>c1. callRef c1 = callRef c)"
      by (auto simp: checkSubroutineCallArguments_def intro!: ensures_bind ensures_andThen)
    then show ?case unfolding c(2) typed_expr.case
      using g by (auto intro!: ensures_andThen ensures_bind elim!: ensures_mono
          simp: convertSubroutineCallArguments_def bind_eq_Some_conv getConnective_def)
  qed
  then show ?thesis using assms by (auto simp: ensures_def)
qed

lemma preferredOf_unique:
  assumes "preferredOf E ds = Some (Some d)"
  shows "d \<in> set ds \<and> (\<forall>d' \<in> set ds. d' = d \<or> rootOperator E d \<and> \<not> rootOperator E d')"
proof -
  have "(\<forall>d' \<in> set ds. d' = d \<or> rootOperator E d \<and> \<not> rootOperator E d')"
    if "resolvePreferredOperator E ds = Some (Some d)"
  proof -
    have f: "filter (\<lambda>d. sr_primitive d \<and> sr_region d = ce_rootDecl E) ds = [d]"
      using that by (auto simp: resolvePreferredOperator_def split: list.splits)
    have s: "set (filter (rootOperator E) ds) = {d}"
      using arg_cong [OF f, of set] by (simp add: rootOperator_def)
    then show ?thesis by auto
  qed
  then show ?thesis using preferredOf_member [OF assms] assms by (auto simp: preferredOf_def split: list.splits)
qed

section \<open>What is promised\<close>

text \<open>
  C17. The check of an expression in a context posts a report if it rejects the expression, and posts none if
  it accepts it.
\<close>

theorem rejected_iff_reported:
  assumes "checkExprInContext E e context = Some (ds, r)"
  shows "r = None \<longleftrightarrow> ds \<noteq> []"
  using checkExprInContext_coherent assms unfolding coherent_def by blast

theorem rejected_iff_reported_witness:
  "checkExprInContext callEnv sampleVar 3 = Some ([(8, DISCRETE_CHECK INCOMPATIBLE_TYPES)], None)"
  using rejected_iff_reported [OF sampleReject] sampleReject by simp


lemma callEnv_ok: "okEnv callEnv"
  by (simp add: okEnv_def callEnv_def callTypes_def isIntegerType_def primaryKindOf_def)

lemma sampleVar_built: "built callEnv sampleVar"
  by (simp add: sampleVar_def built_checked checked_ref)

lemma sampleCall_built: "built callEnv sampleCall"
  unfolding sampleCall_def
  using sampleVar_built by (intro built_call [where pos = "[sampleVar]"]) (auto simp: isUnambiguous_def sampleRef_def callArgs_def)


text \<open>
  C18. What an application makes of nodes that are built is built again: a call whose arguments are checked and of their parameters'
  types, a call that waits for its context, an indexed array or a conversion.  A rejected application is reported.
\<close>

theorem application_built:
  assumes "okEnv E" "nodeBuilt E prfx" "list_all (nodeBuilt E) ns" "acceptApplication E prfx ns = Some (ds, r)"
  shows "(r = None \<longleftrightarrow> ds \<noteq> []) \<and> (\<forall>n. r = Some n \<longrightarrow> nodeBuilt E n)"
proof -
  have "ensures (acceptApplication E prfx ns) (nodeBuilt E)"
  proof (cases prfx)
    case (ExprNode e)
    then have "built E e" using assms(2) by simp
    then show ?thesis
      using ExprNode by (auto simp: acceptApplication_def intro!: ensures_andThen ensures_mono [OF arrayIndexNodes_ok [OF assms(3)]]
          ensures_mono [OF acceptIndexedArray_ok [OF assms(1)]])
  next
    case (SubroutineRefNode ref)
    then show ?thesis using acceptSubroutineApplication_ok [OF assms(1,3)] by (simp add: acceptApplication_def)
  next
    case (TypeRefNode l t)
    then show ?thesis
      by (auto simp: acceptApplication_def intro!: ensures_andThen ensures_mono [OF acceptConversionExpr_ok [OF assms(3)]])
  qed (simp_all add: acceptApplication_def)
  then show ?thesis
    using assms(4) acceptApplication_coherent [of E prfx ns] by (auto simp: ensures_def coherent_def)
qed

theorem application_built_witness: "nodeBuilt callEnv (ExprNode sampleCall)"
  using application_built [OF callEnv_ok _ _ sampleApplication] sampleVar_built by simp

text \<open>
  C16. A call of overloaded functions that waits for its context is resolved in a context to a function that accepts its
  keywords and arguments and returns a type that covers the context; every other such function gives way to
  it because it is the operator of root integer and the other is not.
\<close>

theorem overload_resolved:
  assumes "acceptSubroutineCall E ref pos keys = Some (ds, Some (ExprNode e))" "exprType e = None"
    "resolveIn E t = Some ctx" "\<not> isAnyUniversal (ce_store E) ctx" "checkExprInContext E e t = Some (es, Some e')"
  shows "\<exists>d l c. unconverted e' = CallExpr l (Some (sr_return d)) c \<and> getConnective c = Some d \<and> eligible E ref pos keys ctx d \<and>
    (\<forall>d'. eligible E ref pos keys ctx d' \<longrightarrow> d' = d \<or> rootOperator E d \<and> \<not> rootOperator E d')"
proof -
  obtain l call where call: "e = CallExpr l None call" "\<not> isUnambiguous call"
    "callFunctions call = filter (\<lambda>d. routineAcceptsKeywords d (length pos) keys \<and> acceptsTypes E pos keys d = Some True) (ref_decls ref)"
    using acceptSubroutineCall_waits [OF assms(1,2)] by blast
  have "checkExprInContext E e t = resolveCallInContext E (checkExprInContext E) l None call ctx"
    unfolding checkExprInContext.simps [of E e t] checkStep_def
    using assms(3,4) call(1) by (auto simp: isAnyUniversal_def split: type_obj.splits)
  then have r: "resolveCallInContext E (checkExprInContext E) l None call ctx = Some (es, Some e')" using assms(5) by simp
  obtain cs p where cs: "keepOnly (\<lambda>d. coversIn E (sr_return d) ctx) (callFunctions call) = Some cs" "preferredOf E cs = Some p"
    using r call(2) by (auto simp: resolveCallInContext_def resolvePreferredConnective_def bind_eq_Some_conv)
  then obtain d where d: "p = Some d" using r call(2)
    by (cases p) (auto simp: resolveCallInContext_def resolvePreferredConnective_def fails_def)
  have "andThen (resolveCallWith E (checkExprInContext E) d l None call) (\<lambda>e. do { e' \<leftarrow> convertIn E e ctx; yields e' }) =
      Some (es, Some e')"
    using r call(2) cs d by (simp add: resolveCallInContext_def resolvePreferredConnective_def)
  then obtain xs e1 where e1: "resolveCallWith E (checkExprInContext E) d l None call = Some (xs, Some e1)"
    "convertIn E e1 ctx = Some e'"
    by (auto simp: andThen_def yields_def bind_eq_Some_conv split: option.splits prod.splits)
  obtain k c where k: "e1 = CallExpr k (Some (sr_return d)) c" "getConnective c = Some d"
    using resolveCallWith_connective [OF e1(1)] by blast
  have "unconverted e' = e1" using e1(2) k(1) by (auto simp: convertIfNeeded_def bind_eq_Some_conv)
  moreover have "x \<in> set cs \<longleftrightarrow> eligible E ref pos keys ctx x" for x
    using keepOnly_Some [OF cs(1)] call(3) by (auto simp: eligible_def)
  ultimately show ?thesis using k preferredOf_unique [OF cs(2) [unfolded d]] by metis
qed

lemma sampleAccept: "acceptSubroutineCall callEnv sampleRef [sampleVar] [] = Some ([], Some (ExprNode sampleCall))"
  by code_simp

theorem overload_resolved_witness:
  "\<exists>d. eligible callEnv sampleRef [sampleVar] [] 2 d \<and>
    (\<forall>d'. eligible callEnv sampleRef [sampleVar] [] 2 d' \<longrightarrow> d' = d \<or> rootOperator callEnv d \<and> \<not> rootOperator callEnv d')"
proof -
  have "exprType sampleCall = None" "resolveIn callEnv 2 = Some 2" "\<not> isAnyUniversal (ce_store callEnv) 2" by code_simp+
  from overload_resolved [OF sampleAccept this sampleCheck] show ?thesis by blast
qed

section \<open>Inputs on which a check goes wrong\<close>

text \<open>An argument that waits for its context and is no call, literal or null makes the choice among overloaded subroutines fail.\<close>

lemma waiting_argument_fails:
  "checkApplicableArgument E (AllocatorExpr l None x) t = None"
  "checkApplicableArgument E (SelectedExpr l None p s c) t = None"
  "checkApplicableArgument E (IndexedArrayExpr l None p is) t = None"
  by (simp_all add: checkApplicableArgument_def)

lemma overloaded_allocator_fails:
  "acceptApplication callEnv (SubroutineRefNode sampleRef) [ExprNode (AllocatorExpr 8 None (Inr 4))] = None"
  by code_simp

text \<open>So does a keyword that is given twice, once the call is resolved; with one subroutine of the name it is reported.\<close>

definition twoParams :: "nat \<Rightarrow> nat \<Rightarrow> subroutine" where
  "twoParams i t = (sampleFunction i t)\<lparr>sr_params := [(''x'', 0, MODE_DEFAULT), (''y'', 0, MODE_DEFAULT)]\<rparr>"

definition twiceX :: "(nat \<times> int) node list" where
  "twiceX = [SelectorNode ''x'' 8 (Inl sampleVar), SelectorNode ''x'' 9 (Inl sampleVar)]"

lemma duplicate_keyword_fails:
  "acceptApplication callEnv (SubroutineRefNode \<lparr>ref_loc = 7, ref_decls = [twoParams 10 0]\<rparr>) twiceX =
     Some ([(9, DUPLICATE_KEYWORD ''x'')], None)"
  "\<exists>e. acceptApplication callEnv (SubroutineRefNode \<lparr>ref_loc = 7, ref_decls = [twoParams 10 0, twoParams 11 3]\<rparr>) twiceX =
     Some ([], Some (ExprNode e)) \<and> checkExprInContext callEnv e 0 = None"
proof -
  show "acceptApplication callEnv (SubroutineRefNode \<lparr>ref_loc = 7, ref_decls = [twoParams 10 0]\<rparr>) twiceX =
     Some ([(9, DUPLICATE_KEYWORD ''x'')], None)" by code_simp
  let ?e = "CallExpr 7 None (SubroutineCall \<lparr>ref_loc = 7, ref_decls = [twoParams 10 0, twoParams 11 3]\<rparr> 0 [None, None]
    [KeywordSelector ''x'' 8 sampleVar, KeywordSelector ''x'' 9 sampleVar])"
  have "acceptApplication callEnv (SubroutineRefNode \<lparr>ref_loc = 7, ref_decls = [twoParams 10 0, twoParams 11 3]\<rparr>) twiceX =
     Some ([], Some (ExprNode ?e))" "checkExprInContext callEnv ?e 0 = None" by code_simp+
  then show "\<exists>e. acceptApplication callEnv (SubroutineRefNode \<lparr>ref_loc = 7, ref_decls = [twoParams 10 0, twoParams 11 3]\<rparr>) twiceX =
     Some ([], Some (ExprNode e)) \<and> checkExprInContext callEnv e 0 = None" by blast
qed

text \<open>An element of an array that an overloaded function returns is built and never resolved.\<close>

lemma ambiguous_element_fails:
  assumes "resolveIn E t = Some ctx" "\<not> isAnyUniversal (ce_store E) ctx"
  shows "checkExprInContext E (IndexedArrayExpr l None p is) t = None"
  using assms
  by (auto simp: checkExprInContext.simps [of E "IndexedArrayExpr l None p is"] checkStep_def hasResolvedType_def isAnyUniversal_def
      split: type_obj.splits)

text \<open>The bound of a type fails in a context it does not cover, and is never converted in one it does.\<close>

lemma bound_in_context:
  assumes "\<not> isAnyUniversal (ce_store E) t" "coversIn E t ctx = Some c"
  shows "resolveAttribute E (ScalarBoundAE l (Some t) b) ctx = (if c then yields (ScalarBoundAE l (Some t) b) else None)"
  using assms by (simp add: resolveAttribute_def hasResolvedType_def)

lemma bound_without_conversion:
  "checkExprInContext callEnv (ScalarBoundAE 8 (Some 0) True) 2 = Some ([], Some (ScalarBoundAE 8 (Some 0) True)) \<and>
   conversionRequired callTypes 7 0 2 = Some True"
  by code_simp

lemma bound_of_record_fails:
  "checkAttribute callEnv AttrFirst (TypeRefNode 8 (CompleteTypeDecl 4 None None)) 9 =
     Some ([], Some (ExprNode (ScalarBoundAE 9 None True))) \<and>
   checkExprInContext callEnv (ScalarBoundAE 9 None True) 0 = None"
  by code_simp

text \<open>The length of an array is checked as if it were the number of its dimension, zero.\<close>

lemma length_checked_as_zero:
  assumes "isAnyUniversal (ce_store E) t"
    "resolveUniversalLiteral (ce_ops E) (ce_rootType E) (si_ofNat (ce_ops E) 1 0) (integerAt E ctx) = Some (LiteralRejected k)"
  shows "resolveAttribute E (LengthAE l t p) ctx = rejects l (DISCRETE_CHECK k)"
  using assms by (simp add: resolveAttribute_def hasResolvedType_def)

text \<open>An array type behind a private type is not seen by an index, even where the completion is visible.\<close>

lemma private_array_not_indexed:
  assumes "exprType e = Some t" "isPrivate (ce_store E) t"
  shows "acceptIndexedArray E e is = rejects (exprLoc e) EXPECTED_ARRAY_FOR_INDEX"
proof -
  have k: "\<exists>d. primaryKindOf (ce_store E) t = Some (PrivateType d)"
    using assms(2) by (auto simp: isPrivate_def split: option.splits primary_kind.splits)
  then have "hasResolvedType (ce_store E) e" "\<not> isArrayType (ce_store E) t"
    using assms(1) primary_not_universal [of "ce_store E" t] by (auto simp: hasResolvedType_def isArrayType_def)
  then show ?thesis
    using assms(1) k by (auto simp: acceptIndexedArray_def getClassDereference.simps)
qed

text \<open>A value of an incomplete type cannot be dereferenced, even if its completion is an access type.\<close>

lemma incomplete_not_dereferenced:
  assumes "exprType e = Some t" "isIncomplete (ce_store E) t"
  shows "newDereference (ce_store E) e l i = None"
proof -
  have "\<exists>d. primaryKindOf (ce_store E) t = Some (IncompleteType d)"
    using assms(2) by (auto simp: isIncomplete_def split: option.splits primary_kind.splits)
  then show ?thesis using assms(1) by (auto simp: newDereference_def completePrivate.simps isPrivate_def)
qed

text \<open>In a statement the name of a function and a procedure of one region fails.\<close>

lemma expanded_statement_fails:
  assumes "sr_name f = name" "sr_name p = name" "sr_isFunction f" "\<not> sr_isFunction p"
  shows "processExpandedName [RoutineItem f, RoutineItem p] name loc True = None"
  using assms by (simp add: processExpandedName_def verifyRef_def)

text \<open>A variable for a parameter that is written and whose type is constrained is put under a conversion.\<close>

definition writer :: subroutine where
  "writer = \<lparr>sr_id = 12, sr_name = ''p'', sr_isFunction = False, sr_params = [(''x'', 2, MODE_OUT)], sr_return = 0,
     sr_primitive = False, sr_region = 21\<rparr>"

lemma written_variable_converted:
  "acceptApplication callEnv (SubroutineRefNode \<lparr>ref_loc = 7, ref_decls = [writer]\<rparr>) [ExprNode (DeclRefExpr 8 (ObjectDecl 0))] =
     Some ([], Some (ProcedureCallNode 7 (SubroutineCall \<lparr>ref_loc = 7, ref_decls = [writer]\<rparr> 1
       [Some (ConvertedExpr 8 2 (DeclRefExpr 8 (ObjectDecl 0)) True)] [])))"
  by code_simp

end
