(* ===== verification/Spec2Isabelle.thy ===== *)
theory Spec2Isabelle
  imports Dependencies Literal Runtime SourceManager Scope DiscreteTypes TypeStore PackageUnits LinkNameSpec Emission CallChoice
begin

text \<open>
  The Comma compiler, translated from its C++ sources as far as it decides anything without
  LLVM, with the theorems that make it correct.  Paths below are relative to the repository;
  C++ headers are under \<^verbatim>\<open>include/comma\<close>.

  \<^bold>\<open>The program.\<close>  The driver's \<^verbatim>\<open>SourceManager\<close> finds the file of a unit, reads its
  \<^verbatim>\<open>with\<close> clauses with a \<^verbatim>\<open>DepParser\<close> and orders the files by dependence.  A
  \<^verbatim>\<open>TextProvider\<close> holds one text and turns offsets into lines and columns on demand.  The
  \<^verbatim>\<open>Lexer\<close> reads characters from it and emits tokens; it reports errors to a
  \<^verbatim>\<open>Diagnostic\<close>, which formats them.  A \<^verbatim>\<open>ParserBase\<close> keeps the current token, peeks,
  seeks and opens excursions over the lexer.  The \<^verbatim>\<open>Parser\<close> is a recursive descent parser over it.
  It builds no tree: it calls a \<^verbatim>\<open>ParseClient\<close> for everything it recognises and passes
  back the nodes the client made.  The client is \<^verbatim>\<open>TypeCheck\<close>: it keeps the
  \<^verbatim>\<open>Scope\<close>, resolves names and types, and builds the abstract syntax tree.
  \<^verbatim>\<open>CodeGen\<close> walks the checked packages and emits every subroutine they need under its
  link name; the emitted code runs on the run-time library, whose \<^verbatim>\<open>_comma_eh_personality\<close>
  decides where an exception is handled.

  \<^bold>\<open>The theories of the front end.\<close>
  \<^item> \<open>Prelude\<close>: lists, the weakest-precondition calculus for the library's state monad, loops
    with fuel.
  \<^item> \<open>SourceText\<close>: \<^verbatim>\<open>basic/Location.h\<close>, \<^verbatim>\<open>lib/basic/TextProvider.cpp\<close>.
  \<^item> \<open>Tokens\<close>: \<^verbatim>\<open>parser/Tokens.def\<close> and the token class of \<^verbatim>\<open>parser/Lexer.h\<close>.
  \<^item> \<open>Tables\<close>: \<^verbatim>\<open>lib/basic/Attributes.cpp\<close>, \<^verbatim>\<open>Pragmas.cpp\<close>, \<^verbatim>\<open>PrimitiveOps.cpp\<close>, the
    identifier pool.
  \<^item> \<open>Diagnostics\<close>: \<^verbatim>\<open>lib/basic/Diagnostic.cpp\<close> and its table of formats.
  \<^item> \<open>Scanner\<close>, \<open>ScanSafety\<close>: the character level of \<^verbatim>\<open>lib/parser/Lexer.cpp\<close>; progress of a
    scan and the bounds of the buffer.
  \<^item> \<open>TokenBuffer\<close>: the token buffer of the lexer; the locale \<open>token_source\<close> is what the parser
    relies on (the tokens to come, the marks of the excursions) and is interpreted on the lexer.
  \<^item> \<open>Client\<close>: the callbacks of \<^verbatim>\<open>parser/ParseClient.h\<close> as values, the state of the
    parser, its monad.
  \<^item> \<open>ParserBase\<close>, \<open>Lookahead\<close>, \<open>Literal\<close>, \<open>ParseName\<close>, \<open>ParseExpr\<close>, \<open>ParseDecl\<close>, \<open>ParseStmt\<close>,
    \<open>ParseUnit\<close>: the parser, function by function.
  \<^item> \<open>ParserSpec\<close>, \<open>LookaheadSpec\<close>, \<open>NameSpec\<close>, \<open>ExprSpec\<close>, \<open>DeclSpec\<close>, \<open>StmtSpec\<close>, \<open>UnitSpec\<close>: the
    protocol of the client, the invariant \<open>G\<close> of a run, and a rule for every function of the parser in the
    calculus of the prelude.  The parsers of nested expressions and of nested statements are
    reached through the locales \<open>expr_parser\<close> and \<open>stmt_parser\<close>, whose contracts are proved by
    induction on the nesting and interpreted on \<open>parseExpr\<close> and \<open>parseStatement\<close>.
  \<^item> \<open>FrontEnd\<close>: whole runs from a text.  They end, keep the protocol, never hand over an
    invalid operand, report with the right number of arguments, leave no excursion open, and say where they
    stop.
  \<^item> \<open>Dependencies\<close>: the dependency parser computes a function of the tokens of the text.

  \<^bold>\<open>The theories of the type checker.\<close>  They start where the callbacks of the parser arrive.
  \<^item> \<open>Scope\<close>: \<^verbatim>\<open>lib/typecheck/Scope.cpp\<close>, \<^verbatim>\<open>Homonym.h\<close>, \<^verbatim>\<open>Resolver.cpp\<close>.  The homonyms
    hidden in the identifiers, the cached entries and the frames agree; a name resolves to what
    the visibility rules of the open regions say.
  \<^item> \<open>ApInt\<close>: the arithmetic of \<^verbatim>\<open>lib/ast/Eval.cpp\<close> that widens as needed, over the
    operations of \<^verbatim>\<open>llvm::APInt\<close>, whose documented meaning is \<open>sint_laws\<close>.
  \<^item> \<open>DiscreteTypes\<close>: static evaluation (\<^verbatim>\<open>lib/ast/Eval.cpp\<close>), \<^verbatim>\<open>Range.cpp\<close>, the discrete
    types of \<^verbatim>\<open>Type.cpp\<close>, the declarations of integer types, and integer literals of
    \<^verbatim>\<open>CheckExpr.cpp\<close>: bounds, containment, the choice of a representation.
  \<^item> \<open>TypeStore\<close>: types as addresses into a store; the root type, \<^verbatim>\<open>covers\<close>, conversions
    and dereferencing of \<^verbatim>\<open>TypeCheck.cpp\<close>, incomplete types and their completions.
  \<^item> \<open>Packages\<close>: \<^verbatim>\<open>CheckPackage.cpp\<close>, \<^verbatim>\<open>CheckSubroutine.cpp\<close>, the declarative regions of
    \<^verbatim>\<open>lib/ast/DeclRegion.cpp\<close>, packages, bodies, private parts, instances, imports.
    \<open>PackagesSpec\<close> is the invariant of every operation, \<open>PackagesRun\<close> the invariant of a whole
    unit, \<open>PackageUnits\<close> what an accepted unit promises: every export is completed.
  \<^item> \<open>Exprs\<close>: \<^verbatim>\<open>ast/Expr.h\<close>, \<^verbatim>\<open>SubroutineRef.h\<close>, \<^verbatim>\<open>SubroutineCall.h\<close> with their
    sources: expressions and calls, the resolution of a call, conversions and dereferences.
  \<^item> \<open>ExprCheck\<close>: \<^verbatim>\<open>checkExprInContext\<close> and everything it calls in \<^verbatim>\<open>CheckExpr.cpp\<close>,
    \<^verbatim>\<open>CheckCall.cpp\<close> and \<^verbatim>\<open>CheckAttrib.cpp\<close>: an expression against the type its context expects.
    \<open>CallCheck\<close>: the callbacks for applications, names, operands and attributes in these files and in
    \<^verbatim>\<open>CheckName.cpp\<close>.
  \<^item> \<open>ExprCheckSpec\<close>: a check rejects exactly when it reports.  \<open>ExprTyping\<close>, \<open>CallTyping\<close>: the
    judgements \<open>built\<close> and \<open>checked\<close> of expressions before and after the check, which the callbacks
    and the check keep.  \<open>CallChoice\<close>: what is promised of a checked expression and of the choice among overloaded
    functions, and the inputs on which a check fails.

  \<^bold>\<open>The theories of the driver, the code generator and the run-time library.\<close>
  \<^item> \<open>SourceManager\<close>: \<^verbatim>\<open>tools/driver/SourceManager.cpp\<close>.  Every file is loaded after the files it
    depends on, and a cycle is reported.
  \<^item> \<open>LinkNames\<close>, \<open>LinkNameSpec\<close>: \<^verbatim>\<open>lib/codegen/Mangle.cpp\<close>, \<^verbatim>\<open>InstanceInfo.cpp\<close>.  Different
    subroutines have different link names, with the exception the lemma \<open>private_name_collides\<close> shows.
  \<^item> \<open>Emission\<close>: the worklist of \<^verbatim>\<open>lib/codegen/CodeGen.cpp\<close>.  When it is empty, every
    subroutine that is reached is emitted, once.
  \<^item> \<open>Dwarf\<close>, \<open>Personality\<close>: the reader of DWARF values and the personality of
    \<^verbatim>\<open>lib/runtime/crt_exceptions.c\<close>: LEB128 numbers, the call site, action and type tables.
  \<^item> \<open>Runtime\<close>: \<^verbatim>\<open>lib/runtime/crt_vstack.c\<close>, \<^verbatim>\<open>crt_math.c\<close> and the rest of
    \<^verbatim>\<open>crt_exceptions.c\<close>: the stack of results over an explicit heap, powers of machine
    integers, the creation and disposal of exceptions.

  \<^bold>\<open>State and effects.\<close>  The state of the parser is the record \<open>pstate\<close>: the current token, the
  lexer, the saved tokens, the identifier pool, the end tags, and the histories of reports and
  callbacks.  The client answers each callback as a function of the history that ends with it.
  A reason not to go on (a failed \<^verbatim>\<open>assert\<close>, the top of an empty stack) is kept in
  \<open>ps_halt\<close>; what a run does after it has no counterpart in the program.  In the theories of the
  type checker and of the code generator an operation returns an \<open>option\<close>, and \<open>None\<close> is a failed
  assertion, a null pointer or a loop that does not end.  Nodes that are shared are addresses
  into a store.

  \<^bold>\<open>Loops and fuel.\<close>  Loops over characters are recursive functions with a termination proof.
  Loops of the parser depend on calls of the client and are \<open>iterM\<close> with the fuel \<open>en_fuel\<close>;
  every round that is followed by another one consumes a token, so fuel above the number of
  tokens is enough.  The recursion of expressions and statements has the same bound.  The source
  manager recurses over files that are not loaded yet; the number of files is enough fuel.  The
  worklist of the code generator is bounded by the number of subroutines.

  \<^bold>\<open>Not modelled.\<close>  Files and the text manager, the command line, the reference counts of
  nodes, printing, dumping and rewriting of the tree, aggregates, string literals, statements and
  the remaining declarations of the type checker, and the LLVM instructions
  the code generator builds.  Code that is not in the repository is a parameter or is used
  by its documented meaning: the unwinder, \<^verbatim>\<open>malloc\<close>, the file system, \<^verbatim>\<open>llvm::APInt\<close>.
  The checks of expressions take the components of record types and the declarations behind a package as parameters.
  \<open>Emission\<close> takes the calls of each body as a parameter, and the order in which a hash table
  is walked as the hypothesis \<open>walks\<close>.
\<close>

end
